(* ===== verification/Prelude.thy ===== *)
theory Prelude
  imports Complex_Main "HOL-Library.Word"
begin

text \<open>
  Shared vocabulary of the development: the result type of a fallible operation, the
  early-exit loop \<open>foldM\<close>, array updates by index, and the machine-integer widths the
  C++ sources use. Nothing here is specific to point clouds.
\<close>

named_theorems model_defs \<open>definitional equations of the small helpers, for unfolding in proofs\<close>
named_theorems fp_simps \<open>evaluation rules of the floating-point operations\<close>

subsection \<open>Widths\<close>

type_synonym u8 = "8 word"
type_synonym u16 = "16 word"
type_synonym u32 = "32 word"
type_synonym u64 = "64 word"
type_synonym i32 = "32 word"

text \<open>\<open>std::size_t\<close> of the supported 64-bit targets.\<close>
type_synonym size_w = "64 word"

subsection \<open>Fallible steps\<close>

definition is_ok :: "'e + 'a \<Rightarrow> bool" where
  "is_ok r = (case r of Inl _ \<Rightarrow> False | Inr _ \<Rightarrow> True)"

lemma is_ok_simps [simp]: "is_ok (Inr a)" "\<not> is_ok (Inl e)"
  by (simp_all add: is_ok_def)

lemma is_ok_iff: "is_ok r \<longleftrightarrow> (\<exists>a. r = Inr a)"
  by (cases r) simp_all

definition rbind :: "'e + 'a \<Rightarrow> ('a \<Rightarrow> 'e + 'b) \<Rightarrow> 'e + 'b" where
  "rbind r f = (case r of Inl e \<Rightarrow> Inl e | Inr a \<Rightarrow> f a)"

lemma rbind_simps [simp]: "rbind (Inl e) f = Inl e" "rbind (Inr a) f = f a"
  by (simp_all add: rbind_def)

lemma rbind_Inr_iff: "rbind r f = Inr b \<longleftrightarrow> (\<exists>a. r = Inr a \<and> f a = Inr b)"
  by (cases r) simp_all

lemma rbind_Inl_iff: "rbind r f = Inl e \<longleftrightarrow> r = Inl e \<or> (\<exists>a. r = Inr a \<and> f a = Inl e)"
  by (cases r) simp_all

text \<open>
  A guard: \<open>require ok e k\<close> is the early return \<open>if (!ok) return failure(e);\<close>
  followed by the rest \<open>k\<close> of the function.
\<close>

definition require :: "bool \<Rightarrow> 'e \<Rightarrow> 'e + 'a \<Rightarrow> 'e + 'a" where
  "require ok e k = (if ok then k else Inl e)"

lemma require_simps [simp]: "require True e k = k" "require False e k = Inl e"
  by (simp_all add: require_def)

lemma require_Inr_iff: "require ok e k = Inr b \<longleftrightarrow> ok \<and> k = Inr b"
  by (simp add: require_def)

lemma require_Inl_iff: "require ok e k = Inl d \<longleftrightarrow> (\<not> ok \<and> d = e) \<or> (ok \<and> k = Inl d)"
  by (auto simp: require_def)

text \<open>
  A mandatory configuration field: \<open>need v e k\<close> is \<open>if (!v) return failure(e);\<close>
  followed by uses of \<open>*v\<close>.
\<close>

definition need :: "'v option \<Rightarrow> 'e \<Rightarrow> ('v \<Rightarrow> 'e + 'a) \<Rightarrow> 'e + 'a" where
  "need v e k = (case v of None \<Rightarrow> Inl e | Some x \<Rightarrow> k x)"

lemma need_simps [simp]: "need None e k = Inl e" "need (Some x) e k = k x"
  by (simp_all add: need_def)

lemma need_Inr_iff: "need v e k = Inr b \<longleftrightarrow> (\<exists>x. v = Some x \<and> k x = Inr b)"
  by (cases v) simp_all

lemma need_Inl_iff: "need v e k = Inl d \<longleftrightarrow> (v = None \<and> d = e) \<or> (\<exists>x. v = Some x \<and> k x = Inl d)"
  by (cases v) auto

text \<open>A loop whose body may return early with an error.\<close>

fun foldM :: "('s \<Rightarrow> 'a \<Rightarrow> 'e + 's) \<Rightarrow> 'a list \<Rightarrow> 's \<Rightarrow> 'e + 's" where
  "foldM f [] s = Inr s"
| "foldM f (x # xs) s = rbind (f s x) (foldM f xs)"

lemma foldM_append: "foldM f (xs @ ys) s = rbind (foldM f xs s) (foldM f ys)"
  by (induction xs arbitrary: s) (simp_all add: rbind_def split: sum.splits)

lemma foldM_invariant:
  assumes "foldM f xs s = Inr s'" and "I s"
    and "\<And>s x s'. x \<in> set xs \<Longrightarrow> I s \<Longrightarrow> f s x = Inr s' \<Longrightarrow> I s'"
  shows "I s'"
  using assms by (induction xs arbitrary: s) (auto simp: rbind_Inr_iff)

lemma foldM_all_ok:
  "foldM f xs s = Inr s' \<Longrightarrow> x \<in> set xs \<Longrightarrow> \<exists>t t'. f t x = Inr t'"
  by (induction xs arbitrary: s) (auto simp: rbind_Inr_iff)

lemma foldM_error:
  "foldM f xs s = Inl e \<Longrightarrow> \<exists>x \<in> set xs. \<exists>t. f t x = Inl e"
proof (induction xs arbitrary: s)
  case (Cons x xs)
  then show ?case by (auto simp: rbind_Inl_iff)
qed simp

text \<open>A loop that only checks: the state is the unit value.\<close>

definition check_all :: "('a \<Rightarrow> 'e + unit) \<Rightarrow> 'a list \<Rightarrow> 'e + unit" where
  "check_all f xs = foldM (\<lambda>_ x. f x) xs ()"

lemma check_all_simps [simp]:
  "check_all f [] = Inr ()"
  "check_all f (x # xs) = rbind (f x) (\<lambda>_. check_all f xs)"
  by (simp_all add: check_all_def rbind_def split: sum.splits)

lemma check_all_ok_iff: "check_all f xs = Inr u \<longleftrightarrow> (\<forall>x \<in> set xs. f x = Inr ())"
  by (induction xs) (auto simp: rbind_Inr_iff)

lemma check_all_error:
  "check_all f xs = Inl e \<Longrightarrow> \<exists>x \<in> set xs. f x = Inl e"
  by (induction xs) (auto simp: rbind_Inl_iff)

text \<open>A loop whose body may fail to return.\<close>

fun foldO :: "('a \<Rightarrow> 's \<Rightarrow> 's option) \<Rightarrow> 'a list \<Rightarrow> 's \<Rightarrow> 's option" where
  "foldO f [] s = Some s"
| "foldO f (x # xs) s = Option.bind (f x s) (foldO f xs)"

lemma foldO_append: "foldO f (xs @ ys) s = Option.bind (foldO f xs s) (foldO f ys)"
  by (induction xs arbitrary: s) (simp_all add: bind_eq_None_conv split: bind_splits)

lemma foldO_concat: "foldO f (concat xss) = foldO (foldO f) xss"
  by (induction xss) (rule ext, simp add: foldO_append)+

lemma foldO_invariant:
  assumes "I s" "\<And>x s. x \<in> set xs \<Longrightarrow> I s \<Longrightarrow> \<exists>s'. f x s = Some s' \<and> I s'"
  shows "\<exists>s'. foldO f xs s = Some s' \<and> I s'"
  using assms by (induction xs arbitrary: s) fastforce+

lemma foldO_map: "foldO f (map g xs) = foldO (\<lambda>x. f (g x)) xs"
  by (induction xs) (rule ext, simp)+

subsection \<open>Loops over an index range, and arrays\<close>

lemma fold_invariant_set:
  assumes "I s" and "\<And>s x. x \<in> set xs \<Longrightarrow> I s \<Longrightarrow> I (f x s)"
  shows "I (fold f xs s)"
  using assms by (induction xs arbitrary: s) auto

text \<open>
  Writing one array slot per distinct index. Every per-point stage of the program has the
  shape \<open>for each logical index i: out[i] = g(i)\<close>.
\<close>

definition write_each :: "(nat \<Rightarrow> 'a) \<Rightarrow> nat list \<Rightarrow> 'a list \<Rightarrow> 'a list" where
  "write_each g is xs = fold (\<lambda>i ys. ys[i := g i]) is xs"

lemma length_write_each [simp]: "length (write_each g is xs) = length xs"
  unfolding write_each_def by (induction "is" arbitrary: xs) simp_all

lemma nth_write_each:
  "i < length xs \<Longrightarrow> write_each g is xs ! i = (if i \<in> set is then g i else xs ! i)"
  unfolding write_each_def
proof (induction "is" arbitrary: xs)
  case Nil
  then show ?case by simp
next
  case (Cons j js)
  then show ?case by (cases "i = j") (auto simp: nth_list_update)
qed

lemma write_each_Cons:
  "write_each g (i # js) xs = write_each g js (xs[i := g i])"
  by (simp add: write_each_def)

lemma write_each_cong:
  "(\<And>i. i \<in> set js \<Longrightarrow> g i = h i) \<Longrightarrow> write_each g js xs = write_each h js xs"
  by (induction js arbitrary: xs) (simp_all add: write_each_def)

lemma write_each_Nil [simp]: "write_each g js [] = []"
  by (metis length_write_each length_0_conv)

lemma write_each_eq_Nil_iff [simp]: "write_each g js xs = [] \<longleftrightarrow> xs = []"
  by (metis length_write_each length_0_conv)

text \<open>Marking the slots that satisfy a condition.\<close>

lemma marked_slots:
  "i < length m \<Longrightarrow>
   fold (\<lambda>i m. if P i then m[i := v] else m) js m ! i = (if i \<in> set js \<and> P i then v else m ! i)"
proof (induction js arbitrary: m)
  case (Cons j js)
  then show ?case by (cases "i = j") (auto simp: nth_list_update)
qed simp

lemma length_marked_slots [simp]:
  "length (fold (\<lambda>i m. if P i then m[i := v] else m) js m) = length m"
  by (induction js arbitrary: m) simp_all

lemma length_filter_upt_eq_card: "length (filter P [0..<n]) = card {i. i < n \<and> P i}"
proof -
  have "length (filter P [0..<n]) = card (set (filter P [0..<n]))"
    by (rule distinct_card [symmetric]) simp
  also have "set (filter P [0..<n]) = {i. i < n \<and> P i}" by auto
  finally show ?thesis .
qed

lemma distinct_length_filter: "distinct xs \<Longrightarrow> length (filter P xs) = card {x \<in> set xs. P x}"
  by (metis distinct_card distinct_filter set_filter)

end
