(* ===== verification/IEEE754.thy ===== *)
theory IEEE754
  imports Prelude
begin

text \<open>
  The \<open>float\<close> and \<open>double\<close> of the program: IEEE-754 binary32 and binary64 with
  round-to-nearest-even, signed zeros, infinities, gradual underflow and NaN. A finite value is
  the rational number it denotes; the format is a phantom type of the length class, so that
  \<open>32 fp\<close> and \<open>64 fp\<close> are different types and \<open>+\<close>, \<open>*\<close>, \<open>/\<close>, \<open><\<close>
  are the C++ operators on them. NaN payloads are not modelled: the sources never inspect them.
\<close>

datatype 'f fp = NaN | Inf bool | NegZero | Num rat

type_synonym f32 = "32 fp"
type_synonym f64 = "64 fp"

subsection \<open>Formats\<close>

definition precision :: "'f::len itself \<Rightarrow> nat" where
  "precision _ = (if LENGTH('f) = 32 then 24 else 53)"

definition emax :: "'f::len itself \<Rightarrow> int" where
  "emax _ = (if LENGTH('f) = 32 then 127 else 1023)"

definition emin :: "'f::len itself \<Rightarrow> int" where
  "emin f = 1 - emax f"

lemma precision_pos: "24 \<le> precision TYPE('f::len)" "precision TYPE('f::len) \<le> 53"
  by (simp_all add: precision_def)

lemma emax_pos: "127 \<le> emax TYPE('f::len)"
  by (simp add: emax_def)

subsection \<open>Binary exponent of a rational\<close>

function nlog2 :: "int \<Rightarrow> nat" where
  "nlog2 n = (if n < 2 then 0 else Suc (nlog2 (n div 2)))"
  by pat_completeness auto
termination
  by (relation "measure nat") auto

declare nlog2.simps [simp del]

lemma nlog2_bounds: "0 < n \<Longrightarrow> 2 ^ nlog2 n \<le> n \<and> n < 2 ^ Suc (nlog2 n)"
proof (induction n rule: nlog2.induct)
  case (1 n)
  show ?case
  proof (cases "n < 2")
    case True
    with "1.prems" show ?thesis by (simp add: nlog2.simps [of n])
  next
    case False
    then have "0 < n div 2" by simp
    with False "1.IH" have "2 ^ nlog2 (n div 2) \<le> n div 2" "n div 2 < 2 ^ Suc (nlog2 (n div 2))"
      by auto
    then have "2 * 2 ^ nlog2 (n div 2) \<le> n" "n < 2 * 2 ^ Suc (nlog2 (n div 2))" by linarith+
    with False show ?thesis by (simp add: nlog2.simps [of n])
  qed
qed

text \<open>\<open>ilog2 q\<close> is the exponent \<open>e\<close> with \<open>2 ^ e \<le> q < 2 ^ (e + 1)\<close>, for positive \<open>q\<close>.\<close>

definition ilog2 :: "rat \<Rightarrow> int" where
  "ilog2 q = (if 1 \<le> q then int (nlog2 \<lfloor>q\<rfloor>) else - int (Suc (nlog2 (\<lceil>1 / q\<rceil> - 1))))"

lemma int_pow2_le_rat: "2 ^ k \<le> n \<Longrightarrow> (2::rat) ^ k \<le> of_int n"
  using of_int_le_iff [of "2 ^ k" n, where 'a = rat] by simp

lemma rat_le_int_pow2: "n \<le> 2 ^ k \<Longrightarrow> of_int n \<le> (2::rat) ^ k"
  using of_int_le_iff [of n "2 ^ k", where 'a = rat] by simp

lemma ilog2_bounds:
  assumes "0 < q"
  shows "2 powi ilog2 q \<le> q \<and> q < 2 powi (ilog2 q + 1)"
proof (cases "1 \<le> q")
  case True
  define n where "n = \<lfloor>q\<rfloor>"
  have "0 < n" using True by (simp add: n_def)
  from nlog2_bounds [OF this] have b: "2 ^ nlog2 n \<le> n" "n + 1 \<le> 2 ^ Suc (nlog2 n)" by auto
  have "(2::rat) ^ nlog2 n \<le> of_int n" by (rule int_pow2_le_rat [OF b(1)])
  also have "\<dots> \<le> q" by (simp add: n_def)
  finally have lo: "(2::rat) ^ nlog2 n \<le> q" .
  have "q < of_int (n + 1)" unfolding n_def by linarith
  also have "\<dots> \<le> 2 ^ Suc (nlog2 n)" by (rule rat_le_int_pow2 [OF b(2)])
  finally have hi: "q < 2 ^ Suc (nlog2 n)" .
  have "ilog2 q = int (nlog2 n)" using True by (simp add: ilog2_def n_def)
  moreover have "int (nlog2 n) + 1 = int (Suc (nlog2 n))" by simp
  ultimately show ?thesis using lo hi by (metis power_int_of_nat)
next
  case False
  define c where "c = \<lceil>1 / q\<rceil>"
  have q1: "1 < 1 / q" using False assms by simp
  then have "0 < c - 1" unfolding c_def by linarith
  from nlog2_bounds [OF this] have b: "2 ^ nlog2 (c - 1) \<le> c - 1" "c \<le> 2 ^ Suc (nlog2 (c - 1))"
    by auto
  have "1 / q \<le> of_int c" by (simp add: c_def)
  also have "\<dots> \<le> 2 ^ Suc (nlog2 (c - 1))" by (rule rat_le_int_pow2 [OF b(2)])
  finally have hi: "1 / q \<le> 2 ^ Suc (nlog2 (c - 1))" .
  have "(2::rat) ^ nlog2 (c - 1) \<le> of_int (c - 1)" by (rule int_pow2_le_rat [OF b(1)])
  also have "\<dots> < 1 / q" unfolding c_def by linarith
  finally have lo: "(2::rat) ^ nlog2 (c - 1) < 1 / q" .
  have e: "ilog2 q = - int (Suc (nlog2 (c - 1)))" using False by (simp add: ilog2_def c_def)
  have "(2::rat) powi ilog2 q = 1 / 2 ^ Suc (nlog2 (c - 1))"
    unfolding e by (simp only: power_int_minus power_int_of_nat inverse_eq_divide)
  moreover have "ilog2 q + 1 = - int (nlog2 (c - 1))" unfolding e by simp
  then have "2 powi (ilog2 q + 1) = (1 / 2 ^ nlog2 (c - 1) :: rat)"
    by (simp only: power_int_minus power_int_of_nat inverse_eq_divide)
  moreover have "1 / 2 ^ Suc (nlog2 (c - 1)) \<le> q" using hi assms by (simp add: field_simps)
  moreover have "q < 1 / 2 ^ nlog2 (c - 1)" using lo assms by (simp add: field_simps)
  ultimately show ?thesis by simp
qed

lemma powi2_pos: "0 < (2::rat) powi e"
  by simp

lemma powi2_less: "a < b \<Longrightarrow> (2::rat) powi a < 2 powi b"
  by (rule power_int_strict_increasing) simp_all

lemma powi2_less_iff: "(2::rat) powi a < 2 powi b \<longleftrightarrow> a < b"
  using powi2_less [of a b] powi2_less [of b a] by (cases a b rule: linorder_cases) auto

lemma powi2_le_iff: "(2::rat) powi a \<le> 2 powi b \<longleftrightarrow> a \<le> b"
  using powi2_less_iff [of b a] by linarith

lemma ilog2_eqI:
  assumes "2 powi e \<le> q" "q < 2 powi (e + 1)"
  shows "ilog2 q = e"
proof -
  have "0 < q" using assms(1) powi2_pos [of e] by linarith
  note b = ilog2_bounds [OF this]
  have "2 powi e < (2::rat) powi (ilog2 q + 1)" using assms b by linarith
  moreover have "2 powi ilog2 q < (2::rat) powi (e + 1)" using assms b by linarith
  ultimately show ?thesis unfolding powi2_less_iff by linarith
qed

lemma ilog2_less: "0 < q \<Longrightarrow> q < 2 powi e \<Longrightarrow> ilog2 q < e"
  using ilog2_bounds [of q] powi2_less_iff [of "ilog2 q" e] by linarith

lemma powi2_le_iff_ilog2:
  assumes "0 < q"
  shows "2 powi e \<le> q \<longleftrightarrow> e \<le> ilog2 q"
proof
  assume "2 powi e \<le> q"
  then have "\<not> ilog2 q < e"
    using ilog2_bounds [OF assms] powi2_le_iff [of "ilog2 q + 1" e] by auto
  then show "e \<le> ilog2 q" by simp
next
  assume "e \<le> ilog2 q"
  then show "2 powi e \<le> q"
    using ilog2_bounds [OF assms] powi2_le_iff [of e "ilog2 q"] by linarith
qed

lemma ilog2_mono: "0 < q \<Longrightarrow> q \<le> r \<Longrightarrow> ilog2 q \<le> ilog2 r"
  using ilog2_bounds [of q] ilog2_bounds [of r] powi2_less_iff [of "ilog2 q" "ilog2 r + 1"] by linarith


subsection \<open>Rounding to the nearest grid point, ties to even\<close>

definition rne :: "rat \<Rightarrow> int" where
  "rne r = (let f = \<lfloor>r\<rfloor>; d = r - of_int f in
     if d < 1 / 2 then f else if 1 / 2 < d then f + 1 else if even f then f else f + 1)"

lemma rne_of_int [simp]: "rne (of_int k) = k"
  by (simp add: rne_def)

lemma rne_zero [simp]: "rne 0 = 0"
  using rne_of_int [of 0] by simp

lemma rne_cases: "rne r = \<lfloor>r\<rfloor> \<or> rne r = \<lfloor>r\<rfloor> + 1"
  by (simp add: rne_def Let_def)

lemma rne_error: "\<bar>of_int (rne r) - r\<bar> \<le> 1 / 2"
proof -
  have "of_int \<lfloor>r\<rfloor> \<le> r" "r < of_int \<lfloor>r\<rfloor> + 1" by linarith+
  then show ?thesis by (auto simp: rne_def Let_def abs_le_iff)
qed

lemma rne_mono: "r \<le> s \<Longrightarrow> rne r \<le> rne s"
proof (cases "\<lfloor>r\<rfloor> = \<lfloor>s\<rfloor>")
  case True
  assume "r \<le> s"
  with True show ?thesis by (simp add: rne_def Let_def)
next
  case False
  assume "r \<le> s"
  then have "\<lfloor>r\<rfloor> \<le> \<lfloor>s\<rfloor>" by (rule floor_mono)
  with False have "\<lfloor>r\<rfloor> + 1 \<le> \<lfloor>s\<rfloor>" by linarith
  then show ?thesis using rne_cases [of r] rne_cases [of s] by linarith
qed

lemma rne_minus: "rne (- r) = - rne r"
proof (cases "r = of_int \<lfloor>r\<rfloor>")
  case True
  then have "rne r = \<lfloor>r\<rfloor>" by (metis rne_of_int)
  moreover have "- r = of_int (- \<lfloor>r\<rfloor>)" using True by simp
  then have "rne (- r) = - \<lfloor>r\<rfloor>" by (metis rne_of_int)
  ultimately show ?thesis by simp
next
  case False
  define f where "f = \<lfloor>r\<rfloor>"
  have lo: "of_int f < r" using False unfolding f_def by linarith
  have hi: "r < of_int f + 1" unfolding f_def by linarith
  have fm: "\<lfloor>- r\<rfloor> = - f - 1" using lo hi by (intro floor_unique) auto
  show ?thesis unfolding rne_def Let_def fm f_def [symmetric] by auto
qed

definition ulp_exponent :: "'f::len itself \<Rightarrow> rat \<Rightarrow> int" where
  "ulp_exponent f q = max (ilog2 \<bar>q\<bar>) (emin f) - (int (precision f) - 1)"

definition to_grid :: "'f::len itself \<Rightarrow> rat \<Rightarrow> rat" where
  "to_grid f q = of_int (rne (q / 2 powi ulp_exponent f q)) * 2 powi ulp_exponent f q"

text \<open>Evaluation with integer powers of two only.\<close>

lemma powi2_code: "(2::rat) powi e = (if 0 \<le> e then of_int (2 ^ nat e) else 1 / of_int (2 ^ nat (- e)))"
  by (simp add: power_int_def inverse_eq_divide power_divide)

lemma to_grid_code [code]:
  "to_grid f q = (let e = ulp_exponent f q in
     if 0 \<le> e then of_int (rne (q / of_int (2 ^ nat e)) * 2 ^ nat e)
     else of_int (rne (q * of_int (2 ^ nat (- e)))) / of_int (2 ^ nat (- e)))"
  by (simp add: to_grid_def Let_def powi2_code)

lemma to_grid_minus: "to_grid f (- q) = - to_grid f q"
  by (simp add: to_grid_def ulp_exponent_def rne_minus)

lemma to_grid_zero [simp]: "to_grid f 0 = 0"
  by (simp add: to_grid_def)

lemma powi2_split: "e \<le> k \<Longrightarrow> (2::rat) powi k = of_int (2 ^ nat (k - e)) * 2 powi e"
proof -
  assume "e \<le> k"
  then have "(2::rat) powi (k - e) = 2 ^ nat (k - e)" by (simp add: power_int_def)
  moreover have "(2::rat) powi k = 2 powi (k - e) * 2 powi e"
    by (simp add: power_int_add [symmetric])
  ultimately show ?thesis by simp
qed

lemma to_grid_fixed:
  assumes "q = of_int m * 2 powi k" and "ulp_exponent f q \<le> k"
  shows "to_grid f q = q"
proof -
  have "q / 2 powi ulp_exponent f q = of_int (m * 2 ^ nat (k - ulp_exponent f q))"
    using assms(1) powi2_split [OF assms(2)] powi2_pos [of "ulp_exponent f q"] by (simp add: field_simps)
  then show ?thesis unfolding to_grid_def by (metis nonzero_divide_eq_eq powi2_pos rne_of_int less_irrefl)
qed

lemma abs_of_int_pow2: "\<bar>m\<bar> \<le> 2 ^ k \<Longrightarrow> \<bar>of_int m :: rat\<bar> \<le> 2 ^ k"
  by (metis of_int_abs of_int_le_iff of_int_numeral of_int_power)

text \<open>Every number with at most \<open>precision\<close> significant bits above the subnormal grid is kept.\<close>

lemma to_grid_exact:
  assumes q: "q = of_int m * 2 powi k" and m: "\<bar>m\<bar> \<le> 2 ^ precision TYPE('f::len)"
    and k: "emin TYPE('f) - (int (precision TYPE('f)) - 1) \<le> k"
  shows "to_grid TYPE('f) q = q"
proof -
  let ?p = "precision TYPE('f)" and ?E = "ulp_exponent TYPE('f) q"
  have p: "24 \<le> ?p" by (rule precision_pos)
  consider "m = 0" | "m \<noteq> 0" "\<bar>m\<bar> < 2 ^ ?p" | "\<bar>m\<bar> = 2 ^ ?p" using m by linarith
  then show ?thesis
  proof cases
    case 1
    then show ?thesis using q by simp
  next
    case 2
    have pos: "0 < \<bar>q\<bar>" using 2(1) q by simp
    have "\<bar>of_int m :: rat\<bar> < 2 ^ ?p" using 2(2)
      by (metis of_int_abs of_int_less_iff of_int_numeral of_int_power)
    then have "\<bar>q\<bar> < 2 ^ ?p * 2 powi k" unfolding q abs_mult by (simp add: mult_strict_right_mono)
    also have "\<dots> = 2 powi (int ?p + k)" by (simp add: power_int_add)
    finally have "ilog2 \<bar>q\<bar> < int ?p + k" by (rule ilog2_less [OF pos])
    then have "?E \<le> k" using k unfolding ulp_exponent_def by linarith
    then show ?thesis by (rule to_grid_fixed [OF q])
  next
    case 3
    have "\<bar>of_int m :: rat\<bar> = 2 ^ ?p" using 3
      by (metis of_int_abs of_int_numeral of_int_power)
    then have aq: "\<bar>q\<bar> = 2 powi (int ?p + k)"
      unfolding q abs_mult by (simp add: power_int_add)
    have "ilog2 \<bar>q\<bar> = int ?p + k"
      by (rule ilog2_eqI) (simp_all add: aq powi2_less_iff)
    then have E: "?E \<le> k + 1" using k p unfolding ulp_exponent_def by linarith
    obtain n where n: "?p = Suc n" using p by (cases ?p) auto
    have "m = 2 ^ ?p \<or> m = - (2 ^ ?p)" using 3 by linarith
    then have "\<exists>m'. m = 2 * m'" unfolding n power_Suc by (metis mult_minus_right)
    then obtain m' where "m = 2 * m'" ..
    then have "q = of_int m' * 2 powi (k + 1)" unfolding q by (simp add: power_int_add)
    then show ?thesis using E by (rule to_grid_fixed)
  qed
qed

lemma to_grid_pow2_boundary:
  assumes "emin TYPE('f::len) - (int (precision TYPE('f)) - 1) \<le> k"
  shows "to_grid TYPE('f) (2 powi k) = 2 powi k"
  using to_grid_exact [of "2 powi k" 1 k, where 'f = 'f] assms by simp

lemma grid_mono: "0 < q \<Longrightarrow> q \<le> r \<Longrightarrow> ulp_exponent f q \<le> ulp_exponent f r"
  using ilog2_mono [of q r] unfolding ulp_exponent_def by simp

lemma to_grid_nonneg: "0 \<le> q \<Longrightarrow> 0 \<le> to_grid f q"
  unfolding to_grid_def using rne_mono [of 0 "q / 2 powi ulp_exponent f q"] by simp

lemma to_grid_same: "ulp_exponent f q = ulp_exponent f r \<Longrightarrow> q \<le> r \<Longrightarrow> to_grid f q \<le> to_grid f r"
  unfolding to_grid_def by (simp add: rne_mono divide_right_mono)

lemma to_grid_mono_pos:
  assumes "0 < q" "q \<le> r"
  shows "to_grid TYPE('f::len) q \<le> to_grid TYPE('f) r"
proof (cases "ulp_exponent TYPE('f) q = ulp_exponent TYPE('f) r")
  case True
  then show ?thesis using assms(2) by (rule to_grid_same)
next
  case False
  let ?f = "TYPE('f)"
  let ?q = "ulp_exponent ?f q" and ?r = "ulp_exponent ?f r" and ?b = "ilog2 r"
  have r: "0 < r" using assms by simp
  have lt: "?q < ?r" using grid_mono [OF assms, of ?f] False by simp
  then have b: "ilog2 q < ?b" "?b = ?r + (int (precision ?f) - 1)" "emin ?f < ?b"
    using assms r unfolding ulp_exponent_def by auto
  have p: "24 \<le> precision ?f" by (rule precision_pos)
  have "q < 2 powi (ilog2 q + 1)" using ilog2_bounds [OF assms(1)] by simp
  also have "\<dots> \<le> 2 powi ?b" using b(1) unfolding powi2_le_iff by simp
  finally have "q / 2 powi ?q \<le> 2 powi ?b / 2 powi ?q" by (simp add: divide_right_mono)
  also have "\<dots> = of_int (2 ^ nat (?b - ?q))"
    using powi2_split [of ?q ?b] lt b p by simp
  finally have "rne (q / 2 powi ?q) \<le> 2 ^ nat (?b - ?q)" using rne_mono rne_of_int by metis
  then have "to_grid ?f q \<le> of_int (2 ^ nat (?b - ?q)) * 2 powi ?q"
    unfolding to_grid_def by (simp only: mult_right_mono of_int_le_iff powi2_pos less_imp_le)
  also have "\<dots> = 2 powi ?b" using powi2_split [of ?q ?b] lt b p by simp
  also have "\<dots> = of_int (2 ^ nat (?b - ?r)) * 2 powi ?r" using powi2_split [of ?r ?b] b p by simp
  also have "\<dots> \<le> to_grid ?f r"
  proof -
    have "2 powi ?b / 2 powi ?r \<le> r / 2 powi ?r"
      using ilog2_bounds [OF r] by (simp add: divide_right_mono)
    then have "of_int (2 ^ nat (?b - ?r)) \<le> r / 2 powi ?r"
      using powi2_split [of ?r ?b] b p by simp
    then have "2 ^ nat (?b - ?r) \<le> rne (r / 2 powi ?r)" using rne_mono rne_of_int by metis
    then show ?thesis
      unfolding to_grid_def by (simp only: mult_right_mono of_int_le_iff powi2_pos less_imp_le)
  qed
  finally show ?thesis .
qed

lemma to_grid_mono: "q \<le> r \<Longrightarrow> to_grid TYPE('f::len) q \<le> to_grid TYPE('f) r"
proof -
  assume le: "q \<le> r"
  consider "0 < q" | "q \<le> 0" "0 \<le> r" | "r < 0" by linarith
  then show ?thesis
  proof cases
    case 1
    then show ?thesis using le by (rule to_grid_mono_pos)
  next
    case 2
    have "0 \<le> to_grid TYPE('f) (- q)" using 2 by (intro to_grid_nonneg) simp
    moreover have "0 \<le> to_grid TYPE('f) r" using 2 by (intro to_grid_nonneg)
    ultimately show ?thesis by (simp add: to_grid_minus)
  next
    case 3
    then have "to_grid TYPE('f) (- r) \<le> to_grid TYPE('f) (- q)"
      using le by (intro to_grid_mono_pos) simp_all
    then show ?thesis by (simp add: to_grid_minus)
  qed
qed


subsection \<open>Rounding into the format\<close>

text \<open>
  \<open>round_fp s q\<close> is the correctly rounded value of the exact result \<open>q\<close>; \<open>s\<close> is the sign
  a zero result takes.
\<close>

definition round_fp :: "bool \<Rightarrow> rat \<Rightarrow> 'f::len fp" where
  "round_fp s q = (let r = to_grid TYPE('f) q in
     if 2 powi (emax TYPE('f) + 1) \<le> \<bar>r\<bar> then Inf (r < 0)
     else if r = 0 then (if s then NegZero else Num 0) else Num r)"

lemma round_fp_code [code]:
  "(round_fp s q :: 'f::len fp) = (let r = to_grid TYPE('f) q in
     if r = 0 then (if s then NegZero else Num 0)
     else if emax TYPE('f) < ilog2 \<bar>r\<bar> then Inf (r < 0) else Num r)"
proof (cases "to_grid TYPE('f) q = 0")
  case True
  moreover have "\<not> (2::rat) powi (emax TYPE('f) + 1) \<le> 0" using powi2_pos by (simp add: not_le)
  ultimately show ?thesis by (simp add: round_fp_def)
next
  case False
  then have "2 powi (emax TYPE('f) + 1) \<le> \<bar>to_grid TYPE('f) q\<bar> \<longleftrightarrow>
      emax TYPE('f) < ilog2 \<bar>to_grid TYPE('f) q\<bar>"
    by (subst powi2_le_iff_ilog2) auto
  with False show ?thesis by (simp add: round_fp_def Let_def)
qed

definition rnd :: "rat \<Rightarrow> 'f::len fp" where
  "rnd q = round_fp (q < 0) q"

fun val :: "'f fp \<Rightarrow> rat" where
  "val (Num q) = q"
| "val _ = 0"

fun is_nan :: "'f fp \<Rightarrow> bool" where
  "is_nan NaN = True"
| "is_nan _ = False"

text \<open>\<open>std::isfinite\<close>\<close>

fun isfinite :: "'f fp \<Rightarrow> bool" where
  "isfinite (Num _) = True"
| "isfinite NegZero = True"
| "isfinite _ = False"

text \<open>\<open>std::signbit\<close> of a value that is not NaN.\<close>

fun sign_bit :: "'f fp \<Rightarrow> bool" where
  "sign_bit (Num q) = (q < 0)"
| "sign_bit NegZero = True"
| "sign_bit (Inf b) = b"
| "sign_bit NaN = False"

lemma isfinite_cases:
  assumes "isfinite x"
  obtains (NegZero) "x = NegZero" | (Num) q where "x = Num q"
  using assms by (cases x) auto

lemma finite_not_nan: "isfinite x \<Longrightarrow> \<not> is_nan x"
  by (cases x) simp_all

subsection \<open>Arithmetic\<close>

fun fp_plus :: "'f::len fp \<Rightarrow> 'f fp \<Rightarrow> 'f fp" where
  "fp_plus NaN y = NaN"
| "fp_plus x NaN = NaN"
| "fp_plus (Inf a) (Inf b) = (if a = b then Inf a else NaN)"
| "fp_plus (Inf a) y = Inf a"
| "fp_plus x (Inf b) = Inf b"
| "fp_plus NegZero NegZero = NegZero"
| "fp_plus x y = rnd (val x + val y)"

fun fp_neg :: "'f fp \<Rightarrow> 'f fp" where
  "fp_neg NaN = NaN"
| "fp_neg (Inf b) = Inf (\<not> b)"
| "fp_neg NegZero = Num 0"
| "fp_neg (Num q) = (if q = 0 then NegZero else Num (- q))"

fun fp_times :: "'f::len fp \<Rightarrow> 'f fp \<Rightarrow> 'f fp" where
  "fp_times NaN y = NaN"
| "fp_times x NaN = NaN"
| "fp_times (Inf a) (Inf b) = Inf (a \<noteq> b)"
| "fp_times (Inf a) y = (if val y = 0 then NaN else Inf (a \<noteq> sign_bit y))"
| "fp_times x (Inf b) = (if val x = 0 then NaN else Inf (sign_bit x \<noteq> b))"
| "fp_times x y = round_fp (sign_bit x \<noteq> sign_bit y) (val x * val y)"

fun fp_divide :: "'f::len fp \<Rightarrow> 'f fp \<Rightarrow> 'f fp" where
  "fp_divide NaN y = NaN"
| "fp_divide x NaN = NaN"
| "fp_divide (Inf a) (Inf b) = NaN"
| "fp_divide (Inf a) y = Inf (a \<noteq> sign_bit y)"
| "fp_divide x (Inf b) = (if sign_bit x \<noteq> b then NegZero else Num 0)"
| "fp_divide x y =
     (if val y = 0 then (if val x = 0 then NaN else Inf (sign_bit x \<noteq> sign_bit y))
      else round_fp (sign_bit x \<noteq> sign_bit y) (val x / val y))"

subsection \<open>Comparison\<close>

text \<open>\<open>x < y\<close> and \<open>x <= y\<close> of C++: false whenever an operand is NaN.\<close>

fun fp_less :: "'f fp \<Rightarrow> 'f fp \<Rightarrow> bool" where
  "fp_less NaN y = False"
| "fp_less x NaN = False"
| "fp_less (Inf a) (Inf b) = (a \<and> \<not> b)"
| "fp_less (Inf a) y = a"
| "fp_less x (Inf b) = (\<not> b)"
| "fp_less x y = (val x < val y)"

definition fp_le :: "'f fp \<Rightarrow> 'f fp \<Rightarrow> bool" where
  "fp_le x y = (\<not> is_nan x \<and> \<not> is_nan y \<and> \<not> fp_less y x)"

text \<open>\<open>x == y\<close> of C++: NaN is unequal to itself, the two zeros are equal.\<close>

definition feq :: "'f fp \<Rightarrow> 'f fp \<Rightarrow> bool" where
  "feq x y = (fp_le x y \<and> fp_le y x)"

text \<open>
  The operators of the type classes. No algebraic law is claimed by these instances: the
  classes used are purely syntactic.
\<close>

instantiation fp :: (len) "{zero, one, plus, uminus, minus, times, inverse, ord, abs}"
begin

definition zero_fp :: "'a fp" where "zero_fp = Num 0"
definition one_fp :: "'a fp" where "one_fp = Num 1"
definition plus_fp :: "'a fp \<Rightarrow> 'a fp \<Rightarrow> 'a fp" where "plus_fp = fp_plus"
definition uminus_fp :: "'a fp \<Rightarrow> 'a fp" where "uminus_fp = fp_neg"
definition minus_fp :: "'a fp \<Rightarrow> 'a fp \<Rightarrow> 'a fp" where "minus_fp x y = fp_plus x (fp_neg y)"
definition times_fp :: "'a fp \<Rightarrow> 'a fp \<Rightarrow> 'a fp" where "times_fp = fp_times"
definition divide_fp :: "'a fp \<Rightarrow> 'a fp \<Rightarrow> 'a fp" where "divide_fp = fp_divide"
definition inverse_fp :: "'a fp \<Rightarrow> 'a fp" where "inverse_fp = fp_divide (Num 1)"
definition less_fp :: "'a fp \<Rightarrow> 'a fp \<Rightarrow> bool" where "less_fp = fp_less"
definition less_eq_fp :: "'a fp \<Rightarrow> 'a fp \<Rightarrow> bool" where "less_eq_fp = fp_le"
definition abs_fp :: "'a fp \<Rightarrow> 'a fp" where "abs_fp x = (if sign_bit x then fp_neg x else x)"

instance ..

end

lemmas fp_op_defs =
  zero_fp_def one_fp_def plus_fp_def uminus_fp_def minus_fp_def times_fp_def divide_fp_def
  less_fp_def less_eq_fp_def abs_fp_def

subsection \<open>Conversions and literals\<close>

text \<open>A decimal literal of the source, correctly rounded.\<close>

definition lit :: "rat \<Rightarrow> f64" where
  "lit q = rnd q"

text \<open>\<open>static_cast<double>(n)\<close> of an unsigned integer.\<close>

definition of_count :: "nat \<Rightarrow> f64" where
  "of_count n = rnd (of_nat n)"

text \<open>\<open>static_cast<double>(x)\<close> of a float: exact.\<close>

fun widen :: "f32 \<Rightarrow> f64" where
  "widen NaN = NaN"
| "widen (Inf b) = Inf b"
| "widen NegZero = NegZero"
| "widen (Num q) = Num q"

text \<open>\<open>static_cast<float>(x)\<close> of a double: rounded to nearest.\<close>

fun narrow :: "f64 \<Rightarrow> f32" where
  "narrow NaN = NaN"
| "narrow (Inf b) = Inf b"
| "narrow NegZero = NegZero"
| "narrow (Num q) = rnd q"

text \<open>\<open>std::floor\<close> and \<open>std::ceil\<close>\<close>

fun fp_floor :: "'f fp \<Rightarrow> 'f fp" where
  "fp_floor (Num q) = Num (of_int \<lfloor>q\<rfloor>)"
| "fp_floor x = x"

fun fp_ceil :: "'f fp \<Rightarrow> 'f fp" where
  "fp_ceil (Num q) = (if -1 < q \<and> q < 0 then NegZero else Num (of_int \<lceil>q\<rceil>))"
| "fp_ceil x = x"

text \<open>\<open>std::min\<close>, \<open>std::max\<close> and \<open>std::clamp\<close>, with the library's argument order.\<close>

definition std_min :: "'f::len fp \<Rightarrow> 'f fp \<Rightarrow> 'f fp" where
  "std_min a b = (if b < a then b else a)"

definition std_max :: "'f::len fp \<Rightarrow> 'f fp \<Rightarrow> 'f fp" where
  "std_max a b = (if a < b then b else a)"

definition std_clamp :: "'f::len fp \<Rightarrow> 'f fp \<Rightarrow> 'f fp \<Rightarrow> 'f fp" where
  "std_clamp v lo hi = (if v < lo then lo else if hi < v then hi else v)"

subsection \<open>Square root\<close>

function isqrt :: "int \<Rightarrow> int" where
  "isqrt n = (if n \<le> 0 then 0
     else let r = 2 * isqrt (n div 4) in if (r + 1) * (r + 1) \<le> n then r + 1 else r)"
  by pat_completeness auto
termination
  by (relation "measure nat") auto

declare isqrt.simps [simp del]

lemma isqrt_spec: "0 \<le> n \<Longrightarrow> 0 \<le> isqrt n \<and> isqrt n * isqrt n \<le> n \<and> n < (isqrt n + 1) * (isqrt n + 1)"
proof (induction n rule: isqrt.induct)
  case (1 n)
  show ?case
  proof (cases "n \<le> 0")
    case True
    then have "n = 0" using "1.prems" by simp
    then show ?thesis using isqrt.simps [of 0] by simp
  next
    case False
    define s where "s = isqrt (n div 4)"
    from False "1.IH" have s: "0 \<le> s" "s * s \<le> n div 4" "n div 4 < (s + 1) * (s + 1)"
      unfolding s_def by auto
    have "4 * (s * s) \<le> n" using s(2) by linarith
    moreover have "n < 4 * ((s + 1) * (s + 1))" using s(3) by linarith
    moreover have "isqrt n = (if (2 * s + 1) * (2 * s + 1) \<le> n then 2 * s + 1 else 2 * s)"
      using False unfolding s_def by (simp add: isqrt.simps [of n] Let_def)
    ultimately show ?thesis using s(1) by (auto simp: algebra_simps)
  qed
qed

text \<open>
  \<open>std::sqrt\<close>, correctly rounded: the argument is scaled by \<open>4 ^ s\<close> so that the integer
  root \<open>r\<close> carries two bits more than the format; an inexact root is represented by the
  midpoint \<open>r + 1/2\<close>, which lies on the same side of every rounding boundary as the root.
\<close>

definition sqrt_shift :: "'f::len itself \<Rightarrow> rat \<Rightarrow> nat" where
  "sqrt_shift f q = nat (int (precision f) + 2 - ilog2 q div 2)"

definition sqrt_approx :: "nat \<Rightarrow> rat \<Rightarrow> rat" where
  "sqrt_approx s q = (let n = q * of_int (4 ^ s); r = isqrt \<lfloor>n\<rfloor> in
     (if of_int (r * r) = n then of_int r else of_int r + 1 / 2) / of_int (2 ^ s))"

fun fp_sqrt :: "'f::len fp \<Rightarrow> 'f fp" where
  "fp_sqrt NaN = NaN"
| "fp_sqrt (Inf b) = (if b then NaN else Inf False)"
| "fp_sqrt NegZero = NegZero"
| "fp_sqrt (Num q) = (if q < 0 then NaN else if q = 0 then Num 0
     else rnd (sqrt_approx (sqrt_shift TYPE('f) q) q))"


subsection \<open>The order of non-NaN values\<close>

fun fp_rank :: "'f fp \<Rightarrow> int" where
  "fp_rank (Inf b) = (if b then - 1 else 1)"
| "fp_rank _ = 0"

lemma less_fp_iff:
  "x < y \<longleftrightarrow> \<not> is_nan x \<and> \<not> is_nan y \<and>
     (fp_rank x < fp_rank y \<or> fp_rank x = fp_rank y \<and> val x < val y)"
  for x y :: "'f::len fp"
  unfolding less_fp_def by (cases x; cases y) auto

lemma less_eq_fp_iff:
  "x \<le> y \<longleftrightarrow> \<not> is_nan x \<and> \<not> is_nan y \<and>
     (fp_rank x < fp_rank y \<or> fp_rank x = fp_rank y \<and> val x \<le> val y)"
  for x y :: "'f::len fp"
  unfolding less_eq_fp_def fp_le_def by (cases x; cases y) auto

lemma fp_not_less: "\<not> is_nan x \<Longrightarrow> \<not> is_nan y \<Longrightarrow> \<not> x < y \<longleftrightarrow> y \<le> x"
  for x y :: "'f::len fp"
  by (auto simp: less_fp_iff less_eq_fp_iff)

lemma fp_less_imp_le: "x < y \<Longrightarrow> x \<le> y"
  for x y :: "'f::len fp"
  by (auto simp: less_fp_iff less_eq_fp_iff)

lemma fp_less_not_nan: "x < y \<Longrightarrow> \<not> is_nan x \<and> \<not> is_nan y"
  for x y :: "'f::len fp"
  by (simp add: less_fp_iff)

lemma fp_le_not_nan: "x \<le> y \<Longrightarrow> \<not> is_nan x \<and> \<not> is_nan y"
  for x y :: "'f::len fp"
  by (simp add: less_eq_fp_iff)

lemma fp_le_refl: "\<not> is_nan x \<Longrightarrow> x \<le> x"
  for x :: "'f::len fp"
  by (simp add: less_eq_fp_iff)

lemma fp_le_trans: "x \<le> y \<Longrightarrow> y \<le> z \<Longrightarrow> x \<le> z"
  for x y z :: "'f::len fp"
  by (auto simp: less_eq_fp_iff)

lemma fp_less_le_trans: "x < y \<Longrightarrow> y \<le> z \<Longrightarrow> x < z"
  for x y z :: "'f::len fp"
  by (auto simp: less_fp_iff less_eq_fp_iff)

lemma fp_le_less_trans: "x \<le> y \<Longrightarrow> y < z \<Longrightarrow> x < z"
  for x y z :: "'f::len fp"
  by (auto simp: less_fp_iff less_eq_fp_iff)

lemma fp_le_antisym: "x \<le> y \<Longrightarrow> y \<le> x \<Longrightarrow> feq x y"
  for x y :: "'f::len fp"
  by (simp add: feq_def less_eq_fp_def)

lemma fp_total: "\<not> is_nan x \<Longrightarrow> \<not> is_nan y \<Longrightarrow> x \<le> y \<or> y \<le> x"
  for x y :: "'f::len fp"
  by (auto simp: less_eq_fp_iff)

lemma fp_less_Num [fp_simps]: "(Num a :: 'f::len fp) < Num b \<longleftrightarrow> a < b"
  by (simp add: less_fp_iff)

lemma fp_le_Num [fp_simps]: "(Num a :: 'f::len fp) \<le> Num b \<longleftrightarrow> a \<le> b"
  by (simp add: less_eq_fp_iff)

lemma fp_zero_not_nan [simp]: "\<not> is_nan (0 :: 'f::len fp)"
  by (simp add: zero_fp_def)

lemma fp_nonneg_finite_iff: "isfinite x \<Longrightarrow> 0 \<le> x \<longleftrightarrow> 0 \<le> val x"
  for x :: "'f::len fp"
  by (cases x) (auto simp: zero_fp_def less_eq_fp_iff)

lemma fp_pos_finite_iff: "isfinite x \<Longrightarrow> 0 < x \<longleftrightarrow> 0 < val x"
  for x :: "'f::len fp"
  by (cases x) (auto simp: zero_fp_def less_fp_iff)

lemma fp_finite_between: "isfinite a \<Longrightarrow> isfinite b \<Longrightarrow> a \<le> x \<Longrightarrow> x \<le> b \<Longrightarrow> isfinite x"
  for a b x :: "'f::len fp"
  by (cases a; cases b; cases x) (auto simp: less_eq_fp_iff split: if_splits)

subsection \<open>Minimum, maximum, clamping\<close>

lemma std_max_ge:
  assumes "\<not> is_nan a" "\<not> is_nan b"
  shows "a \<le> std_max a b" "b \<le> std_max a b"
  using assms by (auto simp: std_max_def fp_not_less fp_less_imp_le fp_le_refl)

lemma std_max_not_nan: "\<not> is_nan a \<Longrightarrow> \<not> is_nan b \<Longrightarrow> \<not> is_nan (std_max a b)"
  by (simp add: std_max_def)

lemma std_min_le:
  assumes "\<not> is_nan a" "\<not> is_nan b"
  shows "std_min a b \<le> a" "std_min a b \<le> b"
  using assms by (auto simp: std_min_def fp_not_less fp_less_imp_le fp_le_refl)

lemma std_min_not_nan: "\<not> is_nan a \<Longrightarrow> \<not> is_nan b \<Longrightarrow> \<not> is_nan (std_min a b)"
  by (simp add: std_min_def)

lemma std_clamp_range:
  assumes "\<not> is_nan v" "lo \<le> hi"
  shows "lo \<le> std_clamp v lo hi" "std_clamp v lo hi \<le> hi"
  using assms fp_le_not_nan [OF assms(2)]
  by (auto simp: std_clamp_def fp_not_less fp_le_refl)

subsection \<open>Rounding is monotone and exact on the format\<close>

lemma round_fp_not_nan [simp]: "\<not> is_nan (round_fp s q)"
  by (simp add: round_fp_def Let_def)

lemma rnd_not_nan [simp]: "\<not> is_nan (rnd q)"
  by (simp add: rnd_def)

lemma round_fp_mono:
  assumes "q \<le> r"
  shows "(round_fp s q :: 'f::len fp) \<le> round_fp t r"
proof -
  have m: "to_grid TYPE('f) q \<le> to_grid TYPE('f) r" by (rule to_grid_mono [OF assms])
  have "0 < (2::rat) powi (emax TYPE('f) + 1)" by simp
  with m show ?thesis
    by (auto simp: round_fp_def Let_def less_eq_fp_iff abs_le_iff not_le split: abs_split)
qed

lemma rnd_mono: "q \<le> r \<Longrightarrow> (rnd q :: 'f::len fp) \<le> rnd r"
  unfolding rnd_def by (rule round_fp_mono)

text \<open>Representable values: the ones a rounded operation returns.\<close>

definition representable :: "'f::len itself \<Rightarrow> rat \<Rightarrow> bool" where
  "representable f q \<longleftrightarrow> to_grid f q = q \<and> \<bar>q\<bar> < 2 powi (emax f + 1)"

fun in_format :: "'f::len fp \<Rightarrow> bool" where
  "in_format (Num q) = representable TYPE('f) q"
| "in_format _ = True"

lemma round_fp_representable:
  "representable TYPE('f) q \<Longrightarrow>
   (round_fp s q :: 'f::len fp) = (if q = 0 then (if s then NegZero else Num 0) else Num q)"
  by (simp add: representable_def round_fp_def Let_def)

lemma rnd_representable: "representable TYPE('f) q \<Longrightarrow> (rnd q :: 'f::len fp) = Num q"
  by (simp add: rnd_def round_fp_representable)

lemma powi_emin_le_one: "(2::rat) powi k \<le> 1 \<longleftrightarrow> k \<le> 0"
  using powi2_le_iff [of k 0] by simp

lemma representable_int:
  assumes "\<bar>m\<bar> \<le> 2 ^ precision TYPE('f::len)"
  shows "representable TYPE('f) (of_int m)"
proof -
  have "to_grid TYPE('f) (of_int m) = of_int m"
    by (rule to_grid_exact [of _ m 0])
      (use assms precision_pos [where 'f = 'f] emax_pos [where 'f = 'f] in \<open>auto simp: emin_def\<close>)
  moreover have "\<bar>of_int m :: rat\<bar> \<le> 2 powi int (precision TYPE('f))"
    using abs_of_int_pow2 [OF assms] by simp
  moreover have "(2::rat) powi int (precision TYPE('f)) < 2 powi (emax TYPE('f) + 1)"
    unfolding powi2_less_iff using precision_pos(2) [where 'f = 'f] emax_pos [where 'f = 'f] by linarith
  ultimately show ?thesis unfolding representable_def by linarith
qed

lemma representable_zero [simp]: "representable TYPE('f::len) 0"
  using representable_int [of 0, where 'f = 'f] by simp

lemma representable_one [simp]: "representable TYPE('f::len) 1"
  using representable_int [of 1, where 'f = 'f] by (simp add: one_le_power)

lemma rnd_zero [simp]: "rnd 0 = Num 0"
  by (rule rnd_representable) simp

lemma rnd_one [simp]: "rnd 1 = Num 1"
  by (rule rnd_representable) simp

lemma round_fp_unit_interval:
  assumes "0 \<le> q" "q \<le> 1"
  shows "0 \<le> (round_fp False q :: 'f::len fp)" "(round_fp False q :: 'f fp) \<le> 1"
proof -
  have "(round_fp False 0 :: 'f fp) \<le> round_fp False q" "(round_fp False q :: 'f fp) \<le> round_fp False 1"
    using assms by (auto intro: round_fp_mono)
  then show "0 \<le> (round_fp False q :: 'f::len fp)" "(round_fp False q :: 'f fp) \<le> 1"
    by (simp_all add: round_fp_representable zero_fp_def one_fp_def)
qed

lemma to_grid_scaled_bound:
  assumes "q \<noteq> 0"
  shows "\<bar>rne (q / 2 powi ulp_exponent TYPE('f::len) q)\<bar> \<le> 2 ^ precision TYPE('f)"
proof -
  let ?p = "precision TYPE('f)" and ?E = "ulp_exponent TYPE('f) q"
  have "\<bar>q\<bar> < 2 powi (ilog2 \<bar>q\<bar> + 1)" using ilog2_bounds [of "\<bar>q\<bar>"] assms by simp
  also have "\<dots> \<le> 2 powi (?E + int ?p)" unfolding powi2_le_iff ulp_exponent_def by linarith
  also have "\<dots> = 2 ^ ?p * 2 powi ?E" by (simp add: power_int_add)
  finally have "\<bar>q\<bar> / 2 powi ?E \<le> of_int (2 ^ ?p)"
    using powi2_pos [of ?E] by (simp add: pos_divide_le_eq)
  then have "\<bar>q / 2 powi ?E\<bar> \<le> of_int (2 ^ ?p)" by simp
  then have "q / 2 powi ?E \<le> of_int (2 ^ ?p)" "- of_int (2 ^ ?p) \<le> q / 2 powi ?E"
    unfolding abs_le_iff by linarith+
  then have "q / 2 powi ?E \<le> of_int (2 ^ ?p)" "of_int (- (2 ^ ?p)) \<le> q / 2 powi ?E"
    by simp_all
  from this [THEN rne_mono] show ?thesis unfolding rne_of_int by (simp add: abs_le_iff)
qed

lemma to_grid_idem: "to_grid TYPE('f::len) (to_grid TYPE('f) q) = to_grid TYPE('f) q"
proof (cases "q = 0")
  case False
  show ?thesis
  proof (rule to_grid_exact)
    show "to_grid TYPE('f) q = of_int (rne (q / 2 powi ulp_exponent TYPE('f) q)) * 2 powi ulp_exponent TYPE('f) q"
      by (simp add: to_grid_def)
  qed (use to_grid_scaled_bound [OF False] in \<open>auto simp: ulp_exponent_def\<close>)
qed simp

lemma round_fp_in_format [simp]: "in_format (round_fp s q)"
  by (auto simp: round_fp_def Let_def representable_def to_grid_idem not_le)

lemma rnd_in_format [simp]: "in_format (rnd q)"
  by (simp add: rnd_def)


subsection \<open>The operators stay in the format\<close>

lemma representable_minus: "representable f (- q) \<longleftrightarrow> representable f q"
  by (auto simp: representable_def to_grid_minus)

lemma in_format_uminus: "in_format x \<Longrightarrow> in_format (- x)" for x :: "'f::len fp"
  by (cases x) (auto simp: uminus_fp_def representable_minus)

lemma in_format_abs: "in_format x \<Longrightarrow> in_format \<bar>x\<bar>" for x :: "'f::len fp"
  using in_format_uminus [of x] by (simp add: abs_fp_def uminus_fp_def)

lemma fp_plus_in_format: "in_format x \<Longrightarrow> in_format y \<Longrightarrow> in_format (fp_plus x y)"
  by (cases x; cases y) auto

lemma in_format_arith:
  fixes x y :: "'f::len fp"
  assumes "in_format x" "in_format y"
  shows "in_format (x + y)" "in_format (x - y)" "in_format (x * y)" "in_format (x / y)"
proof -
  show "in_format (x + y)" using fp_plus_in_format [OF assms] by (simp add: plus_fp_def)
  show "in_format (x - y)"
    using fp_plus_in_format [OF assms(1) in_format_uminus [OF assms(2)]]
    by (simp add: minus_fp_def uminus_fp_def)
  show "in_format (x * y)" using assms by (cases x; cases y) (auto simp: times_fp_def)
  show "in_format (x / y)" using assms by (cases x; cases y) (auto simp: divide_fp_def)
qed

lemma in_format_narrow: "in_format (narrow x)"
  by (cases x) simp_all

lemma in_format_sqrt: "in_format (fp_sqrt x)"
  by (cases x) simp_all

subsection \<open>Counts and ratios\<close>

lemma isfinite_round_fp: "isfinite (round_fp s q :: 'f::len fp) \<longleftrightarrow> \<bar>to_grid TYPE('f) q\<bar> < 2 powi (emax TYPE('f) + 1)"
  by (simp add: round_fp_def Let_def not_le)

lemma isfinite_rnd_bounded:
  assumes "\<bar>q\<bar> \<le> b" "representable TYPE('f::len) b"
  shows "isfinite (rnd q :: 'f fp)"
proof -
  have "to_grid TYPE('f) q \<le> to_grid TYPE('f) b" "to_grid TYPE('f) (- b) \<le> to_grid TYPE('f) q"
    using assms(1) by (intro to_grid_mono; simp add: abs_le_iff)+
  then have "\<bar>to_grid TYPE('f) q\<bar> \<le> b"
    using assms(2) by (simp add: representable_def to_grid_minus abs_le_iff)
  then show ?thesis using assms(2) by (simp add: rnd_def isfinite_round_fp representable_def)
qed

lemma val_round_fp: "isfinite (round_fp s q :: 'f::len fp) \<Longrightarrow> val (round_fp s q :: 'f fp) = to_grid TYPE('f) q"
  by (auto simp: round_fp_def Let_def split: if_splits)

lemma val_rnd: "isfinite (rnd q :: 'f::len fp) \<Longrightarrow> val (rnd q :: 'f fp) = to_grid TYPE('f) q"
  by (simp add: rnd_def val_round_fp)

text \<open>Every machine count (below \<open>2 ^ 64\<close>) converts to a finite double.\<close>

lemma representable_two64: "representable TYPE(64) (2 ^ 64)"
proof -
  have "to_grid TYPE(64) (2 powi 64) = 2 powi 64"
    by (rule to_grid_pow2_boundary) (simp add: emin_def emax_def precision_def)
  moreover have "(2::rat) powi 64 < 2 powi (emax TYPE(64) + 1)"
    unfolding powi2_less_iff by (simp add: emax_def)
  ultimately show ?thesis by (simp add: representable_def)
qed

lemma isfinite_of_count: "n < 2 ^ 64 \<Longrightarrow> isfinite (of_count n)"
proof -
  assume "n < 2 ^ 64"
  then have "(of_nat n :: rat) \<le> of_nat (2 ^ 64)" by (simp only: of_nat_le_iff)
  then show ?thesis unfolding of_count_def
    by (intro isfinite_rnd_bounded [OF _ representable_two64]) simp
qed

lemma of_count_exact: "n \<le> 2 ^ 53 \<Longrightarrow> of_count n = Num (of_nat n)"
proof -
  assume "n \<le> 2 ^ 53"
  then have "\<bar>int n\<bar> \<le> 2 ^ precision TYPE(64)" by (simp add: precision_def)
  from rnd_representable [OF representable_int [OF this]] show ?thesis by (simp add: of_count_def)
qed

lemma of_count_mono: "m \<le> n \<Longrightarrow> of_count m \<le> of_count n"
  unfolding of_count_def by (rule rnd_mono) simp

lemma of_count_zero: "of_count 0 = 0"
  by (simp add: of_count_def zero_fp_def)

lemma val_of_count_ge_one: "0 < n \<Longrightarrow> n < 2 ^ 64 \<Longrightarrow> 1 \<le> val (of_count n)"
proof -
  assume n: "0 < n" "n < 2 ^ 64"
  have "of_count 1 \<le> of_count n" using n(1) by (intro of_count_mono) simp
  then show ?thesis using isfinite_of_count [OF n(2)]
    by (auto simp: of_count_def less_eq_fp_iff elim: isfinite_cases)
qed

lemma of_count_pos: "0 < n \<Longrightarrow> n < 2 ^ 64 \<Longrightarrow> 0 < of_count n"
  using val_of_count_ge_one [of n] isfinite_of_count [of n] by (simp add: fp_pos_finite_iff)

lemma val_of_count_mono: "m \<le> n \<Longrightarrow> n < 2 ^ 64 \<Longrightarrow> val (of_count m) \<le> val (of_count n)"
  using of_count_mono [of m n] isfinite_of_count [of m] isfinite_of_count [of n]
  by (auto simp: less_eq_fp_iff elim!: isfinite_cases)

lemma val_of_count_nonneg: "n < 2 ^ 64 \<Longrightarrow> 0 \<le> val (of_count n)"
  using val_of_count_mono [of 0 n] by (simp add: of_count_zero zero_fp_def)

lemma sign_bit_of_count [simp]: "\<not> sign_bit (of_count n)"
  using to_grid_nonneg [of "of_nat n" "TYPE(64)"] by (simp add: of_count_def rnd_def round_fp_def Let_def)

lemma divide_finite_pos:
  fixes x y :: "'f::len fp"
  assumes "isfinite x" "isfinite y" "0 < val y"
  shows "x / y = round_fp (sign_bit x \<noteq> sign_bit y) (val x / val y)"
  using assms by (auto simp: divide_fp_def elim!: isfinite_cases)

text \<open>The quotient of two counts is a double in the unit interval: no rounding escapes it.\<close>

lemma count_ratio_unit_interval:
  assumes "c \<le> n" "0 < n" "n < 2 ^ 64"
  shows "0 \<le> of_count c / of_count n" "of_count c / of_count n \<le> 1"
    "isfinite (of_count c / of_count n)"
proof -
  have c: "c < 2 ^ 64" using assms by simp
  note n1 = val_of_count_ge_one [OF assms(2,3)]
  have q: "of_count c / of_count n = round_fp False (val (of_count c) / val (of_count n))"
    using divide_finite_pos [OF isfinite_of_count [OF c] isfinite_of_count [OF assms(3)]] n1 by simp
  have b: "0 \<le> val (of_count c) / val (of_count n)" "val (of_count c) / val (of_count n) \<le> 1"
    using val_of_count_nonneg [OF c] val_of_count_mono [OF assms(1,3)] n1 by simp_all
  show "0 \<le> of_count c / of_count n" "of_count c / of_count n \<le> 1"
    unfolding q using round_fp_unit_interval [OF b] by simp_all
  then show "isfinite (of_count c / of_count n)"
    by (rule fp_finite_between [rotated 2]) (simp_all add: zero_fp_def one_fp_def)
qed

subsection \<open>Widening, square root and absolute value\<close>

lemma widen_simps [simp]:
  "isfinite (widen x) = isfinite x" "is_nan (widen x) = is_nan x" "val (widen x) = val x"
  by (cases x; simp)+

lemma widen_less_iff: "widen x < widen y \<longleftrightarrow> x < y"
  by (cases x; cases y) (simp_all add: less_fp_iff)

lemma fp_abs_nonneg: "\<not> is_nan x \<Longrightarrow> 0 \<le> \<bar>x\<bar>" for x :: "'f::len fp"
  by (cases x) (auto simp: abs_fp_def less_eq_fp_iff zero_fp_def)

lemma is_nan_abs [simp]: "is_nan \<bar>x\<bar> = is_nan x" for x :: "'f::len fp"
  by (cases x) (auto simp: abs_fp_def)

lemma isfinite_abs [simp]: "isfinite \<bar>x\<bar> = isfinite x" for x :: "'f::len fp"
  by (cases x) (auto simp: abs_fp_def)

lemma val_abs: "val \<bar>x\<bar> = \<bar>val x\<bar>" for x :: "'f::len fp"
  by (cases x) (auto simp: abs_fp_def)

lemma abs_not_negzero: "\<bar>x\<bar> \<noteq> NegZero" for x :: "'f::len fp"
  by (cases x) (auto simp: abs_fp_def)

lemma sqrt_approx_nonneg: "0 \<le> q \<Longrightarrow> 0 \<le> sqrt_approx s q"
  using isqrt_spec [of "\<lfloor>q * of_int (4 ^ s)\<rfloor>"] by (simp add: sqrt_approx_def Let_def)

lemma fp_sqrt_nonneg: "0 \<le> x \<Longrightarrow> 0 \<le> fp_sqrt x" for x :: "'f::len fp"
proof (cases x)
  case (Num q)
  assume "0 \<le> x"
  then have q: "0 \<le> q" using Num by (simp add: zero_fp_def less_eq_fp_iff)
  have "(rnd 0 :: 'f fp) \<le> rnd (sqrt_approx (sqrt_shift TYPE('f) q) q)"
    by (rule rnd_mono) (rule sqrt_approx_nonneg [OF q])
  then show ?thesis using Num q by (simp add: zero_fp_def fp_le_refl)
qed (auto simp: less_eq_fp_iff zero_fp_def)

text \<open>
  The integer approximation sits on the same side of every multiple of \<open>1 / 2 ^ s\<close> as the
  exact root, which is what makes its rounding the correctly rounded root.
\<close>

lemma sqrt_approx_side:
  assumes "0 \<le> q" "0 \<le> j"
  shows "of_int j / 2 ^ s \<le> sqrt_approx s q \<longleftrightarrow> (of_int j / 2 ^ s)\<^sup>2 \<le> q"
    and "of_int j / 2 ^ s = sqrt_approx s q \<longleftrightarrow> (of_int j / 2 ^ s)\<^sup>2 = q"
proof -
  define n where "n = q * 4 ^ s"
  define r where "r = isqrt \<lfloor>n\<rfloor>"
  have n0: "0 \<le> n" using assms by (simp add: n_def)
  have r: "0 \<le> r" "r * r \<le> \<lfloor>n\<rfloor>" "\<lfloor>n\<rfloor> + 1 \<le> (r + 1) * (r + 1)"
    using isqrt_spec [of "\<lfloor>n\<rfloor>"] n0 unfolding r_def by auto
  have lo: "of_int (r * r) \<le> n" using r(2) by (simp only: le_floor_iff)
  have hi: "n < of_int ((r + 1) * (r + 1))" using r(3) by (simp only: floor_less_iff [symmetric])
  have sq: "(of_int j / 2 ^ s)\<^sup>2 = (of_int (j * j) :: rat) / 4 ^ s"
    by (simp add: power_divide power2_eq_square power_mult_distrib [symmetric])
  have le_iff: "of_int (j * j) \<le> n \<longleftrightarrow> j \<le> r"
  proof
    assume "j \<le> r"
    then have "of_int (j * j) \<le> (of_int (r * r) :: rat)"
      using assms(2) by (simp only: of_int_le_iff mult_mono)
    then show "of_int (j * j) \<le> n" using lo by linarith
  next
    assume "of_int (j * j) \<le> n"
    then have "j * j < (r + 1) * (r + 1)" using hi by (metis le_less_trans of_int_less_iff)
    then have "j < r + 1" using r(1) by (metis mult_mono not_le assms(2) add_nonneg_nonneg zero_le_one)
    then show "j \<le> r" by simp
  qed
  have eq_iff: "of_int (j * j) = n \<longleftrightarrow> of_int (r * r) = n \<and> j = r"
  proof
    assume e: "of_int (j * j) = n"
    then have "j \<le> r" using le_iff by simp
    moreover have "r * r \<le> j * j" using lo e by (metis of_int_le_iff)
    then have "r \<le> j" using power2_le_imp_le [of r j] assms(2) by (simp add: power2_eq_square)
    ultimately show "of_int (r * r) = n \<and> j = r" using e by simp
  qed simp
  have a: "sqrt_approx s q = (if of_int (r * r) = n then of_int r else of_int r + 1 / 2) / 2 ^ s"
    unfolding sqrt_approx_def Let_def by (simp add: n_def r_def)
  have half: "(of_int j :: rat) \<le> of_int r + 1 / 2 \<longleftrightarrow> j \<le> r" "(of_int j :: rat) \<noteq> of_int r + 1 / 2"
  proof -
    have "of_int j \<le> (of_int r :: rat) + 1 / 2 \<longleftrightarrow> of_int (2 * j) \<le> (of_int (2 * r + 1) :: rat)" by auto
    then show "(of_int j :: rat) \<le> of_int r + 1 / 2 \<longleftrightarrow> j \<le> r" unfolding of_int_le_iff by linarith
    have "of_int j = (of_int r :: rat) + 1 / 2 \<longleftrightarrow> of_int (2 * j) = (of_int (2 * r + 1) :: rat)" by auto
    then show "(of_int j :: rat) \<noteq> of_int r + 1 / 2" unfolding of_int_eq_iff by presburger
  qed
  show "of_int j / 2 ^ s \<le> sqrt_approx s q \<longleftrightarrow> (of_int j / 2 ^ s)\<^sup>2 \<le> q"
    unfolding a sq using le_iff half(1) by (simp add: divide_le_cancel pos_divide_le_eq n_def [symmetric])
  show "of_int j / 2 ^ s = sqrt_approx s q \<longleftrightarrow> (of_int j / 2 ^ s)\<^sup>2 = q"
    unfolding a sq using eq_iff half(2) by (auto simp: divide_eq_eq n_def [symmetric])
qed


subsection \<open>Evaluation on small dyadic inputs\<close>

text \<open>
  Concrete inputs in witnesses are multiples of \<open>1 / 256\<close> below \<open>2 ^ 16\<close>: on those the
  operations are exact in both formats, and these rules evaluate them without rounding.
\<close>

subsection \<open>Exact operations\<close>

text \<open>Every float is a double.\<close>

lemma representable_32_64:
  assumes "representable TYPE(32) q"
  shows "representable TYPE(64) q"
proof (cases "q = 0")
  case False
  have q: "to_grid TYPE(32) q = q" and b: "\<bar>q\<bar> < 2 powi (emax TYPE(32) + 1)"
    using assms by (simp_all add: representable_def)
  have "to_grid TYPE(64) q = q"
  proof (rule to_grid_exact)
    show "q = of_int (rne (q / 2 powi ulp_exponent TYPE(32) q)) * 2 powi ulp_exponent TYPE(32) q"
      using q by (simp add: to_grid_def)
    have "\<bar>rne (q / 2 powi ulp_exponent TYPE(32) q)\<bar> \<le> 2 ^ 24"
      using to_grid_scaled_bound [OF False, where 'f = 32] by (simp add: precision_def)
    then show "\<bar>rne (q / 2 powi ulp_exponent TYPE(32) q)\<bar> \<le> 2 ^ precision TYPE(64)"
      by (simp add: precision_def)
  qed (simp add: ulp_exponent_def precision_def emin_def emax_def)
  moreover have "(2::rat) powi (emax TYPE(32) + 1) \<le> 2 powi (emax TYPE(64) + 1)"
    unfolding powi2_le_iff by (simp add: emax_def)
  ultimately show ?thesis using b unfolding representable_def by linarith
qed simp

lemma in_format_widen: "in_format x \<Longrightarrow> in_format (widen x)"
  by (cases x) (simp_all add: representable_32_64)

lemma times_one_right:
  assumes "in_format x"
  shows "x * 1 = (x :: 'f::len fp)"
  using assms by (cases x) (auto simp: times_fp_def one_fp_def round_fp_representable)

lemma feq_finite_iff: "isfinite x \<Longrightarrow> isfinite y \<Longrightarrow> feq x y \<longleftrightarrow> val x = val y"
  by (auto simp: feq_def fp_le_def elim!: isfinite_cases)

lemma val_round_representable:
  "representable TYPE('f) q \<Longrightarrow> isfinite (round_fp s q :: 'f::len fp) \<and> val (round_fp s q :: 'f fp) = q"
  by (simp add: round_fp_representable)

lemma plus_exact:
  fixes x y :: "'f::len fp"
  assumes "isfinite x" "isfinite y" "representable TYPE('f) (val x + val y)"
  shows "isfinite (x + y) \<and> val (x + y) = val x + val y"
  using assms by (auto simp: plus_fp_def rnd_representable elim!: isfinite_cases)

lemma times_exact:
  fixes x y :: "'f::len fp"
  assumes "isfinite x" "isfinite y" "representable TYPE('f) (val x * val y)"
  shows "isfinite (x * y) \<and> val (x * y) = val x * val y"
  using assms by (auto simp: times_fp_def round_fp_representable elim!: isfinite_cases)

lemma in_format_val: "in_format x \<Longrightarrow> representable TYPE('f) (val (x :: 'f::len fp))"
  by (cases x) simp_all

lemma finite_zero [simp]: "isfinite (0 :: 'f::len fp)" "val (0 :: 'f fp) = 0"
  by (simp_all add: zero_fp_def)

lemma finite_one [simp]: "isfinite (1 :: 'f::len fp)" "val (1 :: 'f fp) = 1"
  by (simp_all add: one_fp_def)

lemma unit_row_exact:
  fixes a b c :: f64
  assumes fin: "isfinite x" "isfinite y" "isfinite z" and fmt: "in_format x" "in_format y" "in_format z"
    and row: "(a = 1 \<and> b = 0 \<and> c = 0 \<and> r = x) \<or> (a = 0 \<and> b = 1 \<and> c = 0 \<and> r = y) \<or> (a = 0 \<and> b = 0 \<and> c = 1 \<and> r = z)"
  shows "feq (a * x + b * y + c * z + 0) r"
proof -
  have coef: "isfinite a" "isfinite b" "isfinite c" using row by auto
  have rep: "representable TYPE(64) (val a * val x)" "representable TYPE(64) (val b * val y)"
      "representable TYPE(64) (val c * val z)"
    using row fmt by (auto dest: in_format_val)
  note t = times_exact [OF coef(1) fin(1) rep(1)] times_exact [OF coef(2) fin(2) rep(2)]
    times_exact [OF coef(3) fin(3) rep(3)]
  have s1: "isfinite (a * x + b * y) \<and> val (a * x + b * y) = val a * val x + val b * val y"
    using plus_exact [of "a * x" "b * y"] t row fmt by (auto dest: in_format_val)
  have s2: "isfinite (a * x + b * y + c * z) \<and> val (a * x + b * y + c * z) = val r"
    using plus_exact [of "a * x + b * y" "c * z"] t s1 row fmt by (auto dest: in_format_val)
  have s3: "isfinite (a * x + b * y + c * z + 0) \<and> val (a * x + b * y + c * z + 0) = val r"
    using plus_exact [of "a * x + b * y + c * z" 0] s2 row fmt by (auto dest: in_format_val)
  then show ?thesis using row fin by (auto simp: feq_finite_iff)
qed

lemma representable_dyadic:
  assumes "of_int \<lfloor>q * 256\<rfloor> = q * 256" "\<bar>q\<bar> \<le> 65536"
  shows "representable TYPE('f::len) q"
proof -
  let ?m = "\<lfloor>q * 256\<rfloor>" and ?p = "precision TYPE('f)"
  have q: "q = of_int ?m * 2 powi - 8" unfolding assms(1) by (simp add: power_int_def power_divide)
  have "\<bar>q * 256\<bar> \<le> 16777216" using assms(2) by (simp add: abs_mult)
  then have "\<bar>of_int ?m :: rat\<bar> \<le> of_int 16777216" unfolding assms(1) by simp
  then have m24: "\<bar>?m\<bar> \<le> 2 ^ 24" unfolding of_int_abs [symmetric] of_int_le_iff by simp
  also have "(2::int) ^ 24 \<le> 2 ^ ?p" using precision_pos(1) [where 'f = 'f] by (rule power_increasing) simp
  finally have "to_grid TYPE('f) q = q"
    by (intro to_grid_exact [OF q]) (use precision_pos(1) [where 'f = 'f] emax_pos [where 'f = 'f] in \<open>simp_all add: emin_def\<close>)
  moreover have "(65536::rat) < 2 powi (emax TYPE('f) + 1)"
    using powi2_less_iff [of 16 "emax TYPE('f) + 1"] emax_pos [where 'f = 'f] by (simp add: power_int_def)
  ultimately show ?thesis using assms(2) unfolding representable_def by linarith
qed

lemma representable_scaled:
  assumes "q * 2 ^ k = of_int m" "\<bar>m\<bar> \<le> 2 ^ 53" "k \<le> 1000"
  shows "representable TYPE(64) q"
proof -
  have q: "q = of_int m * 2 powi (- int k)"
    using assms(1) by (simp add: power_int_minus power_int_of_nat field_simps)
  have "\<bar>of_int m :: rat\<bar> \<le> of_int (2 ^ 53)" using assms(2) unfolding of_int_abs [symmetric] of_int_le_iff .
  then have a: "\<bar>q\<bar> * 2 ^ k \<le> 2 ^ 53" using assms(1) by (metis abs_mult abs_of_pos of_int_numeral of_int_power zero_less_numeral zero_less_power)
  have "\<bar>q\<bar> * 1 \<le> \<bar>q\<bar> * 2 ^ k" by (rule mult_left_mono) simp_all
  then have "\<bar>q\<bar> \<le> 2 ^ 53" using a by linarith
  moreover have "(2::rat) ^ 53 < 2 powi (emax TYPE(64) + 1)"
    using powi2_less_iff [of 53 "emax TYPE(64) + 1"] by (simp add: power_int_def emax_def)
  moreover have "to_grid TYPE(64) q = q"
    by (intro to_grid_exact [OF q]) (use assms(2,3) in \<open>simp_all add: precision_def emin_def emax_def\<close>)
  ultimately show ?thesis unfolding representable_def by linarith
qed
lemma rnd_dyadic [fp_simps]:
  "of_int \<lfloor>q * 256\<rfloor> = q * 256 \<Longrightarrow> \<bar>q\<bar> \<le> 65536 \<Longrightarrow> (rnd q :: 'f::len fp) = Num q"
  by (rule rnd_representable) (rule representable_dyadic)

lemma round_fp_dyadic [fp_simps]:
  "of_int \<lfloor>q * 256\<rfloor> = q * 256 \<Longrightarrow> \<bar>q\<bar> \<le> 65536 \<Longrightarrow>
   (round_fp s q :: 'f::len fp) = (if q = 0 then (if s then NegZero else Num 0) else Num q)"
  by (rule round_fp_representable) (rule representable_dyadic)

lemma isqrt_unique: "0 \<le> r \<Longrightarrow> r * r \<le> n \<Longrightarrow> n < (r + 1) * (r + 1) \<Longrightarrow> isqrt n = r"
proof -
  assume r: "0 \<le> r" "r * r \<le> n" "n < (r + 1) * (r + 1)"
  then have "0 \<le> n" using zero_le_square [of r] by linarith
  note s = isqrt_spec [OF this]
  have "\<not> r < isqrt n"
  proof
    assume "r < isqrt n"
    then have "(r + 1) * (r + 1) \<le> isqrt n * isqrt n" using r(1) by (intro mult_mono) auto
    with s r show False by linarith
  qed
  moreover have "\<not> isqrt n < r"
  proof
    assume "isqrt n < r"
    then have "(isqrt n + 1) * (isqrt n + 1) \<le> r * r" using s by (intro mult_mono) auto
    with s r show False by linarith
  qed
  ultimately show ?thesis by simp
qed

text \<open>The root of a perfect dyadic square is exact.\<close>

lemma sqrt_approx_square:
  assumes "0 \<le> q" "of_int \<lfloor>q * 2 ^ s\<rfloor> = q * 2 ^ s"
  shows "sqrt_approx s (q * q) = q"
proof -
  define r where "r = \<lfloor>q * 2 ^ s\<rfloor>"
  have r: "of_int r = q * 2 ^ s" "0 \<le> r" using assms by (simp_all add: r_def)
  have n: "q * q * 4 ^ s = of_int (r * r)"
    using r(1) by (simp add: power_mult_distrib [symmetric] algebra_simps)
  have root: "isqrt (r * r) = r" by (rule isqrt_unique) (use r(2) in \<open>auto simp: algebra_simps\<close>)
  have "sqrt_approx s (q * q) = of_int r / of_int (2 ^ s)"
    unfolding sqrt_approx_def Let_def of_int_power of_int_numeral n floor_of_int root by simp
  then show ?thesis using r(1) by simp
qed

lemma fp_sqrt_square:
  assumes "0 < q" "of_int q = (x :: rat)" "q \<le> 4096"
  shows "fp_sqrt (Num (x * x) :: 'f::len fp) = Num x"
proof -
  have "of_int \<lfloor>x * 2 ^ s\<rfloor> = x * 2 ^ s" for s
    unfolding assms(2) [symmetric] by (simp add: of_int_power [symmetric] of_int_mult [symmetric] del: of_int_power of_int_mult)
  then have "sqrt_approx s (x * x) = x" for s using assms by (intro sqrt_approx_square) auto
  moreover have "(rnd x :: 'f fp) = Num x"
    by (rule rnd_representable)
      (use representable_int [of q, where 'f = 'f] precision_pos(1) [where 'f = 'f]
         power_increasing [of 24 "precision TYPE('f)" "2::int"] assms in auto)
  moreover have "\<not> x * x < 0" "x \<noteq> 0" using assms(1,2) by auto
  ultimately show ?thesis by simp
qed

lemma fp_sqrt_units [fp_simps]:
  "fp_sqrt (Num 0 :: 'f::len fp) = Num 0" "fp_sqrt (Num 1 :: 'f fp) = Num 1"
  using fp_sqrt_square [of 1 1] by simp_all

declare fp_sqrt.simps [simp del]

lemmas fp_eval = fp_op_defs fp_le_def fp_simps of_count_def lit_def std_min_def std_max_def std_clamp_def

text \<open>Squares and sums of squares are never NaN.\<close>

lemma fp_square_nonneg: "\<not> is_nan x \<Longrightarrow> 0 \<le> x * x" for x :: "'f::len fp"
proof (cases x)
  case (Num q)
  have "(rnd 0 :: 'f fp) \<le> rnd (q * q)" by (rule rnd_mono) simp
  moreover have "x * x = rnd (q * q)" using Num by (simp add: times_fp_def rnd_def)
  ultimately show ?thesis by (simp add: zero_fp_def)
qed (simp_all add: fp_eval zero_fp_def round_fp_def)

lemma fp_plus_nonneg: "0 \<le> x \<Longrightarrow> 0 \<le> y \<Longrightarrow> 0 \<le> x + y" for x y :: "'f::len fp"
proof -
  assume x: "0 \<le> x" and y: "0 \<le> y"
  have num: "(0 :: 'f fp) \<le> rnd q" if "0 \<le> q" for q
    using rnd_mono [OF that, where 'f = 'f] by (simp add: zero_fp_def)
  show ?thesis
    using x y num by (cases x; cases y) (auto simp: plus_fp_def zero_fp_def less_eq_fp_def fp_le_def)
qed

lemma finite_minus_not_nan: "isfinite x \<Longrightarrow> isfinite y \<Longrightarrow> \<not> is_nan (x - y)" for x y :: "'f::len fp"
  by (cases x; cases y) (auto simp: minus_fp_def)

end
