(* ===== verification/Core.thy ===== *)
theory Core
  imports IEEE754
begin

text \<open>
  The dependency-free public contracts: failure categories and pipeline stages
  (\<open>status.hpp\<close>), the value-or-error carrier (\<open>result.hpp\<close>), vectors and length units
  (\<open>geometry.hpp\<close>) and the algorithm/back-end selectors (\<open>registration_options.hpp\<close>).

  A scoped enumeration with a fixed underlying type may hold values that name no enumerator;
  where the code handles that case the datatype has a constructor for it
  (\<open>unnamed_...\<close>). A C++ string is a list of bytes, here a \<open>string\<close>.
\<close>

subsection \<open>status.hpp, result.hpp\<close>

datatype ErrorCode =
    invalid_argument | invalid_input | unsupported_format | io_error | registration_failed
  | insufficient_coverage | serialization_failed | internal_error

datatype PipelineStage =
    stage_none | stage_validate | stage_normalize | stage_preprocess | stage_registration
  | stage_registration_gate | stage_transform | stage_compare | stage_coverage_gate
  | stage_detect | stage_finalize | stage_serialization

text \<open>The context map of an error is listed in key order, as \<open>std::map\<close> iterates it.\<close>

record Error =
  err_code :: ErrorCode
  err_stage :: PipelineStage
  err_message :: string
  err_context :: "(string \<times> string) list"

type_synonym 'a Result = "Error + 'a"

definition Result_value_or :: "'a Result \<Rightarrow> 'a \<Rightarrow> 'a" where
  "Result_value_or r fallback = (case r of Inr v \<Rightarrow> v | Inl _ \<Rightarrow> fallback)"

definition field_error :: "ErrorCode \<Rightarrow> PipelineStage \<Rightarrow> string \<Rightarrow> string \<Rightarrow> string \<Rightarrow> Error" where
  "field_error c s m field reason =
     \<lparr>err_code = c, err_stage = s, err_message = m,
      err_context = [(''field'', field), (''reason'', reason)]\<rparr>"

text \<open>
  A C++ exception that crosses a function of the model: the one class the sources tell apart
  (\<open>std::invalid_argument\<close>) and the rest of \<open>std::exception\<close>, with its \<open>what()\<close> text.
\<close>

datatype exn = exn_invalid_argument string | exn_other string

fun what :: "exn \<Rightarrow> string" where
  "what (exn_invalid_argument s) = s"
| "what (exn_other s) = s"

subsection \<open>Vectors\<close>

datatype 'a vec3 = Vec3 (vx: 'a) (vy: 'a) (vz: 'a)

type_synonym Vec3f = "f32 vec3"
type_synonym Vec3d = "f64 vec3"

definition Vec3f_zero :: Vec3f where "Vec3f_zero = Vec3 0 0 0"
definition Vec3d_zero :: Vec3d where "Vec3d_zero = Vec3 0 0 0"

definition widen3 :: "Vec3f \<Rightarrow> Vec3d" where
  "widen3 v = Vec3 (widen (vx v)) (widen (vy v)) (widen (vz v))"

definition narrow3 :: "Vec3d \<Rightarrow> Vec3f" where
  "narrow3 v = Vec3 (narrow (vx v)) (narrow (vy v)) (narrow (vz v))"

definition in_format3 :: "'f::len fp vec3 \<Rightarrow> bool" where
  "in_format3 v \<longleftrightarrow> in_format (vx v) \<and> in_format (vy v) \<and> in_format (vz v)"

text \<open>\<open>detail::is_finite\<close> of \<open>surface.hpp\<close>, and the \<open>finite\<close> helpers of the stages.\<close>

definition is_finite3 :: "'f fp vec3 \<Rightarrow> bool" where
  "is_finite3 p \<longleftrightarrow> isfinite (vx p) \<and> isfinite (vy p) \<and> isfinite (vz p)"

text \<open>Component-wise IEEE equality, and closeness of the zeros only.\<close>

definition feq3 :: "'f fp vec3 \<Rightarrow> 'f fp vec3 \<Rightarrow> bool" where
  "feq3 a b \<longleftrightarrow> feq (vx a) (vx b) \<and> feq (vy a) (vy b) \<and> feq (vz a) (vz b)"

subsection \<open>Units\<close>

datatype LengthUnit = millimeter | meter | micrometer | unnamed_unit u8

definition geometry_error :: "string \<Rightarrow> string \<Rightarrow> Error" where
  "geometry_error = field_error invalid_input stage_validate ''invalid geometry contract''"

definition millimeters_per_unit :: "LengthUnit \<Rightarrow> f64 Result" where
  "millimeters_per_unit u = (case u of
     millimeter \<Rightarrow> Inr (lit 1)
   | meter \<Rightarrow> Inr (lit 1000)
   | micrometer \<Rightarrow> Inr (lit (1 / 1000))
   | unnamed_unit _ \<Rightarrow> Inl (geometry_error ''unit'' ''enumerator is not supported''))"

definition to_millimeters :: "f64 \<Rightarrow> LengthUnit \<Rightarrow> f64 Result" where
  "to_millimeters value u =
     require (isfinite value) (geometry_error ''length'' ''must be a finite number'')
       (rbind (millimeters_per_unit u) (\<lambda>scale. Inr (value * scale)))"

subsection \<open>registration_options.hpp\<close>

datatype RegistrationMethod = point_to_plane | point_to_point | gicp | unnamed_method u8
datatype CpuKernel = kernel_automatic | kernel_scalar | kernel_avx2 | unnamed_kernel u8
datatype ComputeBackend = backend_cpu | backend_gpu | backend_automatic | unnamed_backend u8

fun cpu_kernel_name :: "CpuKernel \<Rightarrow> string" where
  "cpu_kernel_name kernel_automatic = ''auto''"
| "cpu_kernel_name kernel_scalar = ''scalar''"
| "cpu_kernel_name kernel_avx2 = ''avx2''"
| "cpu_kernel_name (unnamed_kernel _) = ''unknown''"

fun registration_method_name :: "RegistrationMethod \<Rightarrow> string" where
  "registration_method_name point_to_plane = ''point_to_plane''"
| "registration_method_name point_to_point = ''point_to_point''"
| "registration_method_name gicp = ''gicp''"
| "registration_method_name (unnamed_method _) = ''unknown''"

fun compute_backend_name :: "ComputeBackend \<Rightarrow> string" where
  "compute_backend_name backend_cpu = ''cpu''"
| "compute_backend_name backend_gpu = ''gpu''"
| "compute_backend_name backend_automatic = ''auto''"
| "compute_backend_name (unnamed_backend _) = ''unknown''"

subsection \<open>Lemmas\<close>

lemma vec3_eqI: "vx a = vx b \<Longrightarrow> vy a = vy b \<Longrightarrow> vz a = vz b \<Longrightarrow> a = b"
  by (cases a; cases b) simp

lemma widen3_simps [simp]:
  "vx (widen3 v) = widen (vx v)" "vy (widen3 v) = widen (vy v)" "vz (widen3 v) = widen (vz v)"
  by (simp_all add: widen3_def)

lemma narrow3_simps [simp]:
  "vx (narrow3 v) = narrow (vx v)" "vy (narrow3 v) = narrow (vy v)" "vz (narrow3 v) = narrow (vz v)"
  by (simp_all add: narrow3_def)

lemma is_finite3_widen [simp]: "is_finite3 (widen3 v) = is_finite3 v"
  by (simp add: is_finite3_def)

lemma in_format3_narrow [simp]: "in_format3 (narrow3 v)"
  by (simp add: in_format3_def in_format_narrow)

lemma narrow_widen: "in_format x \<Longrightarrow> x \<noteq> NaN \<Longrightarrow> narrow (widen x) = x"
  by (cases x) (auto intro: rnd_representable)

lemma narrow_widen_all: "in_format x \<Longrightarrow> narrow (widen x) = x"
  by (cases x) (auto intro: rnd_representable)

lemma narrow3_widen3: "in_format3 v \<Longrightarrow> narrow3 (widen3 v) = v"
  by (rule vec3_eqI) (auto simp: in_format3_def narrow_widen_all)

lemma millimeters_per_unit_ok_iff:
  "is_ok (millimeters_per_unit u) \<longleftrightarrow> (\<forall>b. u \<noteq> unnamed_unit b)"
  by (cases u) (simp_all add: millimeters_per_unit_def)

lemma method_name_known: "registration_method_name m = ''unknown'' \<longleftrightarrow> (\<exists>b. m = unnamed_method b)"
  by (cases m) simp_all

lemma backend_name_known: "compute_backend_name m = ''unknown'' \<longleftrightarrow> (\<exists>b. m = unnamed_backend b)"
  by (cases m) simp_all

lemma kernel_name_known: "cpu_kernel_name m = ''unknown'' \<longleftrightarrow> (\<exists>b. m = unnamed_kernel b)"
  by (cases m) simp_all

end
