(* ===== verification/Utf8.thy ===== *)
theory Utf8
  imports Core
begin

text \<open>
  \<open>detail::is_valid_utf8\<close> of \<open>include/pointcloud_ad/geometry.hpp\<close>, the byte loop that guards
  every frame identifier, and its proof of equivalence with the encoding of a sequence of
  Unicode scalar values (RFC 3629). The loop works on 8-bit bytes and a 32-bit accumulator.
\<close>

unbundle bit_operations_syntax

subsection \<open>UTF-8\<close>

text \<open>The lead byte decides the number of continuation bytes and the first payload bits.\<close>

definition utf8_lead :: "u8 \<Rightarrow> (nat \<times> u32) option" where
  "utf8_lead lead =
     (if lead \<le> 0x7F then Some (0, ucast lead)
      else if 0xC2 \<le> lead \<and> lead \<le> 0xDF then Some (1, ucast (lead AND 0x1F))
      else if 0xE0 \<le> lead \<and> lead \<le> 0xEF then Some (2, ucast (lead AND 0x0F))
      else if 0xF0 \<le> lead \<and> lead \<le> 0xF4 then Some (3, ucast (lead AND 0x07))
      else None)"

text \<open>The inner loop over the continuation bytes.\<close>

fun utf8_continue :: "u8 list \<Rightarrow> u32 \<Rightarrow> u32 option" where
  "utf8_continue [] cp = Some cp"
| "utf8_continue (b # bs) cp =
     (if b AND 0xC0 \<noteq> 0x80 then None
      else utf8_continue bs (push_bit 6 cp OR ucast (b AND 0x3F)))"

definition utf8_rejected :: "nat \<Rightarrow> u32 \<Rightarrow> bool" where
  "utf8_rejected n cp \<longleftrightarrow> (n = 2 \<and> cp < 0x800) \<or> (n = 3 \<and> cp < 0x10000) \<or>
     (0xD800 \<le> cp \<and> cp \<le> 0xDFFF) \<or> 0x10FFFF < cp"

text \<open>The outer loop; the argument is \<open>text\<close> from \<open>index\<close> on.\<close>

function utf8_loop :: "u8 list \<Rightarrow> bool" where
  "utf8_loop [] = True"
| "utf8_loop (lead # rest) = (case utf8_lead lead of
     None \<Rightarrow> False
   | Some (n, cp0) \<Rightarrow>
       if length rest < n then False
       else (case utf8_continue (take n rest) cp0 of
         None \<Rightarrow> False
       | Some cp \<Rightarrow> if utf8_rejected n cp then False else utf8_loop (drop n rest)))"
  by pat_completeness auto
termination
  by (relation "measure length") auto

definition bytes_of :: "string \<Rightarrow> u8 list" where
  "bytes_of s = map of_char s"

definition is_valid_utf8 :: "string \<Rightarrow> bool" where
  "is_valid_utf8 text = utf8_loop (bytes_of text)"

subsection \<open>The encoding\<close>

definition unicode_scalar :: "nat \<Rightarrow> bool" where
  "unicode_scalar c \<longleftrightarrow> c < 0xD800 \<or> (0xDFFF < c \<and> c \<le> 0x10FFFF)"

definition utf8_encode :: "nat \<Rightarrow> nat list" where
  "utf8_encode c =
     (if c < 0x80 then [c]
      else if c < 0x800 then [0xC0 + c div 64, 0x80 + c mod 64]
      else if c < 0x10000 then [0xE0 + c div 4096, 0x80 + c div 64 mod 64, 0x80 + c mod 64]
      else [0xF0 + c div 262144, 0x80 + c div 4096 mod 64, 0x80 + c div 64 mod 64, 0x80 + c mod 64])"

lemma byte_masks:
  fixes b :: u8
  shows "unat (b AND 0x3F) = unat b mod 64" "unat (b AND 0x1F) = unat b mod 32"
    "unat (b AND 0x0F) = unat b mod 16" "unat (b AND 0x07) = unat b mod 8"
proof -
  have "b AND 0x3F = take_bit 6 b" "b AND 0x1F = take_bit 5 b" "b AND 0x0F = take_bit 4 b" "b AND 0x07 = take_bit 3 b"
    by (simp_all add: take_bit_eq_mask mask_eq_exp_minus_1)
  moreover have "unat (take_bit k b) = unat b mod 2 ^ k" for k
    by (rule trans [OF unsigned_take_bit_eq take_bit_eq_mod])
  ultimately show "unat (b AND 0x3F) = unat b mod 64" "unat (b AND 0x1F) = unat b mod 32"
    "unat (b AND 0x0F) = unat b mod 16" "unat (b AND 0x07) = unat b mod 8"
    by (simp_all only:) simp_all
qed

lemma continuation_byte_iff: "(b::u8) AND 0xC0 = 0x80 \<longleftrightarrow> 128 \<le> unat b \<and> unat b < 192"
proof -
  have *: "list_all (\<lambda>n. ((of_nat n :: u8) AND 0xC0 = 0x80) = (128 \<le> n \<and> n < 192)) [0..<256]"
    by code_simp
  moreover have "unat b \<in> set [0..<256]" using unsigned_less [where 'a = nat and w = b] by simp
  ultimately show ?thesis 
    by (auto simp: list_all_iff simp del: set_upt dest!: bspec [where x = "unat b"])
qed

lemma append_payload:
  fixes cp :: u32 and b :: u8
  assumes "unat cp < 2 ^ 26"
  shows "unat (push_bit 6 cp OR ucast (b AND 0x3F)) = unat cp * 64 + unat b mod 64"
proof -
  have b: "b AND 0x3F = take_bit 6 b" by (simp add: take_bit_eq_mask mask_eq_exp_minus_1)
  have "push_bit 6 cp OR ucast (b AND 0x3F) = push_bit 6 cp + ucast (b AND 0x3F)"
    by (rule disjunctive_add [symmetric])
       (auto simp: b bit_push_bit_iff bit_ucast_iff bit_take_bit_iff)
  moreover have "unat (push_bit 6 cp) = unat cp * 64"
  proof -
    have "unat (push_bit 6 cp) = take_bit 32 (push_bit 6 (unat cp))"
      by (rule trans [OF unsigned_push_bit_eq]) simp
    then show ?thesis using assms by (simp add: push_bit_eq_mult [of _ "unat cp"] take_bit_eq_mod)
  qed
  moreover have "unat (ucast (b AND 0x3F) :: u32) = unat b mod 64"
    by (simp add: byte_masks unsigned_ucast_eq take_bit_eq_mod)
  ultimately show ?thesis using assms by (simp add: unat_word_ariths)
qed

text \<open>A byte string is handled as the list of its byte values.\<close>

lemma utf8_lead_cases:
  fixes b :: u8
  shows "utf8_lead b =
     (if unat b < 128 then Some (0, ucast b)
      else if 194 \<le> unat b \<and> unat b < 224 then Some (1, ucast (b AND 0x1F))
      else if 224 \<le> unat b \<and> unat b < 240 then Some (2, ucast (b AND 0x0F))
      else if 240 \<le> unat b \<and> unat b < 245 then Some (3, ucast (b AND 0x07))
      else None)"
  by (auto simp: utf8_lead_def word_le_nat_alt)

lemma unat_ucast_u8 [simp]: "unat (ucast (b :: u8) :: u32) = unat b"
  using unsigned_less [where 'a = nat and w = b] by (simp add: unsigned_ucast_eq take_bit_eq_mod)

definition payload :: "nat \<Rightarrow> u8 list \<Rightarrow> nat" where
  "payload c bs = fold (\<lambda>b c. c * 64 + unat b mod 64) bs c"

definition is_continuation :: "u8 \<Rightarrow> bool" where
  "is_continuation b \<longleftrightarrow> 128 \<le> unat b \<and> unat b < 192"

lemma utf8_continue_payload:
  assumes "(unat cp + 1) * 64 ^ length bs \<le> 2 ^ 32"
  shows "utf8_continue bs cp = Some d \<longleftrightarrow> list_all is_continuation bs \<and> unat d = payload (unat cp) bs"
  using assms
proof (induction bs arbitrary: cp)
  case Nil
  then show ?case by (auto simp: payload_def word_eq_iff_unsigned [where 'a = nat])
next
  case (Cons b bs)
  have "(unat cp + 1) * 64 \<le> (unat cp + 1) * 64 ^ length (b # bs)"
    by (rule mult_left_mono) simp_all
  then have "(unat cp + 1) * 64 \<le> 2 ^ 32" using Cons.prems by (rule order_trans)
  then have small: "unat cp < 2 ^ 26" by simp
  let ?cp = "push_bit 6 cp OR ucast (b AND 0x3F)"
  have cp: "unat ?cp = unat cp * 64 + unat b mod 64" by (rule append_payload [OF small])
  have "(unat ?cp + 1) * 64 ^ length bs \<le> ((unat cp + 1) * 64) * 64 ^ length bs"
    unfolding cp by (rule mult_right_mono) simp_all
  also have "\<dots> = (unat cp + 1) * 64 ^ length (b # bs)" by (simp add: algebra_simps)
  also note Cons.prems
  finally have "utf8_continue bs ?cp = Some d \<longleftrightarrow>
      list_all is_continuation bs \<and> unat d = payload (unat ?cp) bs"
    by (rule Cons.IH)
  then show ?case
    by (auto simp: continuation_byte_iff is_continuation_def [of b] payload_def cp)
qed


lemma utf8_encode_digits:
  "c < 128 \<Longrightarrow> utf8_encode c = [c]"
  "2 \<le> x \<Longrightarrow> x < 32 \<Longrightarrow> y < 64 \<Longrightarrow> utf8_encode (x * 64 + y) = [192 + x, 128 + y]"
  "2048 \<le> (x * 64 + y) * 64 + z \<Longrightarrow> x < 16 \<Longrightarrow> y < 64 \<Longrightarrow> z < 64 \<Longrightarrow>
     utf8_encode ((x * 64 + y) * 64 + z) = [224 + x, 128 + y, 128 + z]"
  "65536 \<le> ((x * 64 + y) * 64 + z) * 64 + w \<Longrightarrow> x < 8 \<Longrightarrow> y < 64 \<Longrightarrow> z < 64 \<Longrightarrow> w < 64 \<Longrightarrow>
     utf8_encode (((x * 64 + y) * 64 + z) * 64 + w) = [240 + x, 128 + y, 128 + z, 128 + w]"
proof -
  have e: "n div 4096 = n div 64 div 64" "n div 262144 = n div 64 div 64 div 64" for n :: nat
    by (simp_all add: div_mult2_eq [symmetric])
  have d: "v div 64 = a" "v mod 64 = b" if "v = a * 64 + b" "b < 64" for a b v :: nat
    using that by auto
  show "c < 128 \<Longrightarrow> utf8_encode c = [c]" by (simp add: utf8_encode_def)
  show "utf8_encode (x * 64 + y) = [192 + x, 128 + y]" if "2 \<le> x" "x < 32" "y < 64"
    using that by (simp add: utf8_encode_def d)
  show "utf8_encode ((x * 64 + y) * 64 + z) = [224 + x, 128 + y, 128 + z]"
    if *: "2048 \<le> (x * 64 + y) * 64 + z" "x < 16" "y < 64" "z < 64"
  proof -
    define u where "u = x * 64 + y"
    define v where "v = u * 64 + z"
    note D = d [OF u_def \<open>y < 64\<close>] d [OF v_def \<open>z < 64\<close>]
    have "2048 \<le> v" "v < 65536" using * by (simp_all add: u_def v_def)
    then show ?thesis unfolding u_def [symmetric] v_def [symmetric]
      by (simp add: utf8_encode_def e D)
  qed
  show "utf8_encode (((x * 64 + y) * 64 + z) * 64 + w) = [240 + x, 128 + y, 128 + z, 128 + w]"
    if *: "65536 \<le> ((x * 64 + y) * 64 + z) * 64 + w" "x < 8" "y < 64" "z < 64" "w < 64"
  proof -
    define u where "u = x * 64 + y"
    define v where "v = u * 64 + z"
    define k where "k = v * 64 + w"
    note D = d [OF u_def \<open>y < 64\<close>] d [OF v_def \<open>z < 64\<close>] d [OF k_def \<open>w < 64\<close>]
    have "65536 \<le> k" using * by (simp add: u_def v_def k_def)
    then show ?thesis unfolding u_def [symmetric] v_def [symmetric] k_def [symmetric]
      by (simp add: utf8_encode_def e D)
  qed
qed

lemma payload_less: "(c + 1) * 64 ^ length bs \<le> B \<Longrightarrow> payload c bs < B"
proof (induction bs arbitrary: c)
  case (Cons b bs)
  have "(c * 64 + unat b mod 64 + 1) * 64 ^ length bs \<le> (c + 1) * 64 * 64 ^ length bs"
    by (rule mult_right_mono) simp_all
  also have "\<dots> = (c + 1) * 64 ^ length (b # bs)" by (simp add: algebra_simps)
  also note Cons.prems
  finally show ?case using Cons.IH by (simp add: payload_def)
qed (simp add: payload_def)

definition utf8_minimum :: "nat \<Rightarrow> nat" where
  "utf8_minimum n = (if n = 2 then 2048 else if n = 3 then 65536 else 0)"

lemma utf8_rejected_unat:
  "utf8_rejected n d \<longleftrightarrow> unat d < utf8_minimum n \<or> \<not> unicode_scalar (unat d)"
  by (auto simp: utf8_rejected_def unicode_scalar_def utf8_minimum_def word_le_nat_alt word_less_nat_alt)

lemma utf8_loop_lead:
  assumes L: "utf8_lead lead = Some (n, cp0)" and n: "n \<le> length rest"
  shows "utf8_loop (lead # rest) \<longleftrightarrow> list_all is_continuation (take n rest) \<and>
     utf8_minimum n \<le> payload (unat cp0) (take n rest) \<and> unicode_scalar (payload (unat cp0) (take n rest)) \<and>
     utf8_loop (drop n rest)"
proof -
  let ?p = "payload (unat cp0) (take n rest)"
  have "n \<le> 3 \<and> unat cp0 < 256"
    using L unsigned_less [where 'a = nat and w = lead]
    by (auto simp: utf8_lead_cases byte_masks split: if_splits intro: less_trans)
  then have "(unat cp0 + 1) * 64 ^ length (take n rest) \<le> 256 * 64 ^ 3"
    by (intro mult_mono power_increasing) auto
  then have fits: "(unat cp0 + 1) * 64 ^ length (take n rest) \<le> 2 ^ 32" by simp
  have p: "unat (of_nat ?p :: u32) = ?p" using payload_less [OF fits] by (simp add: unat_of_nat)
  note step = utf8_continue_payload [OF fits]
  show ?thesis
  proof (cases "list_all is_continuation (take n rest)")
    case True
    then have "utf8_continue (take n rest) cp0 = Some (of_nat ?p)" by (simp only: step p)
    then show ?thesis using n by (auto simp: L utf8_rejected_unat p True not_less)
  next
    case False
    then have "utf8_continue (take n rest) cp0 = None" using step by (metis not_None_eq)
    then show ?thesis using n by (simp add: L False)
  qed
qed

lemma range_digit: "k * m \<le> y \<Longrightarrow> y < k * m + m \<Longrightarrow> k * m + y mod m = (y :: nat)"
  using div_nat_eqI [of m k y] by (metis add.commute mult.commute mod_div_mult_eq mult_Suc_right)

lemma digit_mod: "y < m \<Longrightarrow> (k * m + y) mod m = (y :: nat)"
  by simp

text \<open>One turn of the loop consumes the encoding of one scalar value.\<close>

lemma utf8_loop_encode:
  assumes c: "unicode_scalar c" and e: "map unat cs = utf8_encode c"
  shows "utf8_loop (cs @ rest) = utf8_loop rest"
proof -
  define u where "u = c div 64"
  define v where "v = u div 64"
  define t where "t = v div 64"
  have cuv: "c = u * 64 + c mod 64" "u = v * 64 + u mod 64" "v = t * 64 + v mod 64"
    by (simp_all add: u_def v_def t_def)
  have e': "utf8_encode c =
     (if c < 0x80 then [c] else if c < 0x800 then [0xC0 + u, 0x80 + c mod 64]
      else if c < 0x10000 then [0xE0 + v, 0x80 + u mod 64, 0x80 + c mod 64]
      else [0xF0 + t, 0x80 + v mod 64, 0x80 + u mod 64, 0x80 + c mod 64])"
    by (simp add: utf8_encode_def u_def v_def t_def div_mult2_eq [symmetric])
  have top: "c < 1114112" using c by (auto simp: unicode_scalar_def)
  consider "c < 0x80" | "0x80 \<le> c" "c < 0x800" | "0x800 \<le> c" "c < 0x10000" | "0x10000 \<le> c"
    by linarith
  then show ?thesis
  proof cases
    case 1
    then obtain b where "cs = [b]" "unat b = c" using e by (auto simp: utf8_encode_def)
    then show ?thesis using 1 c
      by (simp add: utf8_lead_cases utf8_loop_lead utf8_minimum_def payload_def del: utf8_loop.simps)
  next
    case 2
    then obtain l b where cs: "cs = [l, b]" "unat l = 192 + u" "unat b = 128 + c mod 64"
      using e unfolding e' by (auto simp: map_eq_Cons_conv)
    have "2 \<le> u" "u < 32" using 2 by (simp_all add: u_def)
    moreover have "(192 + u) mod 32 = u" using \<open>u < 32\<close> by (simp add: mod_if)
    ultimately have "utf8_lead l = Some (1, ucast (l AND 0x1F))" and "unat (ucast (l AND 0x1F) :: u32) = u"
      by (simp add: utf8_lead_cases cs, simp only: unat_ucast_u8 byte_masks cs)
    moreover have "payload u [b] = c" using cuv digit_mod [of _ 64 2] by (simp add: payload_def cs)
    ultimately show ?thesis using c
      by (simp add: cs utf8_loop_lead is_continuation_def utf8_minimum_def del: utf8_loop.simps)
  next
    case 3
    then obtain l b1 b2 where cs: "cs = [l, b1, b2]" "unat l = 224 + v"
        "unat b1 = 128 + u mod 64" "unat b2 = 128 + c mod 64"
      using e unfolding e' by (auto simp: map_eq_Cons_conv)
    have "v < 16" using 3 by (simp add: v_def u_def)
    moreover have "(224 + v) mod 16 = v" using \<open>v < 16\<close> by (simp add: mod_if)
    ultimately have "utf8_lead l = Some (2, ucast (l AND 0x0F))" and "unat (ucast (l AND 0x0F) :: u32) = v"
      by (simp add: utf8_lead_cases cs, simp only: unat_ucast_u8 byte_masks cs)
    moreover have "payload v [b1, b2] = c" using cuv digit_mod [of _ 64 2] by (simp add: payload_def cs)
    ultimately show ?thesis using c 3
      by (simp add: cs utf8_loop_lead is_continuation_def utf8_minimum_def del: utf8_loop.simps)
  next
    case 4
    then obtain l b1 b2 b3 where cs: "cs = [l, b1, b2, b3]" "unat l = 240 + t"
        "unat b1 = 128 + v mod 64" "unat b2 = 128 + u mod 64" "unat b3 = 128 + c mod 64"
      using e unfolding e' by (auto simp: map_eq_Cons_conv)
    have "t < 5" using top by (simp add: t_def v_def u_def)
    moreover have "(240 + t) mod 8 = t" using \<open>t < 5\<close> by (simp add: mod_if)
    ultimately have "utf8_lead l = Some (3, ucast (l AND 0x07))" and "unat (ucast (l AND 0x07) :: u32) = t"
      by (simp add: utf8_lead_cases cs, simp only: unat_ucast_u8 byte_masks cs)
    moreover have "payload t [b1, b2, b3] = c" using cuv digit_mod [of _ 64 2] by (simp add: payload_def cs)
    ultimately show ?thesis using c 4
      by (simp add: cs utf8_loop_lead is_continuation_def utf8_minimum_def del: utf8_loop.simps)
  qed
qed

lemma continuation_digits:
  "list_all is_continuation bs \<Longrightarrow> map unat bs = map (\<lambda>b. 128 + unat b mod 64) bs"
proof (rule map_cong)
  have *: "y = 128 + y mod 64" if "128 \<le> y" "y < 192" for y :: nat
    using that range_digit [of 2 64 y] by simp
  show "unat b = 128 + unat b mod 64" if "list_all is_continuation bs" "b \<in> set bs" for b
    using that by (intro *) (auto simp: list_all_iff is_continuation_def)
qed simp

lemma utf8_loop_decode:
  assumes "utf8_loop (lead # rest)"
  obtains c n where "unicode_scalar c" "n \<le> length rest" "map unat (lead # take n rest) = utf8_encode c"
    "utf8_loop (drop n rest)"
proof -
  obtain n cp0 where L: "utf8_lead lead = Some (n, cp0)" and n: "n \<le> length rest"
    using assms by (cases "utf8_lead lead") (auto split: if_splits)
  define d where "d = payload (unat cp0) (take n rest)"
  have k: "list_all is_continuation (take n rest)" and r: "utf8_minimum n \<le> d"
    and sc: "unicode_scalar d" and rest: "utf8_loop (drop n rest)"
    using assms by (simp_all only: utf8_loop_lead [OF L n] d_def)
  define bs where "bs = take n rest"
  define x where "x = unat cp0"
  have len: "length bs = n" using n by (simp add: bs_def)
  note bs = continuation_digits [OF k, folded bs_def]
  note d' = d_def [folded bs_def x_def]
  consider "n = 0" "unat lead < 128" "x = unat lead"
    | "n = 1" "unat lead = 192 + x" "2 \<le> x" "x < 32"
    | "n = 2" "unat lead = 224 + x" "x < 16"
    | "n = 3" "unat lead = 240 + x" "x < 8"
  proof -
    have m: "y = 192 + y mod 32 \<and> 2 \<le> y mod 32" if "194 \<le> y" "y < 224" for y :: nat
      using that range_digit [of 6 32 y] by simp
    have m': "y = 224 + y mod 16" if "224 \<le> y" "y < 240" for y :: nat
      using that range_digit [of 14 16 y] by simp
    have m'': "y = 240 + y mod 8" if "240 \<le> y" "y < 245" for y :: nat
      using that range_digit [of 30 8 y] by simp
    show ?thesis
      using L that m [of "unat lead"] m' [of "unat lead"] m'' [of "unat lead"]
      unfolding x_def utf8_lead_cases
      by (auto simp: byte_masks split: if_splits)
  qed
  then have "unat lead # map (\<lambda>b. 128 + unat b mod 64) bs = utf8_encode (d)"
  proof cases
    case 1
    then show ?thesis using len d' by (simp add: payload_def utf8_encode_digits)
  next
    case 2
    then obtain b where b: "bs = [b]" using len by (auto simp: length_Suc_conv)
    show ?thesis using 2 d' by (simp add: b payload_def utf8_encode_digits)
  next
    case 3
    then obtain b b' where b: "bs = [b, b']" using len by (auto simp: length_Suc_conv numeral_2_eq_2)
    have "2048 \<le> d" using r 3 by (simp add: utf8_minimum_def)
    then show ?thesis using 3 d' utf8_encode_digits(3) [of x "unat b mod 64" "unat b' mod 64"]
      by (simp add: b payload_def)
  next
    case 4
    then obtain b b' b'' where b: "bs = [b, b', b'']" using len by (auto simp: length_Suc_conv numeral_3_eq_3)
    have "65536 \<le> d" using r 4 by (simp add: utf8_minimum_def)
    then show ?thesis
      using 4 d' utf8_encode_digits(4) [of x "unat b mod 64" "unat b' mod 64" "unat b'' mod 64"]
      by (simp add: b payload_def)
  qed
  then have "map unat (lead # bs) = utf8_encode (d)" by (simp only: list.map bs)
  then show ?thesis using that [OF sc n] rest by (simp add: bs_def)
qed

subsection \<open>Equivalence\<close>

lemma utf8_loop_of_encoding:
  "list_all unicode_scalar cps \<Longrightarrow> map unat bs = concat (map utf8_encode cps) \<Longrightarrow> utf8_loop bs"
proof (induction cps arbitrary: bs)
  case (Cons c cps)
  then obtain cs rest where "bs = cs @ rest" "map unat cs = utf8_encode c"
      "map unat rest = concat (map utf8_encode cps)"
    by (auto simp: map_eq_append_conv)
  then show ?case using Cons utf8_loop_encode [of c cs rest] by simp
qed simp

lemma encoding_of_utf8_loop:
  "utf8_loop bs \<Longrightarrow> \<exists>cps. list_all unicode_scalar cps \<and> map unat bs = concat (map utf8_encode cps)"
proof (induction bs rule: length_induct)
  case (1 bs)
  show ?case
  proof (cases bs)
    case Nil
    then show ?thesis by (auto intro: exI [of _ "[]"])
  next
    case (Cons lead rest)
    obtain c n where c: "unicode_scalar c" "map unat (lead # take n rest) = utf8_encode c"
        and rest: "utf8_loop (drop n rest)"
      using utf8_loop_decode 1(2) unfolding Cons by metis
    have "length (drop n rest) < length bs" by (simp add: Cons)
    then obtain cps where cps: "list_all unicode_scalar cps"
        "map unat (drop n rest) = concat (map utf8_encode cps)"
      using 1(1) rest by blast
    have "map unat bs = map unat (lead # take n rest) @ map unat (drop n rest)"
      by (simp add: Cons map_append [symmetric] del: map_append)
    then have "map unat bs = concat (map utf8_encode (c # cps))" by (simp only: c cps) simp
    then show ?thesis using c(1) cps(1) by (intro exI [of _ "c # cps"]) simp
  qed
qed

lemma unat_bytes_of: "map unat (bytes_of s) = map of_char s"
proof -
  have "unat (of_char c :: u8) = of_char c" for c :: char
  proof -
    have "(of_char c :: nat) < 256" using nat_of_char_less_256 by simp
    moreover have "(of_char c :: u8) = of_nat (of_char c)" by (rule of_nat_of_char [symmetric])
    ultimately show ?thesis by (simp only: unat_of_nat) simp
  qed
  then show ?thesis by (simp add: bytes_of_def)
qed

text \<open>
  C33. The validation loop accepts exactly the byte strings that are the UTF-8 encoding of some
  sequence of Unicode scalar values: overlong forms, surrogates, truncated sequences and values
  above U+10FFFF are rejected, and nothing else is.
\<close>
theorem is_valid_utf8_iff:
  "is_valid_utf8 text \<longleftrightarrow>
     (\<exists>cps. list_all unicode_scalar cps \<and> map of_char text = concat (map utf8_encode cps))"
  unfolding is_valid_utf8_def unat_bytes_of [symmetric]
  using utf8_loop_of_encoding encoding_of_utf8_loop by blast

end
