(* ===== verification/Geometry.thy ===== *)
theory Geometry
  imports Utf8
begin

text \<open>
  \<open>include/pointcloud_ad/geometry.hpp\<close>: frame identifiers and rigid
  transforms, stored row-major with their source and target frames.
\<close>

subsection \<open>FrameId\<close>

type_synonym FrameId = string

definition FrameId_create :: "string \<Rightarrow> FrameId Result" where
  "FrameId_create value =
     (if value = [] then Inl (geometry_error ''frame'' ''must not be empty'')
      else if \<not> is_valid_utf8 value then Inl (geometry_error ''frame'' ''must be valid UTF-8'')
      else Inr value)"

subsection \<open>RigidTransform\<close>

record RigidTransform =
  rt_matrix :: "f64 list"
  rt_source_frame :: FrameId
  rt_target_frame :: FrameId

text \<open>The dot product of two columns of the rotation block, accumulated as the inner loop does.\<close>

definition column_dot :: "f64 list \<Rightarrow> nat \<Rightarrow> nat \<Rightarrow> f64" where
  "column_dot m row column =
     fold (\<lambda>index dot. dot + m ! (index * 4 + row) * m ! (index * 4 + column)) [0..<3] 0"

definition determinant3 :: "f64 list \<Rightarrow> f64" where
  "determinant3 m =
     m!0 * (m!5 * m!10 - m!6 * m!9) - m!1 * (m!4 * m!10 - m!6 * m!8) + m!2 * (m!4 * m!9 - m!5 * m!8)"

definition rotation_entries :: "(nat \<times> nat) list" where
  "rotation_entries = List.product [0..<3] [0..<3]"

definition RigidTransform_create ::
  "f64 list \<Rightarrow> FrameId \<Rightarrow> FrameId \<Rightarrow> f64 \<Rightarrow> RigidTransform Result" where
  "RigidTransform_create matrix source_frame target_frame tolerance =
     (if \<not> isfinite tolerance \<or> tolerance \<le> 0
      then Inl (geometry_error ''tolerance'' ''must be finite and positive'')
      else rbind (check_all (\<lambda>e. require (isfinite e)
                     (geometry_error ''matrix'' ''all elements must be finite'') (Inr ())) matrix)
      (\<lambda>_. if tolerance < \<bar>matrix ! 12\<bar> \<or> tolerance < \<bar>matrix ! 13\<bar> \<or> tolerance < \<bar>matrix ! 14\<bar>
               \<or> tolerance < \<bar>matrix ! 15 - 1\<bar>
      then Inl (geometry_error ''matrix'' ''last row must be [0, 0, 0, 1]'')
      else rbind (check_all (\<lambda>(row, column).
                     require (\<not> tolerance < \<bar>column_dot matrix row column - (if row = column then 1 else 0)\<bar>)
                       (geometry_error ''matrix'' ''rotation must be orthonormal'') (Inr ()))
                     rotation_entries)
      (\<lambda>_. if tolerance < \<bar>determinant3 matrix - 1\<bar>
      then Inl (geometry_error ''matrix'' ''rotation determinant must be +1'')
      else Inr \<lparr>rt_matrix = matrix, rt_source_frame = source_frame, rt_target_frame = target_frame\<rparr>)))"

text \<open>The default tolerance argument of \<open>create\<close>.\<close>

definition default_tolerance :: f64 where
  "default_tolerance = lit (1 / 10 ^ 9)"

definition RigidTransform_apply :: "RigidTransform \<Rightarrow> Vec3d \<Rightarrow> Vec3d" where
  "RigidTransform_apply t p = (let m = rt_matrix t in Vec3
     (m!0 * vx p + m!1 * vy p + m!2 * vz p + m!3)
     (m!4 * vx p + m!5 * vy p + m!6 * vz p + m!7)
     (m!8 * vx p + m!9 * vy p + m!10 * vz p + m!11))"

subsection \<open>Lemmas\<close>

lemma FrameId_create_Inr_iff: "FrameId_create s = Inr f \<longleftrightarrow> s \<noteq> [] \<and> is_valid_utf8 s \<and> f = s"
  by (auto simp: FrameId_create_def)

definition is_rotation_within :: "f64 \<Rightarrow> f64 list \<Rightarrow> bool" where
  "is_rotation_within tolerance m \<longleftrightarrow>
     (\<forall>row < 3. \<forall>column < 3.
        \<not> tolerance < \<bar>column_dot m row column - (if row = column then 1 else 0)\<bar>) \<and>
     \<not> tolerance < \<bar>determinant3 m - 1\<bar>"

lemma RigidTransform_create_Inr_iff:
  "RigidTransform_create m s t tol = Inr T \<longleftrightarrow>
     isfinite tol \<and> \<not> tol \<le> 0 \<and> list_all isfinite m \<and>
     \<not> tol < \<bar>m ! 12\<bar> \<and> \<not> tol < \<bar>m ! 13\<bar> \<and> \<not> tol < \<bar>m ! 14\<bar> \<and> \<not> tol < \<bar>m ! 15 - 1\<bar> \<and>
     is_rotation_within tol m \<and>
     T = \<lparr>rt_matrix = m, rt_source_frame = s, rt_target_frame = t\<rparr>"
  unfolding RigidTransform_create_def is_rotation_within_def rotation_entries_def
  by (auto simp: rbind_Inr_iff check_all_ok_iff list_all_iff require_Inr_iff)

definition identity_matrix :: "f64 list" where
  "identity_matrix = [1, 0, 0, 0, 0, 1, 0, 0, 0, 0, 1, 0, 0, 0, 0, 1]"

lemma identity_is_rotation: "\<not> tol < 0 \<Longrightarrow> is_rotation_within tol identity_matrix"
proof -
  assume "\<not> tol < 0"
  moreover have "\<bar>column_dot identity_matrix row column - (if row = column then 1 else 0)\<bar> = 0"
    if "row < 3" "column < 3" for row column
  proof -
    have "row \<in> {0, 1, 2}" "column \<in> {0, 1, 2}" using that by auto
    then show ?thesis
      by (auto simp: column_dot_def identity_matrix_def upt_rec fp_eval)
  qed
  moreover have "\<bar>determinant3 identity_matrix - 1\<bar> = 0"
    by (simp add: determinant3_def identity_matrix_def fp_eval)
  ultimately show ?thesis by (simp add: is_rotation_within_def)
qed

lemma positive_not_less_zero: "0 < (tol :: 'f::len fp) \<Longrightarrow> \<not> tol < 0 \<and> \<not> tol \<le> 0"
  by (cases tol) (auto simp: zero_fp_def less_fp_def less_eq_fp_def fp_le_def)

lemma identity_transform_create:
  assumes "isfinite tol" "0 < tol"
  shows "RigidTransform_create identity_matrix s t tol =
    Inr \<lparr>rt_matrix = identity_matrix, rt_source_frame = s, rt_target_frame = t\<rparr>"
proof -
  have "\<bar>1 - (1 :: f64)\<bar> = 0" "\<bar>0 :: f64\<bar> = 0" by (simp_all add: fp_eval)
  then show ?thesis
    unfolding RigidTransform_create_Inr_iff
    using assms(1) positive_not_less_zero [OF assms(2)] identity_is_rotation [of tol]
    by (simp add: identity_matrix_def)
qed

text \<open>
  The identity matrix is accepted between any two frames with any positive finite tolerance,
  and the transform built from it maps every finite double point to itself (up to the sign of
  zero coordinates).
\<close>
theorem identity_transform:
  assumes "isfinite tol" "0 < tol" "is_finite3 p" "in_format3 p"
  shows "\<exists>T. RigidTransform_create identity_matrix s t tol = Inr T \<and> rt_source_frame T = s \<and>
     rt_target_frame T = t \<and> feq3 (RigidTransform_apply T p) p"
proof -
  let ?T = "\<lparr>rt_matrix = identity_matrix, rt_source_frame = s, rt_target_frame = t\<rparr>"
  have "RigidTransform_create identity_matrix s t tol = Inr ?T"
    using assms(1,2) by (rule identity_transform_create)
  moreover have "feq3 (RigidTransform_apply ?T p) p"
    using assms(3,4) unfolding feq3_def RigidTransform_apply_def is_finite3_def in_format3_def
    by (simp add: identity_matrix_def unit_row_exact)
  ultimately show ?thesis by (intro exI [of _ ?T]) simp
qed

theorem identity_transform_witness:
  "\<exists>T. RigidTransform_create identity_matrix ''part'' ''cad'' (Num (1 / 256)) = Inr T \<and>
     rt_source_frame T = ''part'' \<and> rt_target_frame T = ''cad'' \<and>
     feq3 (RigidTransform_apply T (Vec3 1 0 1)) (Vec3 1 0 1)"
  by (rule identity_transform) (simp_all add: fp_eval is_finite3_def in_format3_def)

end
