(* ===== verification/Config.thy ===== *)
theory Config
  imports Geometry
begin

text \<open>
  \<open>include/pointcloud_ad/config.hpp\<close>: the raw configuration, whose every field may be absent,
  the validated one, and the validation in the order of the code, one definition per section.
  The first failing field decides the error. Fields carry the initials of their section.
\<close>

subsection \<open>Raw and validated configuration\<close>

record InputConfig =
  in_reference_unit :: "LengthUnit option"
  in_scan_unit :: "LengthUnit option"
  in_reference_frame :: "FrameId option"
  in_scan_frame :: "FrameId option"

record PreprocessConfig =
  pp_voxel_size_mm :: "f64 option"
  pp_normal_radius_mm :: "f64 option"
  pp_normal_min_neighbors :: "u32 option"
  pp_boundary_radius_mm :: "f64 option"

record RegistrationConfig =
  rc_max_iterations :: "u32 option"
  rc_max_correspondence_distance_mm :: "f64 option"
  rc_huber_delta_mm :: "f64 option"
  rc_translation_epsilon_mm :: "f64 option"
  rc_rotation_epsilon_rad :: "f64 option"
  rc_residual_epsilon_mm :: "f64 option"
  rc_method :: RegistrationMethod

record RegistrationGateConfig =
  gc_min_overlap_ratio :: "f64 option"
  gc_max_inlier_rmse_mm :: "f64 option"
  gc_min_valid_pairs :: "u32 option"
  gc_max_translation_from_initial_mm :: "f64 option"
  gc_max_rotation_from_initial_deg :: "f64 option"

record ComparisonConfig =
  cc_max_search_distance_mm :: "f64 option"
  cc_max_normal_angle_deg :: "f64 option"
  cc_boundary_exclusion_mm :: "f64 option"
  cc_min_valid_coverage_ratio :: "f64 option"

record DetectionConfig =
  dc_positive_threshold_mm :: "f64 option"
  dc_negative_threshold_mm :: "f64 option"
  dc_cluster_tolerance_mm :: "f64 option"
  dc_min_cluster_points :: "u32 option"
  dc_measurement_error_budget_mm :: "f64 option"

record ExecutionConfig =
  ec_deterministic :: "bool option"
  ec_thread_count :: "u32 option"
  ec_random_seed :: "u64 option"
  ec_backend :: ComputeBackend

record InspectionConfig =
  ic_schema_version :: string
  ic_profile :: string
  ic_input :: InputConfig
  ic_preprocess :: PreprocessConfig
  ic_registration :: RegistrationConfig
  ic_registration_gate :: RegistrationGateConfig
  ic_comparison :: ComparisonConfig
  ic_detection :: DetectionConfig
  ic_execution :: ExecutionConfig

record ValidatedInputConfig =
  vin_reference_unit :: LengthUnit
  vin_scan_unit :: LengthUnit
  vin_reference_frame :: FrameId
  vin_scan_frame :: FrameId

record ValidatedPreprocessConfig =
  vpp_voxel_size_mm :: f64
  vpp_normal_radius_mm :: f64
  vpp_normal_min_neighbors :: u32
  vpp_boundary_radius_mm :: f64

record ValidatedRegistrationConfig =
  vrc_max_iterations :: u32
  vrc_max_correspondence_distance_mm :: f64
  vrc_huber_delta_mm :: f64
  vrc_translation_epsilon_mm :: f64
  vrc_rotation_epsilon_rad :: f64
  vrc_residual_epsilon_mm :: f64
  vrc_method :: RegistrationMethod

record ValidatedRegistrationGateConfig =
  vgc_min_overlap_ratio :: f64
  vgc_max_inlier_rmse_mm :: f64
  vgc_min_valid_pairs :: u32
  vgc_max_translation_from_initial_mm :: f64
  vgc_max_rotation_from_initial_deg :: f64

record ValidatedComparisonConfig =
  vcc_max_search_distance_mm :: f64
  vcc_max_normal_angle_deg :: f64
  vcc_boundary_exclusion_mm :: f64
  vcc_min_valid_coverage_ratio :: f64

record ValidatedDetectionConfig =
  vdc_positive_threshold_mm :: f64
  vdc_negative_threshold_mm :: f64
  vdc_cluster_tolerance_mm :: f64
  vdc_min_cluster_points :: u32
  vdc_measurement_error_budget_mm :: f64

record ValidatedExecutionConfig =
  vec_deterministic :: bool
  vec_thread_count :: u32
  vec_random_seed :: u64
  vec_backend :: ComputeBackend

record ValidatedInspectionConfig =
  vc_schema_version :: string
  vc_profile :: string
  vc_input :: ValidatedInputConfig
  vc_preprocess :: ValidatedPreprocessConfig
  vc_registration :: ValidatedRegistrationConfig
  vc_registration_gate :: ValidatedRegistrationGateConfig
  vc_comparison :: ValidatedComparisonConfig
  vc_detection :: ValidatedDetectionConfig
  vc_execution :: ValidatedExecutionConfig

subsection \<open>Validation\<close>

definition config_error :: "string \<Rightarrow> string \<Rightarrow> Error" where
  "config_error = field_error invalid_argument stage_validate ''invalid inspection configuration''"

definition positive_finite :: "f64 \<Rightarrow> bool" where
  "positive_finite value \<longleftrightarrow> isfinite value \<and> 0 < value"

definition nonnegative_finite :: "f64 \<Rightarrow> bool" where
  "nonnegative_finite value \<longleftrightarrow> isfinite value \<and> 0 \<le> value"

definition in_unit_interval :: "f64 \<Rightarrow> bool" where
  "in_unit_interval value \<longleftrightarrow> \<not> (\<not> isfinite value \<or> value < 0 \<or> 1 < value)"

text \<open>The lambda \<open>missing\<close> applied to an absent field; \<open>invalid\<close> is \<open>config_error\<close>.\<close>

definition required :: "'v option \<Rightarrow> string \<Rightarrow> ('v \<Rightarrow> 'a Result) \<Rightarrow> 'a Result" where
  "required v field k = need v (config_error field ''is required'') k"

definition validate_identity :: "InspectionConfig \<Rightarrow> unit Result" where
  "validate_identity c =
     require (ic_schema_version c \<noteq> []) (config_error ''schema_version'' ''is required'') (
     require (ic_schema_version c = ''1.0'') (config_error ''schema_version'' ''must equal supported version 1.0'') (
     require (ic_profile c \<noteq> []) (config_error ''profile'' ''is required'') (
     require (is_valid_utf8 (ic_profile c)) (config_error ''profile'' ''must be valid UTF-8'') (
     Inr ()))))"

definition validate_input :: "InputConfig \<Rightarrow> ValidatedInputConfig Result" where
  "validate_input c =
     required (in_reference_unit c) ''input.reference_unit'' (\<lambda>reference_unit.
     required (in_scan_unit c) ''input.scan_unit'' (\<lambda>scan_unit.
     require (is_ok (millimeters_per_unit reference_unit))
       (config_error ''input.reference_unit'' ''enumerator is not supported'') (
     require (is_ok (millimeters_per_unit scan_unit))
       (config_error ''input.scan_unit'' ''enumerator is not supported'') (
     required (in_reference_frame c) ''input.reference_frame'' (\<lambda>reference_frame.
     required (in_scan_frame c) ''input.scan_frame'' (\<lambda>scan_frame.
     Inr \<lparr>vin_reference_unit = reference_unit, vin_scan_unit = scan_unit,
          vin_reference_frame = reference_frame, vin_scan_frame = scan_frame\<rparr>))))))"

definition validate_preprocess :: "PreprocessConfig \<Rightarrow> ValidatedPreprocessConfig Result" where
  "validate_preprocess c =
     required (pp_voxel_size_mm c) ''preprocess.voxel_size_mm'' (\<lambda>voxel_size_mm.
     require (positive_finite voxel_size_mm)
       (config_error ''preprocess.voxel_size_mm'' ''must be finite and positive'') (
     required (pp_normal_radius_mm c) ''preprocess.normal_radius_mm'' (\<lambda>normal_radius_mm.
     require (positive_finite normal_radius_mm)
       (config_error ''preprocess.normal_radius_mm'' ''must be finite and positive'') (
     required (pp_normal_min_neighbors c) ''preprocess.normal_min_neighbors'' (\<lambda>normal_min_neighbors.
     require (\<not> normal_min_neighbors < 3)
       (config_error ''preprocess.normal_min_neighbors'' ''must be at least 3'') (
     required (pp_boundary_radius_mm c) ''preprocess.boundary_radius_mm'' (\<lambda>boundary_radius_mm.
     require (positive_finite boundary_radius_mm)
       (config_error ''preprocess.boundary_radius_mm'' ''must be finite and positive'') (
     Inr \<lparr>vpp_voxel_size_mm = voxel_size_mm, vpp_normal_radius_mm = normal_radius_mm,
          vpp_normal_min_neighbors = normal_min_neighbors,
          vpp_boundary_radius_mm = boundary_radius_mm\<rparr>))))))))"

definition validate_registration :: "RegistrationConfig \<Rightarrow> ValidatedRegistrationConfig Result" where
  "validate_registration c =
     required (rc_max_iterations c) ''registration.max_iterations'' (\<lambda>max_iterations.
     require (\<not> (max_iterations < 1 \<or> 1000 < max_iterations))
       (config_error ''registration.max_iterations'' ''must be in [1, 1000]'') (
     required (rc_max_correspondence_distance_mm c) ''registration.max_correspondence_distance_mm'' (\<lambda>max_correspondence_distance_mm.
     require (positive_finite max_correspondence_distance_mm)
       (config_error ''registration.max_correspondence_distance_mm'' ''must be finite and positive'') (
     required (rc_huber_delta_mm c) ''registration.huber_delta_mm'' (\<lambda>huber_delta_mm.
     require (positive_finite huber_delta_mm)
       (config_error ''registration.huber_delta_mm'' ''must be finite and positive'') (
     required (rc_translation_epsilon_mm c) ''registration.translation_epsilon_mm'' (\<lambda>translation_epsilon_mm.
     require (positive_finite translation_epsilon_mm)
       (config_error ''registration.translation_epsilon_mm'' ''must be finite and positive'') (
     required (rc_rotation_epsilon_rad c) ''registration.rotation_epsilon_rad'' (\<lambda>rotation_epsilon_rad.
     require (positive_finite rotation_epsilon_rad)
       (config_error ''registration.rotation_epsilon_rad'' ''must be finite and positive'') (
     required (rc_residual_epsilon_mm c) ''registration.residual_epsilon_mm'' (\<lambda>residual_epsilon_mm.
     require (positive_finite residual_epsilon_mm)
       (config_error ''registration.residual_epsilon_mm'' ''must be finite and positive'') (
     Inr \<lparr>vrc_max_iterations = max_iterations,
          vrc_max_correspondence_distance_mm = max_correspondence_distance_mm,
          vrc_huber_delta_mm = huber_delta_mm,
          vrc_translation_epsilon_mm = translation_epsilon_mm,
          vrc_rotation_epsilon_rad = rotation_epsilon_rad,
          vrc_residual_epsilon_mm = residual_epsilon_mm,
          vrc_method = rc_method c\<rparr>))))))))))))"

definition validate_registration_gate :: "RegistrationGateConfig \<Rightarrow> ValidatedRegistrationGateConfig Result" where
  "validate_registration_gate c =
     required (gc_min_overlap_ratio c) ''registration_gate.min_overlap_ratio'' (\<lambda>min_overlap_ratio.
     require (in_unit_interval min_overlap_ratio)
       (config_error ''registration_gate.min_overlap_ratio'' ''must be in [0, 1]'') (
     required (gc_max_inlier_rmse_mm c) ''registration_gate.max_inlier_rmse_mm'' (\<lambda>max_inlier_rmse_mm.
     require (positive_finite max_inlier_rmse_mm)
       (config_error ''registration_gate.max_inlier_rmse_mm'' ''must be finite and positive'') (
     required (gc_min_valid_pairs c) ''registration_gate.min_valid_pairs'' (\<lambda>min_valid_pairs.
     require (min_valid_pairs \<noteq> 0)
       (config_error ''registration_gate.min_valid_pairs'' ''must be positive'') (
     required (gc_max_translation_from_initial_mm c) ''registration_gate.max_translation_from_initial_mm'' (\<lambda>max_translation_from_initial_mm.
     require (positive_finite max_translation_from_initial_mm)
       (config_error ''registration_gate.max_translation_from_initial_mm'' ''must be finite and positive'') (
     required (gc_max_rotation_from_initial_deg c) ''registration_gate.max_rotation_from_initial_deg'' (\<lambda>max_rotation_from_initial_deg.
     require (\<not> (\<not> positive_finite max_rotation_from_initial_deg \<or> lit 180 < max_rotation_from_initial_deg))
       (config_error ''registration_gate.max_rotation_from_initial_deg'' ''must be in (0, 180]'') (
     Inr \<lparr>vgc_min_overlap_ratio = min_overlap_ratio, vgc_max_inlier_rmse_mm = max_inlier_rmse_mm,
          vgc_min_valid_pairs = min_valid_pairs,
          vgc_max_translation_from_initial_mm = max_translation_from_initial_mm,
          vgc_max_rotation_from_initial_deg = max_rotation_from_initial_deg\<rparr>))))))))))"

definition validate_comparison :: "ComparisonConfig \<Rightarrow> ValidatedComparisonConfig Result" where
  "validate_comparison c =
     required (cc_max_search_distance_mm c) ''comparison.max_search_distance_mm'' (\<lambda>max_search_distance_mm.
     require (positive_finite max_search_distance_mm)
       (config_error ''comparison.max_search_distance_mm'' ''must be finite and positive'') (
     required (cc_max_normal_angle_deg c) ''comparison.max_normal_angle_deg'' (\<lambda>max_normal_angle_deg.
     require (\<not> (\<not> isfinite max_normal_angle_deg \<or> max_normal_angle_deg < 0 \<or> lit 90 < max_normal_angle_deg))
       (config_error ''comparison.max_normal_angle_deg'' ''must be in [0, 90]'') (
     required (cc_boundary_exclusion_mm c) ''comparison.boundary_exclusion_mm'' (\<lambda>boundary_exclusion_mm.
     require (nonnegative_finite boundary_exclusion_mm)
       (config_error ''comparison.boundary_exclusion_mm'' ''must be finite and non-negative'') (
     required (cc_min_valid_coverage_ratio c) ''comparison.min_valid_coverage_ratio'' (\<lambda>min_valid_coverage_ratio.
     require (in_unit_interval min_valid_coverage_ratio)
       (config_error ''comparison.min_valid_coverage_ratio'' ''must be in [0, 1]'') (
     Inr \<lparr>vcc_max_search_distance_mm = max_search_distance_mm,
          vcc_max_normal_angle_deg = max_normal_angle_deg,
          vcc_boundary_exclusion_mm = boundary_exclusion_mm,
          vcc_min_valid_coverage_ratio = min_valid_coverage_ratio\<rparr>))))))))"

definition validate_detection :: "DetectionConfig \<Rightarrow> ValidatedDetectionConfig Result" where
  "validate_detection c =
     required (dc_positive_threshold_mm c) ''detection.positive_threshold_mm'' (\<lambda>positive_threshold_mm.
     require (positive_finite positive_threshold_mm)
       (config_error ''detection.positive_threshold_mm'' ''must be finite and positive'') (
     required (dc_negative_threshold_mm c) ''detection.negative_threshold_mm'' (\<lambda>negative_threshold_mm.
     require (\<not> (\<not> isfinite negative_threshold_mm \<or> 0 \<le> negative_threshold_mm))
       (config_error ''detection.negative_threshold_mm'' ''must be finite and negative'') (
     required (dc_cluster_tolerance_mm c) ''detection.cluster_tolerance_mm'' (\<lambda>cluster_tolerance_mm.
     require (positive_finite cluster_tolerance_mm)
       (config_error ''detection.cluster_tolerance_mm'' ''must be finite and positive'') (
     required (dc_min_cluster_points c) ''detection.min_cluster_points'' (\<lambda>min_cluster_points.
     require (min_cluster_points \<noteq> 0)
       (config_error ''detection.min_cluster_points'' ''must be positive'') (
     required (dc_measurement_error_budget_mm c) ''detection.measurement_error_budget_mm'' (\<lambda>measurement_error_budget_mm.
     require (nonnegative_finite measurement_error_budget_mm)
       (config_error ''detection.measurement_error_budget_mm'' ''must be finite and non-negative'') (
     require (\<not> positive_threshold_mm \<le> measurement_error_budget_mm)
       (config_error ''detection.positive_threshold_mm'' ''must exceed measurement error budget'') (
     require (\<not> \<bar>negative_threshold_mm\<bar> \<le> measurement_error_budget_mm)
       (config_error ''detection.negative_threshold_mm'' ''magnitude must exceed measurement error budget'') (
     Inr \<lparr>vdc_positive_threshold_mm = positive_threshold_mm,
          vdc_negative_threshold_mm = negative_threshold_mm,
          vdc_cluster_tolerance_mm = cluster_tolerance_mm,
          vdc_min_cluster_points = min_cluster_points,
          vdc_measurement_error_budget_mm = measurement_error_budget_mm\<rparr>))))))))))))"

definition validate_execution :: "ExecutionConfig \<Rightarrow> ValidatedExecutionConfig Result" where
  "validate_execution c =
     required (ec_deterministic c) ''execution.deterministic'' (\<lambda>deterministic.
     required (ec_thread_count c) ''execution.thread_count'' (\<lambda>thread_count.
     require (thread_count \<noteq> 0)
       (config_error ''execution.thread_count'' ''must be at least 1'') (
     required (ec_random_seed c) ''execution.random_seed'' (\<lambda>random_seed.
     Inr \<lparr>vec_deterministic = deterministic, vec_thread_count = thread_count,
          vec_random_seed = random_seed, vec_backend = ec_backend c\<rparr>))))"

text \<open>The two enumerator checks at the end of the function.\<close>

definition validate_enumerators :: "InspectionConfig \<Rightarrow> unit Result" where
  "validate_enumerators c =
     require (registration_method_name (rc_method (ic_registration c)) \<noteq> ''unknown'')
       (config_error ''registration.method'' ''unsupported method'') (
     require (compute_backend_name (ec_backend (ic_execution c)) \<noteq> ''unknown'')
       (config_error ''execution.backend'' ''unsupported backend'') (
     Inr ()))"

definition validate_config :: "InspectionConfig \<Rightarrow> ValidatedInspectionConfig Result" where
  "validate_config c =
     rbind (validate_identity c) (\<lambda>_.
     rbind (validate_input (ic_input c)) (\<lambda>input.
     rbind (validate_preprocess (ic_preprocess c)) (\<lambda>preprocess.
     rbind (validate_registration (ic_registration c)) (\<lambda>registration.
     rbind (validate_registration_gate (ic_registration_gate c)) (\<lambda>registration_gate.
     rbind (validate_comparison (ic_comparison c)) (\<lambda>comparison.
     rbind (validate_detection (ic_detection c)) (\<lambda>detection.
     rbind (validate_execution (ic_execution c)) (\<lambda>execution.
     rbind (validate_enumerators c) (\<lambda>_.
     Inr \<lparr>vc_schema_version = ic_schema_version c, vc_profile = ic_profile c, vc_input = input,
          vc_preprocess = preprocess, vc_registration = registration,
          vc_registration_gate = registration_gate, vc_comparison = comparison,
          vc_detection = detection, vc_execution = execution\<rparr>)))))))))"


subsection \<open>Lemmas\<close>

text \<open>The raw configuration that states exactly the fields of a validated one.\<close>

definition raw_input :: "ValidatedInputConfig \<Rightarrow> InputConfig" where
  "raw_input v = \<lparr>in_reference_unit = Some (vin_reference_unit v),
     in_scan_unit = Some (vin_scan_unit v),
     in_reference_frame = Some (vin_reference_frame v),
     in_scan_frame = Some (vin_scan_frame v)\<rparr>"

definition raw_preprocess :: "ValidatedPreprocessConfig \<Rightarrow> PreprocessConfig" where
  "raw_preprocess v = \<lparr>pp_voxel_size_mm = Some (vpp_voxel_size_mm v),
     pp_normal_radius_mm = Some (vpp_normal_radius_mm v),
     pp_normal_min_neighbors = Some (vpp_normal_min_neighbors v),
     pp_boundary_radius_mm = Some (vpp_boundary_radius_mm v)\<rparr>"

definition raw_registration :: "ValidatedRegistrationConfig \<Rightarrow> RegistrationConfig" where
  "raw_registration v = \<lparr>rc_max_iterations = Some (vrc_max_iterations v),
     rc_max_correspondence_distance_mm = Some (vrc_max_correspondence_distance_mm v),
     rc_huber_delta_mm = Some (vrc_huber_delta_mm v),
     rc_translation_epsilon_mm = Some (vrc_translation_epsilon_mm v),
     rc_rotation_epsilon_rad = Some (vrc_rotation_epsilon_rad v),
     rc_residual_epsilon_mm = Some (vrc_residual_epsilon_mm v),
     rc_method = vrc_method v\<rparr>"

definition raw_registration_gate :: "ValidatedRegistrationGateConfig \<Rightarrow> RegistrationGateConfig" where
  "raw_registration_gate v = \<lparr>gc_min_overlap_ratio = Some (vgc_min_overlap_ratio v),
     gc_max_inlier_rmse_mm = Some (vgc_max_inlier_rmse_mm v),
     gc_min_valid_pairs = Some (vgc_min_valid_pairs v),
     gc_max_translation_from_initial_mm = Some (vgc_max_translation_from_initial_mm v),
     gc_max_rotation_from_initial_deg = Some (vgc_max_rotation_from_initial_deg v)\<rparr>"

definition raw_comparison :: "ValidatedComparisonConfig \<Rightarrow> ComparisonConfig" where
  "raw_comparison v = \<lparr>cc_max_search_distance_mm = Some (vcc_max_search_distance_mm v),
     cc_max_normal_angle_deg = Some (vcc_max_normal_angle_deg v),
     cc_boundary_exclusion_mm = Some (vcc_boundary_exclusion_mm v),
     cc_min_valid_coverage_ratio = Some (vcc_min_valid_coverage_ratio v)\<rparr>"

definition raw_detection :: "ValidatedDetectionConfig \<Rightarrow> DetectionConfig" where
  "raw_detection v = \<lparr>dc_positive_threshold_mm = Some (vdc_positive_threshold_mm v),
     dc_negative_threshold_mm = Some (vdc_negative_threshold_mm v),
     dc_cluster_tolerance_mm = Some (vdc_cluster_tolerance_mm v),
     dc_min_cluster_points = Some (vdc_min_cluster_points v),
     dc_measurement_error_budget_mm = Some (vdc_measurement_error_budget_mm v)\<rparr>"

definition raw_execution :: "ValidatedExecutionConfig \<Rightarrow> ExecutionConfig" where
  "raw_execution v = \<lparr>ec_deterministic = Some (vec_deterministic v),
     ec_thread_count = Some (vec_thread_count v),
     ec_random_seed = Some (vec_random_seed v),
     ec_backend = vec_backend v\<rparr>"

definition raw_config :: "ValidatedInspectionConfig \<Rightarrow> InspectionConfig" where
  "raw_config v = \<lparr>ic_schema_version = vc_schema_version v, ic_profile = vc_profile v,
     ic_input = raw_input (vc_input v),
     ic_preprocess = raw_preprocess (vc_preprocess v),
     ic_registration = raw_registration (vc_registration v),
     ic_registration_gate = raw_registration_gate (vc_registration_gate v),
     ic_comparison = raw_comparison (vc_comparison v),
     ic_detection = raw_detection (vc_detection v),
     ic_execution = raw_execution (vc_execution v)\<rparr>"

text \<open>The documented ranges, section by section.\<close>

definition input_valid :: "ValidatedInputConfig \<Rightarrow> bool" where
  "input_valid v \<longleftrightarrow> (\<forall>b. vin_reference_unit v \<noteq> unnamed_unit b) \<and> (\<forall>b. vin_scan_unit v \<noteq> unnamed_unit b)"

definition preprocess_valid :: "ValidatedPreprocessConfig \<Rightarrow> bool" where
  "preprocess_valid v \<longleftrightarrow> positive_finite (vpp_voxel_size_mm v) \<and>
     positive_finite (vpp_normal_radius_mm v) \<and>
     3 \<le> vpp_normal_min_neighbors v \<and>
     positive_finite (vpp_boundary_radius_mm v)"

definition registration_valid :: "ValidatedRegistrationConfig \<Rightarrow> bool" where
  "registration_valid v \<longleftrightarrow> 1 \<le> vrc_max_iterations v \<and> vrc_max_iterations v \<le> 1000 \<and>
     positive_finite (vrc_max_correspondence_distance_mm v) \<and>
     positive_finite (vrc_huber_delta_mm v) \<and>
     positive_finite (vrc_translation_epsilon_mm v) \<and>
     positive_finite (vrc_rotation_epsilon_rad v) \<and>
     positive_finite (vrc_residual_epsilon_mm v)"

definition registration_gate_valid :: "ValidatedRegistrationGateConfig \<Rightarrow> bool" where
  "registration_gate_valid v \<longleftrightarrow> isfinite (vgc_min_overlap_ratio v) \<and> 0 \<le> vgc_min_overlap_ratio v \<and> vgc_min_overlap_ratio v \<le> 1 \<and>
     positive_finite (vgc_max_inlier_rmse_mm v) \<and>
     0 < vgc_min_valid_pairs v \<and>
     positive_finite (vgc_max_translation_from_initial_mm v) \<and>
     positive_finite (vgc_max_rotation_from_initial_deg v) \<and> vgc_max_rotation_from_initial_deg v \<le> lit 180"

definition comparison_valid :: "ValidatedComparisonConfig \<Rightarrow> bool" where
  "comparison_valid v \<longleftrightarrow> positive_finite (vcc_max_search_distance_mm v) \<and>
     isfinite (vcc_max_normal_angle_deg v) \<and> 0 \<le> vcc_max_normal_angle_deg v \<and> vcc_max_normal_angle_deg v \<le> lit 90 \<and>
     nonnegative_finite (vcc_boundary_exclusion_mm v) \<and>
     isfinite (vcc_min_valid_coverage_ratio v) \<and> 0 \<le> vcc_min_valid_coverage_ratio v \<and> vcc_min_valid_coverage_ratio v \<le> 1"

definition detection_valid :: "ValidatedDetectionConfig \<Rightarrow> bool" where
  "detection_valid v \<longleftrightarrow> positive_finite (vdc_positive_threshold_mm v) \<and>
     isfinite (vdc_negative_threshold_mm v) \<and> vdc_negative_threshold_mm v < 0 \<and>
     positive_finite (vdc_cluster_tolerance_mm v) \<and>
     0 < vdc_min_cluster_points v \<and>
     nonnegative_finite (vdc_measurement_error_budget_mm v) \<and>
     vdc_measurement_error_budget_mm v < vdc_positive_threshold_mm v \<and>
     vdc_measurement_error_budget_mm v < \<bar>vdc_negative_threshold_mm v\<bar>"

definition execution_valid :: "ValidatedExecutionConfig \<Rightarrow> bool" where
  "execution_valid v \<longleftrightarrow> 0 < vec_thread_count v"

definition config_valid :: "ValidatedInspectionConfig \<Rightarrow> bool" where
  "config_valid v \<longleftrightarrow> vc_schema_version v = ''1.0'' \<and> vc_profile v \<noteq> [] \<and> is_valid_utf8 (vc_profile v) \<and>
     input_valid (vc_input v) \<and>
     preprocess_valid (vc_preprocess v) \<and>
     registration_valid (vc_registration v) \<and>
     registration_gate_valid (vc_registration_gate v) \<and>
     comparison_valid (vc_comparison v) \<and>
     detection_valid (vc_detection v) \<and>
     execution_valid (vc_execution v) \<and>
     (\<forall>b. vrc_method (vc_registration v) \<noteq> unnamed_method b) \<and>
     (\<forall>b. vec_backend (vc_execution v) \<noteq> unnamed_backend b)"

lemma finite_le_iff: "isfinite x \<Longrightarrow> isfinite y \<Longrightarrow> \<not> x < y \<longleftrightarrow> y \<le> (x :: 'f::len fp)"
  by (simp add: fp_not_less finite_not_nan)

lemma isfinite_bounds [simp]: "isfinite (lit 180)" "isfinite (lit 90)"
  by (simp_all add: fp_eval)

lemma section_simps:
  "required v f k = Inr r \<longleftrightarrow> (\<exists>x. v = Some x \<and> k x = Inr r)"
  "in_unit_interval x \<longleftrightarrow> isfinite x \<and> 0 \<le> x \<and> x \<le> 1"
  "\<not> (\<not> positive_finite x \<or> lit 180 < x) \<longleftrightarrow> positive_finite x \<and> x \<le> lit 180"
  "\<not> (\<not> isfinite x \<or> x < 0 \<or> lit 90 < x) \<longleftrightarrow> isfinite x \<and> 0 \<le> x \<and> x \<le> lit 90"
  "\<not> (\<not> isfinite x \<or> 0 \<le> x) \<longleftrightarrow> isfinite x \<and> x < 0"
proof -
  show "required v f k = Inr r \<longleftrightarrow> (\<exists>x. v = Some x \<and> k x = Inr r)"
    by (simp add: required_def need_Inr_iff)
qed (use finite_le_iff [of x 0] finite_le_iff [of 0 x] finite_le_iff [of 1 x]
    finite_le_iff [of "lit 180" x] finite_le_iff [of "lit 90" x]
    in \<open>auto simp: in_unit_interval_def positive_finite_def\<close>)

lemma exceeds_budget:
  "isfinite x \<Longrightarrow> nonnegative_finite y \<Longrightarrow> \<not> x \<le> y \<longleftrightarrow> y < x"
  unfolding nonnegative_finite_def by (metis finite_le_iff)

lemma less_not_le: "y < x \<Longrightarrow> \<not> x \<le> (y :: 'f::len fp)"
  by (simp add: less_eq_fp_def fp_le_def less_fp_def)

lemma word_range_simps:
  "\<not> (x :: u32) < 3 \<longleftrightarrow> 3 \<le> x" "\<not> (x < 1 \<or> 1000 < x) \<longleftrightarrow> 1 \<le> x \<and> x \<le> (1000 :: u32)"
  by (simp_all only: not_less de_Morgan_disj)

lemma required_simps [simp]:
  "required None field k = Inl (config_error field ''is required'')" "required (Some v) field k = k v"
  by (simp_all add: required_def)

lemma missing_simps:
  "isfinite x \<and> 0 \<le> x \<and> x \<le> 1 \<Longrightarrow> in_unit_interval x"
  "1 \<le> n \<Longrightarrow> n \<noteq> (0 :: u32)" "0 < n \<Longrightarrow> n \<noteq> 0"
  "a \<le> b \<Longrightarrow> \<not> b < (a :: u32)"
  "is_ok (millimeters_per_unit u) \<longleftrightarrow> (\<forall>b. u \<noteq> unnamed_unit b)"
  "y < z \<Longrightarrow> \<not> z \<le> (y :: f64)" "y \<le> z \<Longrightarrow> \<not> z < (y :: f64)"
  using section_simps(2) [of x] millimeters_per_unit_ok_iff [of u] less_not_le [of y z]
  by (auto simp: less_eq_fp_def fp_le_def less_fp_def)

lemma validate_input_Inr_iff: "validate_input c = Inr v \<longleftrightarrow> c = raw_input v \<and> input_valid v"
  by (cases c; cases v)
     (auto simp: validate_input_def section_simps require_Inr_iff raw_input_def input_valid_def
       millimeters_per_unit_ok_iff)

lemma validate_preprocess_Inr_iff:
  "validate_preprocess c = Inr v \<longleftrightarrow> c = raw_preprocess v \<and> preprocess_valid v"
  by (cases c; cases v)
     (auto simp: validate_preprocess_def section_simps require_Inr_iff raw_preprocess_def
       preprocess_valid_def word_range_simps)

lemma validate_registration_Inr_iff:
  "validate_registration c = Inr v \<longleftrightarrow> c = raw_registration v \<and> registration_valid v"
  unfolding validate_registration_def word_range_simps
  by (cases c; cases v)
     (auto simp: section_simps require_Inr_iff raw_registration_def registration_valid_def)

lemma validate_registration_gate_Inr_iff:
  "validate_registration_gate c = Inr v \<longleftrightarrow> c = raw_registration_gate v \<and> registration_gate_valid v"
  unfolding validate_registration_gate_def section_simps
  by (cases c; cases v)
     (auto simp: section_simps require_Inr_iff raw_registration_gate_def registration_gate_valid_def
       word_neq_0_conv)

lemma validate_comparison_Inr_iff:
  "validate_comparison c = Inr v \<longleftrightarrow> c = raw_comparison v \<and> comparison_valid v"
  unfolding validate_comparison_def section_simps
  by (cases c; cases v)
     (auto simp: section_simps require_Inr_iff raw_comparison_def comparison_valid_def)

lemma validate_detection_Inr_iff:
  "validate_detection c = Inr v \<longleftrightarrow> c = raw_detection v \<and> detection_valid v"
  unfolding validate_detection_def section_simps
  by (cases c; cases v)
     (auto simp: section_simps require_Inr_iff raw_detection_def detection_valid_def
       exceeds_budget word_neq_0_conv positive_finite_def less_not_le)

lemma validate_execution_Inr_iff:
  "validate_execution c = Inr v \<longleftrightarrow> c = raw_execution v \<and> execution_valid v"
  unfolding validate_execution_def
  by (cases c; cases v)
     (auto simp: section_simps require_Inr_iff raw_execution_def execution_valid_def word_neq_0_conv)

lemmas section_Inr_iffs =
  validate_input_Inr_iff validate_preprocess_Inr_iff validate_registration_Inr_iff
  validate_registration_gate_Inr_iff validate_comparison_Inr_iff validate_detection_Inr_iff
  validate_execution_Inr_iff

lemma validate_identity_Inr_iff:
  "validate_identity c = Inr u \<longleftrightarrow>
     ic_schema_version c = ''1.0'' \<and> ic_profile c \<noteq> [] \<and> is_valid_utf8 (ic_profile c)"
  by (auto simp: validate_identity_def require_Inr_iff)

lemma validate_enumerators_Inr_iff:
  "validate_enumerators c = Inr u \<longleftrightarrow>
     (\<forall>b. rc_method (ic_registration c) \<noteq> unnamed_method b) \<and>
     (\<forall>b. ec_backend (ic_execution c) \<noteq> unnamed_backend b)"
  by (auto simp: validate_enumerators_def require_Inr_iff method_name_known backend_name_known)

lemma raw_config_simps [simp]:
  "ic_schema_version (raw_config v) = vc_schema_version v" "ic_profile (raw_config v) = vc_profile v"
  "ic_input (raw_config v) = raw_input (vc_input v)"
  "ic_preprocess (raw_config v) = raw_preprocess (vc_preprocess v)"
  "ic_registration (raw_config v) = raw_registration (vc_registration v)"
  "ic_registration_gate (raw_config v) = raw_registration_gate (vc_registration_gate v)"
  "ic_comparison (raw_config v) = raw_comparison (vc_comparison v)"
  "ic_detection (raw_config v) = raw_detection (vc_detection v)"
  "ic_execution (raw_config v) = raw_execution (vc_execution v)"
  "rc_method (raw_registration r) = vrc_method r" "ec_backend (raw_execution e) = vec_backend e"
  by (simp_all add: raw_config_def raw_registration_def raw_execution_def)

lemma validate_config_Inr_iff:
  "validate_config c = Inr v \<longleftrightarrow> c = raw_config v \<and> config_valid v"
proof
  assume "validate_config c = Inr v"
  then show "c = raw_config v \<and> config_valid v"
    by (cases c)
       (auto simp: validate_config_def rbind_Inr_iff section_Inr_iffs validate_identity_Inr_iff
         validate_enumerators_Inr_iff raw_config_def config_valid_def raw_registration_def raw_execution_def)
next
  assume "c = raw_config v \<and> config_valid v"
  then show "validate_config c = Inr v"
    by (cases v)
       (auto simp: validate_config_def rbind_Inr_iff section_Inr_iffs validate_identity_Inr_iff
         validate_enumerators_Inr_iff config_valid_def)
qed

lemma section_error_shape:
  assumes "validate_config c = Inl e"
  shows "\<exists>field reason. e = config_error field reason"
  using assms
  unfolding validate_config_def validate_identity_def validate_input_def validate_preprocess_def
    validate_registration_def validate_registration_gate_def validate_comparison_def
    validate_detection_def validate_execution_def validate_enumerators_def required_def
  by (elim rbind_Inl_iff [THEN iffD1, THEN disjE] exE conjE)
     (auto simp: need_Inl_iff require_Inl_iff)

lemma config_valid_Inr: "config_valid v \<Longrightarrow> validate_config (raw_config v) = Inr v"
  by (simp add: validate_config_Inr_iff)

text \<open>
  C38. Validation succeeds exactly on the complete configurations in the documented ranges, and
  the validated configuration carries every stated value unchanged: \<open>raw_config\<close> is the inverse.
\<close>
theorem validate_config_ok_iff:
  "validate_config c = Inr v \<longleftrightarrow> c = raw_config v \<and> config_valid v"
  by (rule validate_config_Inr_iff)


text \<open>Every mandatory field, with the operation that leaves it unset.\<close>

definition mandatory_fields :: "(string \<times> (InspectionConfig \<Rightarrow> InspectionConfig)) list" where
  "mandatory_fields = [
     (''input.reference_unit'', \<lambda>c. c\<lparr>ic_input := ic_input c\<lparr>in_reference_unit := None\<rparr>\<rparr>),
     (''input.scan_unit'', \<lambda>c. c\<lparr>ic_input := ic_input c\<lparr>in_scan_unit := None\<rparr>\<rparr>),
     (''input.reference_frame'', \<lambda>c. c\<lparr>ic_input := ic_input c\<lparr>in_reference_frame := None\<rparr>\<rparr>),
     (''input.scan_frame'', \<lambda>c. c\<lparr>ic_input := ic_input c\<lparr>in_scan_frame := None\<rparr>\<rparr>),
     (''preprocess.voxel_size_mm'', \<lambda>c. c\<lparr>ic_preprocess := ic_preprocess c\<lparr>pp_voxel_size_mm := None\<rparr>\<rparr>),
     (''preprocess.normal_radius_mm'', \<lambda>c. c\<lparr>ic_preprocess := ic_preprocess c\<lparr>pp_normal_radius_mm := None\<rparr>\<rparr>),
     (''preprocess.normal_min_neighbors'', \<lambda>c. c\<lparr>ic_preprocess := ic_preprocess c\<lparr>pp_normal_min_neighbors := None\<rparr>\<rparr>),
     (''preprocess.boundary_radius_mm'', \<lambda>c. c\<lparr>ic_preprocess := ic_preprocess c\<lparr>pp_boundary_radius_mm := None\<rparr>\<rparr>),
     (''registration.max_iterations'', \<lambda>c. c\<lparr>ic_registration := ic_registration c\<lparr>rc_max_iterations := None\<rparr>\<rparr>),
     (''registration.max_correspondence_distance_mm'', \<lambda>c. c\<lparr>ic_registration := ic_registration c\<lparr>rc_max_correspondence_distance_mm := None\<rparr>\<rparr>),
     (''registration.huber_delta_mm'', \<lambda>c. c\<lparr>ic_registration := ic_registration c\<lparr>rc_huber_delta_mm := None\<rparr>\<rparr>),
     (''registration.translation_epsilon_mm'', \<lambda>c. c\<lparr>ic_registration := ic_registration c\<lparr>rc_translation_epsilon_mm := None\<rparr>\<rparr>),
     (''registration.rotation_epsilon_rad'', \<lambda>c. c\<lparr>ic_registration := ic_registration c\<lparr>rc_rotation_epsilon_rad := None\<rparr>\<rparr>),
     (''registration.residual_epsilon_mm'', \<lambda>c. c\<lparr>ic_registration := ic_registration c\<lparr>rc_residual_epsilon_mm := None\<rparr>\<rparr>),
     (''registration_gate.min_overlap_ratio'', \<lambda>c. c\<lparr>ic_registration_gate := ic_registration_gate c\<lparr>gc_min_overlap_ratio := None\<rparr>\<rparr>),
     (''registration_gate.max_inlier_rmse_mm'', \<lambda>c. c\<lparr>ic_registration_gate := ic_registration_gate c\<lparr>gc_max_inlier_rmse_mm := None\<rparr>\<rparr>),
     (''registration_gate.min_valid_pairs'', \<lambda>c. c\<lparr>ic_registration_gate := ic_registration_gate c\<lparr>gc_min_valid_pairs := None\<rparr>\<rparr>),
     (''registration_gate.max_translation_from_initial_mm'', \<lambda>c. c\<lparr>ic_registration_gate := ic_registration_gate c\<lparr>gc_max_translation_from_initial_mm := None\<rparr>\<rparr>),
     (''registration_gate.max_rotation_from_initial_deg'', \<lambda>c. c\<lparr>ic_registration_gate := ic_registration_gate c\<lparr>gc_max_rotation_from_initial_deg := None\<rparr>\<rparr>),
     (''comparison.max_search_distance_mm'', \<lambda>c. c\<lparr>ic_comparison := ic_comparison c\<lparr>cc_max_search_distance_mm := None\<rparr>\<rparr>),
     (''comparison.max_normal_angle_deg'', \<lambda>c. c\<lparr>ic_comparison := ic_comparison c\<lparr>cc_max_normal_angle_deg := None\<rparr>\<rparr>),
     (''comparison.boundary_exclusion_mm'', \<lambda>c. c\<lparr>ic_comparison := ic_comparison c\<lparr>cc_boundary_exclusion_mm := None\<rparr>\<rparr>),
     (''comparison.min_valid_coverage_ratio'', \<lambda>c. c\<lparr>ic_comparison := ic_comparison c\<lparr>cc_min_valid_coverage_ratio := None\<rparr>\<rparr>),
     (''detection.positive_threshold_mm'', \<lambda>c. c\<lparr>ic_detection := ic_detection c\<lparr>dc_positive_threshold_mm := None\<rparr>\<rparr>),
     (''detection.negative_threshold_mm'', \<lambda>c. c\<lparr>ic_detection := ic_detection c\<lparr>dc_negative_threshold_mm := None\<rparr>\<rparr>),
     (''detection.cluster_tolerance_mm'', \<lambda>c. c\<lparr>ic_detection := ic_detection c\<lparr>dc_cluster_tolerance_mm := None\<rparr>\<rparr>),
     (''detection.min_cluster_points'', \<lambda>c. c\<lparr>ic_detection := ic_detection c\<lparr>dc_min_cluster_points := None\<rparr>\<rparr>),
     (''detection.measurement_error_budget_mm'', \<lambda>c. c\<lparr>ic_detection := ic_detection c\<lparr>dc_measurement_error_budget_mm := None\<rparr>\<rparr>),
     (''execution.deterministic'', \<lambda>c. c\<lparr>ic_execution := ic_execution c\<lparr>ec_deterministic := None\<rparr>\<rparr>),
     (''execution.thread_count'', \<lambda>c. c\<lparr>ic_execution := ic_execution c\<lparr>ec_thread_count := None\<rparr>\<rparr>),
     (''execution.random_seed'', \<lambda>c. c\<lparr>ic_execution := ic_execution c\<lparr>ec_random_seed := None\<rparr>\<rparr>)]"

lemma input_missing:
  assumes "input_valid v"
  shows
    "validate_input (raw_input v\<lparr>in_reference_unit := None\<rparr>) = Inl (config_error ''input.reference_unit'' ''is required'')"
    "validate_input (raw_input v\<lparr>in_scan_unit := None\<rparr>) = Inl (config_error ''input.scan_unit'' ''is required'')"
    "validate_input (raw_input v\<lparr>in_reference_frame := None\<rparr>) = Inl (config_error ''input.reference_frame'' ''is required'')"
    "validate_input (raw_input v\<lparr>in_scan_frame := None\<rparr>) = Inl (config_error ''input.scan_frame'' ''is required'')"
  using assms unfolding input_valid_def validate_input_def raw_input_def
  by (simp_all add: missing_simps)

lemma preprocess_missing:
  assumes "preprocess_valid v"
  shows
    "validate_preprocess (raw_preprocess v\<lparr>pp_voxel_size_mm := None\<rparr>) = Inl (config_error ''preprocess.voxel_size_mm'' ''is required'')"
    "validate_preprocess (raw_preprocess v\<lparr>pp_normal_radius_mm := None\<rparr>) = Inl (config_error ''preprocess.normal_radius_mm'' ''is required'')"
    "validate_preprocess (raw_preprocess v\<lparr>pp_normal_min_neighbors := None\<rparr>) = Inl (config_error ''preprocess.normal_min_neighbors'' ''is required'')"
    "validate_preprocess (raw_preprocess v\<lparr>pp_boundary_radius_mm := None\<rparr>) = Inl (config_error ''preprocess.boundary_radius_mm'' ''is required'')"
  using assms unfolding preprocess_valid_def validate_preprocess_def raw_preprocess_def
  by (simp_all add: missing_simps)

lemma registration_missing:
  assumes "registration_valid v"
  shows
    "validate_registration (raw_registration v\<lparr>rc_max_iterations := None\<rparr>) = Inl (config_error ''registration.max_iterations'' ''is required'')"
    "validate_registration (raw_registration v\<lparr>rc_max_correspondence_distance_mm := None\<rparr>) = Inl (config_error ''registration.max_correspondence_distance_mm'' ''is required'')"
    "validate_registration (raw_registration v\<lparr>rc_huber_delta_mm := None\<rparr>) = Inl (config_error ''registration.huber_delta_mm'' ''is required'')"
    "validate_registration (raw_registration v\<lparr>rc_translation_epsilon_mm := None\<rparr>) = Inl (config_error ''registration.translation_epsilon_mm'' ''is required'')"
    "validate_registration (raw_registration v\<lparr>rc_rotation_epsilon_rad := None\<rparr>) = Inl (config_error ''registration.rotation_epsilon_rad'' ''is required'')"
    "validate_registration (raw_registration v\<lparr>rc_residual_epsilon_mm := None\<rparr>) = Inl (config_error ''registration.residual_epsilon_mm'' ''is required'')"
  using assms unfolding registration_valid_def validate_registration_def raw_registration_def
  by (simp_all add: missing_simps)

lemma registration_gate_missing:
  assumes "registration_gate_valid v"
  shows
    "validate_registration_gate (raw_registration_gate v\<lparr>gc_min_overlap_ratio := None\<rparr>) = Inl (config_error ''registration_gate.min_overlap_ratio'' ''is required'')"
    "validate_registration_gate (raw_registration_gate v\<lparr>gc_max_inlier_rmse_mm := None\<rparr>) = Inl (config_error ''registration_gate.max_inlier_rmse_mm'' ''is required'')"
    "validate_registration_gate (raw_registration_gate v\<lparr>gc_min_valid_pairs := None\<rparr>) = Inl (config_error ''registration_gate.min_valid_pairs'' ''is required'')"
    "validate_registration_gate (raw_registration_gate v\<lparr>gc_max_translation_from_initial_mm := None\<rparr>) = Inl (config_error ''registration_gate.max_translation_from_initial_mm'' ''is required'')"
    "validate_registration_gate (raw_registration_gate v\<lparr>gc_max_rotation_from_initial_deg := None\<rparr>) = Inl (config_error ''registration_gate.max_rotation_from_initial_deg'' ''is required'')"
  using assms unfolding registration_gate_valid_def validate_registration_gate_def raw_registration_gate_def
  by (simp_all add: missing_simps)

lemma comparison_missing:
  assumes "comparison_valid v"
  shows
    "validate_comparison (raw_comparison v\<lparr>cc_max_search_distance_mm := None\<rparr>) = Inl (config_error ''comparison.max_search_distance_mm'' ''is required'')"
    "validate_comparison (raw_comparison v\<lparr>cc_max_normal_angle_deg := None\<rparr>) = Inl (config_error ''comparison.max_normal_angle_deg'' ''is required'')"
    "validate_comparison (raw_comparison v\<lparr>cc_boundary_exclusion_mm := None\<rparr>) = Inl (config_error ''comparison.boundary_exclusion_mm'' ''is required'')"
    "validate_comparison (raw_comparison v\<lparr>cc_min_valid_coverage_ratio := None\<rparr>) = Inl (config_error ''comparison.min_valid_coverage_ratio'' ''is required'')"
  using assms unfolding comparison_valid_def validate_comparison_def raw_comparison_def
  by (simp_all add: missing_simps)

lemma detection_missing:
  assumes "detection_valid v"
  shows
    "validate_detection (raw_detection v\<lparr>dc_positive_threshold_mm := None\<rparr>) = Inl (config_error ''detection.positive_threshold_mm'' ''is required'')"
    "validate_detection (raw_detection v\<lparr>dc_negative_threshold_mm := None\<rparr>) = Inl (config_error ''detection.negative_threshold_mm'' ''is required'')"
    "validate_detection (raw_detection v\<lparr>dc_cluster_tolerance_mm := None\<rparr>) = Inl (config_error ''detection.cluster_tolerance_mm'' ''is required'')"
    "validate_detection (raw_detection v\<lparr>dc_min_cluster_points := None\<rparr>) = Inl (config_error ''detection.min_cluster_points'' ''is required'')"
    "validate_detection (raw_detection v\<lparr>dc_measurement_error_budget_mm := None\<rparr>) = Inl (config_error ''detection.measurement_error_budget_mm'' ''is required'')"
  using assms unfolding detection_valid_def validate_detection_def raw_detection_def
  by (simp_all add: missing_simps)

lemma execution_missing:
  assumes "execution_valid v"
  shows
    "validate_execution (raw_execution v\<lparr>ec_deterministic := None\<rparr>) = Inl (config_error ''execution.deterministic'' ''is required'')"
    "validate_execution (raw_execution v\<lparr>ec_thread_count := None\<rparr>) = Inl (config_error ''execution.thread_count'' ''is required'')"
    "validate_execution (raw_execution v\<lparr>ec_random_seed := None\<rparr>) = Inl (config_error ''execution.random_seed'' ''is required'')"
  using assms unfolding execution_valid_def validate_execution_def raw_execution_def
  by (simp_all add: missing_simps)

lemmas section_missing =
  input_missing
  preprocess_missing
  registration_missing
  registration_gate_missing
  comparison_missing
  detection_missing
  execution_missing

lemma config_valid_sections:
  assumes "config_valid v"
  shows "validate_identity (raw_config v) = Inr ()" "validate_enumerators (raw_config v) = Inr ()"
    "input_valid (vc_input v)" "preprocess_valid (vc_preprocess v)" "registration_valid (vc_registration v)" "registration_gate_valid (vc_registration_gate v)" "comparison_valid (vc_comparison v)" "detection_valid (vc_detection v)" "execution_valid (vc_execution v)"
  using assms by (simp_all add: config_valid_def validate_identity_Inr_iff validate_enumerators_Inr_iff)

lemma validate_identity_cong:
  "ic_schema_version c = ic_schema_version d \<Longrightarrow> ic_profile c = ic_profile d \<Longrightarrow>
   validate_identity c = validate_identity d"
  by (simp add: validate_identity_def)

text \<open>
  Leaving any one of the mandatory fields of a valid configuration unset makes validation
  fail with the error that names that field: no field has a silent default.
\<close>
theorem missing_field_is_reported:
  assumes "config_valid v" "(field, unset) \<in> set mandatory_fields"
  shows "validate_config (unset (raw_config v)) = Inl (config_error field ''is required'')"
proof -
  note valid = config_valid_sections [OF assms(1)]
  have ok: "validate_input (raw_input (vc_input v)) = Inr (vc_input v)"
    "validate_preprocess (raw_preprocess (vc_preprocess v)) = Inr (vc_preprocess v)"
    "validate_registration (raw_registration (vc_registration v)) = Inr (vc_registration v)"
    "validate_registration_gate (raw_registration_gate (vc_registration_gate v)) = Inr (vc_registration_gate v)"
    "validate_comparison (raw_comparison (vc_comparison v)) = Inr (vc_comparison v)"
    "validate_detection (raw_detection (vc_detection v)) = Inr (vc_detection v)"
    "validate_execution (raw_execution (vc_execution v)) = Inr (vc_execution v)"
    using valid by (simp_all add: section_Inr_iffs)
  have identity: "validate_identity c = Inr ()"
    if "ic_schema_version c = vc_schema_version v" "ic_profile c = vc_profile v" for c
    using valid(1) that validate_identity_cong [of c "raw_config v"] by simp
  show ?thesis
    using assms(2) valid(3-)
    unfolding mandatory_fields_def validate_config_def
    by (auto simp: ok identity section_missing)
qed

text \<open>A concrete valid configuration.\<close>

definition sample_config :: ValidatedInspectionConfig where
  "sample_config = \<lparr>vc_schema_version = ''1.0'', vc_profile = ''p'',
     vc_input = \<lparr>vin_reference_unit = millimeter, vin_scan_unit = meter, vin_reference_frame = ''cad'',
       vin_scan_frame = ''scan''\<rparr>,
     vc_preprocess = \<lparr>vpp_voxel_size_mm = 1, vpp_normal_radius_mm = 1, vpp_normal_min_neighbors = 3,
       vpp_boundary_radius_mm = 1\<rparr>,
     vc_registration = \<lparr>vrc_max_iterations = 50, vrc_max_correspondence_distance_mm = 1,
       vrc_huber_delta_mm = 1, vrc_translation_epsilon_mm = 1, vrc_rotation_epsilon_rad = 1,
       vrc_residual_epsilon_mm = 1, vrc_method = point_to_plane\<rparr>,
     vc_registration_gate = \<lparr>vgc_min_overlap_ratio = 1, vgc_max_inlier_rmse_mm = 1,
       vgc_min_valid_pairs = 1, vgc_max_translation_from_initial_mm = 1,
       vgc_max_rotation_from_initial_deg = 1\<rparr>,
     vc_comparison = \<lparr>vcc_max_search_distance_mm = 1, vcc_max_normal_angle_deg = 1,
       vcc_boundary_exclusion_mm = 0, vcc_min_valid_coverage_ratio = 1\<rparr>,
     vc_detection = \<lparr>vdc_positive_threshold_mm = 1, vdc_negative_threshold_mm = Num (- 1),
       vdc_cluster_tolerance_mm = 1, vdc_min_cluster_points = 1, vdc_measurement_error_budget_mm = 0\<rparr>,
     vc_execution = \<lparr>vec_deterministic = True, vec_thread_count = 1, vec_random_seed = 0,
       vec_backend = backend_cpu\<rparr>\<rparr>"

lemma sample_config_valid: "config_valid sample_config"
proof -
  have "is_valid_utf8 ''p''" by code_simp
  moreover have "positive_finite 1" by (simp add: positive_finite_def fp_eval)
  moreover have "nonnegative_finite 0" by (simp add: nonnegative_finite_def fp_eval fp_le_def)
  ultimately show ?thesis
    by (simp add: sample_config_def config_valid_def input_valid_def preprocess_valid_def
        registration_valid_def registration_gate_valid_def comparison_valid_def detection_valid_def
        execution_valid_def fp_eval fp_le_def)
qed

theorem missing_field_is_reported_witness:
  "validate_config ((raw_config sample_config)\<lparr>ic_preprocess := (raw_preprocess (vc_preprocess sample_config))
     \<lparr>pp_voxel_size_mm := None\<rparr>\<rparr>) = Inl (config_error ''preprocess.voxel_size_mm'' ''is required'')"
  using missing_field_is_reported [OF sample_config_valid, of "''preprocess.voxel_size_mm''"
      "\<lambda>c. c\<lparr>ic_preprocess := ic_preprocess c\<lparr>pp_voxel_size_mm := None\<rparr>\<rparr>"]
  by (simp add: mandatory_fields_def)

end
