(* ===== verification/Surface.thy ===== *)
theory Surface
  imports Geometry
begin

text \<open>
  \<open>include/pointcloud_ad/surface.hpp\<close>: point storage with an optional mask, optional normals
  and an optional organised grid whose rows may be padded. The grid arithmetic is kept at the
  widths of the code: 32-bit dimensions, 64-bit \<open>size_t\<close>; container sizes are list lengths.
\<close>

record GridTopology =
  grid_width :: u32
  grid_height :: u32
  grid_row_stride :: u32

definition surface_error :: "string \<Rightarrow> string \<Rightarrow> Error" where
  "surface_error = field_error invalid_input stage_validate ''invalid surface contract''"

text \<open>\<open>size()\<close> of a container as a \<open>size_t\<close>.\<close>

definition size_of :: "'a list \<Rightarrow> size_w" where
  "size_of xs = of_nat (length xs)"

definition grid_required_storage :: "GridTopology \<Rightarrow> size_w" where
  "grid_required_storage g =
     ucast (grid_height g - 1) * ucast (grid_row_stride g) + ucast (grid_width g)"

definition grid_overflows :: "GridTopology \<Rightarrow> bool" where
  "grid_overflows g \<longleftrightarrow>
     (- 1 - ucast (grid_width g)) div ucast (grid_row_stride g) < (ucast (grid_height g - 1) :: size_w)"

text \<open>The lambda \<open>check_index\<close>.\<close>

definition check_index :: "Vec3f list \<Rightarrow> Vec3f list \<Rightarrow> u8 list \<Rightarrow> nat \<Rightarrow> unit Result" where
  "check_index points normals valid index =
     (if valid \<noteq> [] \<and> 1 < valid ! index
      then Inl (surface_error ''valid'' ''mask elements must be 0 or 1'')
      else let point_is_valid = (valid = [] \<or> valid ! index = 1) in
      if point_is_valid \<and> \<not> is_finite3 (points ! index)
      then Inl (surface_error ''points'' ''valid points must contain only finite coordinates'')
      else if point_is_valid \<and> normals \<noteq> [] \<and> \<not> is_finite3 (normals ! index)
      then Inl (surface_error ''normals'' ''normals for valid points must be finite'')
      else Inr ())"

text \<open>
  The visiting order of the two index loops. The same loop over rows and columns is the
  template \<open>for_each_logical_index\<close> of every per-point stage.
\<close>

definition grid_indices :: "GridTopology \<Rightarrow> nat list" where
  "grid_indices g = concat (map (\<lambda>row. map (\<lambda>column. row * unat (grid_row_stride g) + column)
     [0..<unat (grid_width g)]) [0..<unat (grid_height g)])"

definition storage_indices :: "nat \<Rightarrow> GridTopology option \<Rightarrow> nat list" where
  "storage_indices storage g = (case g of None \<Rightarrow> [0..<storage] | Some g \<Rightarrow> grid_indices g)"

definition validate_surface_data ::
  "Vec3f list \<Rightarrow> Vec3f list \<Rightarrow> u8 list \<Rightarrow> GridTopology option \<Rightarrow> size_w Result" where
  "validate_surface_data points normals valid grid =
     (if points = [] then Inl (surface_error ''points'' ''must not be empty'')
      else if normals \<noteq> [] \<and> size_of normals \<noteq> size_of points
      then Inl (surface_error ''normals'' ''must be empty or match point storage size'')
      else if valid \<noteq> [] \<and> size_of valid \<noteq> size_of points
      then Inl (surface_error ''valid'' ''must be empty or match point storage size'')
      else rbind (case grid of None \<Rightarrow> Inr (size_of points)
        | Some g \<Rightarrow>
            if grid_width g = 0 \<or> grid_height g = 0
            then Inl (surface_error ''grid'' ''width and height must be positive'')
            else if grid_row_stride g < grid_width g
            then Inl (surface_error ''grid.row_stride'' ''must be at least grid.width'')
            else if grid_overflows g then Inl (surface_error ''grid'' ''storage size overflows'')
            else if size_of points \<noteq> grid_required_storage g
            then Inl (surface_error ''grid'' ''point storage does not match width, height, and row_stride'')
            else Inr (ucast (grid_width g) * ucast (grid_height g)))
      (\<lambda>logical_size. rbind (check_all (check_index points normals valid)
                         (storage_indices (length points) grid))
      (\<lambda>_. Inr logical_size)))"

text \<open>
  A view borrows its arrays and an owned surface holds them; as values they are the same
  record. \<open>OwnedSurface::view\<close> is the identity.
\<close>

record Surface =
  sv_points :: "Vec3f list"
  sv_normals :: "Vec3f list"
  sv_valid :: "u8 list"
  sv_grid :: "GridTopology option"
  sv_unit :: LengthUnit
  sv_frame :: FrameId
  sv_size :: size_w

definition Surface_create ::
  "Vec3f list \<Rightarrow> Vec3f list \<Rightarrow> u8 list \<Rightarrow> GridTopology option \<Rightarrow> LengthUnit \<Rightarrow> FrameId \<Rightarrow> Surface Result" where
  "Surface_create points normals valid grid u frame =
     rbind (validate_surface_data points normals valid grid)
       (\<lambda>size. Inr \<lparr>sv_points = points, sv_normals = normals, sv_valid = valid, sv_grid = grid,
                     sv_unit = u, sv_frame = frame, sv_size = size\<rparr>)"

definition storage_size :: "Surface \<Rightarrow> nat" where
  "storage_size s = length (sv_points s)"

definition logical_indices :: "Surface \<Rightarrow> nat list" where
  "logical_indices s = storage_indices (storage_size s) (sv_grid s)"

subsection \<open>Grid arithmetic does not wrap\<close>

lemma unat_ucast_u32 [simp]: "unat (ucast (x :: u32) :: size_w) = unat x"
  using unsigned_less [where 'a = nat and w = x] by (simp add: unsigned_ucast_eq take_bit_eq_mod)

lemma unat_less_u32: "unat (x :: u32) < 4294967296"
  using unsigned_less [where 'a = nat and w = x] by simp

definition storage_of :: "GridTopology \<Rightarrow> nat" where
  "storage_of g = (unat (grid_height g) - 1) * unat (grid_row_stride g) + unat (grid_width g)"

lemma unat_minus_one: "(x :: u32) \<noteq> 0 \<Longrightarrow> unat (x - 1) = unat x - 1"
  by (simp add: unat_sub word_le_nat_alt Suc_le_eq word_neq_0_conv unat_gt_0)

lemma storage_of_bound: "storage_of g < 2 ^ 64"
proof -
  have "(unat (grid_height g) - 1) * unat (grid_row_stride g) \<le> 4294967294 * 4294967295"
    using unat_less_u32 [of "grid_height g"] unat_less_u32 [of "grid_row_stride g"]
    by (intro mult_mono) auto
  then show ?thesis using unat_less_u32 [of "grid_width g"] by (simp add: storage_of_def)
qed

lemma grid_required_storage_exact:
  "grid_height g \<noteq> 0 \<Longrightarrow> unat (grid_required_storage g) = storage_of g"
proof -
  assume h: "grid_height g \<noteq> 0"
  have "unat (ucast (grid_height g - 1) * ucast (grid_row_stride g) :: size_w) =
      (unat (grid_height g) - 1) * unat (grid_row_stride g)"
    using storage_of_bound [of g] by (simp add: unat_word_ariths unat_minus_one [OF h] storage_of_def)
  then show ?thesis using storage_of_bound [of g]
    by (simp add: grid_required_storage_def unat_word_ariths storage_of_def)
qed

lemma grid_never_overflows:
  assumes "grid_height g \<noteq> 0" "grid_width g \<noteq> 0" "grid_width g \<le> grid_row_stride g"
  shows "\<not> grid_overflows g"
proof -
  have r: "0 < unat (grid_row_stride g)"
    using assms(2,3) by (auto simp: word_le_nat_alt unat_gt_0 word_neq_0_conv intro: less_le_trans)
  have top: "unat (- 1 - ucast (grid_width g) :: size_w) = 2 ^ 64 - 1 - unat (grid_width g)"
    using unat_less_u32 [of "grid_width g"]
    by (subst unat_sub) (simp_all add: word_le_nat_alt unsigned_minus_1_eq_mask mask_eq_exp_minus_1)
  have "(unat (grid_height g) - 1) * unat (grid_row_stride g) \<le> 2 ^ 64 - 1 - unat (grid_width g)"
    using storage_of_bound [of g] by (simp add: storage_of_def)
  then have "unat (grid_height g) - 1 \<le> (2 ^ 64 - 1 - unat (grid_width g)) div unat (grid_row_stride g)"
    using r by (simp add: less_eq_div_iff_mult_less_eq)
  then show ?thesis
    unfolding grid_overflows_def word_less_nat_alt unat_div
    by (simp only: top unat_ucast_u32 unat_minus_one [OF assms(1)] not_less)
qed

lemma unat_grid_size:
  "unat (ucast (grid_width g) * ucast (grid_height g) :: size_w) = unat (grid_width g) * unat (grid_height g)"
proof -
  have "unat (grid_width g) * unat (grid_height g) \<le> 4294967295 * 4294967295"
    using unat_less_u32 [of "grid_width g"] unat_less_u32 [of "grid_height g"]
    by (intro mult_mono) auto
  then show ?thesis by (simp add: unat_word_ariths)
qed

subsection \<open>Logical indices\<close>

lemma length_grid_indices: "length (grid_indices g) = unat (grid_width g) * unat (grid_height g)"
  by (simp add: grid_indices_def length_concat comp_def sum_list_triv)

lemma grid_indices_iff:
  "i \<in> set (grid_indices g) \<longleftrightarrow> (\<exists>row < unat (grid_height g). \<exists>column < unat (grid_width g).
     i = row * unat (grid_row_stride g) + column)"
  by (auto simp: grid_indices_def Bex_def image_iff simp del: image_add_atLeastLessThan)

lemma grid_index_unique:
  assumes "c < w" "c' < w" "w \<le> (s :: nat)" "r * s + c = r' * s + c'"
  shows "r = r' \<and> c = c'"
proof -
  have "c < s" "c' < s" using assms by auto
  then have "(r * s + c) div s = r" "(r' * s + c') div s = r'" "(r * s + c) mod s = c" "(r' * s + c') mod s = c'"
    by auto
  then show ?thesis using assms(4) by metis
qed

lemma distinct_grid_indices:
  assumes "grid_width g \<le> grid_row_stride g"
  shows "distinct (grid_indices g)"
proof -
  have w: "unat (grid_width g) \<le> unat (grid_row_stride g)" using assms by (simp add: word_le_nat_alt)
  let ?row = "\<lambda>row. map (\<lambda>column. row * unat (grid_row_stride g) + column) [0..<unat (grid_width g)]"
  have "distinct (concat (map ?row rows))" if "distinct rows" for rows
    using that
  proof (induction rows)
    case (Cons r rows)
    have "set (?row r) \<inter> set (concat (map ?row rows)) = {}"
      using Cons.prems w
      by (auto simp del: image_add_atLeastLessThan dest!: grid_index_unique [rotated 3, where w = "unat (grid_width g)"])
    then show ?case using Cons by (simp add: distinct_map inj_on_def)
  qed simp
  then show ?thesis unfolding grid_indices_def by simp
qed

lemma grid_indices_bound:
  assumes "i \<in> set (grid_indices g)"
  shows "i < storage_of g"
proof -
  obtain r c where i: "r < unat (grid_height g)" "c < unat (grid_width g)" "i = r * unat (grid_row_stride g) + c"
    using assms by (auto simp: grid_indices_iff)
  have "r * unat (grid_row_stride g) \<le> (unat (grid_height g) - 1) * unat (grid_row_stride g)"
    using i(1) by (intro mult_right_mono) auto
  then show ?thesis using i(2) unfolding i(3) storage_of_def by linarith
qed

text \<open>The contract a stored surface satisfies.\<close>

definition grid_matches :: "nat \<Rightarrow> GridTopology option \<Rightarrow> bool" where
  "grid_matches storage g = (case g of None \<Rightarrow> True
     | Some g \<Rightarrow> grid_width g \<noteq> 0 \<and> grid_height g \<noteq> 0 \<and> grid_width g \<le> grid_row_stride g \<and>
         storage = storage_of g)"

definition point_ok :: "Vec3f list \<Rightarrow> Vec3f list \<Rightarrow> u8 list \<Rightarrow> nat \<Rightarrow> bool" where
  "point_ok points normals valid i \<longleftrightarrow>
     (valid \<noteq> [] \<longrightarrow> valid ! i \<in> {0, 1}) \<and>
     (valid = [] \<or> valid ! i = 1 \<longrightarrow>
        is_finite3 (points ! i) \<and> (normals \<noteq> [] \<longrightarrow> is_finite3 (normals ! i)))"

definition surface_data_ok :: "Vec3f list \<Rightarrow> Vec3f list \<Rightarrow> u8 list \<Rightarrow> GridTopology option \<Rightarrow> bool" where
  "surface_data_ok points normals valid g \<longleftrightarrow>
     points \<noteq> [] \<and> (normals = [] \<or> length normals = length points) \<and>
     (valid = [] \<or> length valid = length points) \<and> grid_matches (length points) g \<and>
     list_all (point_ok points normals valid) (storage_indices (length points) g)"

lemma mask_le_one: "\<not> 1 < (m :: u8) \<longleftrightarrow> m \<in> {0, 1}"
proof -
  have "unat m \<le> 1 \<longleftrightarrow> unat m = unat (0 :: u8) \<or> unat m = unat (1 :: u8)" by auto
  then show ?thesis by (simp add: word_less_nat_alt not_less word_eq_iff_unsigned [where 'a = nat])
qed

lemma check_index_ok_iff: "check_index points normals valid i = Inr u \<longleftrightarrow> point_ok points normals valid i"
proof -
  have "\<not> 1 < valid ! i \<longleftrightarrow> valid ! i \<in> {0, 1}" by (rule mask_le_one)
  then show ?thesis by (auto simp: check_index_def point_ok_def Let_def)
qed

lemma size_of_eq_iff:
  assumes "length xs < 2 ^ 64" "length ys < 2 ^ 64"
  shows "size_of xs = size_of ys \<longleftrightarrow> length xs = length ys"
proof -
  have "unat (size_of xs) = length xs" "unat (size_of ys) = length ys"
    using assms by (simp_all add: size_of_def unat_of_nat)
  then show ?thesis by (metis word_eq_iff_unsigned)
qed

lemma storage_indices_facts:
  assumes "grid_matches n g"
  shows "distinct (storage_indices n g)" "\<And>i. i \<in> set (storage_indices n g) \<Longrightarrow> i < n"
  using assms
  by (auto simp: grid_matches_def storage_indices_def distinct_grid_indices
      dest: grid_indices_bound split: option.splits)

subsection \<open>Validation\<close>

text \<open>
  The 64-bit grid arithmetic of the validation is exact for every 32-bit grid that reaches
  it: the required storage and the logical size are the mathematical ones, and the overflow
  branch is never taken.
\<close>
theorem grid_arithmetic_exact:
  assumes "grid_width g \<noteq> 0" "grid_height g \<noteq> 0" "grid_width g \<le> grid_row_stride g"
  shows "\<not> grid_overflows g \<and>
    unat (grid_required_storage g) =
      (unat (grid_height g) - 1) * unat (grid_row_stride g) + unat (grid_width g) \<and>
    unat (ucast (grid_width g) * ucast (grid_height g) :: size_w) = length (grid_indices g)"
  using assms grid_never_overflows [of g] grid_required_storage_exact [of g] unat_grid_size [of g]
  by (simp add: storage_of_def length_grid_indices)

theorem grid_arithmetic_exact_witness:
  "\<not> grid_overflows \<lparr>grid_width = 3, grid_height = 2, grid_row_stride = 4\<rparr> \<and>
   unat (grid_required_storage \<lparr>grid_width = 3, grid_height = 2, grid_row_stride = 4\<rparr>) = 7"
  using grid_arithmetic_exact [of "\<lparr>grid_width = 3, grid_height = 2, grid_row_stride = 4\<rparr>"] by simp

lemma surface_grid_ok_iff:
  assumes "length (points :: 'p list) < 2 ^ 64"
  shows "(case g of None \<Rightarrow> Inr (size_of points)
        | Some g \<Rightarrow>
            if grid_width g = 0 \<or> grid_height g = 0 then Inl e1
            else if grid_row_stride g < grid_width g then Inl e2
            else if grid_overflows g then Inl e3
            else if size_of points \<noteq> grid_required_storage g then Inl e4
            else Inr (ucast (grid_width g) * ucast (grid_height g))) = Inr n \<longleftrightarrow>
      grid_matches (length points) g \<and> unat n = length (storage_indices (length points) g)"
proof (cases g)
  case None
  have "unat (size_of points) = length points" using assms by (simp add: size_of_def unat_of_nat)
  then show ?thesis
    by (auto simp: None grid_matches_def storage_indices_def word_eq_iff_unsigned [where 'a = nat])
next
  case (Some t)
  have "unat (size_of points) = length points" using assms by (simp add: size_of_def unat_of_nat)
  then have storage: "grid_height t \<noteq> 0 \<Longrightarrow>
      size_of points = grid_required_storage t \<longleftrightarrow> length points = storage_of t"
    by (simp add: word_eq_iff_unsigned [where 'a = nat] grid_required_storage_exact)
  have n: "(ucast (grid_width t) * ucast (grid_height t) :: size_w) = n \<longleftrightarrow>
      unat n = unat (grid_width t) * unat (grid_height t)"
    by (auto simp: word_eq_iff_unsigned [where 'a = nat] unat_grid_size)
  show ?thesis
    using grid_never_overflows [of t]
    by (auto simp: Some grid_matches_def storage_indices_def length_grid_indices storage n not_less)
qed

lemma check_points_ok_iff:
  "check_all (check_index points normals valid) is = Inr u \<longleftrightarrow> list_all (point_ok points normals valid) is"
  by (simp add: check_all_ok_iff check_index_ok_iff list_all_iff)

lemma validate_surface_data_Inr_iff:
  assumes "length points < 2 ^ 64" "length normals < 2 ^ 64" "length valid < 2 ^ 64"
  shows "validate_surface_data points normals valid g = Inr n \<longleftrightarrow>
    surface_data_ok points normals valid g \<and> unat n = length (storage_indices (length points) g)"
  unfolding validate_surface_data_def surface_data_ok_def
  by (auto simp: rbind_Inr_iff surface_grid_ok_iff [OF assms(1)] check_points_ok_iff size_of_eq_iff [OF assms(2) assms(1)]
      size_of_eq_iff [OF assms(3) assms(1)])

text \<open>
  C37. A surface is created exactly when its data satisfy the documented contract (sizes agree,
  the grid matches the storage, the mask is 0/1 and every valid point and normal is finite at
  the logical positions), and then its size is the number of logical points. Container sizes
  are bounded by \<open>size_t\<close>.
\<close>
theorem Surface_create_ok_iff:
  assumes "length points < 2 ^ 64" "length normals < 2 ^ 64" "length valid < 2 ^ 64"
  shows "Surface_create points normals valid g u f = Inr s \<longleftrightarrow>
    surface_data_ok points normals valid g \<and>
    unat (sv_size s) = length (storage_indices (length points) g) \<and>
    s = \<lparr>sv_points = points, sv_normals = normals, sv_valid = valid, sv_grid = g, sv_unit = u,
         sv_frame = f, sv_size = sv_size s\<rparr>"
  unfolding Surface_create_def rbind_Inr_iff validate_surface_data_Inr_iff [OF assms]
  by (cases s) auto

theorem Surface_create_ok_iff_witness:
  "Surface_create [Vec3 1 0 0, Vec3 0 0 1] [] [1, 0] None meter ''part'' =
     Inr \<lparr>sv_points = [Vec3 1 0 0, Vec3 0 0 1], sv_normals = [], sv_valid = [1, 0], sv_grid = None,
          sv_unit = meter, sv_frame = ''part'', sv_size = 2\<rparr>"
  by (subst Surface_create_ok_iff)
     (simp_all add: surface_data_ok_def grid_matches_def storage_indices_def point_ok_def is_finite3_def
       upt_rec)

text \<open>The contract of every surface the stages receive.\<close>

definition surface_ok :: "Surface \<Rightarrow> bool" where
  "surface_ok s \<longleftrightarrow> surface_data_ok (sv_points s) (sv_normals s) (sv_valid s) (sv_grid s) \<and>
     unat (sv_size s) = length (logical_indices s)"

lemma Surface_create_surface_ok:
  "length points < 2 ^ 64 \<Longrightarrow> length normals < 2 ^ 64 \<Longrightarrow> length valid < 2 ^ 64 \<Longrightarrow>
   Surface_create points normals valid g u f = Inr s \<Longrightarrow> surface_ok s"
  by (auto simp: Surface_create_def rbind_Inr_iff validate_surface_data_Inr_iff surface_ok_def
      logical_indices_def storage_size_def)

lemma Surface_create_fields:
  assumes "Surface_create points normals valid g u f = Inr s"
  shows "sv_points s = points" "sv_normals s = normals" "sv_valid s = valid" "sv_grid s = g"
    "sv_unit s = u" "sv_frame s = f"
proof -
  obtain n where "s = \<lparr>sv_points = points, sv_normals = normals, sv_valid = valid, sv_grid = g,
      sv_unit = u, sv_frame = f, sv_size = n\<rparr>"
    using assms by (auto simp: Surface_create_def rbind_Inr_iff)
  then show "sv_points s = points" "sv_normals s = normals" "sv_valid s = valid" "sv_grid s = g"
    "sv_unit s = u" "sv_frame s = f" by simp_all
qed

text \<open>
  The interface of the per-point stages: a traversal visits distinct in-range storage slots.
  A stage writes one slot per visited index and counts visited indices.
\<close>

locale traversal =
  fixes good :: "'s \<Rightarrow> bool" and indices :: "'s \<Rightarrow> nat list" and storage :: "'s \<Rightarrow> nat"
  assumes indices_distinct: "good s \<Longrightarrow> distinct (indices s)"
    and indices_bound: "good s \<Longrightarrow> i \<in> set (indices s) \<Longrightarrow> i < storage s"
begin

lemma count_visited: "good s \<Longrightarrow> length (filter P (indices s)) = card {i \<in> set (indices s). P i}"
  by (simp add: distinct_length_filter indices_distinct)

lemma visited_le_storage: "good s \<Longrightarrow> length (indices s) \<le> storage s"
proof -
  assume g: "good s"
  have "length (indices s) = card (set (indices s))" using indices_distinct [OF g] by (simp add: distinct_card)
  also have "\<dots> \<le> card {..<storage s}" using indices_bound [OF g] by (intro card_mono) auto
  finally show ?thesis by simp
qed

lemma written_slot:
  "good s \<Longrightarrow> length xs = storage s \<Longrightarrow> i \<in> set (indices s) \<Longrightarrow> write_each g (indices s) xs ! i = g i"
  using indices_bound [of s i] by (simp add: nth_write_each)

lemma untouched_slot:
  "i < length xs \<Longrightarrow> i \<notin> set (indices s) \<Longrightarrow> write_each g (indices s) xs ! i = xs ! i"
  by (simp add: nth_write_each)

end

interpretation surface_walk: traversal surface_ok logical_indices storage_size
  using storage_indices_facts
  by unfold_locales (auto simp: surface_ok_def surface_data_ok_def logical_indices_def storage_size_def)

text \<open>Storage sizes of a well-formed surface fit \<open>size_t\<close>.\<close>

lemma surface_ok_sizes:
  assumes "surface_ok s"
  shows "length (sv_points s) < 2 ^ 64" "length (sv_normals s) < 2 ^ 64" "length (sv_valid s) < 2 ^ 64"
proof -
  show points: "length (sv_points s) < 2 ^ 64"
  proof (cases "sv_grid s")
    case None
    then have "length (sv_points s) = unat (sv_size s)"
      using assms by (simp add: surface_ok_def logical_indices_def storage_indices_def storage_size_def)
    then show ?thesis using unsigned_less [where 'a = nat and w = "sv_size s"] by simp
  next
    case (Some g)
    then show ?thesis
      using assms storage_of_bound [of g] by (simp add: surface_ok_def surface_data_ok_def grid_matches_def)
  qed
  show "length (sv_normals s) < 2 ^ 64" "length (sv_valid s) < 2 ^ 64"
    using assms points by (auto simp: surface_ok_def surface_data_ok_def)
qed

lemma logical_indices_cong:
  "length (sv_points s) = length (sv_points t) \<Longrightarrow> sv_grid s = sv_grid t \<Longrightarrow>
   logical_indices s = logical_indices t"
  by (simp add: logical_indices_def storage_size_def)

text \<open>
  The traversal every stage uses visits each logical point of a created surface once, inside
  the storage, and visits as many points as \<open>size()\<close> reports: padding is never touched.
\<close>
theorem surface_traversal:
  assumes "surface_ok s"
  shows "distinct (logical_indices s) \<and> (\<forall>i \<in> set (logical_indices s). i < storage_size s) \<and>
     length (logical_indices s) = unat (sv_size s) \<and> unat (sv_size s) \<le> storage_size s"
  using assms surface_walk.indices_distinct surface_walk.indices_bound surface_walk.visited_le_storage
  by (auto simp: surface_ok_def)

theorem surface_traversal_witness:
  "length (logical_indices \<lparr>sv_points = replicate 7 Vec3f_zero, sv_normals = [], sv_valid = [],
     sv_grid = Some \<lparr>grid_width = 3, grid_height = 2, grid_row_stride = 4\<rparr>, sv_unit = meter,
     sv_frame = ''part'', sv_size = 6\<rparr>) = 6"
proof -
  let ?s = "\<lparr>sv_points = replicate 7 Vec3f_zero, sv_normals = [], sv_valid = [],
     sv_grid = Some \<lparr>grid_width = 3, grid_height = 2, grid_row_stride = 4\<rparr>, sv_unit = meter,
     sv_frame = ''part'', sv_size = 6\<rparr>"
  have "surface_ok ?s" by code_simp
  from surface_traversal [OF this] show ?thesis by simp
qed

end
