(* ===== verification/Registration.thy ===== *)
theory Registration
  imports Config Surface
begin

unbundle bit_operations_syntax

text \<open>
  The backend-neutral registration contracts: solver parameters, inputs and metrics
  (\<open>include/pointcloud_ad/registration.hpp\<close>), the quality gate
  (\<open>registration/registration_gate.cpp\<close>), the back-end policy
  (\<open>registration/backend_policy.hpp\<close>) and the CPU kernel dispatch
  (\<open>registration/cpu_dispatch.cpp\<close>). The CPU identification registers are parameters.
\<close>

subsection \<open>registration.hpp\<close>

definition registration_error :: "string \<Rightarrow> string \<Rightarrow> Error" where
  "registration_error = field_error invalid_input stage_registration ''invalid registration contract''"

definition finite_nonnegative :: "f64 \<Rightarrow> bool" where
  "finite_nonnegative value \<longleftrightarrow> isfinite value \<and> 0 \<le> value"

record RegistrationParameters =
  rp_max_iterations :: u32
  rp_max_correspondence_distance_mm :: f64
  rp_huber_delta_mm :: f64
  rp_translation_epsilon_mm :: f64
  rp_rotation_epsilon_rad :: f64
  rp_residual_epsilon_mm :: f64
  rp_method :: RegistrationMethod
  rp_covariance_neighbors :: u32
  rp_covariance_epsilon :: f64
  rp_thread_count :: u32
  rp_cpu_kernel :: CpuKernel

text \<open>The default member initializers.\<close>

definition default_parameters :: RegistrationParameters where
  "default_parameters = \<lparr>rp_max_iterations = 0, rp_max_correspondence_distance_mm = 0, rp_huber_delta_mm = 0,
     rp_translation_epsilon_mm = 0, rp_rotation_epsilon_rad = 0, rp_residual_epsilon_mm = 0,
     rp_method = point_to_plane, rp_covariance_neighbors = 12, rp_covariance_epsilon = lit (1 / 1000),
     rp_thread_count = 1, rp_cpu_kernel = kernel_automatic\<rparr>"

text \<open>The guard \<open>!std::isfinite(value) || value <= 0.0\<close> of five of the fields.\<close>

definition not_positive :: "f64 \<Rightarrow> bool" where
  "not_positive value \<longleftrightarrow> \<not> isfinite value \<or> value \<le> 0"

definition validate_registration_parameters :: "RegistrationParameters \<Rightarrow> RegistrationParameters Result" where
  "validate_registration_parameters p =
     require (cpu_kernel_name (rp_cpu_kernel p) \<noteq> ''unknown'')
       (registration_error ''parameters.cpu_kernel'' ''unsupported CPU kernel'') (
     require (rp_thread_count p \<noteq> 0)
       (registration_error ''parameters.thread_count'' ''must be positive'') (
     require (registration_method_name (rp_method p) \<noteq> ''unknown'')
       (registration_error ''parameters.method'' ''unsupported method'') (
     require (\<not> (rp_covariance_neighbors p < 3 \<or> 1024 < rp_covariance_neighbors p \<or>
                 not_positive (rp_covariance_epsilon p) \<or> 1 < rp_covariance_epsilon p))
       (registration_error ''parameters.covariance'' ''neighbors must be in [3, 1024] and epsilon in (0, 1]'') (
     require (\<not> (rp_max_iterations p = 0 \<or> 1000 < rp_max_iterations p))
       (registration_error ''parameters.max_iterations'' ''must be in [1, 1000]'') (
     require (\<not> not_positive (rp_max_correspondence_distance_mm p))
       (registration_error ''parameters.max_correspondence_distance_mm'' ''must be finite and positive'') (
     require (\<not> not_positive (rp_huber_delta_mm p))
       (registration_error ''parameters.huber_delta_mm'' ''must be finite and positive'') (
     require (\<not> not_positive (rp_translation_epsilon_mm p))
       (registration_error ''parameters.translation_epsilon_mm'' ''must be finite and positive'') (
     require (\<not> not_positive (rp_rotation_epsilon_rad p))
       (registration_error ''parameters.rotation_epsilon_rad'' ''must be finite and positive'') (
     require (\<not> not_positive (rp_residual_epsilon_mm p))
       (registration_error ''parameters.residual_epsilon_mm'' ''must be finite and positive'')
       (Inr p))))))))))"

record RegistrationInput =
  ri_reference :: Surface
  ri_scan :: Surface
  ri_initial_transform :: RigidTransform
  ri_parameters :: RegistrationParameters

definition RegistrationInput_create ::
  "Surface \<Rightarrow> Surface \<Rightarrow> RigidTransform \<Rightarrow> RegistrationParameters \<Rightarrow> RegistrationInput Result" where
  "RegistrationInput_create reference scan initial_transform parameters =
     require (sv_size reference \<noteq> 0) (registration_error ''reference'' ''must contain at least one point'') (
     require (sv_size scan \<noteq> 0) (registration_error ''scan'' ''must contain at least one point'') (
     require (sv_unit reference = millimeter)
       (registration_error ''reference.unit'' ''must be normalized to millimetres'') (
     require (sv_unit scan = millimeter)
       (registration_error ''scan.unit'' ''must be normalized to millimetres'') (
     require (\<not> (rt_source_frame initial_transform \<noteq> sv_frame scan \<or>
                 rt_target_frame initial_transform \<noteq> sv_frame reference))
       (registration_error ''initial_transform'' ''frame direction must match scan -> reference'') (
     rbind (validate_registration_parameters parameters) (\<lambda>validated.
     Inr \<lparr>ri_reference = reference, ri_scan = scan, ri_initial_transform = initial_transform,
          ri_parameters = validated\<rparr>))))))"

datatype RegistrationConvergence = converged | not_converged | degenerate_input | unnamed_convergence u8

fun is_valid_convergence :: "RegistrationConvergence \<Rightarrow> bool" where
  "is_valid_convergence (unnamed_convergence _) = False"
| "is_valid_convergence _ = True"

record RegistrationMetrics =
  rm_final_transform :: RigidTransform
  rm_convergence :: RegistrationConvergence
  rm_iterations :: u32
  rm_valid_pairs :: u64
  rm_fitness :: f64
  rm_inlier_rmse_mm :: f64
  rm_translation_delta_mm :: f64
  rm_rotation_delta_deg :: f64

definition RegistrationMetrics_create ::
  "RigidTransform \<Rightarrow> RegistrationConvergence \<Rightarrow> u32 \<Rightarrow> u64 \<Rightarrow> f64 \<Rightarrow> f64 \<Rightarrow> f64 \<Rightarrow> f64 \<Rightarrow>
     RegistrationMetrics Result" where
  "RegistrationMetrics_create final_transform convergence iterations valid_pairs fitness inlier_rmse_mm
       translation_delta_mm rotation_delta_deg =
     require (is_valid_convergence convergence)
       (registration_error ''convergence'' ''enumerator is not supported'') (
     require (\<not> (\<not> isfinite fitness \<or> fitness < 0 \<or> 1 < fitness))
       (registration_error ''fitness'' ''must be in [0, 1]'') (
     require (finite_nonnegative inlier_rmse_mm)
       (registration_error ''inlier_rmse_mm'' ''must be finite and non-negative'') (
     require (finite_nonnegative translation_delta_mm)
       (registration_error ''translation_delta_mm'' ''must be finite and non-negative'') (
     require (\<not> (\<not> isfinite rotation_delta_deg \<or> rotation_delta_deg < 0 \<or> lit 180 < rotation_delta_deg))
       (registration_error ''rotation_delta_deg'' ''must be in [0, 180]'')
     (Inr \<lparr>rm_final_transform = final_transform, rm_convergence = convergence, rm_iterations = iterations,
           rm_valid_pairs = valid_pairs, rm_fitness = fitness, rm_inlier_rmse_mm = inlier_rmse_mm,
           rm_translation_delta_mm = translation_delta_mm, rm_rotation_delta_deg = rotation_delta_deg\<rparr>)))))"

subsection \<open>registration_gate.cpp\<close>

datatype GateFailure =
    gate_none | gate_not_converged | gate_insufficient_pairs | gate_insufficient_overlap
  | gate_excessive_residual | gate_translation_prior | gate_rotation_prior

record RegistrationGateResult =
  rg_passed :: bool
  rg_failure :: GateFailure
  rg_message :: string

definition rejected :: "GateFailure \<Rightarrow> string \<Rightarrow> RegistrationGateResult" where
  "rejected failure message = \<lparr>rg_passed = False, rg_failure = failure, rg_message = message\<rparr>"

definition evaluate_gate ::
  "RegistrationMetrics \<Rightarrow> ValidatedRegistrationGateConfig \<Rightarrow> RegistrationGateResult Result" where
  "evaluate_gate metrics gate = Inr (
     if rm_convergence metrics \<noteq> converged
     then rejected gate_not_converged ''registration did not converge''
     else if unat (rm_valid_pairs metrics) < unat (vgc_min_valid_pairs gate)
     then rejected gate_insufficient_pairs ''valid correspondence count is below the minimum''
     else if rm_fitness metrics < vgc_min_overlap_ratio gate
     then rejected gate_insufficient_overlap ''overlap ratio is below the minimum''
     else if vgc_max_inlier_rmse_mm gate < rm_inlier_rmse_mm metrics
     then rejected gate_excessive_residual ''inlier RMS residual exceeds the maximum''
     else if vgc_max_translation_from_initial_mm gate < rm_translation_delta_mm metrics
     then rejected gate_translation_prior ''translation from the initial pose exceeds the bound''
     else if vgc_max_rotation_from_initial_deg gate < rm_rotation_delta_deg metrics
     then rejected gate_rotation_prior ''rotation from the initial pose exceeds the bound''
     else \<lparr>rg_passed = True, rg_failure = gate_none, rg_message = []\<rparr>)"

subsection \<open>backend_policy.hpp\<close>

definition automatic_gpu_min_points :: nat where
  "automatic_gpu_min_points = 65536"

definition gpu_size_eligible :: "nat \<Rightarrow> nat \<Rightarrow> bool" where
  "gpu_size_eligible reference_points scan_capacity \<longleftrightarrow>
     automatic_gpu_min_points \<le> reference_points \<and> automatic_gpu_min_points \<le> scan_capacity"

definition select_backend :: "ComputeBackend \<Rightarrow> nat \<Rightarrow> nat \<Rightarrow> bool \<Rightarrow> ComputeBackend" where
  "select_backend requested reference_points scan_capacity gpu_available =
     (if requested \<noteq> backend_automatic then requested
      else if gpu_available \<and> gpu_size_eligible reference_points scan_capacity then backend_gpu
      else backend_cpu)"

subsection \<open>cpu_dispatch.cpp\<close>

definition avx2_state_supported :: "u32 \<Rightarrow> u32 \<Rightarrow> u64 \<Rightarrow> bool" where
  "avx2_state_supported leaf1_ecx leaf7_ebx xcr0 \<longleftrightarrow>
     (let required = push_bit 26 1 OR push_bit 27 1 OR push_bit 28 1 in
      leaf1_ecx AND required = required \<and> leaf7_ebx AND push_bit 5 1 \<noteq> 0 \<and> xcr0 AND 6 = 6)"

text \<open>What \<open>cpuid\<close> and \<open>xgetbv\<close> report; \<open>None\<close> is a build without AVX2.\<close>

record cpu_registers =
  cpu_max_leaf :: u32
  cpu_leaf1_ecx :: u32
  cpu_leaf7_ebx :: u32
  cpu_xcr0 :: u64

definition avx2_available :: "cpu_registers option \<Rightarrow> bool" where
  "avx2_available cpu = (case cpu of
     None \<Rightarrow> False
   | Some r \<Rightarrow>
       if cpu_max_leaf r < 7 then False
       else if cpu_leaf1_ecx r AND push_bit 27 1 = 0 then False
       else avx2_state_supported (cpu_leaf1_ecx r) (cpu_leaf7_ebx r) (cpu_xcr0 r))"

fun select_cpu_kernel :: "CpuKernel \<Rightarrow> bool \<Rightarrow> exn + CpuKernel" where
  "select_cpu_kernel kernel_automatic available = Inr (if available then kernel_avx2 else kernel_scalar)"
| "select_cpu_kernel kernel_scalar available = Inr kernel_scalar"
| "select_cpu_kernel kernel_avx2 available =
     (if available then Inr kernel_avx2
      else Inl (exn_invalid_argument ''AVX2 requires a supported build, CPU and OS register state''))"
| "select_cpu_kernel (unnamed_kernel _) available = Inl (exn_invalid_argument ''unknown CPU kernel'')"

subsection \<open>Lemmas\<close>

lemma not_positive_iff: "\<not> not_positive v \<longleftrightarrow> positive_finite v"
  by (cases v) (auto simp: not_positive_def positive_finite_def fp_eval)

definition valid_parameters :: "RegistrationParameters \<Rightarrow> bool" where
  "valid_parameters p \<longleftrightarrow> (\<forall>b. rp_cpu_kernel p \<noteq> unnamed_kernel b) \<and> rp_thread_count p \<noteq> 0 \<and>
     (\<forall>b. rp_method p \<noteq> unnamed_method b) \<and>
     3 \<le> unat (rp_covariance_neighbors p) \<and> unat (rp_covariance_neighbors p) \<le> 1024 \<and>
     positive_finite (rp_covariance_epsilon p) \<and> rp_covariance_epsilon p \<le> 1 \<and>
     0 < unat (rp_max_iterations p) \<and> unat (rp_max_iterations p) \<le> 1000 \<and>
     list_all positive_finite [rp_max_correspondence_distance_mm p, rp_huber_delta_mm p,
       rp_translation_epsilon_mm p, rp_rotation_epsilon_rad p, rp_residual_epsilon_mm p]"

lemma validate_parameters_iff:
  "validate_registration_parameters p = Inr q \<longleftrightarrow> valid_parameters p \<and> q = p"
proof -
  have cov: "\<not> (n < 3 \<or> 1024 < n) \<longleftrightarrow> 3 \<le> unat n \<and> unat n \<le> 1024" for n :: u32
    by (simp add: word_less_nat_alt not_less)
  have it: "\<not> (n = 0 \<or> 1000 < n) \<longleftrightarrow> 0 < unat n \<and> unat n \<le> 1000" for n :: u32
    by (simp add: word_less_nat_alt not_less unat_gt_0)
  have eps: "positive_finite v \<Longrightarrow> \<not> 1 < v \<longleftrightarrow> v \<le> 1" for v :: f64
    using fp_not_less [of 1 v] finite_not_nan [of v] by (simp add: positive_finite_def finite_not_nan)
  show ?thesis
    unfolding validate_registration_parameters_def valid_parameters_def require_Inr_iff
      kernel_name_known method_name_known not_positive_iff de_Morgan_disj
    using cov [of "rp_covariance_neighbors p"] it [of "rp_max_iterations p"] eps [of "rp_covariance_epsilon p"]
    by (auto simp: not_positive_iff)
qed

text \<open>
  A registration input is accepted exactly when both clouds are non-empty and in millimetres,
  the initial pose maps the scan frame to the reference frame and the parameters are within their
  documented bounds; it then holds exactly what was passed in.
\<close>
theorem registration_input_iff:
  "RegistrationInput_create reference scan pose p = Inr input \<longleftrightarrow>
     sv_size reference \<noteq> 0 \<and> sv_size scan \<noteq> 0 \<and> sv_unit reference = millimeter \<and> sv_unit scan = millimeter \<and>
     rt_source_frame pose = sv_frame scan \<and> rt_target_frame pose = sv_frame reference \<and> valid_parameters p \<and>
     input = \<lparr>ri_reference = reference, ri_scan = scan, ri_initial_transform = pose, ri_parameters = p\<rparr>"
  unfolding RegistrationInput_create_def require_Inr_iff rbind_Inr_iff validate_parameters_iff by auto

lemma metrics_create_Inr:
  "RegistrationMetrics_create T c i n fit rmse dt dr = Inr m \<longleftrightarrow>
     is_valid_convergence c \<and> isfinite fit \<and> 0 \<le> fit \<and> fit \<le> 1 \<and> finite_nonnegative rmse \<and>
     finite_nonnegative dt \<and> isfinite dr \<and> 0 \<le> dr \<and> dr \<le> lit 180 \<and>
     m = \<lparr>rm_final_transform = T, rm_convergence = c, rm_iterations = i, rm_valid_pairs = n, rm_fitness = fit,
          rm_inlier_rmse_mm = rmse, rm_translation_delta_mm = dt, rm_rotation_delta_deg = dr\<rparr>"
proof -
  have between: "\<not> (\<not> isfinite x \<or> x < 0 \<or> b < x) \<longleftrightarrow> isfinite x \<and> 0 \<le> x \<and> x \<le> b" if "\<not> is_nan b" for x b :: f64
    using fp_not_less [of x 0] fp_not_less [of b x] finite_not_nan [of x] that by auto
  have b: "\<not> is_nan (1 :: f64)" "\<not> is_nan (lit 180)" by (simp_all add: lit_def finite_not_nan)
  show ?thesis
    unfolding RegistrationMetrics_create_def require_Inr_iff between [OF b(1)] between [OF b(2)] by auto
qed

definition finite_gate :: "ValidatedRegistrationGateConfig \<Rightarrow> bool" where
  "finite_gate g \<longleftrightarrow> isfinite (vgc_min_overlap_ratio g) \<and> isfinite (vgc_max_inlier_rmse_mm g) \<and>
     isfinite (vgc_max_translation_from_initial_mm g) \<and> isfinite (vgc_max_rotation_from_initial_deg g)"

text \<open>The checks of the gate in the order of the enumeration: what must hold, and the failure otherwise.\<close>

definition gate_table ::
  "RegistrationMetrics \<Rightarrow> ValidatedRegistrationGateConfig \<Rightarrow> (bool \<times> GateFailure) list" where
  "gate_table m g =
     [(rm_convergence m = converged, gate_not_converged),
      (unat (vgc_min_valid_pairs g) \<le> unat (rm_valid_pairs m), gate_insufficient_pairs),
      (vgc_min_overlap_ratio g \<le> rm_fitness m, gate_insufficient_overlap),
      (rm_inlier_rmse_mm m \<le> vgc_max_inlier_rmse_mm g, gate_excessive_residual),
      (rm_translation_delta_mm m \<le> vgc_max_translation_from_initial_mm g, gate_translation_prior),
      (rm_rotation_delta_deg m \<le> vgc_max_rotation_from_initial_deg g, gate_rotation_prior)]"

text \<open>
  On metrics the solver can produce and a validated gate, the decision is total: the gate
  passes exactly when every check of its table holds, and otherwise reports the first that fails,
  in the table's order.
\<close>
theorem gate_reports_first_failure:
  assumes "RegistrationMetrics_create T c i n fit rmse dt dr = Inr m" "finite_gate g"
  shows "\<exists>r. evaluate_gate m g = Inr r \<and> (rg_passed r \<longleftrightarrow> (\<forall>(holds, failure) \<in> set (gate_table m g). holds)) \<and>
    rg_failure r = (case filter (\<lambda>(holds, failure). \<not> holds) (gate_table m g) of
       [] \<Rightarrow> gate_none | (_, failure) # _ \<Rightarrow> failure)"
proof -
  have fin: "isfinite (rm_fitness m)" "isfinite (rm_inlier_rmse_mm m)" "isfinite (rm_translation_delta_mm m)"
    "isfinite (rm_rotation_delta_deg m)"
    using assms(1) by (auto simp: metrics_create_Inr finite_nonnegative_def)
  have less: "x < y \<longleftrightarrow> \<not> y \<le> x" if "isfinite x" "isfinite y" for x y :: f64
    using fp_not_less [of x y] finite_not_nan [OF that(1)] finite_not_nan [OF that(2)] by blast
  have g: "isfinite (vgc_min_overlap_ratio g)" "isfinite (vgc_max_inlier_rmse_mm g)"
    "isfinite (vgc_max_translation_from_initial_mm g)" "isfinite (vgc_max_rotation_from_initial_deg g)"
    using assms(2) by (simp_all add: finite_gate_def)
  show ?thesis
    unfolding evaluate_gate_def gate_table_def rejected_def
      less [OF fin(1) g(1)] less [OF g(2) fin(2)] less [OF g(3) fin(3)] less [OF g(4) fin(4)]
    by (simp add: not_le [symmetric])
qed

text \<open>The conjunction of the checks is what the pipeline relies on when the gate lets a solve pass.\<close>

lemma gate_passed:
  "evaluate_gate m g = Inr r \<Longrightarrow> rg_passed r \<Longrightarrow>
   rm_convergence m = converged \<and> unat (vgc_min_valid_pairs g) \<le> unat (rm_valid_pairs m) \<and>
   \<not> rm_fitness m < vgc_min_overlap_ratio g \<and> \<not> vgc_max_inlier_rmse_mm g < rm_inlier_rmse_mm m \<and>
   \<not> vgc_max_translation_from_initial_mm g < rm_translation_delta_mm m \<and>
   \<not> vgc_max_rotation_from_initial_deg g < rm_rotation_delta_deg m"
  by (auto simp: evaluate_gate_def rejected_def split: if_splits)

definition sample_gate :: ValidatedRegistrationGateConfig where
  "sample_gate = \<lparr>vgc_min_overlap_ratio = 0, vgc_max_inlier_rmse_mm = 1, vgc_min_valid_pairs = 6,
     vgc_max_translation_from_initial_mm = 1, vgc_max_rotation_from_initial_deg = 1\<rparr>"

definition sample_pose :: RigidTransform where
  "sample_pose = \<lparr>rt_matrix = identity_matrix, rt_source_frame = ''part'', rt_target_frame = ''cad''\<rparr>"

definition sample_metrics :: RegistrationMetrics where
  "sample_metrics = \<lparr>rm_final_transform = sample_pose, rm_convergence = converged, rm_iterations = 3,
     rm_valid_pairs = 5, rm_fitness = 1, rm_inlier_rmse_mm = 0, rm_translation_delta_mm = 0,
     rm_rotation_delta_deg = 0\<rparr>"

theorem gate_reports_first_failure_witness:
  "\<exists>r. evaluate_gate sample_metrics sample_gate = Inr r \<and> rg_failure r = gate_insufficient_pairs"
proof -
  have m: "RegistrationMetrics_create sample_pose converged 3 5 1 0 0 0 = Inr sample_metrics"
    by (simp add: metrics_create_Inr finite_nonnegative_def sample_metrics_def fp_eval)
  have g: "finite_gate sample_gate" by (simp add: finite_gate_def sample_gate_def)
  have "filter (\<lambda>(holds, failure). \<not> holds) (gate_table sample_metrics sample_gate) =
      [(False, gate_insufficient_pairs)]"
    by (simp add: gate_table_def sample_metrics_def sample_gate_def fp_eval)
  then show ?thesis using gate_reports_first_failure [OF m g] by auto
qed

text \<open>Testing a mask of single bits.\<close>

lemma mask_split: "x AND (a OR b) = a OR b \<longleftrightarrow> x AND a = a \<and> x AND b = b" for x :: "'a::len word"
  by (auto simp: bit_eq_iff bit_and_iff bit_or_iff)

lemma mask_bit:
  fixes x :: "'a::len word"
  assumes "n < LENGTH('a)"
  shows "x AND push_bit n 1 = push_bit n 1 \<longleftrightarrow> bit x n"
proof
  assume "x AND push_bit n 1 = push_bit n 1"
  then have "bit (x AND push_bit n 1) n" using assms by (simp add: bit_exp_iff)
  then show "bit x n" by (simp add: bit_and_iff)
next
  assume "bit x n"
  then show "x AND push_bit n 1 = push_bit n 1"
    by (intro bit_word_eqI) (auto simp: bit_and_iff bit_exp_iff)
qed

lemma single_bit_mask: "n < LENGTH('a) \<Longrightarrow> x AND push_bit n 1 \<noteq> 0 \<longleftrightarrow> bit x n" for x :: "'a::len word"
  by (simp add: and_exp_eq_0_iff_not_bit)

lemma state_mask_bits: "x AND 6 = 6 \<longleftrightarrow> bit x 1 \<and> bit x 2" for x :: u64
proof -
  have "(6 :: u64) = push_bit 1 1 OR push_bit 2 1" by simp
  then have "x AND 6 = 6 \<longleftrightarrow> x AND (push_bit 1 1 OR push_bit 2 1) = push_bit 1 1 OR push_bit 2 1" by (rule ssubst) (rule refl)
  also have "\<dots> \<longleftrightarrow> bit x 1 \<and> bit x 2" unfolding mask_split using mask_bit [of 1 x] mask_bit [of 2 x] by simp
  finally show ?thesis .
qed

lemma avx_mask_bits:
  "x AND (push_bit 26 1 OR push_bit 27 1 OR push_bit 28 1) = (push_bit 26 1 OR push_bit 27 1 OR push_bit 28 1) \<longleftrightarrow>
     bit x 26 \<and> bit x 27 \<and> bit x 28" for x :: u32
  unfolding mask_split using mask_bit [of 26 x] mask_bit [of 27 x] mask_bit [of 28 x] by simp

text \<open>
  The dispatch is sound. A resolved back end is never \<open>automatic\<close>; the automatic choice takes
  the GPU only when it is available and both clouds are large; a resolved CPU kernel is scalar or
  AVX2, AVX2 only on a machine reporting XSAVE, OSXSAVE, AVX and AVX2 with the vector state saved by the
  system; and resolution fails only for AVX2 on another machine or an unnamed enumerator.
\<close>
theorem dispatch_sound:
  "select_backend requested n capacity gpu \<noteq> backend_automatic \<and>
   (requested = backend_automatic \<longrightarrow>
      (select_backend requested n capacity gpu = backend_gpu \<longleftrightarrow> gpu \<and> 65536 \<le> min n capacity)) \<and>
   (\<forall>k. select_cpu_kernel choice (avx2_available cpu) = Inr k \<longrightarrow>
      k = kernel_scalar \<or> k = kernel_avx2 \<and> (\<exists>r. cpu = Some r \<and> 7 \<le> unat (cpu_max_leaf r) \<and>
         bit (cpu_leaf1_ecx r) 26 \<and> bit (cpu_leaf1_ecx r) 27 \<and> bit (cpu_leaf1_ecx r) 28 \<and>
         bit (cpu_leaf7_ebx r) 5 \<and> bit (cpu_xcr0 r) 1 \<and> bit (cpu_xcr0 r) 2)) \<and>
   (\<forall>e. select_cpu_kernel choice (avx2_available cpu) = Inl e \<longrightarrow>
      choice = kernel_avx2 \<and> \<not> avx2_available cpu \<or> (\<exists>b. choice = unnamed_kernel b))"
proof (intro conjI)
  have supported: "\<exists>r. cpu = Some r \<and> 7 \<le> unat (cpu_max_leaf r) \<and>
         bit (cpu_leaf1_ecx r) 26 \<and> bit (cpu_leaf1_ecx r) 27 \<and> bit (cpu_leaf1_ecx r) 28 \<and>
         bit (cpu_leaf7_ebx r) 5 \<and> bit (cpu_xcr0 r) 1 \<and> bit (cpu_xcr0 r) 2" if a: "avx2_available cpu"
  proof -
    obtain r where r: "cpu = Some r" "\<not> cpu_max_leaf r < 7"
      "avx2_state_supported (cpu_leaf1_ecx r) (cpu_leaf7_ebx r) (cpu_xcr0 r)"
      using a by (auto simp: avx2_available_def split: option.splits if_splits)
    then show ?thesis
      unfolding avx2_state_supported_def Let_def avx_mask_bits state_mask_bits
      using single_bit_mask [of 5 "cpu_leaf7_ebx r"] by (auto simp: word_less_nat_alt not_less)
  qed
  show "\<forall>k. select_cpu_kernel choice (avx2_available cpu) = Inr k \<longrightarrow>
      k = kernel_scalar \<or> k = kernel_avx2 \<and> (\<exists>r. cpu = Some r \<and> 7 \<le> unat (cpu_max_leaf r) \<and>
         bit (cpu_leaf1_ecx r) 26 \<and> bit (cpu_leaf1_ecx r) 27 \<and> bit (cpu_leaf1_ecx r) 28 \<and>
         bit (cpu_leaf7_ebx r) 5 \<and> bit (cpu_xcr0 r) 1 \<and> bit (cpu_xcr0 r) 2)"
    using supported by (cases choice) (auto split: if_splits)
  show "\<forall>e. select_cpu_kernel choice (avx2_available cpu) = Inl e \<longrightarrow>
      choice = kernel_avx2 \<and> \<not> avx2_available cpu \<or> (\<exists>b. choice = unnamed_kernel b)"
    by (cases choice) (auto split: if_splits)
qed (auto simp: select_backend_def gpu_size_eligible_def automatic_gpu_min_points_def)

theorem dispatch_sound_witness:
  "select_backend backend_automatic 70000 70000 True = backend_gpu \<and>
   select_cpu_kernel kernel_automatic (avx2_available (Some \<lparr>cpu_max_leaf = 7, cpu_leaf1_ecx = 0x1C000000,
     cpu_leaf7_ebx = 0x20, cpu_xcr0 = 7\<rparr>)) = Inr kernel_avx2"
proof -
  let ?cpu = "Some \<lparr>cpu_max_leaf = 7, cpu_leaf1_ecx = 0x1C000000, cpu_leaf7_ebx = 0x20, cpu_xcr0 = 7\<rparr>"
  have "avx2_available ?cpu" by code_simp
  then show ?thesis
    using dispatch_sound [of backend_automatic 70000 70000 True kernel_automatic ?cpu] by simp
qed

end
