(* ===== verification/Kernels.thy ===== *)
theory Kernels
  imports Registration
begin

text \<open>
  The arithmetic kernels of the CPU registration: the point transform and the per-correspondence
  contribution to the normal equations, once in plain C++ (\<open>registration/cpu_kernels.cpp\<close>,
  \<open>cpu_objective.hpp\<close>) and once with AVX2 intrinsics (\<open>cpu_kernels_avx2.cpp\<close>). A vector register is
  the list of its lanes, lowest first; the intrinsics used act lane by lane. The kernels are
  compiled without contraction, so a product and a sum are rounded separately.
\<close>

type_synonym Mat4 = "f64 list"

subsection \<open>The point transform\<close>

definition transform_point :: "Mat4 \<Rightarrow> Vec3d \<Rightarrow> Vec3d" where
  "transform_point m p = Vec3
     (((m!0 * vx p + m!1 * vy p) + m!2 * vz p) + m!3)
     (((m!4 * vx p + m!5 * vy p) + m!6 * vz p) + m!7)
     (((m!8 * vx p + m!9 * vy p) + m!10 * vz p) + m!11)"

definition transform_scalar :: "Vec3d list \<Rightarrow> Mat4 \<Rightarrow> Vec3d list" where
  "transform_scalar input m = map (transform_point m) input"

definition lanes_add :: "f64 list \<Rightarrow> f64 list \<Rightarrow> f64 list" where
  "lanes_add a b = map2 (+) a b"

definition lanes_mul :: "f64 list \<Rightarrow> f64 list \<Rightarrow> f64 list" where
  "lanes_mul a b = map2 (*) a b"

definition set1 :: "nat \<Rightarrow> f64 \<Rightarrow> f64 list" where
  "set1 lanes x = replicate lanes x"

definition loadu :: "nat \<Rightarrow> f64 list \<Rightarrow> nat \<Rightarrow> f64 list" where
  "loadu lanes memory offset = take lanes (drop offset memory)"

text \<open>The body of the loop over rows: four points at once.\<close>

definition avx2_row :: "Mat4 \<Rightarrow> f64 list \<Rightarrow> f64 list \<Rightarrow> f64 list \<Rightarrow> nat \<Rightarrow> f64 list" where
  "avx2_row m x y z row =
     lanes_add (lanes_add (lanes_add (lanes_mul (set1 4 (m ! (4 * row))) x)
                                     (lanes_mul (set1 4 (m ! (4 * row + 1))) y))
                          (lanes_mul (set1 4 (m ! (4 * row + 2))) z))
               (set1 4 (m ! (4 * row + 3)))"

fun transform_avx2 :: "Vec3d list \<Rightarrow> Mat4 \<Rightarrow> Vec3d list" where
  "transform_avx2 (p0 # p1 # p2 # p3 # rest) m =
     (let x = map vx [p0, p1, p2, p3]; y = map vy [p0, p1, p2, p3]; z = map vz [p0, p1, p2, p3];
          v = map (avx2_row m x y z) [0..<3] in
      map (\<lambda>lane. Vec3 (v!0!lane) (v!1!lane) (v!2!lane)) [0..<4] @ transform_avx2 rest m)"
| "transform_avx2 input m = transform_scalar input m"

definition transform_kernel :: "bool \<Rightarrow> CpuKernel \<Rightarrow> Vec3d list \<Rightarrow> Mat4 \<Rightarrow> Vec3d list" where
  "transform_kernel can_build_avx2 resolved =
     (if can_build_avx2 \<and> resolved = kernel_avx2 then transform_avx2 else transform_scalar)"

subsection \<open>The objective\<close>

record ObjectiveInput =
  oi_point :: Vec3d
  oi_reference :: Vec3d
  oi_normal :: Vec3d
  oi_information :: "f64 list"
  oi_huber_delta :: f64
  oi_plane :: bool
  oi_generalized :: bool

record ObjectiveContribution =
  oc_matrix :: "f64 list"
  oc_gradient :: "f64 list"
  oc_absolute_residual :: f64

text \<open>The template parameter: what differs between the scalar and the vector kernel.\<close>

record Operations =
  op_products :: "Vec3d \<Rightarrow> Vec3d \<Rightarrow> f64 list"
  op_outer_row :: "f64 \<Rightarrow> f64 list \<Rightarrow> f64 list"
  op_matrix_row :: "f64 list \<Rightarrow> f64 list \<Rightarrow> f64 list"

definition subtract3 :: "Vec3d \<Rightarrow> Vec3d \<Rightarrow> Vec3d" where
  "subtract3 a b = Vec3 (vx a - vx b) (vy a - vy b) (vz a - vz b)"

definition huber_weight :: "f64 \<Rightarrow> f64 \<Rightarrow> f64" where
  "huber_weight huber_delta absolute_residual =
     (if absolute_residual \<le> huber_delta then lit 1 else huber_delta / absolute_residual)"

definition plane_jacobian :: "Vec3d \<Rightarrow> Vec3d \<Rightarrow> f64 list" where
  "plane_jacobian p n = [vy p * vz n - vz p * vy n, vz p * vx n - vx p * vz n, vx p * vy n - vy p * vx n,
     vx n, vy n, vz n]"

definition point_jacobian :: "Vec3d \<Rightarrow> f64 list" where
  "point_jacobian p = [0, vz p, - vy p, 1, 0, 0, - vz p, 0, vx p, 0, 1, 0, vy p, - vx p, 0, 0, 0, 1]"

definition weighted_column :: "ObjectiveInput \<Rightarrow> f64 \<Rightarrow> f64 list \<Rightarrow> nat \<Rightarrow> nat \<Rightarrow> f64" where
  "weighted_column input weight jacobian row col =
     (if \<not> oi_generalized input then weight * jacobian ! (6 * col + row)
      else ((weight * jacobian ! row) * oi_information input ! col +
            (weight * jacobian ! (6 + row)) * oi_information input ! (3 + col)) +
           (weight * jacobian ! (12 + row)) * oi_information input ! (6 + col))"

definition objective :: "Operations \<Rightarrow> ObjectiveInput \<Rightarrow> ObjectiveContribution" where
  "objective ops input =
     (let error = subtract3 (oi_point input) (oi_reference input);
          products = op_products ops error (if oi_plane input then oi_normal input else error);
          total = (products!0 + products!1) + products!2;
          residual = (if oi_plane input then total else fp_sqrt total);
          weight = huber_weight (oi_huber_delta input) \<bar>residual\<bar> in
      if oi_plane input
      then let jacobian = plane_jacobian (oi_point input) (oi_normal input) in
        \<lparr>oc_matrix = concat (map (\<lambda>row. op_outer_row ops (weight * jacobian ! row) jacobian) [0..<6]),
         oc_gradient = map (\<lambda>row. (weight * (- residual)) * jacobian ! row) [0..<6],
         oc_absolute_residual = \<bar>residual\<bar>\<rparr>
      else let jacobian = point_jacobian (oi_point input);
               weighted = \<lambda>row. map (weighted_column input weight jacobian row) [0..<3] in
        \<lparr>oc_matrix = concat (map (\<lambda>row. op_matrix_row ops (weighted row) jacobian) [0..<6]),
         oc_gradient = map (\<lambda>row. - ((weighted row ! 0 * vx error + weighted row ! 1 * vy error) +
                                     weighted row ! 2 * vz error)) [0..<6],
         oc_absolute_residual = \<bar>residual\<bar>\<rparr>)"

definition scalar_products :: "Vec3d \<Rightarrow> Vec3d \<Rightarrow> f64 list" where
  "scalar_products l r = [vx l * vx r, vy l * vy r, vz l * vz r]"

definition scalar_outer_row :: "f64 \<Rightarrow> f64 list \<Rightarrow> f64 list" where
  "scalar_outer_row weight jacobian = map (\<lambda>col. weight * jacobian ! col) [0..<6]"

definition scalar_matrix_row :: "f64 list \<Rightarrow> f64 list \<Rightarrow> f64 list" where
  "scalar_matrix_row weight jacobian =
     map (\<lambda>col. (weight!0 * jacobian ! col + weight!1 * jacobian ! (6 + col)) + weight!2 * jacobian ! (12 + col))
       [0..<6]"

definition ScalarOperations :: Operations where
  "ScalarOperations = \<lparr>op_products = scalar_products, op_outer_row = scalar_outer_row,
     op_matrix_row = scalar_matrix_row\<rparr>"

definition avx2_products :: "Vec3d \<Rightarrow> Vec3d \<Rightarrow> f64 list" where
  "avx2_products l r = take 3 (lanes_mul [vx l, vy l, vz l, 0] [vx r, vy r, vz r, 0])"

definition avx2_outer_row :: "f64 \<Rightarrow> f64 list \<Rightarrow> f64 list" where
  "avx2_outer_row weight jacobian =
     lanes_mul (set1 4 weight) (loadu 4 jacobian 0) @ lanes_mul (set1 2 weight) (loadu 2 jacobian 4)"

text \<open>\<open>matrix_row\<close>: the same sum of products on four lanes and on the remaining two.\<close>

definition avx2_row_part :: "nat \<Rightarrow> f64 list \<Rightarrow> f64 list \<Rightarrow> nat \<Rightarrow> f64 list" where
  "avx2_row_part lanes weight jacobian offset =
     lanes_add (lanes_add (lanes_mul (set1 lanes (weight!0)) (loadu lanes jacobian offset))
                          (lanes_mul (set1 lanes (weight!1)) (loadu lanes jacobian (offset + 6))))
               (lanes_mul (set1 lanes (weight!2)) (loadu lanes jacobian (offset + 12)))"

definition avx2_matrix_row :: "f64 list \<Rightarrow> f64 list \<Rightarrow> f64 list" where
  "avx2_matrix_row weight jacobian = avx2_row_part 4 weight jacobian 0 @ avx2_row_part 2 weight jacobian 4"

definition AvxOperations :: Operations where
  "AvxOperations = \<lparr>op_products = avx2_products, op_outer_row = avx2_outer_row, op_matrix_row = avx2_matrix_row\<rparr>"

definition objective_scalar :: "ObjectiveInput \<Rightarrow> ObjectiveContribution" where
  "objective_scalar = objective ScalarOperations"

definition objective_avx2 :: "ObjectiveInput \<Rightarrow> ObjectiveContribution" where
  "objective_avx2 = objective AvxOperations"

definition objective_kernel :: "bool \<Rightarrow> CpuKernel \<Rightarrow> ObjectiveInput \<Rightarrow> ObjectiveContribution" where
  "objective_kernel can_build_avx2 resolved =
     (if can_build_avx2 \<and> resolved = kernel_avx2 then objective_avx2 else objective_scalar)"

subsection \<open>Equivalence\<close>

lemma jacobian_sizes [simp]: "length (plane_jacobian p n) = 6" "length (point_jacobian p) = 18"
  by (simp_all add: plane_jacobian_def point_jacobian_def)

text \<open>
  The contract of the template parameter: on the arrays the objective passes, its three operations
  are the plain ones.
\<close>

locale lane_operations =
  fixes ops :: Operations
  assumes products: "op_products ops l r = scalar_products l r"
    and outer_row: "length jacobian = 6 \<Longrightarrow> op_outer_row ops w jacobian = scalar_outer_row w jacobian"
    and matrix_row: "length jacobian = 18 \<Longrightarrow> op_matrix_row ops weight jacobian = scalar_matrix_row weight jacobian"
begin

lemma objective_eq: "objective ops input = objective_scalar input"
  by (simp add: objective_scalar_def objective_def Let_def products outer_row matrix_row
      ScalarOperations_def)

lemma matrix_size: "length (oc_matrix (objective ops input)) = 36"
  by (simp add: objective_def Let_def outer_row matrix_row scalar_outer_row_def scalar_matrix_row_def
      length_concat comp_def sum_list_triv)

end

lemma avx2_outer_row_eq: "length jacobian = 6 \<Longrightarrow> avx2_outer_row w jacobian = scalar_outer_row w jacobian"
  by (rule nth_equalityI)
     (auto simp: avx2_outer_row_def scalar_outer_row_def lanes_mul_def loadu_def set1_def nth_append)

lemma avx2_matrix_row_eq:
  "length jacobian = 18 \<Longrightarrow> avx2_matrix_row weight jacobian = scalar_matrix_row weight jacobian"
  by (rule nth_equalityI)
     (auto simp: avx2_matrix_row_def avx2_row_part_def scalar_matrix_row_def lanes_mul_def lanes_add_def
       loadu_def set1_def nth_append)

interpretation scalar_lanes: lane_operations ScalarOperations
  by unfold_locales (simp_all add: ScalarOperations_def)

interpretation avx2_lanes: lane_operations AvxOperations
  by unfold_locales
     (simp_all add: AvxOperations_def avx2_products_def scalar_products_def lanes_mul_def avx2_outer_row_eq
       avx2_matrix_row_eq)

lemma avx2_block:
  "map (\<lambda>lane. Vec3 (map (avx2_row m (map vx [p0, p1, p2, p3]) (map vy [p0, p1, p2, p3]) (map vz [p0, p1, p2, p3])) [0..<3] ! 0 ! lane)
     (map (avx2_row m (map vx [p0, p1, p2, p3]) (map vy [p0, p1, p2, p3]) (map vz [p0, p1, p2, p3])) [0..<3] ! 1 ! lane)
     (map (avx2_row m (map vx [p0, p1, p2, p3]) (map vy [p0, p1, p2, p3]) (map vz [p0, p1, p2, p3])) [0..<3] ! 2 ! lane)) [0..<4]
   = map (transform_point m) [p0, p1, p2, p3]"
  by (simp add: avx2_row_def lanes_add_def lanes_mul_def set1_def transform_point_def upt_rec numeral_eq_Suc)

lemma transform_avx2_eq: "transform_avx2 input m = transform_scalar input m"
proof (induction input m rule: transform_avx2.induct)
  case (1 p0 p1 p2 p3 rest m)
  then show ?case unfolding transform_avx2.simps Let_def avx2_block by (simp add: transform_scalar_def)
qed simp_all

text \<open>
  C14. The vector kernels compute what the scalar ones do: whatever kernel was resolved, every
  transformed point, matrix entry, gradient entry and residual is the same floating-point value.
\<close>
theorem kernels_equivalent:
  "transform_kernel can_build resolved = transform_scalar \<and>
   objective_kernel can_build resolved = objective_scalar"
  by (auto simp: transform_kernel_def objective_kernel_def fun_eq_iff transform_avx2_eq objective_avx2_def
      avx2_lanes.objective_eq)

end
