(* ===== verification/Normalization.thy ===== *)
theory Normalization
  imports Surface
begin

text \<open>
  \<open>include/pointcloud_ad/normalization.hpp\<close>: conversion of a surface to millimetres and,
  optionally, into another frame. The loop overwrites the copied point and normal arrays in
  place; the lemmas show that it is a point-wise map over the logical indices.
\<close>

definition normalization_error :: "string \<Rightarrow> string \<Rightarrow> Error" where
  "normalization_error = field_error invalid_input stage_normalize ''surface normalization failed''"

definition rotate_vector :: "RigidTransform \<Rightarrow> Vec3f \<Rightarrow> Vec3d" where
  "rotate_vector t v = (let m = rt_matrix t in Vec3
     (m!0 * widen (vx v) + m!1 * widen (vy v) + m!2 * widen (vz v))
     (m!4 * widen (vx v) + m!5 * widen (vy v) + m!6 * widen (vz v))
     (m!8 * widen (vx v) + m!9 * widen (vy v) + m!10 * widen (vz v)))"

text \<open>\<open>std::numeric_limits<float>::max()\<close> as a double: (2 - 2^-23) * 2^127.\<close>

definition float_maximum :: f64 where
  "float_maximum = Num 340282346638528859811704183484516925440"

definition fits_float :: "Vec3d \<Rightarrow> bool" where
  "fits_float v \<longleftrightarrow> isfinite (vx v) \<and> isfinite (vy v) \<and> isfinite (vz v) \<and>
     \<bar>vx v\<bar> \<le> float_maximum \<and> \<bar>vy v\<bar> \<le> float_maximum \<and> \<bar>vz v\<bar> \<le> float_maximum"

definition normalized_point :: "f64 \<Rightarrow> RigidTransform option \<Rightarrow> Vec3f \<Rightarrow> Vec3d" where
  "normalized_point scale transform source =
     (let scaled = Vec3 (widen (vx source) * scale) (widen (vy source) * scale) (widen (vz source) * scale) in
      case transform of None \<Rightarrow> scaled | Some t \<Rightarrow> RigidTransform_apply t scaled)"

definition normalized_normal :: "RigidTransform option \<Rightarrow> Vec3f \<Rightarrow> Vec3d" where
  "normalized_normal transform n = (case transform of None \<Rightarrow> widen3 n | Some t \<Rightarrow> rotate_vector t n)"

text \<open>The lambda \<open>normalize_index\<close>; the state is the pair of arrays it overwrites.\<close>

definition normalize_index ::
  "f64 \<Rightarrow> RigidTransform option \<Rightarrow> u8 list \<Rightarrow> Vec3f list \<times> Vec3f list \<Rightarrow> nat \<Rightarrow>
     (Vec3f list \<times> Vec3f list) Result" where
  "normalize_index scale transform valid state index =
     (let (points, normals) = state;
          sample_is_valid = (valid = [] \<or> valid ! index = 1);
          normalized = normalized_point scale transform (points ! index) in
      if sample_is_valid \<and> \<not> fits_float normalized
      then Inl (normalization_error ''points'' ''normalized valid point is not representable as Vec3f'')
      else let points = points[index := narrow3 normalized] in
        if normals = [] then Inr (points, normals)
        else let normal = normalized_normal transform (normals ! index) in
          if sample_is_valid \<and> \<not> fits_float normal
          then Inl (normalization_error ''normals'' ''normalized valid normal is not representable'')
          else Inr (points, normals[index := narrow3 normal]))"

definition normalize_surface ::
  "Surface \<Rightarrow> FrameId \<Rightarrow> RigidTransform option \<Rightarrow> Surface Result" where
  "normalize_surface s target_frame transform =
     rbind (millimeters_per_unit (sv_unit s)) (\<lambda>scale.
     require (\<not> (sv_frame s \<noteq> target_frame \<and> transform = None))
       (normalization_error ''transform'' ''is required when source and target frames differ'') (
     require (\<not> (case transform of None \<Rightarrow> False
                 | Some t \<Rightarrow> rt_source_frame t \<noteq> sv_frame s \<or> rt_target_frame t \<noteq> target_frame))
       (normalization_error ''transform'' ''frame direction must match surface -> target'') (
     rbind (foldM (normalize_index scale transform (sv_valid s)) (logical_indices s)
              (sv_points s, sv_normals s)) (\<lambda>(points, normals).
     Surface_create points normals (sv_valid s) (sv_grid s) millimeter target_frame))))"

subsection \<open>The loop is a point-wise map\<close>

definition sample_fits :: "f64 \<Rightarrow> RigidTransform option \<Rightarrow> Surface \<Rightarrow> nat \<Rightarrow> bool" where
  "sample_fits scale transform s i \<longleftrightarrow> (sv_valid s = [] \<or> sv_valid s ! i = 1 \<longrightarrow>
     fits_float (normalized_point scale transform (sv_points s ! i)) \<and>
     (sv_normals s \<noteq> [] \<longrightarrow> fits_float (normalized_normal transform (sv_normals s ! i))))"

lemma normalize_loop_iff:
  assumes "distinct js"
  shows "foldM (normalize_index scale T valid) js (P, N) = Inr (P', N') \<longleftrightarrow>
    (\<forall>i \<in> set js. valid = [] \<or> valid ! i = 1 \<longrightarrow>
       fits_float (normalized_point scale T (P ! i)) \<and>
       (N \<noteq> [] \<longrightarrow> fits_float (normalized_normal T (N ! i)))) \<and>
    P' = write_each (\<lambda>i. narrow3 (normalized_point scale T (P ! i))) js P \<and>
    N' = write_each (\<lambda>i. narrow3 (normalized_normal T (N ! i))) js N"
  using assms
proof (induction js arbitrary: P N)
  case Nil
  then show ?case by (auto simp: write_each_def)
next
  case (Cons i js)
  let ?g = "\<lambda>P i. narrow3 (normalized_point scale T (P ! i))"
  let ?h = "\<lambda>N i. narrow3 (normalized_normal T (N ! i))"
  let ?P = "P[i := ?g P i]" and ?N = "N[i := ?h N i]"
  have i: "i \<notin> set js" and d: "distinct js" using Cons.prems by auto
  have other: "?P ! j = P ! j" "?N ! j = N ! j" if "j \<in> set js" for j
    using that i by (metis nth_list_update_neq)+
  have P: "write_each (?g ?P) js ?P = write_each (?g P) (i # js) P"
    unfolding write_each_Cons by (rule write_each_cong) (simp add: other)
  have N: "write_each (?h ?N) js ?N = write_each (?h N) (i # js) N"
    unfolding write_each_Cons by (rule write_each_cong) (simp add: other)
  note IH = Cons.IH [OF d, of ?P ?N] Cons.IH [OF d, of ?P "[]"]
  show ?case
    unfolding foldM.simps rbind_Inr_iff P [symmetric] N [symmetric]
    by (auto simp: normalize_index_def Let_def IH other split: if_splits)
qed

text \<open>What normalization returns for a well-formed surface.\<close>

definition normalized_surface :: "f64 \<Rightarrow> RigidTransform option \<Rightarrow> FrameId \<Rightarrow> Surface \<Rightarrow> Surface" where
  "normalized_surface scale transform frame s = s\<lparr>
     sv_points := write_each (\<lambda>i. narrow3 (normalized_point scale transform (sv_points s ! i)))
       (logical_indices s) (sv_points s),
     sv_normals := write_each (\<lambda>i. narrow3 (normalized_normal transform (sv_normals s ! i)))
       (logical_indices s) (sv_normals s),
     sv_unit := millimeter, sv_frame := frame\<rparr>"

lemma to_grid_le_bound:
  assumes "\<bar>q\<bar> \<le> b" "to_grid TYPE('f::len) b = b"
  shows "\<bar>to_grid TYPE('f) q\<bar> \<le> b"
proof -
  have "to_grid TYPE('f) q \<le> to_grid TYPE('f) b" "to_grid TYPE('f) (- b) \<le> to_grid TYPE('f) q"
    using assms(1) by (auto intro!: to_grid_mono)
  then show ?thesis using assms(2) by (simp add: to_grid_minus abs_le_iff)
qed

lemma float_maximum_kept: "to_grid TYPE(32) 340282346638528859811704183484516925440 = 340282346638528859811704183484516925440"
  by (rule to_grid_exact [of _ 16777215 104])
     (simp_all add: precision_def emin_def emax_def)

lemma fits_float_narrow: "fits_float v \<Longrightarrow> is_finite3 (narrow3 v)"
proof -
  have "isfinite (narrow x)" if x: "isfinite x" "\<bar>x\<bar> \<le> float_maximum" for x
    using x(1)
  proof (cases rule: isfinite_cases)
    case (Num q)
    have "\<bar>q\<bar> \<le> 340282346638528859811704183484516925440"
      using x(2) unfolding Num float_maximum_def
      by (auto simp: abs_fp_def less_eq_fp_def fp_le_def split: if_splits)
    from to_grid_le_bound [OF this float_maximum_kept]
    have "\<bar>to_grid TYPE(32) q\<bar> < 2 powi (emax TYPE(32) + 1)" by (simp add: emax_def)
    then show ?thesis by (simp add: Num rnd_def isfinite_round_fp)
  qed simp
  then show "fits_float v \<Longrightarrow> is_finite3 (narrow3 v)" by (simp add: fits_float_def is_finite3_def)
qed

lemma narrow_fits_float:
  assumes "fits_float v"
  shows "fits_float (widen3 (narrow3 v))"
proof -
  have "\<bar>widen (narrow x)\<bar> \<le> float_maximum" if x: "isfinite x" "\<bar>x\<bar> \<le> float_maximum" for x
    using x(1)
  proof (cases rule: isfinite_cases)
    case NegZero
    then show ?thesis by (simp add: float_maximum_def fp_eval)
  next
    case (Num q)
    have "\<bar>q\<bar> \<le> 340282346638528859811704183484516925440"
      using x(2) unfolding Num float_maximum_def
      by (auto simp: abs_fp_def less_eq_fp_def fp_le_def split: if_splits)
    from to_grid_le_bound [OF this float_maximum_kept]
    have "\<bar>to_grid TYPE(32) q\<bar> \<le> 340282346638528859811704183484516925440" .
    moreover from this have "isfinite (rnd q :: f32)"
      by (simp add: rnd_def isfinite_round_fp emax_def)
    ultimately have "isfinite (widen (narrow x))"
        "\<bar>val (widen (narrow x))\<bar> \<le> 340282346638528859811704183484516925440"
      by (auto simp: Num val_rnd)
    then show ?thesis
      unfolding float_maximum_def
      by (auto simp: abs_fp_def less_eq_fp_def fp_le_def elim!: isfinite_cases)
  qed
  then show ?thesis
    using assms fits_float_narrow [OF assms] by (simp add: fits_float_def is_finite3_def)
qed

lemma normalized_point_unit: "in_format3 p \<Longrightarrow> normalized_point (lit 1) None p = widen3 p"
proof -
  have "lit 1 = (1 :: f64)" by (simp add: lit_def one_fp_def)
  then show "in_format3 p \<Longrightarrow> normalized_point (lit 1) None p = widen3 p"
    by (simp add: normalized_point_def in_format3_def widen3_def times_one_right in_format_widen)
qed

subsection \<open>The result\<close>

lemma normalized_surface_simps [simp]:
  "length (sv_points (normalized_surface c T f s)) = length (sv_points s)"
  "sv_normals (normalized_surface c T f s) = [] \<longleftrightarrow> sv_normals s = []"
  "length (sv_normals (normalized_surface c T f s)) = length (sv_normals s)"
  "sv_valid (normalized_surface c T f s) = sv_valid s" "sv_grid (normalized_surface c T f s) = sv_grid s"
  "sv_unit (normalized_surface c T f s) = millimeter" "sv_frame (normalized_surface c T f s) = f"
  "sv_size (normalized_surface c T f s) = sv_size s"
  "logical_indices (normalized_surface c T f s) = logical_indices s"
  by (simp_all add: normalized_surface_def logical_indices_def storage_size_def)

lemma normalized_surface_nth:
  assumes "surface_ok s" "i \<in> set (logical_indices s)"
  shows "sv_points (normalized_surface c T f s) ! i = narrow3 (normalized_point c T (sv_points s ! i))"
    and "sv_normals s \<noteq> [] \<Longrightarrow>
      sv_normals (normalized_surface c T f s) ! i = narrow3 (normalized_normal T (sv_normals s ! i))"
  using assms surface_walk.written_slot [OF assms(1) _ assms(2), of "sv_points s"]
    surface_walk.written_slot [OF assms(1) _ assms(2), of "sv_normals s"]
  by (auto simp: normalized_surface_def storage_size_def surface_ok_def surface_data_ok_def)

lemma normalized_surface_ok:
  assumes s: "surface_ok s" and fits: "\<forall>i \<in> set (logical_indices s). sample_fits c T s i"
  shows "surface_ok (normalized_surface c T f s)"
proof -
  let ?r = "normalized_surface c T f s"
  have "point_ok (sv_points ?r) (sv_normals ?r) (sv_valid ?r) i" if i: "i \<in> set (logical_indices s)" for i
  proof -
    have "point_ok (sv_points s) (sv_normals s) (sv_valid s) i"
      using s i by (auto simp: surface_ok_def surface_data_ok_def list_all_iff logical_indices_def storage_size_def)
    then show ?thesis
      using fits i by (auto simp: point_ok_def normalized_surface_nth [OF s i] sample_fits_def fits_float_narrow)
  qed
  then show ?thesis
    using s by (auto simp: surface_ok_def surface_data_ok_def list_all_iff logical_indices_def
        storage_size_def normalized_surface_def)
qed

definition frames_agree :: "Surface \<Rightarrow> FrameId \<Rightarrow> RigidTransform option \<Rightarrow> bool" where
  "frames_agree s frame transform \<longleftrightarrow> (case transform of None \<Rightarrow> sv_frame s = frame
     | Some t \<Rightarrow> rt_source_frame t = sv_frame s \<and> rt_target_frame t = frame)"

lemma normalize_surface_Inr_iff:
  assumes s: "surface_ok s"
  shows "normalize_surface s f T = Inr r \<longleftrightarrow>
    (\<exists>c. millimeters_per_unit (sv_unit s) = Inr c \<and> frames_agree s f T \<and>
         (\<forall>i \<in> set (logical_indices s). sample_fits c T s i) \<and> r = normalized_surface c T f s)"
proof -
  have loop: "foldM (normalize_index c T (sv_valid s)) (logical_indices s) (sv_points s, sv_normals s) =
        Inr (P, N) \<longleftrightarrow> (\<forall>i \<in> set (logical_indices s). sample_fits c T s i) \<and>
        P = sv_points (normalized_surface c T f s) \<and> N = sv_normals (normalized_surface c T f s)" for c P N
    using normalize_loop_iff [OF surface_walk.indices_distinct [OF s]]
    by (simp add: sample_fits_def normalized_surface_def)
  have create: "Surface_create (sv_points (normalized_surface c T f s)) (sv_normals (normalized_surface c T f s))
        (sv_valid s) (sv_grid s) millimeter f = Inr r \<longleftrightarrow> r = normalized_surface c T f s"
    if fits: "\<forall>i \<in> set (logical_indices s). sample_fits c T s i" for c
  proof -
    have ok: "surface_ok (normalized_surface c T f s)" by (rule normalized_surface_ok [OF s fits])
    note sizes = surface_ok_sizes [OF ok]
    have "validate_surface_data (sv_points (normalized_surface c T f s)) (sv_normals (normalized_surface c T f s))
        (sv_valid s) (sv_grid s) = Inr (sv_size s)"
      using validate_surface_data_Inr_iff [OF sizes, of "sv_grid s"] ok
      by (simp add: surface_ok_def logical_indices_def storage_size_def)
    then show ?thesis by (auto simp: Surface_create_def normalized_surface_def)
  qed
  show ?thesis
    unfolding normalize_surface_def rbind_Inr_iff require_Inr_iff frames_agree_def
    using create by (auto simp: loop split: option.splits)
qed


text \<open>
  Coordinates are converted exactly once: a normalized surface is a fixed point of
  normalization in its own frame, bit for bit (including padding and masked-out samples).
\<close>
theorem normalize_surface_idempotent:
  assumes "surface_ok s" "normalize_surface s f T = Inr r"
  shows "surface_ok r \<and> normalize_surface r f None = Inr r"
proof -
  obtain c where fits: "\<forall>i \<in> set (logical_indices s). sample_fits c T s i"
    and r: "r = normalized_surface c T f s"
    using assms normalize_surface_Inr_iff by blast
  have ok: "surface_ok r" unfolding r by (rule normalized_surface_ok [OF assms(1) fits])
  note pts = normalized_surface_nth [OF assms(1), of _ c T f, folded r]
  have idx: "logical_indices r = logical_indices s" by (simp add: r)
  have p: "narrow3 (normalized_point (lit 1) None (sv_points r ! i)) = sv_points r ! i"
    and n: "sv_normals s \<noteq> [] \<Longrightarrow> narrow3 (normalized_normal None (sv_normals r ! i)) = sv_normals r ! i"
    if "i \<in> set (logical_indices s)" for i
    using pts [OF that]
    by (auto simp: normalized_point_unit narrow3_widen3 normalized_normal_def)
  have fits': "\<forall>i \<in> set (logical_indices r). sample_fits (lit 1) None r i"
  proof
    fix i assume "i \<in> set (logical_indices r)"
    then have i: "i \<in> set (logical_indices s)" by (simp add: idx)
    show "sample_fits (lit 1) None r i"
      using bspec [OF fits i] pts [OF i]
      by (auto simp: sample_fits_def r normalized_point_unit normalized_normal_def narrow_fits_float)
  qed
  have same: "write_each g js xs = xs" if "\<And>i. i \<in> set js \<Longrightarrow> g i = xs ! i" for g js and xs :: "Vec3f list"
    using that by (intro nth_equalityI) (auto simp: nth_write_each)
  have "sv_points (normalized_surface (lit 1) None f r) = sv_points r"
    unfolding normalized_surface_def using p by (simp add: idx same)
  moreover have "sv_normals (normalized_surface (lit 1) None f r) = sv_normals r"
  proof (cases "sv_normals s = []")
    case True
    then have "sv_normals r = []" by (simp add: r)
    then show ?thesis by (metis normalized_surface_simps(2))
  next
    case False
    then show ?thesis unfolding normalized_surface_def using n by (simp add: idx same)
  qed
  ultimately have "normalized_surface (lit 1) None f r = r"
    by (simp add: normalized_surface_def r)
  moreover have "millimeters_per_unit (sv_unit r) = Inr (lit 1)" "frames_agree r f None"
    by (simp_all add: r millimeters_per_unit_def frames_agree_def)
  ultimately show ?thesis using ok fits' normalize_surface_Inr_iff [OF ok] by auto
qed

definition sample_surface :: Surface where
  "sample_surface = \<lparr>sv_points = [Vec3 1 0 0, Vec3 0 (Num (1/2)) 1], sv_normals = [], sv_valid = [1, 1],
     sv_grid = None, sv_unit = meter, sv_frame = ''scan'', sv_size = 2\<rparr>"

lemma sample_surface_ok: "surface_ok sample_surface"
  by code_simp

lemma sample_normalized: "is_ok (normalize_surface sample_surface ''scan'' None)"
  by code_simp


theorem normalize_surface_idempotent_witness:
  "normalize_surface (projr (normalize_surface sample_surface ''scan'' None)) ''scan'' None =
     normalize_surface sample_surface ''scan'' None"
proof -
  obtain r where r: "normalize_surface sample_surface ''scan'' None = Inr r"
    using sample_normalized by (auto simp: is_ok_iff)
  then show ?thesis using normalize_surface_idempotent [OF sample_surface_ok r] by simp
qed

end
