(* ===== verification/Preprocess.thy ===== *)
theory Preprocess
  imports Normalization
begin

text \<open>
  The preprocessing stage: the validity mask (\<open>preprocess/validity.cpp\<close>), normal estimation and
  boundary detection (\<open>preprocess/normal_boundary.cpp\<close> and
  \<open>backends/pcl/pcl_preprocess_backend.cpp\<close>). The k-d tree radius search, the plane fit and
  \<open>atan2\<close> come from libraries and are parameters. The blocks a \<open>CpuExecutor\<close> distributes are
  listed in order: theory \<open>CpuExecutor\<close> shows every schedule runs each of them once.
\<close>

subsection \<open>Shared helpers of the stages\<close>

text \<open>\<open>valid_at\<close>, \<open>input_valid\<close>\<close>

definition valid_at :: "Surface \<Rightarrow> nat \<Rightarrow> bool" where
  "valid_at s i \<longleftrightarrow> sv_valid s = [] \<or> sv_valid s ! i = 1"

text \<open>The sum of products of two float vectors in double precision, and the length.\<close>

definition dot3 :: "Vec3f \<Rightarrow> Vec3f \<Rightarrow> f64" where
  "dot3 l r = widen (vx l) * widen (vx r) + widen (vy l) * widen (vy r) + widen (vz l) * widen (vz r)"

definition vector_length :: "Vec3f \<Rightarrow> f64" where
  "vector_length v = fp_sqrt (dot3 v v)"

definition sub3 :: "Vec3f \<Rightarrow> Vec3f \<Rightarrow> Vec3f" where
  "sub3 a b = Vec3 (vx a - vx b) (vy a - vy b) (vz a - vz b)"

definition negate :: "Vec3f \<Rightarrow> Vec3f" where
  "negate v = Vec3 (- vx v) (- vy v) (- vz v)"

definition normalized :: "Vec3f \<Rightarrow> Vec3f" where
  "normalized v = (let magnitude = vector_length v in
     if \<not> 0 < magnitude \<or> \<not> isfinite magnitude then Vec3f_zero
     else Vec3 (narrow (widen (vx v) / magnitude)) (narrow (widen (vy v) / magnitude))
            (narrow (widen (vz v) / magnitude)))"

definition cross :: "Vec3f \<Rightarrow> Vec3f \<Rightarrow> Vec3f" where
  "cross l r = Vec3 (vy l * vz r - vz l * vy r) (vz l * vx r - vx l * vz r) (vx l * vy r - vy l * vx r)"

text \<open>
  \<open>std::sort\<close> on doubles; the comparison is a strict weak order on values that are not NaN, which
  is what the callers supply.
\<close>

fun fp_insort :: "f64 \<Rightarrow> f64 list \<Rightarrow> f64 list" where
  "fp_insort x [] = [x]"
| "fp_insort x (y # ys) = (if y < x then y # fp_insort x ys else x # y # ys)"

definition fp_sort :: "f64 list \<Rightarrow> f64 list" where
  "fp_sort xs = foldr fp_insort xs []"

subsection \<open>validity.cpp\<close>

record AxisAlignedRoi =
  roi_minimum :: Vec3f
  roi_maximum :: Vec3f

datatype InvalidReason =
    ir_none | ir_input_masked | ir_non_finite_point | ir_non_finite_normal | ir_outside_roi | ir_row_padding

record ValidityMaskResult =
  vm_surface :: Surface
  vm_reasons :: "InvalidReason list"
  vm_valid_count :: nat

definition validity_error :: "ErrorCode \<Rightarrow> string \<Rightarrow> string \<Rightarrow> Error" where
  "validity_error code = field_error code stage_preprocess ''validity preprocessing failed''"

definition valid_roi :: "AxisAlignedRoi \<Rightarrow> bool" where
  "valid_roi roi \<longleftrightarrow> is_finite3 (roi_minimum roi) \<and> is_finite3 (roi_maximum roi) \<and>
     vx (roi_minimum roi) \<le> vx (roi_maximum roi) \<and> vy (roi_minimum roi) \<le> vy (roi_maximum roi) \<and>
     vz (roi_minimum roi) \<le> vz (roi_maximum roi)"

definition inside_roi :: "AxisAlignedRoi \<Rightarrow> Vec3f \<Rightarrow> bool" where
  "inside_roi roi p \<longleftrightarrow>
     vx (roi_minimum roi) \<le> vx p \<and> vx p \<le> vx (roi_maximum roi) \<and>
     vy (roi_minimum roi) \<le> vy p \<and> vy p \<le> vy (roi_maximum roi) \<and>
     vz (roi_minimum roi) \<le> vz p \<and> vz p \<le> vz (roi_maximum roi)"

text \<open>The lambda \<open>classify\<close>: the reason, and the update of the mask, the reasons and the count.\<close>

definition classify_reason :: "Surface \<Rightarrow> AxisAlignedRoi option \<Rightarrow> nat \<Rightarrow> InvalidReason" where
  "classify_reason s roi index =
     (let point = sv_points s ! index in
      if \<not> is_finite3 point then ir_non_finite_point
      else if sv_normals s \<noteq> [] \<and> \<not> is_finite3 (sv_normals s ! index) then ir_non_finite_normal
      else if \<not> valid_at s index then ir_input_masked
      else if (case roi of None \<Rightarrow> False | Some r \<Rightarrow> \<not> inside_roi r point) then ir_outside_roi
      else ir_none)"

definition classify ::
  "Surface \<Rightarrow> AxisAlignedRoi option \<Rightarrow> nat \<Rightarrow> u8 list \<times> InvalidReason list \<times> nat \<Rightarrow>
     u8 list \<times> InvalidReason list \<times> nat" where
  "classify s roi index state =
     (let (mask, reasons, valid_count) = state; reason = classify_reason s roi index;
          reasons = reasons[index := reason] in
      if reason = ir_none then (mask[index := 1], reasons, valid_count + 1)
      else (mask, reasons, valid_count))"

definition apply_validity_mask :: "Surface \<Rightarrow> AxisAlignedRoi option \<Rightarrow> ValidityMaskResult Result" where
  "apply_validity_mask s roi =
     require (sv_unit s = millimeter)
       (validity_error invalid_input ''surface.unit'' ''must be normalized to millimetres'') (
     require (case roi of None \<Rightarrow> True | Some r \<Rightarrow> valid_roi r)
       (validity_error invalid_argument ''roi'' ''bounds must be finite and minimum <= maximum'') (
     (let (mask, reasons, valid_count) =
        fold (classify s roi) (logical_indices s)
          (replicate (storage_size s) 0, replicate (storage_size s) ir_row_padding, 0) in
      rbind (Surface_create (sv_points s) (sv_normals s) mask (sv_grid s) (sv_unit s) (sv_frame s))
        (\<lambda>owned. Inr \<lparr>vm_surface = owned, vm_reasons = reasons, vm_valid_count = valid_count\<rparr>))))"

subsection \<open>pcl_preprocess_backend.cpp\<close>

type_synonym radius_search = "Vec3f list \<Rightarrow> nat \<Rightarrow> f64 \<Rightarrow> int list"
type_synonym plane_fit = "Vec3f list \<Rightarrow> int list \<Rightarrow> Vec3f option"
type_synonym arctan2 = "f64 \<Rightarrow> f64 \<Rightarrow> f64"

definition feature_error :: "string \<Rightarrow> string \<Rightarrow> Error" where
  "feature_error operation reason =
     \<lparr>err_code = internal_error, err_stage = stage_preprocess, err_message = ''PCL preprocessing failed'',
      err_context = [(''operation'', operation), (''reason'', reason)]\<rparr>"

text \<open>The storage index of every cloud point; the cloud itself is the list of those points.\<close>

definition cloud_mapping :: "Surface \<Rightarrow> nat list" where
  "cloud_mapping s = filter (\<lambda>i. \<not> (sv_valid s \<noteq> [] \<and> sv_valid s ! i = 0)) (logical_indices s)"

definition mapped_cloud :: "Surface \<Rightarrow> Vec3f list" where
  "mapped_cloud s = map (\<lambda>i. sv_points s ! i) (cloud_mapping s)"

text \<open>The constructor of \<open>CpuExecutor\<close> refuses a zero thread budget.\<close>

definition with_executor :: "u32 \<Rightarrow> (string \<Rightarrow> Error) \<Rightarrow> 'a \<Rightarrow> 'a Result" where
  "with_executor budget caught result =
     (if budget = 0 then Inl (caught ''thread budget must be positive'') else Inr result)"

definition estimate_normal ::
  "radius_search \<Rightarrow> plane_fit \<Rightarrow> f64 \<Rightarrow> u32 \<Rightarrow> Vec3f list \<Rightarrow> nat \<Rightarrow> Vec3f option" where
  "estimate_normal search fit radius minimum_neighbors cloud cloud_index =
     (let neighbors = sort (search cloud cloud_index radius) in
      if length neighbors < unat minimum_neighbors \<or> length neighbors < 3 then None
      else case fit cloud neighbors of None \<Rightarrow> None
        | Some plane \<Rightarrow> let normal = normalized plane in
            if feq (vx normal) 0 \<and> feq (vy normal) 0 \<and> feq (vz normal) 0 then None else Some normal)"

definition store_normal ::
  "radius_search \<Rightarrow> plane_fit \<Rightarrow> f64 \<Rightarrow> u32 \<Rightarrow> Vec3f list \<Rightarrow> nat list \<Rightarrow> nat \<Rightarrow>
     Vec3f list \<times> u8 list \<Rightarrow> Vec3f list \<times> u8 list" where
  "store_normal search fit radius minimum_neighbors cloud mapping cloud_index state =
     (case estimate_normal search fit radius minimum_neighbors cloud cloud_index of
        None \<Rightarrow> state
      | Some normal \<Rightarrow> let (normals, valid) = state; storage_index = mapping ! cloud_index in
          (normals[storage_index := normal], valid[storage_index := 1]))"

definition estimate_normals ::
  "radius_search \<Rightarrow> plane_fit \<Rightarrow> Surface \<Rightarrow> f64 \<Rightarrow> u32 \<Rightarrow> u32 \<Rightarrow> (Vec3f list \<times> u8 list) Result" where
  "estimate_normals search fit s radius minimum_neighbors thread_count =
     (let mapping = cloud_mapping s; cloud = mapped_cloud s;
          result = (replicate (storage_size s) Vec3f_zero, replicate (storage_size s) 0) in
      if cloud = [] then Inr result
      else with_executor thread_count (feature_error ''normal_estimation'')
        (fold (store_normal search fit radius minimum_neighbors cloud mapping) [0..<length cloud] result))"

definition pi_double :: f64 where
  "pi_double = lit (314159265358979323846 / 10 ^ 20)"

text \<open>The axis with the smallest component of the normal.\<close>

definition projection_axis :: "Vec3f \<Rightarrow> Vec3f" where
  "projection_axis n =
     (if \<bar>vx n\<bar> \<le> \<bar>vy n\<bar> \<and> \<bar>vx n\<bar> \<le> \<bar>vz n\<bar> then Vec3 1 0 0
      else if \<bar>vy n\<bar> \<le> \<bar>vz n\<bar> then Vec3 0 1 0 else Vec3 0 0 1)"

definition neighbor_angle ::
  "arctan2 \<Rightarrow> Surface \<Rightarrow> nat list \<Rightarrow> nat \<Rightarrow> Vec3f \<Rightarrow> Vec3f \<Rightarrow> int \<Rightarrow> f64 option" where
  "neighbor_angle atan2 s mapping cloud_index u v neighbor =
     (if neighbor = int cloud_index then None
      else if neighbor < 0 then None
      else if length mapping \<le> nat neighbor then None
      else let origin = sv_points s ! (mapping ! cloud_index);
             delta = sub3 (sv_points s ! (mapping ! nat neighbor)) origin;
             projected_x = dot3 delta u; projected_y = dot3 delta v in
        if lit (1 / 10 ^ 20) < projected_x * projected_x + projected_y * projected_y
        then Some (atan2 projected_y projected_x) else None)"

definition maximum_gap :: "f64 list \<Rightarrow> f64" where
  "maximum_gap angles =
     fold (\<lambda>i gap. std_max gap (angles ! i - angles ! (i - 1))) [1..<length angles]
       (hd angles + lit 2 * pi_double - last angles)"

definition is_boundary_point ::
  "radius_search \<Rightarrow> arctan2 \<Rightarrow> Surface \<Rightarrow> f64 \<Rightarrow> Vec3f list \<Rightarrow> nat list \<Rightarrow> nat \<Rightarrow> bool" where
  "is_boundary_point search atan2 s radius cloud mapping cloud_index =
     (let normal = normalized (sv_normals s ! (mapping ! cloud_index));
          u = normalized (cross normal (projection_axis normal)); v = cross normal u;
          angles = List.map_filter (neighbor_angle atan2 s mapping cloud_index u v)
                     (search cloud cloud_index radius) in
      if length angles < 3 then True
      else pi_double / lit 2 < maximum_gap (fp_sort angles))"

definition detect_unorganized_boundaries ::
  "radius_search \<Rightarrow> arctan2 \<Rightarrow> Surface \<Rightarrow> f64 \<Rightarrow> u32 \<Rightarrow> u8 list Result" where
  "detect_unorganized_boundaries search atan2 s radius thread_count =
     (let mapping = cloud_mapping s; cloud = mapped_cloud s; boundaries = replicate (storage_size s) 0 in
      if cloud = [] then Inr boundaries
      else with_executor thread_count (feature_error ''boundary_detection'')
        (fold (\<lambda>cloud_index bs. bs[mapping ! cloud_index :=
             if is_boundary_point search atan2 s radius cloud mapping cloud_index then 1 else 0])
           [0..<length cloud] boundaries))"

subsection \<open>normal_boundary.cpp\<close>

datatype NormalOrientationMode = unproven | align_direction | toward_viewpoint

record NormalOrientationHint =
  oh_mode :: NormalOrientationMode
  oh_value :: Vec3f

datatype NormalReason = nr_none | nr_input_invalid | nr_normal_missing

record NormalBoundaryResult =
  nb_surface :: Surface
  nb_reasons :: "NormalReason list"
  nb_orientation_valid :: "u8 list"
  nb_boundary :: "u8 list"
  nb_orientation_proven :: bool

definition normal_error :: "ErrorCode \<Rightarrow> string \<Rightarrow> string \<Rightarrow> Error" where
  "normal_error code = field_error code stage_preprocess ''normal and boundary preprocessing failed''"

definition grid_offsets :: "(int \<times> int) list" where
  "grid_offsets = [(-1, 0), (1, 0), (0, -1), (0, 1)]"

text \<open>The body of the offset loop: does this neighbour make the point a boundary point?\<close>

definition edge_at :: "Surface \<Rightarrow> GridTopology \<Rightarrow> f64 \<Rightarrow> nat \<Rightarrow> nat \<Rightarrow> int \<times> int \<Rightarrow> bool" where
  "edge_at s g radius row column offset =
     (let index = row * unat (grid_row_stride g) + column;
          neighbor_row = int row + fst offset; neighbor_column = int column + snd offset in
      if neighbor_row < 0 \<or> neighbor_column < 0 \<or> int (unat (grid_height g)) \<le> neighbor_row \<or>
         int (unat (grid_width g)) \<le> neighbor_column then True
      else let neighbor_index = nat neighbor_row * unat (grid_row_stride g) + nat neighbor_column in
        if \<not> valid_at s neighbor_index then True
        else radius < vector_length (sub3 (sv_points s ! index) (sv_points s ! neighbor_index)))"

definition detect_grid_boundaries :: "Surface \<Rightarrow> GridTopology \<Rightarrow> f64 \<Rightarrow> u8 list" where
  "detect_grid_boundaries s g radius =
     fold (\<lambda>row boundary. fold (\<lambda>column boundary.
         let index = row * unat (grid_row_stride g) + column in
         if \<not> valid_at s index then boundary
         else if list_ex (edge_at s g radius row column) grid_offsets then boundary[index := 1]
         else boundary) [0..<unat (grid_width g)] boundary) [0..<unat (grid_height g)]
       (replicate (storage_size s) 0)"

text \<open>The given normals, normalized; a zero or overflowing one counts as missing.\<close>

definition given_normals :: "Surface \<Rightarrow> Vec3f list \<times> u8 list" where
  "given_normals s = fold (\<lambda>index (normals, valid).
       if \<not> valid_at s index then (normals, valid)
       else let n = normalized (sv_normals s ! index) in
         (normals[index := n], valid[index := if 0 < vector_length n then 1 else 0]))
     (logical_indices s) (replicate (storage_size s) Vec3f_zero, replicate (storage_size s) 0)"

record OrientState =
  os_normals :: "Vec3f list"
  os_mask :: "u8 list"
  os_reasons :: "NormalReason list"
  os_orientation_valid :: "u8 list"
  os_valid_count :: nat
  os_oriented_count :: nat

text \<open>The orientation of one normal and whether a reference direction decides it.\<close>

definition oriented :: "NormalOrientationHint \<Rightarrow> Vec3f \<Rightarrow> Vec3f \<Rightarrow> Vec3f \<times> bool" where
  "oriented hint point n = (case oh_mode hint of
     align_direction \<Rightarrow> (if dot3 n (normalized (oh_value hint)) < 0 then negate n else n, True)
   | toward_viewpoint \<Rightarrow> let toward = sub3 (oh_value hint) point in
       if 0 < vector_length toward then (if dot3 n toward < 0 then negate n else n, True) else (n, False)
   | unproven \<Rightarrow> (n, False))"

definition orient_index ::
  "Surface \<Rightarrow> NormalOrientationHint \<Rightarrow> u8 list \<Rightarrow> nat \<Rightarrow> OrientState \<Rightarrow> OrientState" where
  "orient_index s hint normal_valid index st =
     (if \<not> valid_at s index then st
      else if normal_valid ! index = 0
      then st\<lparr>os_reasons := (os_reasons st)[index := nr_normal_missing]\<rparr>
      else let (n, decided) = oriented hint (sv_points s ! index) (os_normals st ! index) in
        st\<lparr>os_reasons := (os_reasons st)[index := nr_none], os_mask := (os_mask st)[index := 1],
           os_valid_count := os_valid_count st + 1,
           os_normals := (os_normals st)[index := n],
           os_orientation_valid := (if decided then (os_orientation_valid st)[index := 1]
             else os_orientation_valid st),
           os_oriented_count := os_oriented_count st + (if decided then 1 else 0)\<rparr>)"

definition orient_start :: "Surface \<Rightarrow> Vec3f list \<Rightarrow> OrientState" where
  "orient_start s normals = \<lparr>os_normals = normals, os_mask = replicate (storage_size s) 0,
     os_reasons = replicate (storage_size s) nr_input_invalid,
     os_orientation_valid = replicate (storage_size s) 0, os_valid_count = 0, os_oriented_count = 0\<rparr>"

definition prepare_normals_and_boundaries ::
  "radius_search \<Rightarrow> plane_fit \<Rightarrow> arctan2 \<Rightarrow> Surface \<Rightarrow> f64 \<Rightarrow> u32 \<Rightarrow> f64 \<Rightarrow> NormalOrientationHint \<Rightarrow> u32 \<Rightarrow>
     NormalBoundaryResult Result" where
  "prepare_normals_and_boundaries search fit atan2 s normal_radius min_neighbors boundary_radius hint
       thread_count =
     require (thread_count \<noteq> 0) (normal_error invalid_argument ''thread_count'' ''must be positive'') (
     require (sv_unit s = millimeter)
       (normal_error invalid_input ''surface.unit'' ''must be normalized to millimetres'') (
     require (\<not> (\<not> isfinite normal_radius \<or> normal_radius \<le> 0))
       (normal_error invalid_argument ''normal_radius_mm'' ''must be finite and positive'') (
     require (\<not> min_neighbors < 3)
       (normal_error invalid_argument ''normal_min_neighbors'' ''must be at least 3'') (
     require (\<not> (\<not> isfinite boundary_radius \<or> boundary_radius \<le> 0))
       (normal_error invalid_argument ''boundary_radius_mm'' ''must be finite and positive'') (
     require (\<not> (oh_mode hint \<noteq> unproven \<and>
                 (\<not> is_finite3 (oh_value hint) \<or> feq (vector_length (oh_value hint)) 0)))
       (normal_error invalid_argument ''orientation.value'' ''must be finite and non-zero'') (
     rbind (if sv_normals s = []
            then estimate_normals search fit s normal_radius min_neighbors thread_count
            else Inr (given_normals s)) (\<lambda>(normals, normal_valid).
     let st = fold (orient_index s hint normal_valid) (logical_indices s) (orient_start s normals) in
     rbind (Surface_create (sv_points s) (os_normals st) (os_mask st) (sv_grid s) (sv_unit s) (sv_frame s))
       (\<lambda>output.
     rbind (case sv_grid s of Some g \<Rightarrow> Inr (detect_grid_boundaries output g boundary_radius)
       | None \<Rightarrow> detect_unorganized_boundaries search atan2 output boundary_radius thread_count)
       (\<lambda>boundary.
     Inr \<lparr>nb_surface = output, nb_reasons = os_reasons st,
          nb_orientation_valid = os_orientation_valid st, nb_boundary = boundary,
          nb_orientation_proven = (0 < os_valid_count st \<and> os_oriented_count st = os_valid_count st)\<rparr>)))))))))"

subsection \<open>The validity mask\<close>

lemma classify_fold:
  "fold (classify s roi) js (m0, reasons, n) =
     (fold (\<lambda>i m. if classify_reason s roi i = ir_none then m[i := 1] else m) js m0,
      write_each (classify_reason s roi) js reasons,
      n + length (filter (\<lambda>i. classify_reason s roi i = ir_none) js))"
  by (induction js arbitrary: m0 reasons n) (simp_all add: classify_def write_each_def Let_def)

text \<open>Replacing the mask by one that only keeps finite samples yields a surface.\<close>

lemma surface_remask:
  assumes s: "surface_ok s" and len: "length m = storage_size s"
    and bits: "\<And>i. i \<in> set (logical_indices s) \<Longrightarrow> m ! i \<in> {0, 1}"
    and fin: "\<And>i. i \<in> set (logical_indices s) \<Longrightarrow> m ! i = 1 \<Longrightarrow>
        is_finite3 (sv_points s ! i) \<and> (normals \<noteq> [] \<longrightarrow> is_finite3 (normals ! i))"
    and norm: "normals = [] \<or> length normals = storage_size s"
  shows "Surface_create (sv_points s) normals m (sv_grid s) (sv_unit s) (sv_frame s) =
      Inr (s\<lparr>sv_normals := normals, sv_valid := m\<rparr>) \<and>
    surface_ok (s\<lparr>sv_normals := normals, sv_valid := m\<rparr>)"
proof -
  have pts: "sv_points s \<noteq> []" using s by (simp add: surface_ok_def surface_data_ok_def)
  then have mk: "m \<noteq> []" using len by (auto simp: storage_size_def)
  have ok: "surface_data_ok (sv_points s) normals m (sv_grid s)"
    using s len bits fin norm pts mk
    by (auto simp: surface_ok_def surface_data_ok_def point_ok_def list_all_iff logical_indices_def
        storage_size_def)
  note sizes = surface_ok_sizes [OF s]
  have "validate_surface_data (sv_points s) normals m (sv_grid s) = Inr (sv_size s)"
    using sizes(1) len norm ok s
    by (subst validate_surface_data_Inr_iff)
       (auto simp: storage_size_def surface_ok_def logical_indices_def)
  moreover have "surface_ok (s\<lparr>sv_normals := normals, sv_valid := m\<rparr>)"
    using s ok by (simp add: surface_ok_def logical_indices_def storage_size_def)
  ultimately show ?thesis by (simp add: Surface_create_def)
qed

definition masked_by :: "Surface \<Rightarrow> (nat \<Rightarrow> bool) \<Rightarrow> u8 list" where
  "masked_by s P = map (\<lambda>i. if i \<in> set (logical_indices s) \<and> P i then 1 else 0) [0..<storage_size s]"

lemma mark_all:
  "fold (\<lambda>i m. if P i then m[i := 1] else m) (logical_indices s) (replicate (storage_size s) 0) = masked_by s P"
  by (rule nth_equalityI) (auto simp: marked_slots masked_by_def)

lemma apply_validity_mask_eq:
  assumes s: "surface_ok s" and u: "sv_unit s = millimeter"
    and roi: "case roi of None \<Rightarrow> True | Some r \<Rightarrow> valid_roi r"
  defines "keep \<equiv> \<lambda>i. classify_reason s roi i = ir_none"
  shows "apply_validity_mask s roi = Inr \<lparr>vm_surface = s\<lparr>sv_valid := masked_by s keep\<rparr>,
     vm_reasons = write_each (classify_reason s roi) (logical_indices s) (replicate (storage_size s) ir_row_padding),
     vm_valid_count = length (filter keep (logical_indices s))\<rparr> \<and> surface_ok (s\<lparr>sv_valid := masked_by s keep\<rparr>)"
proof -
  have bound: "\<And>i. i \<in> set (logical_indices s) \<Longrightarrow> i < storage_size s"
    by (rule surface_walk.indices_bound [OF s])
  have "Surface_create (sv_points s) (sv_normals s) (masked_by s keep) (sv_grid s) (sv_unit s) (sv_frame s) =
      Inr (s\<lparr>sv_normals := sv_normals s, sv_valid := masked_by s keep\<rparr>) \<and>
    surface_ok (s\<lparr>sv_normals := sv_normals s, sv_valid := masked_by s keep\<rparr>)"
  proof (rule surface_remask [OF s])
    show "sv_normals s = [] \<or> length (sv_normals s) = storage_size s"
      using s by (auto simp: surface_ok_def surface_data_ok_def storage_size_def)
  qed (auto simp: masked_by_def bound keep_def classify_reason_def Let_def split: if_splits)
  then show ?thesis
    using u roi unfolding apply_validity_mask_def classify_fold mark_all keep_def [symmetric]
    by simp
qed


text \<open>The condition for a sample to survive, in the words of the specification.\<close>

definition usable_sample :: "Surface \<Rightarrow> AxisAlignedRoi option \<Rightarrow> nat \<Rightarrow> bool" where
  "usable_sample s roi i \<longleftrightarrow> valid_at s i \<and> is_finite3 (sv_points s ! i) \<and>
     (sv_normals s \<noteq> [] \<longrightarrow> is_finite3 (sv_normals s ! i)) \<and>
     (\<forall>r. roi = Some r \<longrightarrow> inside_roi r (sv_points s ! i))"

lemma classify_reason_none_iff: "classify_reason s roi i = ir_none \<longleftrightarrow> usable_sample s roi i"
  by (auto simp: classify_reason_def usable_sample_def Let_def split: option.splits)


definition sample_mm_surface :: Surface where
  "sample_mm_surface = sample_surface\<lparr>sv_unit := millimeter\<rparr>"


subsection \<open>Boundaries of organised surfaces\<close>

definition edge_index :: "Surface \<Rightarrow> GridTopology \<Rightarrow> f64 \<Rightarrow> nat \<Rightarrow> bool" where
  "edge_index s g radius i \<longleftrightarrow> valid_at s i \<and>
     list_ex (edge_at s g radius (i div unat (grid_row_stride g)) (i mod unat (grid_row_stride g))) grid_offsets"

lemma row_column_of_index:
  assumes "grid_width g \<le> grid_row_stride g" "column < unat (grid_width g)"
  shows "(row * unat (grid_row_stride g) + column) div unat (grid_row_stride g) = row"
    and "(row * unat (grid_row_stride g) + column) mod unat (grid_row_stride g) = column"
    and "column mod unat (grid_row_stride g) = column"
proof -
  have "column < unat (grid_row_stride g)" using assms by (simp add: word_le_nat_alt)
  then show "(row * unat (grid_row_stride g) + column) div unat (grid_row_stride g) = row"
    "(row * unat (grid_row_stride g) + column) mod unat (grid_row_stride g) = column"
    "column mod unat (grid_row_stride g) = column" by simp_all
qed

lemma fold_over_concat: "fold f (concat xss) = fold (fold f) xss"
  by (induction xss) simp_all

lemma detect_grid_boundaries_marks:
  assumes "grid_width g \<le> grid_row_stride g"
  shows "detect_grid_boundaries s g radius =
    fold (\<lambda>i b. if edge_index s g radius i then b[i := 1] else b) (grid_indices g) (replicate (storage_size s) 0)"
  unfolding detect_grid_boundaries_def grid_indices_def fold_over_concat fold_map comp_def
  by (intro fold_cong refl ext) (auto simp: Let_def edge_index_def row_column_of_index [OF assms])

text \<open>What makes a valid grid point a boundary point.\<close>

definition neighbor_lost :: "Surface \<Rightarrow> GridTopology \<Rightarrow> f64 \<Rightarrow> nat \<Rightarrow> nat \<Rightarrow> nat \<Rightarrow> nat \<Rightarrow> bool" where
  "neighbor_lost s g radius row column r c \<longleftrightarrow>
     \<not> valid_at s (r * unat (grid_row_stride g) + c) \<or>
     radius < vector_length (sub3 (sv_points s ! (row * unat (grid_row_stride g) + column))
                (sv_points s ! (r * unat (grid_row_stride g) + c)))"

lemma edge_at_iff:
  assumes "row < unat (grid_height g)" "column < unat (grid_width g)"
  shows "list_ex (edge_at s g radius row column) grid_offsets \<longleftrightarrow>
    row = 0 \<or> Suc row = unat (grid_height g) \<or> column = 0 \<or> Suc column = unat (grid_width g) \<or>
    neighbor_lost s g radius row column (row - 1) column \<or>
    neighbor_lost s g radius row column (row + 1) column \<or>
    neighbor_lost s g radius row column row (column - 1) \<or>
    neighbor_lost s g radius row column row (column + 1)"
proof -
  define H where "H = unat (grid_height g)"
  define W where "W = unat (grid_width g)"
  have b: "nat (int row - 1) = row - 1" "nat (int row + 1) = row + 1" "nat (int column - 1) = column - 1"
      "nat (int column + 1) = column + 1" by auto
  have e: "edge_at s g radius row column (-1, 0) \<longleftrightarrow> row = 0 \<or> neighbor_lost s g radius row column (row - 1) column"
    "edge_at s g radius row column (1, 0) \<longleftrightarrow>
       Suc row = unat (grid_height g) \<or> neighbor_lost s g radius row column (row + 1) column"
    "edge_at s g radius row column (0, -1) \<longleftrightarrow> column = 0 \<or> neighbor_lost s g radius row column row (column - 1)"
    "edge_at s g radius row column (0, 1) \<longleftrightarrow>
       Suc column = unat (grid_width g) \<or> neighbor_lost s g radius row column row (column + 1)"
    using assms
    unfolding edge_at_def neighbor_lost_def Let_def fst_conv snd_conv H_def [symmetric] W_def [symmetric]
    by (auto simp: b)
  show ?thesis by (auto simp: grid_offsets_def e)
qed

text \<open>
  C35. On an organised surface the boundary map marks exactly the valid grid points that touch the
  rim of the grid, or have a 4-neighbour that is invalid or farther away than the boundary radius.
\<close>
theorem grid_boundary_correct:
  assumes "surface_ok s" "sv_grid s = Some g" "row < unat (grid_height g)" "column < unat (grid_width g)"
  shows "detect_grid_boundaries s g radius ! (row * unat (grid_row_stride g) + column) =
    (if valid_at s (row * unat (grid_row_stride g) + column) \<and>
        (row = 0 \<or> Suc row = unat (grid_height g) \<or> column = 0 \<or> Suc column = unat (grid_width g) \<or>
         neighbor_lost s g radius row column (row - 1) column \<or>
         neighbor_lost s g radius row column (row + 1) column \<or>
         neighbor_lost s g radius row column row (column - 1) \<or>
         neighbor_lost s g radius row column row (column + 1)) then 1 else 0)"
proof -
  let ?i = "row * unat (grid_row_stride g) + column"
  have w: "grid_width g \<le> grid_row_stride g" and storage: "storage_size s = storage_of g"
    using assms(1,2) by (auto simp: surface_ok_def surface_data_ok_def grid_matches_def storage_size_def)
  have i: "?i \<in> set (grid_indices g)" using assms(3,4) by (auto simp: grid_indices_iff)
  then have b: "?i < storage_size s" using grid_indices_bound storage by simp
  then show ?thesis
    unfolding detect_grid_boundaries_marks [OF w]
    using i by (auto simp: marked_slots edge_index_def row_column_of_index [OF w assms(4)] edge_at_iff [OF assms(3,4)])
qed

subsection \<open>Orientation of normals\<close>

text \<open>Negating one factor negates the double-precision dot product, up to the sign of zero.\<close>

definition opposite :: "'f::len fp \<Rightarrow> 'f fp \<Rightarrow> bool" where
  "opposite x y \<longleftrightarrow> (case x of NaN \<Rightarrow> y = NaN | Inf b \<Rightarrow> y = Inf (\<not> b) | _ \<Rightarrow> isfinite y \<and> val y = - val x)"

lemma opposite_cases:
  assumes "opposite x y"
  obtains "x = NaN" "y = NaN" | b where "x = Inf b" "y = Inf (\<not> b)"
    | "isfinite x" "isfinite y" "val y = - val x"
  using assms by (cases x) (auto simp: opposite_def)

lemma opposite_round: "opposite (round_fp s q :: 'f::len fp) (round_fp t (- q))"
proof -
  have "\<not> (2::rat) powi (emax TYPE('f) + 1) \<le> 0" by (simp only: not_le powi2_pos)
  then show ?thesis by (auto simp: opposite_def round_fp_def Let_def to_grid_minus split: fp.splits)
qed

lemma opposite_finite: "isfinite x \<Longrightarrow> isfinite y \<Longrightarrow> val y = - val x \<Longrightarrow> opposite x y"
  by (cases x) (auto simp: opposite_def)

lemma opposite_uminus: "opposite x (- x)" for x :: "'f::len fp"
  by (cases x) (auto simp: opposite_def uminus_fp_def)

lemma opposite_times:
  fixes z :: "'f::len fp"
  assumes "opposite x y"
  shows "opposite (x * z) (y * z)"
  using assms
proof (cases rule: opposite_cases)
  case 1
  then show ?thesis by (simp add: times_fp_def opposite_def)
next
  case (2 b)
  then show ?thesis by (cases z) (auto simp: times_fp_def opposite_def)
next
  case 3
  show ?thesis
  proof (cases "isfinite z")
    case True
    then have "x * z = round_fp (sign_bit x \<noteq> sign_bit z) (val x * val z)"
        "y * z = round_fp (sign_bit y \<noteq> sign_bit z) (- (val x * val z))"
      using 3 by (auto simp: times_fp_def elim!: isfinite_cases)
    then show ?thesis by (metis opposite_round)
  next
    case False
    have "val x \<noteq> 0 \<Longrightarrow> sign_bit y \<longleftrightarrow> \<not> sign_bit x" using 3 by (auto elim!: isfinite_cases)
    then show ?thesis using False 3
      by (cases z) (auto simp: times_fp_def opposite_def elim!: isfinite_cases)
  qed
qed

lemma opposite_plus:
  fixes x :: "'f::len fp"
  assumes "opposite x x'" "opposite y y'"
  shows "opposite (x + y) (x' + y')"
proof (cases "isfinite x \<and> isfinite y")
  case True
  then have f: "isfinite x" "isfinite y" "isfinite x'" "isfinite y'" "val x' = - val x" "val y' = - val y"
    using assms by (auto elim!: opposite_cases)
  have sum: "a + b = rnd (val a + val b) \<or> (a + b = NegZero \<and> val a + val b = 0)"
    if "isfinite a" "isfinite b" for a b :: "'f fp"
    using that by (auto simp: plus_fp_def elim!: isfinite_cases)
  have zero: "opposite NegZero (rnd 0 :: 'f fp)" "opposite (rnd 0 :: 'f fp) NegZero"
      "opposite (NegZero :: 'f fp) NegZero"
    by (simp_all add: opposite_def)
  have neg: "val x' + val y' = - (val x + val y)" using f by simp
  have "opposite (rnd (val x + val y) :: 'f fp) (rnd (- (val x + val y)))"
    unfolding rnd_def by (rule opposite_round)
  moreover have "val x + val y = 0 \<Longrightarrow> rnd (- (val x + val y)) = (rnd 0 :: 'f fp)" by (simp only: minus_zero)
  ultimately show ?thesis using sum [OF f(1,2)] sum [OF f(3,4)] zero unfolding neg by (auto simp del: minus_add_distrib)
next
  case False
  then show ?thesis using assms
    by (cases x; cases y) (auto simp: opposite_def plus_fp_def elim!: isfinite_cases)
qed

lemma opposite_not_less: "opposite x y \<Longrightarrow> x < 0 \<Longrightarrow> \<not> y < 0" for x :: "'f::len fp"
  by (erule opposite_cases) (auto simp: less_fp_def zero_fp_def elim!: isfinite_cases)

lemma negate_flips: "dot3 n d < 0 \<Longrightarrow> \<not> dot3 (negate n) d < 0"
proof (rule opposite_not_less)
  have w: "opposite (widen x) (widen (- x))" for x :: f32
    by (cases x) (auto simp: opposite_def uminus_fp_def)
  show "opposite (dot3 n d) (dot3 (negate n) d)"
    unfolding dot3_def negate_def by (intro opposite_plus opposite_times) (simp_all add: w)
qed
type_synonym orient_slot = "Vec3f \<times> u8 \<times> NormalReason \<times> u8"

definition slot :: "OrientState \<Rightarrow> nat \<Rightarrow> orient_slot" where
  "slot st i = (os_normals st ! i, os_mask st ! i, os_reasons st ! i, os_orientation_valid st ! i)"

definition orient_sized :: "nat \<Rightarrow> OrientState \<Rightarrow> bool" where
  "orient_sized n st \<longleftrightarrow> length (os_normals st) = n \<and> length (os_mask st) = n \<and>
     length (os_reasons st) = n \<and> length (os_orientation_valid st) = n"

lemma orient_index_sized: "orient_sized n st \<Longrightarrow> orient_sized n (orient_index s hint nv i st)"
  by (auto simp: orient_sized_def orient_index_def Let_def split: prod.splits)

lemma orient_index_other: "i \<noteq> j \<Longrightarrow> slot (orient_index s hint nv j st) i = slot st i"
  by (auto simp: slot_def orient_index_def Let_def split: prod.splits)

lemma orient_index_same:
  "slot st i = slot st' i \<Longrightarrow> orient_sized n st \<Longrightarrow> orient_sized n st' \<Longrightarrow> i < n \<Longrightarrow>
   slot (orient_index s hint nv i st) i = slot (orient_index s hint nv i st') i"
  by (auto simp: slot_def orient_index_def orient_sized_def Let_def split: prod.splits)

lemma orient_fold_slot:
  assumes "distinct js" "orient_sized n st" "i < n"
  shows "slot (fold (orient_index s hint nv) js st) i =
    (if i \<in> set js then slot (orient_index s hint nv i st) i else slot st i)"
  using assms
proof (induction js arbitrary: st)
  case (Cons j js)
  have sized: "orient_sized n (orient_index s hint nv j st)" by (rule orient_index_sized [OF Cons.prems(2)])
  show ?case
  proof (cases "i = j")
    case True
    then show ?thesis using Cons.IH [OF _ sized Cons.prems(3)] Cons.prems(1) by simp
  next
    case False
    then show ?thesis
      using Cons.IH [OF _ sized Cons.prems(3)] Cons.prems orient_index_other [OF False]
        orient_index_same [OF orient_index_other [OF False] sized Cons.prems(2,3)] by simp
  qed
qed simp

definition kept_normal :: "Surface \<Rightarrow> u8 list \<Rightarrow> nat \<Rightarrow> bool" where
  "kept_normal s nv i \<longleftrightarrow> valid_at s i \<and> nv ! i \<noteq> 0"

definition orientation_decided :: "Surface \<Rightarrow> NormalOrientationHint \<Rightarrow> nat \<Rightarrow> bool" where
  "orientation_decided s hint i \<longleftrightarrow> snd (oriented hint (sv_points s ! i) Vec3f_zero)"

lemma oriented_flag: "snd (oriented hint p n) = snd (oriented hint p m)"
  by (simp add: oriented_def Let_def split: NormalOrientationMode.splits)

lemma orient_counts:
  "os_valid_count (fold (orient_index s hint nv) js st) =
     os_valid_count st + length (filter (kept_normal s nv) js)"
  "os_oriented_count (fold (orient_index s hint nv) js st) =
     os_oriented_count st + length (filter (\<lambda>i. kept_normal s nv i \<and> orientation_decided s hint i) js)"
proof (induction js arbitrary: st)
  case (Cons j js)
  have d: "snd (oriented hint (sv_points s ! j) n) \<longleftrightarrow> orientation_decided s hint j" for n
    unfolding orientation_decided_def by (rule oriented_flag)
  { case 1 show ?case unfolding fold_simps comp_apply Cons
      by (auto simp: kept_normal_def [of s nv j] orient_index_def split: prod.splits) }
  { case 2 show ?case unfolding fold_simps comp_apply Cons
      using d [of "os_normals st ! j"]
      by (auto simp: kept_normal_def [of s nv j] orient_index_def split: prod.splits) }
qed simp_all

lemma filter_lengths_eq_iff:
  "length (filter P js) = length (filter (\<lambda>i. P i \<and> Q i) js) \<longleftrightarrow> (\<forall>i \<in> set js. P i \<longrightarrow> Q i)"
proof (induction js)
  case (Cons j js)
  have "length (filter (\<lambda>i. P i \<and> Q i) js) \<le> length (filter P js)" by (induction js) auto
  then show ?case using Cons by auto
qed simp

lemma oriented_not_away: "oh_mode hint = align_direction \<Longrightarrow>
    \<not> dot3 (fst (oriented hint p n)) (normalized (oh_value hint)) < 0"
  using negate_flips [of n "normalized (oh_value hint)"] by (simp add: oriented_def)

lemma given_normals_lengths:
  assumes "given_normals s = (a, b)"
  shows "length a = storage_size s \<and> length b = storage_size s"
proof -
  let ?I = "\<lambda>(a, b). length (a :: Vec3f list) = storage_size s \<and> length (b :: u8 list) = storage_size s"
  have "?I (given_normals s)"
    unfolding given_normals_def by (rule fold_invariant_set) (auto simp: Let_def split: prod.splits)
  then show ?thesis by (simp add: assms)
qed

lemma estimate_normals_lengths:
  "estimate_normals search fit s r m t = Inr (a, b) \<Longrightarrow> length a = storage_size s \<and> length b = storage_size s"
proof -
  let ?I = "\<lambda>(a, b). length (a :: Vec3f list) = storage_size s \<and> length (b :: u8 list) = storage_size s"
  have "?I (fold (store_normal search fit r m c mp) js (replicate (storage_size s) Vec3f_zero, replicate (storage_size s) 0))"
    for c mp js
    by (rule fold_invariant_set) (auto simp: store_normal_def Let_def split: option.splits prod.splits)
  then show "estimate_normals search fit s r m t = Inr (a, b) \<Longrightarrow> length a = storage_size s \<and> length b = storage_size s"
    by (force simp: estimate_normals_def with_executor_def Let_def split: if_splits prod.splits)
qed

text \<open>The pieces of a successful preparation.\<close>

lemma prepare_pieces:
  assumes r: "prepare_normals_and_boundaries search fit atan2 s nr k br hint t = Inr r"
  obtains normals nv where "(if sv_normals s = [] then estimate_normals search fit s nr k t
        else Inr (given_normals s)) = Inr (normals, nv)"
    and "Surface_create (sv_points s) (os_normals (fold (orient_index s hint nv) (logical_indices s)
          (orient_start s normals))) (os_mask (fold (orient_index s hint nv) (logical_indices s)
          (orient_start s normals))) (sv_grid s) (sv_unit s) (sv_frame s) = Inr (nb_surface r)"
    and "nb_reasons r = os_reasons (fold (orient_index s hint nv) (logical_indices s) (orient_start s normals))"
      "nb_orientation_valid r = os_orientation_valid (fold (orient_index s hint nv) (logical_indices s) (orient_start s normals))"
      "nb_orientation_proven r \<longleftrightarrow> 0 < os_valid_count (fold (orient_index s hint nv) (logical_indices s) (orient_start s normals)) \<and>
         os_oriented_count (fold (orient_index s hint nv) (logical_indices s) (orient_start s normals)) =
         os_valid_count (fold (orient_index s hint nv) (logical_indices s) (orient_start s normals))"
  using r unfolding prepare_normals_and_boundaries_def require_Inr_iff rbind_Inr_iff
  by (auto simp: rbind_Inr_iff Let_def)

lemma orient_fold_sized:
  assumes "(if sv_normals s = [] then estimate_normals search fit s nr k t else Inr (given_normals s)) = Inr (normals, nv)"
  shows "length normals = storage_size s" "length nv = storage_size s" "orient_sized (storage_size s) (orient_start s normals)"
    "orient_sized (storage_size s) (fold (orient_index s hint nv) js (orient_start s normals))"
proof -
  show len: "length normals = storage_size s" "length nv = storage_size s"
    using assms given_normals_lengths estimate_normals_lengths by (auto split: if_splits)
  show sized: "orient_sized (storage_size s) (orient_start s normals)"
    using len by (simp add: orient_sized_def orient_start_def)
  show "orient_sized (storage_size s) (fold (orient_index s hint nv) js (orient_start s normals))"
    by (rule fold_invariant_set [where I = "orient_sized (storage_size s)"])
       (auto intro: sized orient_index_sized)
qed

text \<open>A prepared surface is again a surface, with the points, layout, unit and frame of its input.\<close>

lemma prepared_surface:
  assumes s: "surface_ok s"
    and r: "prepare_normals_and_boundaries search fit atan2 s nr k br hint t = Inr r"
  shows "surface_ok (nb_surface r)" "sv_points (nb_surface r) = sv_points s" "sv_grid (nb_surface r) = sv_grid s"
    "sv_unit (nb_surface r) = sv_unit s" "sv_frame (nb_surface r) = sv_frame s" "sv_size (nb_surface r) = sv_size s"
proof -
  obtain normals nv where src: "(if sv_normals s = [] then estimate_normals search fit s nr k t
        else Inr (given_normals s)) = Inr (normals, nv)"
    and create: "Surface_create (sv_points s) (os_normals (fold (orient_index s hint nv) (logical_indices s)
          (orient_start s normals))) (os_mask (fold (orient_index s hint nv) (logical_indices s)
          (orient_start s normals))) (sv_grid s) (sv_unit s) (sv_frame s) = Inr (nb_surface r)"
    by (rule prepare_pieces [OF r])
  show fields: "sv_points (nb_surface r) = sv_points s" "sv_grid (nb_surface r) = sv_grid s"
    "sv_unit (nb_surface r) = sv_unit s" "sv_frame (nb_surface r) = sv_frame s"
    using Surface_create_fields [OF create] by simp_all
  show ok: "surface_ok (nb_surface r)"
    using create surface_ok_sizes [OF s] orient_fold_sized(4) [OF src, of hint "logical_indices s"]
    by (intro Surface_create_surface_ok [of "sv_points s"]) (auto simp: orient_sized_def storage_size_def)
  have "unat (sv_size (nb_surface r)) = unat (sv_size s)"
    using ok s fields by (simp add: surface_ok_def logical_indices_def storage_size_def)
  then show "sv_size (nb_surface r) = sv_size s" by (simp add: word_unat_eq_iff)
qed

text \<open>
  When normals are prepared, the output is again a surface; a sample is kept exactly when its
  reason is \<open>none\<close>; alignment leaves no kept normal pointing away from the requested direction;
  and the result claims a proven orientation exactly when some normal was kept and every kept one
  was decided.
\<close>
theorem prepared_normals_oriented:
  assumes s: "surface_ok s"
    and r: "prepare_normals_and_boundaries search fit atan2 s nr k br hint t = Inr r"
  shows "surface_ok (nb_surface r) \<and>
    (\<forall>i \<in> set (logical_indices s).
       (sv_valid (nb_surface r) ! i = 1 \<longleftrightarrow> nb_reasons r ! i = nr_none) \<and>
       (sv_valid (nb_surface r) ! i = 1 \<longrightarrow> oh_mode hint = align_direction \<longrightarrow>
          \<not> dot3 (sv_normals (nb_surface r) ! i) (normalized (oh_value hint)) < 0)) \<and>
    (nb_orientation_proven r \<longleftrightarrow>
       (\<exists>i \<in> set (logical_indices s). sv_valid (nb_surface r) ! i = 1) \<and>
       (\<forall>i \<in> set (logical_indices s). sv_valid (nb_surface r) ! i = 1 \<longrightarrow> nb_orientation_valid r ! i = 1))"
proof -
  obtain normals nv where src: "(if sv_normals s = [] then estimate_normals search fit s nr k t
        else Inr (given_normals s)) = Inr (normals, nv)"
    and create: "Surface_create (sv_points s) (os_normals (fold (orient_index s hint nv) (logical_indices s)
          (orient_start s normals))) (os_mask (fold (orient_index s hint nv) (logical_indices s)
          (orient_start s normals))) (sv_grid s) (sv_unit s) (sv_frame s) = Inr (nb_surface r)"
    and fields: "nb_reasons r = os_reasons (fold (orient_index s hint nv) (logical_indices s) (orient_start s normals))"
      "nb_orientation_valid r = os_orientation_valid (fold (orient_index s hint nv) (logical_indices s) (orient_start s normals))"
      "nb_orientation_proven r \<longleftrightarrow> 0 < os_valid_count (fold (orient_index s hint nv) (logical_indices s) (orient_start s normals)) \<and>
         os_oriented_count (fold (orient_index s hint nv) (logical_indices s) (orient_start s normals)) =
         os_valid_count (fold (orient_index s hint nv) (logical_indices s) (orient_start s normals))"
    by (rule prepare_pieces [OF r])
  define st where "st = fold (orient_index s hint nv) (logical_indices s) (orient_start s normals)"
  note len = orient_fold_sized(1,2) [OF src] and sized = orient_fold_sized(3) [OF src]
  have out: "sv_valid (nb_surface r) = os_mask st" "sv_normals (nb_surface r) = os_normals st"
    using Surface_create_fields [OF create] by (simp_all add: st_def)
  note ok = prepared_surface(1) [OF s r]
  have at: "slot st i = slot (orient_index s hint nv i (orient_start s normals)) i"
    if "i \<in> set (logical_indices s)" for i
    using orient_fold_slot [OF surface_walk.indices_distinct [OF s] sized surface_walk.indices_bound [OF s that]] that
    by (simp add: st_def)
  have facts: "(os_mask st ! i = 1 \<longleftrightarrow> kept_normal s nv i) \<and>
      (os_reasons st ! i = nr_none \<longleftrightarrow> kept_normal s nv i) \<and>
      (kept_normal s nv i \<longrightarrow> os_normals st ! i = fst (oriented hint (sv_points s ! i) (normals ! i)) \<and>
         (os_orientation_valid st ! i = 1 \<longleftrightarrow> orientation_decided s hint i))"
    if i: "i \<in> set (logical_indices s)" for i
  proof -
    have b: "i < storage_size s" by (rule surface_walk.indices_bound [OF s i])
    have f: "snd (oriented hint (sv_points s ! i) (normals ! i)) \<longleftrightarrow> orientation_decided s hint i"
      unfolding orientation_decided_def by (rule oriented_flag)
    show ?thesis using at [OF i] b len f
      by (auto simp: slot_def orient_index_def orient_start_def kept_normal_def split: prod.splits)
  qed
  have proven: "nb_orientation_proven r \<longleftrightarrow> (\<exists>i \<in> set (logical_indices s). kept_normal s nv i) \<and>
      (\<forall>i \<in> set (logical_indices s). kept_normal s nv i \<longrightarrow> orientation_decided s hint i)"
    unfolding fields orient_counts
    using filter_lengths_eq_iff [of "kept_normal s nv" "logical_indices s" "orientation_decided s hint"]
    by (auto simp: orient_start_def filter_empty_conv)
  show ?thesis unfolding proven
    using ok facts oriented_not_away by (auto simp: out fields(1,2) st_def [symmetric])
qed

definition sample_oriented_surface :: Surface where
  "sample_oriented_surface = \<lparr>sv_points = [Vec3 1 0 0], sv_normals = [Vec3 0 0 1], sv_valid = [],
     sv_grid = Some \<lparr>grid_width = 1, grid_height = 1, grid_row_stride = 1\<rparr>, sv_unit = millimeter,
     sv_frame = ''cad'', sv_size = 1\<rparr>"

definition sample_hint :: NormalOrientationHint where
  "sample_hint = \<lparr>oh_mode = align_direction, oh_value = Vec3 0 0 (Num (- 1))\<rparr>"

lemma sample_prepared:
  "is_ok (prepare_normals_and_boundaries (\<lambda>_ _ _. []) (\<lambda>_ _. None) (\<lambda>_ _. 0) sample_oriented_surface
     1 3 1 sample_hint 1)"
proof -
  let ?n = "Vec3 0 0 1 :: Vec3f" and ?m = "Vec3 0 0 (Num (- 1)) :: Vec3f"
  let ?s = sample_oriented_surface
  have n: "normalized ?n = ?n" "normalized ?m = ?m" "vector_length ?n = 1" "vector_length ?m = 1"
    by (simp_all add: normalized_def vector_length_def dot3_def fp_eval Let_def)
  have at: "dot3 ?n ?m < 0" by (simp add: dot3_def fp_eval)
  have walk: "logical_indices ?s = [0]" "storage_size ?s = 1" by code_simp+
  have fields: "sv_points ?s = [Vec3 1 0 0]" "sv_normals ?s = [?n]" "sv_valid ?s = []"
    "sv_grid ?s = Some \<lparr>grid_width = 1, grid_height = 1, grid_row_stride = 1\<rparr>"
    "sv_unit ?s = millimeter" "sv_frame ?s = ''cad''"
    by (simp_all add: sample_oriented_surface_def)
  have guards: "isfinite (1 :: f64)" "\<not> (1 :: f64) \<le> 0" "is_finite3 ?m" "\<not> feq (1 :: f64) 0" "(0 :: f64) < 1"
    by (simp_all add: fp_eval is_finite3_def feq_def)
  have given: "given_normals ?s = ([?n], [1])"
    unfolding given_normals_def walk fields
    by (simp add: valid_at_def fields n guards)
  have st: "os_normals (fold (orient_index ?s sample_hint [1]) [0] (orient_start ?s [?n])) = [negate ?n]"
    "os_mask (fold (orient_index ?s sample_hint [1]) [0] (orient_start ?s [?n])) = [1]"
    by (simp_all add: orient_index_def orient_start_def walk fields valid_at_def oriented_def sample_hint_def n at)
  have create: "is_ok (Surface_create [Vec3 1 0 0] [negate ?n] [1]
      (Some \<lparr>grid_width = 1, grid_height = 1, grid_row_stride = 1\<rparr>) millimeter ''cad'')"
    by code_simp
  have hint: "oh_value sample_hint = ?m" by (simp add: sample_hint_def)
  show ?thesis using create
    by (auto simp: prepare_normals_and_boundaries_def fields given walk st guards n hint is_ok_iff Let_def
        simp del: fold.simps)
qed

theorem prepared_normals_oriented_witness:
  "\<exists>r. prepare_normals_and_boundaries (\<lambda>_ _ _. []) (\<lambda>_ _. None) (\<lambda>_ _. 0) sample_oriented_surface
     1 3 1 sample_hint 1 = Inr r \<and> surface_ok (nb_surface r)"
proof -
  have "surface_ok sample_oriented_surface" by code_simp
  moreover obtain r where "prepare_normals_and_boundaries (\<lambda>_ _ _. []) (\<lambda>_ _. None) (\<lambda>_ _. 0)
      sample_oriented_surface 1 3 1 sample_hint 1 = Inr r"
    using sample_prepared by (auto simp: is_ok_iff)
  ultimately show ?thesis using prepared_normals_oriented by blast
qed

theorem grid_boundary_correct_witness:
  "detect_grid_boundaries sample_oriented_surface \<lparr>grid_width = 1, grid_height = 1, grid_row_stride = 1\<rparr> 1 ! 0 = 1"
proof -
  have "surface_ok sample_oriented_surface" by code_simp
  then show ?thesis
    using grid_boundary_correct [of sample_oriented_surface "\<lparr>grid_width = 1, grid_height = 1, grid_row_stride = 1\<rparr>" 0 0 1]
    by (simp add: sample_oriented_surface_def valid_at_def)
qed

end
