(* ===== verification/CpuExecutor.thy ===== *)
theory CpuExecutor
  imports Core
begin

text \<open>
  \<open>registration/cpu_executor.hpp\<close>: the block partition of a range, and the synchronous executor
  as a state machine. Worker \<open>w\<close> runs the blocks \<open>w\<close>, \<open>w + count\<close>, \<open>w + 2 count\<close>, ...; the calling
  thread is worker 0. Each step below is one action of one thread, atomic because it is one critical
  section of the mutex or touches one block only: publishing a run, notifying, testing the
  predicate of a wait and going to sleep, executing one block, signing off. A thread asleep on a
  condition variable takes no step until it is notified; spurious wake-ups are a relation of their own.
\<close>

definition block_size :: nat where "block_size = 256"

definition blocks :: "nat \<Rightarrow> nat" where
  "blocks count = count div block_size + (if count mod block_size \<noteq> 0 then 1 else 0)"

definition concurrency :: "u32 \<Rightarrow> nat \<Rightarrow> nat" where
  "concurrency budget capacity = min (unat budget) (min 64 (max 1 (blocks capacity)))"

definition CpuExecutor_create :: "u32 \<Rightarrow> nat \<Rightarrow> exn + nat" where
  "CpuExecutor_create budget capacity =
     (if budget = 0 then Inl (exn_invalid_argument ''thread budget must be positive'')
      else Inr (concurrency budget capacity))"

text \<open>The indices a block covers: from \<open>block * block_size\<close> to the smaller of its end and the range.\<close>

definition block_range :: "nat \<Rightarrow> nat \<Rightarrow> nat list" where
  "block_range count block = [block * block_size ..< min count ((block + 1) * block_size)]"

subsection \<open>The partition\<close>

lemma blocks_bound: "count \<le> blocks count * block_size" "block < blocks count \<Longrightarrow> block * block_size < count"
proof -
  have c: "256 * (count div 256) + count mod 256 = count" by (rule mult_div_mod_eq)
  show "count \<le> blocks count * block_size"
    using c mod_less_divisor [of 256 count] unfolding blocks_def block_size_def by auto
  assume "block < blocks count"
  then have "block < count div 256 \<or> (block \<le> count div 256 \<and> 0 < count mod 256)"
    by (auto simp: blocks_def block_size_def split: if_splits)
  then show "block * block_size < count"
  proof
    assume "block < count div 256"
    then have "block * 256 < 256 * (count div 256)" by simp
    then show ?thesis using c unfolding block_size_def by linarith
  next
    assume "block \<le> count div 256 \<and> 0 < count mod 256"
    then have "block * 256 \<le> 256 * (count div 256)" "0 < count mod 256" by auto
    then show ?thesis using c unfolding block_size_def by linarith
  qed
qed

lemma upt_split: "a \<le> b \<Longrightarrow> b \<le> c \<Longrightarrow> [a..<b] @ [b..<c] = [a..<c]"
  by (metis le_add_diff_inverse upt_add_eq_append)

lemma block_ranges_prefix:
  "n \<le> blocks count \<Longrightarrow> concat (map (block_range count) [0..<n]) = [0..<min count (n * block_size)]"
proof (induction n)
  case (Suc n)
  have lt: "n * block_size < count" using blocks_bound(2) [of n count] Suc.prems by simp
  have "concat (map (block_range count) [0..<Suc n]) =
      [0..<n * block_size] @ [n * block_size ..< min count ((n + 1) * block_size)]"
    using Suc lt by (simp add: min_absorb2 block_range_def [of count n])
  also have "\<dots> = [0..<min count (Suc n * block_size)]"
    using lt by (subst upt_split) (simp_all add: block_size_def)
  finally show ?case .
qed simp

lemma block_ranges_cover: "concat (map (block_range count) [0..<blocks count]) = [0..<count]"
  using block_ranges_prefix [of "blocks count" count] blocks_bound(1) [of count] by (simp add: min_absorb1)

subsection \<open>The state machine\<close>

datatype worker = Awake nat | Asleep nat | Busy nat nat | Gone
datatype caller = Ready | Publishing | Running nat | Waiting | Sleeping | Returned | Stopping | Joining | Destroyed

text \<open>
  \<open>Awake observed\<close> is about to test the predicate of \<open>ready_.wait\<close>, \<open>Asleep observed\<close> is blocked in it;
  \<open>Busy observed block\<close> is inside \<open>execute\<close> with the loop variable at \<open>block\<close>; \<open>Gone\<close> has returned.
  The caller has published a run and not yet notified (\<open>Publishing\<close>), executes blocks, is about to
  test \<open>pending_ == 0\<close> (\<open>Waiting\<close>) or blocked on \<open>finished_\<close> (\<open>Sleeping\<close>); in the destructor it has set
  \<open>stopping_\<close>, waits for the threads to end, and is done. \<open>log\<close> lists the executed blocks of the
  current run, newest first.
\<close>

record exec_state =
  ex_workers :: "worker list"
  ex_caller :: caller
  ex_generation :: nat
  ex_pending :: nat
  ex_blocks :: nat
  ex_stopping :: bool
  ex_log :: "nat list"

definition ex_count :: "exec_state \<Rightarrow> nat" where
  "ex_count s = length (ex_workers s) + 1"

text \<open>\<open>ready_.notify_all()\<close> reaches every worker asleep, \<open>finished_.notify_one()\<close> the caller.\<close>

fun wake_worker :: "worker \<Rightarrow> worker" where
  "wake_worker (Asleep observed) = Awake observed"
| "wake_worker w = w"

fun wake_caller :: "caller \<Rightarrow> caller" where
  "wake_caller Sleeping = Waiting"
| "wake_caller c = c"

definition notify_ready :: "exec_state \<Rightarrow> exec_state" where
  "notify_ready s = s\<lparr>ex_workers := map wake_worker (ex_workers s)\<rparr>"

definition notify_finished :: "exec_state \<Rightarrow> exec_state" where
  "notify_finished s = s\<lparr>ex_caller := wake_caller (ex_caller s)\<rparr>"

inductive exec_step :: "exec_state \<Rightarrow> exec_state \<Rightarrow> bool" where
  start: "ex_caller s \<in> {Ready, Returned} \<Longrightarrow> 0 < total_blocks \<Longrightarrow>
    exec_step s (s\<lparr>ex_caller := Publishing, ex_blocks := total_blocks, ex_pending := length (ex_workers s),
      ex_generation := ex_generation s + 1, ex_log := []\<rparr>)"
| publish: "ex_caller s = Publishing \<Longrightarrow> exec_step s ((notify_ready s)\<lparr>ex_caller := Running 0\<rparr>)"
| sleep: "w < length (ex_workers s) \<Longrightarrow> ex_workers s ! w = Awake observed \<Longrightarrow>
    \<not> (ex_stopping s \<or> ex_generation s \<noteq> observed) \<Longrightarrow>
    exec_step s (s\<lparr>ex_workers := (ex_workers s)[w := Asleep observed]\<rparr>)"
| quit: "w < length (ex_workers s) \<Longrightarrow> ex_workers s ! w = Awake observed \<Longrightarrow> ex_stopping s \<Longrightarrow>
    exec_step s (s\<lparr>ex_workers := (ex_workers s)[w := Gone]\<rparr>)"
| wake: "w < length (ex_workers s) \<Longrightarrow> ex_workers s ! w = Awake observed \<Longrightarrow>
    \<not> ex_stopping s \<Longrightarrow> ex_generation s \<noteq> observed \<Longrightarrow>
    exec_step s (s\<lparr>ex_workers := (ex_workers s)[w := Busy (ex_generation s) (Suc w)]\<rparr>)"
| work: "w < length (ex_workers s) \<Longrightarrow> ex_workers s ! w = Busy observed block \<Longrightarrow> block < ex_blocks s \<Longrightarrow>
    exec_step s (s\<lparr>ex_workers := (ex_workers s)[w := Busy observed (block + ex_count s)],
      ex_log := block # ex_log s\<rparr>)"
| leave: "w < length (ex_workers s) \<Longrightarrow> ex_workers s ! w = Busy observed block \<Longrightarrow> ex_blocks s \<le> block \<Longrightarrow>
    t = s\<lparr>ex_workers := (ex_workers s)[w := Awake observed], ex_pending := ex_pending s - 1\<rparr> \<Longrightarrow>
    exec_step s (if ex_pending t = 0 then notify_finished t else t)"
| caller_work: "ex_caller s = Running block \<Longrightarrow> block < ex_blocks s \<Longrightarrow>
    exec_step s (s\<lparr>ex_caller := Running (block + ex_count s), ex_log := block # ex_log s\<rparr>)"
| caller_wait: "ex_caller s = Running block \<Longrightarrow> ex_blocks s \<le> block \<Longrightarrow>
    exec_step s (s\<lparr>ex_caller := Waiting\<rparr>)"
| caller_sleep: "ex_caller s = Waiting \<Longrightarrow> ex_pending s \<noteq> 0 \<Longrightarrow>
    exec_step s (s\<lparr>ex_caller := Sleeping\<rparr>)"
| caller_return: "ex_caller s = Waiting \<Longrightarrow> ex_pending s = 0 \<Longrightarrow>
    exec_step s (s\<lparr>ex_caller := Returned\<rparr>)"
| stop: "ex_caller s \<in> {Ready, Returned} \<Longrightarrow>
    exec_step s (s\<lparr>ex_caller := Stopping, ex_stopping := True\<rparr>)"
| stop_notify: "ex_caller s = Stopping \<Longrightarrow> exec_step s ((notify_ready s)\<lparr>ex_caller := Joining\<rparr>)"
| join: "ex_caller s = Joining \<Longrightarrow> list_all (\<lambda>w. w = Gone) (ex_workers s) \<Longrightarrow>
    exec_step s (s\<lparr>ex_caller := Destroyed\<rparr>)"

text \<open>A wait may end without a notification; the loop around it tests its predicate again.\<close>

inductive spurious_wakeup :: "exec_state \<Rightarrow> exec_state \<Rightarrow> bool" where
  worker_wakes: "w < length (ex_workers s) \<Longrightarrow> ex_workers s ! w = Asleep observed \<Longrightarrow>
    spurious_wakeup s (s\<lparr>ex_workers := (ex_workers s)[w := Awake observed]\<rparr>)"
| caller_wakes: "ex_caller s = Sleeping \<Longrightarrow> spurious_wakeup s (s\<lparr>ex_caller := Waiting\<rparr>)"

definition exec_any :: "exec_state \<Rightarrow> exec_state \<Rightarrow> bool" where
  "exec_any s t \<longleftrightarrow> exec_step s t \<or> spurious_wakeup s t"

definition exec_initial :: "nat \<Rightarrow> exec_state" where
  "exec_initial workers = \<lparr>ex_workers = replicate workers (Awake 0), ex_caller = Ready, ex_generation = 0,
     ex_pending = 0, ex_blocks = 0, ex_stopping = False, ex_log = []\<rparr>"

text \<open>
  The errors of a run, one slot per block; after the barrier \<open>run\<close> rethrows the first that is set.
\<close>

fun first_error :: "'e option list \<Rightarrow> 'e option" where
  "first_error [] = None"
| "first_error (Some e # es) = Some e"
| "first_error (None # es) = first_error es"

definition run_outcome :: "nat \<Rightarrow> (nat \<Rightarrow> 'e option) \<Rightarrow> 'e option" where
  "run_outcome total_blocks failure = first_error (map failure [0..<total_blocks])"

subsection \<open>Invariant\<close>

text \<open>The first block a thread has not yet executed in this run; worker 0 is the caller.\<close>

fun at_rest :: "nat \<Rightarrow> worker \<Rightarrow> bool" where
  "at_rest g (Awake observed) = (observed = g)"
| "at_rest g (Asleep observed) = (observed = g)"
| "at_rest g (Busy observed block) = False"
| "at_rest g Gone = True"

fun next_worker :: "nat \<Rightarrow> nat \<Rightarrow> worker \<Rightarrow> nat" where
  "next_worker g total_blocks (Busy observed block) = block"
| "next_worker g total_blocks w = (if at_rest g w then total_blocks else 0)"

fun next_caller :: "nat \<Rightarrow> caller \<Rightarrow> nat" where
  "next_caller total_blocks Publishing = 0"
| "next_caller total_blocks (Running block) = block"
| "next_caller total_blocks _ = total_blocks"

definition next_block :: "exec_state \<Rightarrow> nat \<Rightarrow> nat" where
  "next_block s t = (if t = 0 then next_caller (ex_blocks s) (ex_caller s)
     else next_worker (ex_generation s) (ex_blocks s) (ex_workers s ! (t - 1)))"

definition unfinished :: "exec_state \<Rightarrow> nat set" where
  "unfinished s = {w. w < length (ex_workers s) \<and> \<not> at_rest (ex_generation s) (ex_workers s ! w)}"

fun worker_ok :: "nat \<Rightarrow> nat \<Rightarrow> nat \<Rightarrow> worker \<Rightarrow> bool" where
  "worker_ok g count w (Awake observed) = (observed \<le> g)"
| "worker_ok g count w (Asleep observed) = (observed \<le> g)"
| "worker_ok g count w (Busy observed block) = (observed = g \<and> block mod count = Suc w)"
| "worker_ok g count w Gone = True"

lemma worker_ok_update:
  "\<forall>v < length ws. worker_ok g c v (ws ! v) \<Longrightarrow> worker_ok g c w x \<Longrightarrow>
   \<forall>v < length ws. worker_ok g c v (ws[w := x] ! v)"
  by (metis nth_list_update_eq nth_list_update_neq)

text \<open>No run is going on.\<close>

definition quiet_caller :: "caller \<Rightarrow> bool" where
  "quiet_caller c \<longleftrightarrow> c \<in> {Ready, Returned, Stopping, Joining, Destroyed}"

definition exec_inv :: "exec_state \<Rightarrow> bool" where
  "exec_inv s \<longleftrightarrow>
     (\<forall>w < length (ex_workers s). worker_ok (ex_generation s) (ex_count s) w (ex_workers s ! w)) \<and>
     (\<forall>block. ex_caller s = Running block \<longrightarrow> block mod ex_count s = 0) \<and>
     ex_pending s = card (unfinished s) \<and>
     (quiet_caller (ex_caller s) \<longrightarrow> unfinished s = {}) \<and>
     distinct (ex_log s) \<and>
     (\<forall>block. block \<in> set (ex_log s) \<longleftrightarrow> block < ex_blocks s \<and> block < next_block s (block mod ex_count s))"

text \<open>
  The second invariant is about notifications. Whoever sleeps on \<open>ready_\<close> has seen the current
  generation, or the notification is still to come; the caller sleeps only while workers are to
  sign off; nobody sleeps through the end.
\<close>

fun slumber_ok :: "exec_state \<Rightarrow> worker \<Rightarrow> bool" where
  "slumber_ok s (Asleep observed) =
     ((ex_caller s \<noteq> Publishing \<longrightarrow> observed = ex_generation s) \<and> ex_caller s \<notin> {Joining, Destroyed})"
| "slumber_ok s Gone = ex_stopping s"
| "slumber_ok s w = True"

definition wait_inv :: "exec_state \<Rightarrow> bool" where
  "wait_inv s \<longleftrightarrow> (\<forall>w \<in> set (ex_workers s). slumber_ok s w) \<and>
     (ex_caller s = Sleeping \<longrightarrow> ex_pending s \<noteq> 0) \<and>
     (ex_stopping s \<longleftrightarrow> ex_caller s \<in> {Stopping, Joining, Destroyed}) \<and>
     (ex_caller s = Destroyed \<longrightarrow> list_all (\<lambda>w. w = Gone) (ex_workers s))"

lemma finite_unfinished [simp]: "finite (unfinished s)"
  by (simp add: unfinished_def)

lemma ex_count_update [simp]:
  "ex_count (s\<lparr>ex_caller := a\<rparr>) = ex_count s" "ex_count (s\<lparr>ex_pending := p\<rparr>) = ex_count s"
  "ex_count (s\<lparr>ex_log := l\<rparr>) = ex_count s" "ex_count (s\<lparr>ex_generation := p\<rparr>) = ex_count s"
  "ex_count (s\<lparr>ex_blocks := p\<rparr>) = ex_count s" "ex_count (s\<lparr>ex_stopping := b\<rparr>) = ex_count s"
  "ex_count (s\<lparr>ex_workers := (ex_workers s)[w := x]\<rparr>) = ex_count s"
  "ex_count (notify_ready s) = ex_count s" "ex_count (notify_finished s) = ex_count s"
  by (simp_all add: ex_count_def notify_ready_def notify_finished_def)

lemma exec_inv_initial: "exec_inv (exec_initial n) \<and> wait_inv (exec_initial n)"
  by (auto simp: exec_inv_def wait_inv_def exec_initial_def unfinished_def)

text \<open>A change that moves no thread past a block of the run keeps the first invariant.\<close>

lemma exec_inv_same:
  assumes "exec_inv s"
    and "ex_generation t = ex_generation s" "ex_blocks t = ex_blocks s" "ex_pending t = ex_pending s" "ex_log t = ex_log s"
    and "length (ex_workers t) = length (ex_workers s)"
    and "\<And>w. w < length (ex_workers s) \<Longrightarrow>
      min (ex_blocks s) (next_worker (ex_generation s) (ex_blocks s) (ex_workers t ! w)) =
        min (ex_blocks s) (next_worker (ex_generation s) (ex_blocks s) (ex_workers s ! w)) \<and>
      at_rest (ex_generation s) (ex_workers t ! w) = at_rest (ex_generation s) (ex_workers s ! w) \<and>
      worker_ok (ex_generation s) (ex_count s) w (ex_workers t ! w)"
    and "min (ex_blocks s) (next_caller (ex_blocks s) (ex_caller t)) = min (ex_blocks s) (next_caller (ex_blocks s) (ex_caller s))"
    and "\<And>block. ex_caller t = Running block \<Longrightarrow> block mod ex_count s = 0"
    and "quiet_caller (ex_caller t) \<Longrightarrow> unfinished s = {}"
  shows "exec_inv t"
proof -
  have c: "ex_count t = ex_count s" using assms(6) by (simp add: ex_count_def)
  have u: "unfinished t = unfinished s" using assms(2,6,7) by (auto simp: unfinished_def)
  have "min (ex_blocks s) (next_block t (b mod ex_count s)) = min (ex_blocks s) (next_block s (b mod ex_count s))" for b
  proof -
    have "b mod ex_count s < length (ex_workers s) + 1" by (simp add: ex_count_def)
    then show ?thesis using assms(2,3,8) assms(7) [of "b mod ex_count s - 1"] by (auto simp: next_block_def)
  qed
  then have nb: "b < ex_blocks s \<Longrightarrow> b < next_block t (b mod ex_count s) \<longleftrightarrow> b < next_block s (b mod ex_count s)" for b
    by (metis min_less_iff_conj)
  show ?thesis using assms nb unfolding exec_inv_def c u by auto
qed

text \<open>A thread that steps from one of its blocks to its next one passes no other of its blocks.\<close>

lemma stride_step:
  assumes "b mod c = x mod c" "0 < (c :: nat)"
  shows "x < b + c \<longleftrightarrow> x < b \<or> x = b"
proof
  assume "x < b + c"
  show "x < b \<or> x = b"
  proof (rule ccontr)
    assume "\<not> (x < b \<or> x = b)"
    then have "0 < x - b" "x - b < c" using \<open>x < b + c\<close> by auto
    moreover have "c dvd x - b" using assms(1) by (metis mod_eq_dvd_iff_nat nat_le_linear diff_is_0_eq' dvd_0_right)
    ultimately show False by (simp add: nat_dvd_not_less)
  qed
qed (use assms in auto)

lemma nth_wake: "w < length (ex_workers s) \<Longrightarrow> ex_workers (notify_ready s) ! w = wake_worker (ex_workers s ! w)"
  by (simp add: notify_ready_def)

lemma wake_worker_same [simp]:
  "at_rest g (wake_worker x) = at_rest g x" "next_worker g n (wake_worker x) = next_worker g n x"
  "worker_ok g c w (wake_worker x) = worker_ok g c w x"
  by (cases x; simp)+

lemma worker_okI: "exec_inv s \<Longrightarrow> w < length (ex_workers s) \<Longrightarrow> worker_ok (ex_generation s) (ex_count s) w (ex_workers s ! w)"
  by (simp add: exec_inv_def)

lemma exec_inv_quiet: "exec_inv s \<Longrightarrow> quiet_caller (ex_caller s) \<or> ex_pending s = 0 \<Longrightarrow> unfinished s = {}"
  by (auto simp: exec_inv_def)

lemma wake_caller_other: "c \<noteq> Sleeping \<Longrightarrow> wake_caller c = c"
  by (cases c) simp_all

lemma exec_inv_notify_finished: "exec_inv s \<Longrightarrow> exec_inv (notify_finished s)"
  using worker_okI [of s] by (cases "ex_caller s = Sleeping")
     (auto simp: notify_finished_def quiet_caller_def wake_caller_other elim!: exec_inv_same)

text \<open>A worker changes its state without passing a block.\<close>

lemma exec_inv_worker:
  assumes "exec_inv s" "w < length (ex_workers s)"
    and "min (ex_blocks s) (next_worker (ex_generation s) (ex_blocks s) x) =
        min (ex_blocks s) (next_worker (ex_generation s) (ex_blocks s) (ex_workers s ! w))"
    and "at_rest (ex_generation s) x = at_rest (ex_generation s) (ex_workers s ! w)"
    and "worker_ok (ex_generation s) (ex_count s) w x"
  shows "exec_inv (s\<lparr>ex_workers := (ex_workers s)[w := x]\<rparr>)"
  using assms by (intro exec_inv_same [OF assms(1)]) (auto simp: nth_list_update exec_inv_def)

lemma exec_inv_step: "exec_step s t \<Longrightarrow> exec_inv s \<Longrightarrow> wait_inv s \<Longrightarrow> exec_inv t"
proof (induction rule: exec_step.induct)
  case (start s total_blocks)
  let ?t = "s\<lparr>ex_caller := Publishing, ex_blocks := total_blocks, ex_pending := length (ex_workers s),
      ex_generation := ex_generation s + 1, ex_log := []\<rparr>"
  have idle: "\<not> at_rest (ex_generation ?t) (ex_workers s ! w) \<and> next_worker (ex_generation ?t) total_blocks (ex_workers s ! w) = 0 \<and>
      worker_ok (ex_generation ?t) (ex_count s) w (ex_workers s ! w)" if "w < length (ex_workers s)" for w
  proof -
    have "unfinished s = {}" "\<not> ex_stopping s" 
      using start(1,4) exec_inv_quiet [OF start(3)] by (auto simp: wait_inv_def quiet_caller_def)
    then have rest: "at_rest (ex_generation s) (ex_workers s ! w)" "\<not> ex_stopping s" using that by (auto simp: unfinished_def)
    have "slumber_ok s (ex_workers s ! w)" using start(4) nth_mem [OF that] unfolding wait_inv_def by blast
    then show ?thesis using rest by (cases "ex_workers s ! w") simp_all
  qed
  then have "unfinished ?t = {..<length (ex_workers s)}" by (auto simp: unfinished_def)
  moreover have "next_block ?t (b mod ex_count ?t) = 0" for b
  proof -
    have "b mod ex_count ?t < length (ex_workers s) + 1" by (simp add: ex_count_def)
    then show ?thesis using idle [of "b mod ex_count ?t - 1"] by (auto simp: next_block_def)
  qed
  ultimately show ?case using idle by (simp add: exec_inv_def quiet_caller_def)
next
  case (wake w s observed)
  let ?t = "s\<lparr>ex_workers := (ex_workers s)[w := Busy (ex_generation s) (Suc w)]\<rparr>"
  have u: "unfinished ?t = unfinished s" using wake by (auto simp: unfinished_def nth_list_update)
  have c: "ex_count ?t = ex_count s" by (simp add: ex_count_def)
  have nb: "b < next_block ?t (b mod ex_count s) \<longleftrightarrow> b < next_block s (b mod ex_count s)" for b
  proof (cases "b mod ex_count s = Suc w")
    case True
    then have "Suc w \<le> b" by (metis mod_less_eq_dividend)
    then show ?thesis using True wake by (simp add: next_block_def)
  next
    case False
    then show ?thesis by (auto simp: next_block_def nth_list_update)
  qed
  have "worker_ok (ex_generation s) (ex_count s) w (Busy (ex_generation s) (Suc w))"
    using wake(1) by (simp add: ex_count_def)
  then show ?case using wake(5) worker_ok_update unfolding exec_inv_def u c by (simp add: nb)
next
  case (work w s observed block)
  let ?t = "s\<lparr>ex_workers := (ex_workers s)[w := Busy observed (block + ex_count s)], ex_log := block # ex_log s\<rparr>"
  have m: "block mod ex_count s = Suc w" and o: "observed = ex_generation s"
    using worker_okI [OF work(4,1)] work(2) by simp_all
  have u: "unfinished ?t = unfinished s" using work by (auto simp: unfinished_def nth_list_update)
  have c: "ex_count ?t = ex_count s" by (simp add: ex_count_def)
  have c0: "0 < ex_count s" by (simp add: ex_count_def)
  have nb: "b < next_block ?t (b mod ex_count s) \<longleftrightarrow> b < next_block s (b mod ex_count s) \<or> b = block" for b
  proof (cases "b mod ex_count s = Suc w")
    case True
    then show ?thesis using work(1,2) m stride_step [of block "ex_count s" b] c0 by (simp add: next_block_def)
  next
    case False
    then show ?thesis using m by (auto simp: next_block_def nth_list_update)
  qed
  have new: "block \<notin> set (ex_log s)" using work m by (simp add: exec_inv_def next_block_def)
  have step: "(block + ex_count s) mod ex_count s = Suc w" using m by simp
  have "distinct (block # ex_log s) \<and> (\<forall>b. b \<in> set (block # ex_log s) \<longleftrightarrow>
      b < ex_blocks s \<and> (b < next_block s (b mod ex_count s) \<or> b = block))"
    using work(3,4) new by (auto simp: exec_inv_def)
  moreover have "worker_ok (ex_generation s) (ex_count s) w (Busy observed (block + ex_count s))" using o step by simp
  ultimately show ?case using work(4) worker_ok_update unfolding exec_inv_def u c
    by (simp add: o nb [unfolded o])
next
  case (leave w s observed block t)
  have o: "observed = ex_generation s" "block mod ex_count s = Suc w" using worker_okI [OF leave(5,1)] leave(2) by simp_all
  have u: "unfinished t = unfinished s - {w}" using leave o by (auto simp: unfinished_def nth_list_update)
  have w: "w \<in> unfinished s" using leave by (simp add: unfinished_def)
  have c: "ex_count t = ex_count s" using leave(4) by (simp add: ex_count_def)
  have nb: "b < ex_blocks s \<Longrightarrow> b < next_block t (b mod ex_count s) \<longleftrightarrow> b < next_block s (b mod ex_count s)" for b
    using leave(1-4) o by (cases "b mod ex_count s = Suc w") (auto simp: next_block_def nth_list_update)
  have p: "ex_pending s - 1 = card (unfinished s - {w})" using leave(5) w by (simp add: exec_inv_def)
  have idle: "worker_ok (ex_generation s) (ex_count s) w (Awake observed)" using o by simp
  have empty: "quiet_caller (ex_caller s) \<longrightarrow> unfinished s - {w} = {}"
    using leave(5) by (auto simp: exec_inv_def)
  have log: "\<forall>b. b \<in> set (ex_log s) \<longleftrightarrow> b < ex_blocks s \<and> b < next_block t (b mod ex_count s)"
    using leave(5) nb by (auto simp: exec_inv_def)
  have "exec_inv t" using leave(4,5) idle empty p log worker_ok_update unfolding exec_inv_def u c by simp
  then show ?case using exec_inv_notify_finished by simp
next
  case (caller_work s block)
  let ?t = "s\<lparr>ex_caller := Running (block + ex_count s), ex_log := block # ex_log s\<rparr>"
  have m: "block mod ex_count s = 0" using caller_work by (simp add: exec_inv_def)
  have u: "unfinished ?t = unfinished s" by (simp add: unfinished_def)
  have c: "ex_count ?t = ex_count s" by (simp add: ex_count_def)
  have c0: "0 < ex_count s" by (simp add: ex_count_def)
  have nb: "b < next_block ?t (b mod ex_count s) \<longleftrightarrow> b < next_block s (b mod ex_count s) \<or> b = block" for b
  proof (cases "b mod ex_count s = 0")
    case True
    then show ?thesis using caller_work(1) m stride_step [of block "ex_count s" b] c0
      by (simp add: next_block_def)
  next
    case False
    then show ?thesis using m by (auto simp: next_block_def)
  qed
  have new: "block \<notin> set (ex_log s)" using caller_work m by (simp add: exec_inv_def next_block_def)
  have "distinct (block # ex_log s) \<and> (\<forall>b. b \<in> set (block # ex_log s) \<longleftrightarrow>
      b < ex_blocks s \<and> (b < next_block s (b mod ex_count s) \<or> b = block))"
    using caller_work(2,3) new by (auto simp: exec_inv_def)
  then show ?case using caller_work(1,3) m unfolding exec_inv_def u c by (simp add: nb quiet_caller_def)
next
  case (publish s)
  show ?case by (rule exec_inv_same [OF publish(2)]) (use publish in \<open>auto simp: notify_ready_def quiet_caller_def worker_okI\<close>)
next
  case (sleep w s observed)
  then show ?case using worker_okI [OF sleep(4,1)] by (intro exec_inv_worker) auto
next
  case (quit w s observed)
  then have "unfinished s = {}" by (auto simp: wait_inv_def exec_inv_def quiet_caller_def)
  then have "at_rest (ex_generation s) (ex_workers s ! w)" using quit(1) unfolding unfinished_def by blast
  then show ?case using quit by (intro exec_inv_worker) auto
next
  case (caller_wait s block)
  show ?case by (rule exec_inv_same [OF caller_wait(3)]) (use caller_wait in \<open>auto simp: quiet_caller_def worker_okI\<close>)
next
  case (caller_sleep s)
  show ?case by (rule exec_inv_same [OF caller_sleep(3)]) (use caller_sleep in \<open>auto simp: quiet_caller_def worker_okI\<close>)
next
  case (caller_return s)
  show ?case by (rule exec_inv_same [OF caller_return(3)]) (use caller_return exec_inv_quiet in \<open>simp_all add: worker_okI\<close>)
next
  case (stop s)
  show ?case by (rule exec_inv_same [OF stop(2)]) (use stop exec_inv_quiet [of s] in \<open>auto simp: quiet_caller_def worker_okI\<close>)
next
  case (stop_notify s)
  show ?case by (rule exec_inv_same [OF stop_notify(2)])
    (use stop_notify exec_inv_quiet [of s] in \<open>auto simp: notify_ready_def quiet_caller_def worker_okI\<close>)
next
  case (join s)
  show ?case by (rule exec_inv_same [OF join(3)]) (use join exec_inv_quiet [of s] in \<open>auto simp: quiet_caller_def worker_okI\<close>)
qed

lemma slumber_ok_woken: "slumber_ok s w \<Longrightarrow> ex_stopping t = ex_stopping s \<Longrightarrow> slumber_ok t (wake_worker w)"
  by (cases w) simp_all

lemma slumber_ok_cong:
  "slumber_ok s w \<Longrightarrow> ex_generation t = ex_generation s \<Longrightarrow> ex_stopping s \<longrightarrow> ex_stopping t \<Longrightarrow>
   (ex_caller t \<noteq> Publishing \<longrightarrow> ex_caller s \<noteq> Publishing) \<Longrightarrow>
   (ex_caller t \<in> {Joining, Destroyed} \<longrightarrow> ex_caller s \<in> {Joining, Destroyed}) \<Longrightarrow> slumber_ok t w"
  by (cases w) auto

text \<open>The same for a change of one worker, or of the caller.\<close>

lemma wait_inv_worker:
  assumes "wait_inv s" "\<And>t. ex_caller t = ex_caller s \<Longrightarrow> ex_generation t = ex_generation s \<Longrightarrow>
      ex_stopping t = ex_stopping s \<Longrightarrow> slumber_ok t x"
    and "ex_workers s ! w \<noteq> Gone" "w < length (ex_workers s)"
    and "t = s\<lparr>ex_workers := (ex_workers s)[w := x], ex_log := l, ex_pending := p\<rparr>"
    and "ex_caller s = Sleeping \<Longrightarrow> p \<noteq> 0"
  shows "wait_inv t"
proof -
  have "slumber_ok t v" if "v \<in> set (ex_workers t)" for v
  proof -
    from that assms(5) have "v = x \<or> v \<in> set (ex_workers s)" using set_update_subset_insert by fastforce
    then show ?thesis using assms(1,2,5) slumber_ok_cong [of s v t] by (auto simp: wait_inv_def)
  qed
  moreover have "ex_caller s \<noteq> Destroyed"
    using assms(1,3,4) by (auto simp: wait_inv_def list_all_length)
  ultimately show ?thesis using assms(1,5,6) by (auto simp: wait_inv_def)
qed

lemma wait_inv_caller:
  assumes "wait_inv s" "ex_stopping s \<longleftrightarrow> c \<in> {Stopping, Joining, Destroyed}"
    and "c \<noteq> Publishing \<longrightarrow> ex_caller s \<noteq> Publishing" "c \<in> {Joining, Destroyed} \<longrightarrow> ex_caller s \<in> {Joining, Destroyed}"
    and "c = Sleeping \<longrightarrow> ex_pending s \<noteq> 0" "c = Destroyed \<longrightarrow> list_all (\<lambda>w. w = Gone) (ex_workers s)"
  shows "wait_inv (s\<lparr>ex_caller := c, ex_log := l\<rparr>)"
  using assms slumber_ok_cong [of s _ "s\<lparr>ex_caller := c, ex_log := l\<rparr>"] by (simp add: wait_inv_def)

lemma update_same [simp]: "s\<lparr>ex_log := ex_log s\<rparr> = s" "s\<lparr>ex_pending := ex_pending s\<rparr> = s"
  by simp_all

lemma wait_inv_step: "exec_step s t \<Longrightarrow> exec_inv s \<Longrightarrow> wait_inv s \<Longrightarrow> wait_inv t"
proof (induction rule: exec_step.induct)
  case (start s total_blocks)
  let ?t = "s\<lparr>ex_caller := Publishing, ex_blocks := total_blocks, ex_pending := length (ex_workers s),
      ex_generation := ex_generation s + 1, ex_log := []\<rparr>"
  have "slumber_ok ?t w" if "w \<in> set (ex_workers s)" for w
    using start that by (cases w) (auto simp: wait_inv_def)
  then show ?case using start by (auto simp: wait_inv_def)
next
  case (publish s)
  then show ?case using slumber_ok_woken [of s _ "(notify_ready s)\<lparr>ex_caller := Running 0\<rparr>"]
    by (auto simp: wait_inv_def notify_ready_def)
next
  case (sleep w s observed)
  show ?case by (rule wait_inv_worker [OF sleep(5), where x = "Asleep observed" and w = w and l = "ex_log s" and p = "ex_pending s"])
    (use sleep in \<open>auto simp: wait_inv_def\<close>)
next
  case (quit w s observed)
  show ?case by (rule wait_inv_worker [OF quit(5), where x = Gone and w = w and l = "ex_log s" and p = "ex_pending s"])
    (use quit in \<open>auto simp: wait_inv_def\<close>)
next
  case (wake w s observed)
  show ?case by (rule wait_inv_worker [OF wake(6), where x = "Busy (ex_generation s) (Suc w)" and w = w and l = "ex_log s" and p = "ex_pending s"])
    (use wake in \<open>auto simp: wait_inv_def\<close>)
next
  case (work w s observed block)
  show ?case by (rule wait_inv_worker [OF work(5), where x = "Busy observed (block + ex_count s)" and w = w and l = "block # ex_log s" and p = "ex_pending s"])
    (use work in \<open>auto simp: wait_inv_def\<close>)
next
  case (leave w s observed block t)
  show ?case
  proof (cases "ex_pending t = 0 \<and> ex_caller s = Sleeping")
    case False
    have "wait_inv t"
      by (rule wait_inv_worker [OF leave(6), where x = "Awake observed" and w = w and l = "ex_log s" and p = "ex_pending s - 1"]) (use leave False in auto)
    moreover have "notify_finished t = t" if "ex_pending t = 0"
      using that False leave(4) by (simp add: notify_finished_def wake_caller_other)
    ultimately show ?thesis by simp
  next
    case True
    have "wait_inv (s\<lparr>ex_caller := Waiting\<rparr>)"
      using wait_inv_caller [OF leave(6), of Waiting "ex_log s"] True leave(6) by (simp add: wait_inv_def)
    then have "wait_inv (notify_finished t)"
      by (rule wait_inv_worker [where x = "Awake observed" and w = w and l = "ex_log s" and p = "ex_pending s - 1"])
         (use leave True in \<open>auto simp: notify_finished_def\<close>)
    then show ?thesis using True by simp
  qed
next
  case (caller_work s block)
  then show ?case using wait_inv_caller [OF caller_work(4), of "Running (block + ex_count s)" "block # ex_log s"] by (simp add: wait_inv_def)
next
  case (caller_wait s block)
  then show ?case using wait_inv_caller [OF caller_wait(4), of Waiting "ex_log s"] by (simp add: wait_inv_def)
next
  case (caller_sleep s)
  then show ?case using wait_inv_caller [OF caller_sleep(4), of Sleeping "ex_log s"] by (simp add: wait_inv_def)
next
  case (caller_return s)
  then show ?case using wait_inv_caller [OF caller_return(4), of Returned "ex_log s"] by (simp add: wait_inv_def)
next
  case (stop s)
  have "slumber_ok (s\<lparr>ex_caller := Stopping, ex_stopping := True\<rparr>) w" if "w \<in> set (ex_workers s)" for w
    using stop that slumber_ok_cong [of s w "s\<lparr>ex_caller := Stopping, ex_stopping := True\<rparr>"] by (auto simp: wait_inv_def)
  then show ?case by (auto simp: wait_inv_def)
next
  case (stop_notify s)
  then show ?case using slumber_ok_woken [of s _ "(notify_ready s)\<lparr>ex_caller := Joining\<rparr>"]
    by (auto simp: wait_inv_def notify_ready_def)
next
  case (join s)
  then show ?case using wait_inv_caller [OF join(4), of Destroyed "ex_log s"] by (simp add: wait_inv_def)
qed

lemma spurious_inv: "spurious_wakeup s t \<Longrightarrow> exec_inv s \<Longrightarrow> wait_inv s \<Longrightarrow> exec_inv t \<and> wait_inv t"
proof (induction rule: spurious_wakeup.induct)
  case (worker_wakes w s observed)
  have "exec_inv (s\<lparr>ex_workers := (ex_workers s)[w := Awake observed]\<rparr>)"
    using worker_wakes worker_okI [OF worker_wakes(3,1)] by (intro exec_inv_worker) auto
  moreover have "wait_inv (s\<lparr>ex_workers := (ex_workers s)[w := Awake observed]\<rparr>)"
    by (rule wait_inv_worker [OF worker_wakes(4), where x = "Awake observed" and w = w and l = "ex_log s" and p = "ex_pending s"])
      (use worker_wakes in \<open>auto simp: wait_inv_def\<close>)
  ultimately show ?case ..
next
  case (caller_wakes s)
  have "exec_inv (s\<lparr>ex_caller := Waiting\<rparr>)"
    by (rule exec_inv_same [OF caller_wakes(2)]) (use caller_wakes in \<open>auto simp: quiet_caller_def worker_okI\<close>)
  moreover have "wait_inv (s\<lparr>ex_caller := Waiting\<rparr>)"
    using caller_wakes wait_inv_caller [OF caller_wakes(3), of Waiting "ex_log s"] by (simp add: wait_inv_def)
  ultimately show ?case ..
qed

lemma exec_inv_any: "exec_any s t \<Longrightarrow> exec_inv s \<and> wait_inv s \<Longrightarrow> exec_inv t \<and> wait_inv t"
  using exec_inv_step wait_inv_step spurious_inv unfolding exec_any_def by blast

lemma exec_inv_reachable: "exec_any\<^sup>*\<^sup>* (exec_initial n) s \<Longrightarrow> exec_inv s \<and> wait_inv s"
proof (induction rule: rtranclp_induct)
  case (step s t)
  show ?case by (rule exec_inv_any [OF step(2,3)])
qed (rule exec_inv_initial)

lemma next_worker_rest: "at_rest g w \<Longrightarrow> next_worker g n w = n"
  by (cases w) simp_all

lemma returned_log:
  assumes "exec_any\<^sup>*\<^sup>* (exec_initial n) s" "ex_caller s = Returned"
  shows "distinct (ex_log s)" "set (ex_log s) = {..<ex_blocks s}"
proof -
  have inv: "exec_inv s" using exec_inv_reachable [OF assms(1)] by blast
  then show "distinct (ex_log s)" by (simp add: exec_inv_def)
  have "unfinished s = {}" using inv assms(2) by (intro exec_inv_quiet) (simp_all add: quiet_caller_def)
  then have "at_rest (ex_generation s) (ex_workers s ! w)" if "w < length (ex_workers s)" for w
    using that unfolding unfinished_def by blast
  then have "next_block s b = ex_blocks s" if "b < length (ex_workers s) + 1" for b
    using assms(2) that by (simp add: next_block_def next_worker_rest)
  then have "next_block s (b mod ex_count s) = ex_blocks s" for b by (simp add: ex_count_def)
  moreover have "b \<in> set (ex_log s) \<longleftrightarrow> b < ex_blocks s \<and> b < next_block s (b mod ex_count s)" for b
    using inv unfolding exec_inv_def by blast
  ultimately show "set (ex_log s) = {..<ex_blocks s}" by auto
qed

lemma worker_progress:
  assumes "wait_inv s" "ex_caller s \<noteq> Publishing" "w < length (ex_workers s)" "\<not> at_rest (ex_generation s) (ex_workers s ! w)"
  shows "\<exists>t. exec_step s t"
proof -
  have ok: "slumber_ok s (ex_workers s ! w)" using assms(1) nth_mem [OF assms(3)] unfolding wait_inv_def by blast
  show ?thesis
  proof (cases "ex_workers s ! w")
    case (Awake observed)
    then show ?thesis using assms(3,4) quit [OF assms(3) Awake] wake [OF assms(3) Awake] by (cases "ex_stopping s") auto
  next
    case (Busy observed block)
    then show ?thesis using work [OF assms(3) Busy] leave [OF assms(3) Busy _ refl] by (cases "block < ex_blocks s") (auto simp: not_less)
  qed (use ok assms(2,4) in simp_all)
qed

lemma exec_progress:
  assumes "exec_inv s" "wait_inv s" "ex_caller s \<notin> {Ready, Returned, Destroyed}"
  shows "\<exists>t. exec_step s t"
proof (cases "ex_caller s")
  case Publishing
  then show ?thesis using publish by blast
next
  case (Running block)
  then show ?thesis using caller_work [OF Running] caller_wait [OF Running] by (cases "block < ex_blocks s") (auto simp: not_less)
next
  case Waiting
  then show ?thesis using caller_sleep [OF Waiting] caller_return [OF Waiting] by blast
next
  case Sleeping
  then have "unfinished s \<noteq> {}" using assms(1,2) by (auto simp: exec_inv_def wait_inv_def)
  then obtain w where "w < length (ex_workers s)" "\<not> at_rest (ex_generation s) (ex_workers s ! w)"
    by (auto simp: unfinished_def)
  then show ?thesis using worker_progress [OF assms(2)] Sleeping by simp
next
  case Stopping
  then show ?thesis using stop_notify by blast
next
  case Joining
  show ?thesis
  proof (cases "list_all (\<lambda>w. w = Gone) (ex_workers s)")
    case True
    then show ?thesis using join [OF Joining] by blast
  next
    case False
    then obtain w where w: "w < length (ex_workers s)" "ex_workers s ! w \<noteq> Gone" by (auto simp: list_all_length)
    have "slumber_ok s (ex_workers s ! w)" "ex_stopping s" using assms(2) w(1) Joining by (auto simp: wait_inv_def)
    moreover have "at_rest (ex_generation s) (ex_workers s ! w)"
      using exec_inv_quiet [OF assms(1)] Joining w(1) unfolding unfinished_def quiet_caller_def by blast
    ultimately show ?thesis using w Joining quit [OF w(1)] by (cases "ex_workers s ! w") auto
  qed
qed (use assms in auto)

text \<open>
  C12. Whatever the interleaving of the caller and the workers, and whichever waits are interrupted by
  spurious wake-ups, when \<open>run\<close> returns every block of
  the range has been executed exactly once and every worker has left the loop; and as long as
  \<open>run\<close> has not returned, or a started destructor has not ended, some thread can take a step of its own,
  without a spurious wake-up: the notifications reach every thread that has to go on, and the barrier
  cannot deadlock.
\<close>
theorem executor_runs_every_block_once:
  assumes "exec_any\<^sup>*\<^sup>* (exec_initial n) s"
  shows "(ex_caller s = Returned \<longrightarrow> distinct (ex_log s) \<and> set (ex_log s) = {..<ex_blocks s} \<and>
      unfinished s = {}) \<and>
    (ex_caller s \<notin> {Ready, Returned, Destroyed} \<longrightarrow> (\<exists>t. exec_step s t))"
  using returned_log [OF assms] exec_progress exec_inv_reachable [OF assms] exec_inv_quiet [of s]
  by (auto simp: quiet_caller_def)

text \<open>
  A run with one worker beside the caller and two blocks: the worker falls asleep before the run and
  is notified, the caller sleeps until the worker signs off.
\<close>

lemma executor_sample_run:
  "\<exists>s. exec_any\<^sup>*\<^sup>* (exec_initial 1) s \<and> ex_caller s = Returned \<and> ex_blocks s = 2 \<and> length (ex_workers s) = 1"
proof -
  let ?st = "\<lambda>w c p l. \<lparr>ex_workers = [w], ex_caller = c, ex_generation = 1, ex_pending = p, ex_blocks = 2, ex_stopping = False, ex_log = l\<rparr>"
  let ?asleep = "(exec_initial 1)\<lparr>ex_workers := [Asleep 0]\<rparr>"
  note eval = notify_ready_def notify_finished_def exec_initial_def ex_count_def numeral_2_eq_2 numeral_3_eq_3
  have "exec_step (exec_initial 1) ?asleep" using exec_step.sleep [of 0 "exec_initial 1" 0] by (simp add: eval)
  moreover have "exec_step ?asleep (?st (Asleep 0) Publishing 1 [])"
    using exec_step.start [of ?asleep 2] by (simp add: eval)
  moreover have "exec_step (?st (Asleep 0) Publishing 1 []) (?st (Awake 0) (Running 0) 1 [])"
    using exec_step.publish [of "?st (Asleep 0) Publishing 1 []"] by (simp add: eval)
  moreover have "exec_step (?st (Awake 0) (Running 0) 1 []) (?st (Awake 0) (Running 2) 1 [0])"
    using exec_step.caller_work [of "?st (Awake 0) (Running 0) 1 []" 0] by (simp add: eval)
  moreover have "exec_step (?st (Awake 0) (Running 2) 1 [0]) (?st (Awake 0) Waiting 1 [0])"
    using exec_step.caller_wait [of "?st (Awake 0) (Running 2) 1 [0]" 2] by simp
  moreover have "exec_step (?st (Awake 0) Waiting 1 [0]) (?st (Awake 0) Sleeping 1 [0])"
    using exec_step.caller_sleep [of "?st (Awake 0) Waiting 1 [0]"] by simp
  moreover have "exec_step (?st (Awake 0) Sleeping 1 [0]) (?st (Busy 1 1) Sleeping 1 [0])"
    using exec_step.wake [of 0 "?st (Awake 0) Sleeping 1 [0]" 0] by simp
  moreover have "exec_step (?st (Busy 1 1) Sleeping 1 [0]) (?st (Busy 1 3) Sleeping 1 [1, 0])"
    using exec_step.work [of 0 "?st (Busy 1 1) Sleeping 1 [0]" 1 1] by (simp add: eval)
  moreover have "exec_step (?st (Busy 1 3) Sleeping 1 [1, 0]) (?st (Awake 1) Waiting 0 [1, 0])"
    using exec_step.leave [of 0 "?st (Busy 1 3) Sleeping 1 [1, 0]" 1 3, OF _ _ _ refl] by (simp add: eval)
  moreover have "exec_step (?st (Awake 1) Waiting 0 [1, 0]) (?st (Awake 1) Returned 0 [1, 0])"
    using exec_step.caller_return [of "?st (Awake 1) Waiting 0 [1, 0]"] by simp
  ultimately have "exec_step\<^sup>*\<^sup>* (exec_initial 1) (?st (Awake 1) Returned 0 [1, 0])"
    by (meson converse_rtranclp_into_rtranclp rtranclp.rtrancl_refl)
  moreover have "exec_step \<le> exec_any" by (auto simp: exec_any_def)
  ultimately have "exec_any\<^sup>*\<^sup>* (exec_initial 1) (?st (Awake 1) Returned 0 [1, 0])" using rtranclp_mono by blast
  then show ?thesis by (intro exI) auto
qed

theorem executor_runs_every_block_once_witness:
  "\<exists>s. exec_any\<^sup>*\<^sup>* (exec_initial 1) s \<and> set (ex_log s) = {..<2}"
proof -
  obtain s where s: "exec_any\<^sup>*\<^sup>* (exec_initial 1) s" "ex_caller s = Returned" "ex_blocks s = 2"
    using executor_sample_run by blast
  then show ?thesis using executor_runs_every_block_once [OF s(1)] by auto
qed

subsection \<open>Schedule independence\<close>

text \<open>
  The contract of a job: a block commutes with every other block (the jobs of the program write
  the slots of their own indices only). Under it the order of the blocks does not matter.
\<close>

locale block_job =
  fixes job :: "nat \<Rightarrow> 's \<Rightarrow> 's"
  assumes commute: "a \<noteq> b \<Longrightarrow> job a (job b s) = job b (job a s)"
begin

lemma job_after: "a \<notin> set bs \<Longrightarrow> job a (fold job bs s) = fold job bs (job a s)"
  by (induction bs arbitrary: s) (auto simp: commute)

lemma remove_first: "distinct bs \<Longrightarrow> a \<in> set bs \<Longrightarrow> fold job bs s = fold job (remove1 a bs) (job a s)"
proof (induction bs arbitrary: s)
  case (Cons b bs)
  show ?case
  proof (cases "a = b")
    case False
    then show ?thesis using Cons by (simp add: commute)
  qed simp
qed simp

lemma any_order: "distinct as \<Longrightarrow> distinct bs \<Longrightarrow> set as = set bs \<Longrightarrow> fold job as s = fold job bs s"
proof (induction as arbitrary: bs s)
  case (Cons a as)
  have "fold job bs s = fold job (remove1 a bs) (job a s)" using Cons.prems by (intro remove_first) auto
  moreover have "fold job as (job a s) = fold job (remove1 a bs) (job a s)"
    using Cons.prems by (intro Cons.IH) auto
  ultimately show ?case by simp
qed simp

end

text \<open>
  The jobs of the stages: a block writes \<open>out[index(l)] = g(index(l))\<close> for its logical numbers \<open>l\<close>.
\<close>

definition array_block :: "(nat \<Rightarrow> 'a) \<Rightarrow> (nat \<Rightarrow> nat) \<Rightarrow> nat \<Rightarrow> nat \<Rightarrow> 'a list \<Rightarrow> 'a list" where
  "array_block g index n block = write_each g (map index (block_range n block))"

lemma write_each_swap: "write_each g js (write_each g ks xs) = write_each g ks (write_each g js xs)"
  by (rule nth_equalityI) (auto simp: nth_write_each)

interpretation array_job: block_job "array_block g index n" for g index n
  by unfold_locales (simp add: array_block_def write_each_swap)

lemma write_each_append: "write_each g (js @ ks) xs = write_each g ks (write_each g js xs)"
  by (simp add: write_each_def)

lemma blocks_in_order: "fold (array_block g index n) bs xs = write_each g (map index (concat (map (block_range n) bs))) xs"
  by (induction bs arbitrary: xs) (simp_all add: array_block_def write_each_append write_each_def)

text \<open>
  The array a run produces does not depend on the worker count or the schedule: in every
  terminated run the executed blocks, in their order of execution, leave the array that a single
  loop over all indices leaves.
\<close>
theorem executor_result_schedule_independent:
  assumes "exec_any\<^sup>*\<^sup>* (exec_initial n) s" "ex_caller s = Returned" "ex_blocks s = blocks count"
  shows "fold (array_block g index count) (rev (ex_log s)) xs = write_each g (map index [0..<count]) xs"
proof -
  have "fold (array_block g index count) (rev (ex_log s)) xs =
      fold (array_block g index count) [0..<blocks count] xs"
    by (rule array_job.any_order)
       (simp_all add: returned_log [OF assms(1,2)] assms(3) atLeast0LessThan)
  then show ?thesis by (simp add: blocks_in_order block_ranges_cover)
qed

theorem executor_result_schedule_independent_witness:
  "\<exists>s. exec_any\<^sup>*\<^sup>* (exec_initial 1) s \<and>
     fold (array_block (\<lambda>i. i * i) id 300) (rev (ex_log s)) (replicate 300 0) =
     write_each (\<lambda>i. i * i) [0..<300] (replicate 300 0)"
proof -
  obtain s where s: "exec_any\<^sup>*\<^sup>* (exec_initial 1) s" "ex_caller s = Returned" "ex_blocks s = 2"
    using executor_sample_run by blast
  have "blocks 300 = 2" by (simp add: blocks_def block_size_def)
  then have "fold (array_block (\<lambda>i. i * i) id 300) (rev (ex_log s)) (replicate 300 0) =
      write_each (\<lambda>i. i * i) (map id [0..<300]) (replicate 300 0)"
    using s(3) by (intro executor_result_schedule_independent [OF s(1,2)]) simp
  then show ?thesis using s(1) by auto
qed

text \<open>The error a run rethrows is the one of the first failing block.\<close>

lemma first_error_iff:
  "first_error es = Some e \<longleftrightarrow> (\<exists>i < length es. es ! i = Some e \<and> (\<forall>j < i. es ! j = None))"
proof (induction es rule: first_error.induct)
  case (2 x es)
  have "i = 0" if "\<forall>j < i. (Some x # es) ! j = None" for i
    using that by (metis gr0I nth_Cons_0 option.distinct(1))
  from this [of _] show ?case by (metis first_error.simps(2) length_Cons less_nat_zero_code nth_Cons_0 zero_less_Suc)
next
  case (3 es)
  show ?case
  proof
    assume "first_error (None # es) = Some e"
    then obtain i where "i < length es" "es ! i = Some e" "\<forall>j < i. es ! j = None" using 3 by auto
    then show "\<exists>i < length (None # es). (None # es) ! i = Some e \<and> (\<forall>j < i. (None # es) ! j = None)"
      by (intro exI [of _ "Suc i"]) (auto simp: nth_Cons split: nat.splits)
  next
    assume "\<exists>i < length (None # es). (None # es) ! i = Some e \<and> (\<forall>j < i. (None # es) ! j = None)"
    then obtain i where i: "i < length (None # es)" "(None # es) ! i = Some e" "\<forall>j < i. (None # es) ! j = None"
      by blast
    then obtain k where k: "i = Suc k" by (cases i) auto
    have "\<forall>j < k. es ! j = None" using i(3) k by (auto dest: spec [where x = "Suc _"])
    then show "first_error (None # es) = Some e" using 3 i k by auto
  qed
qed simp

lemma run_outcome_first: "run_outcome n failure = Some e \<longleftrightarrow>
    (\<exists>b < n. failure b = Some e \<and> (\<forall>a < b. failure a = None))"
  unfolding run_outcome_def first_error_iff by auto

subsection \<open>A run ends\<close>

text \<open>
  A bound on the steps that remain, thread by thread. A notification wakes a thread and so adds a
  step of that thread; the notifying thread pays for it.
\<close>

fun worker_left :: "nat \<Rightarrow> nat \<Rightarrow> worker \<Rightarrow> nat" where
  "worker_left g n (Asleep observed) = (if observed = g then 0 else n + 3)"
| "worker_left g n (Awake observed) = (if observed = g then 1 else n + 4)"
| "worker_left g n (Busy observed block) = n - block + 3"
| "worker_left g n Gone = 0"

fun caller_left :: "nat \<Rightarrow> nat \<Rightarrow> caller \<Rightarrow> nat" where
  "caller_left workers n Publishing = n + 4 + workers"
| "caller_left workers n (Running block) = n - block + 3"
| "caller_left workers n Waiting = 2"
| "caller_left workers n Sleeping = 1"
| "caller_left workers n Stopping = workers + 2"
| "caller_left workers n Joining = 1"
| "caller_left workers n _ = 0"

definition steps_left :: "exec_state \<Rightarrow> nat" where
  "steps_left s = caller_left (length (ex_workers s)) (ex_blocks s) (ex_caller s) +
     sum_list (map (worker_left (ex_generation s) (ex_blocks s)) (ex_workers s))"

lemma worker_step_left:
  assumes "w < length ws"
  shows "sum_list (map (worker_left g n) (ws[w := x])) + worker_left g n (ws ! w) =
    sum_list (map (worker_left g n) ws) + worker_left g n x"
proof -
  have "worker_left g n (ws ! w) \<le> sum_list (map (worker_left g n) ws)"
    using assms(1) by (intro member_le_sum_list) auto
  then show ?thesis using assms by (simp add: map_update sum_list_update)
qed

lemma woken_left: "sum_list (map (worker_left g n) (map wake_worker ws)) \<le> sum_list (map (worker_left g n) ws) + length ws"
proof (induction ws)
  case (Cons w ws)
  then show ?case by (cases w) simp_all
qed simp

lemma woken_caller_left: "caller_left k n (wake_caller c) \<le> caller_left k n c + 1"
  by (cases c) simp_all

text \<open>Inside a run, or inside the destructor.\<close>

definition in_run :: "exec_state \<Rightarrow> bool" where
  "in_run s \<longleftrightarrow> ex_caller s \<notin> {Ready, Returned, Destroyed}"

lemma step_decreases:
  assumes "exec_inv s" "in_run s" "exec_step s t"
  shows "steps_left t < steps_left s \<and> length (ex_workers t) = length (ex_workers s) \<and> ex_blocks t = ex_blocks s \<and>
    ex_stopping t = ex_stopping s \<and> ex_caller t \<noteq> Ready"
  using assms(3)
proof cases
  case publish
  then show ?thesis using woken_left [of "ex_generation s" "ex_blocks s" "ex_workers s"] by (simp add: steps_left_def notify_ready_def)
next
  case stop_notify
  then show ?thesis using woken_left [of "ex_generation s" "ex_blocks s" "ex_workers s"] by (simp add: steps_left_def notify_ready_def)
next
  case (sleep w observed)
  then show ?thesis using worker_step_left [OF sleep(2), of "ex_generation s" "ex_blocks s" "Asleep observed"] assms(2)
    by (auto simp: steps_left_def in_run_def)
next
  case (quit w observed)
  then show ?thesis using worker_step_left [OF quit(2), of "ex_generation s" "ex_blocks s" Gone] assms(2)
    by (auto simp: steps_left_def in_run_def split: if_splits)
next
  case (wake w observed)
  then show ?thesis
    using worker_step_left [OF wake(2), of "ex_generation s" "ex_blocks s" "Busy (ex_generation s) (Suc w)"] assms(2)
    by (auto simp: steps_left_def in_run_def)
next
  case (work w observed block)
  then show ?thesis
    using worker_step_left [OF work(2), of "ex_generation s" "ex_blocks s" "Busy observed (block + ex_count s)"] assms(2)
    by (auto simp: steps_left_def in_run_def ex_count_def)
next
  case (leave w observed block u)
  have "observed = ex_generation s" using worker_okI [OF assms(1) leave(2)] leave(3) by simp
  then show ?thesis
    using leave worker_step_left [OF leave(2), of "ex_generation s" "ex_blocks s" "Awake observed"] assms(2)
      woken_caller_left [of "length (ex_workers s)" "ex_blocks s" "ex_caller s"]
    by (cases "ex_caller s") (auto simp: steps_left_def in_run_def notify_finished_def)
qed (use assms(2) in \<open>auto simp: steps_left_def in_run_def ex_count_def\<close>)

lemma spurious_increases:
  assumes "spurious_wakeup s t"
  shows "steps_left t = steps_left s + 1 \<and> length (ex_workers t) = length (ex_workers s) \<and> ex_blocks t = ex_blocks s \<and>
    ex_stopping t = ex_stopping s \<and> (ex_caller s \<noteq> Ready \<longrightarrow> ex_caller t \<noteq> Ready)"
  using assms
proof cases
  case (worker_wakes w observed)
  then show ?thesis using worker_step_left [OF worker_wakes(2), of "ex_generation s" "ex_blocks s" "Awake observed"]
    by (auto simp: steps_left_def split: if_splits)
qed (auto simp: steps_left_def)

text \<open>\<open>m\<close> steps of the threads and \<open>k\<close> spurious wake-ups inside one run or one destruction.\<close>

inductive run_steps :: "nat \<Rightarrow> nat \<Rightarrow> exec_state \<Rightarrow> exec_state \<Rightarrow> bool" where
  run_none: "run_steps 0 0 s s"
| run_step: "run_steps m k s t \<Longrightarrow> in_run t \<Longrightarrow> exec_step t u \<Longrightarrow> run_steps (Suc m) k s u"
| run_spurious: "run_steps m k s t \<Longrightarrow> in_run t \<Longrightarrow> spurious_wakeup t u \<Longrightarrow> run_steps m (Suc k) s u"

lemma run_steps_bounded:
  "run_steps m k s t \<Longrightarrow> exec_inv s \<and> wait_inv s \<Longrightarrow> exec_inv t \<and> wait_inv t \<and> m + steps_left t \<le> steps_left s + k \<and>
     ex_stopping t = ex_stopping s \<and> (ex_caller s \<noteq> Ready \<longrightarrow> ex_caller t \<noteq> Ready)"
proof (induction rule: run_steps.induct)
  case (run_step m k s t u)
  then show ?case using step_decreases [of t u] exec_inv_any [of t u] by (auto simp: exec_any_def)
next
  case (run_spurious m k s t u)
  then show ?case using spurious_increases [of t u] exec_inv_any [of t u] by (auto simp: exec_any_def in_run_def)
qed simp

lemma steps_left_bound: "steps_left s \<le> (length (ex_workers s) + 1) * (ex_blocks s + 5)"
proof -
  have "worker_left g n w \<le> n + 4" "caller_left k n c \<le> n + 4 + k" for g n w k c by (cases w; simp)(cases c; simp)
  then have "sum_list (map (worker_left (ex_generation s) (ex_blocks s)) (ex_workers s)) \<le> sum_list (map (\<lambda>_. ex_blocks s + 4) (ex_workers s))"
    "caller_left (length (ex_workers s)) (ex_blocks s) (ex_caller s) \<le> ex_blocks s + 4 + length (ex_workers s)"
    by (auto intro: sum_list_mono)
  then show ?thesis by (simp add: steps_left_def sum_list_triv algebra_simps)
qed

lemma run_continues:
  assumes "exec_inv s \<and> wait_inv s" "ex_caller s \<noteq> Ready"
  shows "\<exists>m t. run_steps m 0 s t \<and> ex_caller t \<in> {Returned, Destroyed}"
proof -
  have "\<exists>m u. run_steps m 0 s u \<and> ex_caller u \<in> {Returned, Destroyed}"
    if "run_steps j 0 s t" "exec_inv t \<and> wait_inv t" "ex_caller t \<noteq> Ready" for j t
    using that
  proof (induction "steps_left t" arbitrary: j t rule: less_induct)
    case less
    show ?case
    proof (cases "in_run t")
      case True
      then obtain u where u: "exec_step t u" using exec_progress [of t] less.prems(2) by (auto simp: in_run_def)
      have "steps_left u < steps_left t" "ex_caller u \<noteq> Ready" using step_decreases [OF _ True u] less.prems(2) by auto
      moreover have "exec_inv u \<and> wait_inv u" using exec_inv_any [of t u] u less.prems(2) by (auto simp: exec_any_def)
      ultimately show ?thesis using less.hyps [OF _ run_step [OF less.prems(1) True u]] by blast
    qed (use less.prems in \<open>auto simp: in_run_def\<close>)
  qed
  from this [OF run_none] show ?thesis using assms by blast
qed

text \<open>
  C13. A run of the executor ends under every schedule, fair or not, although its threads sleep on condition
  variables: from any state inside a run, at most \<open>(workers + 1) * (blocks + 5)\<close> steps, and one more
  for every spurious wake-up, are possible before \<open>run\<close> has returned; and as long as it has not, the
  steps taken so far extend, without any spurious wake-up, to ones with which it does. The same holds of the
  destructor, and when it is done every thread has ended.
\<close>
theorem executor_run_ends:
  assumes "exec_any\<^sup>*\<^sup>* (exec_initial n) s" "ex_caller s \<noteq> Ready" "run_steps m k s t"
  shows "m \<le> (length (ex_workers s) + 1) * (ex_blocks s + 5) + k \<and>
    (\<exists>j u. run_steps j 0 t u \<and>
       (if ex_stopping s then ex_caller u = Destroyed \<and> list_all (\<lambda>w. w = Gone) (ex_workers u) else ex_caller u = Returned))"
proof -
  have bound: "exec_inv t \<and> wait_inv t" "m + steps_left t \<le> steps_left s + k" "ex_stopping t = ex_stopping s" "ex_caller t \<noteq> Ready"
    using run_steps_bounded [OF assms(3)] exec_inv_reachable [OF assms(1)] assms(2) by auto
  obtain j u where u: "run_steps j 0 t u" "ex_caller u \<in> {Returned, Destroyed}" using run_continues [OF bound(1,4)] by blast
  then have "wait_inv u" "ex_stopping u = ex_stopping s" using run_steps_bounded [OF u(1)] bound(1,3) by auto
  then have "if ex_stopping s then ex_caller u = Destroyed \<and> list_all (\<lambda>w. w = Gone) (ex_workers u) else ex_caller u = Returned"
    using u(2) by (auto simp: wait_inv_def)
  then show ?thesis using u(1) bound(2) steps_left_bound [of s] by fastforce
qed

theorem executor_run_ends_witness:
  "\<exists>s t. exec_any\<^sup>*\<^sup>* (exec_initial 1) s \<and> run_steps 1 0 s t \<and> ex_caller t = Joining \<and>
     (\<exists>j u. run_steps j 0 t u \<and> ex_caller u = Destroyed \<and> list_all (\<lambda>w. w = Gone) (ex_workers u))"
proof -
  let ?s = "(exec_initial 1)\<lparr>ex_caller := Stopping, ex_stopping := True\<rparr>"
  let ?t = "(notify_ready ?s)\<lparr>ex_caller := Joining\<rparr>"
  have "exec_step (exec_initial 1) ?s" using exec_step.stop [of "exec_initial 1"] by (simp add: exec_initial_def)
  then have s: "exec_any\<^sup>*\<^sup>* (exec_initial 1) ?s" by (intro r_into_rtranclp) (simp add: exec_any_def)
  have "exec_step ?s ?t" by (rule exec_step.stop_notify) simp
  then have t: "run_steps (Suc 0) 0 ?s ?t" by (intro run_step [OF run_none]) (simp_all add: in_run_def)
  have "ex_stopping ?s" "ex_caller ?s \<noteq> Ready" "ex_caller ?t = Joining" by simp_all
  then show ?thesis using executor_run_ends [OF s _ t] s t unfolding One_nat_def by metis
qed

end
