(* ===== verification/Comparison.thy ===== *)
theory Comparison
  imports Config Preprocess CpuExecutor
begin

text \<open>
  The comparison stage: the nearest-neighbour table (\<open>backends/pcl/pcl_comparison_backend.cpp\<close>),
  the scan-to-reference deviation field, the reference-to-scan coverage field and their statistics
  (\<open>comparison/*.cpp\<close>). The k-d tree query and the trigonometric functions are parameters.
\<close>

subsection \<open>pcl_comparison_backend.cpp\<close>

text \<open>
  \<open>nearestKSearch(point, 1, ...)\<close> on a cloud: nothing found, or an index and a squared distance.
\<close>

type_synonym nearest_search = "Vec3f list \<Rightarrow> Vec3f \<Rightarrow> (int \<times> f32) option"

definition comparison_error :: "string \<Rightarrow> Error" where
  "comparison_error reason =
     \<lparr>err_code = internal_error, err_stage = stage_compare,
      err_message = ''PCL nearest-neighbour search failed'', err_context = [(''reason'', reason)]\<rparr>"

record NearestNeighborResult =
  nn_neighbor_index :: "i32 list"
  nn_distance_mm :: "f32 list"

definition valid_indices :: "Surface \<Rightarrow> nat list" where
  "valid_indices s = filter (valid_at s) (logical_indices s)"

definition query_index :: "Surface \<Rightarrow> nat \<Rightarrow> nat" where
  "query_index s logical = (case sv_grid s of None \<Rightarrow> logical
     | Some g \<Rightarrow> (logical div unat (grid_width g)) * unat (grid_row_stride g) + logical mod unat (grid_width g))"

text \<open>The lambda \<open>query_one\<close>: the table entry it writes, if any.\<close>

definition query_one ::
  "nearest_search \<Rightarrow> Surface \<Rightarrow> Surface \<Rightarrow> f32 \<Rightarrow> nat \<Rightarrow> (i32 \<times> f32) option" where
  "query_one search reference query squared_limit index =
     (let storage_indices = valid_indices reference;
          cloud = map (\<lambda>i. sv_points reference ! i) storage_indices in
      if \<not> valid_at query index then None
      else case search cloud (sv_points query ! index) of
        None \<Rightarrow> None
      | Some (found, squared_distance) \<Rightarrow>
          if squared_limit < squared_distance then None
          else if found < 0 then None
          else if length storage_indices \<le> nat found then None
          else Some (of_nat (storage_indices ! nat found), fp_sqrt squared_distance))"

definition store_neighbor ::
  "nearest_search \<Rightarrow> Surface \<Rightarrow> Surface \<Rightarrow> f32 \<Rightarrow> nat \<Rightarrow> NearestNeighborResult \<Rightarrow> NearestNeighborResult" where
  "store_neighbor search reference query squared_limit index result =
     (case query_one search reference query squared_limit index of
        None \<Rightarrow> result
      | Some (n, d) \<Rightarrow> \<lparr>nn_neighbor_index = (nn_neighbor_index result)[index := n],
                        nn_distance_mm = (nn_distance_mm result)[index := d]\<rparr>)"

definition nearest_neighbors ::
  "nearest_search \<Rightarrow> Surface \<Rightarrow> Surface \<Rightarrow> f64 \<Rightarrow> u32 \<Rightarrow> NearestNeighborResult Result" where
  "nearest_neighbors search reference query max_distance_mm thread_count =
     (let result = \<lparr>nn_neighbor_index = replicate (storage_size query) (- 1),
                    nn_distance_mm = replicate (storage_size query) 0\<rparr> in
      if valid_indices reference = [] then Inr result
      else with_executor thread_count comparison_error
        (fold (\<lambda>logical. store_neighbor search reference query (narrow (max_distance_mm * max_distance_mm))
                 (query_index query logical))
           [0..<unat (sv_size query)] result))"

subsection \<open>deviation_field.cpp\<close>

datatype DeviationReason =
    dr_valid | dr_input_invalid | dr_no_neighbor | dr_normal_missing | dr_normal_mismatch | dr_reference_boundary

record DeviationSample =
  ds_euclidean_mm :: f64
  ds_signed_mm :: f64
  ds_normal_angle_deg :: f64
  ds_reason :: DeviationReason

record DeviationField =
  df_samples :: "DeviationSample list"
  df_valid_count :: nat

record trigonometry =
  tr_cos :: "f64 \<Rightarrow> f64"
  tr_acos :: "f64 \<Rightarrow> f64"

definition deviation_error :: "ErrorCode \<Rightarrow> string \<Rightarrow> string \<Rightarrow> Error" where
  "deviation_error code = field_error code stage_compare ''deviation field computation failed''"

definition default_sample :: DeviationSample where
  "default_sample = \<lparr>ds_euclidean_mm = 0, ds_signed_mm = 0, ds_normal_angle_deg = 0, ds_reason = dr_input_invalid\<rparr>"

text \<open>\<open>neighbor < 0\<close> on a 32-bit signed index.\<close>

definition is_negative :: "i32 \<Rightarrow> bool" where
  "is_negative n \<longleftrightarrow> 0x7FFFFFFF < n"

definition compute_deviation_sample ::
  "trigonometry \<Rightarrow> Surface \<Rightarrow> u8 list \<Rightarrow> Surface \<Rightarrow> f64 \<Rightarrow> NearestNeighborResult \<Rightarrow> nat \<Rightarrow> DeviationSample" where
  "compute_deviation_sample trig reference reference_boundary scan max_normal_cosine nearest index =
     (let neighbor = nn_neighbor_index nearest ! index; reference_storage = unat neighbor;
          reference_normal = sv_normals reference ! reference_storage;
          distance = widen (nn_distance_mm nearest ! index) in
      if \<not> valid_at scan index then default_sample\<lparr>ds_reason := dr_input_invalid\<rparr>
      else if is_negative neighbor then default_sample\<lparr>ds_reason := dr_no_neighbor\<rparr>
      else if \<not> 0 < vector_length reference_normal \<or> \<not> isfinite (vector_length reference_normal)
      then default_sample\<lparr>ds_reason := dr_normal_missing\<rparr>
      else let delta = sub3 (sv_points scan ! index) (sv_points reference ! reference_storage);
        scan_normal = sv_normals scan ! index;
        compared = (sv_normals scan \<noteq> [] \<and> 0 < vector_length scan_normal);
        cosine = std_clamp (dot3 reference_normal scan_normal /
                   (vector_length reference_normal * vector_length scan_normal)) (lit (- 1)) (lit 1);
        normal_angle = (if compared then tr_acos trig cosine * lit 180 / pi_double else 0) in
      if compared \<and> cosine < max_normal_cosine
      then \<lparr>ds_euclidean_mm = distance, ds_signed_mm = 0, ds_normal_angle_deg = normal_angle,
            ds_reason = dr_normal_mismatch\<rparr>
      else if reference_boundary \<noteq> [] \<and> reference_boundary ! reference_storage \<noteq> 0
      then \<lparr>ds_euclidean_mm = distance, ds_signed_mm = 0, ds_normal_angle_deg = normal_angle,
            ds_reason = dr_reference_boundary\<rparr>
      else \<lparr>ds_euclidean_mm = distance,
            ds_signed_mm = dot3 reference_normal delta / vector_length reference_normal,
            ds_normal_angle_deg = normal_angle, ds_reason = dr_valid\<rparr>)"

text \<open>The loop: one sample per logical index, and the count of trustworthy ones.\<close>

definition store_sample ::
  "(nat \<Rightarrow> DeviationSample) \<Rightarrow> nat \<Rightarrow> DeviationSample list \<times> nat \<Rightarrow> DeviationSample list \<times> nat" where
  "store_sample sample index state = (let (samples, valid_count) = state in
     (samples[index := sample index],
      if ds_reason (sample index) = dr_valid then valid_count + 1 else valid_count))"

definition compute_deviation_field ::
  "trigonometry \<Rightarrow> nearest_search \<Rightarrow> Surface \<Rightarrow> u8 list \<Rightarrow> Surface \<Rightarrow> ValidatedComparisonConfig \<Rightarrow> u32 \<Rightarrow>
     DeviationField Result" where
  "compute_deviation_field trig search reference reference_boundary scan config thread_count =
     require (sv_unit reference = millimeter)
       (deviation_error invalid_input ''reference.unit'' ''must be normalized to millimetres'') (
     require (sv_unit scan = millimeter)
       (deviation_error invalid_input ''aligned_scan.unit'' ''must be normalized to millimetres'') (
     require (sv_normals reference \<noteq> [])
       (deviation_error invalid_input ''reference.normals'' ''are required to compute signed deviation'') (
     require (\<not> (reference_boundary \<noteq> [] \<and> length reference_boundary \<noteq> storage_size reference))
       (deviation_error invalid_input ''reference_boundary'' ''must span the reference storage layout'') (
     rbind (nearest_neighbors search reference scan (vcc_max_search_distance_mm config) thread_count)
       (\<lambda>nearest.
     let max_normal_cosine = tr_cos trig (vcc_max_normal_angle_deg config * pi_double / lit 180);
         (samples, valid_count) = fold (store_sample (compute_deviation_sample trig reference
             reference_boundary scan max_normal_cosine nearest)) (logical_indices scan)
           (replicate (storage_size scan) default_sample, 0) in
     Inr \<lparr>df_samples = samples, df_valid_count = valid_count\<rparr>)))))"

subsection \<open>coverage_field.cpp\<close>

datatype CoverageReason = cr_covered | cr_input_invalid | cr_no_neighbor | cr_scan_boundary

record CoverageSample =
  cs_distance_mm :: f64
  cs_reason :: CoverageReason

record CoverageField =
  cf_samples :: "CoverageSample list"
  cf_covered_count :: nat
  cf_valid_count :: nat

definition coverage_ratio :: "CoverageField \<Rightarrow> f64" where
  "coverage_ratio f = (if cf_valid_count f = 0 then lit 0
     else of_count (cf_covered_count f) / of_count (cf_valid_count f))"

definition coverage_error :: "ErrorCode \<Rightarrow> string \<Rightarrow> string \<Rightarrow> Error" where
  "coverage_error code = field_error code stage_compare ''coverage field computation failed''"

definition compute_coverage_sample ::
  "Surface \<Rightarrow> u8 list \<Rightarrow> NearestNeighborResult \<Rightarrow> nat \<Rightarrow> CoverageSample" where
  "compute_coverage_sample reference scan_boundary nearest index =
     (let neighbor = nn_neighbor_index nearest ! index in
      if \<not> valid_at reference index then \<lparr>cs_distance_mm = 0, cs_reason = cr_input_invalid\<rparr>
      else if is_negative neighbor then \<lparr>cs_distance_mm = 0, cs_reason = cr_no_neighbor\<rparr>
      else let distance = widen (nn_distance_mm nearest ! index) in
        if scan_boundary \<noteq> [] \<and> scan_boundary ! unat neighbor \<noteq> 0
        then \<lparr>cs_distance_mm = distance, cs_reason = cr_scan_boundary\<rparr>
        else \<lparr>cs_distance_mm = distance, cs_reason = cr_covered\<rparr>)"

definition store_coverage ::
  "Surface \<Rightarrow> (nat \<Rightarrow> CoverageSample) \<Rightarrow> nat \<Rightarrow> CoverageField \<Rightarrow> CoverageField" where
  "store_coverage reference sample index f =
     f\<lparr>cf_samples := (cf_samples f)[index := sample index],
       cf_valid_count := cf_valid_count f + (if valid_at reference index then 1 else 0),
       cf_covered_count := cf_covered_count f + (if cs_reason (sample index) = cr_covered then 1 else 0)\<rparr>"

definition compute_coverage_field ::
  "nearest_search \<Rightarrow> Surface \<Rightarrow> Surface \<Rightarrow> u8 list \<Rightarrow> ValidatedComparisonConfig \<Rightarrow> u32 \<Rightarrow> CoverageField Result" where
  "compute_coverage_field search reference scan scan_boundary config thread_count =
     require (sv_unit reference = millimeter)
       (coverage_error invalid_input ''reference.unit'' ''must be normalized to millimetres'') (
     require (sv_unit scan = millimeter)
       (coverage_error invalid_input ''aligned_scan.unit'' ''must be normalized to millimetres'') (
     require (\<not> (scan_boundary \<noteq> [] \<and> length scan_boundary \<noteq> storage_size scan))
       (coverage_error invalid_input ''scan_boundary'' ''must span the aligned scan storage layout'') (
     rbind (nearest_neighbors search scan reference (vcc_max_search_distance_mm config) thread_count)
       (\<lambda>nearest.
     Inr (fold (store_coverage reference (compute_coverage_sample reference scan_boundary nearest))
            (logical_indices reference)
            \<lparr>cf_samples = replicate (storage_size reference) \<lparr>cs_distance_mm = 0, cs_reason = cr_input_invalid\<rparr>,
             cf_covered_count = 0, cf_valid_count = 0\<rparr>)))))"

subsection \<open>comparison_statistics.cpp\<close>

record DeviationStatistics =
  st_valid_count :: nat
  st_mean_signed_mm :: f64
  st_rms_mm :: f64
  st_max_abs_mm :: f64
  st_p95_abs_mm :: f64
  st_input_invalid :: nat
  st_no_neighbor :: nat
  st_normal_missing :: nat
  st_normal_mismatch :: nat
  st_reference_boundary :: nat

text \<open>The local variables of the accumulation loop.\<close>

record deviation_sums =
  su_statistics :: DeviationStatistics
  su_absolute :: "f64 list"
  su_signed :: f64
  su_squared :: f64
  su_maximum :: f64

definition accumulate_deviation :: "DeviationSample \<Rightarrow> deviation_sums \<Rightarrow> deviation_sums" where
  "accumulate_deviation sample u = (let st = su_statistics u; x = ds_signed_mm sample in
     case ds_reason sample of
       dr_valid \<Rightarrow> \<lparr>su_statistics = st\<lparr>st_valid_count := st_valid_count st + 1\<rparr>,
          su_absolute = su_absolute u @ [\<bar>x\<bar>], su_signed = su_signed u + x,
          su_squared = su_squared u + x * x, su_maximum = std_max (su_maximum u) \<bar>x\<bar>\<rparr>
     | dr_input_invalid \<Rightarrow> u\<lparr>su_statistics := st\<lparr>st_input_invalid := st_input_invalid st + 1\<rparr>\<rparr>
     | dr_no_neighbor \<Rightarrow> u\<lparr>su_statistics := st\<lparr>st_no_neighbor := st_no_neighbor st + 1\<rparr>\<rparr>
     | dr_normal_missing \<Rightarrow> u\<lparr>su_statistics := st\<lparr>st_normal_missing := st_normal_missing st + 1\<rparr>\<rparr>
     | dr_normal_mismatch \<Rightarrow> u\<lparr>su_statistics := st\<lparr>st_normal_mismatch := st_normal_mismatch st + 1\<rparr>\<rparr>
     | dr_reference_boundary \<Rightarrow>
         u\<lparr>su_statistics := st\<lparr>st_reference_boundary := st_reference_boundary st + 1\<rparr>\<rparr>)"

text \<open>\<open>ceil(0.95 * n) - 1\<close>, clamped to the last element; \<open>n\<close> is the number of values.\<close>

definition percentile_index :: "nat \<Rightarrow> nat" where
  "percentile_index n = nat \<lfloor>val (fp_ceil (lit (95 / 100) * of_count n))\<rfloor>"

definition clamped_percentile :: "nat \<Rightarrow> nat" where
  "clamped_percentile n =
     (if percentile_index n = 0 then 0 else min (percentile_index n - 1) (n - 1))"

definition zero_statistics :: DeviationStatistics where
  "zero_statistics = \<lparr>st_valid_count = 0, st_mean_signed_mm = 0, st_rms_mm = 0, st_max_abs_mm = 0,
     st_p95_abs_mm = 0, st_input_invalid = 0, st_no_neighbor = 0, st_normal_missing = 0,
     st_normal_mismatch = 0, st_reference_boundary = 0\<rparr>"

definition summarize_deviation :: "DeviationField \<Rightarrow> DeviationStatistics" where
  "summarize_deviation f =
     (let u = fold accumulate_deviation (df_samples f)
                \<lparr>su_statistics = zero_statistics, su_absolute = [], su_signed = lit 0, su_squared = lit 0,
                 su_maximum = lit 0\<rparr>;
          st = su_statistics u; n = of_count (st_valid_count st) in
      if 0 < st_valid_count st
      then st\<lparr>st_mean_signed_mm := su_signed u / n, st_rms_mm := fp_sqrt (su_squared u / n),
              st_max_abs_mm := su_maximum u,
              st_p95_abs_mm := fp_sort (su_absolute u) ! clamped_percentile (length (su_absolute u))\<rparr>
      else st)"

record CoverageSummary =
  sm_valid_count :: nat
  sm_covered_count :: nat
  sm_coverage_ratio :: f64
  sm_input_invalid :: nat
  sm_no_neighbor :: nat
  sm_scan_boundary :: nat

definition count_coverage :: "CoverageSample \<Rightarrow> CoverageSummary \<Rightarrow> CoverageSummary" where
  "count_coverage sample summary = (case cs_reason sample of
     cr_covered \<Rightarrow> summary
   | cr_input_invalid \<Rightarrow> summary\<lparr>sm_input_invalid := sm_input_invalid summary + 1\<rparr>
   | cr_no_neighbor \<Rightarrow> summary\<lparr>sm_no_neighbor := sm_no_neighbor summary + 1\<rparr>
   | cr_scan_boundary \<Rightarrow> summary\<lparr>sm_scan_boundary := sm_scan_boundary summary + 1\<rparr>)"

definition summarize_coverage :: "CoverageField \<Rightarrow> CoverageSummary" where
  "summarize_coverage f = fold count_coverage (cf_samples f)
     \<lparr>sm_valid_count = cf_valid_count f, sm_covered_count = cf_covered_count f,
      sm_coverage_ratio = coverage_ratio f, sm_input_invalid = 0, sm_no_neighbor = 0, sm_scan_boundary = 0\<rparr>"

subsection \<open>The neighbour table\<close>

lemma grid_indices_by_number:
  "0 < unat (grid_width g) \<Longrightarrow>
   grid_indices g = map (\<lambda>l. (l div unat (grid_width g)) * unat (grid_row_stride g) + l mod unat (grid_width g))
     [0..<unat (grid_width g) * unat (grid_height g)]"
proof -
  let ?w = "unat (grid_width g)" and ?s = "unat (grid_row_stride g)"
  assume w: "0 < ?w"
  have "concat (map (\<lambda>row. map (\<lambda>column. row * ?s + column) [0..<?w]) [0..<h]) =
      map (\<lambda>l. (l div ?w) * ?s + l mod ?w) [0..<?w * h]" for h
  proof (induction h)
    case (Suc h)
    have "[0..<?w * Suc h] = [0..<?w * h] @ map (\<lambda>c. ?w * h + c) [0..<?w]"
      using upt_add_eq_append [of 0 "?w * h" ?w] by (simp add: map_add_upt add.commute)
    then show ?case using Suc w by (simp add: div_add1_eq mult.commute)
  qed simp
  then show ?thesis by (simp add: grid_indices_def)
qed

lemma query_indices: "surface_ok s \<Longrightarrow> map (query_index s) [0..<unat (sv_size s)] = logical_indices s"
proof (cases "sv_grid s")
  case None
  assume "surface_ok s"
  then have "unat (sv_size s) = storage_size s"
    using None by (simp add: surface_ok_def logical_indices_def storage_indices_def)
  moreover have "query_index s = id" using None by (auto simp: query_index_def)
  ultimately show ?thesis using None by (simp add: logical_indices_def storage_indices_def)
next
  case (Some g)
  assume s: "surface_ok s"
  have w: "0 < unat (grid_width g)"
    using s Some by (simp add: surface_ok_def surface_data_ok_def grid_matches_def unat_gt_0)
  have n: "unat (sv_size s) = unat (grid_width g) * unat (grid_height g)"
    using s Some by (simp add: surface_ok_def logical_indices_def storage_indices_def length_grid_indices)
  have "query_index s = (\<lambda>l. (l div unat (grid_width g)) * unat (grid_row_stride g) + l mod unat (grid_width g))"
    using Some by (auto simp: query_index_def)
  then show ?thesis
    unfolding n logical_indices_def storage_indices_def Some option.case grid_indices_by_number [OF w] by simp
qed

lemma store_neighbor_slots:
  "i < length (nn_neighbor_index t) \<Longrightarrow> i < length (nn_distance_mm t) \<Longrightarrow>
   nn_neighbor_index (fold (store_neighbor search r q sq) js t) ! i =
     (case query_one search r q sq i of
        Some (n, d) \<Rightarrow> if i \<in> set js then n else nn_neighbor_index t ! i
      | None \<Rightarrow> nn_neighbor_index t ! i) \<and>
   nn_distance_mm (fold (store_neighbor search r q sq) js t) ! i =
     (case query_one search r q sq i of
        Some (n, d) \<Rightarrow> if i \<in> set js then d else nn_distance_mm t ! i
      | None \<Rightarrow> nn_distance_mm t ! i)"
proof (induction js arbitrary: t)
  case Nil
  then show ?case by (auto split: option.splits)
next
  case (Cons j js)
  let ?t = "store_neighbor search r q sq j t"
  have len: "length (nn_neighbor_index ?t) = length (nn_neighbor_index t)"
      "length (nn_distance_mm ?t) = length (nn_distance_mm t)"
    by (auto simp: store_neighbor_def split: option.splits prod.splits)
  have at: "nn_neighbor_index ?t ! i = (if i = j then case query_one search r q sq i of Some (n, d) \<Rightarrow> n
        | None \<Rightarrow> nn_neighbor_index t ! i else nn_neighbor_index t ! i)"
      "nn_distance_mm ?t ! i = (if i = j then case query_one search r q sq i of Some (n, d) \<Rightarrow> d
        | None \<Rightarrow> nn_distance_mm t ! i else nn_distance_mm t ! i)"
    using Cons.prems by (auto simp: store_neighbor_def nth_list_update split: option.splits prod.splits)
  show ?case
  proof (cases "i = j")
    case True
    then show ?thesis using Cons.IH [of ?t] Cons.prems len at by (auto split: option.splits prod.splits)
  next
    case False
    then show ?thesis using Cons.IH [of ?t] Cons.prems len at by (auto split: option.splits prod.splits)
  qed
qed

lemma store_neighbor_lengths:
  "length (nn_neighbor_index (fold (store_neighbor search r q sq) js t)) = length (nn_neighbor_index t) \<and>
   length (nn_distance_mm (fold (store_neighbor search r q sq) js t)) = length (nn_distance_mm t)"
proof (induction js arbitrary: t)
  case (Cons j js)
  then show ?case by (auto simp: store_neighbor_def split: option.splits prod.splits)
qed simp

lemma nearest_neighbors_Inr:
  assumes q: "surface_ok q" and r: "nearest_neighbors search r q d tc = Inr t"
  shows "length (nn_neighbor_index t) = storage_size q \<and> length (nn_distance_mm t) = storage_size q \<and>
    (\<forall>i < storage_size q. (nn_neighbor_index t ! i, nn_distance_mm t ! i) =
       (if i \<in> set (logical_indices q) \<and> valid_indices r \<noteq> []
        then case query_one search r q (narrow (d * d)) i of Some e \<Rightarrow> e | None \<Rightarrow> (- 1, 0)
        else (- 1, 0)))"
proof -
  let ?z = "\<lparr>nn_neighbor_index = replicate (storage_size q) (- 1), nn_distance_mm = replicate (storage_size q) 0\<rparr>"
  show ?thesis
  proof (cases "valid_indices r = []")
    case True
    then show ?thesis using r by (auto simp: nearest_neighbors_def)
  next
    case False
    then have "t = fold (store_neighbor search r q (narrow (d * d))) (map (query_index q) [0..<unat (sv_size q)]) ?z"
      using r by (simp add: nearest_neighbors_def with_executor_def fold_map comp_def split: if_splits)
    then have t: "t = fold (store_neighbor search r q (narrow (d * d))) (logical_indices q) ?z"
      by (simp only: query_indices [OF q])
    show ?thesis
      using False store_neighbor_lengths [of search r q "narrow (d * d)" "logical_indices q" ?z]
        store_neighbor_slots [of _ ?z search r q "narrow (d * d)" "logical_indices q"]
      unfolding t by (auto split: option.splits)
  qed
qed

lemma valid_indices_bound: "surface_ok r \<Longrightarrow> j \<in> set (valid_indices r) \<Longrightarrow> j < storage_size r \<and> valid_at r j"
  using surface_walk.indices_bound by (auto simp: valid_indices_def)

lemma index_as_i32: "j < 2 ^ 31 \<Longrightarrow> unat (of_nat j :: i32) = j \<and> \<not> is_negative (of_nat j)"
  by (simp add: is_negative_def word_less_nat_alt unat_of_nat)

lemma query_one_index:
  assumes "surface_ok r" "storage_size r \<le> 2 ^ 31" "query_one search r q sq i = Some (n, d)"
  shows "unat n \<in> set (valid_indices r) \<and> \<not> is_negative n \<and> valid_at q i"
proof -
  obtain k where k: "k < length (valid_indices r)" "n = of_nat (valid_indices r ! k)" "valid_at q i"
    using assms(3) by (auto simp: query_one_def Let_def not_le split: if_splits option.splits prod.splits)
  then have m: "valid_indices r ! k \<in> set (valid_indices r)" by simp
  then have "valid_indices r ! k < 2 ^ 31" using valid_indices_bound [OF assms(1)] assms(2) by fastforce
  then show ?thesis using k m index_as_i32 by simp
qed

text \<open>
  The parallel nearest-neighbour query fills the table exactly as one query per logical point
  would: an entry is the checked answer of the search for that point, or -1 with distance 0, and
  every slot that is no logical point stays -1.
\<close>
theorem nearest_neighbors_table:
  assumes "surface_ok q" "nearest_neighbors search r q d tc = Inr t"
  shows "length (nn_neighbor_index t) = storage_size q \<and> length (nn_distance_mm t) = storage_size q \<and>
    (\<forall>i < storage_size q. (nn_neighbor_index t ! i, nn_distance_mm t ! i) =
       (if i \<in> set (logical_indices q) \<and> valid_indices r \<noteq> []
        then case query_one search r q (narrow (d * d)) i of Some e \<Rightarrow> e | None \<Rightarrow> (- 1, 0)
        else (- 1, 0)))"
  by (rule nearest_neighbors_Inr [OF assms])

definition first_point_search :: nearest_search where
  "first_point_search cloud p = Some (0, 0)"

theorem nearest_neighbors_table_witness:
  "\<exists>t. nearest_neighbors first_point_search sample_mm_surface sample_mm_surface 1 2 = Inr t \<and>
     length (nn_neighbor_index t) = 2"
proof -
  have ok: "surface_ok sample_mm_surface" by code_simp
  have "is_ok (nearest_neighbors first_point_search sample_mm_surface sample_mm_surface 1 2)"
    by (simp add: nearest_neighbors_def with_executor_def Let_def)
  then obtain t where t: "nearest_neighbors first_point_search sample_mm_surface sample_mm_surface 1 2 = Inr t"
    by (auto simp: is_ok_iff)
  have "storage_size sample_mm_surface = 2" by code_simp
  then show ?thesis using nearest_neighbors_table [OF ok t] t by simp
qed

lemma minus_one_negative [simp]: "is_negative (- 1)"
  by (simp add: is_negative_def)

text \<open>
  The interface the two fields rely on: an entry of the table that is not negative names a valid
  reference point and belongs to a valid query point.
\<close>

locale neighbor_lookup =
  fixes table :: "Surface \<Rightarrow> Surface \<Rightarrow> NearestNeighborResult \<Rightarrow> bool"
  assumes entry: "table r q t \<Longrightarrow> surface_ok r \<Longrightarrow> surface_ok q \<Longrightarrow> storage_size r \<le> 2 ^ 31 \<Longrightarrow>
    i \<in> set (logical_indices q) \<Longrightarrow> \<not> is_negative (nn_neighbor_index t ! i) \<Longrightarrow>
    unat (nn_neighbor_index t ! i) \<in> set (valid_indices r) \<and> valid_at q i"
begin

lemma entry_in_storage:
  assumes "table r q t" "surface_ok r" "surface_ok q" "storage_size r \<le> 2 ^ 31"
    "i \<in> set (logical_indices q)" "\<not> is_negative (nn_neighbor_index t ! i)"
  shows "unat (nn_neighbor_index t ! i) < storage_size r" "valid_at r (unat (nn_neighbor_index t ! i))"
  using entry [OF assms] valid_indices_bound [OF assms(2)] by auto

lemma usable_deviation:
  assumes "table r q t" "surface_ok r" "surface_ok q" "storage_size r \<le> 2 ^ 31" "i \<in> set (logical_indices q)"
    and "ds_reason (compute_deviation_sample trig r b q c t i) = dr_valid"
  shows "\<exists>j \<in> set (valid_indices r). valid_at q i \<and> unat (nn_neighbor_index t ! i) = j \<and>
    0 < vector_length (sv_normals r ! j) \<and> isfinite (vector_length (sv_normals r ! j)) \<and> (b \<noteq> [] \<longrightarrow> b ! j = 0) \<and>
    ds_euclidean_mm (compute_deviation_sample trig r b q c t i) = widen (nn_distance_mm t ! i) \<and>
    ds_signed_mm (compute_deviation_sample trig r b q c t i) =
      dot3 (sv_normals r ! j) (sub3 (sv_points q ! i) (sv_points r ! j)) / vector_length (sv_normals r ! j)"
proof -
  have "\<not> is_negative (nn_neighbor_index t ! i)"
    using assms(6) by (auto simp: compute_deviation_sample_def default_sample_def Let_def split: if_splits)
  then have "unat (nn_neighbor_index t ! i) \<in> set (valid_indices r)" using entry assms(1-5) by blast
  then show ?thesis using assms(6)
    by (intro bexI [of _ "unat (nn_neighbor_index t ! i)"])
       (auto simp: compute_deviation_sample_def default_sample_def Let_def split: if_splits)
qed

lemma covered_point:
  assumes "table r q t" "surface_ok r" "surface_ok q" "storage_size r \<le> 2 ^ 31" "i \<in> set (logical_indices q)"
    and "cs_reason (compute_coverage_sample q b t i) = cr_covered"
  shows "\<exists>j \<in> set (valid_indices r). valid_at q i \<and> unat (nn_neighbor_index t ! i) = j \<and> (b \<noteq> [] \<longrightarrow> b ! j = 0)"
proof -
  have "\<not> is_negative (nn_neighbor_index t ! i)"
    using assms(6) by (auto simp: compute_coverage_sample_def Let_def split: if_splits)
  then have "unat (nn_neighbor_index t ! i) \<in> set (valid_indices r)" using entry assms(1-5) by blast
  then show ?thesis using assms(6)
    by (intro bexI [of _ "unat (nn_neighbor_index t ! i)"])
       (auto simp: compute_coverage_sample_def Let_def split: if_splits)
qed

end

interpretation pcl_lookup: neighbor_lookup "\<lambda>r q t. \<exists>search d tc. nearest_neighbors search r q d tc = Inr t"
proof
  fix r q t i
  assume "\<exists>search d tc. nearest_neighbors search r q d tc = Inr t" and r: "surface_ok r" and q: "surface_ok q"
    and n: "storage_size r \<le> 2 ^ 31" and i: "i \<in> set (logical_indices q)"
    and pos: "\<not> is_negative (nn_neighbor_index t ! i)"
  then obtain search d tc where t: "nearest_neighbors search r q d tc = Inr t" by blast
  have at: "(nn_neighbor_index t ! i, nn_distance_mm t ! i) =
      (if valid_indices r \<noteq> [] then case query_one search r q (narrow (d * d)) i of Some e \<Rightarrow> e | None \<Rightarrow> (- 1, 0)
       else (- 1, 0))"
    using nearest_neighbors_Inr [OF q t] surface_walk.indices_bound [OF q i] i by simp
  then obtain e where "query_one search r q (narrow (d * d)) i = Some (nn_neighbor_index t ! i, e)"
    using pos by (auto split: if_splits option.splits)
  then show "unat (nn_neighbor_index t ! i) \<in> set (valid_indices r) \<and> valid_at q i"
    using query_one_index [OF r n] by blast
qed

subsection \<open>The deviation field\<close>

lemma store_sample_fold:
  "fold (store_sample f) js (xs, n) = (write_each f js xs, n + length (filter (\<lambda>i. ds_reason (f i) = dr_valid) js))"
  by (induction js arbitrary: xs n) (simp_all add: store_sample_def write_each_def)

lemma compute_deviation_field_Inr:
  assumes "compute_deviation_field trig search r b q config tc = Inr f"
  obtains t where "nearest_neighbors search r q (vcc_max_search_distance_mm config) tc = Inr t"
    "df_samples f = write_each (compute_deviation_sample trig r b q
        (tr_cos trig (vcc_max_normal_angle_deg config * pi_double / lit 180)) t)
        (logical_indices q) (replicate (storage_size q) default_sample)"
    "df_valid_count f = length (filter (\<lambda>i. ds_reason (compute_deviation_sample trig r b q
        (tr_cos trig (vcc_max_normal_angle_deg config * pi_double / lit 180)) t i) = dr_valid) (logical_indices q))"
  using assms unfolding compute_deviation_field_def
  by (auto simp: require_Inr_iff rbind_Inr_iff store_sample_fold Let_def)


subsection \<open>The coverage field\<close>

lemma store_coverage_fold:
  "fold (store_coverage r f) js c = \<lparr>cf_samples = write_each f js (cf_samples c),
     cf_covered_count = cf_covered_count c + length (filter (\<lambda>i. cs_reason (f i) = cr_covered) js),
     cf_valid_count = cf_valid_count c + length (filter (valid_at r) js)\<rparr>"
  by (induction js arbitrary: c) (simp_all add: store_coverage_def write_each_def)

lemma covered_valid: "cs_reason (compute_coverage_sample r b t i) = cr_covered \<Longrightarrow> valid_at r i"
  by (auto simp: compute_coverage_sample_def Let_def split: if_splits)

lemma filter_length_mono: "(\<And>i. i \<in> set js \<Longrightarrow> P i \<Longrightarrow> Q i) \<Longrightarrow> length (filter P js) \<le> length (filter Q js)"
proof (induction js)
  case (Cons j js)
  have "length (filter P js) \<le> length (filter Q js)" using Cons by simp
  then show ?case using Cons.prems [of j] by auto
qed simp

lemma compute_coverage_field_Inr:
  assumes "compute_coverage_field search r q b config tc = Inr f"
  obtains t where "nearest_neighbors search q r (vcc_max_search_distance_mm config) tc = Inr t"
    "cf_samples f = write_each (compute_coverage_sample r b t) (logical_indices r)
       (replicate (storage_size r) \<lparr>cs_distance_mm = 0, cs_reason = cr_input_invalid\<rparr>)"
    "cf_covered_count f = length (filter (\<lambda>i. cs_reason (compute_coverage_sample r b t i) = cr_covered) (logical_indices r))"
    "cf_valid_count f = length (filter (valid_at r) (logical_indices r))"
  using assms unfolding compute_coverage_field_def
  by (auto simp: require_Inr_iff rbind_Inr_iff store_coverage_fold)

text \<open>
  A coverage field counts each valid reference point once and each covered one once, so that
  \<open>covered <= valid <= size\<close>; every covered point has a valid scan neighbour off the scan boundary;
  and the coverage ratio is a finite number in [0, 1].
\<close>
theorem coverage_field_correct:
  assumes r: "surface_ok r" and q: "surface_ok q" and n: "storage_size q \<le> 2 ^ 31"
    and f: "compute_coverage_field search r q b config tc = Inr f"
  shows "cf_covered_count f = card {i. i < storage_size r \<and> cs_reason (cf_samples f ! i) = cr_covered} \<and>
    cf_valid_count f = card {i \<in> set (logical_indices r). valid_at r i} \<and>
    cf_covered_count f \<le> cf_valid_count f \<and> cf_valid_count f \<le> unat (sv_size r) \<and>
    (\<forall>i < storage_size r. cs_reason (cf_samples f ! i) = cr_covered \<longrightarrow>
       (\<exists>j < storage_size q. valid_at q j \<and> (b \<noteq> [] \<longrightarrow> b ! j = 0))) \<and>
    isfinite (coverage_ratio f) \<and> 0 \<le> coverage_ratio f \<and> coverage_ratio f \<le> 1"
proof -
  obtain t where t: "nearest_neighbors search q r (vcc_max_search_distance_mm config) tc = Inr t"
    and samples: "cf_samples f = write_each (compute_coverage_sample r b t) (logical_indices r)
       (replicate (storage_size r) \<lparr>cs_distance_mm = 0, cs_reason = cr_input_invalid\<rparr>)"
    and covered: "cf_covered_count f = length (filter (\<lambda>i. cs_reason (compute_coverage_sample r b t i) = cr_covered) (logical_indices r))"
    and valid: "cf_valid_count f = length (filter (valid_at r) (logical_indices r))"
    using f by (rule compute_coverage_field_Inr)
  have at: "cf_samples f ! i = (if i \<in> set (logical_indices r) then compute_coverage_sample r b t i
      else \<lparr>cs_distance_mm = 0, cs_reason = cr_input_invalid\<rparr>)" if "i < storage_size r" for i
    using that by (simp add: samples nth_write_each)
  have "{i. i < storage_size r \<and> cs_reason (cf_samples f ! i) = cr_covered} =
      {i \<in> set (logical_indices r). cs_reason (compute_coverage_sample r b t i) = cr_covered}"
    using surface_walk.indices_bound [OF r] by (auto simp: at split: if_splits)
  then have c: "cf_covered_count f = card {i. i < storage_size r \<and> cs_reason (cf_samples f ! i) = cr_covered}"
    unfolding covered using surface_walk.count_visited [OF r] by simp
  have le: "cf_covered_count f \<le> cf_valid_count f"
    unfolding covered valid by (rule filter_length_mono) (rule covered_valid)
  have size: "cf_valid_count f \<le> unat (sv_size r)"
    unfolding valid using r by (simp add: surface_ok_def)
  have "\<exists>j < storage_size q. valid_at q j \<and> (b \<noteq> [] \<longrightarrow> b ! j = 0)"
    if "i \<in> set (logical_indices r)" "cs_reason (compute_coverage_sample r b t i) = cr_covered" for i
    using pcl_lookup.covered_point [OF _ q r n that] t valid_indices_bound [OF q] by blast
  then have neighbors: "\<forall>i < storage_size r. cs_reason (cf_samples f ! i) = cr_covered \<longrightarrow>
       (\<exists>j < storage_size q. valid_at q j \<and> (b \<noteq> [] \<longrightarrow> b ! j = 0))"
    by (auto simp: at split: if_splits)
  have "cf_valid_count f < 2 ^ 64" using size unsigned_less [where 'a = nat and w = "sv_size r"] by simp
  then have ratio: "isfinite (coverage_ratio f) \<and> 0 \<le> coverage_ratio f \<and> coverage_ratio f \<le> 1"
    using count_ratio_unit_interval [of "cf_covered_count f" "cf_valid_count f"] le
    by (auto simp: coverage_ratio_def fp_eval)
  show ?thesis using c le size neighbors ratio surface_walk.count_visited [OF r, of "valid_at r"] valid by simp
qed

lemma sample_lookup: "is_ok (nearest_neighbors first_point_search r q d 1)"
  by (simp add: nearest_neighbors_def with_executor_def Let_def)

definition sample_comparison :: ValidatedComparisonConfig where
  "sample_comparison = vc_comparison sample_config"

theorem coverage_field_correct_witness:
  "\<exists>f. compute_coverage_field first_point_search sample_oriented_surface sample_mm_surface [] sample_comparison 1 = Inr f \<and>
     coverage_ratio f \<le> 1"
proof -
  let ?c = "compute_coverage_field first_point_search sample_oriented_surface sample_mm_surface [] sample_comparison 1"
  have ok: "surface_ok sample_oriented_surface" "surface_ok sample_mm_surface" by code_simp+
  have u: "sv_unit sample_oriented_surface = millimeter" "sv_unit sample_mm_surface = millimeter" by code_simp+
  obtain t where "nearest_neighbors first_point_search sample_mm_surface sample_oriented_surface
      (vcc_max_search_distance_mm sample_comparison) 1 = Inr t"
    using sample_lookup [of sample_mm_surface sample_oriented_surface "vcc_max_search_distance_mm sample_comparison"]
    by (auto simp: is_ok_iff)
  then have "is_ok ?c" using u by (simp add: compute_coverage_field_def)
  then obtain f where f: "?c = Inr f" by (auto simp: is_ok_iff)
  have "storage_size sample_mm_surface \<le> 2 ^ 31"
    by (simp add: storage_size_def sample_mm_surface_def sample_surface_def)
  from coverage_field_correct [OF ok this f] have "coverage_ratio f \<le> 1" by (elim conjE)
  with f show ?thesis by blast
qed

definition sample_trigonometry :: trigonometry where
  "sample_trigonometry = \<lparr>tr_cos = \<lambda>_. 1, tr_acos = \<lambda>_. 0\<rparr>"


subsection \<open>Statistics\<close>

lemma set_fp_insort [simp]: "set (fp_insort x xs) = insert x (set xs)"
  by (induction xs) auto

lemma length_fp_insort [simp]: "length (fp_insort x xs) = Suc (length xs)"
  by (induction xs) auto

lemma set_fp_sort [simp]: "set (fp_sort xs) = set xs"
  unfolding fp_sort_def by (induction xs) auto

lemma length_fp_sort [simp]: "length (fp_sort xs) = length xs"
  unfolding fp_sort_def by (induction xs) auto

lemma fp_insort_sorted:
  "\<forall>y \<in> set (x # xs). \<not> is_nan y \<Longrightarrow> sorted_wrt (\<le>) xs \<Longrightarrow> sorted_wrt (\<le>) (fp_insort x xs)"
proof (induction xs)
  case (Cons y ys)
  show ?case
  proof (cases "y < x")
    case True
    then show ?thesis using Cons by (auto intro: fp_less_imp_le)
  next
    case False
    then have "x \<le> y" using Cons.prems(1) by (simp add: fp_not_less)
    then show ?thesis using False Cons.prems by (auto intro: fp_le_trans)
  qed
qed simp

lemma fp_sort_sorted: "\<forall>y \<in> set xs. \<not> is_nan y \<Longrightarrow> sorted_wrt (\<le>) (fp_sort xs)"
proof (induction xs)
  case (Cons x xs)
  then have "sorted_wrt (\<le>) (fp_insort x (fp_sort xs))" by (intro fp_insort_sorted) auto
  then show ?case by (simp add: fp_sort_def)
qed (simp add: fp_sort_def)

lemma literal_95_percent: "lit (95 / 100) = (Num (8556839292003942 / 2 ^ 53) :: f64)"
  by code_simp

lemma ceil_finite: "isfinite x \<Longrightarrow> \<lfloor>val (fp_ceil x)\<rfloor> = \<lceil>val x\<rceil>"
  by (cases x) (auto simp: ceiling_eq_iff)

lemma representable_fixed: "representable f q \<Longrightarrow> to_grid f q = q"
  by (simp add: representable_def)

text \<open>The product inside \<open>percentile_index\<close> is a number, and its value the rounded product of the values.\<close>

lemma percentile_product:
  assumes "n < 2 ^ 40"
  shows "isfinite (lit (95 / 100) * of_count n :: f64)"
    and "val (lit (95 / 100) * of_count n :: f64) = to_grid TYPE(64) (8556839292003942 / 2 ^ 53 * of_nat n)"
proof -
  let ?c = "8556839292003942 / 2 ^ 53 :: rat" and ?x = "lit (95 / 100) * of_count n :: f64"
  have "of_count n = (Num (of_nat n) :: f64)" using assms by (intro of_count_exact) simp
  then have x: "?x = rnd (?c * of_nat n)" unfolding literal_95_percent by (simp add: times_fp_def rnd_def)
  have "(of_nat n :: rat) < 2 ^ 40" using assms of_nat_less_iff [of n "2 ^ 40", where 'a = rat] by simp
  then have "\<bar>?c * of_nat n\<bar> \<le> 2 ^ 40" by simp
  then show fin: "isfinite ?x" unfolding x
    by (rule isfinite_rnd_bounded) (rule representable_scaled [of _ 0 "2 ^ 40"], simp_all)
  show "val ?x = to_grid TYPE(64) (?c * of_nat n)" using val_rnd fin unfolding x by blast
qed

text \<open>The rank of the 95th percentile: 95 percent of the sample, rounded up.\<close>

definition rank_95 :: "nat \<Rightarrow> nat" where
  "rank_95 n = (19 * n + 19) div 20"

lemma rank_95_bounds: "19 * n \<le> 20 * rank_95 n" "20 * rank_95 n \<le> 19 * n + 19" "0 < n \<Longrightarrow> 0 < rank_95 n" "rank_95 n \<le> n"
  unfolding rank_95_def by linarith+

text \<open>Although the literal \<open>0.95\<close> is rounded down, the index computed in \<open>double\<close> is exact.\<close>

lemma percentile_index_exact:
  assumes "n < 2 ^ 40"
  shows "percentile_index n = rank_95 n"
proof (cases "n = 0")
  case True
  then show ?thesis unfolding percentile_index_def rank_95_def True by code_simp
next
  case False
  let ?p = "8556839292003942 / 2 ^ 53 * of_nat n :: rat" and ?x = "lit (95 / 100) * of_count n :: f64"
  define k where "k = rank_95 n - 1"
  have k: "rank_95 n = Suc k" "20 * k + 1 \<le> 19 * n" "19 * n \<le> 20 * Suc k" "k < n"
    using rank_95_bounds [of n] False by (simp_all add: k_def)
  have k40: "k < 2 ^ 40" using k(4) assms by linarith
  note x = percentile_product [OF assms]
  have fixed: "to_grid TYPE(64) (of_nat k + 1 / 2 ^ 10) = of_nat k + 1 / 2 ^ 10"
    by (rule representable_fixed [OF representable_scaled [of _ 10 "int k * 2 ^ 10 + 1"]]) (use k40 in \<open>simp_all add: field_simps\<close>)
  have "(20::rat) * of_nat k + 1 \<le> 19 * of_nat n" using k(2) of_nat_le_iff [of "20 * k + 1" "19 * n", where 'a = rat] by simp
  moreover have "(of_nat n :: rat) < 2 ^ 40" using assms of_nat_less_iff [of n "2 ^ 40", where 'a = rat] by simp
  ultimately have "of_nat k + 1 / 2 ^ 10 \<le> ?p" by simp
  then have "of_nat k + 1 / 2 ^ 10 \<le> val ?x"
    using to_grid_mono [of "of_nat k + 1 / 2 ^ 10" ?p, where 'f = 64] unfolding x(2) fixed by blast
  then have above: "of_nat k < val ?x" by (rule less_le_trans [rotated]) simp
  have integer: "to_grid TYPE(64) (of_nat (Suc k)) = of_nat (Suc k)"
    by (rule representable_fixed [OF representable_scaled [of _ 0 "int (Suc k)"]]) (use k40 in simp_all)
  have "?p \<le> of_nat (Suc k)" using k(3) of_nat_le_iff [of "19 * n" "20 * Suc k", where 'a = rat] by simp
  then have below: "val ?x \<le> of_nat (Suc k)"
    using to_grid_mono [of ?p "of_nat (Suc k)", where 'f = 64] unfolding x(2) integer by blast
  have "\<lceil>val ?x\<rceil> = int (Suc k)" using above below by (intro ceiling_unique) simp_all
  then show ?thesis unfolding percentile_index_def ceil_finite [OF x(1)] k(1) by simp
qed

lemma clamped_percentile_exact: "n < 2 ^ 40 \<Longrightarrow> clamped_percentile n = rank_95 n - 1"
  using rank_95_bounds(4) [of n] by (auto simp: clamped_percentile_def percentile_index_exact min_def)

lemma clamped_percentile_less: "0 < n \<Longrightarrow> clamped_percentile n < n"
  by (auto simp: clamped_percentile_def)

text \<open>The values of the trustworthy samples and the counters of the loop.\<close>

definition valid_deviations :: "DeviationSample list \<Rightarrow> f64 list" where
  "valid_deviations samples = map ds_signed_mm (filter (\<lambda>x. ds_reason x = dr_valid) samples)"

definition count_reason :: "DeviationReason \<Rightarrow> DeviationSample list \<Rightarrow> nat" where
  "count_reason r samples = length (filter (\<lambda>x. ds_reason x = r) samples)"

lemma accumulate_step:
  "su_statistics (accumulate_deviation x u) = (let st = su_statistics u in case ds_reason x of
       dr_valid \<Rightarrow> st\<lparr>st_valid_count := st_valid_count st + 1\<rparr>
     | dr_input_invalid \<Rightarrow> st\<lparr>st_input_invalid := st_input_invalid st + 1\<rparr>
     | dr_no_neighbor \<Rightarrow> st\<lparr>st_no_neighbor := st_no_neighbor st + 1\<rparr>
     | dr_normal_missing \<Rightarrow> st\<lparr>st_normal_missing := st_normal_missing st + 1\<rparr>
     | dr_normal_mismatch \<Rightarrow> st\<lparr>st_normal_mismatch := st_normal_mismatch st + 1\<rparr>
     | dr_reference_boundary \<Rightarrow> st\<lparr>st_reference_boundary := st_reference_boundary st + 1\<rparr>)"
  "su_absolute (accumulate_deviation x u) =
     (if ds_reason x = dr_valid then su_absolute u @ [\<bar>ds_signed_mm x\<bar>] else su_absolute u)"
  "su_maximum (accumulate_deviation x u) =
     (if ds_reason x = dr_valid then std_max (su_maximum u) \<bar>ds_signed_mm x\<bar> else su_maximum u)"
  "su_signed (accumulate_deviation x u) =
     (if ds_reason x = dr_valid then su_signed u + ds_signed_mm x else su_signed u)"
  "su_squared (accumulate_deviation x u) =
     (if ds_reason x = dr_valid then su_squared u + ds_signed_mm x * ds_signed_mm x else su_squared u)"
  by (cases "ds_reason x"; simp add: accumulate_deviation_def Let_def)+

lemma accumulate_counts:
  "st_valid_count (su_statistics (fold accumulate_deviation xs u)) = st_valid_count (su_statistics u) + count_reason dr_valid xs"
  "st_input_invalid (su_statistics (fold accumulate_deviation xs u)) = st_input_invalid (su_statistics u) + count_reason dr_input_invalid xs"
  "st_no_neighbor (su_statistics (fold accumulate_deviation xs u)) = st_no_neighbor (su_statistics u) + count_reason dr_no_neighbor xs"
  "st_normal_missing (su_statistics (fold accumulate_deviation xs u)) = st_normal_missing (su_statistics u) + count_reason dr_normal_missing xs"
  "st_normal_mismatch (su_statistics (fold accumulate_deviation xs u)) = st_normal_mismatch (su_statistics u) + count_reason dr_normal_mismatch xs"
  "st_reference_boundary (su_statistics (fold accumulate_deviation xs u)) = st_reference_boundary (su_statistics u) + count_reason dr_reference_boundary xs"
  by (induction xs arbitrary: u)
     (simp_all add: accumulate_step Let_def count_reason_def split: DeviationReason.split)

lemma accumulate_values:
  "su_absolute (fold accumulate_deviation xs u) = su_absolute u @ map abs (valid_deviations xs)"
  "su_maximum (fold accumulate_deviation xs u) = fold (\<lambda>x m. std_max m \<bar>x\<bar>) (valid_deviations xs) (su_maximum u)"
  "su_signed (fold accumulate_deviation xs u) = foldl (+) (su_signed u) (valid_deviations xs)"
  "su_squared (fold accumulate_deviation xs u) = foldl (+) (su_squared u) (map (\<lambda>x. x * x) (valid_deviations xs))"
  by (induction xs arbitrary: u) (simp_all add: accumulate_step valid_deviations_def)

lemma count_reasons_total:
  "count_reason dr_valid xs + count_reason dr_input_invalid xs + count_reason dr_no_neighbor xs +
   count_reason dr_normal_missing xs + count_reason dr_normal_mismatch xs + count_reason dr_reference_boundary xs =
   length xs"
proof (induction xs)
  case (Cons x xs)
  then show ?case by (cases "ds_reason x") (simp_all add: count_reason_def)
qed (simp add: count_reason_def)

text \<open>What the four statistics of a sample are.\<close>

definition greatest_of :: "f64 list \<Rightarrow> f64 \<Rightarrow> bool" where
  "greatest_of v m \<longleftrightarrow> m \<in> set v \<and> (\<forall>x \<in> set v. x \<le> m)"

text \<open>The nearest-rank percentile: fewer than \<open>k\<close> values lie below \<open>p\<close>, at least \<open>k\<close> do not exceed it.\<close>

definition nearest_rank :: "nat \<Rightarrow> f64 list \<Rightarrow> f64 \<Rightarrow> bool" where
  "nearest_rank k v p \<longleftrightarrow> p \<in> set v \<and> length (filter (\<lambda>x. x < p) v) < k \<and> k \<le> length (filter (\<lambda>x. x \<le> p) v)"

text \<open>The sum in the order of the sample, and the mean and root mean square it gives.\<close>

definition summed :: "f64 list \<Rightarrow> f64" where
  "summed v = foldl (+) (lit 0) v"

definition mean_of :: "f64 list \<Rightarrow> f64" where
  "mean_of v = summed v / of_count (length v)"

definition rms_of :: "f64 list \<Rightarrow> f64" where
  "rms_of v = fp_sqrt (summed (map (\<lambda>x. x * x) v) / of_count (length v))"

lemma running_maximum:
  "\<forall>x \<in> set xs. \<not> is_nan x \<Longrightarrow> \<not> is_nan m \<Longrightarrow>
   m \<le> fold (\<lambda>x m. std_max m \<bar>x\<bar>) xs m \<and> (\<forall>x \<in> set xs. \<bar>x\<bar> \<le> fold (\<lambda>x m. std_max m \<bar>x\<bar>) xs m) \<and>
   fold (\<lambda>x m. std_max m \<bar>x\<bar>) xs m \<in> insert m (abs ` set xs)"
proof (induction xs arbitrary: m)
  case (Cons x xs)
  let ?n = "std_max m \<bar>x\<bar>"
  have x: "\<not> is_nan \<bar>x\<bar>" using Cons.prems(1) by simp
  have nn: "\<not> is_nan ?n" by (rule std_max_not_nan [OF Cons.prems(2) x])
  note ge = std_max_ge [OF Cons.prems(2) x]
  have IH: "?n \<le> fold (\<lambda>x m. std_max m \<bar>x\<bar>) xs ?n" "\<forall>y \<in> set xs. \<bar>y\<bar> \<le> fold (\<lambda>x m. std_max m \<bar>x\<bar>) xs ?n"
    "fold (\<lambda>x m. std_max m \<bar>x\<bar>) xs ?n \<in> insert ?n (abs ` set xs)"
    using Cons.IH [OF _ nn] Cons.prems(1) by simp_all
  moreover have "?n \<in> {m, \<bar>x\<bar>}" by (simp add: std_max_def)
  ultimately show ?case using fp_le_trans [OF ge(1) IH(1)] fp_le_trans [OF ge(2) IH(1)] by auto
qed (simp add: fp_le_refl)

lemma abs_not_above_zero: "\<not> is_nan x \<Longrightarrow> \<bar>x\<bar> \<le> Num 0 \<Longrightarrow> \<bar>x\<bar> = (Num 0 :: f64)"
  by (cases x) (auto simp: fp_eval split: if_splits)

lemma greatest_magnitude:
  assumes "\<forall>x \<in> set xs. \<not> is_nan x" "xs \<noteq> []"
  shows "greatest_of (map abs xs) (fold (\<lambda>x m. std_max m \<bar>x\<bar>) xs (lit 0))"
proof -
  let ?m = "fold (\<lambda>x m. std_max m \<bar>x\<bar>) xs (lit 0)"
  have zero: "lit 0 = (Num 0 :: f64)" by (simp add: lit_def)
  have m: "\<forall>x \<in> set xs. \<bar>x\<bar> \<le> ?m" "?m \<in> insert (Num 0) (abs ` set xs)"
    using running_maximum [OF assms(1), of "lit 0"] by (simp_all add: zero)
  moreover have "?m \<in> abs ` set xs" if "?m = Num 0"
  proof -
    obtain x where "x \<in> set xs" using assms(2) by (cases xs) auto
    then show ?thesis using m(1) that abs_not_above_zero [of x] assms(1) by (metis imageI)
  qed
  ultimately show ?thesis by (auto simp: greatest_of_def)
qed

lemma sorted_prefix_le:
  assumes "sorted_wrt (\<le>) ys" "k < length ys" "\<forall>y \<in> set ys. y \<le> y"
  shows "Suc k \<le> length (filter (\<lambda>y. y \<le> ys ! k) (ys :: f64 list))"
proof -
  have "\<forall>y \<in> set (take (Suc k) ys). y \<le> ys ! k"
  proof
    fix y assume "y \<in> set (take (Suc k) ys)"
    then obtain i where i: "i < Suc k" "y = ys ! i" using assms(2) by (auto simp: in_set_conv_nth)
    then show "y \<le> ys ! k"
      using assms sorted_wrt_nth_less [OF assms(1), of i k] by (cases "i = k") auto
  qed
  then have "filter (\<lambda>y. y \<le> ys ! k) (take (Suc k) ys) = take (Suc k) ys" by simp
  then have "Suc k \<le> length (filter (\<lambda>y. y \<le> ys ! k) (take (Suc k) ys))" using assms(2) by simp
  also have "\<dots> \<le> length (filter (\<lambda>y. y \<le> ys ! k) (take (Suc k) ys @ drop (Suc k) ys))"
    unfolding filter_append by simp
  finally show ?thesis unfolding append_take_drop_id .
qed

lemma mset_fp_sort: "length (filter P (fp_sort xs)) = length (filter P xs)"
proof -
  have "length (filter P (fp_insort x ys)) = length (filter P (x # ys))" for x ys
    by (induction ys) auto
  then show ?thesis unfolding fp_sort_def by (induction xs) auto
qed

lemma sorted_prefix_less:
  assumes "sorted_wrt (\<le>) ys" "k < length ys" "\<forall>y \<in> set ys. \<not> is_nan y"
  shows "length (filter (\<lambda>y. y < ys ! k) (ys :: f64 list)) \<le> k"
proof -
  have "\<not> y < ys ! k" if "y \<in> set (drop k ys)" for y
  proof -
    obtain j where j: "j < length (drop k ys)" "y = drop k ys ! j" using \<open>y \<in> set (drop k ys)\<close> by (auto simp: in_set_conv_nth)
    have le: "ys ! k \<le> y"
    proof (cases j)
      case 0
      then show ?thesis using j assms(2,3) by (simp add: fp_le_refl)
    next
      case (Suc i)
      then show ?thesis using j sorted_wrt_nth_less [OF assms(1), of k "k + j"] by simp
    qed
    have "y \<in> set ys" "ys ! k \<in> set ys" using \<open>y \<in> set (drop k ys)\<close> assms(2) by (auto dest: in_set_dropD)
    then show ?thesis using fp_not_less [of y "ys ! k"] assms(3) le by blast
  qed
  then have "filter (\<lambda>y. y < ys ! k) (drop k ys) = []" by (simp add: filter_empty_conv)
  then have "filter (\<lambda>y. y < ys ! k) (take k ys @ drop k ys) = filter (\<lambda>y. y < ys ! k) (take k ys)"
    unfolding filter_append by simp
  then show ?thesis unfolding append_take_drop_id by (metis length_filter_le length_take min.cobounded2 le_trans)
qed

lemma sorted_rank:
  assumes "\<forall>x \<in> set v. \<not> is_nan x" "v \<noteq> []" "length v < 2 ^ 40"
  shows "nearest_rank (rank_95 (length v)) v (fp_sort v ! clamped_percentile (length v))"
proof -
  let ?k = "clamped_percentile (length v)"
  have k: "?k < length (fp_sort v)" "rank_95 (length v) = Suc ?k"
    using assms clamped_percentile_less [of "length v"] rank_95_bounds(3) [of "length v"] by (simp_all add: clamped_percentile_exact)
  have s: "sorted_wrt (\<le>) (fp_sort v)" by (rule fp_sort_sorted [OF assms(1)])
  have nn: "\<forall>y \<in> set (fp_sort v). \<not> is_nan y" using assms(1) by simp
  have "fp_sort v ! ?k \<in> set v" using nth_mem [OF k(1)] by simp
  moreover have "Suc ?k \<le> length (filter (\<lambda>y. y \<le> fp_sort v ! ?k) (fp_sort v))"
    using s k(1) nn by (intro sorted_prefix_le) (auto intro: fp_le_refl)
  moreover have "length (filter (\<lambda>y. y < fp_sort v ! ?k) (fp_sort v)) \<le> ?k" by (rule sorted_prefix_less [OF s k(1) nn])
  ultimately show ?thesis unfolding nearest_rank_def mset_fp_sort k(2) by simp
qed

lemma summarize_values:
  defines "v \<equiv> \<lambda>f. valid_deviations (df_samples f)"
  shows "v f \<noteq> [] \<Longrightarrow> st_max_abs_mm (summarize_deviation f) = fold (\<lambda>x m. std_max m \<bar>x\<bar>) (v f) (lit 0)"
    and "v f \<noteq> [] \<Longrightarrow> st_p95_abs_mm (summarize_deviation f) = fp_sort (map abs (v f)) ! clamped_percentile (length (map abs (v f)))"
    and "v f \<noteq> [] \<Longrightarrow> st_mean_signed_mm (summarize_deviation f) = mean_of (v f)"
    and "v f \<noteq> [] \<Longrightarrow> st_rms_mm (summarize_deviation f) = rms_of (v f)"
    and "v f = [] \<Longrightarrow> st_max_abs_mm (summarize_deviation f) = 0 \<and> st_p95_abs_mm (summarize_deviation f) = 0 \<and>
       st_mean_signed_mm (summarize_deviation f) = 0 \<and> st_rms_mm (summarize_deviation f) = 0"
proof -
  have n: "count_reason dr_valid (df_samples f) = length (v f)" by (simp add: count_reason_def valid_deviations_def v_def)
  have zero: "st_max_abs_mm (su_statistics (fold accumulate_deviation xs u)) = st_max_abs_mm (su_statistics u)"
    "st_p95_abs_mm (su_statistics (fold accumulate_deviation xs u)) = st_p95_abs_mm (su_statistics u)"
    "st_mean_signed_mm (su_statistics (fold accumulate_deviation xs u)) = st_mean_signed_mm (su_statistics u)"
    "st_rms_mm (su_statistics (fold accumulate_deviation xs u)) = st_rms_mm (su_statistics u)" for xs u
    by (induction xs arbitrary: u) (simp_all add: accumulate_step Let_def split: DeviationReason.split)
  note fields = summarize_deviation_def Let_def accumulate_counts accumulate_values zero_statistics_def n mean_of_def rms_of_def summed_def
  show "v f \<noteq> [] \<Longrightarrow> st_max_abs_mm (summarize_deviation f) = fold (\<lambda>x m. std_max m \<bar>x\<bar>) (v f) (lit 0)"
    "v f \<noteq> [] \<Longrightarrow> st_p95_abs_mm (summarize_deviation f) = fp_sort (map abs (v f)) ! clamped_percentile (length (map abs (v f)))"
    "v f \<noteq> [] \<Longrightarrow> st_mean_signed_mm (summarize_deviation f) = mean_of (v f)"
    "v f \<noteq> [] \<Longrightarrow> st_rms_mm (summarize_deviation f) = rms_of (v f)"
    by (simp_all add: fields v_def)
  show "v f = [] \<Longrightarrow> st_max_abs_mm (summarize_deviation f) = 0 \<and> st_p95_abs_mm (summarize_deviation f) = 0 \<and>
       st_mean_signed_mm (summarize_deviation f) = 0 \<and> st_rms_mm (summarize_deviation f) = 0"
    by (simp add: fields zero v_def)
qed

lemma summarize_counts:
  "st_valid_count (summarize_deviation f) = count_reason dr_valid (df_samples f)"
  "st_input_invalid (summarize_deviation f) = count_reason dr_input_invalid (df_samples f)"
  "st_no_neighbor (summarize_deviation f) = count_reason dr_no_neighbor (df_samples f)"
  "st_normal_missing (summarize_deviation f) = count_reason dr_normal_missing (df_samples f)"
  "st_normal_mismatch (summarize_deviation f) = count_reason dr_normal_mismatch (df_samples f)"
  "st_reference_boundary (summarize_deviation f) = count_reason dr_reference_boundary (df_samples f)"
  by (simp_all add: summarize_deviation_def Let_def accumulate_counts zero_statistics_def)

text \<open>
  C39. The deviation statistics. Every sample of the field is counted once, under its own reason. Over the
  signed deviations of the trustworthy samples, in field order, the mean is their sum divided by
  their number and the root mean square is the square root of the sum of squares divided by it. When
  they are numbers, the maximum is the greatest magnitude, and the 95th percentile is the magnitude of
  rank \<open>\<lceil>0.95 n\<rceil>\<close>, exactly: fewer magnitudes lie below it, and at least as many do not exceed it, although
  the code computes the rank in \<open>double\<close> with \<open>0.95\<close> rounded down. Without a trustworthy sample
  all four are zero.
\<close>
theorem deviation_statistics_correct:
  assumes "\<forall>x \<in> set (valid_deviations (df_samples f)). \<not> is_nan x"
  shows "(let s = summarize_deviation f; d = valid_deviations (df_samples f); v = map abs d in
    st_valid_count s + st_input_invalid s + st_no_neighbor s + st_normal_missing s +
      st_normal_mismatch s + st_reference_boundary s = length (df_samples f) \<and>
    st_valid_count s = length v \<and> st_input_invalid s = count_reason dr_input_invalid (df_samples f) \<and>
    st_no_neighbor s = count_reason dr_no_neighbor (df_samples f) \<and>
    st_normal_missing s = count_reason dr_normal_missing (df_samples f) \<and>
    st_normal_mismatch s = count_reason dr_normal_mismatch (df_samples f) \<and>
    st_reference_boundary s = count_reason dr_reference_boundary (df_samples f) \<and>
    (if v = [] then st_max_abs_mm s = 0 \<and> st_p95_abs_mm s = 0 \<and> st_mean_signed_mm s = 0 \<and> st_rms_mm s = 0
     else greatest_of v (st_max_abs_mm s) \<and> st_p95_abs_mm s \<in> set v \<and> st_p95_abs_mm s \<le> st_max_abs_mm s \<and>
       st_mean_signed_mm s = mean_of d \<and> st_rms_mm s = rms_of d \<and>
       (length v < 2 ^ 40 \<longrightarrow> nearest_rank (rank_95 (length v)) v (st_p95_abs_mm s))))"
proof -
  let ?d = "valid_deviations (df_samples f)" and ?s = "summarize_deviation f"
  let ?v = "map abs ?d"
  have counts: "st_valid_count ?s = length ?v"
    "st_valid_count ?s + st_input_invalid ?s + st_no_neighbor ?s + st_normal_missing ?s +
      st_normal_mismatch ?s + st_reference_boundary ?s = length (df_samples f)"
    using count_reasons_total [of "df_samples f"] by (simp_all add: summarize_counts count_reason_def valid_deviations_def)
  have stats: "greatest_of ?v (st_max_abs_mm ?s) \<and> st_p95_abs_mm ?s \<in> set ?v \<and> st_p95_abs_mm ?s \<le> st_max_abs_mm ?s \<and>
      (length ?v < 2 ^ 40 \<longrightarrow> nearest_rank (rank_95 (length ?v)) ?v (st_p95_abs_mm ?s))" if d: "?d \<noteq> []"
  proof -
    have k: "clamped_percentile (length ?v) < length (fp_sort ?v)" using d clamped_percentile_less [of "length ?v"] by simp
    have p95: "st_p95_abs_mm ?s \<in> set ?v" unfolding summarize_values(2) [OF d] using nth_mem [OF k] by simp
    have "greatest_of ?v (st_max_abs_mm ?s)" unfolding summarize_values(1) [OF d] by (rule greatest_magnitude [OF assms d])
    moreover have "nearest_rank (rank_95 (length ?v)) ?v (st_p95_abs_mm ?s)" if "length ?v < 2 ^ 40"
      unfolding summarize_values(2) [OF d] using assms d that by (intro sorted_rank) auto
    ultimately show ?thesis using p95 unfolding greatest_of_def by blast
  qed
  show ?thesis
    using counts stats summarize_values(3-5) [of f] unfolding Let_def by (simp add: summarize_counts)
qed

definition sample_field :: DeviationField where
  "sample_field = \<lparr>df_samples = [default_sample, default_sample\<lparr>ds_reason := dr_valid, ds_signed_mm := Num (- 2)\<rparr>],
     df_valid_count = 1\<rparr>"

theorem deviation_statistics_correct_witness:
  "Num 2 \<le> st_max_abs_mm (summarize_deviation sample_field)"
proof -
  have v: "valid_deviations (df_samples sample_field) = [Num (- 2)]"
    by (simp add: sample_field_def valid_deviations_def default_sample_def)
  then have n: "\<forall>x \<in> set (valid_deviations (df_samples sample_field)). \<not> is_nan x" by simp
  have "\<bar>Num (- 2) :: f64\<bar> = Num 2" by (simp add: fp_eval)
  then show ?thesis using deviation_statistics_correct [OF n] unfolding Let_def v greatest_of_def by auto
qed

text \<open>The counters of the coverage summary.\<close>

lemma count_coverage_fold:
  "sm_valid_count (fold count_coverage xs c) = sm_valid_count c"
  "sm_covered_count (fold count_coverage xs c) = sm_covered_count c"
  "sm_coverage_ratio (fold count_coverage xs c) = sm_coverage_ratio c"
  "sm_input_invalid (fold count_coverage xs c) =
     sm_input_invalid c + length (filter (\<lambda>x. cs_reason x = cr_input_invalid) xs)"
  "sm_no_neighbor (fold count_coverage xs c) =
     sm_no_neighbor c + length (filter (\<lambda>x. cs_reason x = cr_no_neighbor) xs)"
  "sm_scan_boundary (fold count_coverage xs c) =
     sm_scan_boundary c + length (filter (\<lambda>x. cs_reason x = cr_scan_boundary) xs)"
  by (induction xs arbitrary: c) (simp_all add: count_coverage_def split: CoverageReason.split)

lemma coverage_reasons_total:
  "length (filter (\<lambda>x. cs_reason x = cr_covered) xs) + length (filter (\<lambda>x. cs_reason x = cr_input_invalid) xs) +
   length (filter (\<lambda>x. cs_reason x = cr_no_neighbor) xs) + length (filter (\<lambda>x. cs_reason x = cr_scan_boundary) xs) =
   length xs"
proof (induction xs)
  case (Cons x xs)
  then show ?case by (cases "cs_reason x") simp_all
qed simp

text \<open>
  The coverage summary of a computed field accounts for every storage slot exactly once:
  covered, masked or padding, without neighbour, or on the scan boundary.
\<close>
theorem coverage_summary_total:
  assumes "surface_ok r" "compute_coverage_field search r q b config tc = Inr f"
  shows "(let c = summarize_coverage f in
    sm_covered_count c + sm_input_invalid c + sm_no_neighbor c + sm_scan_boundary c = storage_size r \<and>
    sm_coverage_ratio c = coverage_ratio f)"
proof -
  obtain t where samples: "cf_samples f = write_each (compute_coverage_sample r b t) (logical_indices r)
       (replicate (storage_size r) \<lparr>cs_distance_mm = 0, cs_reason = cr_input_invalid\<rparr>)"
    and covered: "cf_covered_count f = length (filter (\<lambda>i. cs_reason (compute_coverage_sample r b t i) = cr_covered) (logical_indices r))"
    using assms(2) by (rule compute_coverage_field_Inr)
  have at: "cf_samples f ! i = (if i \<in> set (logical_indices r) then compute_coverage_sample r b t i
      else \<lparr>cs_distance_mm = 0, cs_reason = cr_input_invalid\<rparr>)" if "i < storage_size r" for i
    using that by (simp add: samples nth_write_each)
  have "length (filter (\<lambda>x. cs_reason x = cr_covered) (cf_samples f)) =
      card {i. i < storage_size r \<and> cs_reason (cf_samples f ! i) = cr_covered}"
    by (simp add: length_filter_conv_card samples)
  also have "{i. i < storage_size r \<and> cs_reason (cf_samples f ! i) = cr_covered} =
      {i \<in> set (logical_indices r). cs_reason (compute_coverage_sample r b t i) = cr_covered}"
    using surface_walk.indices_bound [OF assms(1)] by (auto simp: at split: if_splits)
  finally have "cf_covered_count f = length (filter (\<lambda>x. cs_reason x = cr_covered) (cf_samples f))"
    unfolding covered using surface_walk.count_visited [OF assms(1)] by simp
  moreover have "length (cf_samples f) = storage_size r" by (simp add: samples)
  ultimately show ?thesis
    using coverage_reasons_total [of "cf_samples f"]
    by (simp add: summarize_coverage_def Let_def count_coverage_fold)
qed

theorem coverage_summary_total_witness:
  "\<exists>f. compute_coverage_field first_point_search sample_mm_surface sample_mm_surface [] sample_comparison 1 = Inr f \<and>
     (let c = summarize_coverage f in
        sm_covered_count c + sm_input_invalid c + sm_no_neighbor c + sm_scan_boundary c = 2)"
proof -
  let ?c = "compute_coverage_field first_point_search sample_mm_surface sample_mm_surface [] sample_comparison 1"
  have ok: "surface_ok sample_mm_surface" "sv_unit sample_mm_surface = millimeter" by code_simp+
  obtain t where "nearest_neighbors first_point_search sample_mm_surface sample_mm_surface
      (vcc_max_search_distance_mm sample_comparison) 1 = Inr t"
    using sample_lookup [of sample_mm_surface sample_mm_surface "vcc_max_search_distance_mm sample_comparison"]
    by (auto simp: is_ok_iff)
  then have "is_ok ?c" using ok by (simp add: compute_coverage_field_def)
  then obtain f where f: "?c = Inr f" by (auto simp: is_ok_iff)
  have "storage_size sample_mm_surface = 2" by code_simp
  with coverage_summary_total [OF ok(1) f] f show ?thesis by (auto simp: Let_def)
qed

end
