(* ===== verification/UnionFind.thy ===== *)
theory UnionFind
  imports Prelude
begin

text \<open>
  The disjoint-set forest of \<open>backends/pcl/pcl_cluster_backend.cpp\<close> (union by rank with path
  compression). \<open>find\<close> recurses along the parent array and may run forever on an arbitrary array,
  so it is a partial function; the invariant below makes it return. The clients use it through the
  locale \<open>disjoint_sets\<close>: uniting a list of pairs computes their equivalence closure.
\<close>

record UnionFind =
  uf_parent :: "nat list"
  uf_rank :: "nat list"

definition UnionFind_create :: "nat \<Rightarrow> UnionFind" where
  "UnionFind_create n = \<lparr>uf_parent = [0..<n], uf_rank = replicate n 0\<rparr>"

partial_function (option) uf_find :: "UnionFind \<Rightarrow> nat \<Rightarrow> (nat \<times> UnionFind) option" where
  [code]: "uf_find u v =
     (if uf_parent u ! v \<noteq> v
      then Option.bind (uf_find u (uf_parent u ! v))
             (\<lambda>(root, u'). Some (root, u'\<lparr>uf_parent := (uf_parent u')[v := root]\<rparr>))
      else Some (v, u))"

definition uf_link :: "nat \<Rightarrow> nat \<Rightarrow> UnionFind \<Rightarrow> UnionFind" where
  "uf_link left_root right_root u =
     (if left_root = right_root then u
      else if uf_rank u ! left_root < uf_rank u ! right_root
      then u\<lparr>uf_parent := (uf_parent u)[left_root := right_root]\<rparr>
      else if uf_rank u ! right_root < uf_rank u ! left_root
      then u\<lparr>uf_parent := (uf_parent u)[right_root := left_root]\<rparr>
      else u\<lparr>uf_parent := (uf_parent u)[right_root := left_root],
             uf_rank := (uf_rank u)[left_root := Suc (uf_rank u ! left_root)]\<rparr>)"

definition uf_unite :: "nat \<Rightarrow> nat \<Rightarrow> UnionFind \<Rightarrow> UnionFind option" where
  "uf_unite left right u =
     Option.bind (uf_find u left) (\<lambda>(left_root, u).
     Option.bind (uf_find u right) (\<lambda>(right_root, u).
     Some (uf_link left_root right_root u)))"

subsection \<open>The forest and its roots\<close>

text \<open>Parents stay in range and ranks grow strictly towards the roots.\<close>

definition uf_inv :: "nat \<Rightarrow> UnionFind \<Rightarrow> bool" where
  "uf_inv n u \<longleftrightarrow> length (uf_parent u) = n \<and> length (uf_rank u) = n \<and>
     (\<forall>v < n. uf_parent u ! v < n \<and>
        (uf_parent u ! v \<noteq> v \<longrightarrow> uf_rank u ! v < uf_rank u ! (uf_parent u ! v)))"

inductive root_of :: "nat list \<Rightarrow> nat \<Rightarrow> nat \<Rightarrow> bool" for p where
  here: "p ! v = v \<Longrightarrow> root_of p v v"
| up: "p ! v \<noteq> v \<Longrightarrow> root_of p (p ! v) r \<Longrightarrow> root_of p v r"

inductive_simps root_of_iff: "root_of p v r"

lemma root_of_fixed: "p ! v = v \<Longrightarrow> root_of p v r \<longleftrightarrow> r = v"
  by (subst root_of_iff) auto

lemma root_of_child: "p ! v \<noteq> v \<Longrightarrow> root_of p v r \<longleftrightarrow> root_of p (p ! v) r"
  by (subst root_of_iff) auto

lemma root_of_unique: "root_of p v r \<Longrightarrow> root_of p v r' \<Longrightarrow> r = r'"
  by (induction rule: root_of.induct) (simp_all add: root_of_fixed root_of_child)

lemma root_of_root: "root_of p v r \<Longrightarrow> p ! r = r"
  by (induction rule: root_of.induct) auto

lemma uf_inv_create: "uf_inv n (UnionFind_create n)"
  by (simp add: uf_inv_def UnionFind_create_def)

text \<open>Climbing ends: the rank is a measure bounded by the largest rank.\<close>

lemma uf_inv_rank_bound: "uf_inv n u \<Longrightarrow> v < n \<Longrightarrow> uf_rank u ! v \<le> Max (set (uf_rank u))"
  by (auto simp: uf_inv_def)

lemma climb_induct [consumes 2, case_names root child]:
  assumes "uf_inv n u" "v < n"
    and root: "\<And>v. v < n \<Longrightarrow> uf_parent u ! v = v \<Longrightarrow> P v"
    and child: "\<And>v. v < n \<Longrightarrow> uf_parent u ! v \<noteq> v \<Longrightarrow> uf_parent u ! v < n \<Longrightarrow> P (uf_parent u ! v) \<Longrightarrow> P v"
  shows "P v"
  using assms(2)
proof (induction "Max (set (uf_rank u)) - uf_rank u ! v" arbitrary: v rule: less_induct)
  case less
  show ?case
  proof (cases "uf_parent u ! v = v")
    case True
    then show ?thesis using root less.prems by simp
  next
    case False
    have p: "uf_parent u ! v < n" "uf_rank u ! v < uf_rank u ! (uf_parent u ! v)"
      using assms(1) less.prems False by (auto simp: uf_inv_def)
    moreover note uf_inv_rank_bound [OF assms(1) p(1)]
    ultimately have "P (uf_parent u ! v)" by (intro less.hyps) auto
    then show ?thesis using child less.prems False p(1) by blast
  qed
qed

lemma root_exists:
  assumes u: "uf_inv n u" and v: "v < n"
  shows "\<exists>r < n. root_of (uf_parent u) v r \<and> (r \<noteq> v \<longrightarrow> uf_rank u ! v < uf_rank u ! r)"
  using u v
proof (induction rule: climb_induct)
  case (root v)
  then show ?case by (auto simp: root_of_fixed)
next
  case (child v)
  let ?p = "uf_parent u ! v"
  have lt: "uf_rank u ! v < uf_rank u ! ?p" using u child.hyps by (auto simp: uf_inv_def)
  obtain r where r: "r < n" "root_of (uf_parent u) ?p r" "r \<noteq> ?p \<longrightarrow> uf_rank u ! ?p < uf_rank u ! r"
    using child.IH by blast
  have "uf_rank u ! v < uf_rank u ! r" using lt r(3) by (cases "r = ?p") auto
  then show ?case using r child.hyps by (auto simp: root_of_child)
qed

text \<open>Compressing one path: pointing a vertex to its root changes no root.\<close>

lemma compress_roots:
  assumes u: "uf_inv n u" and v: "v < n" and r: "root_of (uf_parent u) v r"
  shows "uf_inv n (u\<lparr>uf_parent := (uf_parent u)[v := r]\<rparr>) \<and>
    (\<forall>x < n. \<forall>q. root_of ((uf_parent u)[v := r]) x q \<longleftrightarrow> root_of (uf_parent u) x q)"
proof -
  let ?p = "uf_parent u" and ?q = "(uf_parent u)[v := r]"
  have r': "r < n" "r \<noteq> v \<Longrightarrow> uf_rank u ! v < uf_rank u ! r"
    using root_exists [OF u v] root_of_unique [OF r] by blast+
  have len: "length ?p = n" using u by (simp add: uf_inv_def)
  have inv: "uf_inv n (u\<lparr>uf_parent := ?q\<rparr>)"
    using u r' v by (auto simp: uf_inv_def nth_list_update)
  have rr: "?p ! r = r" by (rule root_of_root [OF r])
  then have qr: "?q ! r = r" using len v by (cases "r = v") auto
  have keep: "root_of ?p x q \<longrightarrow> root_of ?q x q" if x: "x < n" for x q
    using u x
  proof (induction rule: climb_induct)
    case (root x)
    have "?q ! x = x" using root r len v by (cases "x = v") (auto simp: root_of_fixed)
    then show ?case using root by (simp add: root_of_fixed)
  next
    case (child x)
    show ?case
    proof (cases "x = v")
      case True
      have "?q ! v = r" using len v by simp
      then have "root_of ?q v r" using qr by (cases "r = v") (auto simp: root_of_fixed root_of_child)
      then show ?thesis using True root_of_unique [OF r] by auto
    next
      case False
      then have "?q ! x = ?p ! x" by simp
      then show ?thesis using child by (simp add: root_of_child)
    qed
  qed
  have "root_of ?p x q" if "x < n" "root_of ?q x q" for x q
  proof -
    obtain s where s: "root_of ?p x s" using root_exists [OF u \<open>x < n\<close>] by blast
    then have "root_of ?q x s" using keep \<open>x < n\<close> by blast
    then show ?thesis using s root_of_unique that(2) by blast
  qed
  then show ?thesis using inv keep by blast
qed

text \<open>\<open>find\<close> returns the root, and changes neither the roots nor the ranks.\<close>

lemma uf_find_correct:
  assumes u: "uf_inv n u" and v: "v < n"
  shows "\<exists>r u'. uf_find u v = Some (r, u') \<and> r < n \<and> root_of (uf_parent u) v r \<and>
     uf_inv n u' \<and> uf_rank u' = uf_rank u \<and>
     (\<forall>x < n. \<forall>q. root_of (uf_parent u') x q \<longleftrightarrow> root_of (uf_parent u) x q)"
  using u v
proof (induction rule: climb_induct)
  case (root v)
  then have "uf_find u v = Some (v, u)" by (subst uf_find.simps) simp
  then show ?case using root u by (auto simp: root_of_fixed)
next
  case (child v)
  from child.IH obtain r u' where f: "uf_find u (uf_parent u ! v) = Some (r, u')" "r < n"
    "root_of (uf_parent u) (uf_parent u ! v) r" "uf_inv n u'" "uf_rank u' = uf_rank u"
    and same: "\<forall>x < n. \<forall>q. root_of (uf_parent u') x q \<longleftrightarrow> root_of (uf_parent u) x q" by blast
  have r: "root_of (uf_parent u) v r" using child.hyps f(3) by (simp add: root_of_child)
  then have "root_of (uf_parent u') v r" using same child.hyps(1) by blast
  note c = compress_roots [OF f(4) child.hyps(1) this]
  have "uf_find u v = Some (r, u'\<lparr>uf_parent := (uf_parent u')[v := r]\<rparr>)"
    using f(1) child.hyps(2) by (subst uf_find.simps) simp
  then show ?case using r f c same by auto
qed

definition uf_root :: "UnionFind \<Rightarrow> nat \<Rightarrow> nat" where
  "uf_root u v = (case uf_find u v of Some (r, _) \<Rightarrow> r | None \<Rightarrow> v)"

lemma uf_root_iff: "uf_inv n u \<Longrightarrow> v < n \<Longrightarrow> uf_root u v = r \<longleftrightarrow> root_of (uf_parent u) v r"
  using uf_find_correct [of n u v] root_of_unique by (fastforce simp: uf_root_def)

lemma uf_root_less: "uf_inv n u \<Longrightarrow> v < n \<Longrightarrow> uf_root u v < n"
  using uf_find_correct [of n u v] by (auto simp: uf_root_def)

lemma uf_root_idem: "uf_inv n u \<Longrightarrow> v < n \<Longrightarrow> uf_parent u ! uf_root u v = uf_root u v"
  using uf_root_iff root_of_root by blast

text \<open>Linking two distinct roots: every vertex below the losing root moves to the winner.\<close>

lemma hang_roots:
  assumes u: "uf_inv n u" and l: "l < n" "uf_parent u ! l = l" and w: "w < n" "uf_parent u ! w = w" "l \<noteq> w"
    and inv: "uf_inv n u'" "uf_parent u' = (uf_parent u)[l := w]" and v: "v < n"
  shows "uf_root u' v = (if uf_root u v = l then w else uf_root u v)"
proof -
  let ?p = "uf_parent u" and ?q = "(uf_parent u)[l := w]"
  have q: "?q ! l = w" "?q ! w = w" using u l w by (simp_all add: uf_inv_def)
  have "root_of ?p v r \<longrightarrow> root_of ?q v (if r = l then w else r)" for r
    using u v
  proof (induction rule: climb_induct)
    case (root v)
    have "root_of ?q v (if v = l then w else v)"
    proof (cases "v = l")
      case True
      then show ?thesis using q w(3) by (simp add: root_of_child root_of_fixed)
    next
      case False
      then have "?q ! v = v" using root by simp
      then show ?thesis using False by (simp add: root_of_fixed)
    qed
    then show ?case using root_of_fixed [of ?p v r, OF root(2)] by (auto split: if_splits)
  next
    case (child v)
    then have "v \<noteq> l" using l by auto
    then have "?q ! v = ?p ! v" by simp
    then show ?case using child by (simp add: root_of_child)
  qed
  moreover have "root_of ?p v (uf_root u v)" using uf_root_iff [OF u v] by blast
  ultimately have "root_of ?q v (if uf_root u v = l then w else uf_root u v)" by blast
  then show ?thesis using uf_root_iff [OF inv(1) v] inv(2) by simp
qed

lemma uf_link_inv:
  assumes u: "uf_inv n u" and a: "a < n" "uf_parent u ! a = a" and b: "b < n" "uf_parent u ! b = b"
  shows "uf_inv n (uf_link a b u)"
proof -
  have up: "uf_rank u ! v < uf_rank u ! (uf_parent u ! v)" if "v < n" "uf_parent u ! v \<noteq> v" for v
    using u that by (auto simp: uf_inv_def)
  have len: "length (uf_parent u) = n" "length (uf_rank u) = n" and pn: "\<And>v. v < n \<Longrightarrow> uf_parent u ! v < n"
    using u by (auto simp: uf_inv_def)
  consider "a = b" | "a \<noteq> b" "uf_rank u ! a < uf_rank u ! b" | "a \<noteq> b" "uf_rank u ! b < uf_rank u ! a"
    | "a \<noteq> b" "uf_rank u ! a = uf_rank u ! b" by linarith
  then show ?thesis
  proof cases
    case 1
    then show ?thesis using u by (simp add: uf_link_def)
  next
    case 2
    then show ?thesis using len pn up b a by (simp add: uf_inv_def uf_link_def nth_list_update)
  next
    case 3
    then show ?thesis using len pn up b a by (simp add: uf_inv_def uf_link_def nth_list_update)
  next
    case 4
    have below: "uf_rank u ! v < Suc (uf_rank u ! b)" if "v < n" "v \<noteq> a" "a = uf_parent u ! v" for v
      using up [of v] that 4 by simp
    show ?thesis
      using 4 len pn up b a below by (auto simp: uf_inv_def uf_link_def nth_list_update)
  qed
qed

lemma uf_link_correct:
  assumes u: "uf_inv n u" and a: "a < n" "uf_parent u ! a = a" and b: "b < n" "uf_parent u ! b = b"
  shows "\<exists>w \<in> {a, b}. \<forall>v < n. uf_root (uf_link a b u) v = (if uf_root u v \<in> {a, b} then w else uf_root u v)"
proof (cases "a = b")
  case True
  then show ?thesis by (simp add: uf_link_def)
next
  case False
  note inv = uf_link_inv [OF u a b]
  show ?thesis
  proof (cases "uf_rank u ! a < uf_rank u ! b")
    case True
    then have p: "uf_parent (uf_link a b u) = (uf_parent u)[a := b]" using False by (simp add: uf_link_def)
    have "uf_root (uf_link a b u) v = (if uf_root u v \<in> {a, b} then b else uf_root u v)" if "v < n" for v
      using hang_roots [OF u a b False inv p that] by simp
    then show ?thesis by blast
  next
    case rank: False
    then have p: "uf_parent (uf_link a b u) = (uf_parent u)[b := a]" using False by (simp add: uf_link_def)
    have "uf_root (uf_link a b u) v = (if uf_root u v \<in> {a, b} then a else uf_root u v)" if "v < n" for v
      using hang_roots [OF u b a False [symmetric] inv p that] by simp
    then show ?thesis by blast
  qed
qed

lemma uf_root_same:
  assumes "uf_inv n u" "uf_inv n u'"
    "\<forall>x < n. \<forall>q. root_of (uf_parent u') x q \<longleftrightarrow> root_of (uf_parent u) x q" "x < n"
  shows "uf_root u' x = uf_root u x"
  using assms uf_root_iff by blast

lemma uf_unite_correct:
  assumes u: "uf_inv n u" and a: "a < n" and b: "b < n"
  shows "\<exists>u'. uf_unite a b u = Some u' \<and> uf_inv n u' \<and>
    (\<forall>x < n. \<forall>y < n. uf_root u' x = uf_root u' y \<longleftrightarrow> uf_root u x = uf_root u y \<or>
       (uf_root u x \<in> {uf_root u a, uf_root u b} \<and> uf_root u y \<in> {uf_root u a, uf_root u b}))"
proof -
  obtain ra u1 where f1: "uf_find u a = Some (ra, u1)" "ra < n" "root_of (uf_parent u) a ra" "uf_inv n u1"
    and s1: "\<forall>x < n. \<forall>q. root_of (uf_parent u1) x q \<longleftrightarrow> root_of (uf_parent u) x q"
    using uf_find_correct [OF u a] by blast
  obtain rb u2 where f2: "uf_find u1 b = Some (rb, u2)" "rb < n" "root_of (uf_parent u1) b rb" "uf_inv n u2"
    and s2: "\<forall>x < n. \<forall>q. root_of (uf_parent u2) x q \<longleftrightarrow> root_of (uf_parent u1) x q"
    using uf_find_correct [OF f1(4) b] by blast
  have s: "uf_root u2 x = uf_root u x" if "x < n" for x
    using uf_root_same [OF u f1(4) s1 that] uf_root_same [OF f1(4) f2(4) s2 that] by simp
  have ra: "uf_root u a = ra" and rb: "uf_root u b = rb"
    using uf_root_iff [OF u a] f1(3) uf_root_iff [OF u b] f2(3) s1 b by blast+
  have pa: "uf_parent u2 ! ra = ra" and pb: "uf_parent u2 ! rb = rb"
    using uf_root_idem [OF f2(4) a] uf_root_idem [OF f2(4) b] s a b ra rb by simp_all
  have inv: "uf_inv n (uf_link ra rb u2)" by (rule uf_link_inv [OF f2(4) f1(2) pa f2(2) pb])
  obtain w where w: "w \<in> {ra, rb}"
    "\<forall>v < n. uf_root (uf_link ra rb u2) v = (if uf_root u2 v \<in> {ra, rb} then w else uf_root u2 v)"
    using uf_link_correct [OF f2(4) f1(2) pa f2(2) pb] by blast
  have "uf_unite a b u = Some (uf_link ra rb u2)" by (simp add: uf_unite_def f1(1) f2(1))
  then show ?thesis using w s inv by (auto simp: ra rb)
qed

subsection \<open>The interface\<close>

text \<open>
  What clustering relies on: uniting two elements succeeds, keeps the structure sound and merges
  exactly their two classes.
\<close>

locale disjoint_sets =
  fixes ok :: "nat \<Rightarrow> 'u \<Rightarrow> bool" and rep :: "'u \<Rightarrow> nat \<Rightarrow> nat"
    and unite :: "nat \<Rightarrow> nat \<Rightarrow> 'u \<Rightarrow> 'u option"
  assumes unite: "ok n u \<Longrightarrow> a < n \<Longrightarrow> b < n \<Longrightarrow> \<exists>u'. unite a b u = Some u' \<and> ok n u' \<and>
    (\<forall>x < n. \<forall>y < n. rep u' x = rep u' y \<longleftrightarrow> rep u x = rep u y \<or>
       (rep u x \<in> {rep u a, rep u b} \<and> rep u y \<in> {rep u a, rep u b}))"
begin

text \<open>Equality of representatives, as a relation on the elements.\<close>

definition classes :: "nat \<Rightarrow> 'u \<Rightarrow> (nat \<times> nat) set" where
  "classes n u = {(x, y). x < n \<and> y < n \<and> rep u x = rep u y}"

lemma classes_equiv: "equiv {..<n} (classes n u)"
  by (auto simp: classes_def equiv_def refl_on_def sym_def trans_def)

text \<open>Uniting a pair adds the pair to the relation and closes it.\<close>

lemma unite_closure:
  assumes u: "ok n u" and a: "a < n" "b < n" and E: "classes n u = (E \<union> E\<inverse>)\<^sup>* \<inter> {..<n} \<times> {..<n}"
    and sub: "E \<subseteq> {..<n} \<times> {..<n}" and u': "unite a b u = Some u'"
  shows "ok n u' \<and> classes n u' = (insert (a, b) E \<union> (insert (a, b) E)\<inverse>)\<^sup>* \<inter> {..<n} \<times> {..<n}"
proof -
  let ?R = "E \<union> E\<inverse>" and ?S = "insert (a, b) E \<union> (insert (a, b) E)\<inverse>"
  have ok': "ok n u'" and rep': "\<And>x y. x < n \<Longrightarrow> y < n \<Longrightarrow> rep u' x = rep u' y \<longleftrightarrow> rep u x = rep u y \<or>
       (rep u x \<in> {rep u a, rep u b} \<and> rep u y \<in> {rep u a, rep u b})"
    using unite [OF u a] u' by auto
  have old: "x < n \<Longrightarrow> y < n \<Longrightarrow> rep u x = rep u y \<longleftrightarrow> (x, y) \<in> ?R\<^sup>*" for x y
    using E by (auto simp: classes_def)
  have mono: "?R\<^sup>* \<subseteq> ?S\<^sup>*" by (rule rtrancl_mono) auto
  have ab: "(a, b) \<in> ?S\<^sup>*" "(b, a) \<in> ?S\<^sup>*" by auto
  have new: "(x, y) \<in> ?S\<^sup>*" if xy: "x < n" "y < n" "rep u' x = rep u' y" for x y
  proof -
    have near: "(z, w) \<in> ?S\<^sup>*" if "z < n" "w < n" "rep u z = rep u w" for z w
      using old [OF that(1,2)] that(3) mono by blast
    have to: "(z, a) \<in> ?S\<^sup>* \<and> (a, z) \<in> ?S\<^sup>*" if z: "z < n" "rep u z \<in> {rep u a, rep u b}" for z
    proof (cases "rep u z = rep u a")
      case True
      then show ?thesis using near z(1) a by simp
    next
      case False
      then have "(z, b) \<in> ?S\<^sup>*" "(b, z) \<in> ?S\<^sup>*" using near z a by simp_all
      then show ?thesis using ab by (meson rtrancl_trans)
    qed
    show ?thesis
    proof (cases "rep u x = rep u y")
      case False
      then have "(x, a) \<in> ?S\<^sup>*" "(a, y) \<in> ?S\<^sup>*" using rep' [OF xy(1,2)] xy to by blast+
      then show ?thesis by (rule rtrancl_trans)
    next
      case True
      then show ?thesis using near xy by blast
    qed
  qed
  have conv: "y < n \<and> rep u' x = rep u' y" if "(x, y) \<in> ?S\<^sup>*" "x < n" for x y
    using that
  proof (induction rule: rtrancl_induct)
    case (step y z)
    then have y: "y < n" "rep u' x = rep u' y" by auto
    have "(y, z) \<in> {..<n} \<times> {..<n}" using step(2) sub a by auto
    then have z: "z < n" by simp
    have "rep u' y = rep u' z"
    proof (cases "(y, z) \<in> ?R")
      case True
      then show ?thesis using old [OF y(1) z] rep' [OF y(1) z] by blast
    next
      case False
      then have "(y, z) = (a, b) \<or> (y, z) = (b, a)" using step(2) by auto
      then show ?thesis using rep' [OF y(1) z] by auto
    qed
    then show ?case using y z by simp
  qed simp
  have "classes n u' = ?S\<^sup>* \<inter> {..<n} \<times> {..<n}" using new conv by (auto simp: classes_def)
  then show ?thesis using ok' by simp
qed

lemma unite_all_closure:
  assumes "ok n u" "classes n u = (E \<union> E\<inverse>)\<^sup>* \<inter> {..<n} \<times> {..<n}" "E \<subseteq> {..<n} \<times> {..<n}"
    "set es \<subseteq> {..<n} \<times> {..<n}"
  shows "\<exists>u'. foldO (\<lambda>(a, b). unite a b) es u = Some u' \<and> ok n u' \<and>
    classes n u' = (set es \<union> E \<union> (set es \<union> E)\<inverse>)\<^sup>* \<inter> {..<n} \<times> {..<n}"
  using assms
proof (induction es arbitrary: u E)
  case (Cons e es)
  obtain a b where e: "e = (a, b)" "a < n" "b < n" using Cons.prems(4) by (cases e) auto
  obtain u1 where u1: "unite a b u = Some u1" using unite [OF Cons.prems(1) e(2,3)] by blast
  have next1: "ok n u1" "classes n u1 = (insert e E \<union> (insert e E)\<inverse>)\<^sup>* \<inter> {..<n} \<times> {..<n}"
    using unite_closure [OF Cons.prems(1) e(2,3) Cons.prems(2,3) u1] e(1) by auto
  have "insert e E \<subseteq> {..<n} \<times> {..<n}" "set es \<subseteq> {..<n} \<times> {..<n}" using e Cons.prems by auto
  from Cons.IH [OF next1 this] show ?case using u1 e(1) by (auto simp: insert_commute)
qed simp

end

interpretation uf_sets: disjoint_sets uf_inv uf_root uf_unite
  by unfold_locales (rule uf_unite_correct)

lemma uf_create_classes: "uf_sets.classes n (UnionFind_create n) = ({} \<union> {}\<inverse>)\<^sup>* \<inter> {..<n} \<times> {..<n}"
proof -
  have "uf_root (UnionFind_create n) v = v" if "v < n" for v
    unfolding uf_root_iff [OF uf_inv_create that] using that by (simp add: root_of_fixed UnionFind_create_def)
  then show ?thesis by (auto simp: uf_sets.classes_def)
qed

end
