(* ===== verification/Detection.thy ===== *)
theory Detection
  imports Comparison UnionFind
begin

text \<open>
  The detection stage: Euclidean clustering of candidate points
  (\<open>backends/pcl/pcl_cluster_backend.cpp\<close>) and the clusters of dents, bumps and missing material
  (\<open>detection/defect_cluster.cpp\<close>). The k-d tree radius search and the order in which a hash map
  visits its keys are parameters. A function that reaches the recursive \<open>find\<close> returns an
  \<open>option\<close>: \<open>None\<close> would be a call that never returns.
\<close>

subsection \<open>pcl_cluster_backend.cpp\<close>

type_synonym point_search = "Vec3f list \<Rightarrow> Vec3f \<Rightarrow> f64 \<Rightarrow> int list"
type_synonym bucket_order = "i32 list \<Rightarrow> i32 list"

definition cluster_error :: "string \<Rightarrow> Error" where
  "cluster_error reason =
     \<lparr>err_code = internal_error, err_stage = stage_detect, err_message = ''PCL Euclidean clustering failed'',
      err_context = [(''reason'', reason)]\<rparr>"

text \<open>One iteration of the uniting loop; \<open>static_cast<std::size_t>(neighbor)\<close> is the 64-bit wrap.\<close>

definition neighbor_slot :: "int \<Rightarrow> nat" where
  "neighbor_slot neighbor = unat (word_of_int neighbor :: size_w)"

definition unite_neighbors ::
  "point_search \<Rightarrow> Vec3f list \<Rightarrow> f64 \<Rightarrow> nat \<Rightarrow> UnionFind \<Rightarrow> UnionFind option" where
  "unite_neighbors search cloud tolerance candidate u =
     foldO (\<lambda>neighbor. uf_unite candidate (neighbor_slot neighbor)) (search cloud (cloud ! candidate) tolerance) u"

record LabelState =
  ls_sets :: UnionFind
  ls_root_to_label :: "nat \<rightharpoonup> i32"
  ls_next_label :: i32
  ls_labels :: "i32 list"

definition assign_label :: "nat \<Rightarrow> LabelState \<Rightarrow> LabelState option" where
  "assign_label candidate st = Option.bind (uf_find (ls_sets st) candidate) (\<lambda>(root, sets).
     case ls_root_to_label st root of
       Some l \<Rightarrow> Some (st\<lparr>ls_sets := sets, ls_labels := (ls_labels st)[candidate := l]\<rparr>)
     | None \<Rightarrow> Some (st\<lparr>ls_sets := sets, ls_root_to_label := (ls_root_to_label st)(root \<mapsto> ls_next_label st),
                       ls_next_label := ls_next_label st + 1,
                       ls_labels := (ls_labels st)[candidate := ls_next_label st]\<rparr>))"

definition euclidean_cluster ::
  "point_search \<Rightarrow> Surface \<Rightarrow> nat list \<Rightarrow> f64 \<Rightarrow> i32 list Result option" where
  "euclidean_cluster search s candidates tolerance =
     (if \<not> isfinite tolerance \<or> tolerance \<le> 0
      then Some (Inl (cluster_error ''cluster tolerance must be finite and positive''))
      else if candidates = [] then Some (Inr [])
      else let cloud = map (\<lambda>i. sv_points s ! i) candidates; n = length candidates in
        Option.bind (foldO (unite_neighbors search cloud tolerance) [0..<n] (UnionFind_create n)) (\<lambda>sets.
        Option.bind (foldO assign_label [0..<n]
           \<lparr>ls_sets = sets, ls_root_to_label = Map.empty, ls_next_label = 0, ls_labels = replicate n (- 1)\<rparr>)
           (\<lambda>st. Some (Inr (ls_labels st)))))"

subsection \<open>defect_cluster.cpp\<close>

datatype DefectType = dent | bump | missing_material

record DefectCluster =
  dc_type :: DefectType
  dc_point_indices :: "nat list"

definition detection_error :: "ErrorCode \<Rightarrow> string \<Rightarrow> string \<Rightarrow> Error" where
  "detection_error code = field_error code stage_detect ''defect clustering failed''"

text \<open>\<open>groups[label].push_back(index)\<close> on the hash map, kept as a list of its entries.\<close>

fun group_append :: "i32 \<Rightarrow> nat \<Rightarrow> (i32 \<times> nat list) list \<Rightarrow> (i32 \<times> nat list) list" where
  "group_append l i [] = [(l, [i])]"
| "group_append l i ((k, js) # groups) =
     (if k = l then (k, js @ [i]) # groups else (k, js) # group_append l i groups)"

definition collect_groups :: "i32 list \<Rightarrow> nat list \<Rightarrow> (i32 \<times> nat list) list" where
  "collect_groups labels candidates =
     fold (\<lambda>c. group_append (labels ! c) (candidates ! c)) [0..<length candidates] []"

text \<open>The loop over the groups, in the order the hash map visits them.\<close>

definition keep_clusters ::
  "bucket_order \<Rightarrow> DefectType \<Rightarrow> u32 \<Rightarrow> (i32 \<times> nat list) list \<Rightarrow> DefectCluster list" where
  "keep_clusters order ty min_cluster_points groups =
     List.map_filter (\<lambda>label. case map_of groups label of
         Some indices \<Rightarrow> if length indices < unat min_cluster_points then None
           else Some \<lparr>dc_type = ty, dc_point_indices = indices\<rparr>
       | None \<Rightarrow> None) (order (map fst groups))"

definition cluster_candidates ::
  "point_search \<Rightarrow> bucket_order \<Rightarrow> Surface \<Rightarrow> nat list \<Rightarrow> DefectType \<Rightarrow> f64 \<Rightarrow> u32 \<Rightarrow>
     DefectCluster list Result option" where
  "cluster_candidates search order s candidates ty tolerance min_cluster_points =
     (if candidates = [] then Some (Inr [])
      else Option.bind (euclidean_cluster search s candidates tolerance) (\<lambda>r.
        Some (rbind r (\<lambda>labels.
          Inr (keep_clusters order ty min_cluster_points (collect_groups labels candidates))))))"

definition deviation_candidates :: "DeviationField \<Rightarrow> f64 \<Rightarrow> bool \<Rightarrow> nat list" where
  "deviation_candidates field threshold positive =
     filter (\<lambda>i. let sample = df_samples field ! i in ds_reason sample = dr_valid \<and>
         (if positive then threshold < ds_signed_mm sample else ds_signed_mm sample < threshold))
       [0..<length (df_samples field)]"

definition cluster_class ::
  "point_search \<Rightarrow> bucket_order \<Rightarrow> Surface \<Rightarrow> DeviationField \<Rightarrow> DefectType \<Rightarrow> f64 \<Rightarrow> bool \<Rightarrow> f64 \<Rightarrow> u32 \<Rightarrow>
     DefectCluster list Result option" where
  "cluster_class search order s field ty threshold positive tolerance min_cluster_points =
     cluster_candidates search order s (deviation_candidates field threshold positive) ty tolerance
       min_cluster_points"

definition cluster_deviation_defects ::
  "point_search \<Rightarrow> bucket_order \<Rightarrow> Surface \<Rightarrow> DeviationField \<Rightarrow> ValidatedDetectionConfig \<Rightarrow>
     DefectCluster list Result option" where
  "cluster_deviation_defects search order scan field config =
     (if sv_unit scan \<noteq> millimeter
      then Some (Inl (detection_error invalid_input ''aligned_scan.unit'' ''must be normalized to millimetres''))
      else if length (df_samples field) \<noteq> storage_size scan
      then Some (Inl (detection_error invalid_input ''field'' ''must span the aligned scan storage layout''))
      else Option.bind (cluster_class search order scan field bump (vdc_positive_threshold_mm config) True
             (vdc_cluster_tolerance_mm config) (vdc_min_cluster_points config)) (\<lambda>bumps.
           case bumps of Inl e \<Rightarrow> Some (Inl e) | Inr bumps \<Rightarrow>
           Option.bind (cluster_class search order scan field dent (vdc_negative_threshold_mm config) False
             (vdc_cluster_tolerance_mm config) (vdc_min_cluster_points config)) (\<lambda>dents.
           case dents of Inl e \<Rightarrow> Some (Inl e) | Inr dents \<Rightarrow> Some (Inr (bumps @ dents)))))"

definition missing_candidates :: "CoverageField \<Rightarrow> nat list" where
  "missing_candidates field =
     filter (\<lambda>i. cs_reason (cf_samples field ! i) = cr_no_neighbor) [0..<length (cf_samples field)]"

definition cluster_missing_material ::
  "point_search \<Rightarrow> bucket_order \<Rightarrow> Surface \<Rightarrow> CoverageField \<Rightarrow> ValidatedDetectionConfig \<Rightarrow>
     DefectCluster list Result option" where
  "cluster_missing_material search order reference field config =
     (if sv_unit reference \<noteq> millimeter
      then Some (Inl (detection_error invalid_input ''reference.unit'' ''must be normalized to millimetres''))
      else if length (cf_samples field) \<noteq> storage_size reference
      then Some (Inl (detection_error invalid_input ''field'' ''must span the reference storage layout''))
      else cluster_candidates search order reference (missing_candidates field) missing_material
             (vdc_cluster_tolerance_mm config) (vdc_min_cluster_points config))"

subsection \<open>Connected components\<close>

lemma fp_less_not_ge: "x < y \<Longrightarrow> \<not> y \<le> (x :: 'f::len fp)"
  using fp_less_le_trans [of x y x] by (cases x) (auto simp: fp_eval)

text \<open>What the code relies on of the searches and the hash map: indices of the cloud, every key once.\<close>

definition search_in_range :: "point_search \<Rightarrow> bool" where
  "search_in_range search \<longleftrightarrow> (\<forall>cloud p r. \<forall>k \<in> set (search cloud p r). 0 \<le> k \<and> k < int (length cloud))"

definition visits_each_key :: "bucket_order \<Rightarrow> bool" where
  "visits_each_key order \<longleftrightarrow> (\<forall>ks. distinct ks \<longrightarrow> distinct (order ks) \<and> set (order ks) = set ks)"

text \<open>Positions joined by a chain of search results, in either direction.\<close>

definition near :: "point_search \<Rightarrow> Vec3f list \<Rightarrow> f64 \<Rightarrow> (nat \<times> nat) set" where
  "near search cloud tolerance =
     {(a, b). a < length cloud \<and> int b \<in> set (search cloud (cloud ! a) tolerance)}"

definition linked :: "point_search \<Rightarrow> Vec3f list \<Rightarrow> f64 \<Rightarrow> (nat \<times> nat) set" where
  "linked search cloud tolerance =
     (near search cloud tolerance \<union> (near search cloud tolerance)\<inverse>)\<^sup>* \<inter>
       {..<length cloud} \<times> {..<length cloud}"

lemma neighbor_slot_int: "b < 2 ^ 64 \<Longrightarrow> neighbor_slot (int b) = b"
  by (simp add: neighbor_slot_def unat_of_nat)

lemma unite_loop:
  assumes "search_in_range search" "length cloud \<le> 2 ^ 64"
  shows "\<exists>sets. foldO (unite_neighbors search cloud tolerance) [0..<length cloud]
      (UnionFind_create (length cloud)) = Some sets \<and> uf_inv (length cloud) sets \<and>
    (\<forall>a < length cloud. \<forall>b < length cloud.
       uf_root sets a = uf_root sets b \<longleftrightarrow> (a, b) \<in> linked search cloud tolerance)"
proof -
  let ?n = "length cloud" and ?E = "near search cloud tolerance"
  let ?es = "concat (map (\<lambda>a. map (\<lambda>k. (a, neighbor_slot k)) (search cloud (cloud ! a) tolerance)) [0..<?n])"
  have loop: "foldO (unite_neighbors search cloud tolerance) [0..<?n] = foldO (\<lambda>(a, b). uf_unite a b) ?es"
    by (simp add: foldO_concat foldO_map unite_neighbors_def [abs_def])
  have range: "0 \<le> k \<and> k < int ?n" if "k \<in> set (search cloud p r)" for k p r
    using assms(1) that by (auto simp: search_in_range_def)
  have slot: "neighbor_slot k = b \<longleftrightarrow> k = int b" if "k \<in> set (search cloud p r)" for k p r b
  proof -
    have "k = int (nat k)" "nat k < 2 ^ 64" using range [OF that] assms(2) by auto
    then show ?thesis using neighbor_slot_int [of "nat k"] by auto
  qed
  have es: "set ?es = ?E"
  proof (rule set_eqI)
    fix e :: "nat \<times> nat"
    obtain a b where e: "e = (a, b)" by (cases e)
    have "(a, b) \<in> set ?es \<longleftrightarrow> a < ?n \<and> (\<exists>k \<in> set (search cloud (cloud ! a) tolerance). neighbor_slot k = b)"
      by auto
    also have "\<dots> \<longleftrightarrow> (a, b) \<in> ?E" using slot by (auto simp: near_def)
    finally show "e \<in> set ?es \<longleftrightarrow> e \<in> ?E" using e by simp
  qed
  have "?E \<subseteq> {..<?n} \<times> {..<?n}" using range by (force simp: near_def)
  then have sub: "set ?es \<subseteq> {..<?n} \<times> {..<?n}" using es by simp
  obtain sets where sets: "foldO (\<lambda>(a, b). uf_unite a b) ?es (UnionFind_create ?n) = Some sets" "uf_inv ?n sets"
    "uf_sets.classes ?n sets = (set ?es \<union> {} \<union> (set ?es \<union> {})\<inverse>)\<^sup>* \<inter> {..<?n} \<times> {..<?n}"
    using uf_sets.unite_all_closure [OF uf_inv_create uf_create_classes empty_subsetI sub] by blast
  then have "uf_sets.classes ?n sets = linked search cloud tolerance" unfolding es linked_def by simp
  then show ?thesis using sets loop by (auto simp: uf_sets.classes_def)
qed

text \<open>The labelling loop, after \<open>k\<close> positions with \<open>m\<close> labels given out.\<close>

definition label_inv :: "nat \<Rightarrow> (nat \<Rightarrow> nat) \<Rightarrow> nat \<Rightarrow> nat \<Rightarrow> LabelState \<Rightarrow> bool" where
  "label_inv n rep k m st \<longleftrightarrow>
     uf_inv n (ls_sets st) \<and> (\<forall>v < n. uf_root (ls_sets st) v = rep v) \<and>
     m \<le> k \<and> ls_next_label st = of_nat m \<and> length (ls_labels st) = n \<and>
     (\<forall>a < k. \<exists>l < m. ls_root_to_label st (rep a) = Some (of_nat l) \<and> ls_labels st ! a = of_nat l) \<and>
     dom (ls_root_to_label st) \<subseteq> rep ` {..<k} \<and> inj_on (ls_root_to_label st) (dom (ls_root_to_label st)) \<and>
     (\<forall>l < m. \<exists>b < k. ls_labels st ! b = of_nat l) \<and>
     (\<forall>a < k. \<forall>l < ls_labels st ! a. \<exists>b < a. ls_labels st ! b = l)"

lemma label_less_iff: "m \<le> 2 ^ 31 \<Longrightarrow> (l :: i32) < of_nat m \<longleftrightarrow> unat l < m"
  by (simp add: word_less_nat_alt unat_of_nat)

lemma label_eq_iff: "i < 2 ^ 31 \<Longrightarrow> j \<le> 2 ^ 31 \<Longrightarrow> (of_nat i :: i32) = of_nat j \<longleftrightarrow> i = j"
  by (simp add: word_unat_eq_iff unat_of_nat)

lemma assign_label_step:
  assumes inv: "label_inv n rep k m st" and k: "k < n" "n \<le> 2 ^ 31"
  shows "\<exists>m' st'. assign_label k st = Some st' \<and> label_inv n rep (Suc k) m' st'"
proof -
  note i = inv [unfolded label_inv_def]
  have uf: "uf_inv n (ls_sets st)" and roots: "\<And>v. v < n \<Longrightarrow> uf_root (ls_sets st) v = rep v"
    and m: "m \<le> k" and next_label: "ls_next_label st = of_nat m" and len: "length (ls_labels st) = n"
    and given: "\<And>a. a < k \<Longrightarrow> \<exists>l < m. ls_root_to_label st (rep a) = Some (of_nat l) \<and> ls_labels st ! a = of_nat l"
    and dom: "dom (ls_root_to_label st) \<subseteq> rep ` {..<k}"
    and inj: "inj_on (ls_root_to_label st) (dom (ls_root_to_label st))"
    and used: "\<And>l. l < m \<Longrightarrow> \<exists>b < k. ls_labels st ! b = of_nat l"
    and first: "\<And>a l. a < k \<Longrightarrow> l < ls_labels st ! a \<Longrightarrow> \<exists>b < a. ls_labels st ! b = l"
    using i by blast+
  obtain root sets where f: "uf_find (ls_sets st) k = Some (root, sets)" "uf_inv n sets"
    "\<forall>x < n. \<forall>q. root_of (uf_parent sets) x q \<longleftrightarrow> root_of (uf_parent (ls_sets st)) x q"
    using uf_find_correct [OF uf k(1)] by blast
  have root: "root = rep k" using f(1) roots [OF k(1)] by (simp add: uf_root_def)
  have roots': "\<And>v. v < n \<Longrightarrow> uf_root sets v = rep v" using uf_root_same [OF uf f(2,3)] roots by simp
  have below: "ls_labels st ! a \<noteq> of_nat m" if "a < k" for a
  proof -
    obtain l where l: "l < m" "ls_labels st ! a = of_nat l" using given [of a] \<open>a < k\<close> by blast
    then have "l < 2 ^ 31" "m \<le> 2 ^ 31" using m k by linarith+
    then show ?thesis using l label_eq_iff [of l m] by simp
  qed
  show ?thesis
  proof (cases "ls_root_to_label st root")
    case (Some l)
    let ?st = "st\<lparr>ls_sets := sets, ls_labels := (ls_labels st)[k := l]\<rparr>"
    have step: "assign_label k st = Some ?st" by (simp add: assign_label_def f(1) Some)
    obtain a where a: "a < k" "rep a = rep k" using dom Some root by (force simp: dom_def)
    then obtain j where j: "j < m" "l = of_nat j" "ls_labels st ! a = l"
      using given [OF a(1)] Some root by auto
    have "label_inv n rep (Suc k) m ?st"
      unfolding label_inv_def
    proof (intro conjI)
      show "\<forall>x < Suc k. \<exists>i < m. ls_root_to_label ?st (rep x) = Some (of_nat i) \<and> ls_labels ?st ! x = of_nat i"
        using given j Some root len k by (auto simp: less_Suc_eq nth_list_update)
      show "\<forall>x < Suc k. \<forall>i < ls_labels ?st ! x. \<exists>b < x. ls_labels ?st ! b = i"
      proof (intro allI impI)
        fix x i assume x: "x < Suc k" and i: "i < ls_labels ?st ! x"
        show "\<exists>b < x. ls_labels ?st ! b = i"
        proof (cases "x = k")
          case True
          then have "i < ls_labels st ! a" using i j len k by simp
          then obtain b where "b < a" "ls_labels st ! b = i" using first a by blast
          then show ?thesis using True a by (intro exI [of _ b]) auto
        next
          case False
          then obtain b where "b < x" "ls_labels st ! b = i" using first [of x i] x i by auto
          then show ?thesis using x by (intro exI [of _ b]) auto
        qed
      qed
      show "\<forall>i < m. \<exists>b < Suc k. ls_labels ?st ! b = of_nat i"
      proof (intro allI impI)
        fix i assume "i < m"
        then obtain b where "b < k" "ls_labels st ! b = of_nat i" using used by blast
        then show "\<exists>b < Suc k. ls_labels ?st ! b = of_nat i" by (intro exI [of _ b]) simp
      qed
      show "dom (ls_root_to_label ?st) \<subseteq> rep ` {..<Suc k}" using dom by (auto simp: lessThan_Suc)
    qed (use f roots' m next_label len inj in auto)
    then show ?thesis using step by blast
  next
    case None
    let ?st = "st\<lparr>ls_sets := sets, ls_root_to_label := (ls_root_to_label st)(root \<mapsto> of_nat m),
      ls_next_label := of_nat m + 1, ls_labels := (ls_labels st)[k := of_nat m]\<rparr>"
    have step: "assign_label k st = Some ?st" by (simp add: assign_label_def f(1) None next_label)
    have other: "rep a \<noteq> root" if "a < k" for a using given [OF that] None by auto
    have "label_inv n rep (Suc k) (Suc m) ?st"
      unfolding label_inv_def
    proof (intro conjI)
      show "\<forall>x < Suc k. \<exists>i < Suc m. ls_root_to_label ?st (rep x) = Some (of_nat i) \<and> ls_labels ?st ! x = of_nat i"
        using given root len k other by (auto simp: less_Suc_eq nth_list_update)
      show "\<forall>x < Suc k. \<forall>i < ls_labels ?st ! x. \<exists>b < x. ls_labels ?st ! b = i"
      proof (intro allI impI)
        fix x i assume x: "x < Suc k" and i: "i < ls_labels ?st ! x"
        show "\<exists>b < x. ls_labels ?st ! b = i"
        proof (cases "x = k")
          case True
          then have "unat i < m" using i len k m label_less_iff [of m i] by simp
          then obtain b where "b < k" "ls_labels st ! b = of_nat (unat i)" using used by blast
          then show ?thesis using True by (intro exI [of _ b]) auto
        next
          case False
          then obtain b where "b < x" "ls_labels st ! b = i" using first [of x i] x i by auto
          then show ?thesis using x by (intro exI [of _ b]) auto
        qed
      qed
      show "\<forall>i < Suc m. \<exists>b < Suc k. ls_labels ?st ! b = of_nat i"
      proof (intro allI impI)
        fix i assume "i < Suc m"
        then consider "i = m" | "i < m" by linarith
        then show "\<exists>b < Suc k. ls_labels ?st ! b = of_nat i"
        proof cases
          case 1
          then show ?thesis using len k by (intro exI [of _ k]) simp
        next
          case 2
          then obtain b where "b < k" "ls_labels st ! b = of_nat i" using used by blast
          then show ?thesis by (intro exI [of _ b]) simp
        qed
      qed
      show "dom (ls_root_to_label ?st) \<subseteq> rep ` {..<Suc k}" using dom root by (auto simp: lessThan_Suc)
      have fresh: "ls_root_to_label st x \<noteq> Some (of_nat m)" for x
      proof
        assume x: "ls_root_to_label st x = Some (of_nat m)"
        then obtain a where "a < k" "x = rep a" using dom by (force simp: dom_def)
        then show False using given [of a] below [of a] x by auto
      qed
      show "inj_on (ls_root_to_label ?st) (dom (ls_root_to_label ?st))"
        using inj fresh by (auto simp: inj_on_def dom_def)
    qed (use f roots' m len in \<open>auto simp: add.commute\<close>)
    then show ?thesis using step by blast
  qed
qed

lemma label_loop:
  assumes "uf_inv n sets" "n \<le> 2 ^ 31" "k \<le> n"
  shows "\<exists>m st. foldO assign_label [0..<k] \<lparr>ls_sets = sets, ls_root_to_label = Map.empty, ls_next_label = 0,
      ls_labels = replicate n (- 1)\<rparr> = Some st \<and> label_inv n (uf_root sets) k m st"
  using assms(3)
proof (induction k)
  case 0
  have "label_inv n (uf_root sets) 0 0 \<lparr>ls_sets = sets, ls_root_to_label = Map.empty, ls_next_label = 0,
      ls_labels = replicate n (- 1)\<rparr>"
    using assms(1) by (simp add: label_inv_def)
  then show ?case by auto
next
  case (Suc k)
  then obtain m st where st: "foldO assign_label [0..<k] \<lparr>ls_sets = sets, ls_root_to_label = Map.empty,
      ls_next_label = 0, ls_labels = replicate n (- 1)\<rparr> = Some st" "label_inv n (uf_root sets) k m st" by auto
  obtain m' st' where "assign_label k st = Some st'" "label_inv n (uf_root sets) (Suc k) m' st'"
    using assign_label_step [OF st(2)] Suc.prems assms(2) by auto
  then show ?case using st(1) by (auto simp: foldO_append)
qed

lemma euclidean_clusterI:
  assumes "search_in_range search" "length candidates \<le> 2 ^ 31" "isfinite tolerance" "0 < tolerance"
  shows "\<exists>labels. euclidean_cluster search s candidates tolerance = Some (Inr labels) \<and>
    length labels = length candidates \<and>
    (\<forall>a < length candidates. \<forall>b < length candidates. labels ! a = labels ! b \<longleftrightarrow>
       (a, b) \<in> linked search (map (\<lambda>i. sv_points s ! i) candidates) tolerance) \<and>
    (\<forall>a < length candidates. \<forall>l < labels ! a. \<exists>b < a. labels ! b = l)"
proof (cases "candidates = []")
  case True
  then show ?thesis using assms by (auto simp: euclidean_cluster_def fp_less_not_ge)
next
  case False
  let ?cloud = "map (\<lambda>i. sv_points s ! i) candidates" and ?n = "length candidates"
  obtain sets where sets: "foldO (unite_neighbors search ?cloud tolerance) [0..<?n] (UnionFind_create ?n) = Some sets"
    "uf_inv ?n sets" "\<forall>a < ?n. \<forall>b < ?n. uf_root sets a = uf_root sets b \<longleftrightarrow> (a, b) \<in> linked search ?cloud tolerance"
    using unite_loop [OF assms(1), of ?cloud tolerance] assms(2) by auto
  obtain m st where st: "foldO assign_label [0..<?n] \<lparr>ls_sets = sets, ls_root_to_label = Map.empty, ls_next_label = 0,
      ls_labels = replicate ?n (- 1)\<rparr> = Some st" "label_inv ?n (uf_root sets) ?n m st"
    using label_loop [OF sets(2) assms(2) order_refl] by blast
  have "euclidean_cluster search s candidates tolerance = Some (Inr (ls_labels st))"
    using assms(3,4) False by (simp add: euclidean_cluster_def Let_def sets(1) st(1) fp_less_not_ge)
  moreover have "ls_labels st ! a = ls_labels st ! b \<longleftrightarrow> uf_root sets a = uf_root sets b"
    if "a < ?n" "b < ?n" for a b
  proof -
    have "inj_on (ls_root_to_label st) (dom (ls_root_to_label st))" using st(2) by (simp add: label_inv_def)
    moreover have "\<exists>l. ls_root_to_label st (uf_root sets x) = Some l \<and> ls_labels st ! x = l" if "x < ?n" for x
      using st(2) that unfolding label_inv_def by blast
    ultimately show ?thesis using that by (metis domI inj_onD option.inject)
  qed
  moreover have "length (ls_labels st) = ?n" "\<forall>a < ?n. \<forall>l < ls_labels st ! a. \<exists>b < a. ls_labels st ! b = l"
    using st(2) unfolding label_inv_def by blast+
  ultimately show ?thesis using sets(3) by auto
qed

text \<open>Whatever the size of the input, the tolerance and the limits, the clustering calls return.\<close>

lemma euclidean_cluster_returns:
  assumes "search_in_range search" "length candidates \<le> 2 ^ 64"
  shows "\<exists>r. euclidean_cluster search s candidates tolerance = Some r"
proof -
  let ?cloud = "map (\<lambda>i. sv_points s ! i) candidates" and ?n = "length candidates"
  obtain sets where sets: "foldO (unite_neighbors search ?cloud tolerance) [0..<?n] (UnionFind_create ?n) = Some sets"
    "uf_inv ?n sets"
    using unite_loop [OF assms(1), of ?cloud tolerance] assms(2) by auto
  have "\<exists>st'. assign_label k st = Some st' \<and> uf_inv ?n (ls_sets st')" if "k < ?n" "uf_inv ?n (ls_sets st)" for k st
    using uf_find_correct [OF that(2,1)] by (fastforce simp: assign_label_def split: option.splits)
  then have "\<exists>st. foldO assign_label [0..<?n] \<lparr>ls_sets = sets, ls_root_to_label = Map.empty, ls_next_label = 0,
      ls_labels = replicate ?n (- 1)\<rparr> = Some st \<and> uf_inv ?n (ls_sets st)"
    using sets(2) by (intro foldO_invariant) auto
  then show ?thesis using sets(1) by (auto simp: euclidean_cluster_def Let_def)
qed

lemma cluster_candidates_returns:
  assumes "search_in_range search" "length candidates \<le> 2 ^ 64"
  shows "\<exists>r. cluster_candidates search order s candidates ty tolerance k = Some r"
  using euclidean_cluster_returns [OF assms, of s tolerance] by (auto simp: cluster_candidates_def)

text \<open>
  C7. Euclidean clustering always returns, one label per candidate. Two candidates get the same
  label exactly when a chain of radius-search hits joins them, and labels are handed out in order of
  first appearance: every smaller label occurs at an earlier candidate.
\<close>
theorem euclidean_cluster_components:
  assumes "search_in_range search" "length candidates \<le> 2 ^ 31" "isfinite tolerance" "0 < tolerance"
  shows "\<exists>labels. euclidean_cluster search s candidates tolerance = Some (Inr labels) \<and>
    length labels = length candidates \<and>
    (\<forall>a < length candidates. \<forall>b < length candidates. labels ! a = labels ! b \<longleftrightarrow>
       (a, b) \<in> linked search (map (\<lambda>i. sv_points s ! i) candidates) tolerance) \<and>
    (\<forall>a < length candidates. \<forall>l < labels ! a. \<exists>b < a. labels ! b = l)"
  by (rule euclidean_clusterI [OF assms])

subsection \<open>Clusters\<close>

text \<open>The candidates of the component of position \<open>a\<close>, in candidate order.\<close>

definition component_of :: "point_search \<Rightarrow> Surface \<Rightarrow> nat list \<Rightarrow> f64 \<Rightarrow> nat \<Rightarrow> nat list" where
  "component_of search s candidates tolerance a =
     map (\<lambda>b. candidates ! b) (filter (\<lambda>b. (a, b) \<in> linked search (map (\<lambda>i. sv_points s ! i) candidates) tolerance)
       [0..<length candidates])"

definition expected_clusters ::
  "point_search \<Rightarrow> Surface \<Rightarrow> nat list \<Rightarrow> f64 \<Rightarrow> u32 \<Rightarrow> DefectType \<Rightarrow> DefectCluster set" where
  "expected_clusters search s candidates tolerance min_cluster_points ty =
     {\<lparr>dc_type = ty, dc_point_indices = c\<rparr> | c. c \<in> component_of search s candidates tolerance ` {..<length candidates} \<and>
        unat min_cluster_points \<le> length c}"

lemma map_of_group_append:
  "map_of (group_append l i groups) =
     (map_of groups)(l \<mapsto> (case map_of groups l of Some js \<Rightarrow> js @ [i] | None \<Rightarrow> [i]))"
  by (induction l i groups rule: group_append.induct) (auto simp: fun_eq_iff)

lemma keys_group_append:
  "fst ` set (group_append l i groups) = insert l (fst ` set groups)"
  "distinct (map fst groups) \<Longrightarrow> distinct (map fst (group_append l i groups))"
proof -
  have *: "fst ` set (group_append l i gs) = insert l (fst ` set gs)" for l i gs
    by (induction l i gs rule: group_append.induct) auto
  show "fst ` set (group_append l i groups) = insert l (fst ` set groups)" by (rule *)
  show "distinct (map fst groups) \<Longrightarrow> distinct (map fst (group_append l i groups))"
  proof (induction l i groups rule: group_append.induct)
    case (2 l i k js groups)
    have "k \<notin> fst ` set (group_append l i groups)" if "k \<noteq> l" unfolding * using 2 that by simp
    then show ?case using 2 by auto
  qed simp
qed

lemma collect_groups_correct:
  assumes "length labels = length candidates"
  shows "distinct (map fst (collect_groups labels candidates))"
    and "set (map fst (collect_groups labels candidates)) = set labels"
    and "l \<in> set labels \<Longrightarrow> map_of (collect_groups labels candidates) l =
      Some (map (\<lambda>b. candidates ! b) (filter (\<lambda>b. labels ! b = l) [0..<length candidates]))"
proof -
  let ?g = "\<lambda>k. fold (\<lambda>c. group_append (labels ! c) (candidates ! c)) [0..<k] []"
  have keys: "distinct (map fst (?g k)) \<and> set (map fst (?g k)) = (\<lambda>c. labels ! c) ` {..<k}" for k
    by (induction k) (simp_all add: keys_group_append lessThan_Suc)
  have content: "map_of (?g k) l = (if filter (\<lambda>b. labels ! b = l) [0..<k] = [] then None
      else Some (map (\<lambda>b. candidates ! b) (filter (\<lambda>b. labels ! b = l) [0..<k])))" for k l
    by (induction k) (auto simp: map_of_group_append)
  have all: "(\<lambda>c. labels ! c) ` {..<length candidates} = set labels"
    using assms by (auto simp: set_conv_nth)
  show "distinct (map fst (collect_groups labels candidates))"
    "set (map fst (collect_groups labels candidates)) = set labels"
    using keys [of "length candidates"] all by (simp_all add: collect_groups_def)
  assume "l \<in> set labels"
  then have "filter (\<lambda>b. labels ! b = l) [0..<length candidates] \<noteq> []"
    using assms by (auto simp: filter_empty_conv in_set_conv_nth)
  then show "map_of (collect_groups labels candidates) l =
      Some (map (\<lambda>b. candidates ! b) (filter (\<lambda>b. labels ! b = l) [0..<length candidates]))"
    using content by (simp add: collect_groups_def)
qed

lemma set_map_filter: "set (List.map_filter f xs) = {y. \<exists>x \<in> set xs. f x = Some y}"
  by (force simp: List.map_filter_def)

lemma distinct_map_filter:
  "distinct xs \<Longrightarrow> (\<And>x y z. x \<in> set xs \<Longrightarrow> y \<in> set xs \<Longrightarrow> f x = Some z \<Longrightarrow> f y = Some z \<Longrightarrow> x = y) \<Longrightarrow>
   distinct (List.map_filter f xs)"
proof (induction xs)
  case (Cons x xs)
  then have "distinct (List.map_filter f xs)" by simp
  moreover have "f x = Some y \<Longrightarrow> y \<notin> set (List.map_filter f xs)" for y
    using Cons.prems by (fastforce simp: set_map_filter)
  ultimately show ?case by (auto simp: map_filter_simps split: option.split)
qed (simp add: map_filter_simps)

lemma cluster_candidates_correct:
  assumes search: "search_in_range search" "isfinite tolerance" "0 < tolerance"
    and order: "visits_each_key order" and c: "length candidates \<le> 2 ^ 31" "distinct candidates"
  shows "\<exists>cs. cluster_candidates search order s candidates ty tolerance k = Some (Inr cs) \<and> distinct cs \<and>
    set cs = expected_clusters search s candidates tolerance k ty"
proof (cases "candidates = []")
  case True
  then show ?thesis by (simp add: cluster_candidates_def expected_clusters_def)
next
  case False
  let ?n = "length candidates"
  obtain labels where labels: "euclidean_cluster search s candidates tolerance = Some (Inr labels)"
    "length labels = ?n" and same: "\<And>a b. a < ?n \<Longrightarrow> b < ?n \<Longrightarrow> labels ! a = labels ! b \<longleftrightarrow>
       (a, b) \<in> linked search (map (\<lambda>i. sv_points s ! i) candidates) tolerance"
    using euclidean_clusterI [OF search(1) c(1) search(2,3), of s] by blast
  let ?g = "collect_groups labels candidates"
  let ?keep = "\<lambda>label. case map_of ?g label of Some indices \<Rightarrow> if length indices < unat k then None
      else Some \<lparr>dc_type = ty, dc_point_indices = indices\<rparr> | None \<Rightarrow> None"
  note groups = collect_groups_correct [OF labels(2)]
  have keys: "distinct (order (map fst ?g))" "set (order (map fst ?g)) = set labels"
    using order groups(1,2) by (auto simp: visits_each_key_def)
  have group: "map_of ?g (labels ! a) = Some (component_of search s candidates tolerance a)" if "a < ?n" for a
  proof -
    have "filter (\<lambda>b. labels ! b = labels ! a) [0..<?n] =
        filter (\<lambda>b. (a, b) \<in> linked search (map (\<lambda>i. sv_points s ! i) candidates) tolerance) [0..<?n]"
      using same [OF that] by (intro filter_cong) (auto simp: eq_commute [of _ "labels ! a"])
    then show ?thesis using groups(3) [of "labels ! a"] that labels(2) by (simp add: component_of_def)
  qed
  have "set labels = (\<lambda>a. labels ! a) ` {..<?n}" using labels(2) by (auto simp: set_conv_nth)
  then have elements: "set (keep_clusters order ty k ?g) = expected_clusters search s candidates tolerance k ty"
    by (force simp: keep_clusters_def set_map_filter keys(2) group expected_clusters_def not_less
        split: if_splits)
  have "a = b" if "a \<in> set labels" "b \<in> set labels" "?keep a = Some x" "?keep b = Some x" for a b x
  proof -
    have "map_of ?g a = Some (dc_point_indices x)" "map_of ?g b = Some (dc_point_indices x)"
      using that(3,4) by (auto split: option.splits if_splits)
    then have eq: "map (\<lambda>p. candidates ! p) (filter (\<lambda>p. labels ! p = a) [0..<?n]) =
        map (\<lambda>p. candidates ! p) (filter (\<lambda>p. labels ! p = b) [0..<?n])"
      using groups(3) that(1,2) by simp
    obtain p where p: "p < ?n" "labels ! p = a" using \<open>a \<in> set labels\<close> labels(2) by (auto simp: in_set_conv_nth)
    then have "candidates ! p \<in> set (map (\<lambda>p. candidates ! p) (filter (\<lambda>p. labels ! p = b) [0..<?n]))"
      unfolding eq [symmetric] by auto
    then obtain q where "q < ?n" "labels ! q = b" "candidates ! p = candidates ! q" by auto
    then show ?thesis using p c(2) by (simp add: nth_eq_iff_index_eq)
  qed
  then have "distinct (keep_clusters order ty k ?g)"
    unfolding keep_clusters_def using keys by (intro distinct_map_filter) auto
  then show ?thesis using elements labels(1) False by (simp add: cluster_candidates_def)
qed

text \<open>The points a cluster is made of.\<close>

lemma expected_clusters_points:
  "c \<in> expected_clusters search s candidates tolerance k ty \<Longrightarrow>
   set (dc_point_indices c) \<subseteq> set candidates \<and> unat k \<le> length (dc_point_indices c)"
  by (auto simp: expected_clusters_def component_of_def)

lemma deviation_candidates_set:
  "set (deviation_candidates field threshold positive) =
     {i. i < length (df_samples field) \<and> ds_reason (df_samples field ! i) = dr_valid \<and>
        (if positive then threshold < ds_signed_mm (df_samples field ! i)
         else ds_signed_mm (df_samples field ! i) < threshold)}"
  by (auto simp: deviation_candidates_def Let_def)

lemma candidate_lengths:
  "length (deviation_candidates field threshold positive) \<le> length (df_samples field)"
  "length (missing_candidates coverage) \<le> length (cf_samples coverage)"
proof -
  have "length (filter P [0..<n]) \<le> n" for P n using length_filter_le [of P "[0..<n]"] by simp
  then show "length (deviation_candidates field threshold positive) \<le> length (df_samples field)"
    "length (missing_candidates coverage) \<le> length (cf_samples coverage)"
    unfolding deviation_candidates_def missing_candidates_def by blast+
qed

lemma candidates_distinct: "distinct (deviation_candidates field threshold positive)"
    "distinct (missing_candidates coverage)"
  by (simp_all add: deviation_candidates_def missing_candidates_def)

lemma clustering_returns:
  assumes "search_in_range search"
  shows "storage_size scan \<le> 2 ^ 64 \<Longrightarrow> \<exists>r. cluster_deviation_defects search order scan field config = Some r"
    and "storage_size reference \<le> 2 ^ 64 \<Longrightarrow> \<exists>r. cluster_missing_material search order reference coverage config = Some r"
proof -
  assume scan: "storage_size scan \<le> 2 ^ 64"
  show "\<exists>r. cluster_deviation_defects search order scan field config = Some r"
  proof (cases "length (df_samples field) = storage_size scan")
    case True
    then have "length (deviation_candidates field threshold positive) \<le> 2 ^ 64" for threshold positive
      using candidate_lengths(1) [of field threshold positive] scan by linarith
    then have "\<exists>r. cluster_class search order scan field ty threshold positive tolerance k = Some r" for ty threshold positive tolerance k
      unfolding cluster_class_def using cluster_candidates_returns [OF assms] by blast
    then obtain bumps dents where
      "cluster_class search order scan field bump (vdc_positive_threshold_mm config) True
         (vdc_cluster_tolerance_mm config) (vdc_min_cluster_points config) = Some bumps"
      "cluster_class search order scan field dent (vdc_negative_threshold_mm config) False
         (vdc_cluster_tolerance_mm config) (vdc_min_cluster_points config) = Some dents" by metis
    then show ?thesis by (cases bumps; cases dents) (simp_all add: cluster_deviation_defects_def)
  qed (auto simp: cluster_deviation_defects_def)
next
  assume "storage_size reference \<le> 2 ^ 64"
  then show "\<exists>r. cluster_missing_material search order reference coverage config = Some r"
    using candidate_lengths(2) [of coverage] cluster_candidates_returns [OF assms, of "missing_candidates coverage"]
    by (auto simp: cluster_missing_material_def)
qed

text \<open>
  C19. Defect clustering returns exactly the connected components, with at least the configured
  number of points, of the trustworthy samples above the positive threshold (bumps) and of those
  below the negative one (dents), each component once, and nothing else.
\<close>
theorem deviation_clusters_correct:
  assumes "search_in_range search" "visits_each_key order"
    and "isfinite (vdc_cluster_tolerance_mm config)" "0 < vdc_cluster_tolerance_mm config"
    and "sv_unit scan = millimeter" "length (df_samples field) = storage_size scan" "storage_size scan \<le> 2 ^ 31"
  shows "\<exists>cs. cluster_deviation_defects search order scan field config = Some (Inr cs) \<and> distinct cs \<and>
    set cs = expected_clusters search scan (deviation_candidates field (vdc_positive_threshold_mm config) True)
        (vdc_cluster_tolerance_mm config) (vdc_min_cluster_points config) bump \<union>
      expected_clusters search scan (deviation_candidates field (vdc_negative_threshold_mm config) False)
        (vdc_cluster_tolerance_mm config) (vdc_min_cluster_points config) dent"
proof -
  have len: "length (deviation_candidates field t p) \<le> 2 ^ 31" for t p
    using candidate_lengths(1) [of field t p] assms(6,7) by simp
  note correct = cluster_candidates_correct [OF assms(1,3,4,2) len candidates_distinct(1)]
  obtain bumps where b: "cluster_class search order scan field bump (vdc_positive_threshold_mm config) True
      (vdc_cluster_tolerance_mm config) (vdc_min_cluster_points config) = Some (Inr bumps)" "distinct bumps"
    "set bumps = expected_clusters search scan (deviation_candidates field (vdc_positive_threshold_mm config) True)
        (vdc_cluster_tolerance_mm config) (vdc_min_cluster_points config) bump"
    using correct unfolding cluster_class_def by blast
  obtain dents where d: "cluster_class search order scan field dent (vdc_negative_threshold_mm config) False
      (vdc_cluster_tolerance_mm config) (vdc_min_cluster_points config) = Some (Inr dents)" "distinct dents"
    "set dents = expected_clusters search scan (deviation_candidates field (vdc_negative_threshold_mm config) False)
        (vdc_cluster_tolerance_mm config) (vdc_min_cluster_points config) dent"
    using correct unfolding cluster_class_def by blast
  have "set bumps \<inter> set dents = {}" using b(3) d(3) by (auto simp: expected_clusters_def)
  then show ?thesis using assms(5,6) b d by (simp add: cluster_deviation_defects_def)
qed

text \<open>
  Missing-material clustering returns exactly the sufficiently large connected components of
  the reference points for which no scan point was found.
\<close>
theorem missing_clusters_correct:
  assumes "search_in_range search" "visits_each_key order"
    and "isfinite (vdc_cluster_tolerance_mm config)" "0 < vdc_cluster_tolerance_mm config"
    and "sv_unit ref = millimeter" "length (cf_samples field) = storage_size ref" "storage_size ref \<le> 2 ^ 31"
  shows "\<exists>cs. cluster_missing_material search order ref field config = Some (Inr cs) \<and> distinct cs \<and>
    set cs = expected_clusters search ref (missing_candidates field)
        (vdc_cluster_tolerance_mm config) (vdc_min_cluster_points config) missing_material"
proof -
  have "length (missing_candidates field) \<le> 2 ^ 31"
    using candidate_lengths(2) [of field] assms(6,7) by simp
  from cluster_candidates_correct [OF assms(1,3,4,2) this candidates_distinct(2)]
  show ?thesis using assms(5,6) by (simp add: cluster_missing_material_def)
qed

text \<open>A search that finds the whole cloud, the identity order, and a field with one bump point.\<close>

definition whole_cloud_search :: point_search where
  "whole_cloud_search cloud p r = map int [0..<length cloud]"

lemma whole_cloud_in_range: "search_in_range whole_cloud_search"
  by (auto simp: search_in_range_def whole_cloud_search_def)

lemma id_visits: "visits_each_key id"
  by (simp add: visits_each_key_def)

definition sample_detection :: ValidatedDetectionConfig where
  "sample_detection = \<lparr>vdc_positive_threshold_mm = 1, vdc_negative_threshold_mm = - 1, vdc_cluster_tolerance_mm = 1,
     vdc_min_cluster_points = 1, vdc_measurement_error_budget_mm = 0\<rparr>"

definition sample_bump_field :: DeviationField where
  "sample_bump_field = \<lparr>df_samples = [default_sample, default_sample\<lparr>ds_reason := dr_valid, ds_signed_mm := Num 2\<rparr>],
     df_valid_count = 1\<rparr>"

lemma sample_detection_tolerance:
  "isfinite (vdc_cluster_tolerance_mm sample_detection)" "0 < vdc_cluster_tolerance_mm sample_detection"
  by (simp_all add: sample_detection_def fp_eval)

lemma sample_mm_surface_size: "sv_unit sample_mm_surface = millimeter" "storage_size sample_mm_surface = 2"
  by code_simp+

theorem euclidean_cluster_components_witness:
  "\<exists>labels. euclidean_cluster whole_cloud_search sample_mm_surface [0, 1] 1 = Some (Inr labels) \<and> length labels = 2"
  using euclidean_cluster_components [OF whole_cloud_in_range, of "[0, 1]" 1 sample_mm_surface]
  by (auto simp: fp_eval)

theorem deviation_clusters_correct_witness:
  "\<exists>cs. cluster_deviation_defects whole_cloud_search id sample_mm_surface sample_bump_field sample_detection =
      Some (Inr cs) \<and> cs = [\<lparr>dc_type = bump, dc_point_indices = [1]\<rparr>]"
proof -
  have n: "length (df_samples sample_bump_field) = storage_size sample_mm_surface" "storage_size sample_mm_surface \<le> 2 ^ 31"
    by (simp_all add: sample_mm_surface_size sample_bump_field_def)
  obtain cs where cs: "cluster_deviation_defects whole_cloud_search id sample_mm_surface sample_bump_field sample_detection =
      Some (Inr cs)" "distinct cs"
    "set cs = expected_clusters whole_cloud_search sample_mm_surface (deviation_candidates sample_bump_field
          (vdc_positive_threshold_mm sample_detection) True) (vdc_cluster_tolerance_mm sample_detection)
          (vdc_min_cluster_points sample_detection) bump \<union>
      expected_clusters whole_cloud_search sample_mm_surface (deviation_candidates sample_bump_field
          (vdc_negative_threshold_mm sample_detection) False) (vdc_cluster_tolerance_mm sample_detection)
          (vdc_min_cluster_points sample_detection) dent"
    using deviation_clusters_correct [OF whole_cloud_in_range id_visits sample_detection_tolerance
        sample_mm_surface_size(1) n] by blast
  have "deviation_candidates sample_bump_field (vdc_positive_threshold_mm sample_detection) True = [1]"
    "deviation_candidates sample_bump_field (vdc_negative_threshold_mm sample_detection) False = []"
    by (simp_all add: deviation_candidates_def sample_bump_field_def sample_detection_def default_sample_def
        upt_rec fp_eval)
  then have "set cs = {\<lparr>dc_type = bump, dc_point_indices = [1]\<rparr>}"
    unfolding cs(3)
    by (auto simp: expected_clusters_def component_of_def linked_def sample_detection_def)
  then have "cs = [\<lparr>dc_type = bump, dc_point_indices = [1]\<rparr>]"
    using cs(2) by (cases cs; cases "tl cs") auto
  then show ?thesis using cs(1) by blast
qed

theorem missing_clusters_correct_witness:
  "\<exists>cs. cluster_missing_material whole_cloud_search id sample_mm_surface
      \<lparr>cf_samples = replicate 2 \<lparr>cs_distance_mm = 0, cs_reason = cr_covered\<rparr>, cf_covered_count = 2, cf_valid_count = 2\<rparr>
      sample_detection = Some (Inr cs) \<and> cs = []"
proof -
  let ?f = "\<lparr>cf_samples = replicate 2 \<lparr>cs_distance_mm = 0, cs_reason = cr_covered\<rparr>, cf_covered_count = 2, cf_valid_count = 2\<rparr>"
  have n: "length (cf_samples ?f) = storage_size sample_mm_surface" "storage_size sample_mm_surface \<le> 2 ^ 31"
    by (simp_all add: sample_mm_surface_size)
  have "missing_candidates ?f = []" by (simp add: missing_candidates_def)
  then show ?thesis
    using missing_clusters_correct [OF whole_cloud_in_range id_visits sample_detection_tolerance
        sample_mm_surface_size(1) n] by (auto simp: expected_clusters_def)
qed

end
