(* ===== verification/Icp.thy ===== *)
theory Icp
  imports Kernels Detection
begin

text \<open>
  \<open>backends/pcl/pcl_registration_backend.cpp\<close> in the default build (no CUDA): the rigid-motion
  primitives, the covariance estimate of GICP, the correspondence search and the iterative
  closest-point solver. The k-d tree searches, the Eigen decompositions and products and the
  trigonometric functions are fields of the record \<open>solver_library\<close>. The blocks an executor
  distributes are listed in order; the first error of the lowest block is the one rethrown
  (theory \<open>CpuExecutor\<close>).
\<close>

subsection \<open>Rigid-motion primitives\<close>

definition scale_by :: "f64 \<Rightarrow> Vec3d \<Rightarrow> Vec3d" where
  "scale_by k v = Vec3 (k * vx v) (k * vy v) (k * vz v)"

definition dot_d :: "Vec3d \<Rightarrow> Vec3d \<Rightarrow> f64" where
  "dot_d l r = vx l * vx r + vy l * vy r + vz l * vz r"

definition cross_d :: "Vec3d \<Rightarrow> Vec3d \<Rightarrow> Vec3d" where
  "cross_d l r = Vec3 (vy l * vz r - vz l * vy r) (vz l * vx r - vx l * vz r) (vx l * vy r - vy l * vx r)"

definition norm_d :: "Vec3d \<Rightarrow> f64" where
  "norm_d v = fp_sqrt (dot_d v v)"

definition normalized_d :: "Vec3d \<Rightarrow> Vec3d" where
  "normalized_d v = (let len = norm_d v in if 0 < len then scale_by (lit 1 / len) v else Vec3d_zero)"

definition apply_direction :: "Mat4 \<Rightarrow> Vec3d \<Rightarrow> Vec3d" where
  "apply_direction m d = Vec3
     (m!0 * vx d + m!1 * vy d + m!2 * vz d)
     (m!4 * vx d + m!5 * vy d + m!6 * vz d)
     (m!8 * vx d + m!9 * vy d + m!10 * vz d)"

definition multiply :: "Mat4 \<Rightarrow> Mat4 \<Rightarrow> Mat4" where
  "multiply left right = map (\<lambda>(row, column).
       fold (\<lambda>index total. total + left ! (row * 4 + index) * right ! (index * 4 + column)) [0..<4] (lit 0))
     (List.product [0..<4] [0..<4])"

definition inverse_rigid :: "Mat4 \<Rightarrow> Mat4" where
  "inverse_rigid m =
     [m!0, m!4, m!8, - (m!0 * m!3 + m!4 * m!7 + m!8 * m!11),
      m!1, m!5, m!9, - (m!1 * m!3 + m!5 * m!7 + m!9 * m!11),
      m!2, m!6, m!10, - (m!2 * m!3 + m!6 * m!7 + m!10 * m!11),
      0, 0, 0, 1]"

record solver_library =
  lib_cos :: "f64 \<Rightarrow> f64"
  lib_sin :: "f64 \<Rightarrow> f64"
  lib_acos :: "f64 \<Rightarrow> f64"
  lib_nearest_k :: "Vec3f list \<Rightarrow> Vec3f \<Rightarrow> nat \<Rightarrow> (int \<times> f32) list"
  lib_radius :: point_search
  lib_eigen :: "f64 list \<Rightarrow> (f64 list \<times> f64 list) option"
  lib_product3 :: "f64 list \<Rightarrow> f64 list \<Rightarrow> f64 list"
  lib_inverse3 :: "f64 list \<Rightarrow> f64 list"
  lib_rank :: "f64 list \<Rightarrow> nat"
  lib_solve :: "f64 list \<Rightarrow> f64 list \<Rightarrow> f64 list"

text \<open>The increment of a twist: first order below \<open>1e-12\<close>, the rotation formula above.\<close>

definition delta_from_twist :: "solver_library \<Rightarrow> Vec3d \<Rightarrow> Vec3d \<Rightarrow> Mat4" where
  "delta_from_twist lib r t =
     (let angle = norm_d r in
      if angle < lit (1 / 10 ^ 12)
      then [1, - vz r, vy r, vx t, vz r, 1, - vx r, vy t, - vy r, vx r, 1, vz t, 0, 0, 0, 1]
      else let kx = vx r / angle; ky = vy r / angle; kz = vz r / angle;
               c = lib_cos lib angle; s = lib_sin lib angle; versine = lit 1 - c in
        [c + versine * kx * kx, (- s) * kz + versine * kx * ky, s * ky + versine * kx * kz, vx t,
         s * kz + versine * ky * kx, c + versine * ky * ky, (- s) * kx + versine * ky * kz, vy t,
         (- s) * ky + versine * kz * kx, s * kx + versine * kz * ky, c + versine * kz * kz, vz t,
         0, 0, 0, 1])"

definition orthonormalize :: "Mat4 \<Rightarrow> Mat4" where
  "orthonormalize m =
     (let first = normalized_d (Vec3 (m!0) (m!4) (m!8));
          source = Vec3 (m!1) (m!5) (m!9);
          second = normalized_d (subtract3 source (scale_by (dot_d source first) first));
          third = normalized_d (cross_d first second) in
      [vx first, vx second, vx third, m!3,
       vy first, vy second, vy third, m!7,
       vz first, vz second, vz third, m!11,
       m!12, m!13, m!14, m!15])"

definition backend_error :: "string \<Rightarrow> ErrorCode \<Rightarrow> Error" where
  "backend_error reason code =
     \<lparr>err_code = code, err_stage = stage_registration, err_message = ''registration backend failed'',
      err_context = [(''reason'', reason)]\<rparr>"

subsection \<open>Clouds\<close>

record ValidatedCloud =
  cl_points :: "Vec3d list"
  cl_normals :: "Vec3d list"

definition extract_valid :: "Surface \<Rightarrow> ValidatedCloud" where
  "extract_valid s = \<lparr>cl_points = map (\<lambda>i. widen3 (sv_points s ! i)) (valid_indices s),
     cl_normals = (if sv_normals s = [] then []
       else map (\<lambda>i. normalized_d (widen3 (sv_normals s ! i))) (valid_indices s))\<rparr>"

subsection \<open>GICP covariances\<close>

text \<open>\<open>std::sort\<close> of the neighbours by distance, the index deciding ties.\<close>

fun tie_insert :: "(int \<Rightarrow> f64) \<Rightarrow> int \<Rightarrow> int list \<Rightarrow> int list" where
  "tie_insert distance x [] = [x]"
| "tie_insert distance x (y # ys) =
     (if distance y < distance x \<or> (feq (distance y) (distance x) \<and> y < x)
      then y # tie_insert distance x ys else x # y # ys)"

definition tie_sort :: "(int \<Rightarrow> f64) \<Rightarrow> int list \<Rightarrow> int list" where
  "tie_sort distance xs = foldr (tie_insert distance) xs []"

definition search_radius :: "f32 \<Rightarrow> f64" where
  "search_radius squared_distance =
     fp_sqrt (widen squared_distance) * (lit 1 + lit (1 / 10 ^ 6)) + lit (1 / 10 ^ 6)"

definition transpose3 :: "f64 list \<Rightarrow> f64 list" where
  "transpose3 m = [m!0, m!3, m!6, m!1, m!4, m!7, m!2, m!5, m!8]"

definition sum_d :: "Vec3d \<Rightarrow> Vec3d \<Rightarrow> Vec3d" where
  "sum_d a b = Vec3 (vx a + vx b) (vy a + vy b) (vz a + vz b)"

definition scatter_matrix :: "Vec3d list \<Rightarrow> f64 list" where
  "scatter_matrix ps =
     (let n = of_count (length ps); total = fold (\<lambda>p acc. sum_d acc p) ps Vec3d_zero;
          mean = Vec3 (vx total / n) (vy total / n) (vz total / n) in
      fold (\<lambda>p acc. let d = subtract3 p mean in
          map2 (+) acc [vx d * vx d, vx d * vy d, vx d * vz d,
                        vy d * vx d, vy d * vy d, vy d * vz d,
                        vz d * vx d, vz d * vy d, vz d * vz d]) ps (replicate 9 0))"

text \<open>\<open>V * diag(epsilon, 1, 1) * V\<^sup>T\<close>.\<close>

definition regularized :: "solver_library \<Rightarrow> f64 \<Rightarrow> f64 list \<Rightarrow> f64 list" where
  "regularized lib epsilon v =
     lib_product3 lib (lib_product3 lib v [epsilon, 0, 0, 0, 1, 0, 0, 0, 1]) (transpose3 v)"

definition estimate_covariance ::
  "solver_library \<Rightarrow> RegistrationParameters \<Rightarrow> Vec3d list \<Rightarrow> nat \<Rightarrow> exn + f64 list" where
  "estimate_covariance lib p points point_index =
     (let cloud = map narrow3 points; point = cloud ! point_index; k = unat (rp_covariance_neighbors p);
          found = lib_nearest_k lib cloud point k in
      require (k \<le> length found)
        (exn_invalid_argument ''GICP covariance neighborhood has insufficient support'')
      (let ties = tie_sort (\<lambda>i. let d = subtract3 (points ! nat i) (points ! point_index) in dot_d d d)
             (lib_radius lib cloud point (search_radius (snd (last found)))) in
      require (k \<le> length ties)
        (exn_invalid_argument ''GICP covariance neighborhood has insufficient support'')
      (case lib_eigen lib (scatter_matrix (map (\<lambda>i. points ! nat i) (sort (take k ties)))) of
         None \<Rightarrow> Inl (exn_invalid_argument ''GICP covariance neighborhood is collinear or coincident'')
       | Some (eigenvalues, eigenvectors) \<Rightarrow>
           require (\<not> (\<not> list_all isfinite eigenvalues \<or> eigenvalues ! 1 \<le> lit (1 / 10 ^ 12)))
             (exn_invalid_argument ''GICP covariance neighborhood is collinear or coincident'')
             (Inr (regularized lib (rp_covariance_epsilon p) eigenvectors)))))"

definition estimate_covariances ::
  "solver_library \<Rightarrow> RegistrationParameters \<Rightarrow> ValidatedCloud \<Rightarrow> exn + f64 list list" where
  "estimate_covariances lib p cloud =
     require (unat (rp_covariance_neighbors p) \<le> length (cl_points cloud))
       (exn_invalid_argument ''GICP requires at least covariance_neighbors valid points per cloud'')
     (foldM (\<lambda>result i. rbind (estimate_covariance lib p (cl_points cloud) i) (\<lambda>c. Inr (result @ [c])))
        [0..<length (cl_points cloud)] [])"

subsection \<open>Correspondence search\<close>

definition candidate_distance :: "Vec3f \<Rightarrow> Vec3f \<Rightarrow> f64" where
  "candidate_distance q p =
     (let dx = widen (vx q) - widen (vx p); dy = widen (vy q) - widen (vy p); dz = widen (vz q) - widen (vz p) in
      dx * dx + dy * dy + dz * dz)"

definition better_candidate :: "Vec3f list \<Rightarrow> Vec3f \<Rightarrow> int \<Rightarrow> f64 \<times> int \<Rightarrow> f64 \<times> int" where
  "better_candidate reference q candidate state =
     (let (best, found) = state; d = candidate_distance q (reference ! nat candidate) in
      if d < best \<or> (feq d best \<and> (found < 0 \<or> candidate < found)) then (d, candidate) else (best, found))"

definition query_point :: "solver_library \<Rightarrow> Vec3f list \<Rightarrow> f64 \<Rightarrow> Vec3f \<Rightarrow> int" where
  "query_point lib reference bound q =
     (case lib_nearest_k lib reference q 1 of
        [] \<Rightarrow> - 1
      | (_, squared_distance) # _ \<Rightarrow>
          snd (fold (better_candidate reference q)
            (lib_radius lib reference q (search_radius squared_distance)) (bound * bound, - 1)))"

definition Search_query :: "solver_library \<Rightarrow> Vec3f list \<Rightarrow> Vec3d list \<Rightarrow> f64 \<Rightarrow> exn + int list" where
  "Search_query lib reference transformed bound =
     require (list_all (\<lambda>p. is_finite3 (narrow3 p)) transformed)
       (exn_invalid_argument ''transformed coordinate exceeds search precision range'')
       (Inr (map (\<lambda>p. query_point lib reference bound (narrow3 p)) transformed))"

text \<open>The blocks of a range, each transformed by one call of the kernel.\<close>

definition transform_points :: "bool \<Rightarrow> CpuKernel \<Rightarrow> ValidatedCloud \<Rightarrow> Mat4 \<Rightarrow> Vec3d list" where
  "transform_points can_build k cloud transform =
     (let points = cl_points cloud in
      concat (map (\<lambda>block. let start = block * block_size;
                               count = min block_size (length points - start) in
                transform_kernel can_build k (take count (drop start points)) transform)
        [0..<blocks (length points)]))"

subsection \<open>The solver\<close>

record Accumulation =
  ac_matrix :: "f64 list"
  ac_gradient :: "f64 list"
  ac_residual :: f64
  ac_count :: nat

definition zero_accumulation :: Accumulation where
  "zero_accumulation = \<lparr>ac_matrix = replicate 36 0, ac_gradient = replicate 6 0, ac_residual = 0, ac_count = 0\<rparr>"

definition add_accumulation :: "Accumulation \<Rightarrow> Accumulation \<Rightarrow> Accumulation" where
  "add_accumulation block acc = \<lparr>ac_matrix = map2 (+) (ac_matrix acc) (ac_matrix block),
     ac_gradient = map2 (+) (ac_gradient acc) (ac_gradient block),
     ac_residual = ac_residual acc + ac_residual block, ac_count = ac_count acc + ac_count block\<rparr>"

text \<open>The members of \<open>Prepared\<close> that outlive its construction; the scratch buffers carry nothing over.\<close>

record Prepared =
  pr_can_build_avx2 :: bool
  pr_kernel :: CpuKernel
  pr_parameters :: RegistrationParameters
  pr_reference_cloud :: ValidatedCloud
  pr_reference_covariances :: "f64 list list"

definition checked_reference :: "RegistrationParameters \<Rightarrow> ValidatedCloud \<Rightarrow> exn + unit" where
  "checked_reference p cloud =
     require (cl_points cloud \<noteq> []) (exn_invalid_argument ''registration requires valid reference points'') (
     if rp_method p = point_to_plane
     then require (cl_normals cloud \<noteq> [])
            (exn_invalid_argument ''reference normals are required for point-to-plane ICP'') (
          require (list_all (\<lambda>n. \<not> norm_d n < lit (1 / 2)) (cl_normals cloud))
            (exn_invalid_argument ''point-to-plane requires nonzero reference normals'') (Inr ()))
     else Inr ())"

definition Search_create :: "ComputeBackend \<Rightarrow> exn + unit" where
  "Search_create backend =
     require (backend = backend_cpu) (exn_invalid_argument ''GPU support is not compiled into this binary'') (Inr ())"

text \<open>
  The constructor, member by member in declaration order; \<open>cpu\<close> is what the machine reports, or
  \<open>None\<close> in a build without AVX2.
\<close>

definition Prepared_create ::
  "solver_library \<Rightarrow> cpu_registers option \<Rightarrow> Surface \<Rightarrow> RegistrationParameters \<Rightarrow> nat \<Rightarrow> ComputeBackend \<Rightarrow>
     exn + Prepared" where
  "Prepared_create lib cpu reference p max_scan_points backend =
     rbind (select_cpu_kernel (rp_cpu_kernel p) (avx2_available cpu)) (\<lambda>k.
     rbind (CpuExecutor_create (rp_thread_count p) (max max_scan_points (unat (sv_size reference)))) (\<lambda>_.
     let cloud = extract_valid reference in
     rbind (checked_reference p cloud) (\<lambda>_.
     rbind (Search_create backend) (\<lambda>_.
     rbind (if rp_method p = gicp \<and> backend = backend_cpu then estimate_covariances lib p cloud else Inr [])
       (\<lambda>covariances.
     Inr \<lparr>pr_can_build_avx2 = (cpu \<noteq> None), pr_kernel = k, pr_parameters = p, pr_reference_cloud = cloud,
          pr_reference_covariances = covariances\<rparr>)))))"

definition prepare_registration ::
  "solver_library \<Rightarrow> cpu_registers option \<Rightarrow> Surface \<Rightarrow> RegistrationParameters \<Rightarrow> nat \<Rightarrow> ComputeBackend \<Rightarrow>
     exn + Prepared" where
  "prepare_registration lib cpu reference p max_scan_points backend =
     require (backend = backend_cpu \<or> backend = backend_gpu)
       (exn_invalid_argument ''unsupported registration backend'')
       (Prepared_create lib cpu reference p max_scan_points backend)"

text \<open>The lambda \<open>accepted\<close>: back-facing pairs are rejected when both clouds have normals.\<close>

definition accepted :: "ValidatedCloud \<Rightarrow> ValidatedCloud \<Rightarrow> nat \<Rightarrow> nat \<Rightarrow> Mat4 \<Rightarrow> bool" where
  "accepted reference scan source target pose \<longleftrightarrow>
     \<not> (cl_normals reference \<noteq> [] \<and> cl_normals scan \<noteq> []) \<or>
     0 \<le> dot_d (apply_direction pose (cl_normals scan ! source)) (cl_normals reference ! target)"

definition rotation_block :: "Mat4 \<Rightarrow> f64 list" where
  "rotation_block m = [m!0, m!1, m!2, m!4, m!5, m!6, m!8, m!9, m!10]"

definition objective_input ::
  "solver_library \<Rightarrow> Prepared \<Rightarrow> f64 list list \<Rightarrow> Mat4 \<Rightarrow> Vec3d \<Rightarrow> nat \<Rightarrow> nat \<Rightarrow> ObjectiveInput" where
  "objective_input lib pr scan_covariances current point i j =
     (let p = pr_parameters pr; plane = (rp_method p = point_to_plane); r = rotation_block current in
      \<lparr>oi_point = point, oi_reference = cl_points (pr_reference_cloud pr) ! j,
       oi_normal = (if plane then cl_normals (pr_reference_cloud pr) ! j else Vec3d_zero),
       oi_information = (if rp_method p = gicp
         then lib_inverse3 lib (map2 (+) (pr_reference_covariances pr ! j)
                (lib_product3 lib (lib_product3 lib r (scan_covariances ! i)) (transpose3 r)))
         else [1, 0, 0, 0, 1, 0, 0, 0, 1]),
       oi_huber_delta = rp_huber_delta_mm p, oi_plane = plane, oi_generalized = (rp_method p = gicp)\<rparr>)"

definition objective_choice :: "Prepared \<Rightarrow> ObjectiveInput \<Rightarrow> ObjectiveContribution" where
  "objective_choice pr = objective_kernel (pr_can_build_avx2 pr)
     (if rp_cpu_kernel (pr_parameters pr) = kernel_automatic \<and> rp_method (pr_parameters pr) = point_to_plane
      then kernel_scalar else pr_kernel pr)"

text \<open>One correspondence of an iteration, and the sum over a block and over all blocks.\<close>

definition accumulate_pair ::
  "solver_library \<Rightarrow> Prepared \<Rightarrow> ValidatedCloud \<Rightarrow> f64 list list \<Rightarrow> Mat4 \<Rightarrow> Vec3d list \<Rightarrow> int list \<Rightarrow> nat \<Rightarrow>
     Accumulation \<Rightarrow> Accumulation" where
  "accumulate_pair lib pr scan scan_covariances current transformed neighbors i acc =
     (if neighbors ! i < 0 then acc
      else let j = nat (neighbors ! i) in
        if \<not> accepted (pr_reference_cloud pr) scan i j current then acc
        else let c = objective_choice pr
                       (objective_input lib pr scan_covariances current (transformed ! i) i j) in
          \<lparr>ac_matrix = map2 (+) (ac_matrix acc) (oc_matrix c),
           ac_gradient = map2 (+) (ac_gradient acc) (oc_gradient c),
           ac_residual = ac_residual acc + oc_absolute_residual c, ac_count = ac_count acc + 1\<rparr>)"

definition reduce_blocks :: "(nat \<Rightarrow> Accumulation \<Rightarrow> Accumulation) \<Rightarrow> nat \<Rightarrow> Accumulation" where
  "reduce_blocks f count =
     fold add_accumulation (map (\<lambda>block. fold f (block_range count block) zero_accumulation) [0..<blocks count])
       zero_accumulation"

definition evaluate_iteration ::
  "solver_library \<Rightarrow> Prepared \<Rightarrow> ValidatedCloud \<Rightarrow> f64 list list \<Rightarrow> Mat4 \<Rightarrow> exn + Accumulation" where
  "evaluate_iteration lib pr scan scan_covariances current =
     (let transformed = transform_points (pr_can_build_avx2 pr) (pr_kernel pr) scan current in
      rbind (Search_query lib (map narrow3 (cl_points (pr_reference_cloud pr))) transformed
               (rp_max_correspondence_distance_mm (pr_parameters pr))) (\<lambda>neighbors.
      Inr (reduce_blocks (accumulate_pair lib pr scan scan_covariances current transformed neighbors)
             (length transformed))))"

record IcpState =
  is_current :: Mat4
  is_completed :: nat
  is_converged :: bool
  is_degenerate :: bool
  is_previous_residual :: f64

text \<open>The end of a pass: the solve, the new pose and the step-size test.\<close>

definition icp_update ::
  "solver_library \<Rightarrow> RegistrationParameters \<Rightarrow> Accumulation \<Rightarrow> f64 \<Rightarrow> IcpState \<Rightarrow> bool \<times> IcpState" where
  "icp_update lib p acc mean_residual st =
     (let st = st\<lparr>is_previous_residual := mean_residual\<rparr>;
          twist = lib_solve lib (ac_matrix acc) (ac_gradient acc) in
      if \<not> list_all isfinite twist then (True, st\<lparr>is_degenerate := True\<rparr>)
      else let rotation_delta = Vec3 (twist!0) (twist!1) (twist!2);
               translation_delta = Vec3 (twist!3) (twist!4) (twist!5);
               st = st\<lparr>is_current := multiply (delta_from_twist lib rotation_delta translation_delta) (is_current st),
                       is_completed := is_completed st + 1\<rparr> in
        if norm_d rotation_delta < rp_rotation_epsilon_rad p \<and>
           norm_d translation_delta < rp_translation_epsilon_mm p
        then (True, st\<lparr>is_converged := True\<rparr>)
        else (False, st))"

text \<open>One pass of the loop; the flag says whether it ended with \<open>break\<close>.\<close>

definition icp_decide ::
  "solver_library \<Rightarrow> RegistrationParameters \<Rightarrow> Accumulation \<Rightarrow> nat \<Rightarrow> IcpState \<Rightarrow> bool \<times> IcpState" where
  "icp_decide lib p acc iteration st =
     (let mean_residual = ac_residual acc / of_count (ac_count acc);
          improvement = is_previous_residual st - mean_residual in
      if ac_count acc < 6 then (True, st\<lparr>is_degenerate := True\<rparr>)
      else if rp_method p \<noteq> point_to_plane \<and> lib_rank lib (ac_matrix acc) < 6
      then (True, st\<lparr>is_degenerate := True\<rparr>)
      else if 0 < iteration \<and> isfinite improvement \<and> 0 \<le> improvement \<and> improvement < rp_residual_epsilon_mm p
      then (True, st\<lparr>is_converged := True\<rparr>)
      else icp_update lib p acc mean_residual st)"

definition icp_iteration ::
  "solver_library \<Rightarrow> Prepared \<Rightarrow> ValidatedCloud \<Rightarrow> f64 list list \<Rightarrow> nat \<Rightarrow> IcpState \<Rightarrow> exn + bool \<times> IcpState" where
  "icp_iteration lib pr scan scan_covariances iteration st =
     rbind (evaluate_iteration lib pr scan scan_covariances (is_current st)) (\<lambda>acc.
     Inr (icp_decide lib (pr_parameters pr) acc iteration st))"

text \<open>The loop: \<open>remaining\<close> counts down from the iteration limit.\<close>

fun icp_loop ::
  "solver_library \<Rightarrow> Prepared \<Rightarrow> ValidatedCloud \<Rightarrow> f64 list list \<Rightarrow> nat \<Rightarrow> nat \<Rightarrow> IcpState \<Rightarrow> exn + IcpState" where
  "icp_loop lib pr scan scan_covariances 0 iteration st = Inr st"
| "icp_loop lib pr scan scan_covariances (Suc remaining) iteration st =
     rbind (icp_iteration lib pr scan scan_covariances iteration st) (\<lambda>(stop, st).
     if stop then Inr st else icp_loop lib pr scan scan_covariances remaining (Suc iteration) st)"

text \<open>The evaluation at the final pose: the squared residual and the number of pairs.\<close>

definition measure_pair ::
  "Prepared \<Rightarrow> ValidatedCloud \<Rightarrow> Mat4 \<Rightarrow> Vec3d list \<Rightarrow> int list \<Rightarrow> nat \<Rightarrow> Accumulation \<Rightarrow> Accumulation" where
  "measure_pair pr scan final transformed neighbors i acc =
     (if neighbors ! i < 0 then acc
      else let j = nat (neighbors ! i) in
        if \<not> accepted (pr_reference_cloud pr) scan i j final then acc
        else let d = subtract3 (transformed ! i) (cl_points (pr_reference_cloud pr) ! j);
                 residual = (if rp_method (pr_parameters pr) = point_to_plane
                   then dot_d (cl_normals (pr_reference_cloud pr) ! j) d else norm_d d) in
          acc\<lparr>ac_residual := ac_residual acc + residual * residual, ac_count := ac_count acc + 1\<rparr>)"

definition icp_convergence :: "IcpState \<Rightarrow> RegistrationConvergence" where
  "icp_convergence st = (if is_degenerate st then degenerate_input
     else if is_converged st then converged else not_converged)"

text \<open>The metrics at the final pose, from the sum over the pairs.\<close>

definition metrics_result ::
  "solver_library \<Rightarrow> ValidatedCloud \<Rightarrow> RigidTransform \<Rightarrow> RigidTransform \<Rightarrow> IcpState \<Rightarrow> Accumulation \<Rightarrow>
     RegistrationMetrics Result" where
  "metrics_result lib scan initial validated st acc =
     (let final = rt_matrix validated;
          valid_pairs = ac_count acc;
          fitness = of_count valid_pairs / of_count (length (cl_points scan));
          rmse = (if valid_pairs = 0 then lit 0 else fp_sqrt (ac_residual acc / of_count valid_pairs));
          relative = multiply final (inverse_rigid (rt_matrix initial));
          translation_delta = norm_d (Vec3 (relative!3) (relative!7) (relative!11));
          cosine = std_clamp ((relative!0 + relative!5 + relative!10 - lit 1) / lit 2) (lit (- 1)) (lit 1) in
      RegistrationMetrics_create validated (icp_convergence st) (of_nat (is_completed st))
        (of_nat valid_pairs) fitness rmse translation_delta (lib_acos lib cosine * lit 180 / pi_double))"

definition final_metrics ::
  "solver_library \<Rightarrow> Prepared \<Rightarrow> ValidatedCloud \<Rightarrow> RigidTransform \<Rightarrow> RigidTransform \<Rightarrow> IcpState \<Rightarrow>
     exn + RegistrationMetrics Result" where
  "final_metrics lib pr scan initial validated st =
     (let final = rt_matrix validated;
          transformed = transform_points (pr_can_build_avx2 pr) (pr_kernel pr) scan final in
      rbind (Search_query lib (map narrow3 (cl_points (pr_reference_cloud pr))) transformed
               (rp_max_correspondence_distance_mm (pr_parameters pr))) (\<lambda>neighbors.
      Inr (metrics_result lib scan initial validated st
             (reduce_blocks (measure_pair pr scan final transformed neighbors) (length transformed)))))"

definition icp_start :: "RigidTransform \<Rightarrow> IcpState" where
  "icp_start initial = \<lparr>is_current = rt_matrix initial, is_completed = 0, is_converged = False,
     is_degenerate = False, is_previous_residual = Inf False\<rparr>"

definition align_impl ::
  "solver_library \<Rightarrow> Prepared \<Rightarrow> Surface \<Rightarrow> RigidTransform \<Rightarrow> exn + RegistrationMetrics Result" where
  "align_impl lib pr scan initial =
     (let p = pr_parameters pr; cloud = extract_valid scan in
      require (cl_points cloud \<noteq> []) (exn_invalid_argument ''registration requires valid scan points'') (
      rbind (if rp_method p = gicp then estimate_covariances lib p cloud else Inr []) (\<lambda>scan_covariances.
      rbind (icp_loop lib pr cloud scan_covariances (unat (rp_max_iterations p)) 0 (icp_start initial)) (\<lambda>st.
      case RigidTransform_create (orthonormalize (is_current st)) (rt_source_frame initial)
             (rt_target_frame initial) (lit (1 / 10 ^ 6)) of
        Inl e \<Rightarrow> Inr (Inl e)
      | Inr validated \<Rightarrow> final_metrics lib pr cloud initial validated st))))"

text \<open>The \<open>catch\<close> clauses of \<open>align\<close> and \<open>align_registration\<close>.\<close>

definition caught :: "(exn + 'a Result) \<Rightarrow> 'a Result" where
  "caught r = (case r of Inr v \<Rightarrow> v
     | Inl (exn_invalid_argument reason) \<Rightarrow> Inl (backend_error reason invalid_input)
     | Inl (exn_other reason) \<Rightarrow> Inl (backend_error reason internal_error))"

definition Prepared_align ::
  "solver_library \<Rightarrow> Prepared \<Rightarrow> Surface \<Rightarrow> RigidTransform \<Rightarrow> RegistrationMetrics Result" where
  "Prepared_align lib pr scan initial = caught (align_impl lib pr scan initial)"

definition align_registration ::
  "solver_library \<Rightarrow> cpu_registers option \<Rightarrow> Surface \<Rightarrow> Surface \<Rightarrow> RigidTransform \<Rightarrow> RegistrationParameters \<Rightarrow>
     ComputeBackend \<Rightarrow> RegistrationMetrics Result" where
  "align_registration lib cpu reference scan initial p backend =
     rbind (RegistrationInput_create reference scan initial p) (\<lambda>_.
     caught (rbind (prepare_registration lib cpu reference p (unat (sv_size scan)) backend) (\<lambda>pr.
       Inr (Prepared_align lib pr scan initial))))"

definition align_point_to_plane ::
  "solver_library \<Rightarrow> cpu_registers option \<Rightarrow> Surface \<Rightarrow> Surface \<Rightarrow> RigidTransform \<Rightarrow> RegistrationParameters \<Rightarrow>
     RegistrationMetrics Result" where
  "align_point_to_plane lib cpu reference scan initial p =
     align_registration lib cpu reference scan initial (p\<lparr>rp_method := point_to_plane\<rparr>) backend_cpu"

subsection \<open>A distance is never NaN\<close>

lemma candidate_distance_number:
  assumes "is_finite3 q" "is_finite3 p"
  shows "\<not> is_nan (candidate_distance q p)"
proof -
  let ?dx = "widen (vx q) - widen (vx p)" and ?dy = "widen (vy q) - widen (vy p)"
    and ?dz = "widen (vz q) - widen (vz p)"
  have "\<not> is_nan ?dx" "\<not> is_nan ?dy" "\<not> is_nan ?dz"
    using assms by (simp_all add: is_finite3_def finite_minus_not_nan)
  then have "0 \<le> ?dx * ?dx" "0 \<le> ?dy * ?dy" "0 \<le> ?dz * ?dz" by (simp_all add: fp_square_nonneg)
  then have "0 \<le> candidate_distance q p"
    unfolding candidate_distance_def Let_def by (intro fp_plus_nonneg)
  then show ?thesis using fp_le_not_nan by blast
qed

subsection \<open>The correspondence search\<close>

text \<open>
  \<open>r\<close> is the candidate the search has to return: the nearest one within the bound, the smallest
  index among equally near ones; -1 when there is none.
\<close>

definition best_match :: "Vec3f list \<Rightarrow> Vec3f \<Rightarrow> f64 \<Rightarrow> int set \<Rightarrow> int \<Rightarrow> bool" where
  "best_match reference q squared_bound candidates r \<longleftrightarrow>
     (let d = \<lambda>c. candidate_distance q (reference ! nat c) in
      if r = - 1 then \<forall>c \<in> candidates. squared_bound < d c
      else r \<in> candidates \<and> d r \<le> squared_bound \<and>
        (\<forall>c \<in> candidates. d r < d c \<or> feq (d r) (d c) \<and> r \<le> c))"

lemma feq_sym: "feq x y \<longleftrightarrow> feq y x"
  by (auto simp: feq_def)

lemma feq_iff: "feq x y \<longleftrightarrow> x \<le> y \<and> y \<le> x" for x y :: "'f::len fp"
  by (simp add: feq_def less_eq_fp_def)

lemma feq_trans: "feq x y \<Longrightarrow> feq y z \<Longrightarrow> feq x z" for x y z :: "'f::len fp"
  unfolding feq_iff using fp_le_trans by blast

lemma fp_less_irrefl: "\<not> x < x" for x :: "'f::len fp"
  by (simp add: less_fp_iff)

lemma best_match_unique:
  assumes "best_match reference q b cs r" "best_match reference q b cs r'" "- 1 \<notin> cs"
  shows "r = r'"
proof -
  let ?d = "\<lambda>c. candidate_distance q (reference ! nat c)"
  have none: "x \<notin> cs" if "best_match reference q b cs (- 1)" "?d x \<le> b" for x
    using that fp_less_not_ge by (auto simp: best_match_def)
  consider "r = - 1" "r' = - 1" | "r = - 1" "r' \<noteq> - 1" | "r \<noteq> - 1" "r' = - 1" | "r \<noteq> - 1" "r' \<noteq> - 1" by blast
  then show ?thesis
  proof cases
    case 4
    then have r: "r \<in> cs" "\<forall>c \<in> cs. ?d r < ?d c \<or> feq (?d r) (?d c) \<and> r \<le> c"
      and r': "r' \<in> cs" "\<forall>c \<in> cs. ?d r' < ?d c \<or> feq (?d r') (?d c) \<and> r' \<le> c"
      using assms(1,2) by (auto simp: best_match_def Let_def)
    have "\<not> (?d r < ?d r' \<and> ?d r' \<le> ?d r)" "\<not> (?d r' < ?d r \<and> ?d r \<le> ?d r')"
      using fp_less_not_ge by blast+
    then show ?thesis using r r' unfolding feq_iff by (meson fp_less_imp_le order_antisym)
  next
    case 2
    then have "r' \<in> cs" "?d r' \<le> b" using assms(2) by (simp_all add: best_match_def Let_def)
    then show ?thesis using none [of r'] assms(1) 2 by simp
  next
    case 3
    then have "r \<in> cs" "?d r \<le> b" using assms(1) by (simp_all add: best_match_def Let_def)
    then show ?thesis using none [of r] assms(2) 3 by simp
  qed simp
qed

lemma better_candidate_step:
  assumes inv: "best_match reference q b S (snd st)" "fst st = (if snd st = - 1 then b
      else candidate_distance q (reference ! nat (snd st)))"
    and c: "0 \<le> c" "\<not> is_nan (candidate_distance q (reference ! nat c))" "\<not> is_nan b" "\<forall>s \<in> S. 0 \<le> s"
  shows "best_match reference q b (insert c S) (snd (better_candidate reference q c st)) \<and>
    fst (better_candidate reference q c st) = (if snd (better_candidate reference q c st) = - 1 then b
      else candidate_distance q (reference ! nat (snd (better_candidate reference q c st))))"
proof -
  let ?d = "\<lambda>c. candidate_distance q (reference ! nat c)"
  obtain best found where st: "st = (best, found)" by (cases st)
  show ?thesis
  proof (cases "found = - 1")
    case True
    then have best: "best = b" and none: "\<forall>s \<in> S. b < ?d s" using inv by (auto simp: st best_match_def)
    show ?thesis
    proof (cases "?d c \<le> b")
      case le: True
      have "?d c < b \<or> feq (?d c) b"
        using le fp_not_less [OF c(2,3)] by (auto simp: feq_iff)
      moreover have "\<forall>s \<in> S. ?d c < ?d s" using none le fp_le_less_trans by blast
      moreover have "feq (?d c) (?d c)" using c(2) by (simp add: feq_iff fp_le_refl)
      ultimately show ?thesis
        using True best le c(1) by (auto simp: st better_candidate_def best_match_def Let_def)
    next
      case False
      then have "b < ?d c" using fp_not_less [OF c(3,2)] by blast
      moreover have "\<not> ?d c < b" "\<not> feq (?d c) b" using False fp_less_imp_le by (auto simp: feq_iff)
      ultimately show ?thesis
        using True best none by (auto simp: st better_candidate_def best_match_def Let_def)
    qed
  next
    case False
    then have f: "found \<in> S" "?d found \<le> b" "\<forall>s \<in> S. ?d found < ?d s \<or> feq (?d found) (?d s) \<and> found \<le> s"
      and best: "best = ?d found" using inv by (auto simp: st best_match_def Let_def)
    have pos: "0 \<le> found" using f(1) c(4) by blast
    have nan: "\<not> is_nan (?d found)" using f(2) fp_le_not_nan by blast
    show ?thesis
    proof (cases "?d c < ?d found \<or> feq (?d c) (?d found) \<and> c < found")
      case True
      then have new: "better_candidate reference q c st = (?d c, c)"
        using best False by (auto simp: st better_candidate_def Let_def)
      have le: "?d c \<le> ?d found" using True fp_less_imp_le by (auto simp: feq_iff)
      have "?d c < ?d s \<or> feq (?d c) (?d s) \<and> c \<le> s" if "s \<in> S" for s
      proof -
        from f(3) that consider "?d found < ?d s" | "feq (?d found) (?d s)" "found \<le> s" by blast
        then show ?thesis
        proof cases
          case 1
          then show ?thesis using le fp_le_less_trans by blast
        next
          case 2
          then have "?d found \<le> ?d s" by (simp add: feq_iff)
          then have "?d c < ?d s" if "?d c < ?d found" using fp_less_le_trans [OF that] by blast
          moreover have "feq (?d c) (?d s) \<and> c \<le> s" if "feq (?d c) (?d found)" "c < found"
            using feq_trans [OF that(1) 2(1)] that(2) 2(2) by simp
          ultimately show ?thesis using True by blast
        qed
      qed
      moreover have "feq (?d c) (?d c)" using c(2) by (simp add: feq_iff fp_le_refl)
      ultimately show ?thesis
        using new c(1) fp_le_trans [OF le f(2)] by (auto simp: best_match_def Let_def)
    next
      case keep: False
      then have old: "better_candidate reference q c st = (?d found, found)"
        using best False pos by (auto simp: st better_candidate_def Let_def)
      have "?d found < ?d c \<or> feq (?d found) (?d c) \<and> found \<le> c"
      proof (cases "?d found < ?d c")
        case False
        then have "?d c \<le> ?d found" using fp_not_less [OF nan c(2)] by blast
        moreover have "?d found \<le> ?d c" using keep fp_not_less [OF c(2) nan] by blast
        ultimately show ?thesis using keep by (auto simp: feq_iff)
      qed simp
      then show ?thesis using old False f by (auto simp: best_match_def Let_def)
    qed
  qed
qed

lemma best_candidate_fold:
  assumes "\<forall>c \<in> set cs. 0 \<le> c \<and> \<not> is_nan (candidate_distance q (reference ! nat c))" "\<not> is_nan b"
  shows "best_match reference q b (set cs) (snd (fold (better_candidate reference q) cs (b, - 1)))"
proof -
  have "best_match reference q b (S \<union> set cs) (snd (fold (better_candidate reference q) cs st))"
    if "best_match reference q b S (snd st)"
      "fst st = (if snd st = - 1 then b else candidate_distance q (reference ! nat (snd st)))" "\<forall>s \<in> S. 0 \<le> s"
      "\<forall>c \<in> set cs. 0 \<le> c \<and> \<not> is_nan (candidate_distance q (reference ! nat c))" for S st
    using that
  proof (induction cs arbitrary: S st)
    case (Cons c cs)
    note step = better_candidate_step [OF Cons.prems(1,2) _ _ assms(2) Cons.prems(3), of c]
    have "best_match reference q b (insert c S \<union> set cs)
        (snd (fold (better_candidate reference q) cs (better_candidate reference q c st)))"
      using step Cons.prems(3,4) by (intro Cons.IH) auto
    then show ?case by simp
  qed simp
  from this [of "{}" "(b, - 1)"] show ?thesis using assms(1) by (simp add: best_match_def)
qed

text \<open>
  C9. The correspondence of a query point depends only on the set of candidates the tree reports,
  not on their order or multiplicity: it is the nearest candidate within the bound (the smallest
  index among equally near ones), or -1 when none is within the bound.
\<close>
theorem correspondence_is_best_match:
  assumes "lib_nearest_k lib reference q 1 = (i, sq) # rest" "search_in_range (lib_radius lib)"
    and "is_finite3 q" "list_all is_finite3 reference" "\<not> is_nan (bound * bound)"
  shows "best_match reference q (bound * bound) (set (lib_radius lib reference q (search_radius sq)))
      (query_point lib reference bound q) \<and>
    (\<forall>r. best_match reference q (bound * bound) (set (lib_radius lib reference q (search_radius sq))) r \<longrightarrow>
       r = query_point lib reference bound q)"
proof -
  let ?cs = "lib_radius lib reference q (search_radius sq)"
  have range: "\<forall>c \<in> set ?cs. 0 \<le> c \<and> nat c < length reference"
    using assms(2) by (force simp: search_in_range_def)
  then have "\<forall>c \<in> set ?cs. 0 \<le> c \<and> \<not> is_nan (candidate_distance q (reference ! nat c))"
    using assms(3,4) candidate_distance_number by (auto simp: list_all_length)
  then have best: "best_match reference q (bound * bound) (set ?cs) (query_point lib reference bound q)"
    using best_candidate_fold [OF _ assms(5)] assms(1) by (simp add: query_point_def)
  moreover have "- 1 \<notin> set ?cs" using range by force
  ultimately show ?thesis using best_match_unique by blast
qed

subsection \<open>Blocks\<close>

lemma block_slice:
  "block < blocks (length xs) \<Longrightarrow>
   take (min block_size (length xs - block * block_size)) (drop (block * block_size) xs) =
     map (\<lambda>i. xs ! i) (block_range (length xs) block)"
proof -
  assume "block < blocks (length xs)"
  then have lt: "block * block_size < length xs" by (rule blocks_bound(2))
  have e: "min (length xs) ((block + 1) * block_size) - block * block_size =
      min block_size (length xs - block * block_size)"
    using lt by (auto simp: min_def algebra_simps)
  show ?thesis
    unfolding block_range_def
    by (rule nth_equalityI) (use lt e in \<open>auto simp: algebra_simps\<close>)
qed

text \<open>Transforming block by block with either kernel is transforming point by point.\<close>

lemma transform_points_eq:
  "transform_points can_build k cloud m = map (transform_point m) (cl_points cloud)"
proof -
  let ?ps = "cl_points cloud"
  have tk: "transform_kernel can_build k = transform_scalar"
    by (auto simp: transform_kernel_def fun_eq_iff transform_avx2_eq)
  have "transform_points can_build k cloud m =
      concat (map (\<lambda>block. map (\<lambda>i. transform_point m (?ps ! i)) (block_range (length ?ps) block))
        [0..<blocks (length ?ps)])"
    unfolding transform_points_def tk Let_def transform_scalar_def
    by (intro arg_cong [where f = concat] map_cong refl) (simp add: block_slice comp_def)
  also have "\<dots> = map (\<lambda>i. transform_point m (?ps ! i)) (concat (map (block_range (length ?ps)) [0..<blocks (length ?ps)]))"
    by (simp add: map_concat comp_def)
  also have "\<dots> = map (transform_point m) (map (\<lambda>i. ?ps ! i) [0..<length ?ps])"
    by (simp add: block_ranges_cover comp_def)
  finally show ?thesis by (simp add: map_nth)
qed

lemma reduce_blocks_count:
  assumes "\<And>i acc. ac_count (f i acc) \<le> Suc (ac_count acc)"
  shows "ac_count (reduce_blocks f n) \<le> n"
proof -
  have block: "ac_count (fold f js acc) \<le> ac_count acc + length js" for js acc
  proof (induction js arbitrary: acc)
    case (Cons j js)
    have "ac_count (fold f js (f j acc)) \<le> ac_count (f j acc) + length js" by (rule Cons.IH)
    also have "\<dots> \<le> Suc (ac_count acc) + length js" using assms by simp
    finally show ?case by simp
  qed simp
  have sum: "ac_count (fold add_accumulation as acc) = ac_count acc + sum_list (map ac_count as)" for as acc
    by (induction as arbitrary: acc) (simp_all add: add_accumulation_def)
  have "sum_list (map ac_count (map (\<lambda>b. fold f (block_range n b) zero_accumulation) [0..<blocks n])) \<le>
      sum_list (map (\<lambda>b. length (block_range n b)) [0..<blocks n])"
    unfolding map_map comp_def using block [of _ zero_accumulation]
    by (intro sum_list_mono) (simp add: zero_accumulation_def)
  also have "\<dots> = length (concat (map (block_range n) [0..<blocks n]))" by (simp add: length_concat comp_def)
  also have "\<dots> = n" by (simp add: block_ranges_cover)
  finally show ?thesis unfolding reduce_blocks_def sum by (simp add: zero_accumulation_def)
qed

subsection \<open>Indices stay in range\<close>

lemma query_point_range:
  assumes "search_in_range (lib_radius lib)"
  shows "query_point lib reference bound q = - 1 \<or>
    0 \<le> query_point lib reference bound q \<and> query_point lib reference bound q < int (length reference)"
proof -
  have "snd (fold (better_candidate reference q) cs st) = snd st \<or>
      snd (fold (better_candidate reference q) cs st) \<in> set cs" for cs st
    by (induction cs arbitrary: st) (fastforce simp: better_candidate_def Let_def split: prod.splits if_splits)+
  from this [of _ "(bound * bound, - 1)"] show ?thesis
    using assms unfolding query_point_def search_in_range_def
    by (fastforce split: list.splits prod.splits)
qed

lemma Search_query_range:
  assumes "Search_query lib reference transformed bound = Inr neighbors" "search_in_range (lib_radius lib)"
  shows "length neighbors = length transformed \<and>
    (\<forall>k \<in> set neighbors. k = - 1 \<or> 0 \<le> k \<and> k < int (length reference))"
proof -
  have "neighbors = map (\<lambda>p. query_point lib reference bound (narrow3 p)) transformed"
    using assms(1) by (simp add: Search_query_def require_Inr_iff)
  then show ?thesis using query_point_range [OF assms(2), of reference bound] by auto
qed

lemma estimate_covariances_length:
  assumes "estimate_covariances lib p cloud = Inr cs"
  shows "length cs = length (cl_points cloud)"
proof -
  have "foldM (\<lambda>result i. rbind (f i) (\<lambda>c. Inr (result @ [c]))) js acc = Inr out \<Longrightarrow>
      length out = length acc + length js" for f :: "nat \<Rightarrow> exn + f64 list" and js acc out
    by (induction js arbitrary: acc) (auto simp: rbind_Inr_iff)
  then show ?thesis using assms by (auto simp: estimate_covariances_def require_Inr_iff)
qed

lemma extract_valid_sizes:
  "length (cl_points (extract_valid s)) = length (valid_indices s)"
  "cl_normals (extract_valid s) = [] \<or> length (cl_normals (extract_valid s)) = length (valid_indices s)"
  by (simp_all add: extract_valid_def)

text \<open>
  A prepared solver is safe to index. Its reference is not empty; point-to-plane has one normal
  of length at least a half per reference point, GICP one covariance per reference point; and every
  entry of a correspondence table is -1 or the index of a reference point.
\<close>
theorem solver_indices_in_range:
  assumes "prepare_registration lib cpu reference p n backend = Inr pr" "search_in_range (lib_radius lib)"
    and "Search_query lib (map narrow3 (cl_points (pr_reference_cloud pr))) transformed bound = Inr neighbors"
  shows "backend = backend_cpu \<and> pr_parameters pr = p \<and> cl_points (pr_reference_cloud pr) \<noteq> [] \<and>
    (rp_method p = point_to_plane \<longrightarrow>
       length (cl_normals (pr_reference_cloud pr)) = length (cl_points (pr_reference_cloud pr)) \<and>
       (\<forall>v \<in> set (cl_normals (pr_reference_cloud pr)). \<not> norm_d v < lit (1 / 2))) \<and>
    (rp_method p = gicp \<longrightarrow>
       length (pr_reference_covariances pr) = length (cl_points (pr_reference_cloud pr))) \<and>
    length neighbors = length transformed \<and>
    (\<forall>k \<in> set neighbors. k = - 1 \<or> 0 \<le> k \<and> nat k < length (cl_points (pr_reference_cloud pr)))"
proof -
  obtain k cs where pr: "backend = backend_cpu" "checked_reference p (extract_valid reference) = Inr ()"
    "pr_parameters pr = p" "pr_reference_cloud pr = extract_valid reference" "pr_reference_covariances pr = cs"
    and cs: "rp_method p = gicp \<longrightarrow> estimate_covariances lib p (extract_valid reference) = Inr cs"
    using assms(1) unfolding prepare_registration_def Prepared_create_def Search_create_def require_Inr_iff rbind_Inr_iff Let_def
    by (auto split: if_splits)
  have ne: "cl_points (extract_valid reference) \<noteq> []"
    using pr(2) by (auto simp: checked_reference_def require_Inr_iff split: if_splits)
  have normals: "rp_method p = point_to_plane \<Longrightarrow> cl_normals (extract_valid reference) \<noteq> [] \<and>
      (\<forall>v \<in> set (cl_normals (extract_valid reference)). \<not> norm_d v < lit (1 / 2))"
    using pr(2) by (auto simp: checked_reference_def require_Inr_iff list_all_iff split: if_splits)
  then have same: "rp_method p = point_to_plane \<Longrightarrow>
      length (cl_normals (extract_valid reference)) = length (cl_points (extract_valid reference))"
    using extract_valid_sizes [of reference] by auto
  have "rp_method p = gicp \<Longrightarrow> length cs = length (cl_points (extract_valid reference))"
    using cs estimate_covariances_length by blast
  moreover have "length neighbors = length transformed \<and>
      (\<forall>k \<in> set neighbors. k = - 1 \<or> 0 \<le> k \<and> nat k < length (cl_points (extract_valid reference)))"
    using Search_query_range [OF assms(3,2)] unfolding pr(4) by fastforce
  ultimately show ?thesis using pr ne normals same by simp
qed

subsection \<open>Termination and the reported metrics\<close>

text \<open>How a pass can end: degenerate, converged, or with one more completed iteration.\<close>

lemma icp_update_cases:
  "\<exists>T. icp_update lib p acc r st \<in>
     {(True, st\<lparr>is_previous_residual := r, is_degenerate := True\<rparr>),
      (True, st\<lparr>is_previous_residual := r, is_current := T, is_completed := Suc (is_completed st), is_converged := True\<rparr>),
      (False, st\<lparr>is_previous_residual := r, is_current := T, is_completed := Suc (is_completed st)\<rparr>)}"
  by (rule exI [of _ "multiply (delta_from_twist lib
        (Vec3 (lib_solve lib (ac_matrix acc) (ac_gradient acc) ! 0) (lib_solve lib (ac_matrix acc) (ac_gradient acc) ! 1)
              (lib_solve lib (ac_matrix acc) (ac_gradient acc) ! 2))
        (Vec3 (lib_solve lib (ac_matrix acc) (ac_gradient acc) ! 3) (lib_solve lib (ac_matrix acc) (ac_gradient acc) ! 4)
              (lib_solve lib (ac_matrix acc) (ac_gradient acc) ! 5))) (is_current st)"])
     (simp add: icp_update_def Let_def)

lemma icp_decide_cases:
  "icp_decide lib p acc i st \<in> {(True, st\<lparr>is_degenerate := True\<rparr>), (True, st\<lparr>is_converged := True\<rparr>),
     icp_update lib p acc (ac_residual acc / of_count (ac_count acc)) st}"
  by (simp add: icp_decide_def Let_def)

lemma icp_decide_outcome:
  assumes "icp_decide lib p acc i st = (stop, st')" "\<not> is_converged st" "\<not> is_degenerate st"
  shows "(stop \<longleftrightarrow> is_converged st' \<or> is_degenerate st') \<and> \<not> (is_converged st' \<and> is_degenerate st') \<and>
    is_completed st' \<le> Suc (is_completed st) \<and> (\<not> stop \<longrightarrow> is_completed st' = Suc (is_completed st))"
proof -
  let ?r = "ac_residual acc / of_count (ac_count acc)"
  obtain T where "icp_update lib p acc ?r st \<in>
     {(True, st\<lparr>is_previous_residual := ?r, is_degenerate := True\<rparr>),
      (True, st\<lparr>is_previous_residual := ?r, is_current := T, is_completed := Suc (is_completed st), is_converged := True\<rparr>),
      (False, st\<lparr>is_previous_residual := ?r, is_current := T, is_completed := Suc (is_completed st)\<rparr>)}"
    using icp_update_cases by blast
  then show ?thesis
    using icp_decide_cases [of lib p acc i st] assms(2,3) unfolding assms(1) by auto
qed

lemma icp_iteration_outcome:
  assumes "icp_iteration lib pr scan covs i st = Inr (stop, st')" "\<not> is_converged st" "\<not> is_degenerate st"
  shows "(stop \<longleftrightarrow> is_converged st' \<or> is_degenerate st') \<and> \<not> (is_converged st' \<and> is_degenerate st') \<and>
    is_completed st' \<le> Suc (is_completed st) \<and> (\<not> stop \<longrightarrow> is_completed st' = Suc (is_completed st))"
proof -
  obtain acc where "icp_decide lib (pr_parameters pr) acc i st = (stop, st')"
    using assms(1) by (auto simp: icp_iteration_def rbind_Inr_iff)
  from icp_decide_outcome [OF this assms(2,3)] show ?thesis .
qed

lemma icp_loop_outcome:
  "icp_loop lib pr scan covs remaining i st = Inr st' \<Longrightarrow> \<not> is_converged st \<Longrightarrow> \<not> is_degenerate st \<Longrightarrow>
   is_completed st' \<le> is_completed st + remaining \<and> \<not> (is_converged st' \<and> is_degenerate st') \<and>
   (\<not> is_converged st' \<and> \<not> is_degenerate st' \<longrightarrow> is_completed st' = is_completed st + remaining)"
proof (induction lib pr scan covs remaining i st rule: icp_loop.induct)
  case (2 lib pr scan covs remaining i st)
  from "2.prems"(1) obtain stop s where step: "icp_iteration lib pr scan covs i st = Inr (stop, s)"
    and rest: "(if stop then Inr s else icp_loop lib pr scan covs remaining (Suc i) s) = Inr st'"
    by (auto simp: rbind_Inr_iff)
  note out = icp_iteration_outcome [OF step "2.prems"(2,3)]
  show ?case
  proof (cases stop)
    case True
    then show ?thesis using out rest by auto
  next
    case False
    then have "icp_loop lib pr scan covs remaining (Suc i) s = Inr st'" using rest by simp
    then show ?thesis using "2.IH" [OF False, of s] out False by auto
  qed
qed simp

lemma measure_pair_count: "ac_count (measure_pair pr scan final transformed neighbors i acc) \<le> Suc (ac_count acc)"
  by (simp add: measure_pair_def Let_def)

text \<open>What the contract of the metrics makes of the last state of the loop and the pairs at the final pose.\<close>

lemma metrics_conform:
  assumes "metrics_result lib cloud initial T st acc = Inr m"
    and "RigidTransform_create (orthonormalize (is_current st)) (rt_source_frame initial) (rt_target_frame initial)
       (lit (1 / 10 ^ 6)) = Inr T"
    and "is_completed st \<le> unat (limit :: u32)" "\<not> is_converged st \<and> \<not> is_degenerate st \<longrightarrow> is_completed st = unat limit"
    and "ac_count acc \<le> length (cl_points cloud)" "length (cl_points cloud) < 2 ^ 64"
  shows "unat (rm_iterations m) \<le> unat limit \<and>
    (rm_convergence m = not_converged \<longrightarrow> rm_iterations m = limit) \<and>
    is_valid_convergence (rm_convergence m) \<and>
    rt_source_frame (rm_final_transform m) = rt_source_frame initial \<and>
    rt_target_frame (rm_final_transform m) = rt_target_frame initial \<and>
    list_all isfinite (rt_matrix (rm_final_transform m)) \<and>
    is_rotation_within (lit (1 / 10 ^ 6)) (rt_matrix (rm_final_transform m)) \<and>
    unat (rm_valid_pairs m) = ac_count acc \<and>
    0 \<le> rm_fitness m \<and> rm_fitness m \<le> 1 \<and> finite_nonnegative (rm_inlier_rmse_mm m) \<and>
    finite_nonnegative (rm_translation_delta_mm m) \<and>
    finite_nonnegative (rm_rotation_delta_deg m) \<and> rm_rotation_delta_deg m \<le> lit 180"
proof -
  have "is_completed st < 2 ^ 32" using assms(3) unat_less_u32 [of limit] by simp
  then have iterations: "unat (of_nat (is_completed st) :: u32) = is_completed st" by (simp add: unat_of_nat)
  have pairs: "unat (of_nat (ac_count acc) :: u64) = ac_count acc" using assms(5,6) by (simp add: unat_of_nat)
  from assms(1) have m: "rm_final_transform m = T" "rm_convergence m = icp_convergence st"
    "rm_iterations m = of_nat (is_completed st)" "rm_valid_pairs m = of_nat (ac_count acc)"
    "0 \<le> rm_fitness m" "rm_fitness m \<le> 1" "finite_nonnegative (rm_inlier_rmse_mm m)"
    "finite_nonnegative (rm_translation_delta_mm m)" "finite_nonnegative (rm_rotation_delta_deg m)" "rm_rotation_delta_deg m \<le> lit 180"
    by (auto simp: metrics_result_def Let_def metrics_create_Inr finite_nonnegative_def)
  have conv: "rm_convergence m = not_converged \<longrightarrow> rm_iterations m = limit"
    using assms(4) m(2,3) iterations by (auto simp: icp_convergence_def word_unat_eq_iff split: if_splits)
  have T: "rt_source_frame T = rt_source_frame initial" "rt_target_frame T = rt_target_frame initial"
    "list_all isfinite (rt_matrix T)" "is_rotation_within (lit (1 / 10 ^ 6)) (rt_matrix T)"
    using assms(2) unfolding RigidTransform_create_Inr_iff by auto
  show ?thesis
    using m T conv assms(3) iterations pairs
    by (simp add: icp_convergence_def)
qed

text \<open>The contract of a result for \<open>scan\<close> from the initial pose.\<close>

definition conforming :: "RegistrationParameters \<Rightarrow> Surface \<Rightarrow> RigidTransform \<Rightarrow> RegistrationMetrics \<Rightarrow> bool" where
  "conforming p scan initial m \<longleftrightarrow> unat (rm_iterations m) \<le> unat (rp_max_iterations p) \<and>
    (rm_convergence m = not_converged \<longrightarrow> rm_iterations m = rp_max_iterations p) \<and>
    is_valid_convergence (rm_convergence m) \<and>
    rt_source_frame (rm_final_transform m) = rt_source_frame initial \<and>
    rt_target_frame (rm_final_transform m) = rt_target_frame initial \<and>
    list_all isfinite (rt_matrix (rm_final_transform m)) \<and>
    is_rotation_within (lit (1 / 10 ^ 6)) (rt_matrix (rm_final_transform m)) \<and>
    unat (rm_valid_pairs m) \<le> length (valid_indices scan) \<and>
    0 \<le> rm_fitness m \<and> rm_fitness m \<le> 1 \<and> finite_nonnegative (rm_inlier_rmse_mm m) \<and>
    finite_nonnegative (rm_translation_delta_mm m) \<and>
    finite_nonnegative (rm_rotation_delta_deg m) \<and> rm_rotation_delta_deg m \<le> lit 180"

lemma conforming_metrics:
  assumes "metrics_result lib (extract_valid scan) initial T s acc = Inr m"
    and "RigidTransform_create (orthonormalize (is_current s)) (rt_source_frame initial) (rt_target_frame initial)
       (lit (1 / 10 ^ 6)) = Inr T"
    and "is_completed s \<le> unat (rp_max_iterations p)"
    and "\<not> is_converged s \<and> \<not> is_degenerate s \<longrightarrow> is_completed s = unat (rp_max_iterations p)"
    and "ac_count acc \<le> length (valid_indices scan)" "length (valid_indices scan) < 2 ^ 64"
  shows "conforming p scan initial m"
  using metrics_conform [OF assms(1-4)] assms(5,6) by (simp add: conforming_def extract_valid_sizes(1))

lemma aligned_conforming:
  assumes "Prepared_align lib pr scan initial = Inr m" "length (valid_indices scan) < 2 ^ 64"
  shows "conforming (pr_parameters pr) scan initial m"
proof -
  let ?p = "pr_parameters pr" and ?cloud = "extract_valid scan"
  obtain covs st T where loop: "icp_loop lib pr ?cloud covs (unat (rp_max_iterations ?p)) 0 (icp_start initial) = Inr st"
    and T: "RigidTransform_create (orthonormalize (is_current st)) (rt_source_frame initial) (rt_target_frame initial)
       (lit (1 / 10 ^ 6)) = Inr T"
    and final: "final_metrics lib pr ?cloud initial T st = Inr (Inr m)"
    using assms(1)
    by (auto simp: Prepared_align_def caught_def align_impl_def Let_def require_def rbind_def
        split: sum.splits exn.splits if_splits)
  have out: "is_completed st \<le> unat (rp_max_iterations ?p)"
    "\<not> is_converged st \<and> \<not> is_degenerate st \<longrightarrow> is_completed st = unat (rp_max_iterations ?p)"
    using icp_loop_outcome [OF loop] by (auto simp: icp_start_def)
  obtain neighbors where metrics: "metrics_result lib ?cloud initial T st (reduce_blocks (measure_pair pr ?cloud (rt_matrix T)
      (transform_points (pr_can_build_avx2 pr) (pr_kernel pr) ?cloud (rt_matrix T)) neighbors) (length (cl_points ?cloud))) = Inr m"
    using final unfolding final_metrics_def Let_def rbind_Inr_iff by (auto simp: transform_points_eq)
  note pairs = reduce_blocks_count [of "measure_pair pr ?cloud (rt_matrix T) (transform_points (pr_can_build_avx2 pr)
        (pr_kernel pr) ?cloud (rt_matrix T)) neighbors" "length (cl_points ?cloud)", OF measure_pair_count]
  show ?thesis
    using conforming_metrics [OF metrics T out _ assms(2)] pairs by (simp add: extract_valid_sizes(1))
qed

text \<open>
  C11. A successful alignment is a contract-conforming result: it has run at most the configured
  number of iterations, exactly that many when it reports \<open>not_converged\<close>; its pose keeps the frames
  of the initial pose and is a finite rotation within \<open>1e-6\<close>; it counts no more pairs than the scan
  has valid points; and fitness, residual and movement are finite and in their documented ranges.
\<close>
theorem alignment_metrics_conform:
  assumes "Prepared_align lib pr scan initial = Inr m" "length (valid_indices scan) < 2 ^ 64"
  shows "unat (rm_iterations m) \<le> unat (rp_max_iterations (pr_parameters pr)) \<and>
    (rm_convergence m = not_converged \<longrightarrow> rm_iterations m = rp_max_iterations (pr_parameters pr)) \<and>
    is_valid_convergence (rm_convergence m) \<and>
    rt_source_frame (rm_final_transform m) = rt_source_frame initial \<and>
    rt_target_frame (rm_final_transform m) = rt_target_frame initial \<and>
    list_all isfinite (rt_matrix (rm_final_transform m)) \<and>
    is_rotation_within (lit (1 / 10 ^ 6)) (rt_matrix (rm_final_transform m)) \<and>
    unat (rm_valid_pairs m) \<le> length (valid_indices scan) \<and>
    0 \<le> rm_fitness m \<and> rm_fitness m \<le> 1 \<and> finite_nonnegative (rm_inlier_rmse_mm m) \<and>
    finite_nonnegative (rm_translation_delta_mm m) \<and>
    finite_nonnegative (rm_rotation_delta_deg m) \<and> rm_rotation_delta_deg m \<le> lit 180"
  using aligned_conforming [OF assms] by (simp add: conforming_def)

subsection \<open>A concrete library\<close>

text \<open>A library whose tree reports one fixed candidate, and a trivial linear solver.\<close>

definition sample_library :: "(int \<times> f32) list \<Rightarrow> solver_library" where
  "sample_library hits = \<lparr>lib_cos = (\<lambda>x. 1), lib_sin = (\<lambda>x. 0), lib_acos = (\<lambda>x. 0),
     lib_nearest_k = (\<lambda>cloud q k. hits), lib_radius = (\<lambda>cloud q r. map int [0..<length cloud]),
     lib_eigen = (\<lambda>m. None), lib_product3 = (\<lambda>a b. a), lib_inverse3 = id, lib_rank = (\<lambda>m. 6),
     lib_solve = (\<lambda>m g. replicate 6 0)\<rparr>"

lemma sample_library_range: "search_in_range (lib_radius (sample_library hits))"
  by (auto simp: search_in_range_def sample_library_def)

theorem correspondence_is_best_match_witness:
  "query_point (sample_library [(0, 0)]) [Vec3 1 0 0, Vec3 0 0 0, Vec3 0 0 0] 1 (Vec3 0 0 0) = 1"
proof -
  let ?lib = "sample_library [(0, 0)]" and ?ps = "[Vec3 1 0 0, Vec3 0 0 0, Vec3 0 0 0] :: Vec3f list" and ?q = "Vec3 0 0 0 :: Vec3f"
  have r: "set (lib_radius ?lib ?ps ?q (search_radius 0)) = {0, 1, 2}"
    by (auto simp: sample_library_def upt_rec)
  have near: "lib_nearest_k ?lib ?ps ?q 1 = (0, 0) # []" by (simp add: sample_library_def)
  have fin: "is_finite3 ?q" "list_all is_finite3 ?ps" "\<not> is_nan (1 * 1 :: f64)"
    by (simp_all add: is_finite3_def fp_eval)
  have best: "best_match ?ps ?q (1 * 1) (set (lib_radius ?lib ?ps ?q (search_radius 0))) 1"
    unfolding r by (simp add: best_match_def candidate_distance_def feq_def fp_eval)
  have "best_match ?ps ?q (1 * 1) (set (lib_radius ?lib ?ps ?q (search_radius 0))) 1 \<longrightarrow>
      1 = query_point ?lib ?ps 1 ?q"
    by (rule spec [OF conjunct2 [OF correspondence_is_best_match [OF near sample_library_range fin]]])
  then show ?thesis using best by (metis (no_types))
qed

definition sample_parameters :: RegistrationParameters where
  "sample_parameters = default_parameters\<lparr>rp_max_iterations := 1, rp_max_correspondence_distance_mm := 1,
     rp_huber_delta_mm := 1, rp_translation_epsilon_mm := 1, rp_rotation_epsilon_rad := 1,
     rp_residual_epsilon_mm := 1, rp_method := point_to_point, rp_covariance_epsilon := 1,
     rp_cpu_kernel := kernel_scalar\<rparr>"

definition sample_cloud :: Surface where
  "sample_cloud = \<lparr>sv_points = [Vec3 0 0 0], sv_normals = [], sv_valid = [], sv_grid = None, sv_unit = millimeter,
     sv_frame = ''part'', sv_size = 1\<rparr>"

lemma sample_cloud_points: "valid_indices sample_cloud = [0]"
    "extract_valid sample_cloud = \<lparr>cl_points = [Vec3 0 0 0], cl_normals = []\<rparr>"
proof -
  show v: "valid_indices sample_cloud = [0]" by code_simp
  show "extract_valid sample_cloud = \<lparr>cl_points = [Vec3 0 0 0], cl_normals = []\<rparr>"
    by (simp add: extract_valid_def v) (simp add: sample_cloud_def widen3_def zero_fp_def)
qed

definition sample_prepared :: Prepared where
  "sample_prepared = \<lparr>pr_can_build_avx2 = False, pr_kernel = kernel_scalar, pr_parameters = sample_parameters,
     pr_reference_cloud = \<lparr>cl_points = [Vec3 0 0 0], cl_normals = []\<rparr>, pr_reference_covariances = []\<rparr>"

lemma sample_prepare: "prepare_registration lib None sample_cloud sample_parameters 1 backend_cpu = Inr sample_prepared"
  by (simp add: prepare_registration_def Prepared_create_def Search_create_def checked_reference_def
      sample_cloud_points sample_parameters_def sample_prepared_def default_parameters_def CpuExecutor_create_def)

theorem solver_indices_in_range_witness:
  "\<exists>neighbors. Search_query (sample_library []) (map narrow3 (cl_points (pr_reference_cloud sample_prepared)))
      [Vec3 0 0 0] 1 = Inr neighbors \<and> length neighbors = 1"
proof -
  let ?q = "Search_query (sample_library []) (map narrow3 (cl_points (pr_reference_cloud sample_prepared))) [Vec3 0 0 0] 1"
  have q: "?q = Inr [- 1]"
    by (simp add: Search_query_def sample_prepared_def query_point_def sample_library_def is_finite3_def narrow3_def
        fp_eval)
  have "length [- 1 :: int] = length [Vec3 0 0 (0 :: f64)]"
    using solver_indices_in_range [OF sample_prepare sample_library_range q] by blast
  then show ?thesis using q by simp
qed

lemma sample_orthonormal: "orthonormalize identity_matrix = identity_matrix"
  by (simp add: orthonormalize_def identity_matrix_def Let_def normalized_d_def norm_d_def dot_d_def scale_by_def
      cross_d_def subtract3_def fp_eval)

text \<open>With an empty tree no point has a neighbour, so the solver stops as degenerate at its start.\<close>

lemma sample_no_neighbours:
  "Search_query (sample_library []) (map narrow3 (cl_points (pr_reference_cloud sample_prepared)))
     (transform_points False kernel_scalar \<lparr>cl_points = [Vec3 0 0 0], cl_normals = []\<rparr> identity_matrix) bound = Inr [- 1]"
  by (simp add: transform_points_eq Search_query_def query_point_def sample_library_def is_finite3_def narrow3_def
      transform_point_def identity_matrix_def fp_eval)

lemma sample_transformed_length:
  "length (transform_points False kernel_scalar \<lparr>cl_points = [Vec3 0 0 0], cl_normals = []\<rparr> m) = 1"
  by (simp add: transform_points_eq)

definition sample_metrics_degenerate :: RegistrationMetrics where
  "sample_metrics_degenerate = \<lparr>rm_final_transform = sample_pose, rm_convergence = degenerate_input, rm_iterations = 0,
     rm_valid_pairs = 0, rm_fitness = 0, rm_inlier_rmse_mm = 0, rm_translation_delta_mm = 0,
     rm_rotation_delta_deg = 0\<rparr>"

lemma sample_reduced:
  "reduce_blocks (accumulate_pair lib pr scan covs m ps [- 1]) 1 = zero_accumulation"
  "reduce_blocks (measure_pair pr scan m ps [- 1]) 1 = zero_accumulation"
  by (simp_all add: reduce_blocks_def blocks_def block_size_def block_range_def accumulate_pair_def measure_pair_def
      zero_accumulation_def add_accumulation_def fp_eval upt_rec)

lemma sample_iteration:
  "icp_iteration (sample_library []) sample_prepared \<lparr>cl_points = [Vec3 0 0 0], cl_normals = []\<rparr> [] 0
     (icp_start sample_pose) = Inr (True, (icp_start sample_pose)\<lparr>is_degenerate := True\<rparr>)"
proof -
  have "evaluate_iteration (sample_library []) sample_prepared \<lparr>cl_points = [Vec3 0 0 0], cl_normals = []\<rparr> []
      identity_matrix = Inr zero_accumulation"
    using sample_no_neighbours sample_transformed_length [of identity_matrix] sample_reduced(1)
    by (simp add: evaluate_iteration_def Let_def sample_prepared_def)
  then show ?thesis
    by (simp add: icp_iteration_def icp_start_def sample_pose_def icp_decide_def zero_accumulation_def Let_def)
qed

lemma between_finite: "Num a \<le> x \<Longrightarrow> x \<le> Num b \<Longrightarrow> isfinite x" for x :: f64
  by (cases x) (auto simp: less_eq_fp_def fp_le_def)

lemma between_positive: "0 < a \<Longrightarrow> Num a \<le> x \<Longrightarrow> 0 < x" for x :: f64
  by (cases x) (auto simp: less_eq_fp_def fp_le_def less_fp_def zero_fp_def)

lemma representable_reciprocal: "n \<le> 1000 \<Longrightarrow> representable TYPE(64) (1 / 2 ^ n)"
proof -
  assume n: "n \<le> 1000"
  have q: "(1 / 2 ^ n :: rat) = of_int 1 * 2 powi - int n" by (simp add: power_int_def power_divide)
  have "to_grid TYPE(64) (1 / 2 ^ n) = 1 / 2 ^ n"
    by (rule to_grid_exact [OF q]) (use n in \<open>simp_all add: emin_def emax_def precision_def\<close>)
  moreover have "(1 :: rat) < 2 powi (emax TYPE(64) + 1)"
    using powi2_less_iff [of 0 "emax TYPE(64) + 1"] emax_pos [where 'f = 64] by simp
  moreover have "\<bar>1 / 2 ^ n :: rat\<bar> \<le> 1" by simp
  ultimately show ?thesis unfolding representable_def by linarith
qed

lemma small_literal:
  assumes "1 / 2 ^ k \<le> q" "q \<le> 1" "k \<le> 1000"
  shows "isfinite (lit q :: f64)" "0 < (lit q :: f64)" "(lit q :: f64) \<le> 1"
proof -
  have "(rnd (1 / 2 ^ k) :: f64) \<le> rnd q" "(rnd q :: f64) \<le> rnd 1"
    by (rule rnd_mono, use assms(1,2) in simp)+
  then have bounds: "Num (1 / 2 ^ k) \<le> (lit q :: f64)" "(lit q :: f64) \<le> Num 1"
    unfolding lit_def rnd_representable [OF representable_reciprocal [OF assms(3)]] by (simp_all add: fp_eval)
  show "isfinite (lit q :: f64)" "(lit q :: f64) \<le> 1" using between_finite [OF bounds] bounds(2) by (simp_all add: one_fp_def)
  show "0 < (lit q :: f64)" using between_positive [OF _ bounds(1)] by simp
qed

lemma zero_over_pi: "0 / pi_double = (0 :: f64)"
proof -
  let ?q = "157079632679489661923 / 50000000000000000000 :: rat"
  have "(rnd 3 :: f64) \<le> rnd ?q" "(rnd ?q :: f64) \<le> rnd 4" by (rule rnd_mono, simp)+
  then have "Num 3 \<le> pi_double" "pi_double \<le> Num 4" by (simp_all add: pi_double_def fp_eval)
  moreover have "\<exists>q. x = Num q \<and> 0 < q" if "Num 3 \<le> x" "x \<le> Num 4" for x :: f64
    using that by (cases x) (auto simp: less_eq_fp_def fp_le_def)
  ultimately obtain q where q: "pi_double = Num q" "0 < q" by blast
  show ?thesis unfolding q(1) using q(2) by (simp add: fp_eval)
qed

lemma sample_final_metrics:
  "final_metrics (sample_library []) sample_prepared \<lparr>cl_points = [Vec3 0 0 0], cl_normals = []\<rparr> sample_pose sample_pose
     ((icp_start sample_pose)\<lparr>is_degenerate := True\<rparr>) = Inr (Inr sample_metrics_degenerate)"
proof -
  have rel: "multiply identity_matrix (inverse_rigid identity_matrix) = identity_matrix"
    by (simp add: multiply_def inverse_rigid_def identity_matrix_def upt_rec fp_eval)
  have "RegistrationMetrics_create sample_pose degenerate_input 0 0 0 0 0 0 = Inr sample_metrics_degenerate"
    by (simp add: metrics_create_Inr finite_nonnegative_def sample_metrics_degenerate_def fp_eval)
  moreover have "norm_d (Vec3 0 0 0) = 0" by (simp add: norm_d_def dot_d_def fp_eval)
  moreover have "of_count 0 / of_count 1 = (0 :: f64)" "lit 0 = (0 :: f64)" "0 * lit 180 = (0 :: f64)"
    by (simp_all add: fp_eval)
  ultimately show ?thesis
    using sample_no_neighbours sample_transformed_length [of identity_matrix] sample_reduced(2) rel zero_over_pi
    by (simp add: final_metrics_def metrics_result_def Let_def sample_prepared_def sample_pose_def icp_start_def zero_accumulation_def
        icp_convergence_def identity_matrix_def sample_library_def)
qed

lemma sample_aligned:
  "Prepared_align (sample_library []) sample_prepared sample_cloud sample_pose = Inr sample_metrics_degenerate"
proof -
  have create: "RigidTransform_create identity_matrix ''part'' ''cad'' (lit (1 / 10 ^ 6)) = Inr sample_pose"
    unfolding sample_pose_def by (intro identity_transform_create small_literal [of 20]) simp_all
  then show ?thesis
    using sample_iteration sample_final_metrics create sample_orthonormal
    by (simp add: Prepared_align_def caught_def align_impl_def sample_cloud_points sample_prepared_def
        sample_parameters_def default_parameters_def)
       (simp add: icp_start_def sample_pose_def)
qed

theorem alignment_metrics_conform_witness:
  "\<exists>m. Prepared_align (sample_library []) sample_prepared sample_cloud sample_pose = Inr m \<and>
     unat (rm_iterations m) \<le> 1 \<and> rt_source_frame (rm_final_transform m) = ''part''"
proof -
  have "unat (rm_iterations sample_metrics_degenerate) \<le> 1"
    "rt_source_frame (rm_final_transform sample_metrics_degenerate) = ''part''"
    using sample_aligned alignment_metrics_conform [of "sample_library []" sample_prepared sample_cloud sample_pose]
    by (simp_all add: sample_cloud_points sample_prepared_def sample_parameters_def sample_pose_def)
  then show ?thesis using sample_aligned by blast
qed

end
