(* ===== verification/Engine.thy ===== *)
theory Engine
  imports Icp
begin

text \<open>
  \<open>registration/registration_engine.cpp\<close>: the reusable registration context and the one-shot
  entry point, in the default build (no CUDA). A context is the content of its \<open>impl_\<close> pointer;
  \<open>None\<close> is a context that was moved from.
\<close>

definition context_error :: "string \<Rightarrow> ErrorCode \<Rightarrow> Error" where
  "context_error message code =
     \<lparr>err_code = code, err_stage = stage_registration, err_message = message, err_context = []\<rparr>"

record RegistrationContext_Impl =
  cx_reference :: Surface
  cx_parameters :: RegistrationParameters
  cx_capacity :: nat
  cx_actual_backend :: ComputeBackend
  cx_prepared :: Prepared

type_synonym RegistrationContext = "RegistrationContext_Impl option"

definition registration_backend_available :: "ComputeBackend \<Rightarrow> bool" where
  "registration_backend_available backend \<longleftrightarrow> backend = backend_cpu \<or> backend = backend_automatic"

definition RegistrationContext_Impl_create ::
  "solver_library \<Rightarrow> cpu_registers option \<Rightarrow> Surface \<Rightarrow> RegistrationParameters \<Rightarrow> nat \<Rightarrow> ComputeBackend \<Rightarrow>
     exn + RegistrationContext_Impl" where
  "RegistrationContext_Impl_create lib cpu snapshot options max_scan_points backend =
     rbind (prepare_registration lib cpu snapshot options max_scan_points backend) (\<lambda>prepared.
     Inr \<lparr>cx_reference = snapshot, cx_parameters = options, cx_capacity = max_scan_points,
          cx_actual_backend = backend, cx_prepared = prepared\<rparr>)"

text \<open>The \<open>catch\<close> clauses of \<open>create\<close>.\<close>

definition caught_context :: "(exn + 'a) \<Rightarrow> 'a Result" where
  "caught_context r = (case r of Inr v \<Rightarrow> Inr v
     | Inl (exn_invalid_argument reason) \<Rightarrow> Inl (context_error reason invalid_input)
     | Inl (exn_other reason) \<Rightarrow> Inl (context_error reason internal_error))"

definition RegistrationContext_create ::
  "solver_library \<Rightarrow> cpu_registers option \<Rightarrow> Surface \<Rightarrow> RegistrationParameters \<Rightarrow> nat \<Rightarrow> ComputeBackend \<Rightarrow>
     RegistrationContext Result" where
  "RegistrationContext_create lib cpu reference parameters max_scan_points backend =
     rbind (validate_registration_parameters parameters) (\<lambda>_.
     require (\<not> (sv_unit reference \<noteq> millimeter \<or> max_scan_points = 0 \<or> 2 ^ 31 - 1 < max_scan_points))
       (context_error ''reference must use millimetres; scan capacity must be in [1, INT32_MAX]'' invalid_input) (
     require (registration_backend_available backend)
       (context_error ''requested registration backend is unavailable'' invalid_argument) (
     rbind (Surface_create (sv_points reference) (sv_normals reference) (sv_valid reference) (sv_grid reference)
              (sv_unit reference) (sv_frame reference)) (\<lambda>snapshot.
     let selected = select_backend backend (unat (sv_size reference)) max_scan_points
           (backend = backend_automatic \<and> gpu_size_eligible (unat (sv_size reference)) max_scan_points \<and>
            registration_backend_available backend_gpu) in
     rbind (caught_context (RegistrationContext_Impl_create lib cpu snapshot parameters max_scan_points selected))
       (\<lambda>impl. Inr (Some impl))))))"

definition RegistrationContext_backend :: "RegistrationContext \<Rightarrow> ComputeBackend" where
  "RegistrationContext_backend ctx =
     (case ctx of Some impl \<Rightarrow> cx_actual_backend impl | None \<Rightarrow> backend_automatic)"

definition RegistrationContext_align ::
  "solver_library \<Rightarrow> RegistrationContext \<Rightarrow> Surface \<Rightarrow> RigidTransform \<Rightarrow> RegistrationMetrics Result" where
  "RegistrationContext_align lib ctx scan initial_transform =
     (case ctx of
        None \<Rightarrow> Inl (context_error ''registration context was moved from'' invalid_input)
      | Some impl \<Rightarrow>
          require (\<not> cx_capacity impl < unat (sv_size scan))
            (context_error ''scan exceeds context logical-point capacity'' invalid_input) (
          rbind (RegistrationInput_create (cx_reference impl) scan initial_transform (cx_parameters impl)) (\<lambda>_.
          rbind (Surface_create (sv_points scan) (sv_normals scan) (sv_valid scan) (sv_grid scan) (sv_unit scan)
                   (sv_frame scan)) (\<lambda>_.
          Prepared_align lib (cx_prepared impl) scan initial_transform))))"

definition register_surfaces ::
  "solver_library \<Rightarrow> cpu_registers option \<Rightarrow> Surface \<Rightarrow> Surface \<Rightarrow> RigidTransform \<Rightarrow> RegistrationParameters \<Rightarrow>
     ComputeBackend \<Rightarrow> RegistrationMetrics Result" where
  "register_surfaces lib cpu reference scan initial_transform parameters backend =
     rbind (RegistrationInput_create reference scan initial_transform parameters) (\<lambda>_.
     rbind (RegistrationContext_create lib cpu reference parameters (unat (sv_size scan)) backend) (\<lambda>ctx.
     RegistrationContext_align lib ctx scan initial_transform))"

subsection \<open>What a created context holds\<close>

text \<open>The scan capacity only sizes buffers: the prepared solver does not depend on it.\<close>

lemma prepare_registration_capacity:
  "prepare_registration lib cpu reference p n backend = prepare_registration lib cpu reference p m backend"
proof -
  have "rbind (CpuExecutor_create (rp_thread_count p) a) (\<lambda>_. x) = rbind (CpuExecutor_create (rp_thread_count p) b) (\<lambda>_. x)"
    for a b and x :: "exn + Prepared"
    by (simp add: CpuExecutor_create_def)
  then show ?thesis
    unfolding prepare_registration_def Prepared_create_def Let_def by metis
qed

definition create_guards :: "Surface \<Rightarrow> RegistrationParameters \<Rightarrow> nat \<Rightarrow> ComputeBackend \<Rightarrow> bool" where
  "create_guards reference p capacity backend \<longleftrightarrow> valid_parameters p \<and> sv_unit reference = millimeter \<and>
     1 \<le> capacity \<and> capacity \<le> 2 ^ 31 - 1 \<and> (backend = backend_cpu \<or> backend = backend_automatic)"

lemma select_cpu:
  "registration_backend_available backend \<Longrightarrow>
   select_backend backend n capacity (backend = backend_automatic \<and> gpu_size_eligible n capacity \<and>
     registration_backend_available backend_gpu) = backend_cpu"
  by (auto simp: registration_backend_available_def select_backend_def)

lemma caught_context_Inr [simp]: "caught_context r = Inr v \<longleftrightarrow> r = Inr v"
  by (auto simp: caught_context_def split: sum.splits exn.splits)

lemma RegistrationContext_create_Inr_iff:
  "RegistrationContext_create lib cpu reference p capacity backend = Inr ctx \<longleftrightarrow>
     create_guards reference p capacity backend \<and>
     (\<exists>snapshot prepared. Surface_create (sv_points reference) (sv_normals reference) (sv_valid reference)
          (sv_grid reference) (sv_unit reference) (sv_frame reference) = Inr snapshot \<and>
        prepare_registration lib cpu snapshot p capacity backend_cpu = Inr prepared \<and>
        ctx = Some \<lparr>cx_reference = snapshot, cx_parameters = p, cx_capacity = capacity,
          cx_actual_backend = backend_cpu, cx_prepared = prepared\<rparr>)"
proof -
  have b: "registration_backend_available backend \<longleftrightarrow> backend = backend_cpu \<or> backend = backend_automatic"
    by (simp add: registration_backend_available_def)
  have guard: "\<not> (sv_unit reference \<noteq> millimeter \<or> capacity = 0 \<or> 2 ^ 31 - 1 < capacity) \<longleftrightarrow>
      sv_unit reference = millimeter \<and> 1 \<le> capacity \<and> capacity \<le> 2 ^ 31 - 1" by auto
  show ?thesis
    unfolding RegistrationContext_create_def require_Inr_iff rbind_Inr_iff validate_parameters_iff Let_def
      create_guards_def guard caught_context_Inr RegistrationContext_Impl_create_def
    using select_cpu [of backend] b by auto
qed
lemma RegistrationInput_nonempty:
  "RegistrationInput_create reference scan pose p = Inr input \<Longrightarrow> sv_size scan \<noteq> 0"
  by (auto simp: RegistrationInput_create_def require_Inr_iff)

lemma Surface_create_same:
  assumes "surface_ok s"
  shows "Surface_create (sv_points s) (sv_normals s) (sv_valid s) (sv_grid s) (sv_unit s) (sv_frame s) = Inr s"
proof (subst Surface_create_ok_iff [OF surface_ok_sizes [OF assms]])
  show "surface_data_ok (sv_points s) (sv_normals s) (sv_valid s) (sv_grid s) \<and>
    unat (sv_size s) = length (storage_indices (length (sv_points s)) (sv_grid s)) \<and>
    s = \<lparr>sv_points = sv_points s, sv_normals = sv_normals s, sv_valid = sv_valid s, sv_grid = sv_grid s,
      sv_unit = sv_unit s, sv_frame = sv_frame s, sv_size = sv_size s\<rparr>"
    using assms by (simp add: surface_ok_def logical_indices_def storage_size_def)
qed

text \<open>Two contexts that differ in capacity only behave alike on the scans both admit.\<close>

lemma context_with_capacity:
  assumes "RegistrationContext_create lib cpu reference p capacity backend = Inr ctx" "1 \<le> n" "n \<le> capacity"
  shows "\<exists>ctx'. RegistrationContext_create lib cpu reference p n backend = Inr ctx' \<and>
    RegistrationContext_backend ctx' = RegistrationContext_backend ctx \<and>
    (\<forall>scan pose. unat (sv_size scan) \<le> n \<longrightarrow>
       RegistrationContext_align lib ctx' scan pose = RegistrationContext_align lib ctx scan pose)"
proof -
  obtain snapshot prepared where guards: "create_guards reference p capacity backend"
    and snapshot: "Surface_create (sv_points reference) (sv_normals reference) (sv_valid reference)
      (sv_grid reference) (sv_unit reference) (sv_frame reference) = Inr snapshot"
    and prepared: "prepare_registration lib cpu snapshot p capacity backend_cpu = Inr prepared"
    and ctx: "ctx = Some \<lparr>cx_reference = snapshot, cx_parameters = p, cx_capacity = capacity,
      cx_actual_backend = backend_cpu, cx_prepared = prepared\<rparr>"
    using assms(1) unfolding RegistrationContext_create_Inr_iff by auto
  let ?ctx = "Some \<lparr>cx_reference = snapshot, cx_parameters = p, cx_capacity = n,
      cx_actual_backend = backend_cpu, cx_prepared = prepared\<rparr>"
  have "create_guards reference p n backend" using guards assms(2,3) by (simp add: create_guards_def)
  moreover have "prepare_registration lib cpu snapshot p n backend_cpu = Inr prepared"
    using prepared prepare_registration_capacity by metis
  ultimately have "RegistrationContext_create lib cpu reference p n backend = Inr ?ctx"
    unfolding RegistrationContext_create_Inr_iff using snapshot by auto
  then show ?thesis using assms(3) by (auto simp: ctx RegistrationContext_backend_def RegistrationContext_align_def)
qed

text \<open>
  C22. A reusable context is the one-shot call with the preparation done once: for every scan that
  fits its capacity, aligning against a created context returns exactly what \<open>register_surfaces\<close>
  returns for the same arguments, result or error, whatever capacity the context was created with.
\<close>
theorem context_refines_one_shot:
  assumes "RegistrationContext_create lib cpu reference p capacity backend = Inr ctx" "surface_ok reference"
    and "unat (sv_size scan) \<le> capacity"
  shows "RegistrationContext_align lib ctx scan pose = register_surfaces lib cpu reference scan pose p backend"
proof (cases "RegistrationInput_create reference scan pose p")
  case (Inl e)
  obtain prepared where "ctx = Some \<lparr>cx_reference = reference, cx_parameters = p, cx_capacity = capacity,
      cx_actual_backend = backend_cpu, cx_prepared = prepared\<rparr>"
    using assms(1) unfolding RegistrationContext_create_Inr_iff Surface_create_same [OF assms(2)] by auto
  then show ?thesis using Inl assms(3) by (simp add: register_surfaces_def RegistrationContext_align_def)
next
  case (Inr input)
  then have "1 \<le> unat (sv_size scan)" using RegistrationInput_nonempty [OF Inr] by (simp add: Suc_le_eq unat_gt_0)
  then show ?thesis using context_with_capacity [OF assms(1) _ assms(3)] Inr by (auto simp: register_surfaces_def)
qed

definition sample_reference :: Surface where
  "sample_reference = sample_cloud\<lparr>sv_frame := ''cad''\<rparr>"

lemma sample_reference_ok: "surface_ok sample_reference" "surface_ok sample_cloud"
  by (simp_all add: surface_ok_def surface_data_ok_def sample_reference_def sample_cloud_def grid_matches_def
      storage_indices_def point_ok_def is_finite3_def logical_indices_def storage_size_def)

lemma sample_reference_valid: "extract_valid sample_reference = extract_valid sample_cloud"
proof -
  have "valid_at sample_reference = valid_at sample_cloud"
    by (rule ext) (simp add: valid_at_def sample_reference_def)
  then show ?thesis
    by (simp add: extract_valid_def valid_indices_def logical_indices_def storage_size_def)
       (simp add: sample_reference_def)
qed

lemma sample_valid_parameters: "valid_parameters sample_parameters"
  by (simp add: valid_parameters_def sample_parameters_def default_parameters_def positive_finite_def fp_eval)

lemma sample_context:
  "RegistrationContext_create (sample_library []) None sample_reference sample_parameters 5 backend_automatic =
     Inr (Some \<lparr>cx_reference = sample_reference, cx_parameters = sample_parameters, cx_capacity = 5,
       cx_actual_backend = backend_cpu, cx_prepared = sample_prepared\<rparr>)"
proof -
  have "prepare_registration (sample_library []) None sample_reference sample_parameters 5 backend_cpu =
      prepare_registration (sample_library []) None sample_cloud sample_parameters 1 backend_cpu"
    unfolding prepare_registration_capacity [of "sample_library []" None sample_reference sample_parameters 5 backend_cpu 1]
    by (simp add: prepare_registration_def Prepared_create_def sample_reference_valid)
       (simp add: sample_reference_def)
  then show ?thesis
    unfolding RegistrationContext_create_Inr_iff Surface_create_same [OF sample_reference_ok(1)]
    using sample_prepare sample_valid_parameters
    by (simp add: create_guards_def) (simp add: sample_reference_def sample_cloud_def)
qed

theorem context_refines_one_shot_witness:
  "register_surfaces (sample_library []) None sample_reference sample_cloud sample_pose sample_parameters backend_automatic =
     Inr sample_metrics_degenerate"
proof -
  have "unat (sv_size sample_cloud) \<le> 5" by (simp add: sample_cloud_def)
  note context_refines_one_shot [OF sample_context sample_reference_ok(1) this, of sample_pose]
  moreover have "\<exists>i. RegistrationInput_create sample_reference sample_cloud sample_pose sample_parameters = Inr i"
    by (simp add: RegistrationInput_create_def require_def validate_parameters_iff [THEN iffD2]
        sample_valid_parameters sample_reference_def sample_cloud_def sample_pose_def)
  ultimately show ?thesis
    using sample_aligned Surface_create_same [OF sample_reference_ok(2)]
    by (auto simp: RegistrationContext_align_def require_def sample_cloud_def)
qed

subsection \<open>Nothing is aligned that was not checked\<close>

lemma Prepared_align_frames:
  assumes "Prepared_align lib pr scan pose = Inr m"
  shows "rt_source_frame (rm_final_transform m) = rt_source_frame pose \<and>
    rt_target_frame (rm_final_transform m) = rt_target_frame pose \<and>
    is_rotation_within (lit (1 / 10 ^ 6)) (rt_matrix (rm_final_transform m))"
proof -
  obtain st T where T: "RigidTransform_create (orthonormalize (is_current st)) (rt_source_frame pose)
      (rt_target_frame pose) (lit (1 / 10 ^ 6)) = Inr T"
    and final: "final_metrics lib pr (extract_valid scan) pose T st = Inr (Inr m)"
    using assms
    by (auto simp: Prepared_align_def caught_def align_impl_def Let_def require_def rbind_def
        split: sum.splits exn.splits if_splits)
  have "rm_final_transform m = T"
    using final unfolding final_metrics_def metrics_result_def Let_def rbind_Inr_iff by (auto simp: metrics_create_Inr)
  then show ?thesis using T unfolding RigidTransform_create_Inr_iff by auto
qed

text \<open>
  C21. A registration result is only ever returned for checked input on the requested backend: both
  clouds satisfy the surface contract as they are in memory at the call and are in millimetres, the
  parameters are valid, the initial pose maps scan to reference, no other backend than the CPU was
  asked for, and the returned pose is a rotation from the scan frame to the reference frame.
\<close>
theorem registration_only_of_checked_input:
  assumes "register_surfaces lib cpu reference scan pose p backend = Inr m"
    and "length (sv_points reference) < 2 ^ 64" "length (sv_normals reference) < 2 ^ 64" "length (sv_valid reference) < 2 ^ 64"
    and "length (sv_points scan) < 2 ^ 64" "length (sv_normals scan) < 2 ^ 64" "length (sv_valid scan) < 2 ^ 64"
  shows "surface_data_ok (sv_points reference) (sv_normals reference) (sv_valid reference) (sv_grid reference) \<and>
    surface_data_ok (sv_points scan) (sv_normals scan) (sv_valid scan) (sv_grid scan) \<and>
    sv_unit reference = millimeter \<and> sv_unit scan = millimeter \<and> valid_parameters p \<and>
    unat (sv_size scan) \<le> 2 ^ 31 - 1 \<and> (backend = backend_cpu \<or> backend = backend_automatic) \<and>
    rt_source_frame (rm_final_transform m) = sv_frame scan \<and>
    rt_target_frame (rm_final_transform m) = sv_frame reference \<and>
    is_rotation_within (lit (1 / 10 ^ 6)) (rt_matrix (rm_final_transform m))"
proof -
  obtain input ctx where input: "RegistrationInput_create reference scan pose p = Inr input"
    and ctx: "RegistrationContext_create lib cpu reference p (unat (sv_size scan)) backend = Inr ctx"
    and align: "RegistrationContext_align lib ctx scan pose = Inr m"
    using assms(1) unfolding register_surfaces_def rbind_Inr_iff by blast
  from ctx obtain snapshot impl where guards: "create_guards reference p (unat (sv_size scan)) backend"
    and snapshot: "Surface_create (sv_points reference) (sv_normals reference) (sv_valid reference) (sv_grid reference)
      (sv_unit reference) (sv_frame reference) = Inr snapshot"
    and impl: "ctx = Some impl"
    unfolding RegistrationContext_create_Inr_iff by auto
  from align obtain checked where scan: "Surface_create (sv_points scan) (sv_normals scan) (sv_valid scan) (sv_grid scan)
      (sv_unit scan) (sv_frame scan) = Inr checked"
    and solved: "Prepared_align lib (cx_prepared impl) scan pose = Inr m"
    unfolding RegistrationContext_align_def impl by (auto simp: require_Inr_iff rbind_Inr_iff)
  have "rt_source_frame pose = sv_frame scan" "rt_target_frame pose = sv_frame reference"
    "sv_unit scan = millimeter"
    using input by (auto simp: RegistrationInput_create_def require_Inr_iff)
  moreover have "surface_data_ok (sv_points reference) (sv_normals reference) (sv_valid reference) (sv_grid reference)"
    using snapshot unfolding Surface_create_ok_iff [OF assms(2-4)] by blast
  moreover have "surface_data_ok (sv_points scan) (sv_normals scan) (sv_valid scan) (sv_grid scan)"
    using scan unfolding Surface_create_ok_iff [OF assms(5-7)] by blast
  ultimately show ?thesis
    using guards Prepared_align_frames [OF solved] by (simp add: create_guards_def)
qed

lemma sample_registered:
  "register_surfaces (sample_library []) None sample_reference sample_cloud sample_pose sample_parameters backend_cpu =
     Inr sample_metrics_degenerate"
proof -
  have "RegistrationContext_create (sample_library []) None sample_reference sample_parameters 1 backend_cpu =
      Inr (Some \<lparr>cx_reference = sample_reference, cx_parameters = sample_parameters, cx_capacity = 1,
       cx_actual_backend = backend_cpu, cx_prepared = sample_prepared\<rparr>)"
    using sample_context
      prepare_registration_capacity [of "sample_library []" None sample_reference sample_parameters 1 backend_cpu 5]
    unfolding RegistrationContext_create_Inr_iff Surface_create_same [OF sample_reference_ok(1)]
    by (simp add: create_guards_def)
  then show ?thesis
    using sample_aligned Surface_create_same [OF sample_reference_ok(2)] sample_valid_parameters
    by (simp add: register_surfaces_def RegistrationContext_align_def RegistrationInput_create_def require_def
        validate_parameters_iff [THEN iffD2] sample_reference_def sample_cloud_def sample_pose_def)
qed

theorem registration_only_of_checked_input_witness:
  "rt_source_frame (rm_final_transform sample_metrics_degenerate) = ''part'' \<and>
   is_rotation_within (lit (1 / 10 ^ 6)) (rt_matrix (rm_final_transform sample_metrics_degenerate))"
proof -
  have "length (sv_points sample_reference) = 1" "sv_normals sample_reference = []" "sv_valid sample_reference = []"
    "length (sv_points sample_cloud) = 1" "sv_normals sample_cloud = []" "sv_valid sample_cloud = []"
    "sv_frame sample_cloud = ''part''"
    by (simp_all add: sample_reference_def sample_cloud_def)
  then show ?thesis using registration_only_of_checked_input [OF sample_registered] by simp
qed

end
