(* ===== verification/Region.thy ===== *)
theory Region
  imports Detection
begin

text \<open>
  \<open>detection/defect_region.cpp\<close>: the measured summary of one cluster (position, bounding box,
  deviation statistics, area estimate) and the severity rule.
\<close>

datatype Severity = sev_info | sev_warning | sev_reject

record DetectionRegion =
  dr_id :: u32
  dr_type :: DefectType
  dr_point_count :: nat
  dr_centroid :: Vec3d
  dr_aabb_min :: Vec3d
  dr_aabb_max :: Vec3d
  dr_max_abs_mm :: f64
  dr_mean_mm :: f64
  dr_rms_mm :: f64
  dr_p95_abs_mm :: f64
  dr_estimated_area_mm2 :: "f64 option"
  dr_area_is_approximate :: bool

definition region_error :: "ErrorCode \<Rightarrow> string \<Rightarrow> string \<Rightarrow> Error" where
  "region_error code = field_error code stage_detect ''defect region measurement failed''"

record PointSample =
  ps_position :: Vec3d
  ps_signed_mm :: f64

text \<open>The body of the loop of \<open>collect_samples\<close>; \<open>None\<close> is the null field pointer.\<close>

definition collect_sample ::
  "Surface \<Rightarrow> DeviationField option \<Rightarrow> PointSample list \<Rightarrow> nat \<Rightarrow> PointSample list Result" where
  "collect_sample s field samples index =
     require (\<not> (storage_size s \<le> index \<or> \<not> valid_at s index))
       (region_error invalid_input ''cluster'' ''references an invalid surface index'')
       (Inr (samples @ [\<lparr>ps_position = widen3 (sv_points s ! index),
          ps_signed_mm = (case field of Some f \<Rightarrow> ds_signed_mm (df_samples f ! index) | None \<Rightarrow> 0)\<rparr>]))"

definition collect_samples ::
  "DefectCluster \<Rightarrow> Surface \<Rightarrow> DeviationField option \<Rightarrow> PointSample list Result" where
  "collect_samples cluster s field =
     require (sv_unit s = millimeter)
       (region_error invalid_input ''surface.unit'' ''must be normalized to millimetres'') (
     require (case field of Some f \<Rightarrow> length (df_samples f) = storage_size s | None \<Rightarrow> True)
       (region_error invalid_input ''field'' ''must span the surface storage layout'') (
     foldM (collect_sample s field) (dc_point_indices cluster) []))"

definition add3 :: "Vec3d \<Rightarrow> Vec3d \<Rightarrow> Vec3d" where
  "add3 a b = Vec3 (vx a + vx b) (vy a + vy b) (vz a + vz b)"

definition min3 :: "Vec3d \<Rightarrow> Vec3d \<Rightarrow> Vec3d" where
  "min3 a b = Vec3 (std_min (vx a) (vx b)) (std_min (vy a) (vy b)) (std_min (vz a) (vz b))"

definition max3 :: "Vec3d \<Rightarrow> Vec3d \<Rightarrow> Vec3d" where
  "max3 a b = Vec3 (std_max (vx a) (vx b)) (std_max (vy a) (vy b)) (std_max (vz a) (vz b))"

definition scale3 :: "Vec3d \<Rightarrow> f64 \<Rightarrow> Vec3d" where
  "scale3 a k = Vec3 (vx a * k) (vy a * k) (vz a * k)"

definition infinite3 :: "bool \<Rightarrow> Vec3d" where
  "infinite3 negative = Vec3 (Inf negative) (Inf negative) (Inf negative)"

text \<open>The first loop of \<open>build_region\<close>: centroid sum and bounding box.\<close>

definition measure_box :: "Vec3d list \<Rightarrow> Vec3d \<times> Vec3d \<times> Vec3d" where
  "measure_box positions = fold (\<lambda>p (c, low, high). (add3 c p, min3 low p, max3 high p)) positions
     (Vec3d_zero, infinite3 False, infinite3 True)"

text \<open>The nearest other member of the cluster, and the sum over all members.\<close>

definition distance3 :: "Vec3d \<Rightarrow> Vec3d \<Rightarrow> f64" where
  "distance3 a b = (let dx = vx a - vx b; dy = vy a - vy b; dz = vz a - vz b in
     fp_sqrt (dx * dx + dy * dy + dz * dz))"

definition nearest_other :: "Vec3d list \<Rightarrow> nat \<Rightarrow> f64" where
  "nearest_other positions i =
     fold (\<lambda>j nearest. if i = j then nearest else std_min nearest (distance3 (positions ! i) (positions ! j)))
       [0..<length positions] (Inf False)"

definition estimated_area :: "Vec3d list \<Rightarrow> f64 option" where
  "estimated_area positions =
     (if 2 \<le> length positions
      then let n = of_count (length positions);
               mean_nearest = fold (\<lambda>i total. total + nearest_other positions i) [0..<length positions] (lit 0) / n in
        Some (mean_nearest * mean_nearest * n)
      else None)"

record RegionSums =
  rs_absolute :: "f64 list"
  rs_signed :: f64
  rs_squared :: f64
  rs_maximum :: f64

definition accumulate_sample :: "f64 \<Rightarrow> RegionSums \<Rightarrow> RegionSums" where
  "accumulate_sample x u = \<lparr>rs_absolute = rs_absolute u @ [\<bar>x\<bar>], rs_signed = rs_signed u + x,
     rs_squared = rs_squared u + x * x, rs_maximum = std_max (rs_maximum u) \<bar>x\<bar>\<rparr>"

definition region_statistics :: "f64 list \<Rightarrow> DetectionRegion \<Rightarrow> DetectionRegion" where
  "region_statistics deviations region =
     (let u = fold accumulate_sample deviations
                \<lparr>rs_absolute = [], rs_signed = lit 0, rs_squared = lit 0, rs_maximum = lit 0\<rparr>;
          n = of_count (length deviations) in
      if deviations = [] then region
      else region\<lparr>dr_mean_mm := rs_signed u / n, dr_rms_mm := fp_sqrt (rs_squared u / n),
             dr_max_abs_mm := rs_maximum u,
             dr_p95_abs_mm := fp_sort (rs_absolute u) ! clamped_percentile (length (rs_absolute u))\<rparr>)"

definition build_region :: "DefectCluster \<Rightarrow> PointSample list \<Rightarrow> bool \<Rightarrow> u32 \<Rightarrow> DetectionRegion" where
  "build_region cluster samples has_deviation region_id =
     (let positions = map ps_position samples; (centroid, low, high) = measure_box positions;
          region = \<lparr>dr_id = region_id, dr_type = dc_type cluster, dr_point_count = length samples,
            dr_centroid = (if samples = [] then centroid
              else scale3 centroid (lit 1 / of_count (length samples))),
            dr_aabb_min = low, dr_aabb_max = high,
            dr_max_abs_mm = 0, dr_mean_mm = 0, dr_rms_mm = 0, dr_p95_abs_mm = 0,
            dr_estimated_area_mm2 = None, dr_area_is_approximate = True\<rparr>;
          region = (if has_deviation then region_statistics (map ps_signed_mm samples) region else region) in
      region\<lparr>dr_estimated_area_mm2 := estimated_area positions\<rparr>)"

definition measure_deviation_region ::
  "DefectCluster \<Rightarrow> Surface \<Rightarrow> DeviationField \<Rightarrow> u32 \<Rightarrow> DetectionRegion Result" where
  "measure_deviation_region cluster scan field region_id =
     rbind (collect_samples cluster scan (Some field)) (\<lambda>samples.
       Inr (build_region cluster samples True region_id))"

definition measure_missing_region :: "DefectCluster \<Rightarrow> Surface \<Rightarrow> u32 \<Rightarrow> DetectionRegion Result" where
  "measure_missing_region cluster reference region_id =
     rbind (collect_samples cluster reference None) (\<lambda>samples.
       Inr (build_region cluster samples False region_id))"

record SeverityRule =
  sr_reject_max_abs_mm :: "f64 option"
  sr_warning_max_abs_mm :: "f64 option"

definition apply_severity :: "DetectionRegion \<Rightarrow> SeverityRule \<Rightarrow> Severity" where
  "apply_severity region rule =
     (if (case sr_reject_max_abs_mm rule of Some b \<Rightarrow> b \<le> dr_max_abs_mm region | None \<Rightarrow> False) then sev_reject
      else if (case sr_warning_max_abs_mm rule of Some b \<Rightarrow> b \<le> dr_max_abs_mm region | None \<Rightarrow> False) then sev_warning
      else sev_info)"

instantiation Severity :: linorder
begin

fun severity_rank :: "Severity \<Rightarrow> nat" where
  "severity_rank sev_info = 0"
| "severity_rank sev_warning = 1"
| "severity_rank sev_reject = 2"

definition less_eq_Severity :: "Severity \<Rightarrow> Severity \<Rightarrow> bool" where
  "less_eq_Severity a b \<longleftrightarrow> severity_rank a \<le> severity_rank b"

definition less_Severity :: "Severity \<Rightarrow> Severity \<Rightarrow> bool" where
  "less_Severity a b \<longleftrightarrow> severity_rank a < severity_rank b"

instance
proof
  fix a b c :: Severity
  show "a < b \<longleftrightarrow> a \<le> b \<and> \<not> b \<le> a" by (auto simp: less_eq_Severity_def less_Severity_def)
  show "a \<le> a" by (simp add: less_eq_Severity_def)
  show "a \<le> b \<Longrightarrow> b \<le> c \<Longrightarrow> a \<le> c" by (simp add: less_eq_Severity_def)
  show "a \<le> b \<Longrightarrow> b \<le> a \<Longrightarrow> a = b" by (cases a; cases b) (simp_all add: less_eq_Severity_def)
  show "a \<le> b \<or> b \<le> a" by (auto simp: less_eq_Severity_def)
qed

end

subsection \<open>Running extremes\<close>

lemma std_min_choice: "std_min a b \<in> {a, b}"
  by (simp add: std_min_def)

lemma std_max_choice: "std_max a b \<in> {a, b}"
  by (simp add: std_max_def)

lemma fold_min:
  "\<forall>x \<in> set xs. \<not> is_nan x \<Longrightarrow> \<not> is_nan m \<Longrightarrow>
   fold (\<lambda>x m. std_min m x) xs m \<le> m \<and> (\<forall>x \<in> set xs. fold (\<lambda>x m. std_min m x) xs m \<le> x) \<and>
   fold (\<lambda>x m. std_min m x) xs m \<in> insert m (set xs)"
proof (induction xs arbitrary: m)
  case (Cons x xs)
  let ?n = "std_min m x"
  have x: "\<not> is_nan x" and rest: "\<forall>y \<in> set xs. \<not> is_nan y" using Cons.prems(1) by simp_all
  note le = std_min_le [OF Cons.prems(2) x]
  note IH = Cons.IH [OF rest std_min_not_nan [OF Cons.prems(2) x]]
  have "fold (\<lambda>x m. std_min m x) xs ?n \<in> insert m (set (x # xs))"
    using IH std_min_choice [of m x] by auto
  then show ?case using IH le fp_le_trans [of _ ?n m] fp_le_trans [of _ ?n x] by simp
qed (simp add: fp_le_refl)

lemma fold_max:
  "\<forall>x \<in> set xs. \<not> is_nan x \<Longrightarrow> \<not> is_nan m \<Longrightarrow>
   m \<le> fold (\<lambda>x m. std_max m x) xs m \<and> (\<forall>x \<in> set xs. x \<le> fold (\<lambda>x m. std_max m x) xs m) \<and>
   fold (\<lambda>x m. std_max m x) xs m \<in> insert m (set xs)"
proof (induction xs arbitrary: m)
  case (Cons x xs)
  let ?n = "std_max m x"
  have x: "\<not> is_nan x" and rest: "\<forall>y \<in> set xs. \<not> is_nan y" using Cons.prems(1) by simp_all
  note le = std_max_ge [OF Cons.prems(2) x]
  note IH = Cons.IH [OF rest std_max_not_nan [OF Cons.prems(2) x]]
  have "fold (\<lambda>x m. std_max m x) xs ?n \<in> insert m (set (x # xs))"
    using IH std_max_choice [of m x] by auto
  then show ?case using IH le fp_le_trans [of m ?n] fp_le_trans [of x ?n] by simp
qed (simp add: fp_le_refl)

text \<open>The running extremes of a non-empty list of finite numbers, started at infinity.\<close>

lemma fold_min_finite:
  assumes "\<forall>x \<in> set xs. isfinite x" "xs \<noteq> []"
  shows "(\<forall>x \<in> set xs. fold (\<lambda>x m. std_min m x) xs (Inf False) \<le> x) \<and>
    fold (\<lambda>x m. std_min m x) xs (Inf False) \<in> set xs"
proof -
  let ?m = "fold (\<lambda>x m. std_min m x) xs (Inf False)"
  have f: "(\<forall>x \<in> set xs. ?m \<le> x)" "?m \<in> insert (Inf False) (set xs)"
    using fold_min [of xs "Inf False"] assms(1) finite_not_nan by auto
  obtain x where "x \<in> set xs" using assms(2) by (cases xs) auto
  then have "isfinite x" "?m \<le> x" using assms(1) f(1) by auto
  then have "?m \<noteq> Inf False" by (cases x) (auto simp: fp_eval)
  then show ?thesis using f by auto
qed

lemma fold_max_finite:
  assumes "\<forall>x \<in> set xs. isfinite x" "xs \<noteq> []"
  shows "(\<forall>x \<in> set xs. x \<le> fold (\<lambda>x m. std_max m x) xs (Inf True)) \<and>
    fold (\<lambda>x m. std_max m x) xs (Inf True) \<in> set xs"
proof -
  let ?m = "fold (\<lambda>x m. std_max m x) xs (Inf True)"
  have f: "(\<forall>x \<in> set xs. x \<le> ?m)" "?m \<in> insert (Inf True) (set xs)"
    using fold_max [of xs "Inf True"] assms(1) finite_not_nan by auto
  obtain x where "x \<in> set xs" using assms(2) by (cases xs) auto
  then have "isfinite x" "x \<le> ?m" using assms(1) f(1) by auto
  then have "?m \<noteq> Inf True" by (cases x) (auto simp: fp_eval)
  then show ?thesis using f by auto
qed

subsection \<open>Regions\<close>

lemma measure_box_parts:
  "measure_box ps = (fold (\<lambda>p c. add3 c p) ps Vec3d_zero,
     Vec3 (fold (\<lambda>x m. std_min m x) (map vx ps) (Inf False)) (fold (\<lambda>x m. std_min m x) (map vy ps) (Inf False))
       (fold (\<lambda>x m. std_min m x) (map vz ps) (Inf False)),
     Vec3 (fold (\<lambda>x m. std_max m x) (map vx ps) (Inf True)) (fold (\<lambda>x m. std_max m x) (map vy ps) (Inf True))
       (fold (\<lambda>x m. std_max m x) (map vz ps) (Inf True)))"
proof -
  have "fold (\<lambda>p (c, low, high). (add3 c p, min3 low p, max3 high p)) ps (c, low, high) =
     (fold (\<lambda>p c. add3 c p) ps c,
      Vec3 (fold (\<lambda>x m. std_min m x) (map vx ps) (vx low)) (fold (\<lambda>x m. std_min m x) (map vy ps) (vy low))
        (fold (\<lambda>x m. std_min m x) (map vz ps) (vz low)),
      Vec3 (fold (\<lambda>x m. std_max m x) (map vx ps) (vx high)) (fold (\<lambda>x m. std_max m x) (map vy ps) (vy high))
        (fold (\<lambda>x m. std_max m x) (map vz ps) (vz high)))" for c low high
    by (induction ps arbitrary: c low high) (simp_all add: min3_def max3_def)
  then show ?thesis by (simp add: measure_box_def infinite3_def)
qed

text \<open>A point inside a box, and a box none of whose sides can be moved inwards.\<close>

definition within_box :: "Vec3d \<Rightarrow> Vec3d \<Rightarrow> Vec3d \<Rightarrow> bool" where
  "within_box low high p \<longleftrightarrow> vx low \<le> vx p \<and> vx p \<le> vx high \<and> vy low \<le> vy p \<and> vy p \<le> vy high \<and>
     vz low \<le> vz p \<and> vz p \<le> vz high"

definition tight_box :: "Vec3d \<Rightarrow> Vec3d \<Rightarrow> Vec3d set \<Rightarrow> bool" where
  "tight_box low high ps \<longleftrightarrow> vx low \<in> vx ` ps \<and> vx high \<in> vx ` ps \<and> vy low \<in> vy ` ps \<and> vy high \<in> vy ` ps \<and>
     vz low \<in> vz ` ps \<and> vz high \<in> vz ` ps"

lemma measure_box_correct:
  assumes "\<forall>p \<in> set ps. is_finite3 p" "ps \<noteq> []"
  shows "(\<forall>p \<in> set ps. within_box (fst (snd (measure_box ps))) (snd (snd (measure_box ps))) p) \<and>
    tight_box (fst (snd (measure_box ps))) (snd (snd (measure_box ps))) (set ps)"
proof -
  have f: "\<forall>x \<in> set (map vx ps). isfinite x" "\<forall>x \<in> set (map vy ps). isfinite x" "\<forall>x \<in> set (map vz ps). isfinite x"
    using assms(1) by (auto simp: is_finite3_def)
  have ne: "map vx ps \<noteq> []" "map vy ps \<noteq> []" "map vz ps \<noteq> []" using assms(2) by auto
  show ?thesis
    unfolding measure_box_parts within_box_def tight_box_def
    using fold_min_finite [OF f(1) ne(1)] fold_min_finite [OF f(2) ne(2)] fold_min_finite [OF f(3) ne(3)]
      fold_max_finite [OF f(1) ne(1)] fold_max_finite [OF f(2) ne(2)] fold_max_finite [OF f(3) ne(3)]
    by simp
qed

lemma collect_samples_Inr_iff:
  "collect_samples cluster s field = Inr samples \<longleftrightarrow> sv_unit s = millimeter \<and>
     (\<forall>f. field = Some f \<longrightarrow> length (df_samples f) = storage_size s) \<and>
     (\<forall>i \<in> set (dc_point_indices cluster). i < storage_size s \<and> valid_at s i) \<and>
     samples = map (\<lambda>i. \<lparr>ps_position = widen3 (sv_points s ! i),
       ps_signed_mm = (case field of Some f \<Rightarrow> ds_signed_mm (df_samples f ! i) | None \<Rightarrow> 0)\<rparr>) (dc_point_indices cluster)"
proof -
  have "foldM (collect_sample s field) is acc = Inr samples \<longleftrightarrow>
      (\<forall>i \<in> set is. i < storage_size s \<and> valid_at s i) \<and>
      samples = acc @ map (\<lambda>i. \<lparr>ps_position = widen3 (sv_points s ! i),
         ps_signed_mm = (case field of Some f \<Rightarrow> ds_signed_mm (df_samples f ! i) | None \<Rightarrow> 0)\<rparr>) is" for "is" acc
    by (induction "is" arbitrary: acc) (auto simp: collect_sample_def require_def rbind_def not_le)
  then show ?thesis
    unfolding collect_samples_def require_Inr_iff by (cases field) auto
qed

lemma accumulate_samples:
  "rs_absolute (fold accumulate_sample xs u) = rs_absolute u @ map abs xs"
  "rs_maximum (fold accumulate_sample xs u) = fold (\<lambda>x m. std_max m \<bar>x\<bar>) xs (rs_maximum u)"
  "rs_signed (fold accumulate_sample xs u) = foldl (+) (rs_signed u) xs"
  "rs_squared (fold accumulate_sample xs u) = foldl (+) (rs_squared u) (map (\<lambda>x. x * x) xs)"
  by (induction xs arbitrary: u) (simp_all add: accumulate_sample_def)

text \<open>The four statistics of a non-empty list of deviations.\<close>

definition summarizes :: "f64 list \<Rightarrow> DetectionRegion \<Rightarrow> bool" where
  "summarizes xs r \<longleftrightarrow> dr_max_abs_mm r = fold (\<lambda>x m. std_max m \<bar>x\<bar>) xs (lit 0) \<and>
     dr_p95_abs_mm r = fp_sort (map abs xs) ! clamped_percentile (length (map abs xs)) \<and>
     dr_mean_mm r = mean_of xs \<and> dr_rms_mm r = rms_of xs"

lemma region_statistics_fields: "xs \<noteq> [] \<Longrightarrow> summarizes xs (region_statistics xs region)"
  by (simp add: summarizes_def region_statistics_def Let_def accumulate_samples mean_of_def rms_of_def summed_def)

lemma region_statistics_keeps:
  "dr_id (region_statistics xs region) = dr_id region"
  "dr_type (region_statistics xs region) = dr_type region"
  "dr_point_count (region_statistics xs region) = dr_point_count region"
  "dr_centroid (region_statistics xs region) = dr_centroid region"
  "dr_aabb_min (region_statistics xs region) = dr_aabb_min region"
  "dr_aabb_max (region_statistics xs region) = dr_aabb_max region"
  by (simp_all add: region_statistics_def Let_def)

lemma build_region_box:
  "dr_aabb_min (build_region cluster samples dev k) = fst (snd (measure_box (map ps_position samples)))"
  "dr_aabb_max (build_region cluster samples dev k) = snd (snd (measure_box (map ps_position samples)))"
  "dr_id (build_region cluster samples dev k) = k"
  "dr_type (build_region cluster samples dev k) = dc_type cluster"
  "dr_point_count (build_region cluster samples dev k) = length samples"
  by (simp_all add: build_region_def Let_def region_statistics_keeps split: prod.split)

lemma build_region_statistics:
  "samples \<noteq> [] \<Longrightarrow> summarizes (map ps_signed_mm samples) (build_region cluster samples True k)"
  "dr_max_abs_mm (build_region cluster samples False k) = 0"
  using region_statistics_fields [of "map ps_signed_mm samples"]
  by (simp_all add: build_region_def Let_def summarizes_def split: prod.split)

text \<open>The centroid: the coordinate sums in cluster order, scaled by the reciprocal of the count.\<close>

definition centroid_of :: "Vec3d list \<Rightarrow> Vec3d" where
  "centroid_of ps = scale3 (Vec3 (summed (map vx ps)) (summed (map vy ps)) (summed (map vz ps))) (lit 1 / of_count (length ps))"

lemma build_region_centroid:
  "samples \<noteq> [] \<Longrightarrow> dr_centroid (build_region cluster samples dev k) = centroid_of (map ps_position samples)"
proof -
  have "fold (\<lambda>p c. add3 c p) ps c = Vec3 (foldl (+) (vx c) (map vx ps)) (foldl (+) (vy c) (map vy ps)) (foldl (+) (vz c) (map vz ps))"
    for ps c by (induction ps arbitrary: c) (simp_all add: add3_def)
  then show "samples \<noteq> [] \<Longrightarrow> ?thesis"
    by (simp add: build_region_def Let_def region_statistics_keeps measure_box_parts centroid_of_def summed_def Vec3d_zero_def lit_def zero_fp_def)
qed

text \<open>The distance of a member to the nearest other one, and the area estimate made of it.\<close>

definition least_distance :: "Vec3d list \<Rightarrow> nat \<Rightarrow> f64 \<Rightarrow> bool" where
  "least_distance ps i d \<longleftrightarrow> (\<exists>j < length ps. j \<noteq> i \<and> d = distance3 (ps ! i) (ps ! j)) \<and>
     (\<forall>j < length ps. j \<noteq> i \<longrightarrow> d \<le> distance3 (ps ! i) (ps ! j))"

lemma distance_number:
  assumes "is_finite3 a" "is_finite3 b"
  shows "\<not> is_nan (distance3 a b)"
proof -
  have "\<not> is_nan (vx a - vx b)" "\<not> is_nan (vy a - vy b)" "\<not> is_nan (vz a - vz b)"
    using assms by (simp_all add: is_finite3_def finite_minus_not_nan)
  then have "0 \<le> distance3 a b"
    unfolding distance3_def Let_def by (intro fp_sqrt_nonneg fp_plus_nonneg fp_square_nonneg)
  then show ?thesis using fp_le_not_nan by blast
qed

lemma nearest_other_least:
  assumes "\<forall>p \<in> set ps. is_finite3 p" "i < length ps" "2 \<le> length ps"
  shows "least_distance ps i (nearest_other ps i)"
proof -
  let ?js = "filter (\<lambda>j. j \<noteq> i) [0..<length ps]" and ?d = "\<lambda>j. distance3 (ps ! i) (ps ! j)"
  have "fold (\<lambda>j m. if i = j then m else std_min m (?d j)) js m = fold (\<lambda>x m. std_min m x) (map ?d (filter (\<lambda>j. j \<noteq> i) js)) m" for js m
    by (induction js arbitrary: m) auto
  then have n: "nearest_other ps i = fold (\<lambda>x m. std_min m x) (map ?d ?js) (Inf False)" by (simp add: nearest_other_def)
  have nan: "\<forall>x \<in> set (map ?d ?js). \<not> is_nan x" using assms(1,2) nth_mem distance_number by fastforce
  note least = fold_min [OF nan, of "Inf False", folded n]
  have "(if i = 0 then 1 else 0) \<in> set ?js" using assms(3) by auto
  then obtain j where j: "j \<in> set ?js" by blast
  have "nearest_other ps i \<in> ?d ` set ?js" if "nearest_other ps i = Inf False"
  proof -
    have "Inf False \<le> ?d j" using least j that by auto
    then have "?d j = Inf False" by (cases "?d j") (auto simp: less_eq_fp_iff split: if_splits)
    then show ?thesis using j that by (metis imageI)
  qed
  then show ?thesis using least unfolding least_distance_def by auto
qed

lemma estimated_area_least:
  assumes "\<forall>p \<in> set ps. is_finite3 p" "2 \<le> length ps"
  shows "\<exists>nearest. length nearest = length ps \<and> (\<forall>i < length ps. least_distance ps i (nearest ! i)) \<and>
    estimated_area ps = Some (mean_of nearest * mean_of nearest * of_count (length ps))"
proof -
  have "fold (\<lambda>i total. total + nearest_other ps i) is t = foldl (+) t (map (nearest_other ps) is)" for "is" t
    by (induction "is" arbitrary: t) simp_all
  then have "estimated_area ps = Some (mean_of (map (nearest_other ps) [0..<length ps]) *
      mean_of (map (nearest_other ps) [0..<length ps]) * of_count (length ps))"
    using assms(2) by (simp add: estimated_area_def Let_def mean_of_def summed_def)
  then show ?thesis using nearest_other_least [OF assms(1) _ assms(2)]
    by (intro exI [of _ "map (nearest_other ps) [0..<length ps]"]) simp
qed

lemma build_region_area:
  "dr_estimated_area_mm2 (build_region cluster samples dev k) = estimated_area (map ps_position samples)"
  by (simp add: build_region_def Let_def split: prod.split)

text \<open>The positions of a cluster of valid members are finite.\<close>

lemma cluster_positions_finite:
  assumes "surface_ok s" "i \<in> set (logical_indices s)" "valid_at s i"
  shows "is_finite3 (widen3 (sv_points s ! i))"
  using assms by (simp add: surface_ok_def surface_data_ok_def point_ok_def valid_at_def logical_indices_def storage_size_def
      list_all_iff) blast

text \<open>
  C20. Measuring a cluster succeeds exactly when the surface is in millimetres, the field spans it
  and every member is a valid in-range point. The bounding box then contains every member and is tight,
  and the count is the cluster's size. Of the members' signed deviations, the reported maximum is the
  greatest magnitude, the 95th percentile the magnitude of rank \<open>\<lceil>0.95 n\<rceil>\<close>, the mean and the root mean
  square those of the values in cluster order. The centroid is the scaled sum of the positions, and
  the area estimate \<open>m * m * n\<close> with the mean \<open>m\<close> of each member's distance to its nearest other member,
  given from two members on.
\<close>
theorem region_measurement_correct:
  assumes "dc_point_indices cluster \<noteq> []"
    and "\<forall>i \<in> set (dc_point_indices cluster). is_finite3 (sv_points s ! i) \<and>
       \<not> is_nan (ds_signed_mm (df_samples field ! i))"
  defines "positions \<equiv> map (\<lambda>i. widen3 (sv_points s ! i)) (dc_point_indices cluster)"
    and "deviations \<equiv> map (\<lambda>i. ds_signed_mm (df_samples field ! i)) (dc_point_indices cluster)"
  shows "((\<exists>r. measure_deviation_region cluster s field k = Inr r) \<longleftrightarrow>
      sv_unit s = millimeter \<and> length (df_samples field) = storage_size s \<and>
      (\<forall>i \<in> set (dc_point_indices cluster). i < storage_size s \<and> valid_at s i)) \<and>
    (\<forall>r. measure_deviation_region cluster s field k = Inr r \<longrightarrow>
      dr_id r = k \<and> dr_type r = dc_type cluster \<and> dr_point_count r = length (dc_point_indices cluster) \<and>
      (\<forall>p \<in> set positions. within_box (dr_aabb_min r) (dr_aabb_max r) p) \<and>
      tight_box (dr_aabb_min r) (dr_aabb_max r) (set positions) \<and>
      dr_centroid r = centroid_of positions \<and>
      greatest_of (map abs deviations) (dr_max_abs_mm r) \<and> dr_p95_abs_mm r \<in> set (map abs deviations) \<and>
      (length deviations < 2 ^ 40 \<longrightarrow> nearest_rank (rank_95 (length deviations)) (map abs deviations) (dr_p95_abs_mm r)) \<and>
      dr_mean_mm r = mean_of deviations \<and> dr_rms_mm r = rms_of deviations \<and>
      (length positions = 1 \<longrightarrow> dr_estimated_area_mm2 r = None) \<and>
      (2 \<le> length positions \<longrightarrow> (\<exists>nearest. length nearest = length positions \<and>
         (\<forall>i < length positions. least_distance positions i (nearest ! i)) \<and>
         dr_estimated_area_mm2 r = Some (mean_of nearest * mean_of nearest * of_count (length positions)))))"
proof -
  let ?js = "dc_point_indices cluster"
  let ?samples = "map (\<lambda>i. \<lparr>ps_position = widen3 (sv_points s ! i), ps_signed_mm = ds_signed_mm (df_samples field ! i)\<rparr>) ?js"
  let ?r = "build_region cluster ?samples True k"
  have parts: "map ps_position ?samples = positions" "map ps_signed_mm ?samples = deviations" "length ?samples = length ?js"
    by (simp_all add: positions_def deviations_def)
  have ne: "?samples \<noteq> []" "positions \<noteq> []" "deviations \<noteq> []" using assms(1) by (auto simp: positions_def deviations_def)
  have fin: "\<forall>p \<in> set positions. is_finite3 p" using assms(2) by (auto simp: positions_def)
  have nn: "\<forall>x \<in> set deviations. \<not> is_nan x" using assms(2) by (auto simp: deviations_def)
  note stats = build_region_statistics(1) [OF ne(1), of cluster k, unfolded parts summarizes_def]
  have k: "clamped_percentile (length (map abs deviations)) < length (fp_sort (map abs deviations))"
    using ne(3) clamped_percentile_less [of "length deviations"] by simp
  have "nearest_rank (rank_95 (length deviations)) (map abs deviations) (dr_p95_abs_mm ?r)" if "length deviations < 2 ^ 40"
    using sorted_rank [of "map abs deviations"] nn ne(3) that stats by simp
  moreover have "dr_p95_abs_mm ?r \<in> set (map abs deviations)" using stats nth_mem [OF k] by simp
  moreover have "greatest_of (map abs deviations) (dr_max_abs_mm ?r)" using greatest_magnitude [OF nn ne(3)] stats by simp
  moreover note measure_box_correct [OF fin ne(2)] estimated_area_least [OF fin]
  moreover have "length positions = 1 \<longrightarrow> estimated_area positions = None" by (simp add: estimated_area_def)
  ultimately have "within_region ?r" if "\<And>r. within_region r \<longleftrightarrow>
      (\<forall>p \<in> set positions. within_box (dr_aabb_min r) (dr_aabb_max r) p) \<and>
      tight_box (dr_aabb_min r) (dr_aabb_max r) (set positions) \<and> dr_centroid r = centroid_of positions \<and>
      greatest_of (map abs deviations) (dr_max_abs_mm r) \<and> dr_p95_abs_mm r \<in> set (map abs deviations) \<and>
      (length deviations < 2 ^ 40 \<longrightarrow> nearest_rank (rank_95 (length deviations)) (map abs deviations) (dr_p95_abs_mm r)) \<and>
      dr_mean_mm r = mean_of deviations \<and> dr_rms_mm r = rms_of deviations \<and>
      (length positions = 1 \<longrightarrow> dr_estimated_area_mm2 r = None) \<and>
      (2 \<le> length positions \<longrightarrow> (\<exists>nearest. length nearest = length positions \<and>
         (\<forall>i < length positions. least_distance positions i (nearest ! i)) \<and>
         dr_estimated_area_mm2 r = Some (mean_of nearest * mean_of nearest * of_count (length positions))))" for within_region
    using stats unfolding that build_region_box build_region_area build_region_centroid [OF ne(1)] parts by blast
  note measured = this [OF refl]
  have result: "measure_deviation_region cluster s field k = Inr r \<longleftrightarrow> sv_unit s = millimeter \<and>
      length (df_samples field) = storage_size s \<and> (\<forall>i \<in> set ?js. i < storage_size s \<and> valid_at s i) \<and> r = ?r" for r
    unfolding measure_deviation_region_def rbind_Inr_iff collect_samples_Inr_iff by auto
  show ?thesis using measured unfolding result by (simp add: build_region_box)
qed

text \<open>
  The severity never decreases when the maximum deviation grows, and a region is rejected
  exactly when a reject bound is configured and reached.
\<close>
theorem severity_monotone:
  assumes "dr_max_abs_mm a \<le> dr_max_abs_mm b"
  shows "apply_severity a rule \<le> apply_severity b rule \<and>
    (apply_severity a rule = sev_reject \<longleftrightarrow> (\<exists>t. sr_reject_max_abs_mm rule = Some t \<and> t \<le> dr_max_abs_mm a))"
proof -
  have trans: "t \<le> dr_max_abs_mm a \<Longrightarrow> t \<le> dr_max_abs_mm b" for t using assms fp_le_trans by blast
  show ?thesis
    by (auto simp: apply_severity_def less_eq_Severity_def trans split: option.split if_splits)
qed

definition sample_bump_cluster :: DefectCluster where
  "sample_bump_cluster = \<lparr>dc_type = bump, dc_point_indices = [1]\<rparr>"

theorem region_measurement_correct_witness:
  "\<exists>r. measure_deviation_region sample_bump_cluster sample_mm_surface sample_bump_field 7 = Inr r \<and> dr_id r = 7 \<and>
     dr_point_count r = 1 \<and> dr_max_abs_mm r = Num 2"
proof -
  have ne: "dc_point_indices sample_bump_cluster \<noteq> []" by (simp add: sample_bump_cluster_def)
  have fin: "\<forall>i \<in> set (dc_point_indices sample_bump_cluster). is_finite3 (sv_points sample_mm_surface ! i) \<and>
       \<not> is_nan (ds_signed_mm (df_samples sample_bump_field ! i))"
    by code_simp
  have "\<forall>i \<in> set (dc_point_indices sample_bump_cluster). i < storage_size sample_mm_surface \<and> valid_at sample_mm_surface i"
    by code_simp
  moreover have "length (df_samples sample_bump_field) = storage_size sample_mm_surface"
    by (simp add: sample_mm_surface_size sample_bump_field_def)
  ultimately obtain r where r: "measure_deviation_region sample_bump_cluster sample_mm_surface sample_bump_field 7 = Inr r"
    using region_measurement_correct [OF ne fin, of 7] sample_mm_surface_size(1) by blast
  have "\<bar>ds_signed_mm (df_samples sample_bump_field ! 1)\<bar> = Num 2"
    by (simp add: sample_bump_field_def fp_eval)
  then have "dr_max_abs_mm r = Num 2"
    using region_measurement_correct [OF ne fin, of 7] r by (simp add: sample_bump_cluster_def greatest_of_def)
  then show ?thesis
    using region_measurement_correct [OF ne fin, of 7] r by (simp add: sample_bump_cluster_def)
qed

theorem severity_monotone_witness:
  "let small = build_region sample_bump_cluster [] False 0; large = small\<lparr>dr_max_abs_mm := Num 3\<rparr>;
       rule = \<lparr>sr_reject_max_abs_mm = Some (Num 2), sr_warning_max_abs_mm = None\<rparr> in
   apply_severity small rule \<le> apply_severity large rule"
  unfolding Let_def
  by (rule severity_monotone [THEN conjunct1]) (simp add: build_region_statistics fp_eval)

end
