(* ===== verification/Pipeline.thy ===== *)
theory Pipeline
  imports Engine Region
begin

text \<open>
  \<open>pipeline/inspection_pipeline.cpp\<close> and the records of \<open>inspection_result.hpp\<close>: the stages of
  \<open>run_impl\<close> in order, each as a function from the report built so far, and the two entry points
  that share it. What the stages take from the machine and from third-party code (searches, the
  plane fit, the solver library, trigonometry, clocks) is the record \<open>environment\<close>. The stages that
  reach the recursive \<open>find\<close> of the clustering return an option, \<open>None\<close> for a run that never ends.
\<close>

subsection \<open>inspection_result.hpp\<close>

datatype Verdict = verdict_pass | verdict_fail | verdict_indeterminate
datatype ReportDefectType = report_dent | report_bump | report_missing_material

record RegistrationResult =
  rr_initial_pose :: "RigidTransform option"
  rr_final_pose :: "RigidTransform option"
  rr_iterations :: u32
  rr_converged :: bool
  rr_valid_pairs :: u64
  rr_overlap_ratio :: f64
  rr_inlier_rmse_mm :: f64
  rr_termination_reason :: string
  rr_method :: RegistrationMethod
  rr_requested_backend :: ComputeBackend
  rr_actual_backend :: ComputeBackend

record ReportCoverage =
  rc_valid_count :: nat
  rc_covered_count :: nat
  rc_coverage_ratio :: f64
  rc_input_invalid :: nat
  rc_no_neighbor :: nat
  rc_scan_boundary :: nat

record ReportDeviations =
  rd_valid_count :: nat
  rd_mean_signed_mm :: f64
  rd_rms_mm :: f64
  rd_max_abs_mm :: f64
  rd_p95_abs_mm :: f64
  rd_input_invalid :: nat
  rd_no_neighbor :: nat
  rd_normal_missing :: nat
  rd_normal_mismatch :: nat
  rd_reference_boundary :: nat

record ReportRegion =
  rg_id :: u32
  rg_type :: ReportDefectType
  rg_point_count :: nat
  rg_centroid :: Vec3d
  rg_aabb_min :: Vec3d
  rg_aabb_max :: Vec3d
  rg_max_abs_mm :: f64
  rg_mean_mm :: f64
  rg_rms_mm :: f64
  rg_p95_abs_mm :: f64
  rg_estimated_area_mm2 :: "f64 option"
  rg_area_is_approximate :: bool
  rg_severity :: Severity

record StageTiming =
  ti_stage :: PipelineStage
  ti_duration_us :: u64

record Provenance =
  pv_schema_version :: string
  pv_run_id :: string
  pv_profile :: string
  pv_generator_version :: string
  pv_timestamp_utc :: string
  pv_deterministic :: bool
  pv_thread_count :: u32
  pv_random_seed :: u64

record Diagnostic =
  dg_code :: ErrorCode
  dg_stage :: PipelineStage
  dg_message :: string
  dg_context :: "(string \<times> string) list"

record InspectionResult =
  ir_verdict :: Verdict
  ir_registration :: RegistrationResult
  ir_coverage :: ReportCoverage
  ir_deviations :: ReportDeviations
  ir_regions :: "ReportRegion list"
  ir_timings :: "StageTiming list"
  ir_provenance :: Provenance
  ir_diagnostics :: "Diagnostic list"

text \<open>The default member initializers.\<close>

definition default_registration :: RegistrationResult where
  "default_registration = \<lparr>rr_initial_pose = None, rr_final_pose = None, rr_iterations = 0, rr_converged = False,
     rr_valid_pairs = 0, rr_overlap_ratio = 0, rr_inlier_rmse_mm = 0, rr_termination_reason = [],
     rr_method = point_to_plane, rr_requested_backend = backend_cpu, rr_actual_backend = backend_cpu\<rparr>"

definition default_coverage :: ReportCoverage where
  "default_coverage = \<lparr>rc_valid_count = 0, rc_covered_count = 0, rc_coverage_ratio = 0, rc_input_invalid = 0,
     rc_no_neighbor = 0, rc_scan_boundary = 0\<rparr>"

definition default_deviations :: ReportDeviations where
  "default_deviations = \<lparr>rd_valid_count = 0, rd_mean_signed_mm = 0, rd_rms_mm = 0, rd_max_abs_mm = 0,
     rd_p95_abs_mm = 0, rd_input_invalid = 0, rd_no_neighbor = 0, rd_normal_missing = 0, rd_normal_mismatch = 0,
     rd_reference_boundary = 0\<rparr>"

record InspectionRequest =
  rq_initial_pose :: "RigidTransform option"
  rq_run_id :: string

subsection \<open>The helpers of the pipeline\<close>

record environment =
  en_library :: solver_library
  en_cpu :: "cpu_registers option"
  en_radius :: radius_search
  en_fit :: plane_fit
  en_atan2 :: arctan2
  en_trig :: trigonometry
  en_nearest :: nearest_search
  en_cluster_search :: point_search
  en_bucket_order :: bucket_order
  en_version :: string
  en_timestamp :: string
  en_elapsed :: "PipelineStage \<Rightarrow> u64"

definition pipeline_error :: "ErrorCode \<Rightarrow> string \<Rightarrow> Error" where
  "pipeline_error code message =
     \<lparr>err_code = code, err_stage = stage_none, err_message = message, err_context = []\<rparr>"

text \<open>What \<open>~StageClock\<close> appends when its block is left.\<close>

definition record_stage :: "environment \<Rightarrow> PipelineStage \<Rightarrow> InspectionResult \<Rightarrow> InspectionResult" where
  "record_stage env stage r =
     r\<lparr>ir_timings := ir_timings r @ [\<lparr>ti_stage = stage, ti_duration_us = en_elapsed env stage\<rparr>]\<rparr>"

definition to_registration_parameters :: "ValidatedRegistrationConfig \<Rightarrow> u32 \<Rightarrow> RegistrationParameters" where
  "to_registration_parameters config threads = default_parameters\<lparr>rp_max_iterations := vrc_max_iterations config,
     rp_max_correspondence_distance_mm := vrc_max_correspondence_distance_mm config,
     rp_huber_delta_mm := vrc_huber_delta_mm config,
     rp_translation_epsilon_mm := vrc_translation_epsilon_mm config,
     rp_rotation_epsilon_rad := vrc_rotation_epsilon_rad config,
     rp_residual_epsilon_mm := vrc_residual_epsilon_mm config,
     rp_method := vrc_method config, rp_thread_count := threads\<rparr>"

fun termination_reason :: "RegistrationConvergence \<Rightarrow> string" where
  "termination_reason converged = ''converged''"
| "termination_reason not_converged = ''not_converged''"
| "termination_reason degenerate_input = ''degenerate_input''"
| "termination_reason (unnamed_convergence _) = ''unknown''"

definition default_severity :: "ReportDefectType \<Rightarrow> f64 \<Rightarrow> ValidatedDetectionConfig \<Rightarrow> Severity" where
  "default_severity ty max_abs_mm config =
     (if ty = report_missing_material then sev_reject
      else let threshold = std_max (vdc_positive_threshold_mm config) (- vdc_negative_threshold_mm config) in
        if lit 2 * threshold \<le> max_abs_mm then sev_reject else sev_warning)"

fun to_public_type :: "DefectType \<Rightarrow> ReportDefectType" where
  "to_public_type dent = report_dent"
| "to_public_type bump = report_bump"
| "to_public_type missing_material = report_missing_material"

definition initial_result :: "environment \<Rightarrow> ValidatedInspectionConfig \<Rightarrow> InspectionRequest \<Rightarrow> InspectionResult" where
  "initial_result env config request =
     \<lparr>ir_verdict = verdict_indeterminate, ir_registration = default_registration, ir_coverage = default_coverage,
      ir_deviations = default_deviations, ir_regions = [], ir_timings = [],
      ir_provenance = \<lparr>pv_schema_version = vc_schema_version config, pv_run_id = rq_run_id request,
        pv_profile = vc_profile config, pv_generator_version = en_version env,
        pv_timestamp_utc = en_timestamp env, pv_deterministic = vec_deterministic (vc_execution config),
        pv_thread_count = vec_thread_count (vc_execution config),
        pv_random_seed = vec_random_seed (vc_execution config)\<rparr>,
      ir_diagnostics = []\<rparr>"

definition add_diagnostic :: "ErrorCode \<Rightarrow> PipelineStage \<Rightarrow> string \<Rightarrow> InspectionResult \<Rightarrow> InspectionResult" where
  "add_diagnostic code stage message r = r\<lparr>ir_diagnostics := ir_diagnostics r @
     [\<lparr>dg_code = code, dg_stage = stage, dg_message = message, dg_context = []\<rparr>]\<rparr>"

subsection \<open>The stages of \<open>run_impl\<close>\<close>

definition normalize_here :: "Surface \<Rightarrow> Surface Result" where
  "normalize_here s = normalize_surface s (sv_frame s) None"

definition prepare_surface ::
  "environment \<Rightarrow> ValidatedInspectionConfig \<Rightarrow> Surface \<Rightarrow> NormalBoundaryResult Result" where
  "prepare_surface env config s =
     (let p = vc_preprocess config in
      prepare_normals_and_boundaries (en_radius env) (en_fit env) (en_atan2 env) s (vpp_normal_radius_mm p)
        (vpp_normal_min_neighbors p) (vpp_boundary_radius_mm p) \<lparr>oh_mode = unproven, oh_value = Vec3f_zero\<rparr>
        (vec_thread_count (vc_execution config)))"

text \<open>P01 to P03: both surfaces in millimetres, then with normals and boundaries.\<close>

definition prepare_inputs ::
  "environment \<Rightarrow> ValidatedInspectionConfig \<Rightarrow> Surface \<Rightarrow> Surface \<Rightarrow> NormalBoundaryResult option \<Rightarrow>
     InspectionResult \<Rightarrow> (NormalBoundaryResult \<times> NormalBoundaryResult \<times> InspectionResult) Result" where
  "prepare_inputs env config reference scan cached r =
     rbind (case cached of Some _ \<Rightarrow> Inr None | None \<Rightarrow> rbind (normalize_here reference) (\<lambda>s. Inr (Some s)))
       (\<lambda>reference_mm.
     rbind (normalize_here scan) (\<lambda>scan_mm.
     let r = record_stage env stage_normalize r in
     rbind (case cached of
              Some prepared \<Rightarrow> Inr prepared
            | None \<Rightarrow> (case reference_mm of
                None \<Rightarrow> Inl (pipeline_error internal_error ''reference normalization is unavailable'')
              | Some s \<Rightarrow> prepare_surface env config s)) (\<lambda>reference_prepared.
     rbind (prepare_surface env config scan_mm) (\<lambda>scan_prepared.
     Inr (reference_prepared, scan_prepared, record_stage env stage_preprocess r)))))"

text \<open>P04: the initial pose, the context (the caller's or a temporary one) and the solve.\<close>

definition choose_pose ::
  "InspectionRequest \<Rightarrow> Surface \<Rightarrow> Surface \<Rightarrow> InspectionResult \<Rightarrow> (RigidTransform \<times> InspectionResult) Result" where
  "choose_pose request reference scan r =
     (case rq_initial_pose request of
        Some pose \<Rightarrow>
          require (\<not> (rt_source_frame pose \<noteq> sv_frame scan \<or> rt_target_frame pose \<noteq> sv_frame reference))
            (pipeline_error invalid_input ''initial pose frame direction must match scan-to-reference'')
            (Inr (pose, r))
      | None \<Rightarrow>
          rbind (RigidTransform_create identity_matrix (sv_frame scan) (sv_frame reference) default_tolerance)
            (\<lambda>pose. Inr (pose, add_diagnostic invalid_input stage_registration
               ''no initial pose provided; using identity'' r)))"

definition run_registration ::
  "environment \<Rightarrow> ValidatedInspectionConfig \<Rightarrow> InspectionRequest \<Rightarrow> Surface \<Rightarrow> Surface \<Rightarrow>
     RegistrationContext option \<Rightarrow> InspectionResult \<Rightarrow> (RegistrationMetrics \<times> InspectionResult) Result" where
  "run_registration env config request reference scan registration_context r =
     rbind (choose_pose request reference scan r) (\<lambda>(initial, r).
     let r = r\<lparr>ir_registration := (ir_registration r)\<lparr>rr_initial_pose := Some initial\<rparr>\<rparr> in
     rbind (case registration_context of
              Some ctx \<Rightarrow> Inr ctx
            | None \<Rightarrow> RegistrationContext_create (en_library env) (en_cpu env) reference
                (to_registration_parameters (vc_registration config) (vec_thread_count (vc_execution config)))
                (unat (sv_size scan)) (vec_backend (vc_execution config))) (\<lambda>ctx.
     let r = r\<lparr>ir_registration := (ir_registration r)\<lparr>rr_actual_backend := RegistrationContext_backend ctx\<rparr>\<rparr> in
     rbind (RegistrationContext_align (en_library env) ctx scan initial) (\<lambda>metrics.
     Inr (metrics, record_stage env stage_registration r))))"

definition report_registration ::
  "ValidatedInspectionConfig \<Rightarrow> RegistrationMetrics \<Rightarrow> InspectionResult \<Rightarrow> InspectionResult" where
  "report_registration config m r = r\<lparr>ir_registration := (ir_registration r)
     \<lparr>rr_method := vrc_method (vc_registration config),
      rr_requested_backend := vec_backend (vc_execution config),
      rr_final_pose := Some (rm_final_transform m), rr_iterations := rm_iterations m,
      rr_converged := (rm_convergence m = converged), rr_valid_pairs := rm_valid_pairs m,
      rr_overlap_ratio := rm_fitness m, rr_inlier_rmse_mm := rm_inlier_rmse_mm m,
      rr_termination_reason := termination_reason (rm_convergence m)\<rparr>\<rparr>"

text \<open>
  P05 on a rejected solve. The report is moved into the return value before the stage clock is
  destroyed, so the timing the clock appends never reaches it.
\<close>

definition reject_registration :: "RegistrationGateResult \<Rightarrow> InspectionResult \<Rightarrow> InspectionResult" where
  "reject_registration gate r =
     add_diagnostic registration_failed stage_registration_gate (rg_message gate)
       (r\<lparr>ir_verdict := verdict_indeterminate\<rparr>)"

text \<open>P07: the two fields and their summaries.\<close>

definition report_comparison :: "DeviationStatistics \<Rightarrow> CoverageSummary \<Rightarrow> InspectionResult \<Rightarrow> InspectionResult" where
  "report_comparison d c r =
     r\<lparr>ir_deviations := \<lparr>rd_valid_count = st_valid_count d, rd_mean_signed_mm = st_mean_signed_mm d,
          rd_rms_mm = st_rms_mm d, rd_max_abs_mm = st_max_abs_mm d, rd_p95_abs_mm = st_p95_abs_mm d,
          rd_input_invalid = st_input_invalid d, rd_no_neighbor = st_no_neighbor d,
          rd_normal_missing = st_normal_missing d, rd_normal_mismatch = st_normal_mismatch d,
          rd_reference_boundary = st_reference_boundary d\<rparr>,
       ir_coverage := \<lparr>rc_valid_count = sm_valid_count c, rc_covered_count = sm_covered_count c,
          rc_coverage_ratio = sm_coverage_ratio c, rc_input_invalid = sm_input_invalid c,
          rc_no_neighbor = sm_no_neighbor c, rc_scan_boundary = sm_scan_boundary c\<rparr>\<rparr>"

definition run_comparison ::
  "environment \<Rightarrow> ValidatedInspectionConfig \<Rightarrow> NormalBoundaryResult \<Rightarrow> NormalBoundaryResult \<Rightarrow> Surface \<Rightarrow>
     InspectionResult \<Rightarrow> (DeviationField \<times> CoverageField \<times> CoverageSummary \<times> InspectionResult) Result" where
  "run_comparison env config reference scan_prepared aligned r =
     (let threads = vec_thread_count (vc_execution config) in
      rbind (compute_deviation_field (en_trig env) (en_nearest env) (nb_surface reference) (nb_boundary reference)
               aligned (vc_comparison config) threads) (\<lambda>deviations.
      rbind (compute_coverage_field (en_nearest env) (nb_surface reference) aligned (nb_boundary scan_prepared)
               (vc_comparison config) threads) (\<lambda>coverage.
      let summary = summarize_coverage coverage in
      Inr (deviations, coverage, summary,
        report_comparison (summarize_deviation deviations) summary (record_stage env stage_compare r)))))"

text \<open>P08.\<close>

definition coverage_failed :: "ValidatedInspectionConfig \<Rightarrow> CoverageSummary \<Rightarrow> bool" where
  "coverage_failed config c \<longleftrightarrow> sm_coverage_ratio c < vcc_min_valid_coverage_ratio (vc_comparison config)"

definition gate_coverage ::
  "environment \<Rightarrow> ValidatedInspectionConfig \<Rightarrow> CoverageSummary \<Rightarrow> InspectionResult \<Rightarrow> InspectionResult" where
  "gate_coverage env config c r = record_stage env stage_coverage_gate
     (if coverage_failed config c
      then add_diagnostic insufficient_coverage stage_coverage_gate ''coverage ratio is below the minimum'' r
      else r)"

text \<open>P09: one region per cluster, numbered across both kinds of clusters.\<close>

record DetectState =
  dt_result :: InspectionResult
  dt_has_reject :: bool
  dt_next_id :: u32

definition report_region :: "ValidatedDetectionConfig \<Rightarrow> DetectionRegion \<Rightarrow> ReportRegion" where
  "report_region config d =
     (let ty = to_public_type (dr_type d) in
      \<lparr>rg_id = dr_id d, rg_type = ty, rg_point_count = dr_point_count d, rg_centroid = dr_centroid d,
       rg_aabb_min = dr_aabb_min d, rg_aabb_max = dr_aabb_max d, rg_max_abs_mm = dr_max_abs_mm d,
       rg_mean_mm = dr_mean_mm d, rg_rms_mm = dr_rms_mm d, rg_p95_abs_mm = dr_p95_abs_mm d,
       rg_estimated_area_mm2 = dr_estimated_area_mm2 d, rg_area_is_approximate = dr_area_is_approximate d,
       rg_severity = default_severity ty (dr_max_abs_mm d) config\<rparr>)"

definition add_region ::
  "ValidatedDetectionConfig \<Rightarrow> (u32 \<Rightarrow> DetectionRegion Result) \<Rightarrow> DetectState \<Rightarrow> DetectState Result" where
  "add_region config measure_at st =
     rbind (measure_at (dt_next_id st)) (\<lambda>region.
     let report = report_region config region; r = dt_result st in
     Inr \<lparr>dt_result = r\<lparr>ir_regions := ir_regions r @ [report]\<rparr>,
          dt_has_reject = (dt_has_reject st \<or> rg_severity report = sev_reject),
          dt_next_id = dt_next_id st + 1\<rparr>)"

definition run_detection ::
  "environment \<Rightarrow> ValidatedInspectionConfig \<Rightarrow> Surface \<Rightarrow> Surface \<Rightarrow> DeviationField \<Rightarrow> CoverageField \<Rightarrow>
     InspectionResult \<Rightarrow> (bool \<times> InspectionResult) Result option" where
  "run_detection env config reference aligned deviations coverage r =
     (let detection = vc_detection config in
      Option.bind (cluster_deviation_defects (en_cluster_search env) (en_bucket_order env) aligned deviations detection)
        (\<lambda>deviation_clusters. case deviation_clusters of Inl e \<Rightarrow> Some (Inl e) | Inr deviation_clusters \<Rightarrow>
      Option.bind (cluster_missing_material (en_cluster_search env) (en_bucket_order env) reference coverage detection)
        (\<lambda>missing_clusters. Some (rbind missing_clusters (\<lambda>missing_clusters.
      rbind (foldM (\<lambda>st cluster. add_region detection (measure_deviation_region cluster aligned deviations) st)
               deviation_clusters \<lparr>dt_result = r, dt_has_reject = False, dt_next_id = 0\<rparr>) (\<lambda>st.
      rbind (foldM (\<lambda>st cluster. add_region detection (measure_missing_region cluster reference) st)
               missing_clusters st) (\<lambda>st.
      Inr (dt_has_reject st, record_stage env stage_detect (dt_result st)))))))))"

text \<open>P10.\<close>

definition finalize :: "bool \<Rightarrow> bool \<Rightarrow> InspectionResult \<Rightarrow> InspectionResult" where
  "finalize failed has_reject r = r\<lparr>ir_verdict :=
     (if failed \<or> rd_valid_count (ir_deviations r) = 0 then verdict_indeterminate
      else if has_reject then verdict_fail else verdict_pass)\<rparr>"

text \<open>P06 to P10, after the gate has accepted the solve.\<close>

definition inspect_aligned ::
  "environment \<Rightarrow> ValidatedInspectionConfig \<Rightarrow> NormalBoundaryResult \<Rightarrow> NormalBoundaryResult \<Rightarrow> RegistrationMetrics \<Rightarrow>
     InspectionResult \<Rightarrow> InspectionResult Result option" where
  "inspect_aligned env config reference scan metrics r =
     (case normalize_surface (nb_surface scan) (sv_frame (nb_surface reference)) (Some (rm_final_transform metrics)) of
        Inl e \<Rightarrow> Some (Inl e)
      | Inr aligned \<Rightarrow>
        (case run_comparison env config reference scan aligned (record_stage env stage_transform r) of
           Inl e \<Rightarrow> Some (Inl e)
         | Inr (deviations, coverage, summary, r) \<Rightarrow>
             Option.bind (run_detection env config (nb_surface reference) aligned deviations coverage
                 (gate_coverage env config summary r)) (\<lambda>detected.
             Some (rbind detected (\<lambda>(has_reject, r). Inr (finalize (coverage_failed config summary) has_reject r))))))"

definition run_impl ::
  "environment \<Rightarrow> ValidatedInspectionConfig \<Rightarrow> Surface \<Rightarrow> Surface \<Rightarrow> InspectionRequest \<Rightarrow>
     NormalBoundaryResult option \<Rightarrow> RegistrationContext option \<Rightarrow> InspectionResult Result option" where
  "run_impl env config reference scan request cached registration_context =
     (case prepare_inputs env config reference scan cached (initial_result env config request) of
        Inl e \<Rightarrow> Some (Inl e)
      | Inr (reference_prepared, scan_prepared, r) \<Rightarrow>
        (case run_registration env config request (nb_surface reference_prepared) (nb_surface scan_prepared)
                registration_context r of
           Inl e \<Rightarrow> Some (Inl e)
         | Inr (metrics, r) \<Rightarrow>
           (let r = report_registration config metrics r in
            case evaluate_gate metrics (vc_registration_gate config) of
              Inl e \<Rightarrow> Some (Inl e)
            | Inr gate \<Rightarrow>
                if \<not> rg_passed gate then Some (Inr (reject_registration gate r))
                else inspect_aligned env config reference_prepared scan_prepared metrics
                       (record_stage env stage_registration_gate r))))"

subsection \<open>The entry points\<close>

type_synonym InspectionPipeline = "ValidatedInspectionConfig"

definition InspectionPipeline_create :: "InspectionConfig \<Rightarrow> InspectionPipeline Result" where
  "InspectionPipeline_create config = validate_config config"

definition InspectionPipeline_run ::
  "environment \<Rightarrow> InspectionPipeline \<Rightarrow> Surface \<Rightarrow> Surface \<Rightarrow> InspectionRequest \<Rightarrow> InspectionResult Result option" where
  "InspectionPipeline_run env pipeline reference scan request =
     run_impl env pipeline reference scan request None None"

record InspectionContext_Impl =
  ci_config :: ValidatedInspectionConfig
  ci_reference :: NormalBoundaryResult
  ci_registration :: RegistrationContext
  ci_capacity :: nat

text \<open>The content of \<open>impl_\<close>; \<open>None\<close> is a context that was moved from.\<close>

type_synonym InspectionContext = "InspectionContext_Impl option"

definition InspectionContext_create ::
  "environment \<Rightarrow> InspectionConfig \<Rightarrow> Surface \<Rightarrow> nat \<Rightarrow> InspectionContext Result" where
  "InspectionContext_create env config reference capacity =
     require (\<not> (capacity = 0 \<or> 2 ^ 31 - 1 < capacity))
       (pipeline_error invalid_input ''scan capacity must be in [1, INT32_MAX]'') (
     rbind (validate_config config) (\<lambda>options.
     rbind (normalize_here reference) (\<lambda>normalized.
     rbind (prepare_surface env options normalized) (\<lambda>prepared.
     rbind (RegistrationContext_create (en_library env) (en_cpu env) (nb_surface prepared)
              (to_registration_parameters (vc_registration options) (vec_thread_count (vc_execution options)))
              capacity (vec_backend (vc_execution options))) (\<lambda>registration.
     Inr (Some \<lparr>ci_config = options, ci_reference = prepared, ci_registration = registration,
                ci_capacity = capacity\<rparr>))))))"

definition InspectionContext_run ::
  "environment \<Rightarrow> InspectionContext \<Rightarrow> Surface \<Rightarrow> InspectionRequest \<Rightarrow> InspectionResult Result option" where
  "InspectionContext_run env ctx scan request =
     (case ctx of
        None \<Rightarrow> Some (Inl (pipeline_error invalid_input ''inspection context was moved from''))
      | Some impl \<Rightarrow>
          if ci_capacity impl < unat (sv_size scan)
          then Some (Inl (pipeline_error invalid_input ''scan exceeds inspection context capacity''))
          else run_impl env (ci_config impl) (nb_surface (ci_reference impl)) scan request
                 (Some (ci_reference impl)) (Some (ci_registration impl)))"

subsection \<open>What each stage leaves in the report\<close>

definition stages :: "InspectionResult \<Rightarrow> PipelineStage list" where
  "stages r = map ti_stage (ir_timings r)"

definition has_code :: "ErrorCode \<Rightarrow> InspectionResult \<Rightarrow> bool" where
  "has_code code r \<longleftrightarrow> code \<in> dg_code ` set (ir_diagnostics r)"

named_theorems report_facts

lemma record_stage_facts [report_facts]:
  "stages (record_stage env stage r) = stages r @ [stage]" "ir_diagnostics (record_stage env stage r) = ir_diagnostics r"
  "ir_regions (record_stage env stage r) = ir_regions r" "ir_verdict (record_stage env stage r) = ir_verdict r"
  "ir_registration (record_stage env stage r) = ir_registration r" "ir_coverage (record_stage env stage r) = ir_coverage r"
  "ir_deviations (record_stage env stage r) = ir_deviations r"
  by (simp_all add: record_stage_def stages_def)

lemma add_diagnostic_facts [report_facts]:
  "stages (add_diagnostic code stage m r) = stages r" "ir_regions (add_diagnostic code stage m r) = ir_regions r"
  "ir_verdict (add_diagnostic code stage m r) = ir_verdict r"
  "ir_registration (add_diagnostic code stage m r) = ir_registration r"
  "ir_coverage (add_diagnostic code stage m r) = ir_coverage r"
  "ir_deviations (add_diagnostic code stage m r) = ir_deviations r"
  "has_code c (add_diagnostic code stage m r) \<longleftrightarrow> has_code c r \<or> c = code"
  by (auto simp: add_diagnostic_def stages_def has_code_def)

lemma report_registration_facts [report_facts]:
  "stages (report_registration config m r) = stages r" "ir_diagnostics (report_registration config m r) = ir_diagnostics r"
  "ir_regions (report_registration config m r) = ir_regions r" "ir_verdict (report_registration config m r) = ir_verdict r"
  "ir_coverage (report_registration config m r) = ir_coverage r"
  "ir_deviations (report_registration config m r) = ir_deviations r"
  by (simp_all add: report_registration_def stages_def)

lemma report_comparison_facts [report_facts]:
  "stages (report_comparison d c r) = stages r" "ir_diagnostics (report_comparison d c r) = ir_diagnostics r"
  "ir_regions (report_comparison d c r) = ir_regions r"
  "ir_registration (report_comparison d c r) = ir_registration r"
  "rc_coverage_ratio (ir_coverage (report_comparison d c r)) = sm_coverage_ratio c"
  by (simp_all add: report_comparison_def stages_def)

lemma has_code_diagnostics [report_facts]:
  "has_code code (record_stage env stage r) = has_code code r"
  "has_code code (report_registration config m r) = has_code code r"
  "has_code code (report_comparison d c r) = has_code code r"
  by (simp_all add: has_code_def report_facts)

lemma gate_coverage_facts [report_facts]:
  "stages (gate_coverage env config c r) = stages r @ [stage_coverage_gate]"
  "ir_regions (gate_coverage env config c r) = ir_regions r"
  "ir_registration (gate_coverage env config c r) = ir_registration r"
  "ir_coverage (gate_coverage env config c r) = ir_coverage r"
  "ir_deviations (gate_coverage env config c r) = ir_deviations r"
  "has_code code (gate_coverage env config c r) \<longleftrightarrow>
     has_code code r \<or> coverage_failed config c \<and> code = insufficient_coverage"
  by (auto simp: gate_coverage_def report_facts)

lemma update_facts [report_facts]:
  "stages (r\<lparr>ir_registration := x\<rparr>) = stages r" "has_code code (r\<lparr>ir_registration := x\<rparr>) = has_code code r"
  "stages (r\<lparr>ir_verdict := v\<rparr>) = stages r" "has_code code (r\<lparr>ir_verdict := v\<rparr>) = has_code code r"
  "stages (r\<lparr>ir_regions := gs\<rparr>) = stages r" "has_code code (r\<lparr>ir_regions := gs\<rparr>) = has_code code r"
  by (simp_all add: stages_def has_code_def)

text \<open>The report before the gate.\<close>

definition undecided :: "InspectionResult \<Rightarrow> bool" where
  "undecided r \<longleftrightarrow> ir_regions r = [] \<and> \<not> has_code registration_failed r \<and> \<not> has_code insufficient_coverage r \<and>
     rd_valid_count (ir_deviations r) = 0"

lemma prepare_inputs_report:
  "prepare_inputs env config reference scan cached (initial_result env config request) = Inr (rp, sp, r) \<Longrightarrow>
   undecided r \<and> stages r = [stage_normalize, stage_preprocess]"
  by (auto simp: prepare_inputs_def rbind_Inr_iff Let_def initial_result_def undecided_def report_facts has_code_def
      stages_def default_deviations_def record_stage_def)

lemma run_registration_report:
  assumes "run_registration env config request reference scan ctx r = Inr (m, r')" "undecided r"
  shows "undecided r' \<and> stages r' = stages r @ [stage_registration]"
proof -
  obtain pose r0 where pose: "choose_pose request reference scan r = Inr (pose, r0)"
    and r': "\<exists>b. r' = record_stage env stage_registration (r0\<lparr>ir_registration := (ir_registration r0)
        \<lparr>rr_initial_pose := Some pose, rr_actual_backend := b\<rparr>\<rparr>)"
    using assms(1) by (auto simp: run_registration_def rbind_Inr_iff Let_def)
  have "undecided r0 \<and> stages r0 = stages r"
    using pose assms(2)
    by (auto simp: choose_pose_def undecided_def rbind_Inr_iff require_Inr_iff report_facts split: option.splits)
  then show ?thesis using r' by (auto simp: undecided_def report_facts)
qed

subsection \<open>Regions\<close>

lemma measured_identity:
  "measure_deviation_region cluster s f i = Inr d \<Longrightarrow> dr_id d = i \<and> dr_type d = dc_type cluster"
  "measure_missing_region cluster s i = Inr d \<Longrightarrow> dr_id d = i \<and> dr_type d = dc_type cluster"
  by (auto simp: measure_deviation_region_def measure_missing_region_def rbind_Inr_iff build_region_box)

text \<open>The invariant of the region loops.\<close>

definition numbered :: "ValidatedDetectionConfig \<Rightarrow> InspectionResult \<Rightarrow> DetectState \<Rightarrow> bool" where
  "numbered config r st \<longleftrightarrow> (\<exists>regions. dt_result st = r\<lparr>ir_regions := regions\<rparr> \<and>
     map rg_id regions = map of_nat [0..<length regions] \<and> dt_next_id st = of_nat (length regions) \<and>
     (dt_has_reject st \<longleftrightarrow> (\<exists>g \<in> set regions. rg_severity g = sev_reject)) \<and>
     (\<forall>g \<in> set regions. rg_severity g = default_severity (rg_type g) (rg_max_abs_mm g) config))"

lemma add_region_numbered:
  assumes "add_region config measure_at st = Inr st'" "numbered config r st"
    and "\<And>i d. measure_at i = Inr d \<Longrightarrow> dr_id d = i"
  shows "numbered config r st'"
proof -
  obtain d where d: "measure_at (dt_next_id st) = Inr d"
    "st' = \<lparr>dt_result = (dt_result st)\<lparr>ir_regions := ir_regions (dt_result st) @ [report_region config d]\<rparr>,
       dt_has_reject = (dt_has_reject st \<or> rg_severity (report_region config d) = sev_reject),
       dt_next_id = dt_next_id st + 1\<rparr>"
    using assms(1) by (auto simp: add_region_def rbind_Inr_iff Let_def)
  obtain regions where regions: "dt_result st = r\<lparr>ir_regions := regions\<rparr>"
     "map rg_id regions = map of_nat [0..<length regions]" "dt_next_id st = of_nat (length regions)"
     "dt_has_reject st \<longleftrightarrow> (\<exists>g \<in> set regions. rg_severity g = sev_reject)"
     "\<forall>g \<in> set regions. rg_severity g = default_severity (rg_type g) (rg_max_abs_mm g) config"
    using assms(2) unfolding numbered_def by blast
  show ?thesis
    unfolding numbered_def
    by (rule exI [of _ "regions @ [report_region config d]"])
       (use regions d assms(3) [OF d(1)] in \<open>auto simp: report_region_def Let_def\<close>)
qed

lemma run_detection_report:
  assumes "run_detection env config reference aligned deviations coverage r = Some (Inr (has_reject, r'))" "ir_regions r = []"
  shows "\<exists>regions. r' = record_stage env stage_detect (r\<lparr>ir_regions := regions\<rparr>) \<and>
    map rg_id regions = map of_nat [0..<length regions] \<and>
    (has_reject \<longleftrightarrow> (\<exists>g \<in> set regions. rg_severity g = sev_reject)) \<and>
    (\<forall>g \<in> set regions. rg_severity g = default_severity (rg_type g) (rg_max_abs_mm g) (vc_detection config))"
proof -
  let ?start = "\<lparr>dt_result = r, dt_has_reject = False, dt_next_id = 0\<rparr> :: DetectState"
  obtain devs miss st st' where dev: "foldM (\<lambda>st cluster. add_region (vc_detection config)
        (measure_deviation_region cluster aligned deviations) st) devs ?start = Inr st"
    and mis: "foldM (\<lambda>st cluster. add_region (vc_detection config) (measure_missing_region cluster reference) st)
        miss st = Inr st'"
    and r': "has_reject = dt_has_reject st'" "r' = record_stage env stage_detect (dt_result st')"
  proof -
    obtain found where "cluster_deviation_defects (en_cluster_search env) (en_bucket_order env) aligned deviations
        (vc_detection config) = Some found"
      using assms(1) by (auto simp: run_detection_def Let_def bind_eq_Some_conv)
    then show thesis
      using assms(1) that by (cases found) (auto simp: run_detection_def Let_def bind_eq_Some_conv rbind_Inr_iff)
  qed
  have "numbered (vc_detection config) r ?start"
    using assms(2) by (auto simp: numbered_def intro: exI [of _ "[]"])
  then have "numbered (vc_detection config) r st"
    using foldM_invariant [OF dev, of "numbered (vc_detection config) r"] add_region_numbered measured_identity(1) by blast
  then have "numbered (vc_detection config) r st'"
    using foldM_invariant [OF mis, of "numbered (vc_detection config) r"] add_region_numbered measured_identity(2) by blast
  then obtain regions where "dt_result st' = r\<lparr>ir_regions := regions\<rparr>"
     "map rg_id regions = map of_nat [0..<length regions]"
     "dt_has_reject st' \<longleftrightarrow> (\<exists>g \<in> set regions. rg_severity g = sev_reject)"
     "\<forall>g \<in> set regions. rg_severity g = default_severity (rg_type g) (rg_max_abs_mm g) (vc_detection config)"
    unfolding numbered_def by blast
  then show ?thesis unfolding r' by (intro exI [of _ regions]) simp
qed

text \<open>The rule that fixes the verdict, over the published report alone.\<close>

definition verdict_of :: "InspectionResult \<Rightarrow> Verdict" where
  "verdict_of r = (if has_code registration_failed r \<or> has_code insufficient_coverage r \<or>
        rd_valid_count (ir_deviations r) = 0 then verdict_indeterminate
     else if \<exists>g \<in> set (ir_regions r). rg_severity g = sev_reject then verdict_fail
     else verdict_pass)"

lemma inspect_aligned_report:
  assumes "inspect_aligned env config reference scan metrics r = Some (Inr out)" "undecided r"
  shows "stages out = stages r @ [stage_transform, stage_compare, stage_coverage_gate, stage_detect] \<and>
    ir_registration out = ir_registration r \<and> \<not> has_code registration_failed out \<and>
    (has_code insufficient_coverage out \<longleftrightarrow>
       rc_coverage_ratio (ir_coverage out) < vcc_min_valid_coverage_ratio (vc_comparison config)) \<and>
    ir_verdict out = verdict_of out \<and>
    map rg_id (ir_regions out) = map of_nat [0..<length (ir_regions out)] \<and>
    (\<forall>g \<in> set (ir_regions out). rg_severity g = default_severity (rg_type g) (rg_max_abs_mm g) (vc_detection config))"
proof -
  obtain aligned deviations coverage summary r1 has_reject r2 where
    compare: "run_comparison env config reference scan aligned (record_stage env stage_transform r) =
      Inr (deviations, coverage, summary, r1)"
    and detect: "run_detection env config (nb_surface reference) aligned deviations coverage
      (gate_coverage env config summary r1) = Some (Inr (has_reject, r2))"
    and out: "out = finalize (coverage_failed config summary) has_reject r2"
    using assms(1) by (auto simp: inspect_aligned_def bind_eq_Some_conv rbind_Inr_iff split: sum.splits)
  have r1: "\<exists>d. r1 = report_comparison d summary (record_stage env stage_compare (record_stage env stage_transform r))"
    using compare by (auto simp: run_comparison_def Let_def rbind_Inr_iff)
  then have start: "ir_regions (gate_coverage env config summary r1) = []"
    using assms(2) by (auto simp: undecided_def report_facts)
  obtain regions where r2: "r2 = record_stage env stage_detect ((gate_coverage env config summary r1)\<lparr>ir_regions := regions\<rparr>)"
    and regions: "map rg_id regions = map of_nat [0..<length regions]"
      "has_reject \<longleftrightarrow> (\<exists>g \<in> set regions. rg_severity g = sev_reject)"
      "\<forall>g \<in> set regions. rg_severity g = default_severity (rg_type g) (rg_max_abs_mm g) (vc_detection config)"
    using run_detection_report [OF detect start] by blast
  have failed: "coverage_failed config summary \<longleftrightarrow>
      rc_coverage_ratio (ir_coverage r1) < vcc_min_valid_coverage_ratio (vc_comparison config)"
    using r1 by (auto simp: coverage_failed_def report_facts)
  show ?thesis
    using assms(2) r1 regions failed
    by (auto simp: out r2 finalize_def report_facts undecided_def verdict_of_def)
qed

text \<open>The two ways a completed run can go: rejected by the gate, or inspected.\<close>

lemma run_impl_cases:
  assumes "run_impl env config reference scan request cached ctx = Some (Inr out)"
  obtains (rejected) metrics gate r where "evaluate_gate metrics (vc_registration_gate config) = Inr gate"
      "\<not> rg_passed gate" "undecided r" "stages r = [stage_normalize, stage_preprocess, stage_registration]"
      "out = reject_registration gate (report_registration config metrics r)"
  | (inspected) metrics gate r rp sp where "evaluate_gate metrics (vc_registration_gate config) = Inr gate"
      "rg_passed gate" "undecided r" "stages r = [stage_normalize, stage_preprocess, stage_registration]"
      "inspect_aligned env config rp sp metrics
         (record_stage env stage_registration_gate (report_registration config metrics r)) = Some (Inr out)"
proof -
  obtain rp sp r0 metrics r gate where inputs: "prepare_inputs env config reference scan cached
      (initial_result env config request) = Inr (rp, sp, r0)"
    and solve: "run_registration env config request (nb_surface rp) (nb_surface sp) ctx r0 = Inr (metrics, r)"
    and gate: "evaluate_gate metrics (vc_registration_gate config) = Inr gate"
    and out: "if \<not> rg_passed gate then out = reject_registration gate (report_registration config metrics r)
      else inspect_aligned env config rp sp metrics
         (record_stage env stage_registration_gate (report_registration config metrics r)) = Some (Inr out)"
    using assms unfolding run_impl_def by (auto simp: Let_def split: sum.splits if_splits)
  have r: "undecided r \<and> stages r = [stage_normalize, stage_preprocess, stage_registration]"
    using run_registration_report [OF solve] prepare_inputs_report [OF inputs] by simp
  show ?thesis
  proof (cases "rg_passed gate")
    case True
    then show ?thesis using inspected [OF gate _ _ _] r out by auto
  next
    case False
    then show ?thesis using rejected [OF gate] r out by auto
  qed
qed

subsection \<open>Properties of completed runs\<close>

lemma rejected_report:
  assumes "undecided r"
  shows "ir_verdict (reject_registration gate (report_registration config m r)) =
      verdict_of (reject_registration gate (report_registration config m r))"
    "has_code registration_failed (reject_registration gate (report_registration config m r))"
    "ir_regions (reject_registration gate (report_registration config m r)) = []"
    "stages (reject_registration gate (report_registration config m r)) = stages r"
  using assms by (auto simp: reject_registration_def report_facts undecided_def verdict_of_def)

lemma undecided_record: "undecided r \<Longrightarrow> undecided (record_stage env s (report_registration config m r))"
  by (simp add: undecided_def report_facts)

text \<open>
  The verdict of a completed run can be read off its report: it is INDETERMINATE exactly when
  the report says that registration failed, that coverage is insufficient, or counts no valid
  deviation sample; otherwise FAIL when some region has severity \<open>reject\<close> and PASS when none has.
  Region ids count up from 0 and each severity is the default severity of the region's own numbers.
\<close>
theorem verdict_from_report:
  assumes "run_impl env config reference scan request cached ctx = Some (Inr out)"
  shows "ir_verdict out = verdict_of out \<and>
    map rg_id (ir_regions out) = map of_nat [0..<length (ir_regions out)] \<and>
    (\<forall>g \<in> set (ir_regions out).
       rg_severity g = default_severity (rg_type g) (rg_max_abs_mm g) (vc_detection config))"
  using assms
proof (cases rule: run_impl_cases)
  case rejected
  then show ?thesis using rejected_report by simp
next
  case (inspected metrics gate r rp sp)
  show ?thesis using inspect_aligned_report [OF inspected(5) undecided_record [OF inspected(3)]] by blast
qed

lemma severity_below_reject:
  assumes "default_severity ty x config \<noteq> sev_reject"
  shows "ty \<noteq> report_missing_material \<and>
    \<not> lit 2 * std_max (vdc_positive_threshold_mm config) (- vdc_negative_threshold_mm config) \<le> x"
  using assms by (auto simp: default_severity_def Let_def split: if_splits)

text \<open>
  C1. PASS is only ever reported on full evidence: the solve converged, with at least the configured
  pairs, overlap and accuracy; the coverage ratio reached the configured minimum; at least one
  deviation was measured; and no region is missing material or deviates by twice the threshold.
\<close>
theorem pass_requires_evidence:
  assumes "run_impl env config reference scan request cached ctx = Some (Inr out)" "ir_verdict out = verdict_pass"
  shows "rr_converged (ir_registration out) \<and>
    unat (vgc_min_valid_pairs (vc_registration_gate config)) \<le> unat (rr_valid_pairs (ir_registration out)) \<and>
    \<not> rr_overlap_ratio (ir_registration out) < vgc_min_overlap_ratio (vc_registration_gate config) \<and>
    \<not> vgc_max_inlier_rmse_mm (vc_registration_gate config) < rr_inlier_rmse_mm (ir_registration out) \<and>
    \<not> rc_coverage_ratio (ir_coverage out) < vcc_min_valid_coverage_ratio (vc_comparison config) \<and>
    0 < rd_valid_count (ir_deviations out) \<and>
    (\<forall>g \<in> set (ir_regions out). rg_type g \<noteq> report_missing_material \<and>
       \<not> lit 2 * std_max (vdc_positive_threshold_mm (vc_detection config))
                        (- vdc_negative_threshold_mm (vc_detection config)) \<le> rg_max_abs_mm g)"
  using assms(1)
proof (cases rule: run_impl_cases)
  case rejected
  then show ?thesis using rejected_report assms(2) by (simp add: verdict_of_def)
next
  case (inspected metrics gate r rp sp)
  note report = inspect_aligned_report [OF inspected(5) undecided_record [OF inspected(3)]]
  have "verdict_of out = verdict_pass" using report assms(2) by simp
  then have out: "\<not> has_code insufficient_coverage out" "0 < rd_valid_count (ir_deviations out)"
    "\<forall>g \<in> set (ir_regions out). rg_severity g \<noteq> sev_reject"
    by (auto simp: verdict_of_def split: if_splits)
  have registration: "ir_registration out = ir_registration (report_registration config metrics r)"
    using report by (simp add: report_facts)
  have regions: "\<forall>g \<in> set (ir_regions out). rg_type g \<noteq> report_missing_material \<and>
       \<not> lit 2 * std_max (vdc_positive_threshold_mm (vc_detection config))
                        (- vdc_negative_threshold_mm (vc_detection config)) \<le> rg_max_abs_mm g"
    using report out(3) severity_below_reject by metis
  show ?thesis
    using gate_passed [OF inspected(1,2)] report out(1,2) regions
    unfolding registration by (simp add: report_registration_def)
qed

text \<open>
  The timings of a completed run name its stages in the order they ran. A run the registration
  gate rejects lists only the three stages before the gate: the timing of the gate itself is lost.
\<close>
theorem timings_name_stages:
  assumes "run_impl env config reference scan request cached ctx = Some (Inr out)"
  shows "stages out = (if has_code registration_failed out
    then [stage_normalize, stage_preprocess, stage_registration]
    else [stage_normalize, stage_preprocess, stage_registration, stage_registration_gate, stage_transform,
          stage_compare, stage_coverage_gate, stage_detect])"
  using assms
proof (cases rule: run_impl_cases)
  case rejected
  then show ?thesis using rejected_report by simp
next
  case (inspected metrics gate r rp sp)
  then show ?thesis using inspect_aligned_report [OF inspected(5) undecided_record [OF inspected(3)]]
    by (simp add: report_facts)
qed

subsection \<open>A run always returns\<close>

lemma normalize_surface_sizes:
  assumes "surface_ok s" "normalize_surface s f T = Inr r"
  shows "surface_ok r" "sv_size r = sv_size s" "storage_size r < 2 ^ 64"
proof -
  obtain c where fits: "\<forall>i \<in> set (logical_indices s). sample_fits c T s i" and r: "r = normalized_surface c T f s"
    using assms normalize_surface_Inr_iff by blast
  show ok: "surface_ok r" unfolding r by (rule normalized_surface_ok [OF assms(1) fits])
  show "sv_size r = sv_size s" by (simp add: r)
  show "storage_size r < 2 ^ 64" using surface_ok_sizes(1) [OF ok] by (simp add: storage_size_def)
qed

lemma prepared_inputs_ok:
  assumes "prepare_inputs env config reference scan cached r = Inr (rp, sp, r')" "surface_ok reference" "surface_ok scan"
    and "\<And>c. cached = Some c \<Longrightarrow> surface_ok (nb_surface c)"
  shows "surface_ok (nb_surface rp)" "surface_ok (nb_surface sp)" "sv_size (nb_surface sp) = sv_size scan"
proof -
  obtain scan_mm where scan: "normalize_here scan = Inr scan_mm" "prepare_surface env config scan_mm = Inr sp"
    using assms(1) by (auto simp: prepare_inputs_def rbind_Inr_iff Let_def)
  note mm = normalize_surface_sizes [OF assms(3) scan(1) [unfolded normalize_here_def]]
  note prepared = prepared_surface [OF mm(1) scan(2) [unfolded prepare_surface_def Let_def]]
  show "surface_ok (nb_surface sp)" "sv_size (nb_surface sp) = sv_size scan" using prepared mm by simp_all
  show "surface_ok (nb_surface rp)"
  proof (cases cached)
    case None
    then obtain reference_mm where "normalize_here reference = Inr reference_mm" "prepare_surface env config reference_mm = Inr rp"
      using assms(1) by (auto simp: prepare_inputs_def rbind_Inr_iff Let_def)
    then show ?thesis
      using normalize_surface_sizes(1) [OF assms(2)] prepared_surface(1)
      unfolding normalize_here_def prepare_surface_def Let_def by blast
  next
    case (Some c)
    then show ?thesis using assms(1,4) by (auto simp: prepare_inputs_def rbind_Inr_iff Let_def)
  qed
qed

lemma inspect_aligned_returns:
  assumes "search_in_range (en_cluster_search env)" "surface_ok (nb_surface reference)" "surface_ok (nb_surface scan)"
  shows "\<exists>result. inspect_aligned env config reference scan metrics r = Some result"
proof (cases "normalize_surface (nb_surface scan) (sv_frame (nb_surface reference)) (Some (rm_final_transform metrics))")
  case (Inr aligned)
  have aligned: "storage_size aligned \<le> 2 ^ 64" using normalize_surface_sizes(3) [OF assms(3) Inr] by simp
  have reference: "storage_size (nb_surface reference) \<le> 2 ^ 64"
    using surface_ok_sizes(1) [OF assms(2)] by (simp add: storage_size_def)
  have "\<exists>result. run_detection env config (nb_surface reference) aligned deviations coverage r1 = Some result"
    for deviations coverage r1
  proof -
    obtain d m where "cluster_deviation_defects (en_cluster_search env) (en_bucket_order env) aligned deviations
        (vc_detection config) = Some d"
      "cluster_missing_material (en_cluster_search env) (en_bucket_order env) (nb_surface reference) coverage
        (vc_detection config) = Some m"
      using clustering_returns(1) [OF assms(1) aligned] clustering_returns(2) [OF assms(1) reference] by metis
    then show ?thesis by (cases d) (simp_all add: run_detection_def Let_def)
  qed
  note detect = this
  show ?thesis
  proof (cases "run_comparison env config reference scan aligned (record_stage env stage_transform r)")
    case (Inr compared)
    obtain deviations coverage summary r1 where "compared = (deviations, coverage, summary, r1)" by (cases compared)
    then show ?thesis
      using Inr \<open>normalize_surface _ _ _ = Inr aligned\<close> detect [of deviations coverage "gate_coverage env config summary r1"]
      by (auto simp: inspect_aligned_def)
  qed (simp add: inspect_aligned_def Inr)
qed (simp add: inspect_aligned_def)

text \<open>
  C2. Inspection always returns: on well-formed surfaces, whatever the configuration, the searches
  (as long as their hits are indices of the searched cloud), the solver and the request, a pipeline
  run ends with a report or an error; no union-find chain the clustering follows can be endless.
\<close>
theorem inspection_returns:
  assumes "search_in_range (en_cluster_search env)" "surface_ok reference" "surface_ok scan"
  shows "\<exists>result. InspectionPipeline_run env pipeline reference scan request = Some result"
proof -
  have "\<exists>result. inspect_aligned env pipeline rp sp metrics r = Some result"
    if "prepare_inputs env pipeline reference scan None r0 = Inr (rp, sp, r1)" for rp sp metrics r r0 r1
    using inspect_aligned_returns [OF assms(1) prepared_inputs_ok(1,2) [OF that assms(2,3)]] by simp
  then show ?thesis
    by (auto simp: InspectionPipeline_run_def run_impl_def Let_def split: sum.split)
qed

subsection \<open>The reusable context\<close>

text \<open>
  C3. A reusable inspection context is the pipeline with the reference prepared once: for every
  non-empty well-formed scan within its capacity, running the context gives exactly the outcome of
  the pipeline on the same configuration, reference, scan and request: the same report or error.
\<close>
theorem context_refines_pipeline:
  assumes "InspectionContext_create env raw reference capacity = Inr ctx" "validate_config raw = Inr config"
    and "surface_ok reference" "surface_ok scan" "sv_size scan \<noteq> 0" "unat (sv_size scan) \<le> capacity"
  shows "InspectionContext_run env ctx scan request = InspectionPipeline_run env config reference scan request"
proof -
  let ?p = "to_registration_parameters (vc_registration config) (vec_thread_count (vc_execution config))"
  obtain normalized prepared registration where
    reference: "normalize_here reference = Inr normalized" "prepare_surface env config normalized = Inr prepared"
    and registration: "RegistrationContext_create (en_library env) (en_cpu env) (nb_surface prepared) ?p capacity
      (vec_backend (vc_execution config)) = Inr registration"
    and ctx: "ctx = Some \<lparr>ci_config = config, ci_reference = prepared, ci_registration = registration,
      ci_capacity = capacity\<rparr>"
    using assms(1,2) by (auto simp: InspectionContext_create_def require_Inr_iff rbind_Inr_iff)
  have inputs: "prepare_inputs env config (nb_surface prepared) scan (Some prepared) r =
      prepare_inputs env config reference scan None r" for r
    using reference by (simp add: prepare_inputs_def)
  have registered: "run_registration env config request (nb_surface rp) (nb_surface sp) (Some registration) r =
      run_registration env config request (nb_surface rp) (nb_surface sp) None r"
    if "prepare_inputs env config reference scan None r0 = Inr (rp, sp, r1)" for rp sp r r0 r1
  proof -
    have rp: "rp = prepared" using that reference by (auto simp: prepare_inputs_def rbind_Inr_iff Let_def)
    have size: "sv_size (nb_surface sp) = sv_size scan" using prepared_inputs_ok(3) [OF that assms(3,4)] by simp
    have "1 \<le> unat (sv_size (nb_surface sp))" using assms(5) by (simp add: size Suc_le_eq unat_gt_0)
    from context_with_capacity [OF registration this] obtain temporary where
      "RegistrationContext_create (en_library env) (en_cpu env) (nb_surface prepared) ?p (unat (sv_size (nb_surface sp)))
        (vec_backend (vc_execution config)) = Inr temporary"
      "RegistrationContext_backend temporary = RegistrationContext_backend registration"
      "\<forall>pose. RegistrationContext_align (en_library env) temporary (nb_surface sp) pose =
        RegistrationContext_align (en_library env) registration (nb_surface sp) pose"
      using assms(6) size by auto
    then show ?thesis by (simp add: run_registration_def rp)
  qed
  have "run_impl env config (nb_surface prepared) scan request (Some prepared) (Some registration) =
      run_impl env config reference scan request None None"
    unfolding run_impl_def inputs using registered
    by (auto split: sum.split)
  then show ?thesis
    using assms(6) by (simp add: ctx InspectionContext_run_def InspectionPipeline_run_def)
qed

subsection \<open>A complete run\<close>

text \<open>
  A 3 by 3 grid of coincident points inspected against itself: the searches report every point, the
  nearest neighbour is always the middle one (the only one away from the border), and the solver
  proposes no motion.
\<close>

definition sample_board :: Surface where
  "sample_board = \<lparr>sv_points = replicate 9 (Vec3 0 0 0), sv_normals = replicate 9 (Vec3 0 0 1), sv_valid = replicate 9 1,
     sv_grid = Some \<lparr>grid_width = 3, grid_height = 3, grid_row_stride = 3\<rparr>, sv_unit = millimeter,
     sv_frame = ''cad'', sv_size = 9\<rparr>"

definition sample_environment :: environment where
  "sample_environment = \<lparr>en_library = sample_library [(0, 0)], en_cpu = None, en_radius = (\<lambda>_ _ _. []),
     en_fit = (\<lambda>_ _. None), en_atan2 = (\<lambda>_ _. 0), en_trig = \<lparr>tr_cos = (\<lambda>_. 0), tr_acos = (\<lambda>_. 0)\<rparr>,
     en_nearest = (\<lambda>_ _. Some (4, 0)), en_cluster_search = whole_cloud_search, en_bucket_order = id,
     en_version = ''0.1.0'', en_timestamp = [], en_elapsed = (\<lambda>_. 0)\<rparr>"

lemma sample_board_fields [simp]:
  "sv_points sample_board = replicate 9 (Vec3 0 0 0)" "sv_normals sample_board = replicate 9 (Vec3 0 0 1)"
  "sv_valid sample_board = replicate 9 1" "sv_grid sample_board = Some \<lparr>grid_width = 3, grid_height = 3, grid_row_stride = 3\<rparr>"
  "sv_unit sample_board = millimeter" "sv_frame sample_board = ''cad''" "sv_size sample_board = 9"
  "storage_size sample_board = 9"
  by (simp_all add: sample_board_def storage_size_def)

lemma sample_board_walk [simp]: "logical_indices sample_board = [0..<9]"
  by (simp add: logical_indices_def storage_indices_def grid_indices_def upt_rec)

lemma sample_board_valid [simp]: "i < 9 \<Longrightarrow> valid_at sample_board i"
  by (simp add: valid_at_def)

lemma sample_board_ok: "surface_ok sample_board"
  unfolding surface_ok_def surface_data_ok_def sample_board_walk
  by (simp add: grid_matches_def storage_indices_def point_ok_def is_finite3_def grid_indices_def upt_rec storage_of_def)

lemma sample_board_normalized:
  assumes "T = None \<or> T = Some \<lparr>rt_matrix = identity_matrix, rt_source_frame = ''cad'', rt_target_frame = ''cad''\<rparr>"
  shows "normalize_surface sample_board ''cad'' T = Inr sample_board"
proof -
  have p: "normalized_point (lit 1) T (Vec3 0 0 0) = Vec3 0 0 0" "normalized_normal T (Vec3 0 0 1) = Vec3 0 0 1"
    using assms by (auto simp: normalized_point_def normalized_normal_def RigidTransform_apply_def rotate_vector_def
      identity_matrix_def widen3_def Let_def fp_eval)
  have fits: "sample_fits (lit 1) T sample_board i" if "i < 9" for i
    using that p by (auto simp: sample_fits_def fits_float_def float_maximum_def fp_eval)
  have keep: "write_each g [0..<9] xs = xs" if "length xs = 9" "\<And>i. i < 9 \<Longrightarrow> g i = xs ! i" for g and xs :: "'a list"
    by (rule nth_equalityI) (use that in \<open>auto simp: nth_write_each\<close>)
  have narrowed: "narrow3 (Vec3 0 0 0) = Vec3 0 0 0" "narrow3 (Vec3 0 0 1) = Vec3 0 0 1"
    by (simp_all add: narrow3_def fp_eval)
  have "write_each (\<lambda>i. narrow3 (normalized_point (lit 1) T (sv_points sample_board ! i))) [0..<9] (sv_points sample_board) =
      sv_points sample_board"
    by (rule keep) (simp_all add: p narrowed)
  moreover have "write_each (\<lambda>i. narrow3 (normalized_normal T (sv_normals sample_board ! i))) [0..<9] (sv_normals sample_board) =
      sv_normals sample_board"
    by (rule keep) (simp_all add: p narrowed)
  ultimately have "normalized_surface (lit 1) T ''cad'' sample_board = sample_board"
    by (simp add: normalized_surface_def)
  then show ?thesis
    unfolding normalize_surface_Inr_iff [OF sample_board_ok] using fits assms
    by (auto simp: millimeters_per_unit_def frames_agree_def intro!: exI [of _ "lit 1"])
qed

text \<open>Preparation keeps the board and marks all but its middle as boundary.\<close>

definition board_prepared :: NormalBoundaryResult where
  "board_prepared = \<lparr>nb_surface = sample_board, nb_reasons = replicate 9 nr_none,
     nb_orientation_valid = replicate 9 0, nb_boundary = (replicate 9 1)[4 := 0], nb_orientation_proven = False\<rparr>"

lemma unit_normal: "normalized (Vec3 0 0 1) = Vec3 0 0 1" "0 < vector_length (Vec3 0 0 1)" "vector_length (Vec3 0 0 0) = 0"
  by (simp_all add: normalized_def vector_length_def dot3_def fp_eval Let_def)

lemma nine: "[0..<9] = [0, 1, 2, 3, 4, 5, 6, 7, 8]"
  by (simp add: upt_rec)

lemma board_given: "given_normals sample_board = (replicate 9 (Vec3 0 0 1), replicate 9 1)"
  by (simp add: given_normals_def nine unit_normal numeral_nat)

lemma board_oriented:
  "fold (orient_index sample_board \<lparr>oh_mode = unproven, oh_value = Vec3f_zero\<rparr> (replicate 9 1)) [0..<9]
     (orient_start sample_board (replicate 9 (Vec3 0 0 1))) =
   \<lparr>os_normals = replicate 9 (Vec3 0 0 1), os_mask = replicate 9 1, os_reasons = replicate 9 nr_none,
    os_orientation_valid = replicate 9 0, os_valid_count = 9, os_oriented_count = 0\<rparr>"
  by (simp add: nine orient_index_def orient_start_def oriented_def numeral_nat)

lemma board_edges: "detect_grid_boundaries sample_board \<lparr>grid_width = 3, grid_height = 3, grid_row_stride = 3\<rparr> 1 = (replicate 9 1)[4 := 0]"
proof -
  have "list_ex (edge_at sample_board \<lparr>grid_width = 3, grid_height = 3, grid_row_stride = 3\<rparr> 1 row column) grid_offsets \<longleftrightarrow>
      \<not> (row = 1 \<and> column = 1)" if "row < 3" "column < 3" for row column
  proof -
    have "row \<in> {0, 1, 2}" "column \<in> {0, 1, 2}" using that by auto
    then show ?thesis
      by (auto simp: grid_offsets_def edge_at_def valid_at_def sub3_def vector_length_def dot3_def fp_eval Let_def)
  qed
  note edge = this
  have "[0..<3] = [0, 1, 2]" by (simp add: upt_rec)
  then show ?thesis
    by (simp add: detect_grid_boundaries_def edge) (simp add: numeral_nat)
qed

lemma board_prepare: "prepare_surface sample_environment sample_config sample_board = Inr board_prepared"
proof -
  have "isfinite (1 :: f64)" "\<not> (1 :: f64) \<le> 0" by (simp_all add: fp_eval)
  then show ?thesis
    using Surface_create_same [OF sample_board_ok]
    by (simp add: prepare_surface_def prepare_normals_and_boundaries_def sample_environment_def sample_config_def
        board_given board_oriented board_edges board_prepared_def Let_def)
qed

lemma board_inputs:
  "prepare_inputs sample_environment sample_config sample_board sample_board None r =
     Inr (board_prepared, board_prepared, record_stage sample_environment stage_preprocess
       (record_stage sample_environment stage_normalize r))"
  using sample_board_normalized [of None] board_prepare by (simp add: prepare_inputs_def normalize_here_def)

definition board_pose :: RigidTransform where
  "board_pose = \<lparr>rt_matrix = identity_matrix, rt_source_frame = ''cad'', rt_target_frame = ''cad''\<rparr>"

definition board_cloud :: ValidatedCloud where
  "board_cloud = \<lparr>cl_points = replicate 9 (Vec3 0 0 0), cl_normals = replicate 9 (Vec3 0 0 1)\<rparr>"

lemma board_extracted: "extract_valid sample_board = board_cloud"
proof -
  have "valid_indices sample_board = [0..<9]" by (simp add: valid_indices_def)
  moreover have "normalized_d (widen3 (Vec3 0 0 1)) = Vec3 0 0 1" "widen3 (Vec3 0 0 0) = Vec3 0 0 0"
    by (simp_all add: normalized_d_def norm_d_def dot_d_def scale_by_def widen3_def Let_def fp_eval)
  ultimately show ?thesis
    by (simp add: extract_valid_def board_cloud_def nine numeral_nat)
qed

definition board_parameters :: RegistrationParameters where
  "board_parameters = to_registration_parameters (vc_registration sample_config) 1"

lemma board_parameters_valid: "valid_parameters board_parameters"
proof -
  have tiny: "isfinite (lit (1 / 1000) :: f64)" "0 < (lit (1 / 1000) :: f64)" "(lit (1 / 1000) :: f64) \<le> 1"
    by (rule small_literal [of 10]; simp)+
  have "positive_finite (lit (1 / 1000))" using tiny by (simp add: positive_finite_def)
  moreover have "positive_finite 1" by (simp add: positive_finite_def fp_eval)
  ultimately show ?thesis
    using tiny(3) by (simp add: valid_parameters_def board_parameters_def to_registration_parameters_def default_parameters_def
        sample_config_def)
qed

definition board_solver :: Prepared where
  "board_solver = \<lparr>pr_can_build_avx2 = False, pr_kernel = kernel_scalar, pr_parameters = board_parameters,
     pr_reference_cloud = board_cloud, pr_reference_covariances = []\<rparr>"

lemma board_parameters_fields [simp]:
  "rp_method board_parameters = point_to_plane" "rp_cpu_kernel board_parameters = kernel_automatic"
  "rp_thread_count board_parameters = 1" "rp_max_iterations board_parameters = 50"
  "rp_max_correspondence_distance_mm board_parameters = 1" "rp_rotation_epsilon_rad board_parameters = 1"
  "rp_translation_epsilon_mm board_parameters = 1"
  by (simp_all add: board_parameters_def to_registration_parameters_def default_parameters_def sample_config_def)

lemma board_solver_prepared:
  "prepare_registration lib None sample_board board_parameters n backend_cpu = Inr board_solver"
proof -
  have "\<not> norm_d (Vec3 0 0 1) < lit (1 / 2)" by (simp add: norm_d_def dot_d_def fp_eval)
  then show ?thesis
    by (simp add: prepare_registration_def Prepared_create_def Search_create_def checked_reference_def board_extracted
        board_solver_def CpuExecutor_create_def avx2_available_def board_cloud_def list_all_iff)
qed

definition board_context :: "nat \<Rightarrow> RegistrationContext" where
  "board_context capacity = Some \<lparr>cx_reference = sample_board, cx_parameters = board_parameters,
     cx_capacity = capacity, cx_actual_backend = backend_cpu, cx_prepared = board_solver\<rparr>"

lemma board_context_created:
  assumes "1 \<le> capacity" "capacity \<le> 100"
  shows "RegistrationContext_create lib None sample_board board_parameters capacity backend_cpu = Inr (board_context capacity)"
  unfolding RegistrationContext_create_Inr_iff Surface_create_same [OF sample_board_ok]
  using assms board_parameters_valid by (simp add: create_guards_def board_context_def board_solver_prepared)

lemma board_transformed:
  "transform_points False kernel_scalar board_cloud identity_matrix = replicate 9 (Vec3 0 0 0)"
  by (simp add: transform_points_eq board_cloud_def transform_point_def identity_matrix_def fp_eval)

lemma board_neighbors:
  "Search_query (sample_library [(0, 0)]) (map narrow3 (cl_points board_cloud)) (replicate 9 (Vec3 0 0 0)) 1 = Inr (replicate 9 0)"
proof -
  have n: "narrow3 (Vec3 0 0 0) = Vec3 0 0 0" by (simp add: narrow3_def fp_eval)
  have "map int [0..<9] = [0, 1, 2, 3, 4, 5, 6, 7, 8]" by (simp add: nine)
  then have "query_point (sample_library [(0, 0)]) (replicate 9 (Vec3 0 0 0)) 1 (Vec3 0 0 0) = 0"
    by (simp add: query_point_def sample_library_def better_candidate_def candidate_distance_def feq_def fp_eval)
  moreover have "is_finite3 (Vec3 0 0 0 :: Vec3f)" by (simp add: is_finite3_def)
  ultimately show ?thesis
    by (simp add: Search_query_def n board_cloud_def list_all_iff del: narrow3_simps)
qed

lemma one_block: "reduce_blocks f 9 = add_accumulation (fold f [0..<9] zero_accumulation) zero_accumulation"
  by (simp add: reduce_blocks_def blocks_def block_size_def block_range_def)

lemma count_pairs:
  assumes "\<And>i acc. i \<in> set js \<Longrightarrow> ac_count (f i acc) = Suc (ac_count acc)"
  shows "ac_count (fold f js acc) = ac_count acc + length js"
  using assms by (induction js arbitrary: acc) simp_all

lemma board_accepted: "i < 9 \<Longrightarrow> accepted board_cloud board_cloud i 0 identity_matrix"
  by (simp add: accepted_def board_cloud_def apply_direction_def identity_matrix_def dot_d_def fp_eval)

lemma board_iteration:
  "\<exists>st. icp_iteration (sample_library [(0, 0)]) board_solver board_cloud [] 0 (icp_start board_pose) = Inr (True, st) \<and>
     is_current st = identity_matrix \<and> is_completed st = 1 \<and> is_converged st \<and> \<not> is_degenerate st"
proof -
  let ?lib = "sample_library [(0, 0)]"
  let ?f = "accumulate_pair ?lib board_solver board_cloud [] identity_matrix (replicate 9 (Vec3 0 0 0)) (replicate 9 0)"
  have "ac_count (?f i acc) = Suc (ac_count acc)" if "i \<in> set [0..<9]" for i acc
    using that board_accepted [of i] by (simp add: accumulate_pair_def board_solver_def Let_def)
  then have "ac_count (fold ?f [0..<9] zero_accumulation) = ac_count zero_accumulation + length [0..<9]"
    by (rule count_pairs)
  then have count: "ac_count (reduce_blocks ?f 9) = 9"
    by (simp add: one_block add_accumulation_def zero_accumulation_def)
  have eval: "evaluate_iteration ?lib board_solver board_cloud [] identity_matrix = Inr (reduce_blocks ?f 9)"
    using board_transformed board_neighbors by (simp add: evaluate_iteration_def board_solver_def Let_def)
  have "0 < (lit (1 / 10 ^ 12) :: f64)" by (rule small_literal [of 40]) simp_all
  moreover have "norm_d (Vec3 0 0 0) = 0" by (simp add: norm_d_def dot_d_def fp_eval)
  ultimately have angle: "norm_d (Vec3 0 0 0) < lit (1 / 10 ^ 12)" by simp
  have delta: "multiply (delta_from_twist ?lib (Vec3 0 0 0) (Vec3 0 0 0)) identity_matrix = identity_matrix"
    unfolding delta_from_twist_def Let_def if_P [OF angle]
    by (simp add: multiply_def identity_matrix_def upt_rec fp_eval)
  have solve: "lib_solve ?lib m g = [0, 0, 0, 0, 0, 0]" for m g by (simp add: sample_library_def numeral_nat)
  have small: "norm_d (Vec3 0 0 0) < 1" by (simp add: norm_d_def dot_d_def fp_eval)
  have "pr_parameters board_solver = board_parameters" by (simp add: board_solver_def)
  then show ?thesis
    by (simp add: icp_iteration_def icp_start_def board_pose_def eval icp_decide_def count Let_def
        icp_update_def solve delta small)
qed

definition board_metrics :: RegistrationMetrics where
  "board_metrics = \<lparr>rm_final_transform = board_pose, rm_convergence = converged, rm_iterations = 1,
     rm_valid_pairs = 9, rm_fitness = 1, rm_inlier_rmse_mm = 0, rm_translation_delta_mm = 0,
     rm_rotation_delta_deg = 0\<rparr>"

lemma board_measured:
  "reduce_blocks (measure_pair board_solver board_cloud identity_matrix (replicate 9 (Vec3 0 0 0)) (replicate 9 0)) 9 =
     \<lparr>ac_matrix = replicate 36 0, ac_gradient = replicate 6 0, ac_residual = 0, ac_count = 9\<rparr>"
proof -
  let ?f = "measure_pair board_solver board_cloud identity_matrix (replicate 9 (Vec3 0 0 0)) (replicate 9 0)"
  have zero: "dot_d (Vec3 0 0 1) (subtract3 (Vec3 0 0 0) (Vec3 0 0 0)) = 0" "(0 :: f64) + 0 * 0 = 0" "(0 :: f64) + 0 = 0"
    by (simp_all add: dot_d_def subtract3_def fp_eval)
  have step: "?f i acc = acc\<lparr>ac_residual := ac_residual acc + 0 * 0, ac_count := Suc (ac_count acc)\<rparr>" if "i < 9" for i acc
    using that board_accepted [OF that] zero by (simp add: measure_pair_def board_solver_def board_cloud_def)
  have "fold ?f [0..<9] zero_accumulation =
      \<lparr>ac_matrix = replicate 36 0, ac_gradient = replicate 6 0, ac_residual = 0, ac_count = 9\<rparr>"
    unfolding nine by (simp add: step zero_accumulation_def zero)
  then show ?thesis
    by (simp add: one_block zero_accumulation_def add_accumulation_def zero)
qed

lemma board_final:
  assumes "is_converged st" "\<not> is_degenerate st" "is_completed st = 1"
  shows "final_metrics (sample_library [(0, 0)]) board_solver board_cloud board_pose board_pose st = Inr (Inr board_metrics)"
proof -
  have rel: "multiply identity_matrix (inverse_rigid identity_matrix) = identity_matrix"
    by (simp add: multiply_def inverse_rigid_def identity_matrix_def upt_rec fp_eval)
  have "RegistrationMetrics_create board_pose converged 1 9 1 0 0 0 = Inr board_metrics"
    by (simp add: metrics_create_Inr finite_nonnegative_def board_metrics_def fp_eval)
  moreover have "norm_d (Vec3 0 0 0) = 0" by (simp add: norm_d_def dot_d_def fp_eval)
  moreover have "of_count 9 / of_count 9 = (1 :: f64)" "fp_sqrt (0 / of_count 9) = (0 :: f64)" "0 * lit 180 = (0 :: f64)"
    by (simp_all add: fp_eval)
  moreover have "pr_kernel board_solver = kernel_scalar" "\<not> pr_can_build_avx2 board_solver"
    "pr_reference_cloud board_solver = board_cloud" "pr_parameters board_solver = board_parameters"
    "length (cl_points board_cloud) = 9"
    by (simp_all add: board_solver_def board_cloud_def)
  moreover have "identity_matrix ! 3 = 0" "identity_matrix ! 7 = 0" "identity_matrix ! 11 = 0"
    by (simp_all add: identity_matrix_def)
  ultimately show ?thesis
    using board_transformed board_neighbors board_measured rel zero_over_pi assms
    by (simp add: final_metrics_def metrics_result_def Let_def board_pose_def icp_convergence_def sample_library_def)
qed

lemma board_solved: "Prepared_align (sample_library [(0, 0)]) board_solver sample_board board_pose = Inr board_metrics"
proof -
  obtain st where st: "icp_iteration (sample_library [(0, 0)]) board_solver board_cloud [] 0 (icp_start board_pose) = Inr (True, st)"
    "is_current st = identity_matrix" "is_completed st = 1" "is_converged st" "\<not> is_degenerate st"
    using board_iteration by blast
  have "icp_loop (sample_library [(0, 0)]) board_solver board_cloud [] 50 0 (icp_start board_pose) = Inr st"
    using st(1) by (simp add: eval_nat_numeral)
  moreover have "pr_parameters board_solver = board_parameters" "cl_points board_cloud \<noteq> []"
    by (simp_all add: board_solver_def board_cloud_def)
  moreover have "RigidTransform_create identity_matrix ''cad'' ''cad'' (lit (1 / 10 ^ 6)) = Inr board_pose"
    unfolding board_pose_def by (intro identity_transform_create small_literal [of 20]) simp_all
  moreover have "rt_source_frame board_pose = ''cad''" "rt_target_frame board_pose = ''cad''" by (simp_all add: board_pose_def)
  ultimately show ?thesis
    using board_final [OF st(4,5,3)] st(2) sample_orthonormal
    by (simp add: Prepared_align_def caught_def align_impl_def board_extracted)
qed

lemma board_nearest:
  "nearest_neighbors (\<lambda>_ _. Some (4, 0)) sample_board sample_board 1 1 =
     Inr \<lparr>nn_neighbor_index = replicate 9 4, nn_distance_mm = replicate 9 0\<rparr>"
proof -
  have valid: "valid_indices sample_board = [0..<9]" by (simp add: valid_indices_def)
  have "fp_sqrt (0 :: f32) = 0" "\<not> narrow (1 * 1 :: f64) < 0" by (simp_all add: fp_eval)
  then have q: "query_one (\<lambda>_ _. Some (4, 0)) sample_board sample_board (narrow (1 * 1)) i = Some (4, 0)" if "i < 9" for i
    using that by (simp add: query_one_def valid)
  have at: "query_index sample_board l = l" for l by (simp add: query_index_def)
  show ?thesis
    by (simp add: nearest_neighbors_def valid with_executor_def store_neighbor_def at nine q) (simp add: numeral_nat)
qed

definition board_deviations :: DeviationField where
  "board_deviations = \<lparr>df_samples = replicate 9 \<lparr>ds_euclidean_mm = 0, ds_signed_mm = 0, ds_normal_angle_deg = 0,
     ds_reason = dr_valid\<rparr>, df_valid_count = 9\<rparr>"

definition board_coverage :: CoverageField where
  "board_coverage = \<lparr>cf_samples = replicate 9 \<lparr>cs_distance_mm = 0, cs_reason = cr_covered\<rparr>,
     cf_covered_count = 9, cf_valid_count = 9\<rparr>"

lemma board_deviation_field:
  "compute_deviation_field \<lparr>tr_cos = (\<lambda>_. 0), tr_acos = (\<lambda>_. 0)\<rparr> (\<lambda>_ _. Some (4, 0)) sample_board
     ((replicate 9 1)[4 := 0]) sample_board (vc_comparison sample_config) 1 = Inr board_deviations"
proof -
  let ?n = "Vec3 0 0 1 :: Vec3f" and ?z = "Vec3 0 0 0 :: Vec3f"
  have v: "vector_length ?n = 1" "isfinite (1 :: f64)" "(0 :: f64) < 1" "dot3 ?n (sub3 ?z ?z) / 1 = 0" "widen (0 :: f32) = (0 :: f64)"
    "\<not> std_clamp (dot3 ?n ?n / (1 * 1)) (lit (- 1)) (lit 1) < (0 :: f64)" "0 * lit 180 / pi_double = (0 :: f64)"
    using zero_over_pi by (simp_all add: vector_length_def dot3_def sub3_def) (simp_all add: fp_eval)
  have "compute_deviation_sample \<lparr>tr_cos = (\<lambda>_. 0), tr_acos = (\<lambda>_. 0)\<rparr> sample_board ((replicate 9 1)[4 := 0])
      sample_board 0 \<lparr>nn_neighbor_index = replicate 9 4, nn_distance_mm = replicate 9 0\<rparr> i =
      \<lparr>ds_euclidean_mm = 0, ds_signed_mm = 0, ds_normal_angle_deg = 0, ds_reason = dr_valid\<rparr>" if "i < 9" for i
    using that v by (simp add: compute_deviation_sample_def is_negative_def)
  then show ?thesis
    by (simp add: compute_deviation_field_def sample_config_def board_nearest nine store_sample_def board_deviations_def)
       (simp add: numeral_nat)
qed

lemma board_coverage_field:
  "compute_coverage_field (\<lambda>_ _. Some (4, 0)) sample_board sample_board ((replicate 9 1)[4 := 0])
     (vc_comparison sample_config) 1 = Inr board_coverage"
proof -
  have "widen (0 :: f32) = (0 :: f64)" by (simp add: fp_eval)
  then have "compute_coverage_sample sample_board ((replicate 9 1)[4 := 0])
      \<lparr>nn_neighbor_index = replicate 9 4, nn_distance_mm = replicate 9 0\<rparr> i =
      \<lparr>cs_distance_mm = 0, cs_reason = cr_covered\<rparr>" if "i < 9" for i
    using that by (simp add: compute_coverage_sample_def is_negative_def)
  then show ?thesis
    by (simp add: compute_coverage_field_def sample_config_def board_nearest nine store_coverage_def board_coverage_def)
       (simp add: numeral_nat)
qed

lemma board_no_clusters:
  "cluster_deviation_defects search order sample_board board_deviations (vc_detection sample_config) = Some (Inr [])"
  "cluster_missing_material search order sample_board board_coverage (vc_detection sample_config) = Some (Inr [])"
proof -
  have "\<not> (1 :: f64) < 0" "\<not> (0 :: f64) < Num (- 1)" by (simp_all add: fp_eval)
  then have "deviation_candidates board_deviations 1 True = []" "deviation_candidates board_deviations (Num (- 1)) False = []"
    "missing_candidates board_coverage = []"
    by (simp_all add: deviation_candidates_def missing_candidates_def board_deviations_def board_coverage_def filter_empty_conv)
  then show "cluster_deviation_defects search order sample_board board_deviations (vc_detection sample_config) = Some (Inr [])"
    "cluster_missing_material search order sample_board board_coverage (vc_detection sample_config) = Some (Inr [])"
    by (simp_all add: cluster_deviation_defects_def cluster_missing_material_def cluster_class_def cluster_candidates_def
        sample_config_def) (simp_all add: board_deviations_def board_coverage_def)
qed

lemma board_statistics: "st_valid_count (summarize_deviation board_deviations) = 9"
  "sm_coverage_ratio (summarize_coverage board_coverage) = 1"
proof -
  show "st_valid_count (summarize_deviation board_deviations) = 9"
    using summarize_counts(1) [of board_deviations] by (simp add: board_deviations_def count_reason_def)
  show "sm_coverage_ratio (summarize_coverage board_coverage) = 1"
    unfolding summarize_coverage_def count_coverage_fold(3)
    by (simp add: coverage_ratio_def board_coverage_def fp_eval)
qed

lemma board_registered:
  "\<exists>r'. run_registration sample_environment sample_config \<lparr>rq_initial_pose = None, rq_run_id = []\<rparr> sample_board
     sample_board None r = Inr (board_metrics, r') \<and> rr_actual_backend (ir_registration r') = backend_cpu"
proof -
  have pose: "RigidTransform_create identity_matrix ''cad'' ''cad'' default_tolerance = Inr board_pose"
    unfolding board_pose_def default_tolerance_def
    by (intro identity_transform_create small_literal [of 40]) simp_all
  have input: "\<exists>i. RegistrationInput_create sample_board sample_board board_pose board_parameters = Inr i"
    by (simp add: RegistrationInput_create_def validate_parameters_iff [THEN iffD2] board_parameters_valid board_pose_def)
  have "RegistrationContext_align (sample_library [(0, 0)]) (board_context 9) sample_board board_pose = Inr board_metrics"
    using input Surface_create_same [OF sample_board_ok] board_solved
    by (auto simp: RegistrationContext_align_def board_context_def)
  moreover have "RegistrationContext_create (sample_library [(0, 0)]) None sample_board board_parameters 9 backend_cpu =
      Inr (board_context 9)" by (rule board_context_created) simp_all
  moreover have "to_registration_parameters (vc_registration sample_config) (vec_thread_count (vc_execution sample_config)) =
      board_parameters" "vec_backend (vc_execution sample_config) = backend_cpu"
    by (simp_all add: board_parameters_def sample_config_def)
  moreover have "RegistrationContext_backend (board_context 9) = backend_cpu"
    by (simp add: RegistrationContext_backend_def board_context_def)
  ultimately show ?thesis
    using pose by (simp add: run_registration_def choose_pose_def sample_environment_def record_stage_def)
qed

lemma board_run:
  "\<exists>out. InspectionPipeline_run sample_environment sample_config sample_board sample_board
     \<lparr>rq_initial_pose = None, rq_run_id = []\<rparr> = Some (Inr out) \<and> ir_verdict out = verdict_pass"
proof -
  let ?request = "\<lparr>rq_initial_pose = None, rq_run_id = []\<rparr>"
  obtain r where r: "run_registration sample_environment sample_config ?request sample_board sample_board None
      (record_stage sample_environment stage_preprocess (record_stage sample_environment stage_normalize
        (initial_result sample_environment sample_config ?request))) = Inr (board_metrics, r)"
    using board_registered by blast
  have gate: "\<exists>g. evaluate_gate board_metrics (vc_registration_gate sample_config) = Inr g \<and> rg_passed g"
    by (simp add: evaluate_gate_def board_metrics_def sample_config_def fp_eval)
  have aligned: "normalize_surface sample_board ''cad'' (Some (rm_final_transform board_metrics)) = Inr sample_board"
    by (rule sample_board_normalized) (simp add: board_metrics_def board_pose_def)
  have compared: "\<exists>d. run_comparison sample_environment sample_config board_prepared board_prepared sample_board r' =
      Inr (board_deviations, board_coverage, summarize_coverage board_coverage, report_comparison d
        (summarize_coverage board_coverage) (record_stage sample_environment stage_compare r')) \<and> st_valid_count d = 9" for r'
  proof -
    have "en_trig sample_environment = \<lparr>tr_cos = (\<lambda>_. 0), tr_acos = (\<lambda>_. 0)\<rparr>"
      "en_nearest sample_environment = (\<lambda>_ _. Some (4, 0))" "vec_thread_count (vc_execution sample_config) = 1"
      by (simp_all add: sample_environment_def sample_config_def)
    then show ?thesis
      using board_deviation_field board_coverage_field board_statistics(1)
      by (auto simp: run_comparison_def board_prepared_def Let_def)
  qed
  have detected: "run_detection sample_environment sample_config sample_board sample_board board_deviations board_coverage r' =
      Some (Inr (False, record_stage sample_environment stage_detect r'))" for r'
    by (simp add: run_detection_def board_no_clusters)
  have covered: "\<not> coverage_failed sample_config (summarize_coverage board_coverage)"
    unfolding coverage_failed_def board_statistics(2) by (simp add: sample_config_def fp_eval)
  have "\<exists>out. inspect_aligned sample_environment sample_config board_prepared board_prepared board_metrics r' = Some (Inr out) \<and>
      ir_verdict out = verdict_pass" for r'
  proof -
    obtain d where d: "run_comparison sample_environment sample_config board_prepared board_prepared sample_board
        (record_stage sample_environment stage_transform r') = Inr (board_deviations, board_coverage,
          summarize_coverage board_coverage, report_comparison d (summarize_coverage board_coverage)
          (record_stage sample_environment stage_compare (record_stage sample_environment stage_transform r')))"
      "st_valid_count d = 9" using compared by blast
    have "nb_surface board_prepared = sample_board" by (simp add: board_prepared_def)
    then show ?thesis
      using aligned d detected covered
      by (simp add: inspect_aligned_def finalize_def report_facts) (simp add: report_comparison_def)
  qed
  then show ?thesis
    using r gate board_inputs by (auto simp: InspectionPipeline_run_def run_impl_def board_prepared_def Let_def)
qed

text \<open>The request of the run, without initial pose.\<close>

definition board_request :: InspectionRequest where
  "board_request = \<lparr>rq_initial_pose = None, rq_run_id = []\<rparr>"

lemma board_passes:
  "\<exists>out. run_impl sample_environment sample_config sample_board sample_board board_request None None =
     Some (Inr out) \<and> ir_verdict out = verdict_pass"
  using board_run by (simp add: InspectionPipeline_run_def board_request_def)

theorem verdict_from_report_witness:
  "\<exists>out. run_impl sample_environment sample_config sample_board sample_board board_request None None =
     Some (Inr out) \<and> verdict_of out = verdict_pass"
  using board_passes verdict_from_report by metis

theorem pass_requires_evidence_witness:
  "\<exists>out. run_impl sample_environment sample_config sample_board sample_board board_request None None =
     Some (Inr out) \<and> rr_converged (ir_registration out) \<and> 0 < rd_valid_count (ir_deviations out)"
  using board_passes pass_requires_evidence by metis

theorem timings_name_stages_witness:
  "\<exists>out. run_impl sample_environment sample_config sample_board sample_board board_request None None =
     Some (Inr out) \<and> last (stages out) = stage_detect"
proof -
  obtain out where out: "run_impl sample_environment sample_config sample_board sample_board board_request None None =
      Some (Inr out)" "ir_verdict out = verdict_pass" using board_passes by blast
  have "\<not> has_code registration_failed out"
    using out(1)
  proof (cases rule: run_impl_cases)
    case rejected
    then show ?thesis using out(2) rejected_report by (simp add: verdict_of_def)
  next
    case (inspected metrics gate r rp sp)
    then show ?thesis using inspect_aligned_report [OF inspected(5) undecided_record [OF inspected(3)]] by blast
  qed
  then show ?thesis using timings_name_stages [OF out(1)] out(1) by auto
qed

theorem inspection_returns_witness:
  "\<exists>result. InspectionPipeline_run sample_environment sample_config sample_board sample_board board_request = Some result"
  by (rule inspection_returns) (simp_all add: sample_environment_def whole_cloud_in_range sample_board_ok)

lemma board_inspection_context:
  "InspectionContext_create sample_environment (raw_config sample_config) sample_board 20 =
     Inr (Some \<lparr>ci_config = sample_config, ci_reference = board_prepared, ci_registration = board_context 20,
       ci_capacity = 20\<rparr>)"
proof -
  have fields: "vec_backend (vc_execution sample_config) = backend_cpu" "en_cpu sample_environment = None"
    "to_registration_parameters (vc_registration sample_config) (vec_thread_count (vc_execution sample_config)) = board_parameters"
    by (simp_all add: board_parameters_def sample_config_def sample_environment_def)
  have "nb_surface board_prepared = sample_board" by (simp add: board_prepared_def)
  then show ?thesis
    using sample_board_normalized [of None] board_prepare config_valid_Inr [OF sample_config_valid]
    by (simp add: InspectionContext_create_def normalize_here_def fields board_context_created)
qed

theorem context_refines_pipeline_witness:
  "\<exists>ctx out. InspectionContext_create sample_environment (raw_config sample_config) sample_board 20 = Inr ctx \<and>
     InspectionContext_run sample_environment ctx sample_board board_request = Some (Inr out) \<and>
     ir_verdict out = verdict_pass"
proof -
  have "sv_size sample_board \<noteq> 0" "unat (sv_size sample_board) \<le> 20" by simp_all
  note context_refines_pipeline [OF board_inspection_context config_valid_Inr [OF sample_config_valid]
      sample_board_ok sample_board_ok this, of board_request]
  then show ?thesis using board_inspection_context board_passes by (simp add: InspectionPipeline_run_def)
qed

end
