(* ===== verification/Voxel.thy ===== *)
theory Voxel
  imports Comparison
begin

text \<open>
  \<open>preprocess/voxel_sampling.cpp\<close>: the valid points are grouped by the cell of a cubic grid they
  fall into, and each cell yields one averaged sample together with the indices it came from. The
  \<open>std::map\<close> from cells to accumulators is the list of its entries in key order.
\<close>

subsection \<open>Cell keys\<close>

datatype VoxelKey = VoxelKey (key_x: int) (key_y: int) (key_z: int)

text \<open>\<open>operator<\<close>: lexicographic, by \<open>std::tie\<close>.\<close>

instantiation VoxelKey :: linorder
begin

definition less_VoxelKey :: "VoxelKey \<Rightarrow> VoxelKey \<Rightarrow> bool" where
  "less_VoxelKey l r \<longleftrightarrow> key_x l < key_x r \<or> key_x l = key_x r \<and>
     (key_y l < key_y r \<or> key_y l = key_y r \<and> key_z l < key_z r)"

definition less_eq_VoxelKey :: "VoxelKey \<Rightarrow> VoxelKey \<Rightarrow> bool" where
  "less_eq_VoxelKey l r \<longleftrightarrow> l < r \<or> l = r"

instance
proof
  fix a b c :: VoxelKey
  show "a < b \<longleftrightarrow> a \<le> b \<and> \<not> b \<le> a" by (auto simp: less_eq_VoxelKey_def less_VoxelKey_def)
  show "a \<le> a" by (simp add: less_eq_VoxelKey_def)
  show "a \<le> b \<Longrightarrow> b \<le> c \<Longrightarrow> a \<le> c" by (auto simp: less_eq_VoxelKey_def less_VoxelKey_def)
  show "a \<le> b \<Longrightarrow> b \<le> a \<Longrightarrow> a = b" by (auto simp: less_eq_VoxelKey_def less_VoxelKey_def)
  show "a \<le> b \<or> b \<le> a"
    by (cases a; cases b) (auto simp: less_eq_VoxelKey_def less_VoxelKey_def)
qed

end

definition sampling_error :: "ErrorCode \<Rightarrow> string \<Rightarrow> string \<Rightarrow> Error" where
  "sampling_error code = field_error code stage_preprocess ''voxel sampling failed''"

definition coordinate_key :: "f32 \<Rightarrow> f64 \<Rightarrow> int Result" where
  "coordinate_key coordinate voxel_size_mm =
     (let v = fp_floor (widen coordinate / voxel_size_mm); bound = Num (2 ^ 63) in
      require (\<not> (\<not> isfinite v \<or> v < - bound \<or> bound \<le> v))
        (sampling_error invalid_input ''surface.points'' ''coordinate produces an invalid voxel key'')
        (Inr \<lfloor>val v\<rfloor>))"

definition voxel_key :: "f64 \<Rightarrow> Vec3f \<Rightarrow> VoxelKey Result" where
  "voxel_key voxel_size_mm p =
     rbind (coordinate_key (vx p) voxel_size_mm) (\<lambda>x.
     rbind (coordinate_key (vy p) voxel_size_mm) (\<lambda>y.
     rbind (coordinate_key (vz p) voxel_size_mm) (\<lambda>z. Inr (VoxelKey x y z))))"

subsection \<open>Accumulation\<close>

record Accumulator =
  vac_point_sum :: Vec3d
  vac_normal_sum :: Vec3d
  vac_source_indices :: "nat list"

definition empty_accumulator :: Accumulator where
  "empty_accumulator = \<lparr>vac_point_sum = Vec3d_zero, vac_normal_sum = Vec3d_zero, vac_source_indices = []\<rparr>"

definition plus_widened :: "Vec3d \<Rightarrow> Vec3f \<Rightarrow> Vec3d" where
  "plus_widened acc p = Vec3 (vx acc + widen (vx p)) (vy acc + widen (vy p)) (vz acc + widen (vz p))"

definition accumulate_point :: "Surface \<Rightarrow> nat \<Rightarrow> Accumulator \<Rightarrow> Accumulator" where
  "accumulate_point s index a = \<lparr>vac_point_sum = plus_widened (vac_point_sum a) (sv_points s ! index),
     vac_normal_sum = (if sv_normals s \<noteq> [] then plus_widened (vac_normal_sum a) (sv_normals s ! index)
       else vac_normal_sum a),
     vac_source_indices = vac_source_indices a @ [index]\<rparr>"

text \<open>\<open>voxels[key]\<close>, updated; a missing key is inserted at its place.\<close>

fun update_voxel ::
  "VoxelKey \<Rightarrow> (Accumulator \<Rightarrow> Accumulator) \<Rightarrow> (VoxelKey \<times> Accumulator) list \<Rightarrow> (VoxelKey \<times> Accumulator) list" where
  "update_voxel k f [] = [(k, f empty_accumulator)]"
| "update_voxel k f ((l, a) # voxels) =
     (if k < l then (k, f empty_accumulator) # (l, a) # voxels
      else if k = l then (l, f a) # voxels else (l, a) # update_voxel k f voxels)"

text \<open>The lambda of the loop; the flag \<open>key_error\<close> makes it stop at the first failing key.\<close>

definition collect_voxel ::
  "Surface \<Rightarrow> f64 \<Rightarrow> (VoxelKey \<times> Accumulator) list \<Rightarrow> nat \<Rightarrow> (VoxelKey \<times> Accumulator) list Result" where
  "collect_voxel s voxel_size_mm voxels index =
     (if sv_valid s \<noteq> [] \<and> sv_valid s ! index = 0 then Inr voxels
      else rbind (voxel_key voxel_size_mm (sv_points s ! index)) (\<lambda>k.
        Inr (update_voxel k (accumulate_point s index) voxels)))"

subsection \<open>Sampling\<close>

record VoxelSampleResult =
  vsr_surface :: Surface
  vsr_source_offsets :: "nat list"
  vsr_source_indices :: "nat list"

definition sources_for :: "VoxelSampleResult \<Rightarrow> nat \<Rightarrow> nat list" where
  "sources_for r k = (let first = vsr_source_offsets r ! k; past = vsr_source_offsets r ! (k + 1) in
     take (past - first) (drop first (vsr_source_indices r)))"

definition mean_point :: "Accumulator \<Rightarrow> Vec3f" where
  "mean_point a = (let n = of_count (length (vac_source_indices a)); p = vac_point_sum a in
     Vec3 (narrow (vx p / n)) (narrow (vy p / n)) (narrow (vz p / n)))"

definition mean_normal :: "Accumulator \<Rightarrow> Vec3f" where
  "mean_normal a = (let n = vac_normal_sum a; len = fp_sqrt (vx n * vx n + vy n * vy n + vz n * vz n) in
     if 0 < len \<and> isfinite len
     then Vec3 (narrow (vx n / len)) (narrow (vy n / len)) (narrow (vz n / len)) else Vec3f_zero)"

text \<open>The body of the output loop.\<close>

record VoxelOutput =
  vo_points :: "Vec3f list"
  vo_normals :: "Vec3f list"
  vo_source_offsets :: "nat list"
  vo_source_indices :: "nat list"

definition emit_voxel :: "Surface \<Rightarrow> VoxelKey \<times> Accumulator \<Rightarrow> VoxelOutput \<Rightarrow> VoxelOutput" where
  "emit_voxel s entry out =
     (let a = snd entry; indices = vo_source_indices out @ vac_source_indices a in
      \<lparr>vo_points = vo_points out @ [mean_point a],
       vo_normals = (if sv_normals s \<noteq> [] then vo_normals out @ [mean_normal a] else vo_normals out),
       vo_source_offsets = vo_source_offsets out @ [length indices], vo_source_indices = indices\<rparr>)"

definition voxel_sample :: "Surface \<Rightarrow> f64 \<Rightarrow> VoxelSampleResult Result" where
  "voxel_sample s voxel_size_mm =
     require (sv_unit s = millimeter)
       (sampling_error invalid_input ''surface.unit'' ''must be normalized to millimetres'') (
     require (\<not> (\<not> isfinite voxel_size_mm \<or> voxel_size_mm \<le> 0))
       (sampling_error invalid_argument ''voxel_size_mm'' ''must be finite and positive'') (
     rbind (foldM (collect_voxel s voxel_size_mm) (logical_indices s) []) (\<lambda>voxels.
     require (voxels \<noteq> [])
       (sampling_error invalid_input ''surface.valid'' ''must contain at least one valid sample'') (
     let out = fold (emit_voxel s) voxels
           \<lparr>vo_points = [], vo_normals = [], vo_source_offsets = [0], vo_source_indices = []\<rparr> in
     rbind (Surface_create (vo_points out) (vo_normals out) [] None millimeter (sv_frame s)) (\<lambda>sampled.
     Inr \<lparr>vsr_surface = sampled, vsr_source_offsets = vo_source_offsets out,
          vsr_source_indices = vo_source_indices out\<rparr>)))))"

subsection \<open>The map of cells\<close>

definition skipped :: "Surface \<Rightarrow> nat \<Rightarrow> bool" where
  "skipped s i \<longleftrightarrow> sv_valid s \<noteq> [] \<and> sv_valid s ! i = 0"

definition cell_sources :: "(VoxelKey \<times> Accumulator) list \<Rightarrow> VoxelKey \<Rightarrow> nat list" where
  "cell_sources voxels k = (case map_of voxels k of None \<Rightarrow> [] | Some a \<Rightarrow> vac_source_indices a)"

text \<open>The sum of the points at \<open>is\<close>, in that order, and the sample it averages to.\<close>

definition point_sum :: "Surface \<Rightarrow> nat list \<Rightarrow> Vec3d" where
  "point_sum s is = fold (\<lambda>i t. plus_widened t (sv_points s ! i)) is Vec3d_zero"

definition average_point :: "Surface \<Rightarrow> nat list \<Rightarrow> Vec3f" where
  "average_point s is = (let t = point_sum s is; n = of_count (length is) in
     Vec3 (narrow (vx t / n)) (narrow (vy t / n)) (narrow (vz t / n)))"

definition cell_ok :: "Surface \<Rightarrow> Accumulator \<Rightarrow> bool" where
  "cell_ok s a \<longleftrightarrow> vac_source_indices a \<noteq> [] \<and> vac_point_sum a = point_sum s (vac_source_indices a)"

definition cells_ok :: "Surface \<Rightarrow> (VoxelKey \<times> Accumulator) list \<Rightarrow> bool" where
  "cells_ok s voxels \<longleftrightarrow> sorted_wrt (<) (map fst voxels) \<and> (\<forall>e \<in> set voxels. cell_ok s (snd e))"

lemma cell_ok_mean: "cell_ok s a \<Longrightarrow> mean_point a = average_point s (vac_source_indices a)"
  by (simp add: cell_ok_def mean_point_def average_point_def Let_def)

lemma update_voxel_keys: "set (map fst (update_voxel k f voxels)) = insert k (set (map fst voxels))"
  by (induction k f voxels rule: update_voxel.induct) auto

lemma map_of_update_voxel:
  "sorted_wrt (<) (map fst voxels) \<Longrightarrow> map_of (update_voxel k f voxels) =
     (map_of voxels)(k \<mapsto> f (case map_of voxels k of None \<Rightarrow> empty_accumulator | Some a \<Rightarrow> a))"
proof (induction k f voxels rule: update_voxel.induct)
  case (2 k f l a voxels)
  have "k \<notin> fst ` set voxels" if "k < l" using 2 that by fastforce
  then have "map_of voxels k = None" if "k < l" using that by (simp add: map_of_eq_None_iff)
  then show ?case using 2 by (auto simp: fun_eq_iff)
qed (simp add: fun_eq_iff)

lemma sorted_update_voxel:
  "sorted_wrt (<) (map fst voxels) \<Longrightarrow> sorted_wrt (<) (map fst (update_voxel k f voxels))"
proof (induction k f voxels rule: update_voxel.induct)
  case (2 k f l a voxels)
  show ?case
  proof (cases "k < l \<or> k = l")
    case True
    then show ?thesis using 2 by fastforce
  next
    case False
    then have "l < k" using linorder_less_linear [of k l] by blast
    moreover have "sorted_wrt (<) (map fst (update_voxel k f voxels))" using 2 False by simp
    moreover have "\<forall>x \<in> set (map fst (update_voxel k f voxels)). l < x"
      unfolding update_voxel_keys using 2(2) \<open>l < k\<close> by auto
    ultimately show ?thesis using False by simp
  qed
qed simp

lemma cell_ok_accumulate:
  "cell_ok s a \<Longrightarrow> cell_ok s (accumulate_point s i a)" "cell_ok s (accumulate_point s i empty_accumulator)"
  by (simp_all add: cell_ok_def accumulate_point_def point_sum_def empty_accumulator_def)

lemma cells_ok_update:
  assumes "cells_ok s voxels"
  shows "cells_ok s (update_voxel k (accumulate_point s i) voxels)"
proof -
  have "\<forall>e \<in> set (update_voxel k (accumulate_point s i) voxels). cell_ok s (snd e)"
    using assms cell_ok_accumulate unfolding cells_ok_def
    by (induction k "accumulate_point s i" voxels rule: update_voxel.induct) auto
  then show ?thesis using assms sorted_update_voxel unfolding cells_ok_def by blast
qed

lemma cell_sources_update:
  assumes "cells_ok s voxels"
  shows "cell_sources (update_voxel k (accumulate_point s i) voxels) l =
    cell_sources voxels l @ (if l = k then [i] else [])"
  using assms map_of_update_voxel [of voxels k "accumulate_point s i"]
  by (auto simp: cell_sources_def cells_ok_def accumulate_point_def empty_accumulator_def split: option.splits)

lemma collect_voxel_cases:
  "skipped s i \<Longrightarrow> collect_voxel s v voxels i = Inr voxels"
  "\<not> skipped s i \<Longrightarrow> collect_voxel s v voxels i =
     rbind (voxel_key v (sv_points s ! i)) (\<lambda>k. Inr (update_voxel k (accumulate_point s i) voxels))"
  by (auto simp: collect_voxel_def skipped_def)

lemma collect_voxels:
  assumes "foldM (collect_voxel s v) js voxels = Inr result" "cells_ok s voxels"
  shows "cells_ok s result \<and>
    (\<forall>k. cell_sources result k = cell_sources voxels k @
       filter (\<lambda>i. \<not> skipped s i \<and> voxel_key v (sv_points s ! i) = Inr k) js) \<and>
    (\<forall>i \<in> set js. \<not> skipped s i \<longrightarrow> (\<exists>k. voxel_key v (sv_points s ! i) = Inr k))"
  using assms
proof (induction js arbitrary: voxels)
  case (Cons j js)
  show ?case
  proof (cases "skipped s j")
    case True
    then have "foldM (collect_voxel s v) js voxels = Inr result"
      using Cons.prems(1) by (simp add: collect_voxel_cases)
    from Cons.IH [OF this Cons.prems(2)] True show ?thesis by simp
  next
    case False
    then obtain k where k: "voxel_key v (sv_points s ! j) = Inr k"
      and r: "foldM (collect_voxel s v) js (update_voxel k (accumulate_point s j) voxels) = Inr result"
      using Cons.prems(1) by (auto simp: collect_voxel_cases rbind_Inr_iff)
    from Cons.IH [OF r cells_ok_update [OF Cons.prems(2)]] show ?thesis
      using False k cell_sources_update [OF Cons.prems(2)] by auto
  qed
qed simp

subsection \<open>The output arrays\<close>

lemma emit_voxels:
  defines "start \<equiv> \<lparr>vo_points = [], vo_normals = [], vo_source_offsets = [0], vo_source_indices = []\<rparr>"
  shows "vo_points (fold (emit_voxel s) voxels start) = map (\<lambda>e. mean_point (snd e)) voxels \<and>
    vo_source_indices (fold (emit_voxel s) voxels start) = concat (map (\<lambda>e. vac_source_indices (snd e)) voxels) \<and>
    vo_source_offsets (fold (emit_voxel s) voxels start) =
      map (\<lambda>j. length (concat (take j (map (\<lambda>e. vac_source_indices (snd e)) voxels)))) [0..<Suc (length voxels)]"
proof (induction voxels rule: rev_induct)
  case Nil
  then show ?case by (simp add: start_def)
next
  case (snoc e voxels)
  then show ?case by (simp add: emit_voxel_def Let_def)
qed

lemma slice_concat:
  assumes "k < length xss"
  shows "take (length (concat (take (Suc k) xss)) - length (concat (take k xss)))
    (drop (length (concat (take k xss))) (concat xss)) = xss ! k"
proof -
  have "concat xss = concat (take k xss) @ xss ! k @ concat (drop (Suc k) xss)"
    using arg_cong [OF id_take_nth_drop [OF assms], of concat] by simp
  then show ?thesis using assms by (simp add: take_Suc_conv_app_nth)
qed

lemma emitted_sources:
  assumes "sorted_wrt (<) (map fst voxels)" "k < length voxels"
    and "vsr_source_offsets r =
      map (\<lambda>j. length (concat (take j (map (\<lambda>e. vac_source_indices (snd e)) voxels)))) [0..<Suc (length voxels)]"
    and "vsr_source_indices r = concat (map (\<lambda>e. vac_source_indices (snd e)) voxels)"
  shows "sources_for r k = cell_sources voxels (map fst voxels ! k)"
proof -
  have "sources_for r k = vac_source_indices (snd (voxels ! k))"
    using assms slice_concat [of k "map (\<lambda>e. vac_source_indices (snd e)) voxels"]
    by (simp add: sources_for_def del: upt_Suc)
  moreover have "distinct (map fst voxels)" using assms(1) by (auto simp: strict_sorted_iff)
  then have "map_of voxels (fst (voxels ! k)) = Some (snd (voxels ! k))" using assms(2) by simp
  ultimately show ?thesis using assms(2) by (simp add: cell_sources_def)
qed


lemmas voxel_steps = collect_voxel_def voxel_key_def coordinate_key_def accumulate_point_def plus_widened_def
  empty_accumulator_def less_VoxelKey_def Let_def sample_mm_surface_def sample_surface_def Vec3d_zero_def Vec3f_zero_def

definition sample_cell :: "Vec3d \<Rightarrow> nat \<Rightarrow> Accumulator" where
  "sample_cell p i = \<lparr>vac_point_sum = p, vac_normal_sum = Vec3 (Num 0) (Num 0) (Num 0), vac_source_indices = [i]\<rparr>"

lemma sample_keys:
  "voxel_key 1 (Vec3 0 (Num (1/2)) 1) = Inr (VoxelKey 0 0 1)" "voxel_key 1 (Vec3 1 0 0) = Inr (VoxelKey 1 0 0)"
proof -
  have "\<lfloor>1 / 2 :: rat\<rfloor> = 0" by (simp add: floor_eq_iff)
  then show "voxel_key 1 (Vec3 0 (Num (1/2)) 1) = Inr (VoxelKey 0 0 1)" "voxel_key 1 (Vec3 1 0 0) = Inr (VoxelKey 1 0 0)"
    by (simp_all add: voxel_key_def coordinate_key_def Let_def fp_eval)
qed

lemma sample_cells:
  "foldM (collect_voxel sample_mm_surface 1) [0, 1] [] =
     Inr [(VoxelKey 0 0 1, sample_cell (Vec3 (Num 0) (Num (1/2)) (Num 1)) 1),
          (VoxelKey 1 0 0, sample_cell (Vec3 (Num 1) (Num 0) (Num 0)) 0)]"
  by (simp add: collect_voxel_def sample_mm_surface_def sample_surface_def sample_keys) (simp add: accumulate_point_def plus_widened_def
  empty_accumulator_def less_VoxelKey_def Vec3d_zero_def sample_cell_def fp_eval)

lemma sample_voxels: "is_ok (voxel_sample sample_mm_surface 1)"
proof -
  have "mean_point (sample_cell (Vec3 (Num 0) (Num (1/2)) (Num 1)) 1) = Vec3 (Num 0) (Num (1/2)) (Num 1)"
    "mean_point (sample_cell (Vec3 (Num 1) (Num 0) (Num 0)) 0) = Vec3 (Num 1) (Num 0) (Num 0)"
    by (simp_all add: mean_point_def sample_cell_def Let_def fp_eval)
  moreover have "is_ok (Surface_create [Vec3 (Num 0) (Num (1/2)) (Num 1), Vec3 (Num 1) (Num 0) (Num 0)] [] [] None
      millimeter ''scan'')"
    by code_simp
  moreover have "sv_unit sample_mm_surface = millimeter" "sv_normals sample_mm_surface = []" "sv_frame sample_mm_surface = ''scan''"
    by (simp_all add: voxel_steps)
  moreover have "isfinite (1 :: f64)" "\<not> (1 :: f64) \<le> 0" by (simp_all add: fp_eval)
  moreover have "logical_indices sample_mm_surface = [0, 1]" by code_simp
  moreover note sample_cells
  ultimately show ?thesis by (simp add: voxel_sample_def emit_voxel_def Let_def) (auto simp: sample_cell_def is_ok_iff)
qed


end
