(* ===== verification/FloatBits.thy ===== *)
theory FloatBits
  imports Core
begin

text \<open>
  The object representation of a \<open>float\<close>: the four bytes that \<open>std::memcpy\<close> copies between a
  \<open>float\<close> and a byte buffer, in IEEE-754 binary32 layout and little-endian order. A NaN has the quiet
  default payload. Every value of the format is recovered from its bytes.
\<close>

subsection \<open>Sign, exponent and fraction\<close>

text \<open>Positive magnitudes as \<open>exponent * 2 ^ 23 + fraction\<close>; exponent 0 holds the subnormal numbers.\<close>

definition magnitude_bits :: "rat \<Rightarrow> nat" where
  "magnitude_bits a = (let e = max (ilog2 a) (- 126) in nat (e + 126) * 2 ^ 23 + nat \<lfloor>a / 2 powi (e - 23)\<rfloor>)"

definition magnitude_value :: "nat \<Rightarrow> rat" where
  "magnitude_value n = (let e = n div 2 ^ 23; m = n mod 2 ^ 23 in
     if e = 0 then of_nat m * 2 powi - 149 else of_nat (2 ^ 23 + m) * 2 powi (int e - 150))"

definition infinity_bits :: nat where
  "infinity_bits = 255 * 2 ^ 23"

fun f32_bits :: "f32 \<Rightarrow> nat" where
  "f32_bits NaN = infinity_bits + 2 ^ 22"
| "f32_bits (Inf b) = (if b then 2 ^ 31 else 0) + infinity_bits"
| "f32_bits NegZero = 2 ^ 31"
| "f32_bits (Num q) = (if q = 0 then 0 else (if q < 0 then 2 ^ 31 else 0) + magnitude_bits \<bar>q\<bar>)"

definition f32_of_bits :: "nat \<Rightarrow> f32" where
  "f32_of_bits w = (let negative = 2 ^ 31 \<le> w; n = w mod 2 ^ 31 in
     if n = 0 then (if negative then NegZero else Num 0)
     else if n < infinity_bits then Num (if negative then - magnitude_value n else magnitude_value n)
     else if n = infinity_bits then Inf negative
     else NaN)"

definition float_bytes :: "f32 \<Rightarrow> u8 list" where
  "float_bytes x = map (\<lambda>k. of_nat (f32_bits x div 256 ^ k mod 256)) [0..<4]"

definition float_of_bytes :: "u8 list \<Rightarrow> f32" where
  "float_of_bytes bs = f32_of_bits (foldr (\<lambda>b n. unat b + 256 * n) bs 0)"

subsection \<open>Every value is recovered\<close>

lemma magnitude_bounds:
  assumes "0 < a" "representable TYPE(32) a"
  shows "0 < magnitude_bits a \<and> magnitude_bits a < infinity_bits \<and> magnitude_value (magnitude_bits a) = a"
proof -
  define e where "e = max (ilog2 a) (- 126)"
  define m where "m = a / 2 powi (e - 23)"
  have p: "precision TYPE(32) = 24" "emin TYPE(32) = - 126" "emax TYPE(32) = 127"
    by (simp_all add: precision_def emin_def emax_def)
  have ulp: "ulp_exponent TYPE(32) a = e - 23" unfolding ulp_exponent_def p e_def using assms(1) by simp
  have a: "a = m * 2 powi (e - 23)" by (simp add: m_def)
  have "of_int (rne m) * 2 powi (e - 23) = a"
    using assms(2) unfolding representable_def to_grid_def ulp m_def by blast
  then have int: "of_int (rne m) = m" unfolding m_def by (simp add: field_simps)
  define k where "k = rne m"
  have mk: "m = of_int k" using int by (simp add: k_def)
  have b: "2 powi ilog2 a \<le> a" "a < 2 powi (ilog2 a + 1)" using ilog2_bounds [OF assms(1)] by blast+
  have "2 powi ilog2 a \<le> a" "a < 2 powi 128"
    using b(1) assms by (simp_all add: representable_def p)
  then have "(2::rat) powi ilog2 a < 2 powi 128" by (rule le_less_trans)
  then have e: "- 126 \<le> e" "e \<le> 127" unfolding powi2_less_iff e_def by simp_all
  have "a < 2 powi (e + 1)"
    using b(2) powi2_le_iff [of "ilog2 a + 1" "e + 1"] by (simp add: e_def)
  also have "\<dots> = 2 ^ 24 * 2 powi (e - 23)" using powi2_split [of "e - 23" "e + 1"] by simp
  finally have "m < 2 ^ 24" unfolding a using powi2_pos [of "e - 23"] by (simp only: mult_less_cancel_right_pos)
  then have k: "0 < k" "k < 2 ^ 24"
    using assms(1) powi2_pos [of "e - 23"] unfolding a mk by (simp_all add: zero_less_mult_iff)
  have normal: "2 ^ 23 \<le> k" if "- 126 < e"
  proof -
    have "e = ilog2 a" using that by (simp add: e_def)
    then have "2 powi e \<le> a" using b(1) by simp
    moreover have "(2::rat) powi e = 2 ^ 23 * 2 powi (e - 23)" using powi2_split [of "e - 23" e] by simp
    ultimately have "2 ^ 23 * 2 powi (e - 23) \<le> m * 2 powi (e - 23)" using a by simp
    then have "2 ^ 23 \<le> m" using powi2_pos [of "e - 23"] by (simp only: mult_le_cancel_right_pos)
    then show ?thesis unfolding mk by simp
  qed
  have bits: "magnitude_bits a = nat (e + 126) * 2 ^ 23 + nat k"
    unfolding magnitude_bits_def Let_def e_def [symmetric] m_def [symmetric] mk by simp
  show ?thesis
  proof (cases "k < 2 ^ 23")
    case True
    then have "e = - 126" using normal e by force
    then show ?thesis using True k a unfolding bits magnitude_value_def infinity_bits_def
      by (simp add: mk)
  next
    case False
    define f where "f = nat k - 2 ^ 23"
    have f: "nat k = 2 ^ 23 + f" "f < 2 ^ 23" using False k by (auto simp: f_def nat_less_iff)
    have n: "magnitude_bits a = nat (e + 127) * 2 ^ 23 + f"
      unfolding bits f(1) using e by (simp add: nat_add_distrib algebra_simps)
    have dm: "magnitude_bits a div 2 ^ 23 = nat (e + 127)" "magnitude_bits a mod 2 ^ 23 = f"
      unfolding n using f(2) by simp_all
    have "of_nat (2 ^ 23 + f) = m" unfolding mk f(1) [symmetric] using k by simp
    then have "magnitude_value (magnitude_bits a) = a"
      unfolding magnitude_value_def Let_def dm using e a by simp
    moreover have "nat (e + 127) \<le> 254" using e by simp
    then have "magnitude_bits a < infinity_bits" unfolding n infinity_bits_def using f(2) by simp
    ultimately show ?thesis unfolding n using e by simp
  qed
qed

lemma f32_bits_less: "in_format x \<Longrightarrow> f32_bits x < 2 ^ 32"
proof (cases x)
  case (Num q)
  assume "in_format x"
  then have "q \<noteq> 0 \<Longrightarrow> magnitude_bits \<bar>q\<bar> < infinity_bits"
    using magnitude_bounds [of "\<bar>q\<bar>"] Num representable_minus [of _ q] by (cases "q < 0") auto
  then show ?thesis using Num by (auto simp: infinity_bits_def)
qed (simp_all add: infinity_bits_def)

lemma f32_of_bits_bits: "in_format x \<Longrightarrow> f32_of_bits (f32_bits x) = x"
proof (cases x)
  case (Num q)
  assume f: "in_format x"
  show ?thesis
  proof (cases "q = 0")
    case False
    then have b: "0 < magnitude_bits \<bar>q\<bar>" "magnitude_bits \<bar>q\<bar> < infinity_bits" "magnitude_value (magnitude_bits \<bar>q\<bar>) = \<bar>q\<bar>"
      using magnitude_bounds [of "\<bar>q\<bar>"] f Num representable_minus [of _ q] by (cases "q < 0"; auto)+
    have small: "magnitude_bits \<bar>q\<bar> < 2 ^ 31" using b(2) by (simp add: infinity_bits_def)
    show ?thesis using False b small Num by (auto simp: f32_of_bits_def Let_def)
  qed (simp add: Num f32_of_bits_def)
qed (simp_all add: f32_of_bits_def infinity_bits_def)

lemma float_bytes_round_trip: "in_format x \<Longrightarrow> float_of_bytes (float_bytes x) = x"
proof -
  assume x: "in_format x"
  let ?n = "f32_bits x"
  have byte: "unat (of_nat (n mod 256) :: u8) = n mod 256" for n by (simp add: unat_of_nat take_bit_eq_mod)
  have "foldr (\<lambda>b n. unat b + 256 * n) (float_bytes x) 0 =
      ?n mod 256 + 256 * (?n div 256 mod 256 + 256 * (?n div 256 div 256 mod 256 + 256 * (?n div 256 div 256 div 256 mod 256)))"
    by (simp add: float_bytes_def upt_rec byte div_mult2_eq [symmetric])
  also have "?n div 256 div 256 div 256 mod 256 = ?n div 256 div 256 div 256"
    using f32_bits_less [OF x] by (simp add: div_mult2_eq [symmetric])
  finally have "foldr (\<lambda>b n. unat b + 256 * n) (float_bytes x) 0 = ?n" by (simp add: mod_mult2_eq [symmetric])
  then show ?thesis using f32_of_bits_bits [OF x] by (simp add: float_of_bytes_def)
qed

lemma length_float_bytes [simp]: "length (float_bytes x) = 4"
  by (simp add: float_bytes_def)

end
