(* ===== verification/CloudFile.thy ===== *)
theory CloudFile
  imports FloatBits Comparison
begin

text \<open>
  \<open>backends/pcl/pcl_io_backend.cpp\<close> and the adapters \<open>io/pcd_adapter.cpp\<close>, \<open>io/ply_adapter.cpp\<close>:
  decoding the byte cloud that the PCL readers return, encoding a surface as one, and the path checks
  around them. \<open>PCLPointCloud2\<close> and \<open>PCLPointField\<close> are the public structs of PCL; its file readers
  and writers are parameters. An access outside the data buffer or through a null field pointer, and a division by a zero width, is
  undefined behaviour in C++: an operation that would do so returns \<open>None\<close>.
\<close>

subsection \<open>Byte clouds\<close>

record PCLPointField =
  pf_name :: string
  pf_offset :: u32
  pf_datatype :: u8
  pf_count :: u32

record PCLPointCloud2 =
  pc_height :: u32
  pc_width :: u32
  pc_fields :: "PCLPointField list"
  pc_point_step :: u32
  pc_row_step :: u32
  pc_data :: "u8 list"
  pc_is_dense :: bool

definition FLOAT32 :: u8 where "FLOAT32 = 7"
definition UINT8 :: u8 where "UINT8 = 2"

text \<open>The context is a \<open>std::map\<close>: \<open>path\<close> comes before \<open>reason\<close>.\<close>

definition io_failure :: "ErrorCode \<Rightarrow> string \<Rightarrow> string \<Rightarrow> string \<Rightarrow> Error" where
  "io_failure code message path reason =
     \<lparr>err_code = code, err_stage = stage_none, err_message = message,
      err_context = (''path'', path) # (if reason = [] then [] else [(''reason'', reason)])\<rparr>"

text \<open>\<open>find_field\<close>: the first field of that name, or the null pointer.\<close>

definition find_field :: "PCLPointCloud2 \<Rightarrow> string \<Rightarrow> PCLPointField option" where
  "find_field cloud name = find (\<lambda>f. pf_name f = name) (pc_fields cloud)"

definition is_float_scalar :: "PCLPointField option \<Rightarrow> bool" where
  "is_float_scalar f = (case f of None \<Rightarrow> False | Some f \<Rightarrow> pf_count f = 1 \<and> pf_datatype f = FLOAT32)"

definition storage_offset :: "PCLPointCloud2 \<Rightarrow> nat \<Rightarrow> nat" where
  "storage_offset cloud logical_index =
     (let width = unat (pc_width cloud); row = logical_index div width; column = logical_index mod width in
      row * unat (pc_row_step cloud) + column * unat (pc_point_step cloud))"

text \<open>\<open>read_field<Value>\<close> copies \<open>nbytes\<close> bytes; the field comes as a pointer.\<close>

definition read_bytes :: "PCLPointCloud2 \<Rightarrow> nat \<Rightarrow> nat \<Rightarrow> PCLPointField option \<Rightarrow> u8 list option" where
  "read_bytes cloud nbytes logical_index field = Option.bind field (\<lambda>f.
     let offset = storage_offset cloud logical_index + unat (pf_offset f) in
     if pc_width cloud \<noteq> 0 \<and> offset + nbytes \<le> length (pc_data cloud) then Some (take nbytes (drop offset (pc_data cloud))) else None)"

definition read_float :: "PCLPointCloud2 \<Rightarrow> nat \<Rightarrow> PCLPointField option \<Rightarrow> f32 option" where
  "read_float cloud logical_index field = map_option float_of_bytes (read_bytes cloud 4 logical_index field)"

definition read_byte :: "PCLPointCloud2 \<Rightarrow> nat \<Rightarrow> PCLPointField option \<Rightarrow> u8 option" where
  "read_byte cloud logical_index field = map_option hd (read_bytes cloud 1 logical_index field)"

definition write_field :: "nat \<Rightarrow> PCLPointField option \<Rightarrow> u8 list \<Rightarrow> PCLPointCloud2 \<Rightarrow> PCLPointCloud2 option" where
  "write_field logical_index field bytes cloud = Option.bind field (\<lambda>f.
     let offset = storage_offset cloud logical_index + unat (pf_offset f) in
     if pc_width cloud \<noteq> 0 \<and> offset + length bytes \<le> length (pc_data cloud)
     then Some (cloud\<lparr>pc_data := take offset (pc_data cloud) @ bytes @ drop (offset + length bytes) (pc_data cloud)\<rparr>)
     else None)"

definition add_field :: "string \<Rightarrow> u32 \<Rightarrow> u8 \<Rightarrow> PCLPointCloud2 \<Rightarrow> PCLPointCloud2" where
  "add_field name offset datatype cloud = cloud\<lparr>pc_fields := pc_fields cloud @
     [\<lparr>pf_name = name, pf_offset = offset, pf_datatype = datatype, pf_count = 1\<rparr>]\<rparr>"

subsection \<open>Decoding\<close>

definition validate_fields :: "PCLPointCloud2 \<Rightarrow> string \<Rightarrow> string \<Rightarrow> nat Result" where
  "validate_fields cloud path format =
     (let float = (\<lambda>name. is_float_scalar (find_field cloud name));
          normal_x = float ''normal_x''; normal_y = float ''normal_y''; normal_z = float ''normal_z'';
          count = ucast (pc_width cloud) * ucast (pc_height cloud) :: size_w;
          minimum_row_step = ucast (pc_width cloud) * ucast (pc_point_step cloud) :: size_w;
          minimum_storage = (if pc_height cloud = 0 then 0
            else (ucast (pc_height cloud) - 1) * ucast (pc_row_step cloud) + minimum_row_step)
      in
      require (float ''x'' \<and> float ''y'' \<and> float ''z'')
        (io_failure unsupported_format (format @ '' requires float32 XYZ fields'') path []) (
      require (\<not> ((normal_x \<or> normal_y \<or> normal_z) \<and> \<not> (normal_x \<and> normal_y \<and> normal_z)))
        (io_failure unsupported_format (format @ '' normal fields must be complete float32 triples'') path []) (
      require (case find_field cloud ''valid'' of None \<Rightarrow> True
               | Some f \<Rightarrow> \<not> (pf_count f \<noteq> 1 \<or> pf_datatype f \<noteq> UINT8))
        (io_failure unsupported_format (format @ '' valid field must be uint8'') path []) (
      require (\<not> (count = 0 \<or> pc_point_step cloud = 0 \<or> ucast (pc_row_step cloud) < minimum_row_step \<or>
                  size_of (pc_data cloud) < minimum_storage))
        (io_failure invalid_input (format @ '' contains inconsistent point storage'') path [])
        (Inr (unat count))))))"

record DecodeState =
  ds_points :: "Vec3f list"
  ds_normals :: "Vec3f list"
  ds_mask :: "u8 list"
  ds_derived_mask_needed :: bool

text \<open>\<open>Vec3f{read_field<float>(x), read_field<float>(y), read_field<float>(z)}\<close>\<close>

definition read_vec3 :: "PCLPointCloud2 \<Rightarrow> nat \<Rightarrow> string \<Rightarrow> string \<Rightarrow> string \<Rightarrow> Vec3f option" where
  "read_vec3 cloud index x y z =
     Option.bind (read_float cloud index (find_field cloud x)) (\<lambda>vx.
     Option.bind (read_float cloud index (find_field cloud y)) (\<lambda>vy.
     Option.bind (read_float cloud index (find_field cloud z)) (\<lambda>vz. Some (Vec3 vx vy vz))))"

text \<open>The mask part of the loop body.\<close>

definition decode_mask :: "PCLPointCloud2 \<Rightarrow> string \<Rightarrow> string \<Rightarrow> nat \<Rightarrow> bool \<Rightarrow> DecodeState \<Rightarrow> DecodeState Result option" where
  "decode_mask cloud path format index all_finite st =
     (if find_field cloud ''valid'' \<noteq> None
      then Option.bind (read_byte cloud index (find_field cloud ''valid'')) (\<lambda>mask_value. Some (
        require (\<not> 1 < mask_value)
          (io_failure invalid_input (format @ '' valid values must be 0 or 1'') path []) (
        require (\<not> (mask_value = 1 \<and> \<not> all_finite))
          (io_failure invalid_input (format @ '' marks a non-finite sample as valid'') path [])
          (Inr (st\<lparr>ds_mask := ds_mask st @ [mask_value]\<rparr>)))))
      else Some (Inr (st\<lparr>ds_derived_mask_needed := ds_derived_mask_needed st \<or> \<not> all_finite,
                         ds_mask := ds_mask st @ [if all_finite then 1 else 0]\<rparr>)))"

definition decode_sample :: "PCLPointCloud2 \<Rightarrow> string \<Rightarrow> string \<Rightarrow> nat \<Rightarrow> DecodeState \<Rightarrow> DecodeState Result option" where
  "decode_sample cloud path format index st =
     Option.bind (read_vec3 cloud index ''x'' ''y'' ''z'') (\<lambda>point.
     let st = st\<lparr>ds_points := ds_points st @ [point]\<rparr> in
     if find_field cloud ''normal_x'' = None then decode_mask cloud path format index (is_finite3 point) st
     else Option.bind (read_vec3 cloud index ''normal_x'' ''normal_y'' ''normal_z'') (\<lambda>normal.
       decode_mask cloud path format index (is_finite3 point \<and> is_finite3 normal)
         (st\<lparr>ds_normals := ds_normals st @ [normal]\<rparr>)))"

fun decode_samples :: "PCLPointCloud2 \<Rightarrow> string \<Rightarrow> string \<Rightarrow> nat list \<Rightarrow> DecodeState \<Rightarrow> DecodeState Result option" where
  "decode_samples cloud path format [] st = Some (Inr st)"
| "decode_samples cloud path format (index # rest) st =
     (case decode_sample cloud path format index st of
        None \<Rightarrow> None
      | Some (Inl e) \<Rightarrow> Some (Inl e)
      | Some (Inr st) \<Rightarrow> decode_samples cloud path format rest st)"

definition decode_cloud ::
  "PCLPointCloud2 \<Rightarrow> LengthUnit \<Rightarrow> FrameId \<Rightarrow> string \<Rightarrow> string \<Rightarrow> Surface Result option" where
  "decode_cloud cloud u frame path format =
     (case validate_fields cloud path format of
        Inl e \<Rightarrow> Some (Inl e)
      | Inr count \<Rightarrow>
        (case decode_samples cloud path format [0..<count]
            \<lparr>ds_points = [], ds_normals = [], ds_mask = [], ds_derived_mask_needed = False\<rparr> of
           None \<Rightarrow> None
         | Some (Inl e) \<Rightarrow> Some (Inl e)
         | Some (Inr st) \<Rightarrow>
             let mask = (if find_field cloud ''valid'' = None \<and> \<not> ds_derived_mask_needed st then [] else ds_mask st);
                 grid = (if 1 < pc_height cloud then Some \<lparr>grid_width = pc_width cloud, grid_height = pc_height cloud,
                   grid_row_stride = pc_width cloud\<rparr> else None)
             in Some (Surface_create (ds_points st) (ds_normals st) mask grid u frame)))"

subsection \<open>Encoding\<close>

text \<open>The default-constructed cloud with its fields and extents.\<close>

definition cloud_layout :: "Surface \<Rightarrow> PCLPointCloud2" where
  "cloud_layout s =
     (let cloud = \<lparr>pc_height = 0, pc_width = 0, pc_fields = [], pc_point_step = 0, pc_row_step = 0, pc_data = [],
            pc_is_dense = False\<rparr>;
          cloud = add_field ''z'' 8 FLOAT32 (add_field ''y'' 4 FLOAT32 (add_field ''x'' 0 FLOAT32 cloud));
          cloud = (if sv_normals s \<noteq> []
            then (add_field ''valid'' 24 UINT8 (add_field ''normal_z'' 20 FLOAT32 (add_field ''normal_y'' 16 FLOAT32
                   (add_field ''normal_x'' 12 FLOAT32 cloud))))\<lparr>pc_point_step := 25\<rparr>
            else (add_field ''valid'' 12 UINT8 cloud)\<lparr>pc_point_step := 13\<rparr>);
          width = (case sv_grid s of Some g \<Rightarrow> grid_width g | None \<Rightarrow> ucast (sv_size s));
          height = (case sv_grid s of Some g \<Rightarrow> grid_height g | None \<Rightarrow> 1)
      in cloud\<lparr>pc_width := width, pc_height := height, pc_row_step := pc_point_step cloud * width,
           pc_data := replicate (unat (sv_size s) * unat (pc_point_step cloud)) 0\<rparr>)"

definition mask_at :: "Surface \<Rightarrow> nat \<Rightarrow> u8" where
  "mask_at s index = (if sv_valid s = [] then 1 else sv_valid s ! index)"

definition write_vec3 :: "nat \<Rightarrow> string \<Rightarrow> string \<Rightarrow> string \<Rightarrow> Vec3f \<Rightarrow> PCLPointCloud2 \<Rightarrow> PCLPointCloud2 option" where
  "write_vec3 logical_index x y z v cloud =
     Option.bind (write_field logical_index (find_field cloud x) (float_bytes (vx v)) cloud) (\<lambda>cloud.
     Option.bind (write_field logical_index (find_field cloud y) (float_bytes (vy v)) cloud) (\<lambda>cloud.
     write_field logical_index (find_field cloud z) (float_bytes (vz v)) cloud))"

text \<open>The lambda of \<open>encode_cloud\<close>: it keeps the running logical index beside the storage index.\<close>

definition encode_sample :: "Surface \<Rightarrow> nat \<times> nat \<Rightarrow> PCLPointCloud2 \<times> bool \<Rightarrow> (PCLPointCloud2 \<times> bool) option" where
  "encode_sample s indices st =
     (let (logical_index, index) = indices; (cloud, dense) = st; mask = mask_at s index in
      Option.bind (write_vec3 logical_index ''x'' ''y'' ''z'' (sv_points s ! index) cloud) (\<lambda>cloud.
      Option.bind (write_field logical_index (find_field cloud ''valid'') [mask] cloud) (\<lambda>cloud.
      Option.bind (if sv_normals s \<noteq> []
        then write_vec3 logical_index ''normal_x'' ''normal_y'' ''normal_z'' (sv_normals s ! index) cloud
        else Some cloud) (\<lambda>cloud. Some (cloud, dense \<and> mask = 1)))))"

definition encode_cloud :: "Surface \<Rightarrow> PCLPointCloud2 option" where
  "encode_cloud s = map_option (\<lambda>(cloud, dense). cloud\<lparr>pc_is_dense := dense\<rparr>)
     (foldO (encode_sample s) (List.enumerate 0 (logical_indices s)) (cloud_layout s, True))"

subsection \<open>Files\<close>

text \<open>
  The PCL readers and writers over a state \<open>'s\<close> of the file system: loading returns no cloud, and saving
  returns false, when the PCL function returns a negative code; either may throw.
\<close>

record 's cloud_library =
  cl_load_ply :: "'s \<Rightarrow> string \<Rightarrow> exn + PCLPointCloud2 option"
  cl_save_ply :: "string \<Rightarrow> PCLPointCloud2 \<Rightarrow> bool \<Rightarrow> 's \<Rightarrow> (exn + bool) \<times> 's"
  cl_load_pcd :: "'s \<Rightarrow> string \<Rightarrow> exn + PCLPointCloud2 option"
  cl_save_pcd :: "string \<Rightarrow> PCLPointCloud2 \<Rightarrow> bool \<Rightarrow> 's \<Rightarrow> (exn + bool) \<times> 's"

definition read_ply_file ::
  "'s cloud_library \<Rightarrow> 's \<Rightarrow> string \<Rightarrow> LengthUnit \<Rightarrow> FrameId \<Rightarrow> Surface Result option" where
  "read_ply_file lib st path u frame = (case cl_load_ply lib st path of
       Inl x \<Rightarrow> Some (Inl (io_failure io_error ''PLY backend read failed'' path (what x)))
     | Inr None \<Rightarrow> Some (Inl (io_failure io_error ''failed to read PLY file'' path []))
     | Inr (Some cloud) \<Rightarrow> decode_cloud cloud u frame path ''PLY'')"

definition read_pcd_file ::
  "'s cloud_library \<Rightarrow> 's \<Rightarrow> string \<Rightarrow> LengthUnit \<Rightarrow> FrameId \<Rightarrow> Surface Result option" where
  "read_pcd_file lib st path u frame = (case cl_load_pcd lib st path of
       Inl x \<Rightarrow> Some (Inl (io_failure io_error ''PCD backend read failed'' path (what x)))
     | Inr None \<Rightarrow> Some (Inl (io_failure io_error ''failed to read PCD file'' path []))
     | Inr (Some cloud) \<Rightarrow>
         if pc_width cloud = 0 \<or> pc_height cloud = 0 \<or> pc_data cloud = []
         then Some (Inl (io_failure io_error ''PCD file contains no readable points'' path []))
         else decode_cloud cloud u frame path ''PCD'')"

definition write_ply_file ::
  "'s cloud_library \<Rightarrow> string \<Rightarrow> Surface \<Rightarrow> bool \<Rightarrow> 's \<Rightarrow> (nat Result \<times> 's) option" where
  "write_ply_file lib path s binary st = map_option (\<lambda>cloud. case cl_save_ply lib path cloud binary st of
       (Inl x, st) \<Rightarrow> (Inl (io_failure io_error ''PLY backend write failed'' path (what x)), st)
     | (Inr False, st) \<Rightarrow> (Inl (io_failure io_error ''failed to write PLY file'' path []), st)
     | (Inr True, st) \<Rightarrow> (Inr (unat (sv_size s)), st)) (encode_cloud s)"

definition write_pcd_file ::
  "'s cloud_library \<Rightarrow> string \<Rightarrow> Surface \<Rightarrow> bool \<Rightarrow> 's \<Rightarrow> (nat Result \<times> 's) option" where
  "write_pcd_file lib path s binary st = map_option (\<lambda>cloud. case cl_save_pcd lib path cloud binary st of
       (Inl x, st) \<Rightarrow> (Inl (io_failure io_error ''PCD backend write failed'' path (what x)), st)
     | (Inr False, st) \<Rightarrow> (Inl (io_failure io_error ''failed to write PCD file'' path []), st)
     | (Inr True, st) \<Rightarrow> (Inr (unat (sv_size s)), st)) (encode_cloud s)"

subsection \<open>The adapters\<close>

datatype PcdEncoding = pcd_binary | pcd_ascii
datatype PlyEncoding = ply_binary_little_endian | ply_ascii

definition path_error :: "string \<Rightarrow> ErrorCode \<Rightarrow> string \<Rightarrow> string \<Rightarrow> Error" where
  "path_error message code reason path =
     \<lparr>err_code = code, err_stage = stage_validate, err_message = message,
      err_context = [(''path'', path), (''reason'', reason)]\<rparr>"

text \<open>\<open>std::tolower\<close> in the default locale.\<close>

definition tolower :: "char \<Rightarrow> char" where
  "tolower c = (let n = of_char c :: nat in if 65 \<le> n \<and> n \<le> 90 then char_of (n + 32) else c)"

definition has_extension :: "string \<Rightarrow> string \<Rightarrow> bool" where
  "has_extension extension path =
     (if length path < length extension then False
      else map tolower (drop (length path - length extension) path) = map tolower extension)"

definition has_pcd_extension :: "string \<Rightarrow> bool" where
  "has_pcd_extension = has_extension ''.pcd''"

definition has_ply_extension :: "string \<Rightarrow> bool" where
  "has_ply_extension = has_extension ''.ply''"

definition validate_pcd_path :: "string \<Rightarrow> string Result" where
  "validate_pcd_path path =
     require (path \<noteq> []) (path_error ''invalid PCD path'' invalid_argument ''must not be empty'' path) (
     require (CHR 0x00 \<notin> set path) (path_error ''invalid PCD path'' invalid_argument ''must not contain NUL'' path) (
     require (has_pcd_extension path)
       (path_error ''invalid PCD path'' unsupported_format ''extension must be .pcd'' path)
       (Inr path)))"

definition validate_ply_path :: "string \<Rightarrow> string Result" where
  "validate_ply_path path =
     require (path \<noteq> []) (path_error ''invalid PLY path'' invalid_argument ''must not be empty'' path) (
     require (CHR 0x00 \<notin> set path) (path_error ''invalid PLY path'' invalid_argument ''must not contain NUL'' path) (
     require (has_ply_extension path)
       (path_error ''invalid PLY path'' unsupported_format ''extension must be .ply'' path)
       (Inr path)))"

definition read_pcd :: "'s cloud_library \<Rightarrow> 's \<Rightarrow> string \<Rightarrow> LengthUnit \<Rightarrow> FrameId \<Rightarrow> Surface Result option" where
  "read_pcd lib st path_utf8 u frame = (case validate_pcd_path path_utf8 of
       Inl e \<Rightarrow> Some (Inl e) | Inr path \<Rightarrow> read_pcd_file lib st path u frame)"

definition write_pcd :: "'s cloud_library \<Rightarrow> string \<Rightarrow> Surface \<Rightarrow> PcdEncoding \<Rightarrow> 's \<Rightarrow> (nat Result \<times> 's) option" where
  "write_pcd lib path_utf8 s encoding st = (case validate_pcd_path path_utf8 of
       Inl e \<Rightarrow> Some (Inl e, st) | Inr path \<Rightarrow> write_pcd_file lib path s (encoding = pcd_binary) st)"

definition read_ply :: "'s cloud_library \<Rightarrow> 's \<Rightarrow> string \<Rightarrow> LengthUnit \<Rightarrow> FrameId \<Rightarrow> Surface Result option" where
  "read_ply lib st path_utf8 u frame = (case validate_ply_path path_utf8 of
       Inl e \<Rightarrow> Some (Inl e) | Inr path \<Rightarrow> read_ply_file lib st path u frame)"

definition write_ply :: "'s cloud_library \<Rightarrow> string \<Rightarrow> Surface \<Rightarrow> PlyEncoding \<Rightarrow> 's \<Rightarrow> (nat Result \<times> 's) option" where
  "write_ply lib path_utf8 s encoding st = (case validate_ply_path path_utf8 of
       Inl e \<Rightarrow> Some (Inl e, st) | Inr path \<Rightarrow> write_ply_file lib path s (encoding = ply_binary_little_endian) st)"

subsection \<open>Byte buffers\<close>

text \<open>Overwriting a stretch of a buffer.\<close>

definition overwrite :: "nat \<Rightarrow> 'a list \<Rightarrow> 'a list \<Rightarrow> 'a list" where
  "overwrite off bs data = take off data @ bs @ drop (off + length bs) data"

lemma length_overwrite [simp]: "off + length bs \<le> length data \<Longrightarrow> length (overwrite off bs data) = length data"
  by (simp add: overwrite_def)

lemma overwrite_middle:
  "off + length bs \<le> length mid \<Longrightarrow> overwrite (length front + off) bs (front @ mid @ post) = front @ overwrite off bs mid @ post"
  by (simp add: overwrite_def)

lemma length_four: "length xs = 4 \<Longrightarrow> \<exists>a b c d. xs = [a, b, c, d]"
  by (auto simp: numeral_eq_Suc length_Suc_conv)

text \<open>The bytes of one sample, in the layout of the encoder.\<close>

definition vec3_bytes :: "Vec3f \<Rightarrow> u8 list" where
  "vec3_bytes v = float_bytes (vx v) @ float_bytes (vy v) @ float_bytes (vz v)"

definition sample_bytes :: "Surface \<Rightarrow> nat \<Rightarrow> u8 list" where
  "sample_bytes s i = vec3_bytes (sv_points s ! i) @
     (if sv_normals s \<noteq> [] then vec3_bytes (sv_normals s ! i) else []) @ [mask_at s i]"

definition point_bytes :: "Surface \<Rightarrow> nat" where
  "point_bytes s = (if sv_normals s \<noteq> [] then 25 else 13)"

lemma length_vec3_bytes [simp]: "length (vec3_bytes v) = 12"
  by (simp add: vec3_bytes_def)

lemma length_sample_bytes [simp]: "length (sample_bytes s i) = point_bytes s"
  by (simp add: sample_bytes_def point_bytes_def)

lemma overwrite_slot:
  "length front = off \<Longrightarrow> length mid = length bs \<Longrightarrow> overwrite off bs (front @ mid @ post) = front @ bs @ post"
  by (simp add: overwrite_def)

lemma overwrite_sample:
  assumes "length x = 4" "length y = 4" "length z = 4" "length nx = 4" "length ny = 4" "length nz = 4"
  shows "overwrite 12 [m] (overwrite 8 z (overwrite 4 y (overwrite 0 x (replicate 13 0)))) = x @ y @ z @ [m]"
    and "overwrite 20 nz (overwrite 16 ny (overwrite 12 nx (overwrite 24 [m] (overwrite 8 z (overwrite 4 y
      (overwrite 0 x (replicate 25 0))))))) = x @ y @ z @ nx @ ny @ nz @ [m]"
proof -
  let ?r = "replicate 4 0"
  have r: "replicate 13 0 = ?r @ ?r @ ?r @ [0]" "replicate 25 0 = ?r @ ?r @ ?r @ ?r @ ?r @ ?r @ [0]"
    by (simp_all add: eval_nat_numeral)
  have steps: "overwrite 0 x (?r @ t) = x @ t" "overwrite 4 y (x @ ?r @ t) = x @ y @ t"
    "overwrite 8 z (x @ y @ ?r @ t) = x @ y @ z @ t" "overwrite 12 [m] (x @ y @ z @ [0]) = x @ y @ z @ [m]"
    "overwrite 24 [m] (x @ y @ z @ ?r @ ?r @ ?r @ [0]) = x @ y @ z @ ?r @ ?r @ ?r @ [m]"
    "overwrite 12 nx (x @ y @ z @ ?r @ t) = x @ y @ z @ nx @ t"
    "overwrite 16 ny (x @ y @ z @ nx @ ?r @ t) = x @ y @ z @ nx @ ny @ t"
    "overwrite 20 nz (x @ y @ z @ nx @ ny @ ?r @ t) = x @ y @ z @ nx @ ny @ nz @ t" for t
    using assms overwrite_slot [of "[]" 0 ?r x] overwrite_slot [of x 4 ?r y] overwrite_slot [of "x @ y" 8 ?r z]
      overwrite_slot [of "x @ y @ z" 12 "[0]" "[m]" "[]"] overwrite_slot [of "x @ y @ z @ ?r @ ?r @ ?r" 24 "[0]" "[m]" "[]"]
      overwrite_slot [of "x @ y @ z" 12 ?r nx] overwrite_slot [of "x @ y @ z @ nx" 16 ?r ny]
      overwrite_slot [of "x @ y @ z @ nx @ ny" 20 ?r nz] by simp_all
  show "overwrite 12 [m] (overwrite 8 z (overwrite 4 y (overwrite 0 x (replicate 13 0)))) = x @ y @ z @ [m]"
    unfolding r by (simp only: steps)
  show "overwrite 20 nz (overwrite 16 ny (overwrite 12 nx (overwrite 24 [m] (overwrite 8 z (overwrite 4 y
      (overwrite 0 x (replicate 25 0))))))) = x @ y @ z @ nx @ ny @ nz @ [m]"
    unfolding r by (simp only: steps)
qed

lemma overwrite_points:
  "length x = 4 \<Longrightarrow> length y = 4 \<Longrightarrow> length z = 4 \<Longrightarrow>
   overwrite 12 [m] (overwrite 8 z (overwrite 4 y (overwrite 0 x (replicate 13 0)))) = x @ y @ z @ [m]"
  by (rule overwrite_sample(1) [where nx = x and ny = x and nz = x])

lemma length_concat_chunks: "\<forall>c \<in> set cs. length c = n \<Longrightarrow> length (concat cs) = length cs * n"
  by (induction cs) simp_all

lemma drop_chunks: "\<forall>c \<in> set cs. length c = n \<Longrightarrow> k \<le> length cs \<Longrightarrow> drop (k * n) (concat cs) = concat (drop k cs)"
proof (induction cs arbitrary: k)
  case (Cons c cs)
  then show ?case by (cases k) simp_all
qed simp

lemma read_chunk:
  assumes "\<forall>c \<in> set cs. length c = n" "k < length cs" "off + m \<le> n"
  shows "take m (drop (k * n + off) (concat cs)) = take m (drop off (cs ! k))"
    and "k * n + off + m \<le> length (concat cs)"
proof -
  have "drop (k * n + off) (concat cs) = drop off (concat (drop k cs))"
    using drop_chunks [OF assms(1), of k] assms(2) by (simp add: add.commute flip: drop_drop)
  also have "concat (drop k cs) = cs ! k @ concat (drop (Suc k) cs)"
    using assms(2) by (simp flip: Cons_nth_drop_Suc)
  finally show "take m (drop (k * n + off) (concat cs)) = take m (drop off (cs ! k))"
    using assms by simp
  have "k * n + n \<le> length cs * n" using assms(2) by (metis Suc_leI add.commute mult_Suc mult_le_mono1)
  then show "k * n + off + m \<le> length (concat cs)"
    using assms(3) unfolding length_concat_chunks [OF assms(1)] by linarith
qed

subsection \<open>Encoding writes the samples one after the other\<close>

text \<open>The surfaces whose cloud has 32-bit extents in bytes.\<close>

definition encodable :: "Surface \<Rightarrow> bool" where
  "encodable s \<longleftrightarrow> surface_ok s \<and> unat (sv_size s) * 25 < 2 ^ 32"

definition extent :: "Surface \<Rightarrow> nat \<times> nat" where
  "extent s = (case sv_grid s of Some g \<Rightarrow> (unat (grid_width g), unat (grid_height g)) | None \<Rightarrow> (unat (sv_size s), 1))"

lemma logical_count: "surface_ok s \<Longrightarrow> length (logical_indices s) = unat (sv_size s)"
  by (simp add: surface_ok_def)

lemma extent_size:
  assumes "surface_ok s"
  shows "unat (sv_size s) = fst (extent s) * snd (extent s)" "0 < fst (extent s)" "0 < snd (extent s)"
proof -
  have "sv_points s \<noteq> []" using assms by (simp add: surface_ok_def surface_data_ok_def)
  have "unat (sv_size s) = fst (extent s) * snd (extent s) \<and> 0 < fst (extent s) \<and> 0 < snd (extent s)"
  proof (cases "sv_grid s")
    case None
    then show ?thesis using logical_count [OF assms] length_greater_0_conv [THEN iffD2, OF \<open>sv_points s \<noteq> []\<close>]
      by (simp add: extent_def logical_indices_def storage_indices_def storage_size_def)
  next
    case (Some g)
    have "length (logical_indices s) = unat (grid_height g) * unat (grid_width g)"
      by (simp add: Some logical_indices_def storage_indices_def grid_indices_def length_concat o_def sum_list_triv)
    moreover have "grid_width g \<noteq> 0 \<and> grid_height g \<noteq> 0"
      using assms Some by (simp add: surface_ok_def surface_data_ok_def grid_matches_def)
    ultimately show ?thesis using logical_count [OF assms] Some by (simp add: extent_def unat_gt_0)
  qed
  then show "unat (sv_size s) = fst (extent s) * snd (extent s)" "0 < fst (extent s)" "0 < snd (extent s)" by blast+
qed

lemma encodable_bounds:
  assumes "encodable s"
  shows "unat (sv_size s) < 2 ^ 32" "fst (extent s) * point_bytes s < 2 ^ 32"
    "unat (sv_size s) * point_bytes s < 2 ^ 32" "0 < unat (sv_size s)"
proof -
  have s: "surface_ok s" "unat (sv_size s) * 25 < 2 ^ 32" using assms by (simp_all add: encodable_def)
  note e = extent_size [OF s(1)]
  have p: "point_bytes s \<le> 25" by (simp add: point_bytes_def)
  show n: "unat (sv_size s) * point_bytes s < 2 ^ 32" using s(2) p by (meson le_less_trans mult_le_mono2)
  show "unat (sv_size s) < 2 ^ 32" using s(2) by linarith
  have "fst (extent s) \<le> unat (sv_size s)" using e by simp
  then show "fst (extent s) * point_bytes s < 2 ^ 32" using n by (meson le_less_trans mult_le_mono1)
  show "0 < unat (sv_size s)" using e by simp
qed

lemma cloud_layout_fields:
  "find_field (cloud_layout s\<lparr>pc_data := d\<rparr>) ''x'' = Some \<lparr>pf_name = ''x'', pf_offset = 0, pf_datatype = FLOAT32, pf_count = 1\<rparr>"
  "find_field (cloud_layout s\<lparr>pc_data := d\<rparr>) ''y'' = Some \<lparr>pf_name = ''y'', pf_offset = 4, pf_datatype = FLOAT32, pf_count = 1\<rparr>"
  "find_field (cloud_layout s\<lparr>pc_data := d\<rparr>) ''z'' = Some \<lparr>pf_name = ''z'', pf_offset = 8, pf_datatype = FLOAT32, pf_count = 1\<rparr>"
  "find_field (cloud_layout s\<lparr>pc_data := d\<rparr>) ''valid'' = Some \<lparr>pf_name = ''valid'',
     pf_offset = (if sv_normals s \<noteq> [] then 24 else 12), pf_datatype = UINT8, pf_count = 1\<rparr>"
  "find_field (cloud_layout s\<lparr>pc_data := d\<rparr>) ''normal_x'' = (if sv_normals s \<noteq> []
     then Some \<lparr>pf_name = ''normal_x'', pf_offset = 12, pf_datatype = FLOAT32, pf_count = 1\<rparr> else None)"
  "find_field (cloud_layout s\<lparr>pc_data := d\<rparr>) ''normal_y'' = (if sv_normals s \<noteq> []
     then Some \<lparr>pf_name = ''normal_y'', pf_offset = 16, pf_datatype = FLOAT32, pf_count = 1\<rparr> else None)"
  "find_field (cloud_layout s\<lparr>pc_data := d\<rparr>) ''normal_z'' = (if sv_normals s \<noteq> []
     then Some \<lparr>pf_name = ''normal_z'', pf_offset = 20, pf_datatype = FLOAT32, pf_count = 1\<rparr> else None)"
  by (simp_all add: cloud_layout_def Let_def add_field_def find_field_def)

lemma cloud_layout_normals:
  assumes "sv_normals s \<noteq> []"
  shows "find_field (cloud_layout s\<lparr>pc_data := d\<rparr>) ''normal_x'' =
      Some \<lparr>pf_name = ''normal_x'', pf_offset = 12, pf_datatype = FLOAT32, pf_count = 1\<rparr>"
    "find_field (cloud_layout s\<lparr>pc_data := d\<rparr>) ''normal_y'' =
      Some \<lparr>pf_name = ''normal_y'', pf_offset = 16, pf_datatype = FLOAT32, pf_count = 1\<rparr>"
    "find_field (cloud_layout s\<lparr>pc_data := d\<rparr>) ''normal_z'' =
      Some \<lparr>pf_name = ''normal_z'', pf_offset = 20, pf_datatype = FLOAT32, pf_count = 1\<rparr>"
  using assms by (simp_all only: cloud_layout_fields if_True not_False_eq_True)

lemma cloud_layout_extent:
  assumes "encodable s"
  shows "unat (pc_width (cloud_layout s)) = fst (extent s)" "unat (pc_height (cloud_layout s)) = snd (extent s)"
    "unat (pc_point_step (cloud_layout s)) = point_bytes s"
    "unat (pc_row_step (cloud_layout s)) = fst (extent s) * point_bytes s"
    "pc_data (cloud_layout s) = replicate (unat (sv_size s) * point_bytes s) 0" "pc_width (cloud_layout s) \<noteq> 0"
proof -
  note b = encodable_bounds [OF assms]
  have small: "unat (ucast (sv_size s) :: u32) = unat (sv_size s)"
    using b(1) by (simp add: unsigned_ucast_eq take_bit_eq_mod)
  show w: "unat (pc_width (cloud_layout s)) = fst (extent s)" "unat (pc_height (cloud_layout s)) = snd (extent s)"
    by (simp_all add: cloud_layout_def Let_def extent_def small split: option.split)
  show p: "unat (pc_point_step (cloud_layout s)) = point_bytes s"
    by (simp add: cloud_layout_def Let_def point_bytes_def)
  have "pc_row_step (cloud_layout s) = pc_point_step (cloud_layout s) * pc_width (cloud_layout s)"
    by (simp add: cloud_layout_def Let_def)
  then show "unat (pc_row_step (cloud_layout s)) = fst (extent s) * point_bytes s"
    using b(2) by (simp add: unat_mult_lem [THEN iffD1] unat_word_ariths w p mult.commute)
  show "pc_data (cloud_layout s) = replicate (unat (sv_size s) * point_bytes s) 0"
    by (simp add: cloud_layout_def Let_def point_bytes_def)
  show "pc_width (cloud_layout s) \<noteq> 0"
    using extent_size(2) [of s] w(1) assms by (auto simp: encodable_def)
qed

lemma cloud_layout_offset:
  assumes "encodable s"
  shows "storage_offset (cloud_layout s\<lparr>pc_data := d\<rparr>) k = k * point_bytes s"
proof -
  have "k div w * (w * p) + k mod w * p = k * p" for w p :: nat
    by (metis add_mult_distrib div_mult_mod_eq mult.assoc)
  then show ?thesis by (simp add: storage_offset_def Let_def cloud_layout_extent [OF assms])
qed

lemma write_layout_field:
  assumes "encodable s" "find_field (cloud_layout s\<lparr>pc_data := d\<rparr>) name = Some f" "unat (pf_offset f) = off"
    and "k * point_bytes s + off + length bs \<le> length d"
  shows "write_field k (find_field (cloud_layout s\<lparr>pc_data := d\<rparr>) name) bs (cloud_layout s\<lparr>pc_data := d\<rparr>) =
    Some (cloud_layout s\<lparr>pc_data := overwrite (k * point_bytes s + off) bs d\<rparr>)"
  using assms by (simp add: write_field_def cloud_layout_offset cloud_layout_extent overwrite_def Let_def)

lemma write_layout_fields:
  assumes "encodable s" "Suc k * point_bytes s \<le> length d"
  shows "length bs = 4 \<Longrightarrow> write_field k (find_field (cloud_layout s\<lparr>pc_data := d\<rparr>) ''x'') bs (cloud_layout s\<lparr>pc_data := d\<rparr>) =
      Some (cloud_layout s\<lparr>pc_data := overwrite (k * point_bytes s + 0) bs d\<rparr>)"
    "length bs = 4 \<Longrightarrow> write_field k (find_field (cloud_layout s\<lparr>pc_data := d\<rparr>) ''y'') bs (cloud_layout s\<lparr>pc_data := d\<rparr>) =
      Some (cloud_layout s\<lparr>pc_data := overwrite (k * point_bytes s + 4) bs d\<rparr>)"
    "length bs = 4 \<Longrightarrow> write_field k (find_field (cloud_layout s\<lparr>pc_data := d\<rparr>) ''z'') bs (cloud_layout s\<lparr>pc_data := d\<rparr>) =
      Some (cloud_layout s\<lparr>pc_data := overwrite (k * point_bytes s + 8) bs d\<rparr>)"
    "write_field k (find_field (cloud_layout s\<lparr>pc_data := d\<rparr>) ''valid'') [m] (cloud_layout s\<lparr>pc_data := d\<rparr>) =
      Some (cloud_layout s\<lparr>pc_data := overwrite (k * point_bytes s + (if sv_normals s \<noteq> [] then 24 else 12)) [m] d\<rparr>)"
    "sv_normals s \<noteq> [] \<Longrightarrow> length bs = 4 \<Longrightarrow>
      write_field k (find_field (cloud_layout s\<lparr>pc_data := d\<rparr>) ''normal_x'') bs (cloud_layout s\<lparr>pc_data := d\<rparr>) =
      Some (cloud_layout s\<lparr>pc_data := overwrite (k * point_bytes s + 12) bs d\<rparr>)"
    "sv_normals s \<noteq> [] \<Longrightarrow> length bs = 4 \<Longrightarrow>
      write_field k (find_field (cloud_layout s\<lparr>pc_data := d\<rparr>) ''normal_y'') bs (cloud_layout s\<lparr>pc_data := d\<rparr>) =
      Some (cloud_layout s\<lparr>pc_data := overwrite (k * point_bytes s + 16) bs d\<rparr>)"
    "sv_normals s \<noteq> [] \<Longrightarrow> length bs = 4 \<Longrightarrow>
      write_field k (find_field (cloud_layout s\<lparr>pc_data := d\<rparr>) ''normal_z'') bs (cloud_layout s\<lparr>pc_data := d\<rparr>) =
      Some (cloud_layout s\<lparr>pc_data := overwrite (k * point_bytes s + 20) bs d\<rparr>)"
proof -
  have p: "13 \<le> point_bytes s" "sv_normals s \<noteq> [] \<Longrightarrow> point_bytes s = 25" by (simp_all add: point_bytes_def)
  have room: "k * point_bytes s + off + m \<le> length d" if "off + m \<le> point_bytes s" for off m
    using assms(2) that by simp
  note W = write_layout_field [OF assms(1)]
  show "length bs = 4 \<Longrightarrow> write_field k (find_field (cloud_layout s\<lparr>pc_data := d\<rparr>) ''x'') bs (cloud_layout s\<lparr>pc_data := d\<rparr>) =
      Some (cloud_layout s\<lparr>pc_data := overwrite (k * point_bytes s + 0) bs d\<rparr>)"
    using p by (intro W [OF cloud_layout_fields(1)] room) simp_all
  show "length bs = 4 \<Longrightarrow> write_field k (find_field (cloud_layout s\<lparr>pc_data := d\<rparr>) ''y'') bs (cloud_layout s\<lparr>pc_data := d\<rparr>) =
      Some (cloud_layout s\<lparr>pc_data := overwrite (k * point_bytes s + 4) bs d\<rparr>)"
    using p by (intro W [OF cloud_layout_fields(2)] room) simp_all
  show "length bs = 4 \<Longrightarrow> write_field k (find_field (cloud_layout s\<lparr>pc_data := d\<rparr>) ''z'') bs (cloud_layout s\<lparr>pc_data := d\<rparr>) =
      Some (cloud_layout s\<lparr>pc_data := overwrite (k * point_bytes s + 8) bs d\<rparr>)"
    using p by (intro W [OF cloud_layout_fields(3)] room) simp_all
  show "write_field k (find_field (cloud_layout s\<lparr>pc_data := d\<rparr>) ''valid'') [m] (cloud_layout s\<lparr>pc_data := d\<rparr>) =
      Some (cloud_layout s\<lparr>pc_data := overwrite (k * point_bytes s + (if sv_normals s \<noteq> [] then 24 else 12)) [m] d\<rparr>)"
    using p by (intro W [OF cloud_layout_fields(4)] room) simp_all
  show "sv_normals s \<noteq> [] \<Longrightarrow> length bs = 4 \<Longrightarrow>
      write_field k (find_field (cloud_layout s\<lparr>pc_data := d\<rparr>) ''normal_x'') bs (cloud_layout s\<lparr>pc_data := d\<rparr>) =
      Some (cloud_layout s\<lparr>pc_data := overwrite (k * point_bytes s + 12) bs d\<rparr>)"
    using p by (intro W [OF cloud_layout_normals(1)] room) simp_all
  show "sv_normals s \<noteq> [] \<Longrightarrow> length bs = 4 \<Longrightarrow>
      write_field k (find_field (cloud_layout s\<lparr>pc_data := d\<rparr>) ''normal_y'') bs (cloud_layout s\<lparr>pc_data := d\<rparr>) =
      Some (cloud_layout s\<lparr>pc_data := overwrite (k * point_bytes s + 16) bs d\<rparr>)"
    using p by (intro W [OF cloud_layout_normals(2)] room) simp_all
  show "sv_normals s \<noteq> [] \<Longrightarrow> length bs = 4 \<Longrightarrow>
      write_field k (find_field (cloud_layout s\<lparr>pc_data := d\<rparr>) ''normal_z'') bs (cloud_layout s\<lparr>pc_data := d\<rparr>) =
      Some (cloud_layout s\<lparr>pc_data := overwrite (k * point_bytes s + 20) bs d\<rparr>)"
    using p by (intro W [OF cloud_layout_normals(3)] room) simp_all
qed

lemma encode_sample_bytes:
  assumes "encodable s" "length front = k * point_bytes s"
  shows "encode_sample s (k, i) (cloud_layout s\<lparr>pc_data := front @ replicate (point_bytes s) 0 @ post\<rparr>, dense) =
    Some (cloud_layout s\<lparr>pc_data := front @ sample_bytes s i @ post\<rparr>, dense \<and> mask_at s i = 1)"
proof -
  let ?p = "point_bytes s" and ?C = "\<lambda>mid. cloud_layout s\<lparr>pc_data := front @ mid @ post\<rparr>"
  have step: "write_field k (find_field (?C mid) name) bs (?C mid) = Some (?C (overwrite off bs mid))"
    if "write_field k (find_field (?C mid) name) bs (?C mid) =
        Some (cloud_layout s\<lparr>pc_data := overwrite (k * ?p + off) bs (front @ mid @ post)\<rparr>)"
      "off + length bs \<le> length mid" for name off bs mid
    using overwrite_middle [OF that(2), of front post] assms(2) that(1) by simp
  have p: "13 \<le> ?p" "sv_normals s \<noteq> [] \<Longrightarrow> ?p = 25" by (simp_all add: point_bytes_def)
  have fits: "Suc k * ?p \<le> length (front @ mid @ post)" if "length mid = ?p" for mid :: "u8 list"
    using that assms(2) by simp
  note W = write_layout_fields [OF assms(1) fits]
  have xyz: "write_vec3 k ''x'' ''y'' ''z'' v (?C mid) =
      Some (?C (overwrite 8 (float_bytes (vz v)) (overwrite 4 (float_bytes (vy v)) (overwrite 0 (float_bytes (vx v)) mid))))"
    if m: "length mid = ?p" for v mid
    unfolding write_vec3_def using p(1) m by (simp add: step [OF W(1)] step [OF W(2)] step [OF W(3)])
  have normals: "write_vec3 k ''normal_x'' ''normal_y'' ''normal_z'' v (?C mid) =
      Some (?C (overwrite 20 (float_bytes (vz v)) (overwrite 16 (float_bytes (vy v)) (overwrite 12 (float_bytes (vx v)) mid))))"
    if n: "sv_normals s \<noteq> []" and m: "length mid = ?p" for v mid
    unfolding write_vec3_def using p(2) [OF n] m n by (simp add: step [OF W(5)] step [OF W(6)] step [OF W(7)])
  have valid: "write_field k (find_field (?C mid) ''valid'') [m] (?C mid) =
      Some (?C (overwrite (if sv_normals s \<noteq> [] then 24 else 12) [m] mid))" if "length mid = ?p" for m mid
    using that by (intro step [OF W(4)]) (simp_all add: point_bytes_def)
  show ?thesis
    unfolding encode_sample_def Let_def prod.case
    using p by (cases "sv_normals s = []")
      (simp_all add: xyz normals valid overwrite_sample(2) overwrite_points sample_bytes_def vec3_bytes_def point_bytes_def)
qed

text \<open>The bytes of a surface: its samples in traversal order.\<close>

definition surface_bytes :: "Surface \<Rightarrow> u8 list" where
  "surface_bytes s = concat (map (sample_bytes s) (logical_indices s))"

lemma encode_samples:
  assumes "encodable s" "length front = k * point_bytes s"
  shows "foldO (encode_sample s) (List.enumerate k is)
      (cloud_layout s\<lparr>pc_data := front @ replicate (length is * point_bytes s) 0\<rparr>, dense) =
    Some (cloud_layout s\<lparr>pc_data := front @ concat (map (sample_bytes s) is)\<rparr>, dense \<and> (\<forall>i \<in> set is. mask_at s i = 1))"
  using assms(2)
proof (induction "is" arbitrary: k front dense)
  case (Cons i js)
  let ?p = "point_bytes s"
  have "replicate (length (i # js) * ?p) (0 :: u8) = replicate ?p 0 @ replicate (length js * ?p) 0"
    by (simp add: replicate_add)
  then have "encode_sample s (k, i) (cloud_layout s\<lparr>pc_data := front @ replicate (length (i # js) * ?p) 0\<rparr>, dense) =
      Some (cloud_layout s\<lparr>pc_data := (front @ sample_bytes s i) @ replicate (length js * ?p) 0\<rparr>, dense \<and> mask_at s i = 1)"
    using encode_sample_bytes [OF assms(1) Cons.prems] by simp
  moreover have "length (front @ sample_bytes s i) = Suc k * ?p" using Cons.prems by simp
  note Cons.IH [OF this, of "dense \<and> mask_at s i = 1"]
  ultimately show ?case by (simp del: append_assoc)
qed simp

lemma encode_cloud_bytes:
  assumes "encodable s"
  shows "\<exists>dense. encode_cloud s = Some (cloud_layout s\<lparr>pc_data := surface_bytes s, pc_is_dense := dense\<rparr>)"
proof -
  have "cloud_layout s = cloud_layout s\<lparr>pc_data := [] @ replicate (length (logical_indices s) * point_bytes s) 0\<rparr>"
    using cloud_layout_extent(5) [OF assms] logical_count [of s] assms by (simp add: encodable_def)
  then show ?thesis
    using encode_samples [OF assms, of "[]" 0 "logical_indices s" True]
    by (intro exI) (simp add: encode_cloud_def surface_bytes_def)
qed

subsection \<open>Decoding recovers the samples\<close>

lemma length_surface_bytes: "surface_ok s \<Longrightarrow> length (surface_bytes s) = unat (sv_size s) * point_bytes s"
  using length_concat_chunks [of "map (sample_bytes s) (logical_indices s)" "point_bytes s"] logical_count [of s]
  by (simp add: surface_bytes_def)

lemma read_layout_field:
  assumes "encodable s" "find_field (cloud_layout s\<lparr>pc_data := surface_bytes s\<rparr>) name = Some f" "unat (pf_offset f) = off"
    and "k < unat (sv_size s)" "off + m \<le> point_bytes s"
  shows "read_bytes (cloud_layout s\<lparr>pc_data := surface_bytes s, pc_is_dense := dense\<rparr>) m k (Some f) =
    Some (take m (drop off (sample_bytes s (logical_indices s ! k))))"
proof -
  have n: "k < length (map (sample_bytes s) (logical_indices s))"
    using assms(1,4) logical_count [of s] by (simp add: encodable_def)
  have "\<forall>c \<in> set (map (sample_bytes s) (logical_indices s)). length c = point_bytes s" by simp
  note chunk = read_chunk [OF this n assms(5)]
  have "storage_offset (cloud_layout s\<lparr>pc_data := surface_bytes s, pc_is_dense := dense\<rparr>) k = k * point_bytes s"
    using cloud_layout_offset [OF assms(1)] by (simp add: storage_offset_def)
  then show ?thesis
    using chunk n assms(3) cloud_layout_extent(6) [OF assms(1)]
    by (simp add: read_bytes_def surface_bytes_def [symmetric])
qed

text \<open>The cloud that the encoder makes, with its density flag open.\<close>

definition encoded_cloud :: "Surface \<Rightarrow> bool \<Rightarrow> PCLPointCloud2" where
  "encoded_cloud s dense = cloud_layout s\<lparr>pc_data := surface_bytes s, pc_is_dense := dense\<rparr>"

lemma find_encoded_field:
  "find_field (encoded_cloud s dense) name = find_field (cloud_layout s\<lparr>pc_data := surface_bytes s\<rparr>) name"
  by (simp add: encoded_cloud_def find_field_def)

lemma encoded_cloud_extent:
  assumes "encodable s"
  shows "unat (pc_width (encoded_cloud s dense)) = fst (extent s)" "unat (pc_height (encoded_cloud s dense)) = snd (extent s)"
    "unat (pc_point_step (encoded_cloud s dense)) = point_bytes s"
    "unat (pc_row_step (encoded_cloud s dense)) = fst (extent s) * point_bytes s"
    "pc_data (encoded_cloud s dense) = surface_bytes s"
  using cloud_layout_extent [OF assms] by (simp_all add: encoded_cloud_def)

lemma read_encoded_float:
  assumes "encodable s" "k < unat (sv_size s)" "find_field (cloud_layout s\<lparr>pc_data := surface_bytes s\<rparr>) name = Some f"
    and "unat (pf_offset f) = off" "off + 4 \<le> point_bytes s" "in_format v"
    and "take 4 (drop off (sample_bytes s (logical_indices s ! k))) = float_bytes v"
  shows "read_float (encoded_cloud s dense) k (find_field (encoded_cloud s dense) name) = Some v"
  using read_layout_field [OF assms(1,3,4,2,5)] assms(3,6,7)
  by (simp add: read_float_def find_encoded_field encoded_cloud_def [symmetric] float_bytes_round_trip)

lemma read_encoded_point:
  assumes "encodable s" "k < unat (sv_size s)" "in_format3 (sv_points s ! (logical_indices s ! k))"
  shows "read_vec3 (encoded_cloud s dense) k ''x'' ''y'' ''z'' = Some (sv_points s ! (logical_indices s ! k))"
proof -
  let ?v = "sv_points s ! (logical_indices s ! k)"
  have p: "12 \<le> point_bytes s" by (simp add: point_bytes_def)
  have f: "in_format (vx ?v)" "in_format (vy ?v)" "in_format (vz ?v)" using assms(3) by (simp_all add: in_format3_def)
  note R = read_encoded_float [OF assms(1,2)]
  have "read_float (encoded_cloud s dense) k (find_field (encoded_cloud s dense) ''x'') = Some (vx ?v)"
    "read_float (encoded_cloud s dense) k (find_field (encoded_cloud s dense) ''y'') = Some (vy ?v)"
    "read_float (encoded_cloud s dense) k (find_field (encoded_cloud s dense) ''z'') = Some (vz ?v)"
    using p f by (auto intro!: R cloud_layout_fields simp: sample_bytes_def vec3_bytes_def)
  then show ?thesis by (simp add: read_vec3_def)
qed

lemma read_encoded_normal:
  assumes "encodable s" "k < unat (sv_size s)" "sv_normals s \<noteq> []" "in_format3 (sv_normals s ! (logical_indices s ! k))"
  shows "read_vec3 (encoded_cloud s dense) k ''normal_x'' ''normal_y'' ''normal_z'' =
    Some (sv_normals s ! (logical_indices s ! k))"
proof -
  let ?v = "sv_normals s ! (logical_indices s ! k)"
  have p: "25 \<le> point_bytes s" using assms(3) by (simp add: point_bytes_def)
  have f: "in_format (vx ?v)" "in_format (vy ?v)" "in_format (vz ?v)" using assms(4) by (simp_all add: in_format3_def)
  note R = read_encoded_float [OF assms(1,2)]
  have "read_float (encoded_cloud s dense) k (find_field (encoded_cloud s dense) ''normal_x'') = Some (vx ?v)"
    "read_float (encoded_cloud s dense) k (find_field (encoded_cloud s dense) ''normal_y'') = Some (vy ?v)"
    "read_float (encoded_cloud s dense) k (find_field (encoded_cloud s dense) ''normal_z'') = Some (vz ?v)"
    using p f assms(3) by (auto intro!: R cloud_layout_normals simp: sample_bytes_def vec3_bytes_def)
  then show ?thesis by (simp add: read_vec3_def)
qed

lemma read_encoded_mask:
  assumes "encodable s" "k < unat (sv_size s)"
  shows "read_byte (encoded_cloud s dense) k (find_field (encoded_cloud s dense) ''valid'') =
    Some (mask_at s (logical_indices s ! k))"
  using read_layout_field [OF assms(1) cloud_layout_fields(4) refl assms(2), of 1]
  by (simp add: read_byte_def find_encoded_field cloud_layout_fields encoded_cloud_def [symmetric] point_bytes_def
      sample_bytes_def)

text \<open>A surface whose logical samples are floating-point numbers of the C++ type \<open>float\<close>.\<close>

definition float_samples :: "Surface \<Rightarrow> bool" where
  "float_samples s \<longleftrightarrow> list_all (\<lambda>i. in_format3 (sv_points s ! i) \<and>
     (sv_normals s \<noteq> [] \<longrightarrow> in_format3 (sv_normals s ! i))) (logical_indices s)"

lemma sample_at:
  assumes "encodable s" "float_samples s" "k < unat (sv_size s)"
  shows "logical_indices s ! k \<in> set (logical_indices s)"
    "point_ok (sv_points s) (sv_normals s) (sv_valid s) (logical_indices s ! k)"
    "in_format3 (sv_points s ! (logical_indices s ! k))"
    "sv_normals s \<noteq> [] \<Longrightarrow> in_format3 (sv_normals s ! (logical_indices s ! k))"
proof -
  have s: "surface_ok s" using assms(1) by (simp add: encodable_def)
  show i: "logical_indices s ! k \<in> set (logical_indices s)"
    using assms(3) logical_count [OF s] by simp
  show "point_ok (sv_points s) (sv_normals s) (sv_valid s) (logical_indices s ! k)"
    using s i by (simp add: surface_ok_def surface_data_ok_def list_all_iff logical_indices_def storage_size_def)
  show "in_format3 (sv_points s ! (logical_indices s ! k))"
    "sv_normals s \<noteq> [] \<Longrightarrow> in_format3 (sv_normals s ! (logical_indices s ! k))"
    using assms(2) i by (auto simp: float_samples_def list_all_iff)
qed

lemma decode_encoded_sample:
  assumes "encodable s" "float_samples s" "k < unat (sv_size s)"
  defines "i \<equiv> logical_indices s ! k"
  shows "decode_sample (encoded_cloud s dense) path format k st = Some (Inr (st\<lparr>ds_points := ds_points st @ [sv_points s ! i],
     ds_normals := ds_normals st @ (if sv_normals s \<noteq> [] then [sv_normals s ! i] else []),
     ds_mask := ds_mask st @ [mask_at s i]\<rparr>))"
proof -
  note at = sample_at [OF assms(1-3)]
  have ok: "\<not> 1 < mask_at s i" "mask_at s i = 1 \<Longrightarrow> is_finite3 (sv_points s ! i) \<and> (sv_normals s \<noteq> [] \<longrightarrow> is_finite3 (sv_normals s ! i))"
    using at(2) mask_le_one [of "mask_at s i"] unfolding i_def mask_at_def point_ok_def by (auto split: if_splits)
  have valid: "find_field (encoded_cloud s dense) ''valid'' \<noteq> None"
    by (simp add: find_encoded_field cloud_layout_fields)
  have mask: "decode_mask (encoded_cloud s dense) path format k fin st' = Some (Inr (st'\<lparr>ds_mask := ds_mask st' @ [mask_at s i]\<rparr>))"
    if "mask_at s i = 1 \<Longrightarrow> fin" for fin st'
    using valid ok(1) that read_encoded_mask [OF assms(1,3), of dense]
    by (auto simp: decode_mask_def require_def i_def)
  show ?thesis
  proof (cases "sv_normals s = []")
    case True
    then show ?thesis
      using ok(2) read_encoded_point [OF assms(1,3) at(3), of dense]
      by (simp add: decode_sample_def find_encoded_field cloud_layout_fields mask i_def [symmetric])
  next
    case False
    then show ?thesis
      using ok(2) read_encoded_point [OF assms(1,3) at(3), of dense] read_encoded_normal [OF assms(1,3) False at(4) [OF False], of dense]
      by (simp add: decode_sample_def find_encoded_field cloud_layout_fields mask i_def [symmetric])
  qed
qed

lemma decode_encoded_samples:
  assumes "encodable s" "float_samples s" "\<forall>k \<in> set ks. k < unat (sv_size s)"
  defines "js \<equiv> map (\<lambda>k. logical_indices s ! k) ks"
  shows "decode_samples (encoded_cloud s dense) path format ks st = Some (Inr (st\<lparr>
     ds_points := ds_points st @ map (\<lambda>i. sv_points s ! i) js,
     ds_normals := ds_normals st @ (if sv_normals s \<noteq> [] then map (\<lambda>i. sv_normals s ! i) js else []),
     ds_mask := ds_mask st @ map (mask_at s) js\<rparr>))"
  using assms(3) unfolding js_def
  by (induction ks arbitrary: st) (simp_all add: decode_encoded_sample [OF assms(1,2)])

lemma validate_encoded:
  assumes "encodable s"
  shows "validate_fields (encoded_cloud s dense) path format = Inr (unat (sv_size s))"
proof -
  let ?c = "encoded_cloud s dense" and ?w = "fst (extent s)" and ?h = "snd (extent s)" and ?p = "point_bytes s"
  have s: "surface_ok s" using assms by (simp add: encodable_def)
  note e = extent_size [OF s] and b = encodable_bounds [OF assms] and x = encoded_cloud_extent [OF assms, of dense]
  have h: "pc_height ?c \<noteq> 0" using x(2) e(3) by auto
  have step: "pc_point_step ?c \<noteq> 0" using x(3) by (auto simp: point_bytes_def split: if_splits)
  have count: "unat (ucast (pc_width ?c) * ucast (pc_height ?c) :: size_w) = unat (sv_size s)"
    using b(1) e(1) x(1,2) by (simp add: unat_word_ariths)
  then have positive: "(ucast (pc_width ?c) * ucast (pc_height ?c) :: size_w) \<noteq> 0" using b(4) by auto
  have row: "unat (ucast (pc_width ?c) * ucast (pc_point_step ?c) :: size_w) = ?w * ?p"
    using b(2) x(1,3) by (simp add: unat_word_ariths)
  then have rows: "\<not> (ucast (pc_row_step ?c) :: size_w) < ucast (pc_width ?c) * ucast (pc_point_step ?c)"
    using x(4) by (simp add: word_less_nat_alt)
  have total: "(?h - 1) * (?w * ?p) + ?w * ?p = unat (sv_size s) * ?p"
    using e by (cases ?h) (simp_all add: algebra_simps)
  moreover have "unat (ucast (pc_height ?c) - 1 :: size_w) = ?h - 1"
    using x(2) e(3) unat_minus_one [OF h] by (simp add: unat_sub word_le_nat_alt)
  moreover have "(?h - 1) * (?w * ?p) < 2 ^ 64" using total b(3) by simp
  ultimately have "unat ((ucast (pc_height ?c) - 1) * ucast (pc_row_step ?c) + ucast (pc_width ?c) * ucast (pc_point_step ?c) :: size_w) =
      unat (sv_size s) * ?p"
    using b(3) x(4) row by (simp add: unat_word_ariths)
  moreover have "unat (size_of (pc_data ?c)) = unat (sv_size s) * ?p"
    using x(5) length_surface_bytes [OF s] b(3) by (simp add: size_of_def unat_of_nat del: of_nat_mult)
  ultimately have storage: "\<not> size_of (pc_data ?c) <
      (ucast (pc_height ?c) - 1) * ucast (pc_row_step ?c) + ucast (pc_width ?c) * ucast (pc_point_step ?c)"
    by (simp add: word_less_nat_alt)
  show ?thesis
    unfolding validate_fields_def Let_def
    using h step positive rows storage count
    by (simp add: find_encoded_field cloud_layout_fields is_float_scalar_def require_def)
qed

text \<open>
  What a file keeps of a surface: the logical samples in traversal order without padding, an explicit
  mask, and a dense grid when it has more than one row.
\<close>

definition file_surface :: "Surface \<Rightarrow> LengthUnit \<Rightarrow> FrameId \<Rightarrow> Surface" where
  "file_surface s u frame =
     \<lparr>sv_points = map (\<lambda>i. sv_points s ! i) (logical_indices s),
      sv_normals = (if sv_normals s \<noteq> [] then map (\<lambda>i. sv_normals s ! i) (logical_indices s) else []),
      sv_valid = map (mask_at s) (logical_indices s),
      sv_grid = (case sv_grid s of None \<Rightarrow> None
        | Some g \<Rightarrow> if 1 < grid_height g then Some (g\<lparr>grid_row_stride := grid_width g\<rparr>) else None),
      sv_unit = u, sv_frame = frame, sv_size = sv_size s\<rparr>"

lemma file_surface_ok:
  assumes "surface_ok s"
  shows "surface_ok (file_surface s u frame)"
proof -
  let ?n = "unat (sv_size s)" and ?c = "file_surface s u frame"
  note s = assms
  note n = logical_count [OF s] and e = extent_size [OF s]
  have nonempty: "logical_indices s \<noteq> []" using n e by auto
  have grid: "grid_matches ?n (sv_grid ?c)" "length (storage_indices ?n (sv_grid ?c)) = ?n"
  proof -
    have *: "g\<lparr>grid_row_stride := grid_width g\<rparr> = \<lparr>grid_width = grid_width g, grid_height = grid_height g, grid_row_stride = grid_width g\<rparr>"
      for g :: GridTopology by (cases g) simp
    have arith: "(h - Suc 0) * w + w = w * h" if "0 < h" for h w :: nat using that by (cases h) simp_all
    show "grid_matches ?n (sv_grid ?c)" "length (storage_indices ?n (sv_grid ?c)) = ?n"
      using e s by (auto simp: file_surface_def grid_matches_def storage_indices_def length_grid_indices storage_of_def
          extent_def surface_ok_def surface_data_ok_def unat_gt_0 arith split: option.splits)
  qed
  have "point_ok (sv_points ?c) (sv_normals ?c) (sv_valid ?c) k" if "k < ?n" for k
  proof -
    have "logical_indices s ! k \<in> set (logical_indices s)" using that n by simp
    then have "point_ok (sv_points s) (sv_normals s) (sv_valid s) (logical_indices s ! k)"
      using s by (simp add: surface_ok_def surface_data_ok_def list_all_iff logical_indices_def storage_size_def)
    then show ?thesis using that n nonempty by (auto simp: file_surface_def point_ok_def mask_at_def)
  qed
  then have "list_all (point_ok (sv_points ?c) (sv_normals ?c) (sv_valid ?c)) (storage_indices ?n (sv_grid ?c))"
    using storage_indices_facts(2) [OF grid(1)] by (simp add: list_all_iff)
  moreover have "length (sv_points ?c) = ?n" "sv_points ?c \<noteq> []" "length (sv_valid ?c) = ?n"
    "sv_normals ?c = [] \<or> length (sv_normals ?c) = ?n" "sv_size ?c = sv_size s"
    using n nonempty by (simp_all add: file_surface_def)
  ultimately show ?thesis
    using grid unfolding surface_ok_def surface_data_ok_def logical_indices_def storage_size_def
    by simp
qed

lemma Surface_create_ok:
  assumes "surface_ok t"
  shows "Surface_create (sv_points t) (sv_normals t) (sv_valid t) (sv_grid t) (sv_unit t) (sv_frame t) = Inr t"
proof -
  note sizes = surface_ok_sizes [OF assms]
  have "validate_surface_data (sv_points t) (sv_normals t) (sv_valid t) (sv_grid t) = Inr (sv_size t)"
    using assms unfolding validate_surface_data_Inr_iff [OF sizes]
    by (simp add: surface_ok_def logical_indices_def storage_size_def)
  then show ?thesis by (simp add: Surface_create_def)
qed

lemma decode_encoded_cloud:
  assumes "encodable s" "float_samples s"
  shows "decode_cloud (encoded_cloud s dense) u frame path format = Some (Inr (file_surface s u frame))"
proof -
  let ?c = "encoded_cloud s dense"
  have s: "surface_ok s" using assms(1) by (simp add: encodable_def)
  note n = logical_count [OF s]
  have "map ((!) (logical_indices s)) [0..<unat (sv_size s)] = logical_indices s"
    using n by (metis map_nth)
  then have samples: "decode_samples ?c path format [0..<unat (sv_size s)]
      \<lparr>ds_points = [], ds_normals = [], ds_mask = [], ds_derived_mask_needed = False\<rparr> =
    Some (Inr \<lparr>ds_points = sv_points (file_surface s u frame), ds_normals = sv_normals (file_surface s u frame),
      ds_mask = sv_valid (file_surface s u frame), ds_derived_mask_needed = False\<rparr>)"
    by (subst decode_encoded_samples [OF assms]) (auto simp: file_surface_def)
  have "(if 1 < pc_height ?c then Some \<lparr>grid_width = pc_width ?c, grid_height = pc_height ?c, grid_row_stride = pc_width ?c\<rparr>
      else None) = sv_grid (file_surface s u frame)"
    by (cases "sv_grid s") (simp_all add: encoded_cloud_def cloud_layout_def Let_def add_field_def file_surface_def)
  then show ?thesis
    using Surface_create_ok [OF file_surface_ok [OF s, of u frame]]
    by (simp add: decode_cloud_def validate_encoded [OF assms(1)] samples find_encoded_field cloud_layout_fields Let_def)
       (simp add: file_surface_def)
qed

text \<open>
  Encoding a surface as a byte cloud and decoding that cloud gives the surface back as a file can
  hold it: the logical points and normals bit for bit in traversal order, the mask made explicit, and the
  grid without its row padding (none when it has a single row). The bytes of the cloud must fit the
  32-bit extents of PCL.
\<close>
theorem cloud_round_trip:
  assumes "encodable s" "float_samples s"
  shows "\<exists>cloud. encode_cloud s = Some cloud \<and>
    decode_cloud cloud u frame path format = Some (Inr (file_surface s u frame))"
  using encode_cloud_bytes [OF assms(1)] decode_encoded_cloud [OF assms] by (auto simp: encoded_cloud_def)

definition sample_grid_surface :: Surface where
  "sample_grid_surface = \<lparr>sv_points = [Vec3 1 0 0, Vec3 0 1 0, Vec3 0 0 1], sv_normals = [], sv_valid = [1, 0, 0],
     sv_grid = Some \<lparr>grid_width = 1, grid_height = 2, grid_row_stride = 2\<rparr>, sv_unit = meter, sv_frame = ''part'', sv_size = 2\<rparr>"

lemma sample_grid_surface_encodable: "encodable sample_grid_surface" "float_samples sample_grid_surface"
  by (simp_all add: encodable_def float_samples_def sample_grid_surface_def surface_ok_def surface_data_ok_def logical_indices_def
      storage_indices_def storage_size_def grid_indices_def grid_matches_def storage_of_def point_ok_def is_finite3_def
      in_format3_def upt_rec fp_eval)

lemma cloud_round_trip_witness:
  "\<exists>cloud. encode_cloud sample_grid_surface = Some cloud \<and>
     decode_cloud cloud millimeter ''scan'' ''a.pcd'' ''PCD'' = Some (Inr
       \<lparr>sv_points = [Vec3 1 0 0, Vec3 0 0 1], sv_normals = [], sv_valid = [1, 0],
        sv_grid = Some \<lparr>grid_width = 1, grid_height = 2, grid_row_stride = 1\<rparr>,
        sv_unit = millimeter, sv_frame = ''scan'', sv_size = 2\<rparr>)"
proof -
  have "file_surface sample_grid_surface millimeter ''scan'' =
       \<lparr>sv_points = [Vec3 1 0 0, Vec3 0 0 1], sv_normals = [], sv_valid = [1, 0],
        sv_grid = Some \<lparr>grid_width = 1, grid_height = 2, grid_row_stride = 1\<rparr>,
        sv_unit = millimeter, sv_frame = ''scan'', sv_size = 2\<rparr>"
    by (simp add: file_surface_def sample_grid_surface_def logical_indices_def storage_indices_def storage_size_def
        grid_indices_def mask_at_def upt_rec)
  then show ?thesis
    using cloud_round_trip [OF sample_grid_surface_encodable, of millimeter "''scan''" "''a.pcd''" "''PCD''"] by simp
qed

subsection \<open>Bounds of the decoder\<close>

definition field_width :: "u8 \<Rightarrow> nat" where
  "field_width datatype = (if datatype = UINT8 then 1 else 4)"

text \<open>What \<open>validate_fields\<close> leaves to the reader of the file: fields inside the point, and no normal of another type.\<close>

definition fields_inside :: "PCLPointCloud2 \<Rightarrow> bool" where
  "fields_inside cloud \<longleftrightarrow>
     list_all (\<lambda>f. unat (pf_offset f) + field_width (pf_datatype f) \<le> unat (pc_point_step cloud)) (pc_fields cloud) \<and>
     (find_field cloud ''normal_x'' \<noteq> None \<longrightarrow> is_float_scalar (find_field cloud ''normal_x''))"

lemma sample_offset_bound:
  fixes w h r p i n :: nat
  assumes "i < w * h" "w * p \<le> r" "(h - 1) * r + w * p \<le> n"
  shows "i div w * r + i mod w * p + p \<le> n"
proof -
  have w: "0 < w" using assms(1) by (cases w) simp_all
  have "i div w < h" using assms(1) by (simp add: less_mult_imp_div_less mult.commute)
  then have "i div w * r \<le> (h - 1) * r" by (intro mult_right_mono) simp_all
  moreover
  have "Suc (i mod w) * p \<le> w * p" using w by (intro mult_right_mono) (simp_all add: Suc_leI)
  then have "i mod w * p + p \<le> w * p" by simp
  ultimately show ?thesis using assms(3) by linarith
qed

lemma validated_storage:
  assumes "validate_fields cloud path format = Inr n" "length (pc_data cloud) < 2 ^ 64"
  shows "n = unat (pc_width cloud) * unat (pc_height cloud)" "0 < n"
    "unat (pc_width cloud) * unat (pc_point_step cloud) \<le> unat (pc_row_step cloud)"
    "(unat (pc_height cloud) - 1) * unat (pc_row_step cloud) + unat (pc_width cloud) * unat (pc_point_step cloud) \<le>
       length (pc_data cloud)"
proof -
  let ?w = "unat (pc_width cloud)" and ?h = "unat (pc_height cloud)" and ?r = "unat (pc_row_step cloud)"
    and ?p = "unat (pc_point_step cloud)"
  have bounds: "?w < 2 ^ 32" "?h < 2 ^ 32" "?r < 2 ^ 32" "?p < 2 ^ 32"
    using unat_less_u32 by simp_all
  have product: "unat (ucast a * ucast b :: size_w) = unat a * unat b" for a b :: u32
  proof -
    have "unat a * unat b \<le> (2 ^ 32 - 1) * (2 ^ 32 - 1)"
      using unat_less_u32 [of a] unat_less_u32 [of b] by (intro mult_mono) simp_all
    then show ?thesis by (simp add: unat_word_ariths)
  qed
  have v: "n = unat (ucast (pc_width cloud) * ucast (pc_height cloud) :: size_w)"
    "(ucast (pc_width cloud) * ucast (pc_height cloud) :: size_w) \<noteq> 0"
    "\<not> (ucast (pc_row_step cloud) :: size_w) < ucast (pc_width cloud) * ucast (pc_point_step cloud)"
    "\<not> size_of (pc_data cloud) < (if pc_height cloud = 0 then 0 else
       (ucast (pc_height cloud) - 1) * ucast (pc_row_step cloud) + ucast (pc_width cloud) * ucast (pc_point_step cloud))"
    using assms(1) unfolding validate_fields_def Let_def by (auto simp: require_def split: if_splits)
  show n: "n = ?w * ?h" using v(1) product by simp
  show "0 < n" using v(1,2) by (simp add: unat_gt_0)
  then have h: "pc_height cloud \<noteq> 0" "0 < ?h" using n by auto
  show row: "?w * ?p \<le> ?r" using v(3) product by (simp add: word_less_nat_alt)
  have "unat (ucast (pc_height cloud) - 1 :: size_w) = ?h - 1"
    using h(2) unat_minus_one [OF h(1)] by (simp add: unat_sub word_le_nat_alt)
  moreover have "(?h - 1) * ?r + ?w * ?p < 2 ^ 64"
  proof -
    have "(?h - 1) * ?r \<le> (2 ^ 32 - 2) * (2 ^ 32 - 1)" using bounds by (intro mult_mono) simp_all
    then show ?thesis using row bounds by simp
  qed
  ultimately show "(?h - 1) * ?r + ?w * ?p \<le> length (pc_data cloud)"
    using v(4) h(1) product [of "pc_width cloud" "pc_point_step cloud"] assms(2)
    by (simp add: word_less_nat_alt unat_word_ariths size_of_def unat_of_nat)
qed

lemma find_field_member: "find_field cloud name = Some f \<Longrightarrow> f \<in> set (pc_fields cloud)"
  by (auto simp: find_field_def find_Some_iff)

text \<open>A sample index of a validated cloud, with every access of the loop body inside the buffer.\<close>

definition readable :: "PCLPointCloud2 \<Rightarrow> nat \<Rightarrow> bool" where
  "readable cloud i \<longleftrightarrow> pc_width cloud \<noteq> 0 \<and>
     storage_offset cloud i + unat (pc_point_step cloud) \<le> length (pc_data cloud)"

lemma validated_readable:
  assumes "validate_fields cloud path format = Inr n" "length (pc_data cloud) < 2 ^ 64" "i < n"
  shows "readable cloud i"
proof -
  note v = validated_storage [OF assms(1,2)]
  have "i < unat (pc_width cloud) * unat (pc_height cloud)" using assms(3) v(1) by simp
  from sample_offset_bound [OF this v(3,4)] show ?thesis
    using v(1,2) by (auto simp: readable_def storage_offset_def Let_def)
qed

lemma read_bytes_defined:
  assumes "readable cloud i" "fields_inside cloud" "find_field cloud name = Some f" "m \<le> field_width (pf_datatype f)"
  shows "\<exists>bs. read_bytes cloud m i (Some f) = Some bs"
proof -
  have "unat (pf_offset f) + field_width (pf_datatype f) \<le> unat (pc_point_step cloud)"
    using assms(2) find_field_member [OF assms(3)] by (simp add: fields_inside_def list_all_iff)
  then show ?thesis using assms(1,4) by (simp add: read_bytes_def readable_def Let_def)
qed

lemma read_float_defined:
  assumes "readable cloud i" "fields_inside cloud" "is_float_scalar (find_field cloud name)"
  shows "\<exists>v. read_float cloud i (find_field cloud name) = Some v"
proof -
  obtain f where f: "find_field cloud name = Some f" "pf_datatype f = FLOAT32"
    using assms(3) by (auto simp: is_float_scalar_def split: option.splits)
  then show ?thesis
    using read_bytes_defined [OF assms(1,2) f(1), of 4]
    by (auto simp: read_float_def field_width_def FLOAT32_def UINT8_def)
qed

lemma read_vec3_defined:
  assumes "readable cloud i" "fields_inside cloud" "is_float_scalar (find_field cloud x)"
    "is_float_scalar (find_field cloud y)" "is_float_scalar (find_field cloud z)"
  shows "\<exists>v. read_vec3 cloud i x y z = Some v"
  using assms(3-5)[THEN read_float_defined [OF assms(1,2)]] by (auto simp: read_vec3_def)

lemma decode_mask_defined:
  assumes "readable cloud i" "fields_inside cloud"
  shows "decode_mask cloud path format i fin st \<noteq> None"
proof (cases "find_field cloud ''valid''")
  case (Some f)
  have "1 \<le> field_width (pf_datatype f)" by (simp add: field_width_def)
  from read_bytes_defined [OF assms Some this] Some show ?thesis by (auto simp: decode_mask_def read_byte_def)
qed (simp add: decode_mask_def)

lemma decode_sample_defined:
  assumes "validate_fields cloud path format = Inr n" "readable cloud i" "fields_inside cloud"
  shows "decode_sample cloud path format i st \<noteq> None"
proof -
  have "is_float_scalar (find_field cloud ''x'') \<and> is_float_scalar (find_field cloud ''y'') \<and> is_float_scalar (find_field cloud ''z'')"
    "is_float_scalar (find_field cloud ''normal_x'') \<Longrightarrow>
       is_float_scalar (find_field cloud ''normal_y'') \<and> is_float_scalar (find_field cloud ''normal_z'')"
    using assms(1) unfolding validate_fields_def Let_def by (auto simp: require_def split: if_splits)
  then show ?thesis
    using read_vec3_defined [OF assms(2,3), of "''x''" "''y''" "''z''"]
      read_vec3_defined [OF assms(2,3), of "''normal_x''" "''normal_y''" "''normal_z''"]
      decode_mask_defined [OF assms(2,3)] assms(3)
    by (auto simp: decode_sample_def fields_inside_def Let_def)
qed

lemma decode_samples_defined:
  assumes "validate_fields cloud path format = Inr n" "\<forall>i \<in> set is. readable cloud i" "fields_inside cloud"
  shows "decode_samples cloud path format is st \<noteq> None"
  using assms(2)
proof (induction "is" arbitrary: st)
  case (Cons i js)
  then have "decode_sample cloud path format i st \<noteq> None"
    using decode_sample_defined [OF assms(1) _ assms(3)] by simp
  then show ?case using Cons by (auto split: sum.splits)
qed simp

text \<open>
  C29. The decoder never reads outside the point data of a cloud whose fields lie inside the point and
  whose normals, if any, are floats: the storage check makes every access legal for any extents, steps
  and buffer size, with no wrap-around in its 64-bit arithmetic.
\<close>
theorem decode_in_bounds:
  assumes "fields_inside cloud" "length (pc_data cloud) < 2 ^ 64"
  shows "decode_cloud cloud u frame path format \<noteq> None"
proof (cases "validate_fields cloud path format")
  case (Inr n)
  have "\<forall>i \<in> set [0..<n]. readable cloud i" using validated_readable [OF Inr assms(2)] by simp
  then obtain r where "decode_samples cloud path format [0..<n]
      \<lparr>ds_points = [], ds_normals = [], ds_mask = [], ds_derived_mask_needed = False\<rparr> = Some r"
    using decode_samples_defined [OF Inr _ assms(1)] by blast
  then show ?thesis using Inr by (cases r) (simp_all add: decode_cloud_def Let_def)
qed (simp add: decode_cloud_def)

text \<open>A cloud that passes the checks with its \<open>z\<close> field outside the point.\<close>

definition sample_cloud :: "u32 \<Rightarrow> PCLPointCloud2" where
  "sample_cloud z_offset = \<lparr>pc_height = 1, pc_width = 1,
     pc_fields = [\<lparr>pf_name = ''x'', pf_offset = 0, pf_datatype = FLOAT32, pf_count = 1\<rparr>,
       \<lparr>pf_name = ''y'', pf_offset = 4, pf_datatype = FLOAT32, pf_count = 1\<rparr>,
       \<lparr>pf_name = ''z'', pf_offset = z_offset, pf_datatype = FLOAT32, pf_count = 1\<rparr>],
     pc_point_step = 12, pc_row_step = 12, pc_data = replicate 12 0, pc_is_dense = True\<rparr>"

lemma decode_in_bounds_witness: "decode_cloud (sample_cloud 8) meter ''scan'' ''a.pcd'' ''PCD'' \<noteq> None"
  by (rule decode_in_bounds) (simp_all add: fields_inside_def sample_cloud_def field_width_def FLOAT32_def UINT8_def find_field_def)

lemma decode_out_of_bounds: "decode_cloud (sample_cloud 12) meter ''scan'' ''a.pcd'' ''PCD'' = None"
proof -
  have "validate_fields (sample_cloud 12) ''a.pcd'' ''PCD'' = Inr 1"
    by (simp add: sample_cloud_def validate_fields_def find_field_def is_float_scalar_def size_of_def FLOAT32_def)
  moreover have "read_float (sample_cloud 12) 0 (find_field (sample_cloud 12) ''z'') = None"
    by (simp add: sample_cloud_def read_float_def read_bytes_def find_field_def storage_offset_def)
  then have "decode_sample (sample_cloud 12) ''a.pcd'' ''PCD'' 0 st = None" for st
    by (simp add: decode_sample_def read_vec3_def split: Option.bind_split)
  ultimately show ?thesis by (simp add: decode_cloud_def)
qed

subsection \<open>Files\<close>

text \<open>
  C28. Writing a surface to a binary PCD file and reading that file gives the surface back in the form
  of \<open>file_surface\<close>, when the library loads what it saved (it may set the density flag). The writer
  reports the number of logical points.
\<close>
theorem pcd_file_round_trip:
  assumes "encodable s" "float_samples s"
    and "write_pcd lib path s pcd_binary st = Some (Inr n, st')"
    and "\<And>cloud. cl_save_pcd lib path cloud True st = (Inr True, st') \<Longrightarrow>
      \<exists>dense. cl_load_pcd lib st' path = Inr (Some (cloud\<lparr>pc_is_dense := dense\<rparr>))"
  shows "n = unat (sv_size s) \<and> read_pcd lib st' path u frame = Some (Inr (file_surface s u frame))"
proof -
  obtain d where cloud: "encode_cloud s = Some (encoded_cloud s d)"
    using encode_cloud_bytes [OF assms(1)] by (auto simp: encoded_cloud_def)
  have valid: "validate_pcd_path path = Inr path"
    using assms(3) by (auto simp: write_pcd_def validate_pcd_path_def require_def split: sum.splits if_splits)
  have saved: "cl_save_pcd lib path (encoded_cloud s d) True st = (Inr True, st')" "n = unat (sv_size s)"
    using assms(3) valid cloud
    by (cases "cl_save_pcd lib path (encoded_cloud s d) True st";
        auto simp: write_pcd_def write_pcd_file_def split: sum.splits bool.splits)+
  obtain b where load: "cl_load_pcd lib st' path = Inr (Some (encoded_cloud s b))"
    using assms(4) [OF saved(1)] by (auto simp: encoded_cloud_def)
  have s: "surface_ok s" using assms(1) by (simp add: encodable_def)
  note x = encoded_cloud_extent [OF assms(1), of b] and e = extent_size [OF s]
  have "pc_width (encoded_cloud s b) \<noteq> 0" "pc_height (encoded_cloud s b) \<noteq> 0" using x(1,2) e by auto
  moreover have "pc_data (encoded_cloud s b) \<noteq> []"
    using x(5) length_surface_bytes [OF s] encodable_bounds(4) [OF assms(1)] by (auto simp: point_bytes_def split: if_splits)
  ultimately show ?thesis
    using saved(2) valid decode_encoded_cloud [OF assms(1,2), of b u frame path "''PCD''"]
    by (simp add: read_pcd_def read_pcd_file_def load)
qed

text \<open>A library that keeps the saved clouds in a map.\<close>

definition cloud_map :: "(string \<rightharpoonup> PCLPointCloud2) cloud_library" where
  "cloud_map = \<lparr>cl_load_ply = (\<lambda>st path. Inr (st path)), cl_save_ply = (\<lambda>path cloud _ st. (Inr True, st(path \<mapsto> cloud))),
     cl_load_pcd = (\<lambda>st path. Inr (st path)), cl_save_pcd = (\<lambda>path cloud _ st. (Inr True, st(path \<mapsto> cloud)))\<rparr>"

lemma pcd_file_round_trip_witness:
  "\<exists>disk. write_pcd cloud_map ''scan.PCD'' sample_grid_surface pcd_binary Map.empty = Some (Inr 2, disk) \<and>
     read_pcd cloud_map disk ''scan.PCD'' millimeter ''scan'' =
       Some (Inr (file_surface sample_grid_surface millimeter ''scan''))"
proof -
  obtain d where cloud: "encode_cloud sample_grid_surface = Some (encoded_cloud sample_grid_surface d)"
    using encode_cloud_bytes [OF sample_grid_surface_encodable(1)] by (auto simp: encoded_cloud_def)
  have path: "validate_pcd_path ''scan.PCD'' = Inr ''scan.PCD''"
    by (simp add: validate_pcd_path_def has_pcd_extension_def has_extension_def tolower_def char_of_def
        bit_iff_odd)
  let ?disk = "Map.empty(''scan.PCD'' \<mapsto> encoded_cloud sample_grid_surface d)"
  have wrote: "write_pcd cloud_map ''scan.PCD'' sample_grid_surface pcd_binary Map.empty = Some (Inr 2, ?disk)"
    using cloud by (simp add: write_pcd_def path write_pcd_file_def cloud_map_def)
       (simp add: sample_grid_surface_def)
  have law: "\<exists>dense. cl_load_pcd cloud_map ?disk ''scan.PCD'' = Inr (Some (c\<lparr>pc_is_dense := dense\<rparr>))"
    if "cl_save_pcd cloud_map ''scan.PCD'' c True Map.empty = (Inr True, ?disk)" for c
  proof (intro exI)
    have "Map.empty(''scan.PCD'' \<mapsto> c) = ?disk" using that by (simp add: cloud_map_def)
    from fun_cong [OF this, of "''scan.PCD''"] have "c = encoded_cloud sample_grid_surface d" by simp
    then show "cl_load_pcd cloud_map ?disk ''scan.PCD'' = Inr (Some (c\<lparr>pc_is_dense := pc_is_dense c\<rparr>))"
      by (simp add: cloud_map_def)
  qed
  show ?thesis
    using wrote pcd_file_round_trip [OF sample_grid_surface_encodable wrote law] by blast
qed

end
