(* ===== verification/PclConversion.thy ===== *)
theory PclConversion
  imports CloudFile
begin

text \<open>
  \<open>backends/pcl/pcl_backend.cpp\<close>: a surface as a PCL cloud and back. PCL's own conversion between typed
  point clouds and its byte cloud is a parameter; of the byte cloud the code reads only the extents.
\<close>

subsection \<open>Typed point clouds\<close>

record 'p point_cloud =
  pcl_points :: "'p list"
  pcl_width :: u32
  pcl_height :: u32
  pcl_is_dense :: bool

text \<open>\<open>toPCLPointCloud2\<close> on points with and without normals, \<open>fromPCLPointCloud2\<close> to points and to normals.\<close>

record 'c conversion_library =
  cv_width :: "'c \<Rightarrow> u32"
  cv_height :: "'c \<Rightarrow> u32"
  cv_to_xyz :: "Vec3f point_cloud \<Rightarrow> exn + 'c"
  cv_to_point_normal :: "(Vec3f \<times> Vec3f) point_cloud \<Rightarrow> exn + 'c"
  cv_from_xyz :: "'c \<Rightarrow> exn + Vec3f point_cloud"
  cv_from_normal :: "'c \<Rightarrow> exn + Vec3f point_cloud"

definition backend_error :: "string \<Rightarrow> Error" where
  "backend_error reason = \<lparr>err_code = internal_error, err_stage = stage_none,
     err_message = ''PCL surface conversion failed'', err_context = [(''reason'', reason)]\<rparr>"

record 'c PclSurface_Impl =
  ps_cloud :: 'c
  ps_valid :: "u8 list"
  ps_has_explicit_mask :: bool
  ps_has_normals :: bool

text \<open>The content of \<open>implementation_\<close>; \<open>None\<close> is a surface that was moved from.\<close>

type_synonym 'c PclSurface = "'c PclSurface_Impl option"

text \<open>A failed conversion is the exception it throws, as \<open>backend_error\<close>.\<close>

definition converting :: "exn + 'a \<Rightarrow> 'a Result" where
  "converting r = (case r of Inr x \<Rightarrow> Inr x | Inl e \<Rightarrow> Inl (backend_error (what e)))"

subsection \<open>The conversions\<close>

definition cloud_width :: "Surface \<Rightarrow> u32" where
  "cloud_width s = (case sv_grid s of Some g \<Rightarrow> grid_width g | None \<Rightarrow> ucast (sv_size s))"

definition cloud_height :: "Surface \<Rightarrow> u32" where
  "cloud_height s = (case sv_grid s of Some g \<Rightarrow> grid_height g | None \<Rightarrow> 1)"

definition to_pcl_surface :: "'c conversion_library \<Rightarrow> Surface \<Rightarrow> 'c PclSurface Result" where
  "to_pcl_surface lib s =
     (let has_normals = (sv_normals s \<noteq> []);
          width = cloud_width s;
          height = cloud_height s;
          valid = map (mask_at s) (logical_indices s);
          dense = list_all (\<lambda>v. v = 1) valid;
          make = (\<lambda>cloud. Some \<lparr>ps_cloud = cloud, ps_valid = valid, ps_has_explicit_mask = (sv_valid s \<noteq> []),
                                ps_has_normals = has_normals\<rparr>)
      in if has_normals
         then map_sum id make (converting (cv_to_point_normal lib
           \<lparr>pcl_points = map (\<lambda>i. (sv_points s ! i, sv_normals s ! i)) (logical_indices s),
            pcl_width = width, pcl_height = height, pcl_is_dense = dense\<rparr>))
         else map_sum id make (converting (cv_to_xyz lib
           \<lparr>pcl_points = map (\<lambda>i. sv_points s ! i) (logical_indices s),
            pcl_width = width, pcl_height = height, pcl_is_dense = dense\<rparr>)))"

definition read_normals :: "'c conversion_library \<Rightarrow> 'c PclSurface_Impl \<Rightarrow> size_w \<Rightarrow> Vec3f list Result" where
  "read_normals lib impl count =
     (if ps_has_normals impl
      then rbind (converting (cv_from_normal lib (ps_cloud impl))) (\<lambda>normal_cloud.
        require (size_of (pcl_points normal_cloud) = count) (backend_error ''normal conversion changed point count'')
          (Inr (pcl_points normal_cloud)))
      else Inr [])"

definition from_pcl_surface :: "'c conversion_library \<Rightarrow> 'c PclSurface \<Rightarrow> LengthUnit \<Rightarrow> FrameId \<Rightarrow> Surface Result" where
  "from_pcl_surface lib surface u frame = (case surface of
     None \<Rightarrow> Inl (backend_error ''backend surface was moved from'')
   | Some impl \<Rightarrow>
     (let cloud = ps_cloud impl;
          count = ucast (cv_width lib cloud) * ucast (cv_height lib cloud) :: size_w in
      require (\<not> (count = 0 \<or> count \<noteq> size_of (ps_valid impl))) (backend_error ''backend point count is inconsistent'') (
      rbind (converting (cv_from_xyz lib cloud)) (\<lambda>point_cloud.
      require (size_of (pcl_points point_cloud) = count) (backend_error ''XYZ conversion changed point count'') (
      rbind (read_normals lib impl count) (\<lambda>normals.
      Surface_create (pcl_points point_cloud) normals (if ps_has_explicit_mask impl then ps_valid impl else [])
        (if 1 < cv_height lib cloud
         then Some \<lparr>grid_width = cv_width lib cloud, grid_height = cv_height lib cloud, grid_row_stride = cv_width lib cloud\<rparr>
         else None) u frame))))))"

subsection \<open>Round trip\<close>

text \<open>What PCL promises of its conversions on clouds whose extents match: nothing is lost.\<close>

definition conversion_laws :: "'c conversion_library \<Rightarrow> bool" where
  "conversion_laws lib \<longleftrightarrow>
     (\<forall>c. length (pcl_points c) = unat (pcl_width c) * unat (pcl_height c) \<longrightarrow>
        (\<exists>m. cv_to_xyz lib c = Inr m \<and> cv_width lib m = pcl_width c \<and> cv_height lib m = pcl_height c \<and>
             cv_from_xyz lib m = Inr c)) \<and>
     (\<forall>c. length (pcl_points c) = unat (pcl_width c) * unat (pcl_height c) \<longrightarrow>
        (\<exists>m p n. cv_to_point_normal lib c = Inr m \<and> cv_width lib m = pcl_width c \<and> cv_height lib m = pcl_height c \<and>
             cv_from_xyz lib m = Inr p \<and> pcl_points p = map fst (pcl_points c) \<and>
             cv_from_normal lib m = Inr n \<and> pcl_points n = map snd (pcl_points c)))"

lemma size_of_eqI: "unat w = length xs \<Longrightarrow> w = size_of xs"
  by (metis of_nat_unat ucast_id size_of_def)

text \<open>The surface that comes back keeps an implicit mask implicit.\<close>

definition dense_surface :: "Surface \<Rightarrow> LengthUnit \<Rightarrow> FrameId \<Rightarrow> Surface" where
  "dense_surface s u frame = (file_surface s u frame)\<lparr>sv_valid := if sv_valid s = [] then [] else map (mask_at s) (logical_indices s)\<rparr>"

lemma dense_surface_ok:
  assumes "surface_ok s"
  shows "surface_ok (dense_surface s u frame)"
proof -
  have f: "surface_ok (file_surface s u frame)" by (rule file_surface_ok [OF assms])
  have ones: "sv_valid s = [] \<Longrightarrow> sv_valid (file_surface s u frame) = replicate (length (logical_indices s)) 1"
    by (auto simp: file_surface_def mask_at_def intro!: replicate_eqI)
  have len: "length (sv_points (file_surface s u frame)) = length (logical_indices s)" by (simp add: file_surface_def)
  have bound: "i < length (logical_indices s)"
    if "i \<in> set (storage_indices (length (logical_indices s)) (sv_grid (file_surface s u frame)))" for i
    using storage_indices_facts(2) [OF _ that] f len by (simp add: surface_ok_def surface_data_ok_def)
  show ?thesis
  proof (cases "sv_valid s = []")
    case True
    have "point_ok (sv_points (file_surface s u frame)) (sv_normals (file_surface s u frame)) [] i"
      if "i \<in> set (storage_indices (length (logical_indices s)) (sv_grid (file_surface s u frame)))" for i
      using f len bound [OF that] that ones [OF True]
      by (auto simp: surface_ok_def surface_data_ok_def list_all_iff point_ok_def)
    then show ?thesis using f len True
      by (simp add: dense_surface_def surface_ok_def surface_data_ok_def list_all_iff logical_indices_def storage_size_def)
  next
    case False
    have "dense_surface s u frame = file_surface s u frame"
      using False by (simp add: dense_surface_def file_surface_def)
    then show ?thesis using f by simp
  qed
qed

text \<open>
  C40. Converting a surface with a 32-bit number of logical points to a PCL cloud and back gives the
  same samples in traversal order: points, normals and mask are kept, row padding is removed, a single
  row loses its grid, and unit and frame are the ones given.
\<close>
theorem pcl_round_trip:
  assumes "conversion_laws lib" "surface_ok s" "unat (sv_size s) < 2 ^ 32"
  shows "\<exists>p. to_pcl_surface lib s = Inr p \<and> from_pcl_surface lib p u frame = Inr (dense_surface s u frame)"
proof -
  let ?w = "cloud_width s" and ?h = "cloud_height s" and ?is = "logical_indices s"
  have small: "unat (ucast (sv_size s) :: u32) = unat (sv_size s)"
    using assms(3) by (simp add: unsigned_ucast_eq take_bit_eq_mod)
  note n = logical_count [OF assms(2)] and e = extent_size [OF assms(2)]
  have extents: "length ?is = unat ?w * unat ?h"
    using n e(1) by (auto simp: extent_def cloud_width_def cloud_height_def small split: option.splits)
  have count: "unat (ucast ?w * ucast ?h :: size_w) = length ?is"
    using extents assms(3) n by (simp add: unat_word_ariths)
  note counts = size_of_eqI [where w = "ucast ?w * ucast ?h"]
  have nonzero: "(ucast ?w * ucast ?h :: size_w) \<noteq> 0" using count e n by auto
  have grid: "(if 1 < ?h then Some \<lparr>grid_width = ?w, grid_height = ?h, grid_row_stride = ?w\<rparr> else None) =
      sv_grid (dense_surface s u frame)"
    by (auto simp: dense_surface_def file_surface_def cloud_width_def cloud_height_def split: option.splits)
  have create: "Surface_create (map ((!) (sv_points s)) ?is) (if sv_normals s \<noteq> [] then map ((!) (sv_normals s)) ?is else [])
      (if sv_valid s \<noteq> [] then map (mask_at s) ?is else []) (sv_grid (dense_surface s u frame)) u frame =
      Inr (dense_surface s u frame)"
    using Surface_create_ok [OF dense_surface_ok [OF assms(2), of u frame]]
    by (auto simp: dense_surface_def file_surface_def split: if_splits)
  show ?thesis
  proof (cases "sv_normals s = []")
    case True
    let ?c = "\<lparr>pcl_points = map ((!) (sv_points s)) ?is, pcl_width = ?w, pcl_height = ?h,
      pcl_is_dense = list_all (\<lambda>v. v = 1) (map (mask_at s) ?is)\<rparr>"
    have "\<exists>m. cv_to_xyz lib ?c = Inr m \<and> cv_width lib m = pcl_width ?c \<and> cv_height lib m = pcl_height ?c \<and> cv_from_xyz lib m = Inr ?c"
      using assms(1) [unfolded conversion_laws_def, THEN conjunct1, rule_format, of ?c] extents by simp
    then obtain m where m: "cv_to_xyz lib ?c = Inr m" "cv_width lib m = ?w" "cv_height lib m = ?h" "cv_from_xyz lib m = Inr ?c"
      by auto
    show ?thesis
      using m True create grid nonzero counts [where xs = "map (mask_at s) ?is"] count counts [where xs = "map ((!) (sv_points s)) ?is"] count
      by (auto simp: to_pcl_surface_def from_pcl_surface_def read_normals_def converting_def Let_def)
  next
    case False
    let ?c = "\<lparr>pcl_points = map (\<lambda>i. (sv_points s ! i, sv_normals s ! i)) ?is, pcl_width = ?w, pcl_height = ?h,
      pcl_is_dense = list_all (\<lambda>v. v = 1) (map (mask_at s) ?is)\<rparr>"
    have "\<exists>m p q. cv_to_point_normal lib ?c = Inr m \<and> cv_width lib m = pcl_width ?c \<and> cv_height lib m = pcl_height ?c \<and>
             cv_from_xyz lib m = Inr p \<and> pcl_points p = map fst (pcl_points ?c) \<and>
             cv_from_normal lib m = Inr q \<and> pcl_points q = map snd (pcl_points ?c)"
      using assms(1) [unfolded conversion_laws_def, THEN conjunct2, rule_format, of ?c] extents by simp
    then obtain m p q where m: "cv_to_point_normal lib ?c = Inr m" "cv_width lib m = ?w" "cv_height lib m = ?h"
      "cv_from_xyz lib m = Inr p" "pcl_points p = map ((!) (sv_points s)) ?is"
      "cv_from_normal lib m = Inr q" "pcl_points q = map ((!) (sv_normals s)) ?is"
      by (auto simp: o_def)
    show ?thesis
      using m False create grid nonzero counts [where xs = "map (mask_at s) ?is"] count counts [where xs = "map ((!) (sv_points s)) ?is"] count
        counts [where xs = "map ((!) (sv_normals s)) ?is"] count
      by (auto simp: to_pcl_surface_def from_pcl_surface_def read_normals_def converting_def Let_def)
  qed
qed

text \<open>A library whose byte clouds are the typed clouds themselves.\<close>

definition typed_conversion :: "(Vec3f \<times> Vec3f) point_cloud conversion_library" where
  "typed_conversion = \<lparr>cv_width = pcl_width, cv_height = pcl_height,
     cv_to_xyz = (\<lambda>c. Inr \<lparr>pcl_points = map (\<lambda>p. (p, Vec3f_zero)) (pcl_points c), pcl_width = pcl_width c,
        pcl_height = pcl_height c, pcl_is_dense = pcl_is_dense c\<rparr>),
     cv_to_point_normal = Inr,
     cv_from_xyz = (\<lambda>c. Inr \<lparr>pcl_points = map fst (pcl_points c), pcl_width = pcl_width c,
        pcl_height = pcl_height c, pcl_is_dense = pcl_is_dense c\<rparr>),
     cv_from_normal = (\<lambda>c. Inr \<lparr>pcl_points = map snd (pcl_points c), pcl_width = pcl_width c,
        pcl_height = pcl_height c, pcl_is_dense = pcl_is_dense c\<rparr>)\<rparr>"

lemma typed_conversion_laws: "conversion_laws typed_conversion"
  by (simp add: conversion_laws_def typed_conversion_def o_def)

theorem pcl_round_trip_witness:
  "\<exists>p. to_pcl_surface typed_conversion sample_grid_surface = Inr p \<and>
     from_pcl_surface typed_conversion p millimeter ''scan'' = Inr
       \<lparr>sv_points = [Vec3 1 0 0, Vec3 0 0 1], sv_normals = [], sv_valid = [1, 0],
        sv_grid = Some \<lparr>grid_width = 1, grid_height = 2, grid_row_stride = 1\<rparr>,
        sv_unit = millimeter, sv_frame = ''scan'', sv_size = 2\<rparr>"
proof -
  have "surface_ok sample_grid_surface" "unat (sv_size sample_grid_surface) < 2 ^ 32"
    using sample_grid_surface_encodable(1) by (simp_all add: encodable_def)
  moreover have "dense_surface sample_grid_surface millimeter ''scan'' =
       \<lparr>sv_points = [Vec3 1 0 0, Vec3 0 0 1], sv_normals = [], sv_valid = [1, 0],
        sv_grid = Some \<lparr>grid_width = 1, grid_height = 2, grid_row_stride = 1\<rparr>,
        sv_unit = millimeter, sv_frame = ''scan'', sv_size = 2\<rparr>"
    by (simp add: dense_surface_def file_surface_def sample_grid_surface_def logical_indices_def storage_indices_def
        storage_size_def grid_indices_def mask_at_def upt_rec)
  ultimately show ?thesis
    using pcl_round_trip [OF typed_conversion_laws, of sample_grid_surface millimeter "''scan''"] by simp
qed

end
