(* ===== verification/Serialization.thy ===== *)
theory Serialization
  imports Pipeline "HOL-Library.Countable"
begin

text \<open>
  \<open>serialization/json_serialization.cpp\<close>: the JSON documents of a configuration and of a report.
  The JSON values come from nlohmann::json, which is not part of the repository: its document type is
  the type variable \<open>'j\<close>, and the operations the code calls on it are the fields of the record
  \<open>json_library\<close>. \<open>json_laws\<close> states what its documentation promises of them.
\<close>

subsection \<open>The JSON library\<close>

text \<open>
  \<open>jl_object\<close> is both the initializer list \<open>json{{key, value}, ...}\<close> and a sequence of assignments
  \<open>object[key] = value\<close> to a fresh value; \<open>jl_at\<close> is \<open>operator[]\<close> of a constant value; \<open>jl_value_string\<close>
  and \<open>jl_value_json\<close> are \<open>value(key, default)\<close>. The operations that convert or print may throw.
\<close>

record 'j json_library =
  jl_null :: 'j
  jl_bool :: "bool \<Rightarrow> 'j"
  jl_string :: "string \<Rightarrow> 'j"
  jl_unsigned :: "nat \<Rightarrow> 'j"
  jl_double :: "f64 \<Rightarrow> 'j"
  jl_array :: "'j list \<Rightarrow> 'j"
  jl_object :: "(string \<times> 'j) list \<Rightarrow> 'j"
  jl_is_null :: "'j \<Rightarrow> bool"
  jl_is_object :: "'j \<Rightarrow> bool"
  jl_contains :: "'j \<Rightarrow> string \<Rightarrow> bool"
  jl_at :: "'j \<Rightarrow> string \<Rightarrow> 'j"
  jl_get_string :: "'j \<Rightarrow> exn + string"
  jl_get_double :: "'j \<Rightarrow> exn + f64"
  jl_get_u32 :: "'j \<Rightarrow> exn + u32"
  jl_get_u64 :: "'j \<Rightarrow> exn + u64"
  jl_get_bool :: "'j \<Rightarrow> exn + bool"
  jl_value_string :: "'j \<Rightarrow> string \<Rightarrow> string \<Rightarrow> exn + string"
  jl_value_json :: "'j \<Rightarrow> string \<Rightarrow> 'j \<Rightarrow> exn + 'j"
  jl_dump :: "'j \<Rightarrow> exn + string"
  jl_dump_indented :: "nat \<Rightarrow> 'j \<Rightarrow> exn + string"
  jl_parse :: "string \<Rightarrow> exn + 'j"

subsection \<open>Enumerations\<close>

definition serialization_error :: "ErrorCode \<Rightarrow> string \<Rightarrow> Error" where
  "serialization_error code message =
     \<lparr>err_code = code, err_stage = stage_serialization, err_message = message, err_context = []\<rparr>"

fun unit_to_string :: "LengthUnit \<Rightarrow> string" where
  "unit_to_string millimeter = ''millimeter''"
| "unit_to_string meter = ''meter''"
| "unit_to_string micrometer = ''micrometer''"
| "unit_to_string (unnamed_unit _) = ''millimeter''"

definition unit_from_string :: "string \<Rightarrow> LengthUnit Result" where
  "unit_from_string s =
     (if s = ''millimeter'' then Inr millimeter
      else if s = ''meter'' then Inr meter
      else if s = ''micrometer'' then Inr micrometer
      else Inl (serialization_error invalid_input ''unknown length unit''))"

fun verdict_to_string :: "Verdict \<Rightarrow> string" where
  "verdict_to_string verdict_pass = ''pass''"
| "verdict_to_string verdict_fail = ''fail''"
| "verdict_to_string verdict_indeterminate = ''indeterminate''"

fun defect_type_to_string :: "ReportDefectType \<Rightarrow> string" where
  "defect_type_to_string report_dent = ''dent''"
| "defect_type_to_string report_bump = ''bump''"
| "defect_type_to_string report_missing_material = ''missing_material''"

fun severity_to_string :: "Severity \<Rightarrow> string" where
  "severity_to_string sev_info = ''info''"
| "severity_to_string sev_warning = ''warning''"
| "severity_to_string sev_reject = ''reject''"

fun error_code_to_string :: "ErrorCode \<Rightarrow> string" where
  "error_code_to_string invalid_argument = ''invalid_argument''"
| "error_code_to_string invalid_input = ''invalid_input''"
| "error_code_to_string unsupported_format = ''unsupported_format''"
| "error_code_to_string io_error = ''io_error''"
| "error_code_to_string registration_failed = ''registration_failed''"
| "error_code_to_string insufficient_coverage = ''insufficient_coverage''"
| "error_code_to_string serialization_failed = ''serialization_failed''"
| "error_code_to_string internal_error = ''internal_error''"

fun stage_to_string :: "PipelineStage \<Rightarrow> string" where
  "stage_to_string stage_none = ''none''"
| "stage_to_string stage_validate = ''validate''"
| "stage_to_string stage_normalize = ''normalize''"
| "stage_to_string stage_preprocess = ''preprocess''"
| "stage_to_string stage_registration = ''registration''"
| "stage_to_string stage_registration_gate = ''registration_gate''"
| "stage_to_string stage_transform = ''transform''"
| "stage_to_string stage_compare = ''compare''"
| "stage_to_string stage_coverage_gate = ''coverage_gate''"
| "stage_to_string stage_detect = ''detect''"
| "stage_to_string stage_finalize = ''finalize''"
| "stage_to_string stage_serialization = ''serialization''"

definition finite_number :: "'j json_library \<Rightarrow> f64 \<Rightarrow> 'j" where
  "finite_number L x = (if isfinite x then jl_double L x else jl_null L)"

definition optional_number :: "'j json_library \<Rightarrow> f64 option \<Rightarrow> 'j" where
  "optional_number L v = (case v of None \<Rightarrow> jl_null L | Some x \<Rightarrow> finite_number L x)"

text \<open>\<open>value ? json(*value) : json(nullptr)\<close> for the integers and flags of a configuration.\<close>

definition optional_word :: "'j json_library \<Rightarrow> 'w::len word option \<Rightarrow> 'j" where
  "optional_word L v = (case v of None \<Rightarrow> jl_null L | Some w \<Rightarrow> jl_unsigned L (unat w))"

definition optional_flag :: "'j json_library \<Rightarrow> bool option \<Rightarrow> 'j" where
  "optional_flag L v = (case v of None \<Rightarrow> jl_null L | Some b \<Rightarrow> jl_bool L b)"

subsection \<open>Configurations\<close>

definition serialize_transform :: "'j json_library \<Rightarrow> RigidTransform \<Rightarrow> 'j" where
  "serialize_transform L T = jl_object L
     [(''source_frame'', jl_string L (rt_source_frame T)),
      (''target_frame'', jl_string L (rt_target_frame T)),
      (''matrix'', jl_array L (map (jl_double L) (rt_matrix T)))]"

definition input_to_json :: "'j json_library \<Rightarrow> InputConfig \<Rightarrow> 'j" where
  "input_to_json L c = (let text = (\<lambda>v. case v of None \<Rightarrow> jl_string L '''' | Some s \<Rightarrow> jl_string L s) in
     jl_object L
       [(''reference_unit'', text (map_option unit_to_string (in_reference_unit c))),
        (''scan_unit'', text (map_option unit_to_string (in_scan_unit c))),
        (''reference_frame'', text (in_reference_frame c)),
        (''scan_frame'', text (in_scan_frame c))])"

definition preprocess_to_json :: "'j json_library \<Rightarrow> PreprocessConfig \<Rightarrow> 'j" where
  "preprocess_to_json L c = jl_object L
     [(''voxel_size_mm'', optional_number L (pp_voxel_size_mm c)),
      (''normal_radius_mm'', optional_number L (pp_normal_radius_mm c)),
      (''normal_min_neighbors'', optional_word L (pp_normal_min_neighbors c)),
      (''boundary_radius_mm'', optional_number L (pp_boundary_radius_mm c))]"

definition registration_to_json :: "'j json_library \<Rightarrow> RegistrationConfig \<Rightarrow> 'j" where
  "registration_to_json L c = jl_object L
     [(''method'', jl_string L (registration_method_name (rc_method c))),
      (''max_iterations'', optional_word L (rc_max_iterations c)),
      (''max_correspondence_distance_mm'', optional_number L (rc_max_correspondence_distance_mm c)),
      (''huber_delta_mm'', optional_number L (rc_huber_delta_mm c)),
      (''translation_epsilon_mm'', optional_number L (rc_translation_epsilon_mm c)),
      (''rotation_epsilon_rad'', optional_number L (rc_rotation_epsilon_rad c)),
      (''residual_epsilon_mm'', optional_number L (rc_residual_epsilon_mm c))]"

definition registration_gate_to_json :: "'j json_library \<Rightarrow> RegistrationGateConfig \<Rightarrow> 'j" where
  "registration_gate_to_json L c = jl_object L
     [(''min_overlap_ratio'', optional_number L (gc_min_overlap_ratio c)),
      (''max_inlier_rmse_mm'', optional_number L (gc_max_inlier_rmse_mm c)),
      (''min_valid_pairs'', optional_word L (gc_min_valid_pairs c)),
      (''max_translation_from_initial_mm'', optional_number L (gc_max_translation_from_initial_mm c)),
      (''max_rotation_from_initial_deg'', optional_number L (gc_max_rotation_from_initial_deg c))]"

definition comparison_to_json :: "'j json_library \<Rightarrow> ComparisonConfig \<Rightarrow> 'j" where
  "comparison_to_json L c = jl_object L
     [(''max_search_distance_mm'', optional_number L (cc_max_search_distance_mm c)),
      (''max_normal_angle_deg'', optional_number L (cc_max_normal_angle_deg c)),
      (''boundary_exclusion_mm'', optional_number L (cc_boundary_exclusion_mm c)),
      (''min_valid_coverage_ratio'', optional_number L (cc_min_valid_coverage_ratio c))]"

definition detection_to_json :: "'j json_library \<Rightarrow> DetectionConfig \<Rightarrow> 'j" where
  "detection_to_json L c = jl_object L
     [(''positive_threshold_mm'', optional_number L (dc_positive_threshold_mm c)),
      (''negative_threshold_mm'', optional_number L (dc_negative_threshold_mm c)),
      (''cluster_tolerance_mm'', optional_number L (dc_cluster_tolerance_mm c)),
      (''min_cluster_points'', optional_word L (dc_min_cluster_points c)),
      (''measurement_error_budget_mm'', optional_number L (dc_measurement_error_budget_mm c))]"

definition execution_to_json :: "'j json_library \<Rightarrow> ExecutionConfig \<Rightarrow> 'j" where
  "execution_to_json L c = jl_object L
     [(''backend'', jl_string L (compute_backend_name (ec_backend c))),
      (''deterministic'', optional_flag L (ec_deterministic c)),
      (''thread_count'', optional_word L (ec_thread_count c)),
      (''random_seed'', optional_word L (ec_random_seed c))]"

definition config_to_json :: "'j json_library \<Rightarrow> InspectionConfig \<Rightarrow> 'j" where
  "config_to_json L c = jl_object L
     [(''schema_version'', jl_string L (ic_schema_version c)),
      (''profile'', jl_string L (ic_profile c)),
      (''input'', input_to_json L (ic_input c)),
      (''preprocess'', preprocess_to_json L (ic_preprocess c)),
      (''registration'', registration_to_json L (ic_registration c)),
      (''registration_gate'', registration_gate_to_json L (ic_registration_gate c)),
      (''comparison'', comparison_to_json L (ic_comparison c)),
      (''detection'', detection_to_json L (ic_detection c)),
      (''execution'', execution_to_json L (ic_execution c))]"

subsection \<open>Reading a configuration\<close>

definition optional_field :: "'j json_library \<Rightarrow> ('j \<Rightarrow> exn + 'a) \<Rightarrow> 'j \<Rightarrow> string \<Rightarrow> exn + 'a option" where
  "optional_field L get object key =
     (if \<not> jl_contains L object key \<or> jl_is_null L (jl_at L object key) then Inr None
      else rbind (get (jl_at L object key)) (\<lambda>v. Inr (Some v)))"

definition optional_double :: "'j json_library \<Rightarrow> 'j \<Rightarrow> string \<Rightarrow> exn + f64 option" where
  "optional_double L = optional_field L (jl_get_double L)"

definition optional_uint :: "'j json_library \<Rightarrow> 'j \<Rightarrow> string \<Rightarrow> exn + u32 option" where
  "optional_uint L = optional_field L (jl_get_u32 L)"

definition optional_bool :: "'j json_library \<Rightarrow> 'j \<Rightarrow> string \<Rightarrow> exn + bool option" where
  "optional_bool L = optional_field L (jl_get_bool L)"

text \<open>
  \<open>json_to_config\<close> can throw (the left of the left) or return an error (the right of the left).
\<close>

type_synonym 'a parsed = "(exn + Error) + 'a"

definition throwing :: "exn + 'a \<Rightarrow> 'a parsed" where
  "throwing r = (case r of Inl x \<Rightarrow> Inl (Inl x) | Inr v \<Rightarrow> Inr v)"

definition returning :: "'a Result \<Rightarrow> 'a parsed" where
  "returning r = (case r of Inl e \<Rightarrow> Inl (Inr e) | Inr v \<Rightarrow> Inr v)"

definition parse_unit :: "'j json_library \<Rightarrow> 'j \<Rightarrow> string \<Rightarrow> LengthUnit option parsed" where
  "parse_unit L input key =
     rbind (throwing (optional_field L (jl_get_string L) input key)) (\<lambda>text. case text of
         None \<Rightarrow> Inr None
       | Some s \<Rightarrow> rbind (returning (unit_from_string s)) (\<lambda>u. Inr (Some u)))"

definition parse_frame :: "'j json_library \<Rightarrow> 'j \<Rightarrow> string \<Rightarrow> FrameId option parsed" where
  "parse_frame L input key =
     rbind (throwing (optional_field L (jl_get_string L) input key)) (\<lambda>text. case text of
         None \<Rightarrow> Inr None
       | Some s \<Rightarrow> rbind (returning (FrameId_create s)) (\<lambda>f. Inr (Some f)))"

definition parse_input :: "'j json_library \<Rightarrow> 'j \<Rightarrow> InputConfig parsed" where
  "parse_input L document =
     rbind (throwing (jl_value_json L document ''input'' (jl_object L []))) (\<lambda>input.
     rbind (parse_unit L input ''reference_unit'') (\<lambda>ru.
     rbind (parse_unit L input ''scan_unit'') (\<lambda>su.
     rbind (parse_frame L input ''reference_frame'') (\<lambda>rf.
     rbind (parse_frame L input ''scan_frame'') (\<lambda>sf.
     Inr \<lparr>in_reference_unit = ru, in_scan_unit = su, in_reference_frame = rf, in_scan_frame = sf\<rparr>)))))"

definition parse_preprocess :: "'j json_library \<Rightarrow> 'j \<Rightarrow> exn + PreprocessConfig" where
  "parse_preprocess L document =
     rbind (jl_value_json L document ''preprocess'' (jl_object L [])) (\<lambda>preprocess.
     rbind (optional_double L preprocess ''voxel_size_mm'') (\<lambda>v.
     rbind (optional_double L preprocess ''normal_radius_mm'') (\<lambda>r.
     rbind (optional_uint L preprocess ''normal_min_neighbors'') (\<lambda>n.
     rbind (optional_double L preprocess ''boundary_radius_mm'') (\<lambda>b.
     Inr \<lparr>pp_voxel_size_mm = v, pp_normal_radius_mm = r, pp_normal_min_neighbors = n, pp_boundary_radius_mm = b\<rparr>)))))"

definition method_from_string :: "string \<Rightarrow> RegistrationMethod Result" where
  "method_from_string method =
     (if method = ''point_to_plane'' then Inr point_to_plane
      else if method = ''point_to_point'' then Inr point_to_point
      else if method = ''gicp'' then Inr gicp
      else Inl (serialization_error invalid_input ''unknown registration.method''))"

definition parse_registration :: "'j json_library \<Rightarrow> 'j \<Rightarrow> RegistrationConfig parsed" where
  "parse_registration L document =
     rbind (throwing (jl_value_json L document ''registration'' (jl_object L []))) (\<lambda>registration.
     rbind (throwing (jl_value_string L registration ''method'' ''point_to_plane'')) (\<lambda>name.
     rbind (returning (method_from_string name)) (\<lambda>method.
     rbind (throwing (optional_uint L registration ''max_iterations'')) (\<lambda>it.
     rbind (throwing (optional_double L registration ''max_correspondence_distance_mm'')) (\<lambda>d.
     rbind (throwing (optional_double L registration ''huber_delta_mm'')) (\<lambda>h.
     rbind (throwing (optional_double L registration ''translation_epsilon_mm'')) (\<lambda>t.
     rbind (throwing (optional_double L registration ''rotation_epsilon_rad'')) (\<lambda>r.
     rbind (throwing (optional_double L registration ''residual_epsilon_mm'')) (\<lambda>e.
     Inr \<lparr>rc_max_iterations = it, rc_max_correspondence_distance_mm = d, rc_huber_delta_mm = h,
          rc_translation_epsilon_mm = t, rc_rotation_epsilon_rad = r, rc_residual_epsilon_mm = e,
          rc_method = method\<rparr>)))))))))"

definition parse_registration_gate :: "'j json_library \<Rightarrow> 'j \<Rightarrow> exn + RegistrationGateConfig" where
  "parse_registration_gate L document =
     rbind (jl_value_json L document ''registration_gate'' (jl_object L [])) (\<lambda>registration_gate.
     rbind (optional_double L registration_gate ''min_overlap_ratio'') (\<lambda>a.
     rbind (optional_double L registration_gate ''max_inlier_rmse_mm'') (\<lambda>b.
     rbind (optional_uint L registration_gate ''min_valid_pairs'') (\<lambda>c.
     rbind (optional_double L registration_gate ''max_translation_from_initial_mm'') (\<lambda>d.
     rbind (optional_double L registration_gate ''max_rotation_from_initial_deg'') (\<lambda>e.
     Inr \<lparr>gc_min_overlap_ratio = a, gc_max_inlier_rmse_mm = b, gc_min_valid_pairs = c,
          gc_max_translation_from_initial_mm = d, gc_max_rotation_from_initial_deg = e\<rparr>))))))"

definition parse_comparison :: "'j json_library \<Rightarrow> 'j \<Rightarrow> exn + ComparisonConfig" where
  "parse_comparison L document =
     rbind (jl_value_json L document ''comparison'' (jl_object L [])) (\<lambda>comparison.
     rbind (optional_double L comparison ''max_search_distance_mm'') (\<lambda>a.
     rbind (optional_double L comparison ''max_normal_angle_deg'') (\<lambda>b.
     rbind (optional_double L comparison ''boundary_exclusion_mm'') (\<lambda>c.
     rbind (optional_double L comparison ''min_valid_coverage_ratio'') (\<lambda>d.
     Inr \<lparr>cc_max_search_distance_mm = a, cc_max_normal_angle_deg = b, cc_boundary_exclusion_mm = c,
          cc_min_valid_coverage_ratio = d\<rparr>)))))"

definition parse_detection :: "'j json_library \<Rightarrow> 'j \<Rightarrow> exn + DetectionConfig" where
  "parse_detection L document =
     rbind (jl_value_json L document ''detection'' (jl_object L [])) (\<lambda>detection.
     rbind (optional_double L detection ''positive_threshold_mm'') (\<lambda>a.
     rbind (optional_double L detection ''negative_threshold_mm'') (\<lambda>b.
     rbind (optional_double L detection ''cluster_tolerance_mm'') (\<lambda>c.
     rbind (optional_uint L detection ''min_cluster_points'') (\<lambda>d.
     rbind (optional_double L detection ''measurement_error_budget_mm'') (\<lambda>e.
     Inr \<lparr>dc_positive_threshold_mm = a, dc_negative_threshold_mm = b, dc_cluster_tolerance_mm = c,
          dc_min_cluster_points = d, dc_measurement_error_budget_mm = e\<rparr>))))))"

definition backend_from_string :: "string \<Rightarrow> ComputeBackend Result" where
  "backend_from_string backend =
     (if backend = ''cpu'' then Inr backend_cpu
      else if backend = ''gpu'' then Inr backend_gpu
      else if backend = ''auto'' then Inr backend_automatic
      else Inl (serialization_error invalid_input ''unknown execution.backend''))"

definition parse_execution :: "'j json_library \<Rightarrow> 'j \<Rightarrow> ExecutionConfig parsed" where
  "parse_execution L document =
     rbind (throwing (jl_value_json L document ''execution'' (jl_object L []))) (\<lambda>execution.
     rbind (throwing (jl_value_string L execution ''backend'' ''cpu'')) (\<lambda>name.
     rbind (returning (backend_from_string name)) (\<lambda>backend.
     rbind (throwing (optional_bool L execution ''deterministic'')) (\<lambda>d.
     rbind (throwing (optional_uint L execution ''thread_count'')) (\<lambda>n.
     rbind (throwing (optional_field L (jl_get_u64 L) execution ''random_seed'')) (\<lambda>s.
     Inr \<lparr>ec_deterministic = d, ec_thread_count = n, ec_random_seed = s, ec_backend = backend\<rparr>))))))"

definition json_to_config :: "'j json_library \<Rightarrow> 'j \<Rightarrow> InspectionConfig parsed" where
  "json_to_config L document =
     require (jl_is_object L document \<and> jl_contains L document ''schema_version'')
       (Inr (serialization_error invalid_input ''missing schema_version'')) (
     rbind (throwing (jl_get_string L (jl_at L document ''schema_version''))) (\<lambda>schema_version.
     require (schema_version = ''1.0'')
       (Inr (serialization_error invalid_input ''unsupported schema_version'')) (
     rbind (throwing (jl_value_string L document ''profile'' '''')) (\<lambda>profile.
     rbind (parse_input L document) (\<lambda>input.
     rbind (throwing (parse_preprocess L document)) (\<lambda>preprocess.
     rbind (parse_registration L document) (\<lambda>registration.
     rbind (throwing (parse_registration_gate L document)) (\<lambda>gate.
     rbind (throwing (parse_comparison L document)) (\<lambda>comparison.
     rbind (throwing (parse_detection L document)) (\<lambda>detection.
     rbind (parse_execution L document) (\<lambda>execution.
     Inr \<lparr>ic_schema_version = schema_version, ic_profile = profile, ic_input = input, ic_preprocess = preprocess,
          ic_registration = registration, ic_registration_gate = gate, ic_comparison = comparison,
          ic_detection = detection, ic_execution = execution\<rparr>)))))))))))"

definition serialize_config :: "'j json_library \<Rightarrow> InspectionConfig \<Rightarrow> string Result" where
  "serialize_config L c = (case jl_dump L (config_to_json L c) of
       Inr text \<Rightarrow> Inr text
     | Inl x \<Rightarrow> Inl (serialization_error internal_error (what x)))"

definition parse_config :: "'j json_library \<Rightarrow> string \<Rightarrow> InspectionConfig Result" where
  "parse_config L json_text = (case rbind (throwing (jl_parse L json_text)) (json_to_config L) of
       Inr c \<Rightarrow> Inr c
     | Inl (Inr e) \<Rightarrow> Inl e
     | Inl (Inl x) \<Rightarrow> Inl (serialization_error invalid_input (what x)))"

subsection \<open>Reports\<close>

definition serialize_vec3 :: "'j json_library \<Rightarrow> Vec3d \<Rightarrow> 'j" where
  "serialize_vec3 L v = jl_object L
     [(''x'', jl_double L (vx v)), (''y'', jl_double L (vy v)), (''z'', jl_double L (vz v))]"

definition pose_to_json :: "'j json_library \<Rightarrow> RigidTransform option \<Rightarrow> 'j" where
  "pose_to_json L pose = (case pose of None \<Rightarrow> jl_null L | Some T \<Rightarrow> serialize_transform L T)"

definition registration_result_to_json :: "'j json_library \<Rightarrow> RegistrationResult \<Rightarrow> 'j" where
  "registration_result_to_json L r = jl_object L
     [(''initial_pose'', pose_to_json L (rr_initial_pose r)),
      (''final_pose'', pose_to_json L (rr_final_pose r)),
      (''iterations'', jl_unsigned L (unat (rr_iterations r))),
      (''converged'', jl_bool L (rr_converged r)),
      (''valid_pairs'', jl_unsigned L (unat (rr_valid_pairs r))),
      (''overlap_ratio'', finite_number L (rr_overlap_ratio r)),
      (''inlier_rmse_mm'', finite_number L (rr_inlier_rmse_mm r)),
      (''termination_reason'', jl_string L (rr_termination_reason r)),
      (''method'', jl_string L (registration_method_name (rr_method r))),
      (''requested_backend'', jl_string L (compute_backend_name (rr_requested_backend r))),
      (''actual_backend'', jl_string L (compute_backend_name (rr_actual_backend r))),
      (''execution_scope'', jl_string L (if rr_actual_backend r = backend_gpu
         then ''gpu_resident_objective_cpu_solve'' else ''cpu'')),
      (''rmse_metric'', jl_string L (if rr_method r = point_to_plane then ''point_to_plane_mm'' else ''euclidean_mm''))]"

definition coverage_to_json :: "'j json_library \<Rightarrow> ReportCoverage \<Rightarrow> 'j" where
  "coverage_to_json L c = jl_object L
     [(''valid_count'', jl_unsigned L (rc_valid_count c)),
      (''covered_count'', jl_unsigned L (rc_covered_count c)),
      (''coverage_ratio'', finite_number L (rc_coverage_ratio c)),
      (''input_invalid'', jl_unsigned L (rc_input_invalid c)),
      (''no_neighbor'', jl_unsigned L (rc_no_neighbor c)),
      (''scan_boundary'', jl_unsigned L (rc_scan_boundary c))]"

definition deviations_to_json :: "'j json_library \<Rightarrow> ReportDeviations \<Rightarrow> 'j" where
  "deviations_to_json L d = jl_object L
     [(''valid_count'', jl_unsigned L (rd_valid_count d)),
      (''mean_signed_mm'', finite_number L (rd_mean_signed_mm d)),
      (''rms_mm'', finite_number L (rd_rms_mm d)),
      (''max_abs_mm'', finite_number L (rd_max_abs_mm d)),
      (''p95_abs_mm'', finite_number L (rd_p95_abs_mm d)),
      (''input_invalid'', jl_unsigned L (rd_input_invalid d)),
      (''no_neighbor'', jl_unsigned L (rd_no_neighbor d)),
      (''normal_missing'', jl_unsigned L (rd_normal_missing d)),
      (''normal_mismatch'', jl_unsigned L (rd_normal_mismatch d)),
      (''reference_boundary'', jl_unsigned L (rd_reference_boundary d))]"

definition region_to_json :: "'j json_library \<Rightarrow> ReportRegion \<Rightarrow> 'j" where
  "region_to_json L r = jl_object L
     [(''id'', jl_unsigned L (unat (rg_id r))),
      (''type'', jl_string L (defect_type_to_string (rg_type r))),
      (''point_count'', jl_unsigned L (rg_point_count r)),
      (''centroid'', serialize_vec3 L (rg_centroid r)),
      (''aabb_min'', serialize_vec3 L (rg_aabb_min r)),
      (''aabb_max'', serialize_vec3 L (rg_aabb_max r)),
      (''max_abs_mm'', finite_number L (rg_max_abs_mm r)),
      (''mean_mm'', finite_number L (rg_mean_mm r)),
      (''rms_mm'', finite_number L (rg_rms_mm r)),
      (''p95_abs_mm'', finite_number L (rg_p95_abs_mm r)),
      (''estimated_area_mm2'', optional_number L (rg_estimated_area_mm2 r)),
      (''area_is_approximate'', jl_bool L (rg_area_is_approximate r)),
      (''severity'', jl_string L (severity_to_string (rg_severity r)))]"

definition timing_to_json :: "'j json_library \<Rightarrow> StageTiming \<Rightarrow> 'j" where
  "timing_to_json L t = jl_object L
     [(''stage'', jl_string L (stage_to_string (ti_stage t))),
      (''duration_us'', jl_unsigned L (unat (ti_duration_us t)))]"

definition provenance_to_json :: "'j json_library \<Rightarrow> Provenance \<Rightarrow> 'j" where
  "provenance_to_json L p = jl_object L
     [(''schema_version'', jl_string L (pv_schema_version p)),
      (''run_id'', jl_string L (pv_run_id p)),
      (''profile'', jl_string L (pv_profile p)),
      (''generator_version'', jl_string L (pv_generator_version p)),
      (''timestamp_utc'', jl_string L (pv_timestamp_utc p)),
      (''deterministic'', jl_bool L (pv_deterministic p)),
      (''thread_count'', jl_unsigned L (unat (pv_thread_count p))),
      (''random_seed'', jl_unsigned L (unat (pv_random_seed p)))]"

definition diagnostic_to_json :: "'j json_library \<Rightarrow> Diagnostic \<Rightarrow> 'j" where
  "diagnostic_to_json L d = jl_object L
     [(''code'', jl_string L (error_code_to_string (dg_code d))),
      (''stage'', jl_string L (stage_to_string (dg_stage d))),
      (''message'', jl_string L (dg_message d)),
      (''context'', jl_object L (map (\<lambda>(key, v). (key, jl_string L v)) (dg_context d)))]"

definition serialize_result_json :: "'j json_library \<Rightarrow> InspectionResult \<Rightarrow> 'j" where
  "serialize_result_json L r = jl_object L
     [(''schema_version'', jl_string L (if pv_schema_version (ir_provenance r) = [] then ''1.0''
         else pv_schema_version (ir_provenance r))),
      (''verdict'', jl_string L (verdict_to_string (ir_verdict r))),
      (''registration'', registration_result_to_json L (ir_registration r)),
      (''coverage'', coverage_to_json L (ir_coverage r)),
      (''deviations'', deviations_to_json L (ir_deviations r)),
      (''regions'', jl_array L (map (region_to_json L) (ir_regions r))),
      (''timings'', jl_array L (map (timing_to_json L) (ir_timings r))),
      (''provenance'', provenance_to_json L (ir_provenance r)),
      (''diagnostics'', jl_array L (map (diagnostic_to_json L) (ir_diagnostics r)))]"

definition serialize_result :: "'j json_library \<Rightarrow> InspectionResult \<Rightarrow> string Result" where
  "serialize_result L r = (case jl_dump L (serialize_result_json L r) of
       Inr text \<Rightarrow> Inr text
     | Inl x \<Rightarrow> Inl (serialization_error internal_error (what x)))"

subsection \<open>What the library promises\<close>

text \<open>The values that have a JSON text: numbers must be finite, and strings UTF-8.\<close>

inductive printable :: "'j json_library \<Rightarrow> 'j \<Rightarrow> bool" for L where
  printable_null: "printable L (jl_null L)"
| printable_bool: "printable L (jl_bool L b)"
| printable_string: "is_valid_utf8 s \<Longrightarrow> printable L (jl_string L s)"
| printable_unsigned: "n < 2 ^ 64 \<Longrightarrow> printable L (jl_unsigned L n)"
| printable_double: "isfinite x \<Longrightarrow> in_format x \<Longrightarrow> printable L (jl_double L x)"
| printable_array: "\<forall>j \<in> set js. printable L j \<Longrightarrow> printable L (jl_array L js)"
| printable_object: "distinct (map fst es) \<Longrightarrow> \<forall>e \<in> set es. is_valid_utf8 (fst e) \<and> printable L (snd e) \<Longrightarrow>
    printable L (jl_object L es)"

definition reads_scalars :: "'j json_library \<Rightarrow> bool" where
  "reads_scalars L \<longleftrightarrow>
     jl_is_null L (jl_null L) \<and>
     (\<forall>s. \<not> jl_is_null L (jl_string L s) \<and> jl_get_string L (jl_string L s) = Inr s) \<and>
     (\<forall>x. \<not> jl_is_null L (jl_double L x) \<and> jl_get_double L (jl_double L x) = Inr x) \<and>
     (\<forall>b. \<not> jl_is_null L (jl_bool L b) \<and> jl_get_bool L (jl_bool L b) = Inr b) \<and>
     (\<forall>n. \<not> jl_is_null L (jl_unsigned L n)) \<and>
     (\<forall>w. jl_get_u32 L (jl_unsigned L (unat w)) = Inr w) \<and>
     (\<forall>w. jl_get_u64 L (jl_unsigned L (unat w)) = Inr w)"

definition reads_objects :: "'j json_library \<Rightarrow> bool" where
  "reads_objects L \<longleftrightarrow> (\<forall>es. distinct (map fst es) \<longrightarrow>
     jl_is_object L (jl_object L es) \<and>
     (\<forall>k. jl_contains L (jl_object L es) k = (map_of es k \<noteq> None)) \<and>
     (\<forall>k j. map_of es k = Some j \<longrightarrow> jl_at L (jl_object L es) k = j) \<and>
     (\<forall>k d. jl_value_json L (jl_object L es) k d = (case map_of es k of None \<Rightarrow> Inr d | Some j \<Rightarrow> Inr j)) \<and>
     (\<forall>k d. jl_value_string L (jl_object L es) k d =
        (case map_of es k of None \<Rightarrow> Inr d | Some j \<Rightarrow> jl_get_string L j)))"

definition json_laws :: "'j json_library \<Rightarrow> bool" where
  "json_laws L \<longleftrightarrow> reads_scalars L \<and> reads_objects L \<and>
     (\<forall>j. printable L j \<longrightarrow> (\<exists>text. jl_dump L j = Inr text \<and> jl_parse L text = Inr j))"

subsection \<open>Reading back what was written\<close>

lemma read_optional:
  assumes "reads_objects L" "distinct (map fst es)" "map_of es key = Some j"
  shows "optional_field L get (jl_object L es) key =
    (if jl_is_null L j then Inr None else rbind (get j) (\<lambda>v. Inr (Some v)))"
  using assms unfolding reads_objects_def optional_field_def by auto

definition finite_option :: "f64 option \<Rightarrow> f64 option" where
  "finite_option v = (case v of Some x \<Rightarrow> if isfinite x then Some x else None | None \<Rightarrow> None)"

lemma read_number:
  "reads_scalars L \<Longrightarrow> reads_objects L \<Longrightarrow> distinct (map fst es) \<Longrightarrow> map_of es key = Some (optional_number L v) \<Longrightarrow>
   optional_double L (jl_object L es) key = Inr (finite_option v)"
  unfolding optional_double_def
  by (auto simp: read_optional reads_scalars_def optional_number_def finite_number_def finite_option_def split: option.splits)

lemma read_u32:
  "reads_scalars L \<Longrightarrow> reads_objects L \<Longrightarrow> distinct (map fst es) \<Longrightarrow> map_of es key = Some (optional_word L v) \<Longrightarrow>
   optional_uint L (jl_object L es) key = Inr v"
  unfolding optional_uint_def by (auto simp: read_optional reads_scalars_def optional_word_def split: option.splits)

lemma read_u64:
  "reads_scalars L \<Longrightarrow> reads_objects L \<Longrightarrow> distinct (map fst es) \<Longrightarrow> map_of es key = Some (optional_word L v) \<Longrightarrow>
   optional_field L (jl_get_u64 L) (jl_object L es) key = Inr v"
  by (auto simp: read_optional reads_scalars_def optional_word_def split: option.splits)

lemma read_flag:
  "reads_scalars L \<Longrightarrow> reads_objects L \<Longrightarrow> distinct (map fst es) \<Longrightarrow> map_of es key = Some (optional_flag L v) \<Longrightarrow>
   optional_bool L (jl_object L es) key = Inr v"
  unfolding optional_bool_def by (auto simp: read_optional reads_scalars_def optional_flag_def split: option.splits)

lemma read_text:
  "reads_scalars L \<Longrightarrow> reads_objects L \<Longrightarrow> distinct (map fst es) \<Longrightarrow> map_of es key = Some (jl_string L s) \<Longrightarrow>
   optional_field L (jl_get_string L) (jl_object L es) key = Inr (Some s)"
  by (auto simp: read_optional reads_scalars_def)

lemma read_member:
  "reads_objects L \<Longrightarrow> distinct (map fst es) \<Longrightarrow> map_of es key = Some j \<Longrightarrow> jl_value_json L (jl_object L es) key d = Inr j"
  by (simp add: reads_objects_def)

lemma read_named:
  "reads_scalars L \<Longrightarrow> reads_objects L \<Longrightarrow> distinct (map fst es) \<Longrightarrow> map_of es key = Some (jl_string L s) \<Longrightarrow>
   jl_value_string L (jl_object L es) key d = Inr s"
  by (simp add: reads_objects_def reads_scalars_def)

lemma throwing_simps [simp]: "throwing (Inl x) = Inl (Inl x)" "throwing (Inr v) = Inr v"
  by (simp_all add: throwing_def)

lemma returning_simps [simp]: "returning (Inl e) = Inl (Inr e)" "returning (Inr v) = Inr v"
  by (simp_all add: returning_def)

lemma throwing_Inr_iff: "throwing r = Inr v \<longleftrightarrow> r = Inr v"
  by (cases r) simp_all

lemma returning_Inr_iff: "returning r = Inr v \<longleftrightarrow> r = Inr v"
  by (cases r) simp_all

lemma unit_round_trip: "unit_from_string (unit_to_string u) = Inr u \<longleftrightarrow> (\<forall>b. u \<noteq> unnamed_unit b)"
  by (cases u) (simp_all add: unit_from_string_def)

lemma method_round_trip:
  "\<forall>b. m \<noteq> unnamed_method b \<Longrightarrow> method_from_string (registration_method_name m) = Inr m"
  by (cases m) (simp_all add: method_from_string_def)

lemma backend_round_trip:
  "\<forall>b. m \<noteq> unnamed_backend b \<Longrightarrow> backend_from_string (compute_backend_name m) = Inr m"
  by (cases m) (simp_all add: backend_from_string_def)

text \<open>The sections of a configuration, with the numbers that are not finite dropped.\<close>

definition finite_preprocess :: "PreprocessConfig \<Rightarrow> PreprocessConfig" where
  "finite_preprocess c = c\<lparr>pp_voxel_size_mm := finite_option (pp_voxel_size_mm c),
     pp_normal_radius_mm := finite_option (pp_normal_radius_mm c),
     pp_boundary_radius_mm := finite_option (pp_boundary_radius_mm c)\<rparr>"

definition finite_registration :: "RegistrationConfig \<Rightarrow> RegistrationConfig" where
  "finite_registration c = c\<lparr>
     rc_max_correspondence_distance_mm := finite_option (rc_max_correspondence_distance_mm c),
     rc_huber_delta_mm := finite_option (rc_huber_delta_mm c),
     rc_translation_epsilon_mm := finite_option (rc_translation_epsilon_mm c),
     rc_rotation_epsilon_rad := finite_option (rc_rotation_epsilon_rad c),
     rc_residual_epsilon_mm := finite_option (rc_residual_epsilon_mm c)\<rparr>"

definition finite_gate_config :: "RegistrationGateConfig \<Rightarrow> RegistrationGateConfig" where
  "finite_gate_config c = c\<lparr>gc_min_overlap_ratio := finite_option (gc_min_overlap_ratio c),
     gc_max_inlier_rmse_mm := finite_option (gc_max_inlier_rmse_mm c),
     gc_max_translation_from_initial_mm := finite_option (gc_max_translation_from_initial_mm c),
     gc_max_rotation_from_initial_deg := finite_option (gc_max_rotation_from_initial_deg c)\<rparr>"

definition finite_comparison :: "ComparisonConfig \<Rightarrow> ComparisonConfig" where
  "finite_comparison c = c\<lparr>cc_max_search_distance_mm := finite_option (cc_max_search_distance_mm c),
     cc_max_normal_angle_deg := finite_option (cc_max_normal_angle_deg c),
     cc_boundary_exclusion_mm := finite_option (cc_boundary_exclusion_mm c),
     cc_min_valid_coverage_ratio := finite_option (cc_min_valid_coverage_ratio c)\<rparr>"

definition finite_detection :: "DetectionConfig \<Rightarrow> DetectionConfig" where
  "finite_detection c = c\<lparr>dc_positive_threshold_mm := finite_option (dc_positive_threshold_mm c),
     dc_negative_threshold_mm := finite_option (dc_negative_threshold_mm c),
     dc_cluster_tolerance_mm := finite_option (dc_cluster_tolerance_mm c),
     dc_measurement_error_budget_mm := finite_option (dc_measurement_error_budget_mm c)\<rparr>"

definition finite_config :: "InspectionConfig \<Rightarrow> InspectionConfig" where
  "finite_config c = c\<lparr>ic_preprocess := finite_preprocess (ic_preprocess c),
     ic_registration := finite_registration (ic_registration c),
     ic_registration_gate := finite_gate_config (ic_registration_gate c),
     ic_comparison := finite_comparison (ic_comparison c),
     ic_detection := finite_detection (ic_detection c)\<rparr>"

lemma read_preprocess:
  assumes "reads_scalars L" "reads_objects L" "\<And>d. jl_value_json L document ''preprocess'' d = Inr (preprocess_to_json L c)"
  shows "parse_preprocess L document = Inr (finite_preprocess c)"
  unfolding parse_preprocess_def assms(3) unfolding preprocess_to_json_def
  by (simp add: read_number read_u32 assms(1,2) finite_preprocess_def)

lemma read_registration_gate:
  assumes "reads_scalars L" "reads_objects L" "\<And>d. jl_value_json L document ''registration_gate'' d = Inr (registration_gate_to_json L c)"
  shows "parse_registration_gate L document = Inr (finite_gate_config c)"
  unfolding parse_registration_gate_def assms(3) unfolding registration_gate_to_json_def
  by (simp add: read_number read_u32 assms(1,2) finite_gate_config_def)

lemma read_comparison:
  assumes "reads_scalars L" "reads_objects L" "\<And>d. jl_value_json L document ''comparison'' d = Inr (comparison_to_json L c)"
  shows "parse_comparison L document = Inr (finite_comparison c)"
  unfolding parse_comparison_def assms(3) unfolding comparison_to_json_def
  by (simp add: read_number read_u32 assms(1,2) finite_comparison_def)

lemma read_detection:
  assumes "reads_scalars L" "reads_objects L" "\<And>d. jl_value_json L document ''detection'' d = Inr (detection_to_json L c)"
  shows "parse_detection L document = Inr (finite_detection c)"
  unfolding parse_detection_def assms(3) unfolding detection_to_json_def
  by (simp add: read_number read_u32 assms(1,2) finite_detection_def)

lemma read_registration:
  assumes "reads_scalars L" "reads_objects L" "\<And>d. jl_value_json L document ''registration'' d = Inr (registration_to_json L c)"
    and "\<forall>b. rc_method c \<noteq> unnamed_method b"
  shows "parse_registration L document = Inr (finite_registration c)"
  unfolding parse_registration_def assms(3) unfolding registration_to_json_def
  by (simp add: read_number read_u32 read_named method_round_trip assms(1,2,4) finite_registration_def)

lemma read_execution:
  assumes "reads_scalars L" "reads_objects L" "\<And>d. jl_value_json L document ''execution'' d = Inr (execution_to_json L c)"
    and "\<forall>b. ec_backend c \<noteq> unnamed_backend b"
  shows "parse_execution L document = Inr c"
  unfolding parse_execution_def assms(3) unfolding execution_to_json_def
  by (simp add: read_u64 read_u32 read_flag read_named backend_round_trip assms(1,2,4))

text \<open>A unit or frame is written as a name that reading accepts.\<close>

definition complete_input :: "InputConfig \<Rightarrow> bool" where
  "complete_input c \<longleftrightarrow>
     (\<exists>u. in_reference_unit c = Some u \<and> (\<forall>b. u \<noteq> unnamed_unit b)) \<and>
     (\<exists>u. in_scan_unit c = Some u \<and> (\<forall>b. u \<noteq> unnamed_unit b)) \<and>
     (\<exists>f. in_reference_frame c = Some f \<and> is_ok (FrameId_create f)) \<and>
     (\<exists>f. in_scan_frame c = Some f \<and> is_ok (FrameId_create f))"

lemma FrameId_create_same: "is_ok (FrameId_create f) \<Longrightarrow> FrameId_create f = Inr f"
  by (auto simp: is_ok_iff FrameId_create_Inr_iff)

lemma read_input:
  assumes "reads_scalars L" "reads_objects L" "\<And>d. jl_value_json L document ''input'' d = Inr (input_to_json L c)"
    and "complete_input c"
  shows "parse_input L document = Inr c"
proof -
  from assms(4) obtain u v f g where c: "in_reference_unit c = Some u" "in_scan_unit c = Some v"
      "in_reference_frame c = Some f" "in_scan_frame c = Some g"
    and u: "unit_from_string (unit_to_string u) = Inr u" "unit_from_string (unit_to_string v) = Inr v"
    and f: "FrameId_create f = Inr f" "FrameId_create g = Inr g"
    unfolding complete_input_def unit_round_trip using FrameId_create_same by blast
  show ?thesis
    unfolding parse_input_def assms(3) unfolding input_to_json_def c Let_def parse_unit_def parse_frame_def
    by (simp add: read_text assms(1,2) u f) (simp add: c [symmetric])
qed

lemma json_to_config_written:
  assumes "reads_scalars L" "reads_objects L" "ic_schema_version c = ''1.0''" "complete_input (ic_input c)"
    and "\<forall>b. rc_method (ic_registration c) \<noteq> unnamed_method b" "\<forall>b. ec_backend (ic_execution c) \<noteq> unnamed_backend b"
  shows "json_to_config L (config_to_json L c) = Inr (finite_config c)"
proof -
  let ?d = "config_to_json L c"
  have version: "jl_is_object L ?d" "jl_contains L ?d ''schema_version''"
      "jl_at L ?d ''schema_version'' = jl_string L ''1.0''" "jl_get_string L (jl_string L ''1.0'') = Inr ''1.0''"
    and profile: "jl_value_string L ?d ''profile'' '''' = Inr (ic_profile c)"
    and sections: "\<And>d. jl_value_json L ?d ''input'' d = Inr (input_to_json L (ic_input c))"
      "\<And>d. jl_value_json L ?d ''preprocess'' d = Inr (preprocess_to_json L (ic_preprocess c))"
      "\<And>d. jl_value_json L ?d ''registration'' d = Inr (registration_to_json L (ic_registration c))"
      "\<And>d. jl_value_json L ?d ''registration_gate'' d = Inr (registration_gate_to_json L (ic_registration_gate c))"
      "\<And>d. jl_value_json L ?d ''comparison'' d = Inr (comparison_to_json L (ic_comparison c))"
      "\<And>d. jl_value_json L ?d ''detection'' d = Inr (detection_to_json L (ic_detection c))"
      "\<And>d. jl_value_json L ?d ''execution'' d = Inr (execution_to_json L (ic_execution c))"
    using assms(1-3) unfolding reads_objects_def reads_scalars_def config_to_json_def by simp_all
  show ?thesis
    unfolding json_to_config_def
    by (simp add: version profile assms(3) read_input [OF assms(1,2) sections(1) assms(4)]
      read_preprocess [OF assms(1,2) sections(2)] read_registration [OF assms(1,2) sections(3) assms(5)]
      read_registration_gate [OF assms(1,2) sections(4)] read_comparison [OF assms(1,2) sections(5)]
      read_detection [OF assms(1,2) sections(6)] read_execution [OF assms(1,2) sections(7) assms(6)])
      (simp add: finite_config_def assms(3) [symmetric])
qed

subsection \<open>What is written has a text\<close>

definition formatted_option :: "f64 option \<Rightarrow> bool" where
  "formatted_option v \<longleftrightarrow> (case v of None \<Rightarrow> True | Some x \<Rightarrow> in_format x)"

lemma ascii_is_utf8:
  assumes "list_all (\<lambda>c. \<not> digit7 c) s"
  shows "is_valid_utf8 s"
proof -
  have c: "of_char c < (128 :: nat)" if "\<not> digit7 c" for c
    using that by (cases c) (auto simp: of_bool_def)
  have "list_all unicode_scalar (map of_char s)"
    using assms c by (force simp: list_all_iff unicode_scalar_def)
  moreover have "concat (map utf8_encode (map of_char s)) = map of_char s"
    using assms by (induction s) (simp_all add: c utf8_encode_digits(1))
  ultimately show ?thesis
    unfolding is_valid_utf8_def by (intro utf8_loop_of_encoding [where cps = "map of_char s"]) (simp_all add: unat_bytes_of del: map_map)
qed

lemma printable_ascii: "list_all (\<lambda>c. \<not> digit7 c) s \<Longrightarrow> printable L (jl_string L s)"
  by (intro printable_string ascii_is_utf8)

lemma printable_members:
  assumes "distinct (map fst es)" "list_all (\<lambda>e. list_all (\<lambda>c. \<not> digit7 c) (fst e)) es" "list_all (\<lambda>e. printable L (snd e)) es"
  shows "printable L (jl_object L es)"
  using assms(1)
proof (rule printable_object)
  show "\<forall>e \<in> set es. is_valid_utf8 (fst e) \<and> printable L (snd e)"
    using assms(2,3) ascii_is_utf8 unfolding list_all_iff [of _ es] by blast
qed

lemma printable_finite_number: "in_format x \<Longrightarrow> printable L (finite_number L x)"
  by (simp add: finite_number_def printable.intros)

lemma printable_optional_number: "formatted_option v \<Longrightarrow> printable L (optional_number L v)"
  by (auto simp: optional_number_def formatted_option_def intro: printable_finite_number printable.intros split: option.splits)

lemma printable_u32: "printable L (optional_word L (v :: u32 option))"
proof (cases v)
  case (Some w)
  have "unat w < 2 ^ 32" using unsigned_less [where 'a = nat and w = w] by simp
  then show ?thesis using Some by (auto simp: optional_word_def intro!: printable.intros)
qed (simp add: optional_word_def printable.intros)

lemma printable_u64: "printable L (optional_word L (v :: u64 option))"
  using unsigned_less [where 'a = nat and w = "the v"]
  by (cases v) (auto simp: optional_word_def intro!: printable.intros)

lemma printable_flag: "printable L (optional_flag L v)"
  by (cases v) (auto simp: optional_flag_def intro: printable.intros)

lemma names_ascii:
  "list_all (\<lambda>c. \<not> digit7 c) (unit_to_string u)" "list_all (\<lambda>c. \<not> digit7 c) (registration_method_name m)"
  "list_all (\<lambda>c. \<not> digit7 c) (compute_backend_name b)" "list_all (\<lambda>c. \<not> digit7 c) (verdict_to_string v)"
  "list_all (\<lambda>c. \<not> digit7 c) (defect_type_to_string d)" "list_all (\<lambda>c. \<not> digit7 c) (severity_to_string s)"
  "list_all (\<lambda>c. \<not> digit7 c) (error_code_to_string e)" "list_all (\<lambda>c. \<not> digit7 c) (stage_to_string st)"
  by (cases u, simp_all) (cases m, simp_all, cases b, simp_all, cases v, simp_all, cases d, simp_all, cases s, simp_all,
    cases e, simp_all, cases st, simp_all)

text \<open>The configurations whose document has a text: numbers are doubles, the strings are UTF-8.\<close>

definition formatted_config :: "InspectionConfig \<Rightarrow> bool" where
  "formatted_config c \<longleftrightarrow> is_valid_utf8 (ic_schema_version c) \<and> is_valid_utf8 (ic_profile c) \<and>
     list_all formatted_option
       [pp_voxel_size_mm (ic_preprocess c), pp_normal_radius_mm (ic_preprocess c), pp_boundary_radius_mm (ic_preprocess c),
        rc_max_correspondence_distance_mm (ic_registration c), rc_huber_delta_mm (ic_registration c),
        rc_translation_epsilon_mm (ic_registration c), rc_rotation_epsilon_rad (ic_registration c),
        rc_residual_epsilon_mm (ic_registration c),
        gc_min_overlap_ratio (ic_registration_gate c), gc_max_inlier_rmse_mm (ic_registration_gate c),
        gc_max_translation_from_initial_mm (ic_registration_gate c),
        gc_max_rotation_from_initial_deg (ic_registration_gate c),
        cc_max_search_distance_mm (ic_comparison c), cc_max_normal_angle_deg (ic_comparison c),
        cc_boundary_exclusion_mm (ic_comparison c), cc_min_valid_coverage_ratio (ic_comparison c),
        dc_positive_threshold_mm (ic_detection c), dc_negative_threshold_mm (ic_detection c),
        dc_cluster_tolerance_mm (ic_detection c), dc_measurement_error_budget_mm (ic_detection c)]"

lemma printable_sections:
  assumes "formatted_config c"
  shows "printable L (preprocess_to_json L (ic_preprocess c))" "printable L (registration_to_json L (ic_registration c))"
    "printable L (registration_gate_to_json L (ic_registration_gate c))" "printable L (comparison_to_json L (ic_comparison c))"
    "printable L (detection_to_json L (ic_detection c))" "printable L (execution_to_json L (ic_execution c))"
  unfolding preprocess_to_json_def registration_to_json_def registration_gate_to_json_def comparison_to_json_def
    detection_to_json_def execution_to_json_def
  using assms by (intro printable_members;
    simp add: formatted_config_def printable_optional_number printable_u32 printable_u64 printable_flag printable_ascii names_ascii)+

lemma printable_input:
  assumes "complete_input c"
  shows "printable L (input_to_json L c)"
proof -
  from assms obtain u v f g where "in_reference_unit c = Some u" "in_scan_unit c = Some v"
      "in_reference_frame c = Some f" "in_scan_frame c = Some g" "is_valid_utf8 f" "is_valid_utf8 g"
    unfolding complete_input_def by (auto simp: is_ok_iff FrameId_create_Inr_iff)
  then show ?thesis unfolding input_to_json_def Let_def
    by (intro printable_members; simp add: printable_ascii names_ascii printable_string)
qed

lemma printable_config:
  assumes "formatted_config c" "complete_input (ic_input c)"
  shows "printable L (config_to_json L c)"
  unfolding config_to_json_def
  using assms(1) by (intro printable_members;
    simp add: formatted_config_def printable_sections [OF assms(1)] printable_input [OF assms(2)] printable_string)

text \<open>
  C30. Writing a configuration and reading the text back gives the configuration again, except that
  a number that is not finite is written as null and comes back unset. This needs the schema version
  the reader accepts, both units and both frames set (an unset unit or frame is written as the empty
  string, which the reader rejects), named selectors, and a UTF-8 profile name.
\<close>
theorem config_round_trip:
  assumes "json_laws L" "formatted_config c" "ic_schema_version c = ''1.0''" "complete_input (ic_input c)"
    and "\<forall>b. rc_method (ic_registration c) \<noteq> unnamed_method b" "\<forall>b. ec_backend (ic_execution c) \<noteq> unnamed_backend b"
  shows "\<exists>t. serialize_config L c = Inr t \<and> parse_config L t = Inr (finite_config c)"
proof -
  have "printable L (config_to_json L c)" using assms(2,4) by (rule printable_config)
  then obtain t where t: "jl_dump L (config_to_json L c) = Inr t" "jl_parse L t = Inr (config_to_json L c)"
    using assms(1) unfolding json_laws_def by blast
  have "json_to_config L (config_to_json L c) = Inr (finite_config c)"
    using assms unfolding json_laws_def by (intro json_to_config_written) auto
  then show ?thesis using t by (simp add: serialize_config_def parse_config_def)
qed

lemma names_read:
  "unit_from_string s = Inr u \<Longrightarrow> u \<noteq> unnamed_unit b"
  "method_from_string s = Inr m \<Longrightarrow> m \<noteq> unnamed_method b"
  "backend_from_string s = Inr k \<Longrightarrow> k \<noteq> unnamed_backend b"
  unfolding unit_from_string_def method_from_string_def backend_from_string_def
  by (simp_all split: if_split_asm)

lemma parse_unit_named:
  assumes "parse_unit L input key = Inr (Some u)"
  shows "u \<noteq> unnamed_unit b"
proof -
  obtain s where "unit_from_string s = Inr u"
    using assms by (auto simp: parse_unit_def rbind_Inr_iff returning_Inr_iff split: option.splits)
  then show ?thesis by (rule names_read)
qed

lemma parse_frame_valid: "parse_frame L input key = Inr (Some f) \<Longrightarrow> f \<noteq> [] \<and> is_valid_utf8 f"
  by (auto simp: parse_frame_def rbind_Inr_iff returning_Inr_iff FrameId_create_Inr_iff split: option.splits)

lemma parse_input_fields:
  assumes "parse_input L document = Inr c"
  obtains input where "parse_unit L input ''reference_unit'' = Inr (in_reference_unit c)"
    "parse_unit L input ''scan_unit'' = Inr (in_scan_unit c)"
    "parse_frame L input ''reference_frame'' = Inr (in_reference_frame c)"
    "parse_frame L input ''scan_frame'' = Inr (in_scan_frame c)"
  using assms by (auto simp: parse_input_def rbind_Inr_iff)

lemma parse_input_conforms:
  assumes "parse_input L document = Inr c"
  shows "in_reference_unit c = Some u \<or> in_scan_unit c = Some u \<Longrightarrow> u \<noteq> unnamed_unit b"
    and "in_reference_frame c = Some f \<or> in_scan_frame c = Some f \<Longrightarrow> f \<noteq> [] \<and> is_valid_utf8 f"
  using parse_input_fields [OF assms] parse_unit_named parse_frame_valid by metis+

lemma parse_registration_named: "parse_registration L document = Inr c \<Longrightarrow> rc_method c \<noteq> unnamed_method b"
  by (auto simp: parse_registration_def rbind_Inr_iff returning_Inr_iff dest: names_read(2))

lemma parse_execution_named: "parse_execution L document = Inr c \<Longrightarrow> ec_backend c \<noteq> unnamed_backend b"
  by (auto simp: parse_execution_def rbind_Inr_iff returning_Inr_iff dest: names_read(3))

lemma parse_config_Inr_iff:
  "parse_config L t = Inr c \<longleftrightarrow> (\<exists>d. jl_parse L t = Inr d \<and> json_to_config L d = Inr c)"
  by (auto simp: parse_config_def rbind_def throwing_def split: sum.splits)

lemma json_to_config_Inr:
  assumes "json_to_config L d = Inr c"
  shows "ic_schema_version c = ''1.0''" "parse_input L d = Inr (ic_input c)"
    "parse_registration L d = Inr (ic_registration c)" "parse_execution L d = Inr (ic_execution c)"
  using assms unfolding json_to_config_def require_Inr_iff rbind_Inr_iff by auto

text \<open>
  Whatever the text, a configuration that is read carries the supported schema version, named
  units, non-empty UTF-8 frame names, and named selectors of the registration method and backend.
\<close>
theorem parsed_config_conforms:
  assumes "parse_config L t = Inr c"
  shows "ic_schema_version c = ''1.0'' \<and>
    (\<forall>u b. in_reference_unit (ic_input c) = Some u \<or> in_scan_unit (ic_input c) = Some u \<longrightarrow> u \<noteq> unnamed_unit b) \<and>
    (\<forall>f. in_reference_frame (ic_input c) = Some f \<or> in_scan_frame (ic_input c) = Some f \<longrightarrow> f \<noteq> [] \<and> is_valid_utf8 f) \<and>
    (\<forall>b. rc_method (ic_registration c) \<noteq> unnamed_method b) \<and> (\<forall>b. ec_backend (ic_execution c) \<noteq> unnamed_backend b)"
proof -
  from assms obtain d where d: "json_to_config L d = Inr c" unfolding parse_config_Inr_iff by blast
  note parts = json_to_config_Inr [OF d]
  show ?thesis
    using parse_input_conforms [OF parts(2)] parse_registration_named [OF parts(3)] parse_execution_named [OF parts(4)]
    unfolding parts(1) by blast
qed

text \<open>A configuration without a reference unit is written, and what is written is never read back.\<close>

lemma unset_unit_is_not_read:
  assumes "json_laws L" "ic_schema_version c = ''1.0''" "in_reference_unit (ic_input c) = None"
    and "jl_dump L (config_to_json L c) = Inr t" "jl_parse L t = Inr (config_to_json L c)"
  shows "serialize_config L c = Inr t \<and>
    parse_config L t = Inl (serialization_error invalid_input ''unknown length unit'')"
proof -
  let ?d = "config_to_json L c" and ?i = "input_to_json L (ic_input c)"
  have laws: "reads_scalars L" "reads_objects L" using assms(1) by (simp_all add: json_laws_def)
  have "jl_is_object L ?d" "jl_contains L ?d ''schema_version''"
      "jl_at L ?d ''schema_version'' = jl_string L ''1.0''" "jl_get_string L (jl_string L ''1.0'') = Inr ''1.0''"
      "jl_value_string L ?d ''profile'' '''' = Inr (ic_profile c)"
      "\<And>d. jl_value_json L ?d ''input'' d = Inr ?i"
    using laws assms(2) unfolding reads_objects_def reads_scalars_def config_to_json_def by simp_all
  moreover have "optional_field L (jl_get_string L) ?i ''reference_unit'' = Inr (Some [])"
    unfolding input_to_json_def Let_def assms(3) by (simp add: read_text laws)
  then have "parse_unit L ?i ''reference_unit'' = Inl (Inr (serialization_error invalid_input ''unknown length unit''))"
    unfolding parse_unit_def by (simp add: unit_from_string_def)
  ultimately have "json_to_config L ?d = Inl (Inr (serialization_error invalid_input ''unknown length unit''))"
    unfolding json_to_config_def parse_input_def by simp
  then show ?thesis using assms(4,5) by (simp add: serialize_config_def parse_config_def)
qed

subsection \<open>The document of a report\<close>

definition formatted_pose :: "RigidTransform option \<Rightarrow> bool" where
  "formatted_pose pose \<longleftrightarrow> (\<forall>T. pose = Some T \<longrightarrow> is_valid_utf8 (rt_source_frame T) \<and> is_valid_utf8 (rt_target_frame T) \<and>
     (\<forall>x \<in> set (rt_matrix T). isfinite x \<and> in_format x))"

definition formatted_vec3 :: "Vec3d \<Rightarrow> bool" where
  "formatted_vec3 v \<longleftrightarrow> is_finite3 v \<and> in_format3 v"

definition formatted_region :: "ReportRegion \<Rightarrow> bool" where
  "formatted_region r \<longleftrightarrow> rg_point_count r < 2 ^ 64 \<and> formatted_vec3 (rg_centroid r) \<and> formatted_vec3 (rg_aabb_min r) \<and>
     formatted_vec3 (rg_aabb_max r) \<and> in_format (rg_max_abs_mm r) \<and> in_format (rg_mean_mm r) \<and>
     in_format (rg_rms_mm r) \<and> in_format (rg_p95_abs_mm r) \<and> formatted_option (rg_estimated_area_mm2 r)"

definition formatted_diagnostic :: "Diagnostic \<Rightarrow> bool" where
  "formatted_diagnostic d \<longleftrightarrow> is_valid_utf8 (dg_message d) \<and> distinct (map fst (dg_context d)) \<and>
     (\<forall>e \<in> set (dg_context d). is_valid_utf8 (fst e) \<and> is_valid_utf8 (snd e))"

definition formatted_provenance :: "Provenance \<Rightarrow> bool" where
  "formatted_provenance p \<longleftrightarrow> list_all is_valid_utf8
     [pv_schema_version p, pv_run_id p, pv_profile p, pv_generator_version p, pv_timestamp_utc p]"

definition formatted_counts :: "InspectionResult \<Rightarrow> bool" where
  "formatted_counts r \<longleftrightarrow> (let c = ir_coverage r; d = ir_deviations r in
     list_all (\<lambda>n. n < 2 ^ 64)
       [rc_valid_count c, rc_covered_count c, rc_input_invalid c, rc_no_neighbor c, rc_scan_boundary c,
        rd_valid_count d, rd_input_invalid d, rd_no_neighbor d, rd_normal_missing d, rd_normal_mismatch d,
        rd_reference_boundary d])"

definition formatted_numbers :: "InspectionResult \<Rightarrow> bool" where
  "formatted_numbers r \<longleftrightarrow> (let c = ir_coverage r; d = ir_deviations r in
     list_all in_format [rr_overlap_ratio (ir_registration r), rr_inlier_rmse_mm (ir_registration r), rc_coverage_ratio c,
        rd_mean_signed_mm d, rd_rms_mm d, rd_max_abs_mm d, rd_p95_abs_mm d])"

definition formatted_report :: "InspectionResult \<Rightarrow> bool" where
  "formatted_report r \<longleftrightarrow> formatted_counts r \<and> formatted_numbers r \<and>
     is_valid_utf8 (rr_termination_reason (ir_registration r)) \<and>
     formatted_pose (rr_initial_pose (ir_registration r)) \<and> formatted_pose (rr_final_pose (ir_registration r)) \<and>
     list_all formatted_region (ir_regions r) \<and> formatted_provenance (ir_provenance r) \<and>
     list_all formatted_diagnostic (ir_diagnostics r)"

lemma printable_word:
  fixes w :: "'w::len word"
  assumes "LENGTH('w) \<le> 64"
  shows "printable L (jl_unsigned L (unat w))"
proof (rule printable_unsigned)
  have "(2::nat) ^ LENGTH('w) \<le> 2 ^ 64" using assms by (rule power_increasing) simp
  then show "unat w < 2 ^ 64" using unsigned_less [where 'a = nat and w = w] by linarith
qed

lemma printable_pose: "formatted_pose pose \<Longrightarrow> printable L (pose_to_json L pose)"
  unfolding pose_to_json_def serialize_transform_def formatted_pose_def
  by (cases pose) (auto intro!: printable_members printable_array printable_double printable_null simp: printable_string)

lemma printable_vec3: "formatted_vec3 v \<Longrightarrow> printable L (serialize_vec3 L v)"
  unfolding serialize_vec3_def formatted_vec3_def is_finite3_def in_format3_def
  by (rule printable_members) (simp_all add: printable_double)

lemma printable_region: "formatted_region r \<Longrightarrow> printable L (region_to_json L r)"
  unfolding region_to_json_def formatted_region_def
  by (rule printable_members) (simp_all add: printable_word printable_unsigned printable_vec3 printable_finite_number
    printable_optional_number printable_ascii names_ascii printable_bool)

lemma printable_timing: "printable L (timing_to_json L t)"
  unfolding timing_to_json_def by (rule printable_members) (simp_all add: printable_word printable_ascii names_ascii)

lemma printable_provenance: "formatted_provenance p \<Longrightarrow> printable L (provenance_to_json L p)"
  unfolding provenance_to_json_def formatted_provenance_def
  by (rule printable_members) (simp_all add: printable_word printable_string printable_bool)

lemma printable_diagnostic: "formatted_diagnostic d \<Longrightarrow> printable L (diagnostic_to_json L d)"
proof -
  assume d: "formatted_diagnostic d"
  have "printable L (jl_object L (map (\<lambda>(key, v). (key, jl_string L v)) (dg_context d)))"
  proof (rule printable_object)
    have "map fst (map (\<lambda>(key, v). (key, jl_string L v)) (dg_context d)) = map fst (dg_context d)" by (simp add: case_prod_beta)
    then show "distinct (map fst (map (\<lambda>(key, v). (key, jl_string L v)) (dg_context d)))"
      using d by (simp only: formatted_diagnostic_def)
    show "\<forall>e \<in> set (map (\<lambda>(key, v). (key, jl_string L v)) (dg_context d)). is_valid_utf8 (fst e) \<and> printable L (snd e)"
      using d by (auto simp: formatted_diagnostic_def printable_string)
  qed
  then show ?thesis using d unfolding diagnostic_to_json_def
    by (intro printable_members) (simp_all add: printable_ascii names_ascii formatted_diagnostic_def printable_string)
qed

lemma printable_registration_result:
  "formatted_report r \<Longrightarrow> printable L (registration_result_to_json L (ir_registration r))"
  unfolding registration_result_to_json_def formatted_report_def formatted_numbers_def
  by (rule printable_members) (simp_all add: printable_word printable_pose printable_bool printable_finite_number
    printable_ascii names_ascii printable_string Let_def)

lemma printable_counts:
  "formatted_report r \<Longrightarrow> printable L (coverage_to_json L (ir_coverage r))"
  "formatted_report r \<Longrightarrow> printable L (deviations_to_json L (ir_deviations r))"
  unfolding coverage_to_json_def deviations_to_json_def formatted_report_def formatted_numbers_def formatted_counts_def Let_def
  by (rule printable_members; simp add: printable_unsigned printable_finite_number)+

lemma printable_report:
  assumes "formatted_report r"
  shows "printable L (serialize_result_json L r)"
proof -
  have "printable L (jl_array L (map (region_to_json L) (ir_regions r)))"
    "printable L (jl_array L (map (timing_to_json L) (ir_timings r)))"
    "printable L (jl_array L (map (diagnostic_to_json L) (ir_diagnostics r)))"
    using assms by (auto simp: formatted_report_def list_all_iff intro!: printable_array printable_region printable_timing printable_diagnostic)
  then show ?thesis unfolding serialize_result_json_def
    using assms printable_registration_result [OF assms, of L] printable_counts [OF assms, of L]
    by (intro printable_members) (simp_all add: printable_ascii names_ascii printable_provenance formatted_report_def
      formatted_provenance_def printable_string)
qed

subsection \<open>What a document says\<close>

text \<open>
  The schema of a report, as its reader sees it: a member of an object is a finite number or null, a
  count, a flag, a text, or a name of a vocabulary.
\<close>

definition says_number :: "'j json_library \<Rightarrow> 'j \<Rightarrow> string \<Rightarrow> f64 option \<Rightarrow> bool" where
  "says_number L j key v \<longleftrightarrow> jl_contains L j key \<and> optional_double L j key = Inr (finite_option v)"

definition says_count :: "'j json_library \<Rightarrow> 'j \<Rightarrow> string \<Rightarrow> nat \<Rightarrow> bool" where
  "says_count L j key n \<longleftrightarrow> jl_value_json L j key (jl_null L) = Inr (jl_unsigned L n)"

definition says_flag :: "'j json_library \<Rightarrow> 'j \<Rightarrow> string \<Rightarrow> bool \<Rightarrow> bool" where
  "says_flag L j key b \<longleftrightarrow> optional_bool L j key = Inr (Some b)"

definition says_text :: "'j json_library \<Rightarrow> 'j \<Rightarrow> string \<Rightarrow> string \<Rightarrow> bool" where
  "says_text L j key s \<longleftrightarrow> jl_contains L j key \<and> jl_value_string L j key '''' = Inr s"

definition says_name :: "(string \<times> 'a) list \<Rightarrow> 'j json_library \<Rightarrow> 'j \<Rightarrow> string \<Rightarrow> 'a \<Rightarrow> bool" where
  "says_name vocabulary L j key v \<longleftrightarrow> (\<exists>s. says_text L j key s \<and> map_of vocabulary s = Some v)"

definition says_object :: "('j \<Rightarrow> 'a \<Rightarrow> bool) \<Rightarrow> 'j json_library \<Rightarrow> 'j \<Rightarrow> string \<Rightarrow> 'a \<Rightarrow> bool" where
  "says_object meaning L j key v \<longleftrightarrow> (\<exists>inner. jl_value_json L j key (jl_null L) = Inr inner \<and> meaning inner v)"

definition says_list :: "('j \<Rightarrow> 'a \<Rightarrow> bool) \<Rightarrow> 'j json_library \<Rightarrow> 'j \<Rightarrow> string \<Rightarrow> 'a list \<Rightarrow> bool" where
  "says_list meaning L = says_object (\<lambda>inner vs. \<exists>js. inner = jl_array L js \<and> list_all2 meaning js vs) L"

text \<open>The vocabularies of the schema.\<close>

definition verdict_vocabulary :: "(string \<times> Verdict) list" where
  "verdict_vocabulary = [(''pass'', verdict_pass), (''fail'', verdict_fail), (''indeterminate'', verdict_indeterminate)]"

definition defect_vocabulary :: "(string \<times> ReportDefectType) list" where
  "defect_vocabulary = [(''dent'', report_dent), (''bump'', report_bump), (''missing_material'', report_missing_material)]"

definition severity_vocabulary :: "(string \<times> Severity) list" where
  "severity_vocabulary = [(''info'', sev_info), (''warning'', sev_warning), (''reject'', sev_reject)]"

definition method_vocabulary :: "(string \<times> RegistrationMethod) list" where
  "method_vocabulary = [(''point_to_plane'', point_to_plane), (''point_to_point'', point_to_point), (''gicp'', gicp)]"

definition backend_vocabulary :: "(string \<times> ComputeBackend) list" where
  "backend_vocabulary = [(''cpu'', backend_cpu), (''gpu'', backend_gpu), (''auto'', backend_automatic)]"

definition stage_vocabulary :: "(string \<times> PipelineStage) list" where
  "stage_vocabulary = [(''none'', stage_none), (''validate'', stage_validate), (''normalize'', stage_normalize),
     (''preprocess'', stage_preprocess), (''registration'', stage_registration), (''registration_gate'', stage_registration_gate),
     (''transform'', stage_transform), (''compare'', stage_compare), (''coverage_gate'', stage_coverage_gate),
     (''detect'', stage_detect), (''finalize'', stage_finalize), (''serialization'', stage_serialization)]"

definition code_vocabulary :: "(string \<times> ErrorCode) list" where
  "code_vocabulary = [(''invalid_argument'', invalid_argument), (''invalid_input'', invalid_input),
     (''unsupported_format'', unsupported_format), (''io_error'', io_error), (''registration_failed'', registration_failed),
     (''insufficient_coverage'', insufficient_coverage), (''serialization_failed'', serialization_failed),
     (''internal_error'', internal_error)]"

text \<open>The sections of a report.\<close>

definition says_vector :: "'j json_library \<Rightarrow> 'j \<Rightarrow> Vec3d \<Rightarrow> bool" where
  "says_vector L j v \<longleftrightarrow> says_number L j ''x'' (Some (vx v)) \<and> says_number L j ''y'' (Some (vy v)) \<and>
     says_number L j ''z'' (Some (vz v))"

definition says_pose :: "'j json_library \<Rightarrow> 'j \<Rightarrow> RigidTransform option \<Rightarrow> bool" where
  "says_pose L j pose \<longleftrightarrow> (case pose of None \<Rightarrow> jl_is_null L j
     | Some T \<Rightarrow> says_text L j ''source_frame'' (rt_source_frame T) \<and> says_text L j ''target_frame'' (rt_target_frame T) \<and>
         says_list (\<lambda>j x. jl_get_double L j = Inr x) L j ''matrix'' (rt_matrix T))"

definition says_registration :: "'j json_library \<Rightarrow> 'j \<Rightarrow> RegistrationResult \<Rightarrow> bool" where
  "says_registration L j r \<longleftrightarrow>
     says_object (says_pose L) L j ''initial_pose'' (rr_initial_pose r) \<and> says_object (says_pose L) L j ''final_pose'' (rr_final_pose r) \<and>
     says_count L j ''iterations'' (unat (rr_iterations r)) \<and> says_flag L j ''converged'' (rr_converged r) \<and>
     says_count L j ''valid_pairs'' (unat (rr_valid_pairs r)) \<and>
     says_number L j ''overlap_ratio'' (Some (rr_overlap_ratio r)) \<and> says_number L j ''inlier_rmse_mm'' (Some (rr_inlier_rmse_mm r)) \<and>
     says_text L j ''termination_reason'' (rr_termination_reason r) \<and>
     ((\<forall>b. rr_method r \<noteq> unnamed_method b) \<longrightarrow> says_name method_vocabulary L j ''method'' (rr_method r)) \<and>
     ((\<forall>b. rr_requested_backend r \<noteq> unnamed_backend b) \<longrightarrow>
        says_name backend_vocabulary L j ''requested_backend'' (rr_requested_backend r)) \<and>
     ((\<forall>b. rr_actual_backend r \<noteq> unnamed_backend b) \<longrightarrow>
        says_name backend_vocabulary L j ''actual_backend'' (rr_actual_backend r)) \<and>
     says_text L j ''execution_scope'' (if rr_actual_backend r = backend_gpu then ''gpu_resident_objective_cpu_solve'' else ''cpu'') \<and>
     says_text L j ''rmse_metric'' (if rr_method r = point_to_plane then ''point_to_plane_mm'' else ''euclidean_mm'')"

definition says_coverage :: "'j json_library \<Rightarrow> 'j \<Rightarrow> ReportCoverage \<Rightarrow> bool" where
  "says_coverage L j c \<longleftrightarrow> says_count L j ''valid_count'' (rc_valid_count c) \<and> says_count L j ''covered_count'' (rc_covered_count c) \<and>
     says_number L j ''coverage_ratio'' (Some (rc_coverage_ratio c)) \<and> says_count L j ''input_invalid'' (rc_input_invalid c) \<and>
     says_count L j ''no_neighbor'' (rc_no_neighbor c) \<and> says_count L j ''scan_boundary'' (rc_scan_boundary c)"

definition says_deviations :: "'j json_library \<Rightarrow> 'j \<Rightarrow> ReportDeviations \<Rightarrow> bool" where
  "says_deviations L j d \<longleftrightarrow> says_count L j ''valid_count'' (rd_valid_count d) \<and>
     says_number L j ''mean_signed_mm'' (Some (rd_mean_signed_mm d)) \<and> says_number L j ''rms_mm'' (Some (rd_rms_mm d)) \<and>
     says_number L j ''max_abs_mm'' (Some (rd_max_abs_mm d)) \<and> says_number L j ''p95_abs_mm'' (Some (rd_p95_abs_mm d)) \<and>
     says_count L j ''input_invalid'' (rd_input_invalid d) \<and> says_count L j ''no_neighbor'' (rd_no_neighbor d) \<and>
     says_count L j ''normal_missing'' (rd_normal_missing d) \<and> says_count L j ''normal_mismatch'' (rd_normal_mismatch d) \<and>
     says_count L j ''reference_boundary'' (rd_reference_boundary d)"

definition says_region :: "'j json_library \<Rightarrow> 'j \<Rightarrow> ReportRegion \<Rightarrow> bool" where
  "says_region L j r \<longleftrightarrow> says_count L j ''id'' (unat (rg_id r)) \<and> says_name defect_vocabulary L j ''type'' (rg_type r) \<and>
     says_count L j ''point_count'' (rg_point_count r) \<and> says_object (says_vector L) L j ''centroid'' (rg_centroid r) \<and>
     says_object (says_vector L) L j ''aabb_min'' (rg_aabb_min r) \<and> says_object (says_vector L) L j ''aabb_max'' (rg_aabb_max r) \<and>
     says_number L j ''max_abs_mm'' (Some (rg_max_abs_mm r)) \<and> says_number L j ''mean_mm'' (Some (rg_mean_mm r)) \<and>
     says_number L j ''rms_mm'' (Some (rg_rms_mm r)) \<and> says_number L j ''p95_abs_mm'' (Some (rg_p95_abs_mm r)) \<and>
     says_number L j ''estimated_area_mm2'' (rg_estimated_area_mm2 r) \<and>
     says_flag L j ''area_is_approximate'' (rg_area_is_approximate r) \<and> says_name severity_vocabulary L j ''severity'' (rg_severity r)"

definition says_timing :: "'j json_library \<Rightarrow> 'j \<Rightarrow> StageTiming \<Rightarrow> bool" where
  "says_timing L j t \<longleftrightarrow> says_name stage_vocabulary L j ''stage'' (ti_stage t) \<and> says_count L j ''duration_us'' (unat (ti_duration_us t))"

definition says_provenance :: "'j json_library \<Rightarrow> 'j \<Rightarrow> Provenance \<Rightarrow> bool" where
  "says_provenance L j p \<longleftrightarrow> says_text L j ''schema_version'' (pv_schema_version p) \<and> says_text L j ''run_id'' (pv_run_id p) \<and>
     says_text L j ''profile'' (pv_profile p) \<and> says_text L j ''generator_version'' (pv_generator_version p) \<and>
     says_text L j ''timestamp_utc'' (pv_timestamp_utc p) \<and> says_flag L j ''deterministic'' (pv_deterministic p) \<and>
     says_count L j ''thread_count'' (unat (pv_thread_count p)) \<and> says_count L j ''random_seed'' (unat (pv_random_seed p))"

definition says_diagnostic :: "'j json_library \<Rightarrow> 'j \<Rightarrow> Diagnostic \<Rightarrow> bool" where
  "says_diagnostic L j d \<longleftrightarrow> says_name code_vocabulary L j ''code'' (dg_code d) \<and> says_name stage_vocabulary L j ''stage'' (dg_stage d) \<and>
     says_text L j ''message'' (dg_message d) \<and>
     says_object (\<lambda>j context. \<forall>key. (jl_contains L j key \<longleftrightarrow> key \<in> fst ` set context) \<and>
       (\<forall>v. (key, v) \<in> set context \<longrightarrow> says_text L j key v)) L j ''context'' (dg_context d)"

definition says_report :: "'j json_library \<Rightarrow> 'j \<Rightarrow> InspectionResult \<Rightarrow> bool" where
  "says_report L j r \<longleftrightarrow>
     says_text L j ''schema_version'' (if pv_schema_version (ir_provenance r) = '''' then ''1.0'' else pv_schema_version (ir_provenance r)) \<and>
     says_name verdict_vocabulary L j ''verdict'' (ir_verdict r) \<and>
     says_object (says_registration L) L j ''registration'' (ir_registration r) \<and>
     says_object (says_coverage L) L j ''coverage'' (ir_coverage r) \<and>
     says_object (says_deviations L) L j ''deviations'' (ir_deviations r) \<and>
     says_list (says_region L) L j ''regions'' (ir_regions r) \<and> says_list (says_timing L) L j ''timings'' (ir_timings r) \<and>
     says_object (says_provenance L) L j ''provenance'' (ir_provenance r) \<and>
     says_list (says_diagnostic L) L j ''diagnostics'' (ir_diagnostics r)"

text \<open>What an object with distinct keys says.\<close>

lemma object_contains:
  "reads_objects L \<Longrightarrow> distinct (map fst es) \<Longrightarrow> jl_contains L (jl_object L es) key \<longleftrightarrow> map_of es key \<noteq> None"
  by (simp add: reads_objects_def)

lemma object_says:
  assumes "reads_scalars L" "reads_objects L" "distinct (map fst es)"
  shows "map_of es key = Some (finite_number L x) \<Longrightarrow> says_number L (jl_object L es) key (Some x)"
    and "map_of es key = Some (optional_number L v) \<Longrightarrow> says_number L (jl_object L es) key v"
    and "map_of es key = Some (jl_unsigned L n) \<Longrightarrow> says_count L (jl_object L es) key n"
    and "map_of es key = Some (jl_bool L b) \<Longrightarrow> says_flag L (jl_object L es) key b"
    and "map_of es key = Some (jl_string L s) \<Longrightarrow> says_text L (jl_object L es) key s"
    and "map_of es key = Some (jl_string L s) \<Longrightarrow> map_of vocabulary s = Some a \<Longrightarrow> says_name vocabulary L (jl_object L es) key a"
    and "map_of es key = Some j \<Longrightarrow> meaning j c \<Longrightarrow> says_object meaning L (jl_object L es) key c"
    and "map_of es key = Some (jl_array L (map f cs)) \<Longrightarrow> list_all (\<lambda>c. item (f c) c) cs \<Longrightarrow> says_list item L (jl_object L es) key cs"
proof -
  note laws = assms object_contains [OF assms(2,3)]
  have number: "finite_number L x = optional_number L (Some x)" by (simp add: optional_number_def)
  show "map_of es key = Some (finite_number L x) \<Longrightarrow> says_number L (jl_object L es) key (Some x)"
    "map_of es key = Some (optional_number L v) \<Longrightarrow> says_number L (jl_object L es) key v"
    by (simp_all add: says_number_def number read_number laws)
  show "map_of es key = Some (jl_unsigned L n) \<Longrightarrow> says_count L (jl_object L es) key n"
    "map_of es key = Some j \<Longrightarrow> meaning j c \<Longrightarrow> says_object meaning L (jl_object L es) key c"
    by (simp_all add: says_count_def says_object_def read_member laws)
  show "map_of es key = Some (jl_array L (map f cs)) \<Longrightarrow> list_all (\<lambda>c. item (f c) c) cs \<Longrightarrow> says_list item L (jl_object L es) key cs"
    unfolding says_list_def says_object_def read_member [OF assms(2,3)] by (auto simp: list_all2_conv_all_nth list_all_length)
  show "map_of es key = Some (jl_bool L b) \<Longrightarrow> says_flag L (jl_object L es) key b"
    using read_flag [OF assms, of key "Some b"] by (simp add: says_flag_def optional_flag_def)
  show says: "map_of es key = Some (jl_string L s) \<Longrightarrow> says_text L (jl_object L es) key s"
    by (simp add: says_text_def read_named laws)
  then show "map_of es key = Some (jl_string L s) \<Longrightarrow> map_of vocabulary s = Some a \<Longrightarrow> says_name vocabulary L (jl_object L es) key a"
    by (auto simp: says_name_def)
qed

lemma vocabularies:
  "map_of verdict_vocabulary (verdict_to_string v) = Some v"
  "map_of defect_vocabulary (defect_type_to_string d) = Some d"
  "map_of severity_vocabulary (severity_to_string sev) = Some sev"
  "map_of stage_vocabulary (stage_to_string st) = Some st"
  "map_of code_vocabulary (error_code_to_string e) = Some e"
  "\<forall>b. m \<noteq> unnamed_method b \<Longrightarrow> map_of method_vocabulary (registration_method_name m) = Some m"
  "\<forall>b. c \<noteq> unnamed_backend b \<Longrightarrow> map_of backend_vocabulary (compute_backend_name c) = Some c"
  by (cases v, simp_all add: verdict_vocabulary_def, cases d, simp_all add: defect_vocabulary_def, cases sev,
      simp_all add: severity_vocabulary_def, cases st, simp_all add: stage_vocabulary_def, cases e,
      simp_all add: code_vocabulary_def, cases m, simp_all add: method_vocabulary_def, cases c,
      simp_all add: backend_vocabulary_def)

lemmas object_names =
  object_says(6) [OF _ _ _ _ vocabularies(1)] object_says(6) [OF _ _ _ _ vocabularies(2)]
  object_says(6) [OF _ _ _ _ vocabularies(3)] object_says(6) [OF _ _ _ _ vocabularies(4)]
  object_says(6) [OF _ _ _ _ vocabularies(5)] object_says(6) [OF _ _ _ _ vocabularies(6)]
  object_says(6) [OF _ _ _ _ vocabularies(7)]

lemmas members_say = object_says(1-5,7,8) object_names

text \<open>The sections as they are written.\<close>

lemma written_sections:
  assumes "reads_scalars L" "reads_objects L"
  shows "says_vector L (serialize_vec3 L v) v \<or> \<not> is_finite3 v"
    and "says_pose L (pose_to_json L pose) pose"
    and "says_registration L (registration_result_to_json L g) g"
    and "says_coverage L (coverage_to_json L c) c"
    and "says_deviations L (deviations_to_json L d) d"
    and "says_timing L (timing_to_json L t) t"
    and "says_provenance L (provenance_to_json L q) q"
proof -
  note says = members_say [OF assms]
  show "says_vector L (serialize_vec3 L v) v \<or> \<not> is_finite3 v"
    unfolding says_vector_def serialize_vec3_def is_finite3_def
    by (auto intro!: object_says(1) [OF assms] simp: finite_number_def)
  show pose: "says_pose L (pose_to_json L pose) pose" for pose
  proof (cases pose)
    case None
    then show ?thesis using assms(1) by (simp add: says_pose_def pose_to_json_def reads_scalars_def)
  next
    case (Some T)
    have matrix: "list_all (\<lambda>x. jl_get_double L (jl_double L x) = Inr x) (rt_matrix T)"
      using assms(1) by (simp add: reads_scalars_def list_all_iff)
    show ?thesis unfolding Some says_pose_def pose_to_json_def serialize_transform_def option.case
      by (intro conjI says; (rule matrix | simp))
  qed
  show "says_registration L (registration_result_to_json L g) g"
    unfolding says_registration_def registration_result_to_json_def
    by (intro conjI impI says; (rule pose | assumption | simp))
  show "says_coverage L (coverage_to_json L c) c" "says_deviations L (deviations_to_json L d) d"
    unfolding says_coverage_def coverage_to_json_def says_deviations_def deviations_to_json_def
    by (intro conjI says; simp)+
  show "says_timing L (timing_to_json L t) t" "says_provenance L (provenance_to_json L q) q"
    unfolding says_timing_def timing_to_json_def says_provenance_def provenance_to_json_def
    by (intro conjI says; simp)+
qed

lemma written_region:
  assumes "reads_scalars L" "reads_objects L" "formatted_region r"
  shows "says_region L (region_to_json L r) r"
proof -
  have "says_vector L (serialize_vec3 L v) v" if "formatted_vec3 v" for v
    using written_sections(1) [OF assms(1,2), of v] that by (simp add: formatted_vec3_def)
  then have vectors: "says_vector L (serialize_vec3 L (rg_centroid r)) (rg_centroid r)"
    "says_vector L (serialize_vec3 L (rg_aabb_min r)) (rg_aabb_min r)" "says_vector L (serialize_vec3 L (rg_aabb_max r)) (rg_aabb_max r)"
    using assms(3) by (simp_all add: formatted_region_def)
  show ?thesis unfolding says_region_def region_to_json_def
    by (intro conjI members_say [OF assms(1,2)]; (rule vectors | simp))
qed

lemma written_diagnostic:
  assumes "reads_scalars L" "reads_objects L" "formatted_diagnostic d"
  shows "says_diagnostic L (diagnostic_to_json L d) d"
proof -
  let ?es = "map (\<lambda>(key, v). (key, jl_string L v)) (dg_context d)"
  have keys: "distinct (map fst ?es)" "distinct (map fst (dg_context d))"
    using assms(3) by (simp_all add: formatted_diagnostic_def case_prod_beta comp_def)
  have found: "map_of ?es key = map_option (jl_string L) (map_of (dg_context d) key)" for key
    by (simp add: map_of_map)
  have context_says: "\<forall>key. (jl_contains L (jl_object L ?es) key \<longleftrightarrow> key \<in> fst ` set (dg_context d)) \<and>
      (\<forall>v. (key, v) \<in> set (dg_context d) \<longrightarrow> says_text L (jl_object L ?es) key v)"
  proof (intro allI conjI impI)
    fix key v
    show "jl_contains L (jl_object L ?es) key \<longleftrightarrow> key \<in> fst ` set (dg_context d)"
      unfolding object_contains [OF assms(2) keys(1)] found by (simp add: map_of_eq_None_iff)
    assume "(key, v) \<in> set (dg_context d)"
    then have "map_of ?es key = Some (jl_string L v)" unfolding found using map_of_is_SomeI [OF keys(2)] by simp
    then show "says_text L (jl_object L ?es) key v" by (rule object_says(5) [OF assms(1,2) keys(1)])
  qed
  show ?thesis unfolding says_diagnostic_def diagnostic_to_json_def
    by (intro conjI members_say [OF assms(1,2)]; (rule context_says | simp))
qed

text \<open>
  C31. A report whose numbers are doubles, whose poses and regions are finite and whose strings are
  UTF-8 has a JSON text, although its statistics may be infinite or NaN. Reading the text back gives
  a document that says, under the names of the schema, everything the report holds: the verdict by its name in the
  vocabulary of the schema, the registration, coverage and deviation sections, every region with its
  type, box, statistics and severity, every timing, the provenance and every diagnostic with its context.
  Each number is the finite number it was, or null where it was infinite, NaN or absent.
\<close>
theorem report_round_trip:
  assumes "json_laws L" "formatted_report r"
  shows "\<exists>t d. serialize_result L r = Inr t \<and> jl_parse L t = Inr d \<and> says_report L d r"
proof -
  let ?d = "serialize_result_json L r"
  obtain t where t: "jl_dump L ?d = Inr t" "jl_parse L t = Inr ?d"
    using assms(1) printable_report [OF assms(2)] unfolding json_laws_def by blast
  have laws: "reads_scalars L" "reads_objects L" using assms(1) by (simp_all add: json_laws_def)
  have lists: "list_all (\<lambda>g. says_region L (region_to_json L g) g) (ir_regions r)"
    "list_all (\<lambda>g. says_diagnostic L (diagnostic_to_json L g) g) (ir_diagnostics r)"
    "list_all (\<lambda>g. says_timing L (timing_to_json L g) g) (ir_timings r)"
    using assms(2) written_region [OF laws] written_diagnostic [OF laws] written_sections(6) [OF laws]
    unfolding formatted_report_def list_all_iff by blast+
  have "says_report L ?d r"
    unfolding says_report_def serialize_result_json_def
    by (intro conjI members_say [OF laws]; (rule lists written_sections [OF laws] | simp))
  then show ?thesis using t by (auto simp: serialize_result_def)
qed

subsection \<open>A library that keeps its promises\<close>

text \<open>
  JSON values as a tree, printed through an enumeration of all trees; it shows that the laws can hold.
\<close>

datatype json =
    JNull | JBool bool | JString string | JUnsigned nat | JDouble f64 | JArray "json list" | JObject "(string \<times> json) list"

instance fp :: (type) countable
proof (rule countable_classI [of "\<lambda>x. case x of Num q \<Rightarrow> to_nat q + 4 | NegZero \<Rightarrow> 0 | NaN \<Rightarrow> 1 | Inf b \<Rightarrow> if b then 2 else 3"])
  fix x y :: "'a fp"
  assume "(case x of Num q \<Rightarrow> to_nat q + 4 | NegZero \<Rightarrow> 0 | NaN \<Rightarrow> 1 | Inf b \<Rightarrow> if b then 2 else 3) =
    (case y of Num q \<Rightarrow> to_nat q + 4 | NegZero \<Rightarrow> 0 | NaN \<Rightarrow> 1 | Inf b \<Rightarrow> if b then 2 else (3 :: nat))"
  then show "x = y" by (cases x; cases y) (auto split: if_splits)
qed

instance json :: countable
  by countable_datatype

fun json_at :: "json \<Rightarrow> string \<Rightarrow> json option" where
  "json_at (JObject es) key = map_of es key"
| "json_at _ _ = None"

definition json_get :: "(json \<Rightarrow> 'a option) \<Rightarrow> json \<Rightarrow> exn + 'a" where
  "json_get f j = (case f j of Some v \<Rightarrow> Inr v | None \<Rightarrow> Inl (exn_other ''type error''))"

definition json_text :: "json \<Rightarrow> string" where
  "json_text j = replicate (to_nat j) (CHR ''x'')"

definition json_tree :: "json json_library" where
  "json_tree = \<lparr>jl_null = JNull, jl_bool = JBool, jl_string = JString, jl_unsigned = JUnsigned, jl_double = JDouble,
     jl_array = JArray, jl_object = JObject, jl_is_null = (\<lambda>j. j = JNull),
     jl_is_object = (\<lambda>j. case j of JObject _ \<Rightarrow> True | _ \<Rightarrow> False),
     jl_contains = (\<lambda>j key. json_at j key \<noteq> None), jl_at = (\<lambda>j key. the (json_at j key)),
     jl_get_string = json_get (\<lambda>j. case j of JString s \<Rightarrow> Some s | _ \<Rightarrow> None),
     jl_get_double = json_get (\<lambda>j. case j of JDouble x \<Rightarrow> Some x | _ \<Rightarrow> None),
     jl_get_u32 = json_get (\<lambda>j. case j of JUnsigned n \<Rightarrow> Some (of_nat n) | _ \<Rightarrow> None),
     jl_get_u64 = json_get (\<lambda>j. case j of JUnsigned n \<Rightarrow> Some (of_nat n) | _ \<Rightarrow> None),
     jl_get_bool = json_get (\<lambda>j. case j of JBool b \<Rightarrow> Some b | _ \<Rightarrow> None),
     jl_value_string = (\<lambda>j key d. case json_at j key of None \<Rightarrow> Inr d
       | Some v \<Rightarrow> json_get (\<lambda>j. case j of JString s \<Rightarrow> Some s | _ \<Rightarrow> None) v),
     jl_value_json = (\<lambda>j key d. case json_at j key of None \<Rightarrow> Inr d | Some v \<Rightarrow> Inr v),
     jl_dump = (\<lambda>j. Inr (json_text j)), jl_dump_indented = (\<lambda>_ j. Inr (json_text j)),
     jl_parse = (\<lambda>t. Inr (from_nat (length t)))\<rparr>"

lemma json_tree_laws: "json_laws json_tree"
  unfolding json_laws_def reads_scalars_def reads_objects_def
  by (auto simp: json_tree_def json_get_def json_text_def split: option.splits)

text \<open>The configuration of the sample inspection, written and read.\<close>

lemma sample_config_formatted:
  "formatted_config (raw_config sample_config)" "complete_input (ic_input (raw_config sample_config))"
proof -
  have "representable TYPE(64) (- 1)" using representable_one [where 'f = 64] by (simp only: representable_minus)
  moreover have "is_valid_utf8 ''1.0''" "is_valid_utf8 ''p''" "is_ok (FrameId_create ''cad'')" "is_ok (FrameId_create ''scan'')"
    by code_simp+
  ultimately show "formatted_config (raw_config sample_config)" "complete_input (ic_input (raw_config sample_config))"
    by (simp_all add: formatted_config_def complete_input_def raw_config_def sample_config_def formatted_option_def
      raw_input_def raw_preprocess_def raw_registration_def raw_registration_gate_def raw_comparison_def raw_detection_def
      one_fp_def zero_fp_def)
qed

theorem config_round_trip_witness:
  "\<exists>t. serialize_config json_tree (raw_config sample_config) = Inr t \<and>
     parse_config json_tree t = Inr (finite_config (raw_config sample_config))"
  using config_round_trip [OF json_tree_laws sample_config_formatted(1) _ sample_config_formatted(2)]
  by (simp add: raw_config_def sample_config_def raw_registration_def raw_execution_def)

theorem parsed_config_conforms_witness:
  "\<exists>t c. parse_config json_tree t = Inr c \<and> ic_schema_version c = ''1.0''"
proof -
  have "jl_parse json_tree (json_text (config_to_json json_tree (raw_config sample_config))) =
      Inr (config_to_json json_tree (raw_config sample_config))"
    by (simp add: json_tree_def json_text_def)
  moreover have "json_to_config json_tree (config_to_json json_tree (raw_config sample_config)) =
      Inr (finite_config (raw_config sample_config))"
    using json_tree_laws sample_config_formatted(2) unfolding json_laws_def
    by (intro json_to_config_written) (simp_all add: raw_config_def sample_config_def raw_registration_def raw_execution_def)
  ultimately have "parse_config json_tree (json_text (config_to_json json_tree (raw_config sample_config))) =
      Inr (finite_config (raw_config sample_config))"
    unfolding parse_config_Inr_iff by blast
  from parsed_config_conforms [OF this] this show ?thesis by blast
qed

text \<open>A report with one region, whose residual is infinite.\<close>

definition sample_report :: InspectionResult where
  "sample_report = \<lparr>ir_verdict = verdict_fail,
     ir_registration = default_registration\<lparr>rr_inlier_rmse_mm := Inf False\<rparr>,
     ir_coverage = default_coverage\<lparr>rc_coverage_ratio := 1\<rparr>, ir_deviations = default_deviations\<lparr>rd_max_abs_mm := NaN\<rparr>,
     ir_regions = [\<lparr>rg_id = 0, rg_type = report_bump, rg_point_count = 1, rg_centroid = Vec3 0 0 0, rg_aabb_min = Vec3 0 0 0,
       rg_aabb_max = Vec3 1 0 0, rg_max_abs_mm = 1, rg_mean_mm = 1, rg_rms_mm = 1, rg_p95_abs_mm = 1,
       rg_estimated_area_mm2 = None, rg_area_is_approximate = True, rg_severity = sev_reject\<rparr>],
     ir_timings = [\<lparr>ti_stage = stage_detect, ti_duration_us = 5\<rparr>],
     ir_provenance = \<lparr>pv_schema_version = ''1.0'', pv_run_id = [], pv_profile = ''p'', pv_generator_version = ''0.1.0'',
       pv_timestamp_utc = [], pv_deterministic = True, pv_thread_count = 1, pv_random_seed = 0\<rparr>,
     ir_diagnostics = [\<lparr>dg_code = invalid_input, dg_stage = stage_detect, dg_message = ''m'', dg_context = [(''k'', ''v'')]\<rparr>]\<rparr>"

lemma sample_report_formatted: "formatted_report sample_report"
proof -
  have "is_valid_utf8 ''1.0''" "is_valid_utf8 ''p''" "is_valid_utf8 ''0.1.0''" "is_valid_utf8 []"
    "is_valid_utf8 ''m''" "is_valid_utf8 ''k''" "is_valid_utf8 ''v''"
    by code_simp+
  then show ?thesis
    by (simp add: formatted_report_def formatted_counts_def formatted_numbers_def formatted_pose_def formatted_region_def
      formatted_vec3_def formatted_diagnostic_def formatted_provenance_def formatted_option_def sample_report_def
      default_registration_def default_coverage_def default_deviations_def is_finite3_def in_format3_def
      one_fp_def zero_fp_def)
qed

theorem report_round_trip_witness:
  "\<exists>t d. serialize_result json_tree sample_report = Inr t \<and> jl_parse json_tree t = Inr d \<and>
     (\<exists>s. jl_value_string json_tree d ''verdict'' [] = Inr s \<and> map_of verdict_vocabulary s = Some verdict_fail)"
  using report_round_trip [OF json_tree_laws sample_report_formatted]
  by (auto simp: sample_report_def says_report_def says_name_def says_text_def)

end
