(* ===== verification/Output.thy ===== *)
theory Output
  imports Serialization
begin

unbundle bit_operations_syntax

text \<open>
  \<open>serialization/output_writer.cpp\<close>: the SHA-256 digest of a text, the PLY file with the attributes
  of an inspected surface, and the manifest. Files are reached through the record \<open>disk\<close>.
\<close>

subsection \<open>SHA-256\<close>

definition sha256_constants :: "u32 list" where
  "sha256_constants = [
    0x428a2f98, 0x71374491, 0xb5c0fbcf, 0xe9b5dba5, 0x3956c25b, 0x59f111f1,
    0x923f82a4, 0xab1c5ed5, 0xd807aa98, 0x12835b01, 0x243185be, 0x550c7dc3,
    0x72be5d74, 0x80deb1fe, 0x9bdc06a7, 0xc19bf174, 0xe49b69c1, 0xefbe4786,
    0x0fc19dc6, 0x240ca1cc, 0x2de92c6f, 0x4a7484aa, 0x5cb0a9dc, 0x76f988da,
    0x983e5152, 0xa831c66d, 0xb00327c8, 0xbf597fc7, 0xc6e00bf3, 0xd5a79147,
    0x06ca6351, 0x14292967, 0x27b70a85, 0x2e1b2138, 0x4d2c6dfc, 0x53380d13,
    0x650a7354, 0x766a0abb, 0x81c2c92e, 0x92722c85, 0xa2bfe8a1, 0xa81a664b,
    0xc24b8b70, 0xc76c51a3, 0xd192e819, 0xd6990624, 0xf40e3585, 0x106aa070,
    0x19a4c116, 0x1e376c08, 0x2748774c, 0x34b0bcb5, 0x391c0cb3, 0x4ed8aa4a,
    0x5b9cca4f, 0x682e6ff3, 0x748f82ee, 0x78a5636f, 0x84c87814, 0x8cc70208,
    0x90befffa, 0xa4506ceb, 0xbef9a3f7, 0xc67178f2]"

definition rotate_right :: "u32 \<Rightarrow> nat \<Rightarrow> u32" where
  "rotate_right v count = drop_bit count v OR push_bit (32 - count) v"

text \<open>One pass of the loop of \<open>compress\<close>, assignment by assignment.\<close>

definition compress_round :: "u32 list \<Rightarrow> nat \<Rightarrow> u32 list \<Rightarrow> u32 list" where
  "compress_round schedule index w =
     (let sum1 = rotate_right (w ! 4) 6 XOR rotate_right (w ! 4) 11 XOR rotate_right (w ! 4) 25;
          choice = (w ! 4 AND w ! 5) XOR (NOT (w ! 4) AND w ! 6);
          temp1 = w ! 7 + sum1 + choice + sha256_constants ! index + schedule ! index;
          sum0 = rotate_right (w ! 0) 2 XOR rotate_right (w ! 0) 13 XOR rotate_right (w ! 0) 22;
          majority = (w ! 0 AND w ! 1) XOR (w ! 0 AND w ! 2) XOR (w ! 1 AND w ! 2);
          temp2 = sum0 + majority;
          w = w[7 := w ! 6]; w = w[6 := w ! 5]; w = w[5 := w ! 4]; w = w[4 := w ! 3 + temp1];
          w = w[3 := w ! 2]; w = w[2 := w ! 1]; w = w[1 := w ! 0]
      in w[0 := temp1 + temp2])"

definition compress :: "u32 list \<Rightarrow> u32 list \<Rightarrow> u32 list" where
  "compress schedule hash =
     (let working = fold (compress_round schedule) [0..<64] hash in
      map (\<lambda>index. hash ! index + working ! index) [0..<8])"

definition hex_digit :: "nat \<Rightarrow> char" where
  "hex_digit n = ''0123456789abcdef'' ! n"

text \<open>\<open>std::hex\<close>, filled with zeros to the width 8: a word has at most 8 digits.\<close>

definition word_hex :: "u32 \<Rightarrow> string" where
  "word_hex w = map (\<lambda>k. hex_digit (unat (drop_bit (28 - 4 * k) w AND 0xF))) [0..<8]"

definition to_hex :: "u32 list \<Rightarrow> string" where
  "to_hex hash = concat (map word_hex hash)"

text \<open>\<open>while (bytes.size() % 64U != 56U) bytes.push_back(0x00U);\<close>\<close>

function pad_zeros :: "u8 list \<Rightarrow> u8 list" where
  "pad_zeros bytes = (if length bytes mod 64 \<noteq> 56 then pad_zeros (bytes @ [0]) else bytes)"
  by pat_completeness auto
termination
proof (relation "measure (\<lambda>bytes. (120 - length bytes mod 64) mod 64)")
  fix bytes :: "u8 list"
  define m where "m = length bytes mod 64"
  assume "length bytes mod 64 \<noteq> 56"
  then have m: "m \<noteq> 56" "m < 64" by (simp_all add: m_def)
  have step: "length (bytes @ [0 :: u8]) mod 64 = (if m = 63 then 0 else Suc m)" by (simp add: m_def mod_Suc)
  have "(120 - (if m = 63 then 0 else Suc m)) mod 64 < (120 - m) mod 64"
  proof (cases "m < 56")
    case True
    then have "120 - m = 64 + (56 - m)" "120 - (if m = 63 then 0 else Suc m) = 64 + (55 - m)" by simp_all
    then show ?thesis using True by (simp only: mod_add_self1) simp
  qed (use m in auto)
  then show "(bytes @ [0], bytes) \<in> measure (\<lambda>bytes. (120 - length bytes mod 64) mod 64)"
    unfolding in_measure step by (simp add: m_def)
qed simp

declare pad_zeros.simps [simp del]

definition padded_message :: "u8 list \<Rightarrow> u8 list" where
  "padded_message data =
     (let bit_length = of_nat (length data) * 8 :: u64 in
      pad_zeros (data @ [0x80]) @ map (\<lambda>shift. ucast (drop_bit shift bit_length AND 0xFF)) [56, 48, 40, 32, 24, 16, 8, 0])"

definition schedule_word :: "u8 list \<Rightarrow> nat \<Rightarrow> nat \<Rightarrow> u32" where
  "schedule_word bytes offset index =
     push_bit 24 (ucast (bytes ! (offset + index * 4))) OR push_bit 16 (ucast (bytes ! (offset + index * 4 + 1))) OR
     push_bit 8 (ucast (bytes ! (offset + index * 4 + 2))) OR ucast (bytes ! (offset + index * 4 + 3))"

definition extend_schedule :: "nat \<Rightarrow> u32 list \<Rightarrow> u32 list" where
  "extend_schedule index w =
     (let s0 = rotate_right (w ! (index - 15)) 7 XOR rotate_right (w ! (index - 15)) 18 XOR drop_bit 3 (w ! (index - 15));
          s1 = rotate_right (w ! (index - 2)) 17 XOR rotate_right (w ! (index - 2)) 19 XOR drop_bit 10 (w ! (index - 2))
      in w[index := w ! (index - 16) + s0 + w ! (index - 7) + s1])"

definition message_schedule :: "u8 list \<Rightarrow> nat \<Rightarrow> u32 list" where
  "message_schedule bytes offset = fold extend_schedule [16..<64]
     (fold (\<lambda>index w. w[index := schedule_word bytes offset index]) [0..<16] (replicate 64 0))"

definition initial_hash :: "u32 list" where
  "initial_hash = [0x6a09e667, 0xbb67ae85, 0x3c6ef372, 0xa54ff53a, 0x510e527f, 0x9b05688c, 0x1f83d9ab, 0x5be0cd19]"

definition sha256_words :: "u8 list \<Rightarrow> u32 list" where
  "sha256_words data =
     (let bytes = padded_message data in
      fold (\<lambda>block. compress (message_schedule bytes (block * 64))) [0..<(length bytes + 63) div 64] initial_hash)"

definition sha256_hex :: "string \<Rightarrow> string" where
  "sha256_hex data = to_hex (sha256_words (bytes_of data))"

subsection \<open>The standard's digest\<close>

text \<open>
  FIPS 180-4: the constants as fractional parts of the cube roots and square roots of the first primes,
  rotations, the functions of a round, the recurrence of the message schedule, a round on
  eight working variables, and the padding with the least number of zeros.
\<close>

type_synonym chain = "u32 \<times> u32 \<times> u32 \<times> u32 \<times> u32 \<times> u32 \<times> u32 \<times> u32"

definition first_primes :: "nat list" where
  "first_primes = [2, 3, 5, 7, 11, 13, 17, 19, 23, 29, 31, 37, 41, 43, 47, 53, 59, 61, 67, 71, 73, 79, 83, 89, 97,
     101, 103, 107, 109, 113, 127, 131, 137, 139, 149, 151, 157, 163, 167, 173, 179, 181, 191, 193, 197, 199, 211, 223, 227, 229,
     233, 239, 241, 251, 257, 263, 269, 271, 277, 281, 283, 293, 307, 311]"

definition cube_fraction :: "nat \<Rightarrow> u32" where
  "cube_fraction p = word_of_int \<lfloor>root 3 (real p) * 2 ^ 32\<rfloor>"

definition square_fraction :: "nat \<Rightarrow> u32" where
  "square_fraction p = word_of_int \<lfloor>sqrt (real p) * 2 ^ 32\<rfloor>"

definition sha_ch :: "u32 \<Rightarrow> u32 \<Rightarrow> u32 \<Rightarrow> u32" where
  "sha_ch x y z = (x AND y) XOR (NOT x AND z)"

definition sha_maj :: "u32 \<Rightarrow> u32 \<Rightarrow> u32 \<Rightarrow> u32" where
  "sha_maj x y z = (x AND y) XOR (x AND z) XOR (y AND z)"

definition sha_Sum :: "nat \<Rightarrow> nat \<Rightarrow> nat \<Rightarrow> u32 \<Rightarrow> u32" where
  "sha_Sum i j k x = word_rotr i x XOR word_rotr j x XOR word_rotr k x"

definition sha_sum :: "nat \<Rightarrow> nat \<Rightarrow> nat \<Rightarrow> u32 \<Rightarrow> u32" where
  "sha_sum i j k x = word_rotr i x XOR word_rotr j x XOR drop_bit k x"

fun sha_schedule :: "(nat \<Rightarrow> u32) \<Rightarrow> nat \<Rightarrow> u32" where
  "sha_schedule block t =
     (if t < 16 then block t
      else sha_sum 17 19 10 (sha_schedule block (t - 2)) + sha_schedule block (t - 7) +
           sha_sum 7 18 3 (sha_schedule block (t - 15)) + sha_schedule block (t - 16))"

declare sha_schedule.simps [simp del]

fun sha_round :: "(nat \<Rightarrow> u32) \<Rightarrow> nat \<Rightarrow> chain \<Rightarrow> chain" where
  "sha_round W t (a, b, c, d, e, f, g, h) =
     (let t1 = h + sha_Sum 6 11 25 e + sha_ch e f g + cube_fraction (first_primes ! t) + W t;
          t2 = sha_Sum 2 13 22 a + sha_maj a b c
      in (t1 + t2, a, b, c, d + t1, e, f, g))"

fun sha_add :: "chain \<Rightarrow> chain \<Rightarrow> chain" where
  "sha_add (a, b, c, d, e, f, g, h) (a', b', c', d', e', f', g', h') =
     (a + a', b + b', c + c', d + d', e + e', f + f', g + g', h + h')"

definition sha_block :: "(nat \<Rightarrow> u32) \<Rightarrow> chain \<Rightarrow> chain" where
  "sha_block block H = sha_add H (fold (sha_round (sha_schedule block)) [0..<64] H)"

definition big_endian :: "u8 list \<Rightarrow> u32" where
  "big_endian bs = foldl (\<lambda>w b. 256 * w + ucast b) 0 bs"

definition sha_padding :: "nat \<Rightarrow> u8 list" where
  "sha_padding n = 0x80 # replicate ((119 - n mod 64) mod 64) 0 @
     map (\<lambda>k. of_nat (8 * n div 256 ^ (7 - k))) [0..<8]"

definition sha_initial :: chain where
  "sha_initial = (square_fraction 2, square_fraction 3, square_fraction 5, square_fraction 7, square_fraction 11,
     square_fraction 13, square_fraction 17, square_fraction 19)"

definition sha256_standard :: "u8 list \<Rightarrow> chain" where
  "sha256_standard data =
     (let m = data @ sha_padding (length data) in
      fold (\<lambda>i. sha_block (\<lambda>t. big_endian (take 4 (drop (64 * i + 4 * t) m)))) [0..<length m div 64] sha_initial)"

fun chain_list :: "chain \<Rightarrow> u32 list" where
  "chain_list (a, b, c, d, e, f, g, h) = [a, b, c, d, e, f, g, h]"

lemma length_chain_list [simp]: "length (chain_list H) = 8"
  by (cases H rule: chain_list.cases) simp

lemma root_fraction:
  assumes "0 < k" "0 \<le> c" "(c * 2 ^ 32 + uint w) ^ k \<le> int p * (2 ^ 32) ^ k" "int p * (2 ^ 32) ^ k < (c * 2 ^ 32 + uint w + 1) ^ k"
  shows "word_of_int \<lfloor>root k (real p) * 2 ^ 32\<rfloor> = (w :: u32)"
proof -
  define r where "r = c * 2 ^ 32 + uint w"
  let ?x = "root k (real p) * 2 ^ 32"
  have r: "0 \<le> r" using assms(2) by (simp add: r_def)
  have x: "?x ^ k = real_of_int (int p * (2 ^ 32) ^ k)" "0 \<le> ?x"
    using assms(1) by (simp_all add: power_mult_distrib)
  have "real_of_int r ^ k \<le> ?x ^ k" "?x ^ k < real_of_int (r + 1) ^ k"
    unfolding x(1) of_int_power [symmetric] of_int_le_iff of_int_less_iff r_def by (rule assms)+
  then have "real_of_int r \<le> ?x" "?x < real_of_int (r + 1)"
    using power_mono_iff [of "real_of_int r" ?x k] power_less_imp_less_base [of ?x k "real_of_int (r + 1)"] x(2) r assms(1) by simp_all
  then have floor: "\<lfloor>?x\<rfloor> = r" by linarith
  have "(2 :: u32) ^ 32 = 0" by (subst exp_eq_zero_iff) simp
  then have "(word_of_int r :: u32) = w" unfolding r_def of_int_add of_int_mult of_int_power of_int_numeral by (simp only: mult_zero_right add_0 word_of_int_uint)
  then show ?thesis unfolding floor .
qed

text \<open>The integer parts of the roots are single digits.\<close>

definition root_digits :: "nat \<Rightarrow> nat \<Rightarrow> u32 \<Rightarrow> bool" where
  "root_digits k p w \<longleftrightarrow> list_ex (\<lambda>c. (c * 2 ^ 32 + uint w) ^ k \<le> int p * (2 ^ 32) ^ k \<and>
     int p * (2 ^ 32) ^ k < (c * 2 ^ 32 + uint w + 1) ^ k) [1, 2, 3, 4, 5, 6]"

lemma root_digits_floor:
  assumes "0 < k" "root_digits k p w"
  shows "w = word_of_int \<lfloor>root k (real p) * 2 ^ 32\<rfloor>"
proof -
  obtain c :: int where c: "c \<in> set [1, 2, 3, 4, 5, 6]" "(c * 2 ^ 32 + uint w) ^ k \<le> int p * (2 ^ 32) ^ k \<and>
      int p * (2 ^ 32) ^ k < (c * 2 ^ 32 + uint w + 1) ^ k"
    using assms(2) unfolding root_digits_def list_ex_iff by blast
  moreover from c(1) have "0 \<le> c" by auto
  ultimately show ?thesis using root_fraction [OF assms(1), of c w p] by simp
qed

lemma root_digits_nth:
  "0 < k \<Longrightarrow> list_all2 (root_digits k) ps ws \<Longrightarrow> i < length ws \<Longrightarrow> ws ! i = word_of_int \<lfloor>root k (real (ps ! i)) * 2 ^ 32\<rfloor>"
  unfolding list_all2_conv_all_nth using root_digits_floor by simp

lemma constants_standard: "t < 64 \<Longrightarrow> sha256_constants ! t = cube_fraction (first_primes ! t)"
  unfolding cube_fraction_def
  by (rule root_digits_nth) (simp_all add: first_primes_def sha256_constants_def root_digits_def)

lemma initial_standard: "initial_hash = map square_fraction (take 8 first_primes)"
proof (rule nth_equalityI)
  show length: "length initial_hash = length (map square_fraction (take 8 first_primes))"
    by (simp add: initial_hash_def first_primes_def)
  fix i
  assume i: "i < length initial_hash"
  have "initial_hash ! i = word_of_int \<lfloor>root 2 (real (take 8 first_primes ! i)) * 2 ^ 32\<rfloor>"
    by (rule root_digits_nth [OF _ _ i]) (simp_all add: first_primes_def initial_hash_def root_digits_def)
  then show "initial_hash ! i = map square_fraction (take 8 first_primes) ! i"
    using i length by (simp add: square_fraction_def sqrt_def)
qed

lemma rotate_right_rotr:
  assumes "0 < n" "n < 32"
  shows "rotate_right v n = word_rotr n v"
proof (rule bit_word_eqI)
  fix k
  assume "k < LENGTH(32)"
  then have k: "k < 32" by simp
  show "bit (rotate_right v n) k = bit (word_rotr n v) k"
  proof (cases "k + n < 32")
    case True
    then have "\<not> 32 - n \<le> k" using assms by linarith
    then show ?thesis using True assms k by (simp add: rotate_right_def bit_simps add.commute)
  next
    case False
    then have "(k + n) mod 32 = k - (32 - n)" using k assms by (simp add: mod_if)
    moreover have "\<not> bit v (n + k)" using False bit_imp_le_length [of v "n + k"] by auto
    moreover have "32 - n \<le> k" using False by linarith
    ultimately show ?thesis using assms k by (simp add: rotate_right_def bit_simps)
  qed
qed

lemma rotations [simp]:
  "rotate_right v 2 = word_rotr 2 v" "rotate_right v 6 = word_rotr 6 v" "rotate_right v 7 = word_rotr 7 v"
  "rotate_right v 11 = word_rotr 11 v" "rotate_right v 13 = word_rotr 13 v" "rotate_right v 17 = word_rotr 17 v"
  "rotate_right v 18 = word_rotr 18 v" "rotate_right v 19 = word_rotr 19 v" "rotate_right v 22 = word_rotr 22 v"
  "rotate_right v 25 = word_rotr 25 v"
  by (rule rotate_right_rotr; simp)+

lemma compress_round_standard:
  "schedule ! t = W t \<Longrightarrow> t < 64 \<Longrightarrow> compress_round schedule t (chain_list H) = chain_list (sha_round W t H)"
  by (cases H rule: chain_list.cases) (simp add: compress_round_def Let_def sha_Sum_def sha_ch_def sha_maj_def constants_standard)

lemma compress_standard:
  assumes "\<forall>t < 64. schedule ! t = W t"
  shows "compress schedule (chain_list H) = chain_list (sha_add H (fold (sha_round W) [0..<64] H))"
proof -
  have "fold (compress_round schedule) ts (chain_list G) = chain_list (fold (sha_round W) ts G)"
    if "\<forall>t \<in> set ts. t < 64" for ts G
    using that assms by (induction ts arbitrary: G) (simp_all add: compress_round_standard)
  then have "fold (compress_round schedule) [0..<64] (chain_list H) = chain_list (fold (sha_round W) [0..<64] H)" by simp
  moreover have "map (\<lambda>i. chain_list H ! i + chain_list G ! i) [0..<8] = chain_list (sha_add H G)" for H G
    by (cases H rule: chain_list.cases; cases G rule: chain_list.cases) (simp add: upt_rec)
  ultimately show ?thesis unfolding compress_def Let_def by simp
qed

lemma byte_words:
  fixes a b c d :: u8
  shows "push_bit 24 (ucast a :: u32) OR push_bit 16 (ucast b) OR push_bit 8 (ucast c) OR ucast d = big_endian [a, b, c, d]"
proof -
  have byte: "bit (ucast x :: u32) n \<longleftrightarrow> n < 8 \<and> bit x n" for x :: u8 and n
    by (auto simp: bit_simps dest: bit_imp_le_length)
  have small: "n < 8" if "bit x n" for x :: u8 and n using bit_imp_le_length [OF that] by simp
  have "push_bit 24 (ucast a :: u32) OR push_bit 16 (ucast b) OR push_bit 8 (ucast c) OR ucast d =
      push_bit 24 (ucast a) + (push_bit 16 (ucast b) + (push_bit 8 (ucast c) + ucast d))"
    by (subst disjunctive_add; (subst disjunctive_add)?; (subst disjunctive_add)?; auto simp: bit_simps byte dest: small)
  then show ?thesis by (simp add: big_endian_def push_bit_eq_mult algebra_simps)
qed

lemma take_four: "k + 3 < length bs \<Longrightarrow> take 4 (drop k bs) = [bs ! k, bs ! (k + 1), bs ! (k + 2), bs ! (k + 3)]"
  by (rule nth_equalityI) (auto simp: less_Suc_eq numeral_eq_Suc nth_append)

lemma schedule_word_standard:
  "offset + index * 4 + 3 < length bytes \<Longrightarrow>
   schedule_word bytes offset index = big_endian (take 4 (drop (offset + 4 * index) bytes))"
  by (simp only: schedule_word_def byte_words take_four mult.commute [of index 4])

lemma length_extend_schedule [simp]: "length (fold extend_schedule ts w) = length w"
  by (induction ts arbitrary: w) (simp_all add: extend_schedule_def Let_def)

lemma extend_schedule_standard:
  assumes "length w = 64" "\<forall>t < 16. w ! t = block t" "i \<le> 64" "16 \<le> i"
  shows "\<forall>t < i. fold extend_schedule [16..<i] w ! t = sha_schedule block t"
  using assms(4,3)
proof (induction i rule: dec_induct)
  case base
  then show ?case using assms(2) by (simp add: sha_schedule.simps)
next
  case (step i)
  let ?w = "fold extend_schedule [16..<i] w"
  have ih: "?w ! t = sha_schedule block t" if "t < i" for t using step that by simp
  have "fold extend_schedule [16..<Suc i] w = extend_schedule i ?w" using step.hyps by simp
  moreover have "extend_schedule i ?w ! i = sha_schedule block i"
    using step.hyps step.prems assms(1) by (subst sha_schedule.simps) (simp add: extend_schedule_def Let_def sha_sum_def ih algebra_simps)
  moreover have "extend_schedule i ?w ! t = ?w ! t" if "t \<noteq> i" for t
    using that by (simp add: extend_schedule_def Let_def)
  ultimately show ?case using ih by (auto simp: less_Suc_eq)
qed

lemma message_schedule_standard:
  assumes "offset + 64 \<le> length bytes"
  shows "\<forall>t < 64. message_schedule bytes offset ! t =
    sha_schedule (\<lambda>t. big_endian (take 4 (drop (offset + 4 * t) bytes))) t"
proof -
  let ?block = "\<lambda>t. big_endian (take 4 (drop (offset + 4 * t) bytes))"
  have "fold (\<lambda>index w. w[index := schedule_word bytes offset index]) [0..<16] (replicate 64 0) =
      write_each (schedule_word bytes offset) [0..<16] (replicate 64 0)"
    by (simp add: write_each_def)
  moreover have "\<forall>t < 16. write_each (schedule_word bytes offset) [0..<16] (replicate 64 0) ! t = ?block t"
    using assms by (simp add: nth_write_each schedule_word_standard)
  ultimately show ?thesis
    unfolding message_schedule_def by (intro extend_schedule_standard) simp_all
qed

lemma pad_zeros_replicate: "pad_zeros bytes = bytes @ replicate ((120 - length bytes mod 64) mod 64) 0"
proof (induction bytes rule: pad_zeros.induct)
  case (1 bytes)
  define m where "m = length bytes mod 64"
  show ?case
  proof (cases "m = 56")
    case True
    then show ?thesis by (simp add: pad_zeros.simps [of bytes] m_def)
  next
    case False
    have m: "m < 64" by (simp add: m_def)
    have step: "length (bytes @ [0 :: u8]) mod 64 = (if m = 63 then 0 else Suc m)" by (simp add: m_def mod_Suc)
    have "(120 - m) mod 64 = Suc ((120 - (if m = 63 then 0 else Suc m)) mod 64)"
    proof (cases "m < 56")
      case True
      then have "120 - m = 64 + (56 - m)" "120 - (if m = 63 then 0 else Suc m) = 64 + (55 - m)" by simp_all
      then show ?thesis using True by (simp only: mod_add_self1) simp
    qed (use m False in auto)
    then have "replicate ((120 - m) mod 64) (0 :: u8) =
        [0] @ replicate ((120 - length (bytes @ [0 :: u8]) mod 64) mod 64) 0"
      unfolding step by simp
    moreover have "pad_zeros bytes = pad_zeros (bytes @ [0])" using False by (simp add: pad_zeros.simps [of bytes] m_def)
    ultimately show ?thesis using 1 False unfolding m_def by simp
  qed
qed

lemma length_byte:
  assumes "s \<le> 56"
  shows "(ucast (drop_bit s (of_nat n * 8 :: u64) AND 0xFF) :: u8) = of_nat (8 * n div 2 ^ s)"
proof (rule bit_word_eqI)
  fix k
  assume "k < LENGTH(8)"
  then have k: "k < 8" by simp
  have e: "of_nat n * 8 = (of_nat (8 * n) :: u64)" "(0xFF :: u64) = mask 8" by (simp_all add: mask_eq_exp_minus_1)
  then have "bit (ucast (drop_bit s (of_nat n * 8 :: u64) AND 0xFF) :: u8) k \<longleftrightarrow> bit (8 * n) (s + k)"
    unfolding e using k assms by (simp add: bit_simps del: of_nat_mult)
  also have "\<dots> \<longleftrightarrow> bit (of_nat (8 * n div 2 ^ s) :: u8) k"
    using k by (simp add: bit_simps drop_bit_eq_div [symmetric] del: of_nat_mult)
  finally show "bit (ucast (drop_bit s (of_nat n * 8 :: u64) AND 0xFF) :: u8) k = bit (of_nat (8 * n div 2 ^ s) :: u8) k" .
qed

lemma padded_message_standard: "padded_message data = data @ sha_padding (length data)"
proof -
  have "(120 - Suc (length data) mod 64) mod 64 = (119 - length data mod 64) mod 64"
    by (cases "length data mod 64 = 63") (auto simp: mod_Suc)
  moreover have "map (\<lambda>shift. ucast (drop_bit shift (of_nat (length data) * 8 :: u64) AND 0xFF)) [56, 48, 40, 32, 24, 16, 8, 0] =
      map (\<lambda>k. of_nat (8 * length data div 256 ^ (7 - k)) :: u8) [0..<8]"
    using length_byte [of 0 "length data"] by (simp add: length_byte upt_rec)
  ultimately show ?thesis by (simp add: padded_message_def pad_zeros_replicate sha_padding_def)
qed

lemma padded_length: "length (data @ sha_padding (length data)) mod 64 = 0"
proof -
  define m where "m = length data mod 64"
  have m: "m < 64" by (simp add: m_def)
  have "length (data @ sha_padding (length data)) = length data + (9 + (119 - m) mod 64)"
    by (simp add: sha_padding_def m_def)
  also have "\<dots> mod 64 = (m + (9 + (119 - m) mod 64)) mod 64" unfolding m_def by (simp add: mod_add_left_eq)
  also have "\<dots> = 0"
  proof (cases "m < 56")
    case True
    then have "119 - m = 64 + (55 - m)" by simp
    then have "(119 - m) mod 64 = 55 - m" using True by (simp only: mod_add_self1) simp
    then show ?thesis using True by simp
  qed (use m in auto)
  finally show ?thesis .
qed

lemma sha256_words_standard: "sha256_words data = chain_list (sha256_standard data)"
proof -
  let ?m = "data @ sha_padding (length data)"
  have len: "(length ?m + 63) div 64 = length ?m div 64" "64 * (length ?m div 64) = length ?m"
    using padded_length [of data] by (auto simp: mult_div_mod_eq)
  have block: "compress (message_schedule ?m (i * 64)) (chain_list H) =
      chain_list (sha_block (\<lambda>t. big_endian (take 4 (drop (64 * i + 4 * t) ?m))) H)" if "i < length ?m div 64" for i H
  proof -
    have "i * 64 + 64 \<le> length ?m" using that len(2) by linarith
    from compress_standard [OF message_schedule_standard [OF this]] show ?thesis
      by (simp add: sha_block_def mult.commute)
  qed
  have "fold (\<lambda>i. compress (message_schedule ?m (i * 64))) is (chain_list H) =
      chain_list (fold (\<lambda>i. sha_block (\<lambda>t. big_endian (take 4 (drop (64 * i + 4 * t) ?m)))) is H)"
    if "\<forall>i \<in> set is. i < length ?m div 64" for "is" H
    using that block by (induction "is" arbitrary: H) (simp_all del: drop_append take_append length_append)
  from this [of "[0..<length ?m div 64]"] have blocks: "fold (\<lambda>i. compress (message_schedule ?m (i * 64))) [0..<length ?m div 64] (chain_list H) =
      chain_list (fold (\<lambda>i. sha_block (\<lambda>t. big_endian (take 4 (drop (64 * i + 4 * t) ?m)))) [0..<length ?m div 64] H)" for H
    unfolding atLeast_upt [symmetric] by blast
  have start: "initial_hash = chain_list sha_initial"
    by (simp add: initial_standard sha_initial_def first_primes_def)
  show ?thesis
    unfolding sha256_words_def padded_message_standard Let_def len(1) sha256_standard_def start by (rule blocks)
qed

lemma hex_digit_range: "n < 16 \<Longrightarrow> hex_digit n \<in> set ''0123456789abcdef''"
  unfolding hex_digit_def by (rule nth_mem) simp

lemma word_hex_digits: "length (word_hex w) = 8" "set (word_hex w) \<subseteq> set ''0123456789abcdef''"
proof -
  show "length (word_hex w) = 8" by (simp add: word_hex_def)
  have "unat (v AND 0xF) < 16" for v :: u32
  proof -
    have "v AND 0xF = take_bit 4 v" by (simp add: take_bit_eq_mask mask_eq_exp_minus_1)
    then show ?thesis using take_bit_nat_less_exp [of 4 "unat v"] by (simp add: unsigned_take_bit_eq)
  qed
  then show "set (word_hex w) \<subseteq> set ''0123456789abcdef''"
    using hex_digit_range unfolding word_hex_def by (auto simp del: set_simps)
qed

text \<open>
  C32. The digest of a text is the SHA-256 digest of the standard, whatever its length: constants,
  rounds, schedule and padding agree with FIPS 180-4. It is printed as 64 lower-case hexadecimal digits.
\<close>
theorem sha256_is_standard:
  "sha256_hex data = concat (map word_hex (chain_list (sha256_standard (bytes_of data)))) \<and>
   length (sha256_hex data) = 64 \<and> set (sha256_hex data) \<subseteq> set ''0123456789abcdef''"
proof -
  have e: "sha256_hex data = concat (map word_hex (chain_list (sha256_standard (bytes_of data))))"
    by (simp add: sha256_hex_def to_hex_def sha256_words_standard)
  have "length (concat (map word_hex ws)) = 8 * length ws" for ws
    by (induction ws) (simp_all add: word_hex_digits)
  then have "length (sha256_hex data) = 64" unfolding e by simp
  moreover have "set (sha256_hex data) \<subseteq> set ''0123456789abcdef''"
    unfolding e set_concat using word_hex_digits(2) by (auto simp del: set_simps)
  ultimately show ?thesis using e by blast
qed

subsection \<open>Files\<close>

text \<open>
  The files by name, and what the operating system does with an output stream: whether it opens
  (which truncates the file), and what has reached the file and whether the stream still reports
  success after a text was inserted.
\<close>

type_synonym files = "string \<Rightarrow> string option"

record file_system =
  fs_opens :: "string \<Rightarrow> bool"
  fs_store :: "string \<Rightarrow> string \<Rightarrow> string \<times> bool"

text \<open>Open, insert a text, close: \<open>None\<close> when the stream does not open.\<close>

definition write_stream :: "file_system \<Rightarrow> string \<Rightarrow> string \<Rightarrow> files \<Rightarrow> bool option \<times> files" where
  "write_stream fs path text files =
     (if \<not> fs_opens fs path then (None, files)
      else let (stored, good) = fs_store fs path text in (Some good, files(path \<mapsto> stored)))"

subsection \<open>Attribute PLY\<close>

definition newline :: char where
  "newline = CHR 0x0A"

definition digit :: "nat \<Rightarrow> char" where
  "digit n = ''0123456789'' ! n"

fun decimal :: "nat \<Rightarrow> string" where
  "decimal n = (if n < 10 then [digit n] else decimal (n div 10) @ [digit (n mod 10)])"

declare decimal.simps [simp del]

definition signed_decimal :: "int \<Rightarrow> string" where
  "signed_decimal i = (if i < 0 then ''-'' else []) @ decimal (nat \<bar>i\<bar>)"

text \<open>\<open>std::fixed << std::setprecision(6)\<close>; the sign of a NaN is not printed.\<close>

fun fixed6 :: "'f fp \<Rightarrow> string" where
  "fixed6 (Num q) = (let n = nat (rne (\<bar>q\<bar> * 1000000)) in
     (if q < 0 then ''-'' else []) @ decimal (n div 1000000) @ ''.'' @
     map (\<lambda>k. digit (n div 10 ^ (5 - k) mod 10)) [0..<6])"
| "fixed6 NegZero = ''-0.000000''"
| "fixed6 (Inf b) = (if b then ''-inf'' else ''inf'')"
| "fixed6 NaN = ''nan''"

definition output_error :: "ErrorCode \<Rightarrow> string \<Rightarrow> Error" where
  "output_error code message =
     \<lparr>err_code = code, err_stage = stage_serialization, err_message = message, err_context = []\<rparr>"

definition ply_header :: "nat \<Rightarrow> string" where
  "ply_header n = concat (map (\<lambda>line. line @ [newline])
     [''ply'', ''format ascii 1.0'', ''element vertex '' @ decimal n, ''property float x'', ''property float y'',
      ''property float z'', ''property float scalar'', ''property uchar reason'', ''property int region_id'', ''end_header''])"

definition ply_vertex :: "Surface \<Rightarrow> f64 list \<Rightarrow> u8 list \<Rightarrow> i32 list \<Rightarrow> nat \<Rightarrow> string" where
  "ply_vertex s scalar reason_code region_id index =
     (let p = sv_points s ! index in
      fixed6 (vx p) @ '' '' @ fixed6 (vy p) @ '' '' @ fixed6 (vz p) @ '' '' @ fixed6 (scalar ! index) @ '' '' @
      decimal (unat (reason_code ! index)) @ '' '' @ signed_decimal (sint (region_id ! index)) @ [newline])"

definition write_attribute_ply ::
  "file_system \<Rightarrow> string \<Rightarrow> Surface \<Rightarrow> f64 list \<Rightarrow> u8 list \<Rightarrow> i32 list \<Rightarrow> files \<Rightarrow> nat Result \<times> files" where
  "write_attribute_ply fs path s scalar reason_code region_id files =
     (if length scalar \<noteq> storage_size s \<or> length reason_code \<noteq> storage_size s \<or> length region_id \<noteq> storage_size s
      then (Inl (output_error invalid_input ''attribute arrays must span the surface storage''), files)
      else let indices = logical_indices s;
               text = ply_header (length indices) @ concat (map (ply_vertex s scalar reason_code region_id) indices)
        in case write_stream fs path text files of
             (None, files) \<Rightarrow> (Inl (output_error io_error ''failed to open output file''), files)
           | (Some False, files) \<Rightarrow> (Inl (output_error io_error ''failed while writing output file''), files)
           | (Some True, files) \<Rightarrow> (Inr (length indices), files))"

subsection \<open>Manifest\<close>

record ManifestEntry =
  me_path :: string
  me_sha256 :: string

definition manifest_document :: "'j json_library \<Rightarrow> string \<Rightarrow> string \<Rightarrow> ManifestEntry list \<Rightarrow> 'j" where
  "manifest_document L schema_version generator entries = jl_object L
     [(''schema_version'', jl_string L schema_version),
      (''generator'', jl_string L generator),
      (''files'', jl_array L (map (\<lambda>e. jl_object L
         [(''path'', jl_string L (me_path e)), (''sha256'', jl_string L (me_sha256 e))]) entries))]"

definition build_manifest :: "'j json_library \<Rightarrow> string \<Rightarrow> string \<Rightarrow> ManifestEntry list \<Rightarrow> string Result" where
  "build_manifest L schema_version generator entries =
     (case jl_dump_indented L 2 (manifest_document L schema_version generator entries) of
        Inr text \<Rightarrow> Inr text
      | Inl x \<Rightarrow> Inl (output_error internal_error (what x)))"

subsection \<open>The attribute file is well formed\<close>

definition line_breaks :: "string \<Rightarrow> nat" where
  "line_breaks s = length (filter (\<lambda>c. c = newline) s)"

lemma line_breaks_append [simp]: "line_breaks (s @ t) = line_breaks s + line_breaks t"
  by (simp add: line_breaks_def)

lemma line_breaks_simps [simp]:
  "line_breaks [] = 0" "line_breaks (c # s) = (if c = newline then 1 else 0) + line_breaks s"
  by (simp_all add: line_breaks_def)

lemma no_line_break: "\<forall>c \<in> set s. c \<noteq> newline \<Longrightarrow> line_breaks s = 0"
  by (induction s) (simp_all add: line_breaks_def)

lemma digit_not_newline: "n < 10 \<Longrightarrow> digit n \<noteq> newline"
proof -
  assume "n < 10"
  then have "digit n \<in> set ''0123456789''" unfolding digit_def by (intro nth_mem) simp
  moreover have "newline \<notin> set ''0123456789''" by (simp add: newline_def)
  ultimately show ?thesis by auto
qed

lemma decimal_digits: "c \<in> set (decimal n) \<Longrightarrow> c \<noteq> newline"
proof (induction n rule: decimal.induct)
  case (1 n)
  then show ?case
    using digit_not_newline [of n] digit_not_newline [of "n mod 10"]
    by (cases "n < 10") (auto simp: decimal.simps [of n])
qed

lemma line_breaks_numbers [simp]:
  "line_breaks (decimal n) = 0" "line_breaks (signed_decimal i) = 0" "line_breaks (fixed6 x) = 0"
proof -
  show d: "line_breaks (decimal n) = 0" for n using decimal_digits by (intro no_line_break) blast
  have sep: "CHR ''-'' \<noteq> newline" "CHR ''.'' \<noteq> newline" by (simp_all add: newline_def)
  show "line_breaks (signed_decimal i) = 0" using sep by (simp add: signed_decimal_def d)
  have "line_breaks (map (\<lambda>k. digit (f k mod 10)) ks) = 0" for f and ks :: "nat list"
    using digit_not_newline by (intro no_line_break) auto
  then show "line_breaks (fixed6 x) = 0"
    by (cases x) (use sep d in \<open>simp_all add: Let_def newline_def\<close>)
qed

lemma line_breaks_vertex: "line_breaks (ply_vertex s scalar reason_code region_id i) = 1"
proof -
  have "CHR '' '' \<noteq> newline" by (simp add: newline_def)
  then show ?thesis by (simp add: ply_vertex_def Let_def)
qed

lemma line_breaks_header: "line_breaks (ply_header n) = 10"
proof -
  show ?thesis
  unfolding ply_header_def by (simp) (simp add: newline_def)
qed

text \<open>A stream that reports success has delivered the whole text, and one that opens does so.\<close>

definition stores_everything :: "file_system \<Rightarrow> string \<Rightarrow> bool" where
  "stores_everything fs path \<longleftrightarrow> fs_opens fs path \<and> (\<forall>text. fs_store fs path text = (text, True))"

text \<open>
  Writing the attributes of a surface succeeds exactly when the three arrays span its storage,
  given a file that takes the text. The file then has the ten header lines, which declare as many
  vertices as the surface has logical points, and one line per logical point in traversal order;
  otherwise nothing is written.
\<close>
theorem attribute_ply_well_formed:
  assumes "surface_ok s" "stores_everything fs path"
  shows "write_attribute_ply fs path s scalar reason_code region_id files =
    (if length scalar = storage_size s \<and> length reason_code = storage_size s \<and> length region_id = storage_size s
     then (Inr (unat (sv_size s)), files(path \<mapsto> ply_header (unat (sv_size s)) @
             concat (map (ply_vertex s scalar reason_code region_id) (logical_indices s))))
     else (Inl (output_error invalid_input ''attribute arrays must span the surface storage''), files)) \<and>
   line_breaks (ply_header (unat (sv_size s)) @ concat (map (ply_vertex s scalar reason_code region_id) (logical_indices s))) =
     10 + unat (sv_size s)"
proof -
  have n: "length (logical_indices s) = unat (sv_size s)" using assms(1) by (simp add: surface_ok_def)
  have "line_breaks (concat (map (ply_vertex s scalar reason_code region_id) is)) = length is" for "is"
    by (induction "is") (simp_all add: line_breaks_vertex)
  then show ?thesis
    using assms(2) by (auto simp: write_attribute_ply_def write_stream_def stores_everything_def n line_breaks_header Let_def)
qed

definition sample_disk :: file_system where
  "sample_disk = \<lparr>fs_opens = (\<lambda>_. True), fs_store = (\<lambda>_ text. (text, True))\<rparr>"

theorem attribute_ply_well_formed_witness:
  "fst (write_attribute_ply sample_disk ''a.ply'' sample_mm_surface [1, NaN] [0, 1] [5, - 1] Map.empty) = Inr 2"
proof -
  have ok: "surface_ok sample_mm_surface" by code_simp
  have disk: "stores_everything sample_disk path" for path by (simp add: stores_everything_def sample_disk_def)
  have "storage_size sample_mm_surface = 2" "unat (sv_size sample_mm_surface) = 2" by code_simp+
  then show ?thesis using attribute_ply_well_formed [OF ok disk, where scalar = "[1, NaN]" and
      reason_code = "[0, 1]" and region_id = "[5, - 1]" and files = Map.empty] by simp
qed

end
