(* ===== verification/Cli.thy ===== *)
theory Cli
  imports PclConversion Serialization Output Pipeline
begin

text \<open>
  \<open>cli/main.cpp\<close>: the command line. The world is the files by name and the text printed to the two
  output streams; the file system, the PCL readers, the JSON library and the environment of the pipeline
  are parameters. \<open>None\<close> is a call that the point-cloud decoder does not define.
\<close>

subsection \<open>The world\<close>

record world =
  w_files :: files
  w_out :: string
  w_err :: string

text \<open>
  \<open>mc_read\<close> is an input stream read to its end: nothing when it does not open, else the text that was
  delivered and whether the stream is bad.
\<close>

record 'j machine =
  mc_env :: environment
  mc_json :: "'j json_library"
  mc_clouds :: "files cloud_library"
  mc_disk :: file_system
  mc_read :: "files \<Rightarrow> string \<Rightarrow> (string \<times> bool) option"

record Version =
  major :: i32
  minor :: i32
  patch :: i32
  prerelease :: string

definition version :: Version where
  "version = \<lparr>major = 0, minor = 1, patch = 0, prerelease = []\<rparr>"

text \<open>The version text is a macro of the build.\<close>

definition version_string :: "environment \<Rightarrow> string" where
  "version_string env = en_version env"

definition kExitOk :: int where "kExitOk = 0"
definition kExitError :: int where "kExitError = 1"
definition kExitUsage :: int where "kExitUsage = 2"

definition print_out :: "string \<Rightarrow> world \<Rightarrow> world" where
  "print_out s w = w\<lparr>w_out := w_out w @ s\<rparr>"

definition print_err :: "string \<Rightarrow> world \<Rightarrow> world" where
  "print_err s w = w\<lparr>w_err := w_err w @ s\<rparr>"

subsection \<open>Helpers\<close>

definition help_text :: string where
  "help_text = concat (map (\<lambda>line. line @ [newline])
     [''PointCloudAD command-line interface'', [], ''Usage:'',
      ''  pcad --help                         Show this help'',
      ''  pcad --version                      Show the program version'',
      ''  pcad validate-config <config.json>  Validate an inspection configuration'',
      ''  pcad inspect <config.json> <reference> <scan> [--output <dir>]'',
      ''                                      Run an inspection and write result.json and'',
      ''                                      manifest.json'', [],
      ''Point-cloud inputs are read by extension (.ply or .pcd). Inspection verdicts'',
      ''(pass/fail/indeterminate) never affect the process exit code.''])"

definition print_help :: "world \<Rightarrow> world" where
  "print_help = print_out help_text"

definition cli_error :: "ErrorCode \<Rightarrow> string \<Rightarrow> Error" where
  "cli_error code message = \<lparr>err_code = code, err_stage = stage_none, err_message = message, err_context = []\<rparr>"

definition read_text_file :: "'j machine \<Rightarrow> string \<Rightarrow> world \<Rightarrow> string Result" where
  "read_text_file M path w = (case mc_read M (w_files w) path of
       None \<Rightarrow> Inl (cli_error io_error (''cannot open '' @ path))
     | Some (content, bad) \<Rightarrow> if bad then Inl (cli_error io_error (''cannot read '' @ path)) else Inr content)"

definition write_text_file :: "'j machine \<Rightarrow> string \<Rightarrow> string \<Rightarrow> world \<Rightarrow> nat Result \<times> world" where
  "write_text_file M path content w = (case write_stream (mc_disk M) path content (w_files w) of
       (None, files) \<Rightarrow> (Inl (cli_error io_error (''cannot open '' @ path)), w\<lparr>w_files := files\<rparr>)
     | (Some False, files) \<Rightarrow> (Inl (cli_error io_error (''cannot write '' @ path)), w\<lparr>w_files := files\<rparr>)
     | (Some True, files) \<Rightarrow> (Inr (length content), w\<lparr>w_files := files\<rparr>))"

datatype PointCloudFormat = format_ply | format_pcd

definition has_suffix :: "string \<Rightarrow> string \<Rightarrow> bool" where
  "has_suffix path suffix \<longleftrightarrow> length suffix \<le> length path \<and> drop (length path - length suffix) path = suffix"

definition format_from_path :: "string \<Rightarrow> PointCloudFormat option" where
  "format_from_path path =
     (if has_suffix path ''.ply'' then Some format_ply else if has_suffix path ''.pcd'' then Some format_pcd else None)"

definition read_surface ::
  "'j machine \<Rightarrow> string \<Rightarrow> PointCloudFormat \<Rightarrow> LengthUnit \<Rightarrow> FrameId \<Rightarrow> world \<Rightarrow> Surface Result option" where
  "read_surface M path format u frame w =
     (if format = format_ply then read_ply (mc_clouds M) (w_files w) path u frame
      else read_pcd (mc_clouds M) (w_files w) path u frame)"

fun verdict_string :: "Verdict \<Rightarrow> string" where
  "verdict_string verdict_pass = ''pass''"
| "verdict_string verdict_fail = ''fail''"
| "verdict_string verdict_indeterminate = ''indeterminate''"

definition print_error :: "Error \<Rightarrow> world \<Rightarrow> world" where
  "print_error e = print_err (''error: '' @ err_message e @ [newline] @
     concat (map (\<lambda>(key, v). ''  '' @ key @ '': '' @ v @ [newline]) (err_context e)))"

text \<open>The pattern of every command: an error is printed and ends the process with \<open>kExitError\<close>.\<close>

definition or_exit :: "'a Result \<Rightarrow> world \<Rightarrow> ('a \<Rightarrow> (int \<times> world) option) \<Rightarrow> (int \<times> world) option" where
  "or_exit r w k = (case r of Inl e \<Rightarrow> Some (kExitError, print_error e w) | Inr x \<Rightarrow> k x)"

subsection \<open>Commands\<close>

definition run_validate_config :: "'j machine \<Rightarrow> string \<Rightarrow> world \<Rightarrow> (int \<times> world) option" where
  "run_validate_config M config_path w =
     or_exit (read_text_file M config_path w) w (\<lambda>t.
     or_exit (parse_config (mc_json M) t) w (\<lambda>parsed.
     or_exit (validate_config parsed) w (\<lambda>validated.
     Some (kExitOk, print_out (''config valid'' @ [newline]) w))))"

text \<open>\<open>std::filesystem::path\<close>'s \<open>/\<close> with a relative file name.\<close>

definition join_path :: "string \<Rightarrow> string \<Rightarrow> string" where
  "join_path dir name = dir @ (if dir \<noteq> [] \<and> last dir \<noteq> CHR ''/'' then ''/'' else []) @ name"

definition output_path :: "string \<Rightarrow> string \<Rightarrow> string" where
  "output_path output_dir name = join_path (if output_dir = [] then ''.'' else output_dir) name"

text \<open>The part of \<open>run_inspect\<close> that writes the two documents.\<close>

definition write_documents :: "'j machine \<Rightarrow> string \<Rightarrow> InspectionResult \<Rightarrow> string \<Rightarrow> world \<Rightarrow> (int \<times> world) option" where
  "write_documents M output_dir result result_json w =
     (let result_path = output_path output_dir ''result.json'';
          manifest_path = output_path output_dir ''manifest.json'';
          (written, w) = write_text_file M result_path result_json w in
      or_exit written w (\<lambda>_.
      or_exit (build_manifest (mc_json M) ''1.0'' (''pcad '' @ version_string (mc_env M))
                [\<lparr>me_path = ''result.json'', me_sha256 = sha256_hex result_json\<rparr>]) w (\<lambda>manifest.
      let (manifest_written, w) = write_text_file M manifest_path manifest w in
      or_exit manifest_written w (\<lambda>_.
      Some (kExitOk, print_out (''wrote: '' @ manifest_path @ [newline]) (print_out (''wrote: '' @ result_path @ [newline])
        (print_out (''verdict: '' @ verdict_string (ir_verdict result) @ [newline]) w)))))))"

definition run_inspect :: "'j machine \<Rightarrow> string \<Rightarrow> string \<Rightarrow> string \<Rightarrow> string \<Rightarrow> world \<Rightarrow> (int \<times> world) option" where
  "run_inspect M config_path reference_path scan_path output_dir w =
     or_exit (read_text_file M config_path w) w (\<lambda>t.
     or_exit (parse_config (mc_json M) t) w (\<lambda>config.
     or_exit (validate_config config) w (\<lambda>validated.
     (case (format_from_path reference_path, format_from_path scan_path) of
        (Some reference_format, Some scan_format) \<Rightarrow>
          let input = vc_input validated in
          Option.bind (read_surface M reference_path reference_format (vin_reference_unit input) (vin_reference_frame input) w)
            (\<lambda>reference. or_exit reference w (\<lambda>reference.
          Option.bind (read_surface M scan_path scan_format (vin_scan_unit input) (vin_scan_frame input) w)
            (\<lambda>scan. or_exit scan w (\<lambda>scan.
          or_exit (InspectionPipeline_create config) w (\<lambda>pipeline.
          Option.bind (InspectionPipeline_run (mc_env M) pipeline reference scan \<lparr>rq_initial_pose = None, rq_run_id = []\<rparr>)
            (\<lambda>result. or_exit result w (\<lambda>result.
          or_exit (serialize_result (mc_json M) result) w (\<lambda>result_json.
          write_documents M output_dir result result_json w))))))))
      | _ \<Rightarrow> Some (kExitUsage, print_err (''error: point-cloud inputs must use a .ply or .pcd extension'' @ [newline]) w)))))"

text \<open>\<open>main\<close>: the arguments after the program name.\<close>

definition main :: "'j machine \<Rightarrow> string list \<Rightarrow> world \<Rightarrow> (int \<times> world) option" where
  "main M args w =
     (let usage = (\<lambda>t. Some (kExitUsage, print_err (t @ [newline]) w)) in
      case args of
        [] \<Rightarrow> Some (kExitOk, print_help w)
      | command # rest \<Rightarrow>
          if command = ''--help'' \<or> command = ''-h'' then Some (kExitOk, print_help w)
          else if command = ''--version'' then Some (kExitOk, print_out (''pcad '' @ version_string (mc_env M) @ [newline]) w)
          else if command = ''validate-config'' then
            if length rest \<noteq> 1 then usage ''usage: pcad validate-config <config.json>''
            else run_validate_config M (rest ! 0) w
          else if command = ''inspect'' then
            if length rest < 3 then usage ''usage: pcad inspect <config.json> <reference> <scan> [--output <dir>]''
            else if length rest = 5 \<and> rest ! 3 = ''--output''
            then run_inspect M (rest ! 0) (rest ! 1) (rest ! 2) (rest ! 4) w
            else if 3 < length rest then usage (''unexpected argument: '' @ rest ! 3)
            else run_inspect M (rest ! 0) (rest ! 1) (rest ! 2) [] w
          else usage (''Unknown argument: '' @ command @ [newline] @ ''Use --help for usage.''))"

subsection \<open>Exit codes\<close>

lemma or_exit_ok: "or_exit r w k = Some (kExitOk, w') \<longleftrightarrow> (\<exists>x. r = Inr x \<and> k x = Some (kExitOk, w'))"
  by (cases r) (simp_all add: or_exit_def kExitOk_def kExitError_def)

lemma exit_codes_differ: "kExitUsage \<noteq> kExitOk" "kExitError \<noteq> kExitOk" "kExitError \<noteq> kExitUsage"
  by (simp_all add: kExitOk_def kExitError_def kExitUsage_def)

lemma or_exit_simps [simp]: "or_exit (Inr x) w k = k x" "or_exit (Inl e) w k = Some (kExitError, print_error e w)"
  by (simp_all add: or_exit_def)

text \<open>What the stream reports of a write, and what the file holds afterwards.\<close>

definition saved :: "file_system \<Rightarrow> string \<Rightarrow> string \<Rightarrow> bool" where
  "saved fs path content \<longleftrightarrow> fs_opens fs path \<and> snd (fs_store fs path content)"

definition stored_text :: "file_system \<Rightarrow> string \<Rightarrow> string \<Rightarrow> string" where
  "stored_text fs path content = fst (fs_store fs path content)"

lemma write_saved: "saved (mc_disk M) path content \<Longrightarrow> write_text_file M path content w =
    (Inr (length content), w\<lparr>w_files := (w_files w)(path \<mapsto> stored_text (mc_disk M) path content)\<rparr>)"
  by (auto simp: write_text_file_def write_stream_def saved_def stored_text_def split: prod.splits)

lemma write_not_saved:
  assumes "\<not> saved (mc_disk M) path content"
  shows "\<exists>e w'. write_text_file M path content w = (Inl e, w') \<and> (\<forall>p. p \<noteq> path \<longrightarrow> w_files w' p = w_files w p)"
proof (cases "fs_opens (mc_disk M) path")
  case True
  then obtain t where "fs_store (mc_disk M) path content = (t, False)"
    using assms by (cases "fs_store (mc_disk M) path content") (auto simp: saved_def)
  then show ?thesis using True by (simp add: write_text_file_def write_stream_def)
qed (simp add: write_text_file_def write_stream_def)

text \<open>The three lines a successful inspection prints.\<close>

definition closing_lines :: "string \<Rightarrow> Verdict \<Rightarrow> string" where
  "closing_lines output_dir v = ''verdict: '' @ verdict_string v @ [newline] @
     ''wrote: '' @ output_path output_dir ''result.json'' @ [newline] @
     ''wrote: '' @ output_path output_dir ''manifest.json'' @ [newline]"

lemma build_manifest_ok_iff:
  "build_manifest L v g entries = Inr t \<longleftrightarrow> jl_dump_indented L 2 (manifest_document L v g entries) = Inr t"
  by (simp add: build_manifest_def split: sum.split)

lemma output_paths_differ: "output_path dir ''manifest.json'' \<noteq> output_path dir ''result.json''"
  by (simp add: output_path_def join_path_def)

text \<open>The manifest of a report, and the last phase of the command on every disk.\<close>

definition inspection_manifest :: "'j machine \<Rightarrow> string \<Rightarrow> exn + string" where
  "inspection_manifest M report = jl_dump_indented (mc_json M) 2
     (manifest_document (mc_json M) ''1.0'' (''pcad '' @ version_string (mc_env M))
        [\<lparr>me_path = ''result.json'', me_sha256 = sha256_hex report\<rparr>])"

lemma built_manifest:
  "build_manifest (mc_json M) ''1.0'' (''pcad '' @ version_string (mc_env M))
     [\<lparr>me_path = ''result.json'', me_sha256 = sha256_hex report\<rparr>] = Inr manifest \<longleftrightarrow> inspection_manifest M report = Inr manifest"
  by (simp only: build_manifest_ok_iff inspection_manifest_def)

text \<open>The world a successful command leaves.\<close>

definition finished_world :: "'j machine \<Rightarrow> string \<Rightarrow> Verdict \<Rightarrow> string \<Rightarrow> string \<Rightarrow> world \<Rightarrow> world" where
  "finished_world M output_dir v report manifest w =
     (let result_path = output_path output_dir ''result.json''; manifest_path = output_path output_dir ''manifest.json'' in
      w\<lparr>w_files := (w_files w)(result_path \<mapsto> stored_text (mc_disk M) result_path report,
          manifest_path \<mapsto> stored_text (mc_disk M) manifest_path manifest),
        w_out := w_out w @ closing_lines output_dir v\<rparr>)"

lemma write_documents_saved:
  assumes "saved (mc_disk M) (output_path output_dir ''result.json'') report" "inspection_manifest M report = Inr manifest"
    "saved (mc_disk M) (output_path output_dir ''manifest.json'') manifest"
  shows "write_documents M output_dir r report w = Some (kExitOk, finished_world M output_dir (ir_verdict r) report manifest w)"
proof -
  have built: "build_manifest (mc_json M) ''1.0'' (''pcad '' @ version_string (mc_env M))
      [\<lparr>me_path = ''result.json'', me_sha256 = sha256_hex report\<rparr>] = Inr manifest"
    using assms(2) by (simp only: built_manifest)
  show ?thesis
    unfolding write_documents_def Let_def write_saved [OF assms(1)] prod.case or_exit_simps built write_saved [OF assms(3)]
    by (simp add: finished_world_def Let_def print_out_def closing_lines_def)
qed

lemma write_documents_failed:
  assumes "\<not> (saved (mc_disk M) (output_path output_dir ''result.json'') report \<and>
    (\<exists>manifest. inspection_manifest M report = Inr manifest \<and> saved (mc_disk M) (output_path output_dir ''manifest.json'') manifest))"
  shows "\<exists>e w'. write_documents M output_dir r report w = Some (kExitError, print_error e w') \<and>
    (saved (mc_disk M) (output_path output_dir ''result.json'') report \<and> is_ok (inspection_manifest M report) \<or>
       w_files w' (output_path output_dir ''manifest.json'') = w_files w (output_path output_dir ''manifest.json''))"
proof (cases "saved (mc_disk M) (output_path output_dir ''result.json'') report")
  case False
  then obtain e w' where "write_text_file M (output_path output_dir ''result.json'') report w = (Inl e, w')"
    "\<And>p. p \<noteq> output_path output_dir ''result.json'' \<Longrightarrow> w_files w' p = w_files w p"
    using write_not_saved [of M "output_path output_dir ''result.json''" report w] by blast
  then show ?thesis using output_paths_differ by (simp add: write_documents_def Let_def) blast
next
  case True
  let ?w = "w\<lparr>w_files := (w_files w)(output_path output_dir ''result.json'' \<mapsto>
      stored_text (mc_disk M) (output_path output_dir ''result.json'') report)\<rparr>"
  let ?built = "build_manifest (mc_json M) ''1.0'' (''pcad '' @ version_string (mc_env M))
      [\<lparr>me_path = ''result.json'', me_sha256 = sha256_hex report\<rparr>]"
  have documents: "write_documents M output_dir r report w = or_exit ?built ?w (\<lambda>manifest.
      let (manifest_written, w) = write_text_file M (output_path output_dir ''manifest.json'') manifest ?w in
      or_exit manifest_written w (\<lambda>_. Some (kExitOk, print_out (''wrote: '' @ output_path output_dir ''manifest.json'' @ [newline])
        (print_out (''wrote: '' @ output_path output_dir ''result.json'' @ [newline])
        (print_out (''verdict: '' @ verdict_string (ir_verdict r) @ [newline]) w)))))"
    unfolding write_documents_def Let_def write_saved [OF True] by simp
  show ?thesis
  proof (cases ?built)
    case (Inl e)
    then have "\<not> is_ok (inspection_manifest M report)" unfolding is_ok_iff built_manifest [symmetric] by simp
    then show ?thesis unfolding documents Inl using output_paths_differ [of output_dir] by (auto intro!: exI [of _ ?w])
  next
    case (Inr manifest)
    then have m: "inspection_manifest M report = Inr manifest" by (simp only: built_manifest)
    then have "\<not> saved (mc_disk M) (output_path output_dir ''manifest.json'') manifest" using assms True by blast
    then obtain e w' where "write_text_file M (output_path output_dir ''manifest.json'') manifest ?w = (Inl e, w')"
      using write_not_saved [of M "output_path output_dir ''manifest.json''" manifest ?w] by blast
    then show ?thesis unfolding documents Inr using True m by (auto simp: is_ok_iff)
  qed
qed

lemma bind_or_exit_ok:
  "Option.bind m (\<lambda>r. or_exit r w k) = Some (kExitOk, w') \<longleftrightarrow> (\<exists>x. m = Some (Inr x) \<and> k x = Some (kExitOk, w'))"
  by (cases m) (simp_all add: or_exit_ok)

definition default_request :: InspectionRequest where
  "default_request = \<lparr>rq_initial_pose = None, rq_run_id = []\<rparr>"

lemma formats_ok:
  "(case (f, g) of (Some rf, Some sf) \<Rightarrow> k rf sf | _ \<Rightarrow> Some (kExitUsage, w)) = Some (kExitOk, w') \<longleftrightarrow>
   (\<exists>rf sf. f = Some rf \<and> g = Some sf \<and> k rf sf = Some (kExitOk, w'))"
  by (cases f; cases g) (simp_all add: exit_codes_differ)

lemma run_inspect_ok_iff:
  "run_inspect M config_path reference_path scan_path output_dir w = Some (kExitOk, w') \<longleftrightarrow>
    (\<exists>t parsed config rf sf reference scan r report. read_text_file M config_path w = Inr t \<and>
       parse_config (mc_json M) t = Inr parsed \<and> validate_config parsed = Inr config \<and>
       format_from_path reference_path = Some rf \<and> format_from_path scan_path = Some sf \<and>
       read_surface M reference_path rf (vin_reference_unit (vc_input config)) (vin_reference_frame (vc_input config)) w =
         Some (Inr reference) \<and>
       read_surface M scan_path sf (vin_scan_unit (vc_input config)) (vin_scan_frame (vc_input config)) w = Some (Inr scan) \<and>
       InspectionPipeline_run (mc_env M) config reference scan default_request = Some (Inr r) \<and>
       serialize_result (mc_json M) r = Inr report \<and>
       write_documents M output_dir r report w = Some (kExitOk, w'))"
  unfolding run_inspect_def or_exit_ok bind_or_exit_ok formats_ok Let_def InspectionPipeline_create_def
    default_request_def [symmetric]
  by (rule iffI; clarsimp)

text \<open>The inputs a run of \<open>run_inspect\<close> needs, in the order it obtains them.\<close>

definition inspection_inputs ::
  "'j machine \<Rightarrow> string \<Rightarrow> string \<Rightarrow> string \<Rightarrow> world \<Rightarrow> ValidatedInspectionConfig \<Rightarrow> Surface \<Rightarrow> Surface \<Rightarrow> bool" where
  "inspection_inputs M config_path reference_path scan_path w config reference scan \<longleftrightarrow>
     rbind (read_text_file M config_path w) (\<lambda>t. rbind (parse_config (mc_json M) t) validate_config) = Inr config \<and>
     Option.bind (format_from_path reference_path) (\<lambda>format. read_surface M reference_path format
       (vin_reference_unit (vc_input config)) (vin_reference_frame (vc_input config)) w) = Some (Inr reference) \<and>
     Option.bind (format_from_path scan_path) (\<lambda>format. read_surface M scan_path format
       (vin_scan_unit (vc_input config)) (vin_scan_frame (vc_input config)) w) = Some (Inr scan)"

lemma run_inspect_reaches:
  assumes "inspection_inputs M config_path reference_path scan_path w config reference scan"
    "InspectionPipeline_run (mc_env M) config reference scan default_request = Some (Inr r)"
    "serialize_result (mc_json M) r = Inr report"
  shows "run_inspect M config_path reference_path scan_path output_dir w = write_documents M output_dir r report w"
proof -
  obtain t parsed rf sf where "read_text_file M config_path w = Inr t" "parse_config (mc_json M) t = Inr parsed"
    "validate_config parsed = Inr config" "format_from_path reference_path = Some rf" "format_from_path scan_path = Some sf"
    "read_surface M reference_path rf (vin_reference_unit (vc_input config)) (vin_reference_frame (vc_input config)) w = Some (Inr reference)"
    "read_surface M scan_path sf (vin_scan_unit (vc_input config)) (vin_scan_frame (vc_input config)) w = Some (Inr scan)"
    using assms(1) unfolding inspection_inputs_def rbind_Inr_iff bind_eq_Some_conv by blast
  then show ?thesis using assms(2,3)
    by (simp add: run_inspect_def Let_def InspectionPipeline_create_def default_request_def)
qed

lemma run_inspect_exit:
  "run_inspect M config_path reference_path scan_path output_dir w = Some (kExitOk, w') \<longleftrightarrow>
    (\<exists>config reference scan r report. inspection_inputs M config_path reference_path scan_path w config reference scan \<and>
      InspectionPipeline_run (mc_env M) config reference scan default_request = Some (Inr r) \<and>
      serialize_result (mc_json M) r = Inr report \<and> write_documents M output_dir r report w = Some (kExitOk, w'))"
  unfolding run_inspect_ok_iff inspection_inputs_def rbind_Inr_iff bind_eq_Some_conv by (rule iffI; clarsimp)

lemma write_documents_exit:
  "write_documents M output_dir r report w = Some (kExitOk, w') \<longleftrightarrow> (\<exists>manifest. inspection_manifest M report = Inr manifest \<and>
     saved (mc_disk M) (output_path output_dir ''result.json'') report \<and>
     saved (mc_disk M) (output_path output_dir ''manifest.json'') manifest \<and>
     w' = finished_world M output_dir (ir_verdict r) report manifest w)"
proof (cases "saved (mc_disk M) (output_path output_dir ''result.json'') report \<and> (\<exists>manifest. inspection_manifest M report = Inr manifest \<and>
    saved (mc_disk M) (output_path output_dir ''manifest.json'') manifest)")
  case True
  then obtain manifest where m: "saved (mc_disk M) (output_path output_dir ''result.json'') report"
    "inspection_manifest M report = Inr manifest" "saved (mc_disk M) (output_path output_dir ''manifest.json'') manifest" by blast
  then show ?thesis unfolding write_documents_saved [OF m] by auto
next
  case False
  then show ?thesis using write_documents_failed [OF False, of r w] exit_codes_differ by auto
qed

text \<open>
  C17. On every disk, the inspect command exits with 0 exactly when the configuration and both clouds can
  be read, the inspection returns a report, whatever its verdict, the report and the manifest with the
  SHA-256 of exactly the report's text can be printed, and both files open and take their text without
  an error. Then result.json and manifest.json hold what the disk stored of the two texts, which is the texts
  themselves on a disk that stores what it reports as written; no other file has changed, and nothing was
  printed to the error stream. When an inspection has a report but one of its documents cannot be produced or written,
  the exit code is 1 with an error message, and manifest.json is left alone unless the report was written.
\<close>
theorem inspect_exit_zero_iff:
  fixes M :: "'j machine" and output_dir :: string
  defines "result_path \<equiv> output_path output_dir ''result.json''" and "manifest_path \<equiv> output_path output_dir ''manifest.json''"
  shows "(run_inspect M config_path reference_path scan_path output_dir w = Some (kExitOk, w') \<longleftrightarrow>
      (\<exists>config reference scan r report manifest.
         inspection_inputs M config_path reference_path scan_path w config reference scan \<and>
         InspectionPipeline_run (mc_env M) config reference scan default_request = Some (Inr r) \<and>
         serialize_result (mc_json M) r = Inr report \<and> inspection_manifest M report = Inr manifest \<and>
         saved (mc_disk M) result_path report \<and> saved (mc_disk M) manifest_path manifest \<and>
         w' = finished_world M output_dir (ir_verdict r) report manifest w \<and>
         ((\<forall>path content. saved (mc_disk M) path content \<longrightarrow> stored_text (mc_disk M) path content = content) \<longrightarrow>
            w_files w' result_path = Some report \<and> w_files w' manifest_path = Some manifest))) \<and>
    (\<forall>config reference scan r report.
       inspection_inputs M config_path reference_path scan_path w config reference scan \<and>
       InspectionPipeline_run (mc_env M) config reference scan default_request = Some (Inr r) \<and>
       serialize_result (mc_json M) r = Inr report \<and>
       \<not> (saved (mc_disk M) result_path report \<and>
          (\<exists>manifest. inspection_manifest M report = Inr manifest \<and> saved (mc_disk M) manifest_path manifest)) \<longrightarrow>
       (\<exists>e w''. run_inspect M config_path reference_path scan_path output_dir w = Some (kExitError, print_error e w'') \<and>
          (saved (mc_disk M) result_path report \<and> is_ok (inspection_manifest M report) \<or>
             w_files w'' manifest_path = w_files w manifest_path)))"
    (is "?ok \<and> ?failed")
proof
  let ?run = "run_inspect M config_path reference_path scan_path output_dir w"
  show ?failed
  proof (intro allI impI, elim conjE)
    fix config reference scan r report
    assume reached: "inspection_inputs M config_path reference_path scan_path w config reference scan"
      "InspectionPipeline_run (mc_env M) config reference scan default_request = Some (Inr r)"
      "serialize_result (mc_json M) r = Inr report"
      and lost: "\<not> (saved (mc_disk M) result_path report \<and>
          (\<exists>manifest. inspection_manifest M report = Inr manifest \<and> saved (mc_disk M) manifest_path manifest))"
    show "\<exists>e w''. ?run = Some (kExitError, print_error e w'') \<and> (saved (mc_disk M) result_path report \<and>
        is_ok (inspection_manifest M report) \<or> w_files w'' manifest_path = w_files w manifest_path)"
      using write_documents_failed [OF lost [unfolded result_path_def manifest_path_def], of r w]
      unfolding run_inspect_reaches [OF reached] result_path_def manifest_path_def .
  qed
  have ok: "?run = Some (kExitOk, w') \<longleftrightarrow> (\<exists>config reference scan r report manifest.
      inspection_inputs M config_path reference_path scan_path w config reference scan \<and>
      InspectionPipeline_run (mc_env M) config reference scan default_request = Some (Inr r) \<and>
      serialize_result (mc_json M) r = Inr report \<and> inspection_manifest M report = Inr manifest \<and>
      saved (mc_disk M) result_path report \<and> saved (mc_disk M) manifest_path manifest \<and>
      w' = finished_world M output_dir (ir_verdict r) report manifest w)"
    unfolding run_inspect_exit write_documents_exit result_path_def manifest_path_def by blast
  have differ: "manifest_path \<noteq> result_path" unfolding result_path_def manifest_path_def by (rule output_paths_differ)
  have texts: "(\<forall>path content. saved (mc_disk M) path content \<longrightarrow> stored_text (mc_disk M) path content = content) \<longrightarrow>
      w_files (finished_world M output_dir v report manifest w) result_path = Some report \<and>
      w_files (finished_world M output_dir v report manifest w) manifest_path = Some manifest"
    if "saved (mc_disk M) result_path report" "saved (mc_disk M) manifest_path manifest" for v report manifest
    using that differ by (simp add: finished_world_def Let_def result_path_def manifest_path_def)
  show ?ok unfolding ok using texts by blast
qed

subsection \<open>What a command may change\<close>

text \<open>The world after some writes: files outside \<open>paths\<close> are as before and no error was printed.\<close>

definition quiet :: "string set \<Rightarrow> world \<Rightarrow> world \<Rightarrow> bool" where
  "quiet paths w w' \<longleftrightarrow> w_err w' = w_err w \<and> (\<forall>p. p \<notin> paths \<longrightarrow> w_files w' p = w_files w p)"

definition orderly :: "string set \<Rightarrow> world \<Rightarrow> (int \<times> world) option \<Rightarrow> bool" where
  "orderly paths w r \<longleftrightarrow> (\<forall>code w'. r = Some (code, w') \<longrightarrow>
     code \<in> {kExitOk, kExitError, kExitUsage} \<and> (code = kExitOk \<longleftrightarrow> w_err w' = w_err w) \<and>
     (\<forall>p. p \<notin> paths \<longrightarrow> w_files w' p = w_files w p))"

lemma quiet_refl [simp]: "quiet paths w w"
  by (simp add: quiet_def)

lemma quiet_print [simp]: "quiet paths w (print_out t w') = quiet paths w w'"
  by (simp add: quiet_def print_out_def)

lemma orderly_ok: "quiet paths w w' \<Longrightarrow> orderly paths w (Some (kExitOk, w'))"
  by (simp add: orderly_def quiet_def)

lemma orderly_error: "quiet paths w w' \<Longrightarrow> orderly paths w (Some (kExitError, print_error e w'))"
  by (simp add: orderly_def quiet_def print_error_def print_err_def exit_codes_differ)

lemma orderly_usage: "t \<noteq> [] \<Longrightarrow> orderly paths w (Some (kExitUsage, print_err t w))"
  by (simp add: orderly_def print_err_def exit_codes_differ)

lemma orderly_or_exit:
  "quiet paths w w' \<Longrightarrow> (\<And>x. r = Inr x \<Longrightarrow> orderly paths w (k x)) \<Longrightarrow> orderly paths w (or_exit r w' k)"
  by (cases r) (simp_all add: orderly_error)

lemma orderly_bind:
  "(\<And>x. m = Some x \<Longrightarrow> orderly paths w (k x)) \<Longrightarrow> orderly paths w (Option.bind m k)"
  by (cases m) (simp add: orderly_def, simp)

lemma orderly_if:
  "(b \<Longrightarrow> orderly paths w x) \<Longrightarrow> (\<not> b \<Longrightarrow> orderly paths w y) \<Longrightarrow> orderly paths w (if b then x else y)"
  by simp

lemma quiet_write:
  assumes "quiet paths w w'" "path \<in> paths"
  shows "quiet paths w (snd (write_text_file M path content w'))"
  using assms by (auto simp: write_text_file_def write_stream_def quiet_def split: bool.splits prod.splits)

lemma orderly_write_documents:
  "orderly {output_path dir ''result.json'', output_path dir ''manifest.json''} w (write_documents M dir r report w)"
  unfolding write_documents_def Let_def case_prod_beta
  by (intro orderly_or_exit orderly_ok quiet_write) (simp_all add: quiet_write)

lemmas orderly_intros = orderly_or_exit orderly_bind orderly_ok orderly_usage orderly_write_documents

lemma orderly_run_inspect:
  "orderly {output_path dir ''result.json'', output_path dir ''manifest.json''} w (run_inspect M c r s dir w)"
  unfolding run_inspect_def Let_def by (auto intro!: orderly_intros split: option.splits)

text \<open>The directory of the documents, from the arguments of an inspect command.\<close>

definition output_directory :: "string list \<Rightarrow> string" where
  "output_directory args = (if length args = 6 then args ! 5 else [])"

text \<open>
  C18. Every command ends with exit code 0, 1 or 2; the code is 0 exactly when nothing is printed to
  the error stream; and whatever happens, the only files a run can change are result.json and
  manifest.json of the output directory, and only by an inspect command.
\<close>
theorem main_effects:
  assumes "main M args w = Some (code, w')"
  shows "code \<in> {0, 1, 2} \<and> (code = 0 \<longleftrightarrow> w_err w' = w_err w) \<and>
    (\<forall>path. w_files w' path \<noteq> w_files w path \<longrightarrow> args \<noteq> [] \<and> hd args = ''inspect'' \<and>
       path \<in> {output_path (output_directory args) ''result.json'', output_path (output_directory args) ''manifest.json''})"
proof -
  let ?paths = "if args \<noteq> [] \<and> hd args = ''inspect''
    then {output_path (output_directory args) ''result.json'', output_path (output_directory args) ''manifest.json''} else {}"
  have validate: "orderly {} w (run_validate_config M c w)" for c
    unfolding run_validate_config_def by (auto intro!: orderly_intros)
  have "orderly ?paths w (main M args w)"
  proof (cases args)
    case Nil
    then show ?thesis by (simp add: main_def print_help_def orderly_ok)
  next
    case (Cons command rest)
    show ?thesis
    proof (cases "command = ''inspect''")
      case True
      have "output_directory args = (if length rest = 5 then rest ! 4 else [])"
        by (simp add: Cons output_directory_def)
      then have "orderly ?paths w (run_inspect M (rest ! 0) (rest ! 1) (rest ! 2) (rest ! 4) w)" if "length rest = 5"
        using orderly_run_inspect [of "rest ! 4"] that by (simp add: Cons True)
      moreover have "orderly ?paths w (run_inspect M (rest ! 0) (rest ! 1) (rest ! 2) [] w)" if "length rest \<noteq> 5"
        using orderly_run_inspect [of "[]"] that by (simp add: Cons True output_directory_def)
      ultimately show ?thesis
        using True by (simp only: main_def Let_def Cons list.case)
          (intro orderly_if orderly_usage orderly_ok; simp add: print_help_def)
    next
      case False
      then show ?thesis
        using validate unfolding main_def Let_def Cons list.case
        by (intro orderly_if orderly_usage orderly_ok) (simp_all add: print_help_def)
    qed
  qed
  then show ?thesis
    using assms by (auto simp: orderly_def kExitOk_def kExitError_def kExitUsage_def split: if_splits)
qed

subsection \<open>A complete run\<close>

text \<open>The units and frames of a configuration only reach the surfaces; the pipeline itself does not read them.\<close>

lemma input_free_fields:
  "vc_schema_version (config\<lparr>vc_input := i\<rparr>) = vc_schema_version config"
  "vc_profile (config\<lparr>vc_input := i\<rparr>) = vc_profile config"
  "vc_preprocess (config\<lparr>vc_input := i\<rparr>) = vc_preprocess config"
  "vc_registration (config\<lparr>vc_input := i\<rparr>) = vc_registration config"
  "vc_registration_gate (config\<lparr>vc_input := i\<rparr>) = vc_registration_gate config"
  "vc_comparison (config\<lparr>vc_input := i\<rparr>) = vc_comparison config"
  "vc_detection (config\<lparr>vc_input := i\<rparr>) = vc_detection config"
  "vc_execution (config\<lparr>vc_input := i\<rparr>) = vc_execution config"
  by simp_all

lemma stages_ignore_input:
  "prepare_surface env (config\<lparr>vc_input := i\<rparr>) = prepare_surface env config"
  "initial_result env (config\<lparr>vc_input := i\<rparr>) = initial_result env config"
  "report_registration (config\<lparr>vc_input := i\<rparr>) = report_registration config"
  "run_registration env (config\<lparr>vc_input := i\<rparr>) = run_registration env config"
  "run_comparison env (config\<lparr>vc_input := i\<rparr>) = run_comparison env config"
  "coverage_failed (config\<lparr>vc_input := i\<rparr>) = coverage_failed config"
  "run_detection env (config\<lparr>vc_input := i\<rparr>) = run_detection env config"
  by (intro ext; unfold prepare_surface_def initial_result_def report_registration_def run_registration_def
      run_comparison_def coverage_failed_def run_detection_def input_free_fields; rule refl)+

lemma composed_stages_ignore_input:
  "prepare_inputs env (config\<lparr>vc_input := i\<rparr>) = prepare_inputs env config"
  "gate_coverage env (config\<lparr>vc_input := i\<rparr>) = gate_coverage env config"
  by (intro ext; unfold prepare_inputs_def gate_coverage_def stages_ignore_input; rule refl)+

lemma pipeline_ignores_input:
  "InspectionPipeline_run env (config\<lparr>vc_input := i\<rparr>) = InspectionPipeline_run env config"
proof -
  have "inspect_aligned env (config\<lparr>vc_input := i\<rparr>) = inspect_aligned env config"
    by (intro ext) (unfold inspect_aligned_def stages_ignore_input composed_stages_ignore_input input_free_fields, rule refl)
  then show ?thesis
    by (intro ext) (unfold InspectionPipeline_run_def run_impl_def stages_ignore_input composed_stages_ignore_input
        input_free_fields, simp only:)
qed

definition board_config :: ValidatedInspectionConfig where
  "board_config = sample_config\<lparr>vc_input := \<lparr>vin_reference_unit = millimeter, vin_scan_unit = millimeter,
     vin_reference_frame = ''cad'', vin_scan_frame = ''cad''\<rparr>\<rparr>"

definition board_machine :: "json machine" where
  "board_machine = \<lparr>mc_env = sample_environment, mc_json = json_tree,
     mc_clouds = \<lparr>cl_load_ply = (\<lambda>_ _. Inr (Some (encoded_cloud sample_board True))),
        cl_save_ply = (\<lambda>_ _ _ files. (Inr False, files)), cl_load_pcd = (\<lambda>_ _. Inr None),
        cl_save_pcd = (\<lambda>_ _ _ files. (Inr False, files))\<rparr>,
     mc_disk = sample_disk, mc_read = (\<lambda>files path. map_option (\<lambda>t. (t, False)) (files path))\<rparr>"

definition board_world :: world where
  "board_world = \<lparr>w_files = Map.empty(''c.json'' \<mapsto> json_text (config_to_json json_tree (raw_config board_config))),
     w_out = [], w_err = []\<rparr>"

lemma board_inputs_read:
  "inspection_inputs board_machine ''c.json'' ''a.ply'' ''b.ply'' board_world board_config sample_board sample_board"
proof -
  have raw: "raw_config board_config = (raw_config sample_config)\<lparr>ic_input := ic_input (raw_config board_config)\<rparr>"
    by (simp add: board_config_def raw_config_def)
  have finite: "finite_config (raw_config board_config) = raw_config board_config"
    by (simp add: finite_config_def raw_config_def board_config_def sample_config_def finite_option_def finite_preprocess_def
        finite_registration_def finite_gate_config_def finite_comparison_def finite_detection_def raw_preprocess_def
        raw_registration_def raw_registration_gate_def raw_comparison_def raw_detection_def one_fp_def zero_fp_def)
  have "is_ok (FrameId_create ''cad'')" by code_simp
  then have complete: "complete_input (ic_input (raw_config board_config))"
    by (simp add: complete_input_def raw_config_def board_config_def raw_input_def)
  have "jl_parse json_tree (json_text (config_to_json json_tree (raw_config board_config))) =
      Inr (config_to_json json_tree (raw_config board_config))"
    by (simp add: json_tree_def json_text_def)
  moreover have "json_to_config json_tree (config_to_json json_tree (raw_config board_config)) =
      Inr (finite_config (raw_config board_config))"
    using json_tree_laws complete unfolding json_laws_def
    by (intro json_to_config_written)
       (simp_all add: raw_config_def board_config_def sample_config_def raw_registration_def raw_execution_def)
  ultimately have parsed: "parse_config json_tree (json_text (config_to_json json_tree (raw_config board_config))) =
      Inr (raw_config board_config)"
    unfolding parse_config_Inr_iff finite by blast
  have "config_valid board_config"
    using sample_config_valid by (simp add: board_config_def config_valid_def input_valid_def sample_config_def)
  then have valid: "validate_config (raw_config board_config) = Inr board_config" by (rule config_valid_Inr)
  have same: "file_surface sample_board millimeter ''cad'' = sample_board"
    by (simp add: file_surface_def mask_at_def sample_board_def upt_rec logical_indices_def storage_indices_def grid_indices_def)
       (simp add: eval_nat_numeral)
  have board: "encodable sample_board" "float_samples sample_board"
    using sample_board_ok by (simp_all add: encodable_def float_samples_def in_format3_def list_all_iff fp_eval)
  have path: "validate_ply_path path = Inr path" if "path \<in> {''a.ply'', ''b.ply''}" for path
    using that by (auto simp: validate_ply_path_def has_ply_extension_def has_extension_def)
  have read: "read_surface board_machine path format_ply millimeter ''cad'' board_world = Some (Inr sample_board)"
    if "path \<in> {''a.ply'', ''b.ply''}" for path
    using path [OF that] decode_encoded_cloud [OF board, of True millimeter "''cad''" path "''PLY''"]
    by (simp add: read_surface_def read_ply_def read_ply_file_def board_machine_def same)
  have formats: "format_from_path ''a.ply'' = Some format_ply" "format_from_path ''b.ply'' = Some format_ply"
    by (simp_all add: format_from_path_def has_suffix_def)
  have config: "read_text_file board_machine ''c.json'' board_world =
      Inr (json_text (config_to_json json_tree (raw_config board_config)))" "mc_json board_machine = json_tree"
    by (simp_all add: read_text_file_def board_machine_def board_world_def)
  have input: "vc_input board_config = \<lparr>vin_reference_unit = millimeter, vin_scan_unit = millimeter,
     vin_reference_frame = ''cad'', vin_scan_frame = ''cad''\<rparr>" by (simp add: board_config_def)
  show ?thesis
    unfolding inspection_inputs_def config input formats by (simp add: parsed valid read)
qed

text \<open>The sample inspection passes, and its report and manifest are written.\<close>

theorem inspect_exit_zero_iff_witness:
  "\<exists>w' report manifest. run_inspect board_machine ''c.json'' ''a.ply'' ''b.ply'' [] board_world = Some (0, w') \<and>
     w_files w' ''./result.json'' = Some report \<and> w_files w' ''./manifest.json'' = Some manifest \<and>
     take 15 (w_out w') = ''verdict: pass'' @ [newline, CHR ''w'']"
proof -
  have disk: "saved (mc_disk board_machine) path content" "stored_text (mc_disk board_machine) path content = content" for path content
    by (simp_all add: saved_def stored_text_def board_machine_def sample_disk_def)
  obtain out where out: "InspectionPipeline_run (mc_env board_machine) board_config sample_board sample_board default_request =
      Some (Inr out)" "ir_verdict out = verdict_pass"
    using board_run by (auto simp: board_config_def pipeline_ignores_input board_machine_def default_request_def)
  obtain report where report: "serialize_result (mc_json board_machine) out = Inr report"
    by (simp add: serialize_result_def board_machine_def json_tree_def)
  obtain manifest where manifest: "inspection_manifest board_machine report = Inr manifest"
    by (simp add: inspection_manifest_def board_machine_def json_tree_def)
  let ?w = "finished_world board_machine [] (ir_verdict out) report manifest board_world"
  have "run_inspect board_machine ''c.json'' ''a.ply'' ''b.ply'' [] board_world = Some (kExitOk, ?w)"
    by (rule inspect_exit_zero_iff [THEN conjunct1, THEN iffD2])
       (rule exI [of _ board_config], rule exI [of _ sample_board], rule exI [of _ sample_board], rule exI [of _ out],
        rule exI [of _ report], rule exI [of _ manifest],
        simp add: board_inputs_read out report manifest disk output_paths_differ [THEN not_sym] finished_world_def Let_def)
  moreover have "output_path [] ''result.json'' = ''./result.json''" "output_path [] ''manifest.json'' = ''./manifest.json''"
    by (simp_all add: output_path_def join_path_def)
  ultimately show ?thesis
    using out(2) by (intro exI [of _ ?w] exI [of _ report] exI [of _ manifest])
      (simp add: kExitOk_def board_world_def closing_lines_def finished_world_def disk)
qed

theorem main_effects_witness:
  "\<exists>w'. main board_machine [''inspect'', ''c.json''] board_world = Some (2, w') \<and> w_err w' \<noteq> [] \<and> w_files w' ''c.json'' \<noteq> None"
proof -
  obtain w' where m: "main board_machine [''inspect'', ''c.json''] board_world = Some (2, w')"
    by (simp add: main_def kExitUsage_def)
  from main_effects [OF m] have "w_err w' \<noteq> w_err board_world" "w_files w' ''c.json'' = w_files board_world ''c.json''"
    by (auto simp: output_path_def output_directory_def join_path_def)
  then show ?thesis using m by (auto simp: board_world_def)
qed

end
