(* ===== verification/SpatialIndex.thy ===== *)
theory SpatialIndex
  imports Icp "HOL-Library.Multiset"
begin

text \<open>
  \<open>backends/cuda/spatial_index.hpp\<close>: the flat bounding-volume hierarchy that the CUDA backend builds on
  the host. Nodes and positions are natural numbers (the guard of the build keeps them below
  \<open>2 ^ 32\<close>), original indices are integers. \<open>std::nth_element\<close>, whose order inside the two parts the
  standard leaves open, is a parameter.
\<close>

subsection \<open>Nodes and packing\<close>

record SpatialNode =
  sn_lower :: Vec3f
  sn_upper :: Vec3f
  sn_begin :: nat
  sn_count :: nat
  sn_escape :: nat
  sn_minimum_index :: int

record SpatialIndex =
  si_points :: "Vec3f list"
  si_original_indices :: "int list"
  si_nodes :: "SpatialNode list"

definition int32_max :: int where "int32_max = 2 ^ 31 - 1"

definition empty_node :: SpatialNode where
  "empty_node = \<lparr>sn_lower = Vec3f_zero, sn_upper = Vec3f_zero, sn_begin = 0, sn_count = 0, sn_escape = 0, sn_minimum_index = 0\<rparr>"

definition leaf_capacity :: nat where "leaf_capacity = 16"

definition coordinate :: "'a vec3 \<Rightarrow> nat \<Rightarrow> 'a" where
  "coordinate p axis = (if axis = 0 then vx p else if axis = 1 then vy p else vz p)"

definition map2_vec3 :: "('a \<Rightarrow> 'a \<Rightarrow> 'a) \<Rightarrow> 'a vec3 \<Rightarrow> 'a vec3 \<Rightarrow> 'a vec3" where
  "map2_vec3 f p q = Vec3 (f (vx p) (vx q)) (f (vy p) (vy q)) (f (vz p) (vz q))"

definition extend_node :: "Vec3f list \<Rightarrow> SpatialNode \<Rightarrow> int \<Rightarrow> SpatialNode" where
  "extend_node reference node original =
     (let point = reference ! nat original in
      node\<lparr>sn_lower := map2_vec3 std_min (sn_lower node) point, sn_upper := map2_vec3 std_max (sn_upper node) point,
           sn_minimum_index := min (sn_minimum_index node) original\<rparr>)"

definition scan_node :: "Vec3f list \<Rightarrow> nat \<Rightarrow> int list \<Rightarrow> SpatialNode" where
  "scan_node reference lo segment =
     (let point = reference ! nat (segment ! 0) in
      foldl (extend_node reference)
        \<lparr>sn_lower = point, sn_upper = point, sn_begin = lo, sn_count = length segment, sn_escape = 0,
         sn_minimum_index = int32_max\<rparr> segment)"

text \<open>The widest axis; the first one among equally wide ones.\<close>

definition widest_axis :: "SpatialNode \<Rightarrow> nat" where
  "widest_axis node =
     (let extent = (\<lambda>axis. widen (coordinate (sn_upper node) axis) - widen (coordinate (sn_lower node) axis)) in
      fst (foldl (\<lambda>(axis, e) candidate. if e < extent candidate then (candidate, extent candidate) else (axis, e))
        (0, extent 0) [1, 2]))"

text \<open>The comparator of the split: by coordinate, ties by original index.\<close>

definition before :: "Vec3f list \<Rightarrow> nat \<Rightarrow> int \<Rightarrow> int \<Rightarrow> bool" where
  "before reference axis left right =
     (let l = coordinate (reference ! nat left) axis; r = coordinate (reference ! nat right) axis in
      l < r \<or> (feq l r \<and> left < right))"

text \<open>\<open>std::nth_element\<close> on a range, with the comparator and the position of the nth element.\<close>

type_synonym nth_element = "(int \<Rightarrow> int \<Rightarrow> bool) \<Rightarrow> nat \<Rightarrow> int list \<Rightarrow> int list"

definition replace_range :: "nat \<Rightarrow> nat \<Rightarrow> 'a list \<Rightarrow> 'a list \<Rightarrow> 'a list" where
  "replace_range lo hi segment xs = take lo xs @ segment @ drop hi xs"

text \<open>The recursive lambda \<open>build\<close>.\<close>

function build_node :: "nth_element \<Rightarrow> Vec3f list \<Rightarrow> nat \<Rightarrow> nat \<Rightarrow> SpatialIndex \<Rightarrow> SpatialIndex" where
  "build_node nth_elem reference lo hi st =
     (let node_index = length (si_nodes st);
          st = st\<lparr>si_nodes := si_nodes st @ [empty_node]\<rparr>;
          segment = take (hi - lo) (drop lo (si_original_indices st));
          node = scan_node reference lo segment;
          (node, st) =
            (if hi - lo \<le> leaf_capacity
             then (node, st\<lparr>si_original_indices := replace_range lo hi (sort segment) (si_original_indices st)\<rparr>)
             else let middle = lo + (hi - lo) div 2;
                      st = st\<lparr>si_original_indices := replace_range lo hi
                        (nth_elem (before reference (widest_axis node)) ((hi - lo) div 2) segment) (si_original_indices st)\<rparr>;
                      st = build_node nth_elem reference lo middle st;
                      st = build_node nth_elem reference middle hi st
                  in (node\<lparr>sn_count := 0\<rparr>, st))
      in st\<lparr>si_nodes := (si_nodes st)[node_index := node\<lparr>sn_escape := length (si_nodes st)\<rparr>]\<rparr>)"
  by pat_completeness auto
termination
  by (relation "measure (\<lambda>(_, _, lo, hi, _). hi - lo)") (auto simp: leaf_capacity_def)

declare build_node.simps [simp del]

definition build_spatial_index :: "nth_element \<Rightarrow> Vec3f list \<Rightarrow> exn + SpatialIndex" where
  "build_spatial_index nth_elem reference =
     require (\<not> (reference = [] \<or> int32_max < int (length reference)))
       (exn_invalid_argument ''spatial index requires a nonempty int32-sized reference'') (
     require (list_all is_finite3 reference)
       (exn_invalid_argument ''spatial index requires finite coordinates'') (
     let st = build_node nth_elem reference 0 (length reference)
           \<lparr>si_points = [], si_original_indices = map int [0..<length reference], si_nodes = []\<rparr>
     in Inr (st\<lparr>si_points := map (\<lambda>i. reference ! nat i) (si_original_indices st)\<rparr>)))"

subsection \<open>The hierarchy\<close>

text \<open>A node covers the points of a segment: its box holds them and its index is their smallest.\<close>

definition inside_box :: "SpatialNode \<Rightarrow> Vec3f \<Rightarrow> bool" where
  "inside_box node p \<longleftrightarrow> (\<forall>axis < 3. coordinate (sn_lower node) axis \<le> coordinate p axis \<and>
     coordinate p axis \<le> coordinate (sn_upper node) axis)"

definition covers :: "Vec3f list \<Rightarrow> SpatialNode \<Rightarrow> int list \<Rightarrow> bool" where
  "covers reference node segment \<longleftrightarrow>
     is_finite3 (sn_lower node) \<and> is_finite3 (sn_upper node) \<and>
     (\<forall>i \<in> set segment. inside_box node (reference ! nat i) \<and> sn_minimum_index node \<le> i) \<and>
     sn_minimum_index node \<in> set segment"

text \<open>
  \<open>bvh reference lo k segment nodes\<close>: \<open>nodes\<close>, stored from position \<open>k\<close>, is the preorder of a tree over
  the original indices \<open>segment\<close>, stored from position \<open>lo\<close>.
\<close>

inductive bvh :: "Vec3f list \<Rightarrow> nat \<Rightarrow> nat \<Rightarrow> int list \<Rightarrow> SpatialNode list \<Rightarrow> bool" for reference where
  bvh_leaf: "\<lbrakk>segment \<noteq> []; length segment \<le> leaf_capacity; sorted segment; covers reference node segment;
     sn_begin node = lo; sn_count node = length segment; sn_escape node = Suc k\<rbrakk>
   \<Longrightarrow> bvh reference lo k segment [node]"
| bvh_inner: "\<lbrakk>bvh reference lo (Suc k) left left_nodes;
     bvh reference (lo + length left) (Suc k + length left_nodes) right right_nodes;
     covers reference node (left @ right); leaf_capacity < length (left @ right);
     length left \<le> length right; length right \<le> Suc (length left); sn_count node = 0;
     sn_escape node = Suc k + length left_nodes + length right_nodes\<rbrakk>
   \<Longrightarrow> bvh reference lo k (left @ right) (node # left_nodes @ right_nodes)"

lemma bvh_nonempty: "bvh reference lo k segment nodes \<Longrightarrow> segment \<noteq> [] \<and> nodes \<noteq> []"
  by (induction rule: bvh.induct) auto

lemma bvh_size: "bvh reference lo k segment nodes \<Longrightarrow> length nodes < 2 * length segment"
  by (induction rule: bvh.induct) (auto simp: neq_Nil_conv)

lemma covers_cong: "set segment = set segment' \<Longrightarrow> covers reference node segment = covers reference node segment'"
  by (simp add: covers_def)

lemma covers_fields [simp]:
  "covers reference (node\<lparr>sn_count := c\<rparr>) segment = covers reference node segment"
  "covers reference (node\<lparr>sn_escape := e\<rparr>) segment = covers reference node segment"
  by (simp_all add: covers_def inside_box_def)

subsection \<open>The boxes\<close>

lemma coordinate_map2: "coordinate (map2_vec3 f p q) axis = f (coordinate p axis) (coordinate q axis)"
  by (simp add: coordinate_def map2_vec3_def)

lemma is_finite3_coordinate: "is_finite3 p \<longleftrightarrow> (\<forall>axis < 3. isfinite (coordinate p axis))"
  by (auto simp: is_finite3_def coordinate_def numeral_3_eq_3 less_Suc_eq)

lemma std_min_finite: "isfinite a \<Longrightarrow> isfinite b \<Longrightarrow> isfinite (std_min a b)"
  by (simp add: std_min_def)

lemma std_max_finite: "isfinite a \<Longrightarrow> isfinite b \<Longrightarrow> isfinite (std_max a b)"
  by (simp add: std_max_def)

lemma std_min_le_trans: "isfinite a \<Longrightarrow> isfinite b \<Longrightarrow> a \<le> x \<Longrightarrow> std_min a b \<le> x" for a b x :: "'f::len fp"
  using std_min_le [of a b] finite_not_nan fp_le_trans by blast

lemma std_max_ge_trans: "isfinite a \<Longrightarrow> isfinite b \<Longrightarrow> x \<le> a \<Longrightarrow> x \<le> std_max a b" for a b x :: "'f::len fp"
  using std_max_ge [of a b] finite_not_nan fp_le_trans by blast

text \<open>The state of the scan after a part of the segment.\<close>

definition scanned :: "Vec3f list \<Rightarrow> int list \<Rightarrow> SpatialNode \<Rightarrow> bool" where
  "scanned reference seen node \<longleftrightarrow> is_finite3 (sn_lower node) \<and> is_finite3 (sn_upper node) \<and>
     (\<forall>i \<in> set seen. inside_box node (reference ! nat i) \<and> sn_minimum_index node \<le> i) \<and>
     (if seen = [] then sn_minimum_index node = int32_max else sn_minimum_index node \<in> set seen)"

lemma extend_scanned:
  assumes "scanned reference seen node" "is_finite3 (reference ! nat i)" "i \<le> int32_max"
  shows "scanned reference (seen @ [i]) (extend_node reference node i)"
proof -
  let ?p = "reference ! nat i" and ?n = "extend_node reference node i"
  have fin: "isfinite (coordinate (sn_lower node) axis)" "isfinite (coordinate (sn_upper node) axis)" "isfinite (coordinate ?p axis)"
    if "axis < 3" for axis
    using assms(1,2) that by (auto simp: scanned_def is_finite3_coordinate)
  have node: "sn_lower ?n = map2_vec3 std_min (sn_lower node) ?p" "sn_upper ?n = map2_vec3 std_max (sn_upper node) ?p"
    "sn_minimum_index ?n = min (sn_minimum_index node) i"
    by (simp_all add: extend_node_def Let_def)
  have old: "inside_box ?n p" if "inside_box node p" for p
    using that fin unfolding inside_box_def node coordinate_map2 by (auto intro: std_min_le_trans std_max_ge_trans)
  have new: "inside_box ?n ?p"
    using fin unfolding inside_box_def node coordinate_map2
    by (auto intro!: std_min_le(2) std_max_ge(2) finite_not_nan)
  have "is_finite3 (sn_lower ?n)" "is_finite3 (sn_upper ?n)"
    using fin by (simp_all add: is_finite3_coordinate node coordinate_map2 std_min_finite std_max_finite)
  moreover have "min (sn_minimum_index node) i \<in> set (seen @ [i])"
    using assms(1,3) by (auto simp: scanned_def min_def split: if_splits)
  ultimately show ?thesis
    using assms(1) old new by (auto simp: scanned_def node(3) min.coboundedI1)
qed

lemma scan_node_fields [simp]:
  "sn_begin (scan_node reference lo segment) = lo" "sn_count (scan_node reference lo segment) = length segment"
proof -
  have "sn_begin (foldl (extend_node reference) n is) = sn_begin n \<and> sn_count (foldl (extend_node reference) n is) = sn_count n"
    for n "is"
    by (induction "is" arbitrary: n) (simp_all add: extend_node_def Let_def)
  then show "sn_begin (scan_node reference lo segment) = lo" "sn_count (scan_node reference lo segment) = length segment"
    by (simp_all add: scan_node_def Let_def)
qed

lemma scan_node_covers:
  assumes "segment \<noteq> []" "\<forall>i \<in> set segment. is_finite3 (reference ! nat i) \<and> i \<le> int32_max"
  shows "covers reference (scan_node reference lo segment) segment"
proof -
  have step: "scanned reference (seen @ is) (foldl (extend_node reference) node is)"
    if "scanned reference seen node" "\<forall>i \<in> set is. is_finite3 (reference ! nat i) \<and> i \<le> int32_max" for seen "is" node
    using that
  proof (induction "is" arbitrary: seen node)
    case (Cons i js)
    then have "scanned reference ((seen @ [i]) @ js) (foldl (extend_node reference) (extend_node reference node i) js)"
      by (intro Cons.IH extend_scanned) auto
    then show ?case by simp
  qed simp
  have "segment ! 0 \<in> set segment" using assms(1) by (cases segment) simp_all
  then have "scanned reference [] \<lparr>sn_lower = reference ! nat (segment ! 0), sn_upper = reference ! nat (segment ! 0), sn_begin = lo,
      sn_count = length segment, sn_escape = 0, sn_minimum_index = int32_max\<rparr>"
    using assms(2) by (simp add: scanned_def)
  from step [OF this assms(2)] assms(1) show ?thesis
    by (simp add: scan_node_def covers_def scanned_def Let_def)
qed

subsection \<open>The build makes a hierarchy over a permutation\<close>

text \<open>What every implementation of \<open>std::nth_element\<close> does: it permutes the range.\<close>

definition permutes_range :: "nth_element \<Rightarrow> bool" where
  "permutes_range nth_elem \<longleftrightarrow> (\<forall>less n xs. mset (nth_elem less n xs) = mset xs)"

text \<open>The segment of a packing.\<close>

definition range_of :: "nat \<Rightarrow> nat \<Rightarrow> 'a list \<Rightarrow> 'a list" where
  "range_of lo hi xs = take (hi - lo) (drop lo xs)"

lemma length_range_of [simp]: "lo \<le> hi \<Longrightarrow> hi \<le> length xs \<Longrightarrow> length (range_of lo hi xs) = hi - lo"
  by (simp add: range_of_def)

lemma length_replace_range [simp]:
  "lo \<le> hi \<Longrightarrow> hi \<le> length xs \<Longrightarrow> length seg = hi - lo \<Longrightarrow> length (replace_range lo hi seg xs) = length xs"
  by (simp add: replace_range_def)

lemma range_of_replaced:
  assumes "lo \<le> mid" "mid \<le> hi" "hi \<le> length xs" "length seg = hi - lo"
  shows "range_of lo mid (replace_range lo hi seg xs) = take (mid - lo) seg"
    and "range_of mid hi (replace_range lo hi seg xs) = drop (mid - lo) seg"
  using assms by (simp_all add: range_of_def replace_range_def)

lemma replace_range_split:
  assumes "lo \<le> mid" "mid \<le> hi" "hi \<le> length xs" "length seg = hi - lo" "length l = mid - lo" "length r = hi - mid"
  shows "replace_range mid hi r (replace_range lo mid l (replace_range lo hi seg xs)) = replace_range lo hi (l @ r) xs"
  using assms by (simp add: replace_range_def)

lemma range_of_left_kept:
  "lo \<le> mid \<Longrightarrow> mid \<le> hi \<Longrightarrow> hi \<le> length xs \<Longrightarrow> length l = mid - lo \<Longrightarrow>
   range_of mid hi (replace_range lo mid l xs) = range_of mid hi xs"
  by (simp add: range_of_def replace_range_def)

text \<open>A state of the build whose positions \<open>lo\<close> to \<open>hi\<close> hold indices of finite points.\<close>

definition buildable :: "Vec3f list \<Rightarrow> nat \<Rightarrow> nat \<Rightarrow> int list \<Rightarrow> bool" where
  "buildable reference lo hi indices \<longleftrightarrow> lo < hi \<and> hi \<le> length indices \<and>
     (\<forall>i \<in> set (range_of lo hi indices). is_finite3 (reference ! nat i) \<and> i \<le> int32_max)"

lemma build_node_inner:
  assumes "\<not> hi - lo \<le> leaf_capacity"
  shows "build_node nth_elem reference lo hi st =
    (let st1 = st\<lparr>si_nodes := si_nodes st @ [empty_node]\<rparr>;
         segment = range_of lo hi (si_original_indices st1);
         node = scan_node reference lo segment;
         middle = lo + (hi - lo) div 2;
         st2 = st1\<lparr>si_original_indices := replace_range lo hi
           (nth_elem (before reference (widest_axis node)) ((hi - lo) div 2) segment) (si_original_indices st1)\<rparr>;
         st3 = build_node nth_elem reference lo middle st2;
         st4 = build_node nth_elem reference middle hi st3
     in st4\<lparr>si_nodes := (si_nodes st4)[length (si_nodes st) := node\<lparr>sn_count := 0\<rparr>\<lparr>sn_escape := length (si_nodes st4)\<rparr>]\<rparr>)"
  by (subst build_node.simps) (simp only: Let_def range_of_def assms if_False prod.case)

lemma build_node_bvh:
  assumes "permutes_range nth_elem" "buildable reference lo hi (si_original_indices st)"
  shows "\<exists>segment nodes. build_node nth_elem reference lo hi st =
      st\<lparr>si_original_indices := replace_range lo hi segment (si_original_indices st), si_nodes := si_nodes st @ nodes\<rparr> \<and>
    mset segment = mset (range_of lo hi (si_original_indices st)) \<and>
    bvh reference lo (length (si_nodes st)) segment nodes"
  using assms(2)
proof (induction "hi - lo" arbitrary: lo hi st rule: less_induct)
  case less
  let ?k = "length (si_nodes st)" and ?idx = "si_original_indices st" and ?h = "(hi - lo) div 2"
  let ?seg = "range_of lo hi ?idx"
  let ?node = "scan_node reference lo ?seg" and ?mid = "lo + ?h"
  have b: "lo < hi" "hi \<le> length ?idx" "\<forall>i \<in> set ?seg. is_finite3 (reference ! nat i) \<and> i \<le> int32_max"
    using less.prems by (simp_all add: buildable_def)
  have len: "length ?seg = hi - lo" using b by simp
  have covers: "covers reference ?node ?seg"
    using b(1,3) len by (intro scan_node_covers) (auto simp flip: length_greater_0_conv)
  have fields: "sn_begin ?node = lo" "sn_count ?node = hi - lo" using len by simp_all
  show ?case
  proof (cases "hi - lo \<le> leaf_capacity")
    case True
    let ?leaf = "?node\<lparr>sn_escape := Suc ?k\<rparr>"
    have "build_node nth_elem reference lo hi st =
        st\<lparr>si_original_indices := replace_range lo hi (sort ?seg) ?idx, si_nodes := si_nodes st @ [?leaf]\<rparr>"
      using True by (subst build_node.simps) (simp add: Let_def range_of_def [symmetric])
    moreover have ne: "sort ?seg \<noteq> []" using b(1) len by (metis length_sort list.size(3) zero_less_diff less_irrefl)
    have "covers reference ?leaf (sort ?seg)" using covers covers_cong [of "sort ?seg" ?seg] by simp
    then have "bvh reference lo ?k (sort ?seg) [?leaf]"
      using True len fields by (intro bvh_leaf ne) simp_all
    ultimately show ?thesis by (metis mset_sort)
  next
    case False
    let ?seg1 = "nth_elem (before reference (widest_axis ?node)) ?h ?seg"
    let ?idx1 = "replace_range lo hi ?seg1 ?idx"
    let ?st1 = "st\<lparr>si_original_indices := ?idx1, si_nodes := si_nodes st @ [empty_node]\<rparr>"
    have seg1: "mset ?seg1 = mset ?seg" using assms(1) by (simp add: permutes_range_def)
    then have len1: "length ?seg1 = hi - lo" and set1: "set ?seg1 = set ?seg"
      using len by (metis size_mset, metis set_mset_mset)
    have mid: "lo < ?mid" "?mid < hi" using False by (auto simp: leaf_capacity_def)
    have range1: "range_of lo ?mid ?idx1 = take ?h ?seg1" "range_of ?mid hi ?idx1 = drop ?h ?seg1"
      using range_of_replaced [of lo ?mid hi ?idx ?seg1] mid b len1 by simp_all
    have "buildable reference lo ?mid (si_original_indices ?st1)"
      using mid b len1 range1(1) set1 by (auto simp: buildable_def dest: in_set_takeD)
    from less.hyps [OF _ this] mid obtain l nl where
      left: "build_node nth_elem reference lo ?mid ?st1 = ?st1\<lparr>si_original_indices := replace_range lo ?mid l (si_original_indices ?st1),
          si_nodes := si_nodes ?st1 @ nl\<rparr>"
        and l: "mset l = mset (range_of lo ?mid (si_original_indices ?st1))" "bvh reference lo (length (si_nodes ?st1)) l nl"
      by fastforce
    have l1: "mset l = mset (take ?h ?seg1)" "bvh reference lo (Suc ?k) l nl" using l range1(1) by simp_all
    let ?st2 = "?st1\<lparr>si_original_indices := replace_range lo ?mid l ?idx1, si_nodes := si_nodes ?st1 @ nl\<rparr>"
    have lenl: "length l = ?h" using l1(1) len1 mid by (metis size_mset length_take min.absorb2 diff_add_inverse
        diff_le_mono less_imp_le)
    have range2: "range_of ?mid hi (si_original_indices ?st2) = drop ?h ?seg1"
      using range_of_left_kept [of lo ?mid hi ?idx1 l] mid b len1 lenl range1(2) by simp
    have "buildable reference ?mid hi (si_original_indices ?st2)"
      using mid b len1 lenl range2 set1 by (auto simp: buildable_def dest: in_set_dropD)
    from less.hyps [OF _ this] mid obtain r nr where
      right: "build_node nth_elem reference ?mid hi ?st2 = ?st2\<lparr>si_original_indices := replace_range ?mid hi r (si_original_indices ?st2),
          si_nodes := si_nodes ?st2 @ nr\<rparr>"
        and r: "mset r = mset (range_of ?mid hi (si_original_indices ?st2))" "bvh reference ?mid (length (si_nodes ?st2)) r nr"
      by fastforce
    have r1: "mset r = mset (drop ?h ?seg1)" "bvh reference ?mid (Suc ?k + length nl) r nr" using r range2 by simp_all
    have lenr: "length r = hi - ?mid" using r1(1) len1 mid by (metis size_mset length_drop diff_diff_left)
    have idx3: "replace_range ?mid hi r (si_original_indices ?st2) = replace_range lo hi (l @ r) ?idx"
      using replace_range_split [of lo ?mid hi ?idx ?seg1 l r] mid b len1 lenl lenr by simp
    let ?inner = "?node\<lparr>sn_count := 0, sn_escape := Suc ?k + length nl + length nr\<rparr>"
    have st1: "?st1 = st\<lparr>si_nodes := si_nodes st @ [empty_node], si_original_indices := ?idx1\<rparr>" by simp
    note step = build_node_inner [OF False, of nth_elem reference st, unfolded Let_def]
    have "build_node nth_elem reference lo hi st =
        st\<lparr>si_original_indices := replace_range lo hi (l @ r) ?idx, si_nodes := si_nodes st @ (?inner # nl @ nr)\<rparr>"
      using step left right idx3 by (simp add: st1)
    moreover have perm: "mset (l @ r) = mset ?seg"
      using l1(1) r1(1) seg1 by (metis mset_append append_take_drop_id)
    moreover have "covers reference ?inner (l @ r)" "leaf_capacity < length (l @ r)"
      using covers covers_cong [OF mset_eq_setD [OF perm]] mset_eq_length [OF perm] False len by simp_all
    then have "bvh reference lo ?k (l @ r) (?inner # nl @ nr)"
      using l1(2) r1(2) lenl lenr by (intro bvh_inner) (simp_all, linarith+)
    ultimately show ?thesis by blast
  qed
qed

lemma built_index:
  assumes "permutes_range nth_elem" "build_spatial_index nth_elem reference = Inr index"
  shows "mset (si_original_indices index) = mset (map int [0..<length reference]) \<and>
      si_points index = map (\<lambda>i. reference ! nat i) (si_original_indices index) \<and>
      bvh reference 0 0 (si_original_indices index) (si_nodes index) \<and> length (si_nodes index) < 2 ^ 32"
proof -
  let ?st = "\<lparr>si_points = [], si_original_indices = map int [0..<length reference], si_nodes = []\<rparr>"
  have ok: "reference \<noteq> []" "int (length reference) \<le> int32_max" "list_all is_finite3 reference"
    and index: "index = (build_node nth_elem reference 0 (length reference) ?st)\<lparr>si_points :=
      map (\<lambda>i. reference ! nat i) (si_original_indices (build_node nth_elem reference 0 (length reference) ?st))\<rparr>"
    using assms(2) by (auto simp: build_spatial_index_def require_def Let_def split: if_splits)
  have whole: "range_of 0 (length reference) (map int [0..<length reference]) = map int [0..<length reference]"
    by (simp add: range_of_def)
  have "buildable reference 0 (length reference) (si_original_indices ?st)"
    using ok by (auto simp: buildable_def whole list_all_length)
  from build_node_bvh [OF assms(1) this] obtain segment nodes where
    b: "build_node nth_elem reference 0 (length reference) ?st = ?st\<lparr>si_original_indices :=
        replace_range 0 (length reference) segment (map int [0..<length reference]), si_nodes := nodes\<rparr>"
      "mset segment = mset (map int [0..<length reference])" "bvh reference 0 0 segment nodes"
    by (auto simp: whole)
  have "replace_range 0 (length reference) segment (map int [0..<length reference]) = segment"
    by (simp add: replace_range_def)
  moreover have "length segment = length reference" using mset_eq_length [OF b(2)] by simp
  ultimately show ?thesis using b bvh_size [OF b(3)] ok(2) by (simp add: index int32_max_def)
qed

text \<open>
  C27. Building the spatial index succeeds exactly on a non-empty set of finite points whose indices
  fit \<open>int32\<close>. The packing is then a permutation of the reference, and the nodes are the preorder of a
  tree: every leaf holds at most 16 points in index order, every inner node
  halves its points, every box contains its points, every node
  knows its smallest index, and every escape link is the end of its subtree. The node count stays
  below \<open>2 ^ 32\<close>, whatever order \<open>std::nth_element\<close> leaves inside the two parts.
\<close>
theorem spatial_index_correct:
  assumes "permutes_range nth_elem"
  shows "((\<exists>index. build_spatial_index nth_elem reference = Inr index) \<longleftrightarrow>
      reference \<noteq> [] \<and> int (length reference) \<le> int32_max \<and> list_all is_finite3 reference) \<and>
    (\<forall>index. build_spatial_index nth_elem reference = Inr index \<longrightarrow>
      mset (si_original_indices index) = mset (map int [0..<length reference]) \<and>
      si_points index = map (\<lambda>i. reference ! nat i) (si_original_indices index) \<and>
      bvh reference 0 0 (si_original_indices index) (si_nodes index) \<and> length (si_nodes index) < 2 ^ 32)"
proof
  show "(\<exists>index. build_spatial_index nth_elem reference = Inr index) \<longleftrightarrow>
      reference \<noteq> [] \<and> int (length reference) \<le> int32_max \<and> list_all is_finite3 reference"
    by (simp add: build_spatial_index_def require_def Let_def not_less)
qed (use built_index [OF assms] in blast)

subsection \<open>The distance to a box bounds the distance to its points\<close>

text \<open>The same computation bounds the points from below in exact and in rounded arithmetic.\<close>

lemma abs_rnd: "\<bar>rnd r :: 'f::len fp\<bar> = rnd \<bar>r\<bar>"
proof (cases "r < 0")
  case True
  then have "to_grid TYPE('f) r \<le> 0" using to_grid_mono [of r 0, where 'f = 'f] by simp
  moreover have "to_grid TYPE('f) \<bar>r\<bar> = - to_grid TYPE('f) r" using True by (simp add: to_grid_minus)
  ultimately show ?thesis using True
    by (auto simp: rnd_def round_fp_def Let_def abs_fp_def)
next
  case False
  then have "0 \<le> to_grid TYPE('f) r" by (intro to_grid_nonneg) simp
  then show ?thesis using False by (auto simp: rnd_def round_fp_def Let_def abs_fp_def)
qed

lemma abs_minus_finite: "isfinite x \<Longrightarrow> isfinite y \<Longrightarrow> \<bar>x - y\<bar> = rnd \<bar>val x - val y\<bar>" for x y :: "'f::len fp"
  using abs_rnd [of "val x - val y", where 'f = 'f]
  by (auto simp: minus_fp_def abs_fp_def rnd_zero elim!: isfinite_cases)

lemma le_finite_iff: "isfinite x \<Longrightarrow> isfinite y \<Longrightarrow> x \<le> y \<longleftrightarrow> val x \<le> val y" for x y :: "'f::len fp"
  by (auto simp: less_eq_fp_iff elim!: isfinite_cases)

lemma le_pos_inf: "\<not> is_nan x \<Longrightarrow> x \<le> Inf False" for x :: "'f::len fp"
  by (cases x) (auto simp: less_eq_fp_def fp_le_def)

lemma square_mono:
  fixes x y :: "'f::len fp"
  assumes "\<bar>x\<bar> \<le> \<bar>y\<bar>"
  shows "x * x \<le> y * y"
proof (cases "isfinite y")
  case True
  have nan: "\<not> is_nan x" using assms fp_le_not_nan [of "\<bar>x\<bar>" "\<bar>y\<bar>"] by simp
  have "isfinite \<bar>x\<bar>" using fp_finite_between [OF _ _ fp_abs_nonneg [OF nan] assms] True by simp
  then have fin: "isfinite x" by simp
  then have "\<bar>val x\<bar> \<le> \<bar>val y\<bar>" using assms True le_finite_iff [of "\<bar>x\<bar>" "\<bar>y\<bar>"] by (simp add: val_abs)
  then have "val x * val x \<le> val y * val y" by (metis abs_ge_zero abs_mult_self_eq mult_mono)
  moreover have "z * z = rnd (val z * val z)" if "isfinite z" for z :: "'f fp"
    using that by (auto simp: times_fp_def rnd_def elim!: isfinite_cases)
  ultimately show ?thesis using fin True rnd_mono by simp
next
  case False
  moreover have "\<not> is_nan y" "\<not> is_nan x" using assms fp_le_not_nan [of "\<bar>x\<bar>" "\<bar>y\<bar>"] by simp_all
  then have "\<not> is_nan (x * x)" using fp_square_nonneg fp_le_not_nan by blast
  ultimately show ?thesis using \<open>\<not> is_nan y\<close> by (cases y) (simp_all add: times_fp_def le_pos_inf)
qed

lemma plus_finite:
  "isfinite x \<Longrightarrow> isfinite y \<Longrightarrow> x + y \<le> rnd (val x + val y) \<and> rnd (val x + val y) \<le> x + y" for x y :: "'f::len fp"
  by (auto simp: plus_fp_def fp_le_refl less_eq_fp_iff elim!: isfinite_cases)

lemma plus_mono:
  fixes a b c d :: "'f::len fp"
  assumes "a \<le> b" "c \<le> d" "0 \<le> a" "0 \<le> c"
  shows "a + c \<le> b + d"
proof (cases "isfinite b \<and> isfinite d")
  case True
  then have fin: "isfinite a" "isfinite c"
    using fp_finite_between [OF _ _ assms(3,1)] fp_finite_between [OF _ _ assms(4,2)] by simp_all
  then have "val a + val c \<le> val b + val d"
    using assms(1,2) True by (intro add_mono) (simp_all add: le_finite_iff)
  then have "rnd (val a + val c) \<le> (rnd (val b + val d) :: 'f fp)" by (rule rnd_mono)
  then show ?thesis
    using plus_finite [OF fin] plus_finite [of b d] True fp_le_trans [of "a + c"] fp_le_trans [of "rnd (val a + val c)"] by metis
next
  case False
  have "0 \<le> b" "0 \<le> d" using assms fp_le_trans by blast+
  then have "b + d = Inf False"
    using False by (cases b; cases d) (auto simp: plus_fp_def less_eq_fp_def fp_le_def zero_fp_def)
  then show ?thesis using fp_plus_nonneg [OF assms(3,4)] fp_le_not_nan le_pos_inf by metis
qed

end



