(* ===== verification/CudaSearch.thy ===== *)
theory CudaSearch
  imports SpatialIndex
begin

text \<open>
  \<open>backends/cuda/cuda_correspondence.cu\<close>, the search kernels. A thread is a function of its query and
  of the device arrays it reads; the threads of a launch write different slots, so a launch is the
  writes of its threads in any order. The code is compiled without multiply-add contraction. A loop that
  follows escape links may run forever on arbitrary node arrays: its result is an option.
\<close>

subsection \<open>The tiled kernel\<close>

definition kBlockSize :: nat where "kBlockSize = 128"

text \<open>The update of one thread for one reference point of a tile.\<close>

definition tile_candidate :: "Vec3f list \<Rightarrow> nat \<Rightarrow> Vec3f \<Rightarrow> nat \<Rightarrow> f64 \<times> int \<Rightarrow> f64 \<times> int" where
  "tile_candidate tile offset q index state =
     (let (best, best_index) = state; distance = candidate_distance q (tile ! index) in
      if distance < best \<or> (feq distance best \<and> best_index < 0) then (distance, int (offset + index)) else (best, best_index))"

text \<open>The cooperative load of a tile: every thread of the block copies one point.\<close>

definition load_tile :: "Vec3f list \<Rightarrow> nat \<Rightarrow> Vec3f list \<Rightarrow> Vec3f list" where
  "load_tile reference offset tile =
     write_each (\<lambda>t. reference ! (offset + t)) (filter (\<lambda>t. offset + t < length reference) [0..<kBlockSize]) tile"

text \<open>
  The tile loop of a block from \<open>offset\<close> on: the shared tile and the pair (best, best_index) of every
  thread; the two barriers separate the load and the use of a tile. \<open>queries\<close> are those of the block:
  none for a thread beyond the query count.
\<close>

function tile_loop :: "Vec3f list \<Rightarrow> Vec3f option list \<Rightarrow> nat \<Rightarrow> Vec3f list \<Rightarrow> (f64 \<times> int) list \<Rightarrow> (f64 \<times> int) list" where
  "tile_loop reference queries offset tile states =
     (if offset < length reference
      then let tile = load_tile reference offset tile;
               fill = min (length reference - offset) kBlockSize;
               states = map2 (\<lambda>q state. case q of None \<Rightarrow> state
                 | Some q \<Rightarrow> fold (tile_candidate tile offset q) [0..<fill] state) queries states
           in tile_loop reference queries (offset + kBlockSize) tile states
      else states)"
  by pat_completeness auto
termination
  by (relation "measure (\<lambda>(reference, _, offset, _, _). length reference - offset)") (auto simp: kBlockSize_def)

declare tile_loop.simps [simp del]

definition block_queries :: "Vec3f list \<Rightarrow> nat \<Rightarrow> Vec3f option list" where
  "block_queries queries block = map (\<lambda>t. let i = block * kBlockSize + t in if i < length queries then Some (queries ! i) else None)
     [0..<kBlockSize]"

text \<open>The indices that one block writes; \<open>shared\<close> is the initial content of its shared memory.\<close>

definition nearest_block :: "Vec3f list \<Rightarrow> Vec3f list \<Rightarrow> f64 \<Rightarrow> Vec3f list \<Rightarrow> nat \<Rightarrow> int list \<Rightarrow> int list" where
  "nearest_block reference queries max_squared_distance shared block indices =
     (let states = tile_loop reference (block_queries queries block) 0 shared (replicate kBlockSize (max_squared_distance, - 1))
      in write_each (\<lambda>i. snd (states ! (i - block * kBlockSize)))
           (filter (\<lambda>i. i < length queries) [block * kBlockSize..<block * kBlockSize + kBlockSize]) indices)"

definition launch_blocks :: "nat \<Rightarrow> nat" where
  "launch_blocks n = (n + kBlockSize - 1) div kBlockSize"

definition nearest_kernel :: "Vec3f list \<Rightarrow> Vec3f list \<Rightarrow> f64 \<Rightarrow> Vec3f list \<Rightarrow> int list \<Rightarrow> int list" where
  "nearest_kernel reference queries max_squared_distance shared indices =
     fold (nearest_block reference queries max_squared_distance shared) [0..<launch_blocks (length queries)] indices"

subsection \<open>The indexed kernel\<close>

definition axis_gap :: "f32 \<Rightarrow> f32 \<Rightarrow> f32 \<Rightarrow> f64" where
  "axis_gap q lower upper = (if q < lower then widen lower - widen q else if upper < q then widen q - widen upper else 0)"

definition box_distance :: "Vec3f \<Rightarrow> SpatialNode \<Rightarrow> f64" where
  "box_distance q node =
     (let dx = axis_gap (vx q) (vx (sn_lower node)) (vx (sn_upper node));
          dy = axis_gap (vy q) (vy (sn_lower node)) (vy (sn_upper node));
          dz = axis_gap (vz q) (vz (sn_lower node)) (vz (sn_upper node))
      in dx * dx + dy * dy + dz * dz)"

definition skips :: "Vec3f \<Rightarrow> SpatialNode \<Rightarrow> f64 \<times> int \<Rightarrow> bool" where
  "skips q node state =
     (let (best, best_index) = state; lower_distance = box_distance q node in
      best < lower_distance \<or> (feq lower_distance best \<and> 0 \<le> best_index \<and> best_index \<le> sn_minimum_index node))"

definition leaf_candidate :: "Vec3f list \<Rightarrow> int list \<Rightarrow> Vec3f \<Rightarrow> nat \<Rightarrow> f64 \<times> int \<Rightarrow> f64 \<times> int" where
  "leaf_candidate reference original_indices q index state =
     (let (best, best_index) = state; distance = candidate_distance q (reference ! index); original = original_indices ! index in
      if distance < best \<or> (feq distance best \<and> (best_index < 0 \<or> original < best_index)) then (distance, original)
      else (best, best_index))"

text \<open>The traversal of one thread; \<open>reference\<close> holds the packed points.\<close>

partial_function (option) traverse ::
  "Vec3f list \<Rightarrow> int list \<Rightarrow> SpatialNode list \<Rightarrow> Vec3f \<Rightarrow> nat \<Rightarrow> f64 \<times> int \<Rightarrow> (f64 \<times> int) option" where
  "traverse reference original_indices nodes q cursor state =
     (if cursor < length nodes
      then let node = nodes ! cursor in
        if skips q node state then traverse reference original_indices nodes q (sn_escape node) state
        else if sn_count node = 0 then traverse reference original_indices nodes q (cursor + 1) state
        else traverse reference original_indices nodes q (sn_escape node)
          (fold (leaf_candidate reference original_indices q) [sn_begin node..<sn_begin node + sn_count node] state)
      else Some state)"

definition indexed_thread ::
  "Vec3f list \<Rightarrow> int list \<Rightarrow> SpatialNode list \<Rightarrow> Vec3f list \<Rightarrow> f64 \<Rightarrow> nat \<Rightarrow> int list \<Rightarrow> int list option" where
  "indexed_thread reference original_indices nodes queries max_squared_distance i indices =
     (if length queries \<le> i then Some indices
      else map_option (\<lambda>(best, best_index). indices[i := best_index])
        (traverse reference original_indices nodes (queries ! i) 0 (max_squared_distance, - 1)))"

definition indexed_nearest_kernel ::
  "Vec3f list \<Rightarrow> int list \<Rightarrow> SpatialNode list \<Rightarrow> Vec3f list \<Rightarrow> f64 \<Rightarrow> int list \<Rightarrow> int list option" where
  "indexed_nearest_kernel reference original_indices nodes queries max_squared_distance indices =
     foldO (indexed_thread reference original_indices nodes queries max_squared_distance)
       [0..<launch_blocks (length queries) * kBlockSize] indices"

subsection \<open>A box is never farther than its points\<close>

lemma axis_gap_le:
  assumes "isfinite q" "isfinite lower" "isfinite upper" "isfinite p" "lower \<le> p" "p \<le> upper"
  shows "\<bar>axis_gap q lower upper\<bar> \<le> \<bar>widen q - widen p\<bar>"
proof -
  have v: "val lower \<le> val p" "val p \<le> val upper"
    using assms by (simp_all add: le_finite_iff)
  have w: "val (widen x) = val x" "isfinite (widen x) = isfinite x" for x by (cases x; simp)+
  have order: "x < y \<longleftrightarrow> val x < val y" if "isfinite x" "isfinite y" for x y :: f32
    using that by (auto simp: less_fp_iff elim!: isfinite_cases)
  have zero: "\<bar>0 :: f64\<bar> \<le> rnd \<bar>r\<bar>" for r
    using rnd_mono [of 0 "\<bar>r\<bar>", where 'f = 64] by (simp add: abs_fp_def zero_fp_def)
  show ?thesis
    unfolding axis_gap_def using v assms(1-4)
    by (auto simp: abs_minus_finite w order zero intro!: rnd_mono)
qed

lemma axis_gap_number: "isfinite q \<Longrightarrow> isfinite lower \<Longrightarrow> isfinite upper \<Longrightarrow> \<not> is_nan (axis_gap q lower upper)"
  by (auto simp: axis_gap_def finite_minus_not_nan)

lemma box_distance_le:
  assumes "is_finite3 q" "is_finite3 (sn_lower node)" "is_finite3 (sn_upper node)" "is_finite3 p" "inside_box node p"
  shows "box_distance q node \<le> candidate_distance q p"
proof -
  have box: "vx (sn_lower node) \<le> vx p" "vx p \<le> vx (sn_upper node)" "vy (sn_lower node) \<le> vy p" "vy p \<le> vy (sn_upper node)"
    "vz (sn_lower node) \<le> vz p" "vz p \<le> vz (sn_upper node)"
    using assms(5) [unfolded inside_box_def, rule_format, of 0] assms(5) [unfolded inside_box_def, rule_format, of 1]
      assms(5) [unfolded inside_box_def, rule_format, of 2] by (simp_all add: coordinate_def)
  have "0 \<le> x * x" if "\<not> is_nan x" for x :: f64 using that by (rule fp_square_nonneg)
  then show ?thesis
    using assms(1-4) box unfolding box_distance_def candidate_distance_def Let_def is_finite3_def
    by (intro plus_mono square_mono axis_gap_le fp_plus_nonneg) (simp_all add: axis_gap_number)
qed

subsection \<open>The traversal visits what matters\<close>

lemma skipped_nothing:
  assumes "skips q node state" "covers reference node segment" "is_finite3 q" "\<forall>i \<in> set segment. is_finite3 (reference ! nat i)"
  shows "fold (better_candidate reference q) segment state = state"
proof -
  obtain best best_index where st: "state = (best, best_index)" by (cases state)
  have "better_candidate reference q i state = state" if i: "i \<in> set segment" for i
  proof -
    have le: "box_distance q node \<le> candidate_distance q (reference ! nat i)" and index: "sn_minimum_index node \<le> i"
      using assms i by (auto simp: covers_def intro!: box_distance_le)
    from assms(1) consider "best < box_distance q node"
      | "feq (box_distance q node) best" "0 \<le> best_index" "best_index \<le> sn_minimum_index node"
      by (auto simp: skips_def st Let_def)
    then show ?thesis
    proof cases
      case 1
      then have "best < candidate_distance q (reference ! nat i)" using le fp_less_le_trans by blast
      then show ?thesis using fp_less_imp_le fp_less_not_ge by (auto simp: st better_candidate_def Let_def feq_iff)
    next
      case 2
      then have "best \<le> candidate_distance q (reference ! nat i)" using le fp_le_trans by (auto simp: feq_iff)
      then show ?thesis using 2 index fp_less_not_ge by (auto simp: st better_candidate_def Let_def)
    qed
  qed
  then show ?thesis by (induction segment) auto
qed

lemma leaf_candidates:
  assumes "packed = map (\<lambda>i. reference ! nat i) original" "original = before_segment @ segment @ after_segment"
  shows "fold (leaf_candidate packed original q) [length before_segment..<length before_segment + length segment] state =
    fold (better_candidate reference q) segment state"
proof -
  have segment: "segment = map (\<lambda>index. original ! index) [length before_segment..<length before_segment + length segment]"
    by (rule nth_equalityI) (simp_all add: assms(2) nth_append)
  have "leaf_candidate packed original q index = better_candidate reference q (original ! index)"
    if "index < length original" for index
    using that by (simp add: leaf_candidate_def better_candidate_def assms(1) fun_eq_iff Let_def)
  then have "fold (leaf_candidate packed original q) [length before_segment..<length before_segment + length segment] state =
      fold (\<lambda>index. better_candidate reference q (original ! index)) [length before_segment..<length before_segment + length segment] state"
    by (intro fold_cong) (auto simp: assms(2))
  also have "\<dots> = fold (better_candidate reference q)
      (map (\<lambda>index. original ! index) [length before_segment..<length before_segment + length segment]) state"
    by (simp add: fold_map comp_def)
  finally show ?thesis unfolding segment [symmetric] .
qed

lemma traverse_bvh:
  assumes "bvh reference lo k segment nodes" "is_finite3 q" "list_all is_finite3 reference"
    and "packed = map (\<lambda>i. reference ! nat i) original" "\<forall>i \<in> set original. 0 \<le> i \<and> nat i < length reference"
    and "original = before_segment @ segment @ after_segment" "length before_segment = lo"
    and "all_nodes = before_nodes @ nodes @ after_nodes" "length before_nodes = k"
  shows "traverse packed original all_nodes q k state =
    traverse packed original all_nodes q (k + length nodes) (fold (better_candidate reference q) segment state)"
  using assms(1,6-9)
proof (induction arbitrary: state before_segment after_segment before_nodes after_nodes rule: bvh.induct)
  case (bvh_leaf segment node lo k)
  have at: "k < length all_nodes" "all_nodes ! k = node" using bvh_leaf.prems by auto
  have finite: "\<forall>i \<in> set segment. is_finite3 (reference ! nat i)"
    using assms(3,5) bvh_leaf.prems(1) by (auto simp: list_all_length)
  have leaf: "fold (leaf_candidate packed original q) [sn_begin node..<sn_begin node + sn_count node] state =
      fold (better_candidate reference q) segment state"
    using leaf_candidates [OF assms(4) bvh_leaf.prems(1)] bvh_leaf.hyps bvh_leaf.prems(2) by simp
  show ?case
    using at leaf bvh_leaf.hyps skipped_nothing [OF _ bvh_leaf.hyps(4) assms(2) finite, of state]
    by (subst traverse.simps) (auto simp: Let_def)
next
  case (bvh_inner lo k left left_nodes right right_nodes node)
  have at: "k < length all_nodes" "all_nodes ! k = node" using bvh_inner.prems by auto
  have finite: "\<forall>i \<in> set (left @ right). is_finite3 (reference ! nat i)"
    using assms(3,5) bvh_inner.prems(1) by (auto simp: list_all_length)
  have down: "traverse packed original all_nodes q (Suc k) state =
      traverse packed original all_nodes q (Suc k + length left_nodes) (fold (better_candidate reference q) left state)"
    using bvh_inner.prems by (intro bvh_inner.IH(1) [of before_segment "right @ after_segment" "before_nodes @ [node]"]) simp_all
  have across: "traverse packed original all_nodes q (Suc k + length left_nodes) state' =
      traverse packed original all_nodes q (Suc k + length left_nodes + length right_nodes) (fold (better_candidate reference q) right state')"
    for state'
    using bvh_inner.prems
    by (intro bvh_inner.IH(2) [of "before_segment @ left" after_segment "before_nodes @ node # left_nodes"]) simp_all
  show ?case
    using at bvh_inner.hyps skipped_nothing [OF _ bvh_inner.hyps(3) assms(2) finite, of state] down across
    by (subst traverse.simps) (auto simp: Let_def add.assoc)
qed

lemma traverse_past_end: "length nodes \<le> k \<Longrightarrow> traverse packed original nodes q k state = Some state"
  by (subst traverse.simps) simp

text \<open>What \<open>build_spatial_index\<close> promises, as the kernels use it.\<close>

definition index_of :: "Vec3f list \<Rightarrow> SpatialIndex \<Rightarrow> bool" where
  "index_of reference index \<longleftrightarrow> list_all is_finite3 reference \<and>
     mset (si_original_indices index) = mset (map int [0..<length reference]) \<and>
     si_points index = map (\<lambda>i. reference ! nat i) (si_original_indices index) \<and>
     bvh reference 0 0 (si_original_indices index) (si_nodes index)"

definition all_indices :: "Vec3f list \<Rightarrow> int set" where
  "all_indices reference = {0..<int (length reference)}"

lemma index_of_set: "index_of reference index \<Longrightarrow> set (si_original_indices index) = all_indices reference"
proof -
  assume "index_of reference index"
  then have "mset (si_original_indices index) = mset (map int [0..<length reference])"
    unfolding index_of_def by blast
  from mset_eq_setD [OF this] have "set (si_original_indices index) = set (map int [0..<length reference])" .
  then show ?thesis using zero_le_imp_eq_int by (force simp: all_indices_def image_iff)
qed

lemma candidate_numbers:
  "list_all is_finite3 reference \<Longrightarrow> is_finite3 q \<Longrightarrow>
   \<forall>c \<in> all_indices reference. 0 \<le> c \<and> \<not> is_nan (candidate_distance q (reference ! nat c))"
  using candidate_distance_number [of q] by (auto simp: all_indices_def list_all_length)

lemma indexed_search_best:
  assumes "index_of reference index" "is_finite3 q" "\<not> is_nan bound"
  shows "\<exists>best r. traverse (si_points index) (si_original_indices index) (si_nodes index) q 0 (bound, - 1) = Some (best, r) \<and>
    best_match reference q bound (all_indices reference) r"
proof -
  let ?o = "si_original_indices index" and ?n = "si_nodes index"
  have i: "list_all is_finite3 reference" "si_points index = map (\<lambda>i. reference ! nat i) ?o" "bvh reference 0 0 ?o ?n"
    using assms(1) by (simp_all add: index_of_def)
  have range: "\<forall>i \<in> set ?o. 0 \<le> i \<and> nat i < length reference"
    by (auto simp: index_of_set [OF assms(1)] all_indices_def)
  let ?r = "fold (better_candidate reference q) ?o (bound, - 1)"
  have "traverse (si_points index) ?o ?n q 0 (bound, - 1) = Some ?r"
    using traverse_bvh [OF i(3) assms(2) i(1,2) range, of "[]" "[]" ?n "[]" "[]" "(bound, - 1)"]
    by (simp add: traverse_past_end)
  moreover have "best_match reference q bound (all_indices reference) (snd ?r)"
    using best_candidate_fold [OF _ assms(3), of ?o q reference] candidate_numbers [OF i(1) assms(2)]
    by (simp add: index_of_set [OF assms(1)])
  ultimately show ?thesis by (metis prod.collapse)
qed

subsection \<open>The tiles enumerate the reference\<close>

lemma tile_candidate_eq:
  assumes "n = offset + index" "tile ! index = reference ! n" "snd state \<le> int n"
  shows "tile_candidate tile offset q index state = better_candidate reference q (int n) state"
  using assms by (cases state) (auto simp: tile_candidate_def better_candidate_def Let_def simp del: of_nat_add)

lemma better_candidate_index: "snd (better_candidate reference q c state) \<le> max c (snd state)"
  by (cases state) (auto simp: better_candidate_def Let_def)

lemma better_fold_index:
  assumes "snd state < int lo"
  shows "snd (fold (better_candidate reference q) (map int [lo..<lo + m]) state) < int (lo + m)"
proof (induction m)
  case (Suc m)
  then show ?case
    using better_candidate_index [of reference q "int (lo + m)" "fold (better_candidate reference q) (map int [lo..<lo + m]) state"]
    by simp
qed (simp add: assms)

lemma tile_fold:
  assumes "\<forall>index < m. tile ! index = reference ! (offset + index)" "snd state < int offset"
  shows "fold (tile_candidate tile offset q) [0..<m] state = fold (better_candidate reference q) (map int [offset..<offset + m]) state"
  using assms(1)
proof (induction m)
  case (Suc m)
  let ?s = "fold (better_candidate reference q) (map int [offset..<offset + m]) state"
  have "tile_candidate tile offset q m ?s = better_candidate reference q (int (offset + m)) ?s"
    using Suc.prems better_fold_index [OF assms(2), of reference q m] by (intro tile_candidate_eq) auto
  then show ?case using Suc by simp
qed simp

lemma loaded_tile:
  assumes "length tile = kBlockSize" "index < min (length reference - offset) kBlockSize"
  shows "load_tile reference offset tile ! index = reference ! (offset + index)"
  using assms by (auto simp: load_tile_def nth_write_each)

lemma length_load_tile [simp]: "length (load_tile reference offset tile) = length tile"
  by (simp add: load_tile_def)

text \<open>The state of a thread after the tiles before \<open>offset\<close>.\<close>

definition thread_state :: "Vec3f list \<Rightarrow> f64 \<Rightarrow> nat \<Rightarrow> Vec3f option \<Rightarrow> f64 \<times> int" where
  "thread_state reference bound offset query = (case query of None \<Rightarrow> (bound, - 1)
     | Some q \<Rightarrow> fold (better_candidate reference q) (map int [0..<min offset (length reference)]) (bound, - 1))"

lemma thread_state_step:
  assumes "length tile = kBlockSize" "offset < length reference"
  shows "(case query of None \<Rightarrow> thread_state reference bound offset query
      | Some q \<Rightarrow> fold (tile_candidate (load_tile reference offset tile) offset q)
          [0..<min (length reference - offset) kBlockSize] (thread_state reference bound offset query)) =
    thread_state reference bound (offset + kBlockSize) query"
proof (cases query)
  case (Some q)
  let ?m = "min (length reference - offset) kBlockSize"
  have "\<forall>index < ?m. load_tile reference offset tile ! index = reference ! (offset + index)"
    using loaded_tile [OF assms(1)] by blast
  moreover have "snd (thread_state reference bound offset query) < int offset"
    using better_fold_index [of "(bound, - 1)" 0 reference q offset] assms(2) by (simp add: thread_state_def Some)
  ultimately have "fold (tile_candidate (load_tile reference offset tile) offset q) [0..<?m] (thread_state reference bound offset query) =
      fold (better_candidate reference q) (map int [offset..<offset + ?m]) (thread_state reference bound offset query)"
    by (rule tile_fold)
  also have "\<dots> = fold (better_candidate reference q) (map int ([0..<offset] @ [offset..<offset + ?m])) (bound, - 1)"
    using assms(2) by (simp add: thread_state_def Some)
  also have "[0..<offset] @ [offset..<offset + ?m] = [0..<offset + ?m]" using upt_add_eq_append [of 0 offset ?m] by simp
  also have "offset + ?m = min (offset + kBlockSize) (length reference)" using assms(2) by (auto simp: min_def)
  finally show ?thesis by (simp add: thread_state_def Some)
qed (simp add: thread_state_def)

lemma tile_loop_states:
  assumes "length tile = kBlockSize"
  shows "tile_loop reference queries offset tile (map (thread_state reference bound offset) queries) =
    map (thread_state reference bound (length reference)) queries"
  using assms
proof (induction "length reference - offset" arbitrary: offset tile rule: less_induct)
  case less
  show ?case
  proof (cases "offset < length reference")
    case False
    then have "min offset (length reference) = length reference" by simp
    then have "thread_state reference bound offset q = thread_state reference bound (length reference) q" for q
      by (simp add: thread_state_def split: option.split)
    then show ?thesis using False by (subst tile_loop.simps) simp
  next
    case True
    let ?step = "\<lambda>q state. case q of None \<Rightarrow> state
       | Some q \<Rightarrow> fold (tile_candidate (load_tile reference offset tile) offset q)
           [0..<min (length reference - offset) kBlockSize] state"
    have "map2 ?step queries (map (thread_state reference bound offset) queries) =
        map (thread_state reference bound (offset + kBlockSize)) queries"
      using thread_state_step [OF less.prems True, where bound = bound]
      by (auto simp: map2_map_map [where f = id, simplified])
    moreover have "tile_loop reference queries (offset + kBlockSize) (load_tile reference offset tile)
        (map (thread_state reference bound (offset + kBlockSize)) queries) = map (thread_state reference bound (length reference)) queries"
      using less.prems True by (intro less.hyps) (auto simp: kBlockSize_def)
    ultimately show ?thesis using True by (subst tile_loop.simps) (simp add: Let_def)
  qed
qed

lemma tiled_search_best:
  assumes "list_all is_finite3 reference" "is_finite3 q" "\<not> is_nan bound"
  shows "best_match reference q bound (all_indices reference) (snd (thread_state reference bound (length reference) (Some q)))"
proof -
  have "set (map int [0..<length reference]) = all_indices reference"
    using zero_le_imp_eq_int by (force simp: all_indices_def image_iff)
  then show ?thesis
    using best_candidate_fold [OF _ assms(3), of "map int [0..<length reference]" q reference] candidate_numbers [OF assms(1,2)]
    by (simp add: thread_state_def)
qed

subsection \<open>The two kernels agree\<close>

lemma fold_write_each:
  "fold (\<lambda>b. write_each F (js b)) bs xs = write_each F (concat (map js bs)) xs"
  by (induction bs arbitrary: xs) (simp_all add: write_each_append write_each_def [of _ "[]"])

lemma write_all:
  assumes "n \<le> length xs" "\<forall>i. i \<in> set js \<longleftrightarrow> i < n"
  shows "write_each F js xs = map F [0..<n] @ drop n xs"
  by (rule nth_equalityI) (use assms in \<open>auto simp: nth_write_each nth_append\<close>)

lemma launch_covers: "i < n \<Longrightarrow> i div kBlockSize < launch_blocks n \<and> i < launch_blocks n * kBlockSize"
proof -
  assume "i < n"
  have "(n + 127) div 128 * 128 + (n + 127) mod 128 = n + 127" "(n + 127) mod 128 < 128" by simp_all
  then have "n \<le> launch_blocks n * kBlockSize"
    unfolding launch_blocks_def kBlockSize_def by linarith
  then have "i < launch_blocks n * kBlockSize" using \<open>i < n\<close> by simp
  then show ?thesis by (simp add: less_mult_imp_div_less)
qed

lemma nearest_kernel_eq:
  assumes "length shared = kBlockSize" "length queries \<le> length indices"
  shows "nearest_kernel reference queries bound shared indices =
    map (\<lambda>q. snd (thread_state reference bound (length reference) (Some q))) queries @ drop (length queries) indices"
proof -
  let ?F = "\<lambda>i. snd (thread_state reference bound (length reference) (Some (queries ! i)))"
    and ?js = "\<lambda>b. filter (\<lambda>i. i < length queries) [b * kBlockSize..<b * kBlockSize + kBlockSize]"
  have block: "nearest_block reference queries bound shared b = write_each ?F (?js b)" for b
  proof -
    have start: "replicate kBlockSize (bound, - 1) = map (thread_state reference bound 0) (block_queries queries b)"
      by (rule nth_equalityI) (simp_all add: block_queries_def thread_state_def Let_def)
    have "snd (map (thread_state reference bound (length reference)) (block_queries queries b) ! (i - b * kBlockSize)) = ?F i"
      if "i \<in> set (?js b)" for i
      using that by (auto simp: block_queries_def Let_def)
    then have "write_each (\<lambda>i. snd (map (thread_state reference bound (length reference)) (block_queries queries b) !
        (i - b * kBlockSize))) (?js b) xs = write_each ?F (?js b) xs" for xs
      by (rule write_each_cong)
    then show ?thesis by (simp add: nearest_block_def start tile_loop_states [OF assms(1)] fun_eq_iff)
  qed
  have "nearest_kernel reference queries bound shared indices =
      write_each ?F (concat (map ?js [0..<launch_blocks (length queries)])) indices"
    unfolding nearest_kernel_def block by (rule fold_write_each)
  also have "\<dots> = map ?F [0..<length queries] @ drop (length queries) indices"
  proof (rule write_all [OF assms(2)], intro allI)
    fix i
    have "i div kBlockSize < launch_blocks (length queries)" if "i < length queries" using that launch_covers by blast
    moreover have "i \<in> set (?js (i div kBlockSize))" if "i < length queries" using that by (simp add: kBlockSize_def)
    ultimately show "i \<in> set (concat (map ?js [0..<launch_blocks (length queries)])) \<longleftrightarrow> i < length queries" by force
  qed
  also have "map ?F [0..<length queries] = map (\<lambda>q. snd (thread_state reference bound (length reference) (Some q))) queries"
    by (rule nth_equalityI) simp_all
  finally show ?thesis .
qed

lemma indexed_kernel_eq:
  assumes "\<forall>q \<in> set queries. \<exists>best. traverse packed original nodes q 0 (bound, - 1) = Some (best, r q)"
    and "length queries \<le> length indices"
  shows "indexed_nearest_kernel packed original nodes queries bound indices = Some (map r queries @ drop (length queries) indices)"
proof -
  let ?js = "\<lambda>is. filter (\<lambda>i. i < length queries) is"
  have "foldO (indexed_thread packed original nodes queries bound) is xs = Some (write_each (\<lambda>i. r (queries ! i)) (?js is) xs)" for "is" xs
  proof (induction "is" arbitrary: xs)
    case (Cons i js)
    have "indexed_thread packed original nodes queries bound i xs =
        Some (if i < length queries then xs[i := r (queries ! i)] else xs)"
      using assms(1) by (force simp: indexed_thread_def)
    then show ?case by (simp add: Cons.IH write_each_Cons)
  qed (simp add: write_each_def)
  then have "indexed_nearest_kernel packed original nodes queries bound indices =
      Some (write_each (\<lambda>i. r (queries ! i)) (?js [0..<launch_blocks (length queries) * kBlockSize]) indices)"
    by (simp add: indexed_nearest_kernel_def)
  moreover have "write_each (\<lambda>i. r (queries ! i)) (?js [0..<launch_blocks (length queries) * kBlockSize]) indices =
      map (\<lambda>i. r (queries ! i)) [0..<length queries] @ drop (length queries) indices"
    using launch_covers by (intro write_all [OF assms(2)]) auto
  moreover have "map (\<lambda>i. r (queries ! i)) [0..<length queries] = map r queries" by (rule nth_equalityI) simp_all
  ultimately show ?thesis by simp
qed

lemma built_index_of:
  assumes "permutes_range nth_elem" "build_spatial_index nth_elem reference = Inr index"
  shows "index_of reference index"
  using built_index [OF assms] assms(2)
  by (auto simp: index_of_def build_spatial_index_def require_def simp del: mset_map split: if_splits)

lemma kernels_agree:
  assumes "index_of reference index" "list_all is_finite3 queries" "\<not> is_nan bound"
    and "\<forall>q \<in> set queries. best_match reference q bound (all_indices reference) (r q)" "length queries \<le> length indices"
  shows "indexed_nearest_kernel (si_points index) (si_original_indices index) (si_nodes index) queries bound indices =
    Some (map r queries @ drop (length queries) indices)"
proof (rule indexed_kernel_eq [OF _ assms(5)], rule ballI)
  fix q assume q: "q \<in> set queries"
  then have "is_finite3 q" using assms(2) by (simp add: list_all_iff)
  from indexed_search_best [OF assms(1) this assms(3)] obtain d r' where
    r': "traverse (si_points index) (si_original_indices index) (si_nodes index) q 0 (bound, - 1) = Some (d, r')"
      "best_match reference q bound (all_indices reference) r'" by blast
  have "r' = r q"
    by (rule best_match_unique [OF r'(2) assms(4) [rule_format, OF q]]) (simp add: all_indices_def)
  then show "\<exists>best. traverse (si_points index) (si_original_indices index) (si_nodes index) q 0 (bound, - 1) = Some (best, r q)"
    using r'(1) by simp
qed

text \<open>
  C10. The branch-and-bound search over the spatial index always returns and computes, for every
  query, exactly what the exhaustive tiled kernel computes: the nearest reference point within the
  bound, the smallest original index among equally near ones, or -1. Rounding in the box distances
  never prunes a point that would have been chosen.
\<close>
theorem indexed_equals_tiled:
  assumes "permutes_range nth_elem" "build_spatial_index nth_elem reference = Inr index"
    and "list_all is_finite3 queries" "\<not> is_nan bound" "length shared = kBlockSize" "length indices = length queries"
  shows "indexed_nearest_kernel (si_points index) (si_original_indices index) (si_nodes index) queries bound indices =
      Some (nearest_kernel reference queries bound shared indices) \<and>
    list_all2 (\<lambda>q r. best_match reference q bound {0..<int (length reference)} r) queries
      (nearest_kernel reference queries bound shared indices)"
proof -
  note index = built_index_of [OF assms(1,2)]
  let ?r = "\<lambda>q. snd (thread_state reference bound (length reference) (Some q))"
  have "\<forall>q \<in> set queries. best_match reference q bound (all_indices reference) (?r q)"
    using tiled_search_best [OF _ _ assms(4)] index assms(3) by (simp add: list_all_iff index_of_def)
  with kernels_agree [OF index assms(3,4) this eq_refl [OF assms(6) [symmetric]]]
    nearest_kernel_eq [OF assms(5) eq_refl [OF assms(6) [symmetric]], of reference bound]
  show ?thesis using assms(6) by (simp add: all_indices_def list_all2_conv_all_nth)
qed

text \<open>
  What the CPU search needs of the k-d tree for query \<open>q\<close>: it reports some point, and the search
  within that point's distance does not miss the best match.
\<close>

definition tree_finds :: "solver_library \<Rightarrow> Vec3f list \<Rightarrow> f64 \<Rightarrow> Vec3f \<Rightarrow> bool" where
  "tree_finds lib reference bound q \<longleftrightarrow> (\<exists>i sq rest. lib_nearest_k lib reference q 1 = (i, sq) # rest \<and>
     (\<forall>r. r \<noteq> - 1 \<longrightarrow> best_match reference q (bound * bound) {0..<int (length reference)} r \<longrightarrow>
       r \<in> set (lib_radius lib reference q (search_radius sq))))"

lemma query_point_best:
  assumes "list_all is_finite3 reference" "is_finite3 q" "\<not> is_nan (bound * bound)" "search_in_range (lib_radius lib)"
    and "tree_finds lib reference bound q"
  shows "best_match reference q (bound * bound) (all_indices reference) (query_point lib reference bound q)"
proof -
  obtain i sq rest where near: "lib_nearest_k lib reference q 1 = (i, sq) # rest"
    and found: "\<And>r. r \<noteq> - 1 \<Longrightarrow> best_match reference q (bound * bound) (all_indices reference) r \<Longrightarrow>
      r \<in> set (lib_radius lib reference q (search_radius sq))"
    using assms(5) unfolding tree_finds_def all_indices_def by blast
  let ?cs = "set (lib_radius lib reference q (search_radius sq))"
  have cs: "?cs \<subseteq> all_indices reference"
    using assms(4) by (force simp: search_in_range_def all_indices_def)
  have numbers: "\<forall>c \<in> ?cs. 0 \<le> c \<and> \<not> is_nan (candidate_distance q (reference ! nat c))"
    using cs candidate_numbers [OF assms(1,2)] by blast
  have cpu: "best_match reference q (bound * bound) ?cs (query_point lib reference bound q)"
    using best_candidate_fold [OF numbers assms(3)] near by (simp add: query_point_def)
  obtain r where r: "best_match reference q (bound * bound) (all_indices reference) r"
    using tiled_search_best [OF assms(1-3)] by blast
  then have "best_match reference q (bound * bound) ?cs r"
    using found [of r] cs by (auto simp: best_match_def Let_def split: if_splits)
  moreover have "- 1 \<notin> ?cs" using cs by (auto simp: all_indices_def)
  ultimately have "r = query_point lib reference bound q" using best_match_unique [OF _ cpu] by blast
  then show ?thesis using r by simp
qed

text \<open>
  The CUDA search finds the same correspondences as the CPU search of the solver, whenever the
  k-d tree reports some point for every query and its radius search does not miss the best match.
\<close>
theorem cuda_matches_cpu:
  assumes "permutes_range nth_elem" "build_spatial_index nth_elem reference = Inr index"
    and "list_all is_finite3 queries" "\<not> is_nan (bound * bound)" "length indices = length queries"
    and "search_in_range (lib_radius lib)"
    and "\<And>q. q \<in> set queries \<Longrightarrow> tree_finds lib reference bound q"
  shows "indexed_nearest_kernel (si_points index) (si_original_indices index) (si_nodes index) queries (bound * bound) indices =
    Some (map (query_point lib reference bound) queries)"
proof -
  note index = built_index_of [OF assms(1,2)]
  have "\<forall>q \<in> set queries. best_match reference q (bound * bound) (all_indices reference) (query_point lib reference bound q)"
    using query_point_best [OF _ _ assms(4,6,7)] assms(3) index by (simp add: list_all_iff index_of_def)
  from kernels_agree [OF index assms(3,4) this eq_refl [OF assms(5) [symmetric]]] show ?thesis using assms(5) by simp
qed

text \<open>Two points, one query above the second.\<close>

definition keep_order :: nth_element where
  "keep_order = (\<lambda>_ _ xs. xs)"

definition sample_reference :: "Vec3f list" where
  "sample_reference = [Vec3 1 0 0, Vec3 0 0 0]"

lemma keep_order_permutes: "permutes_range keep_order"
  by (simp add: permutes_range_def keep_order_def)

lemma sample_index_built: "\<exists>index. build_spatial_index keep_order sample_reference = Inr index"
  by (simp add: build_spatial_index_def sample_reference_def is_finite3_def int32_max_def Let_def)

lemma two_candidates: "{0..<2} = {0, 1 :: int}"
  by auto

lemma sample_best: "best_match sample_reference (Vec3 0 0 1) (Num 2 * Num 2) {0..<2} 1"
proof -
  have d: "candidate_distance (Vec3 0 0 1) (sample_reference ! 0) = Num 2"
    "candidate_distance (Vec3 0 0 1) (sample_reference ! Suc 0) = Num 1"
    by (simp_all add: candidate_distance_def sample_reference_def Let_def fp_eval)
  have four: "(Num 2 :: f64) * Num 2 = Num 4" by (simp add: fp_eval)
  show ?thesis unfolding best_match_def two_candidates four by (simp add: d feq_iff fp_less_Num fp_le_Num Let_def)
qed

lemma sample_queries: "list_all is_finite3 [Vec3 0 0 1 :: Vec3f]" "\<not> is_nan ((Num 2 :: f64) * Num 2)"
  by (simp_all add: is_finite3_def fp_eval)

theorem spatial_index_correct_witness:
  "\<exists>index. build_spatial_index keep_order sample_reference = Inr index \<and> length (si_nodes index) < 2 ^ 32 \<and>
     mset (si_original_indices index) = {#0, 1#}"
  using spatial_index_correct [OF keep_order_permutes, of sample_reference] sample_index_built
  by (auto simp: sample_reference_def upt_rec)

theorem indexed_equals_tiled_witness:
  "\<exists>index. build_spatial_index keep_order sample_reference = Inr index \<and>
     indexed_nearest_kernel (si_points index) (si_original_indices index) (si_nodes index) [Vec3 0 0 1] (Num 2 * Num 2) [0] = Some [1]"
proof -
  obtain index where i: "build_spatial_index keep_order sample_reference = Inr index" using sample_index_built by blast
  let ?r = "nearest_kernel sample_reference [Vec3 0 0 1] (Num 2 * Num 2) (replicate kBlockSize Vec3f_zero) [0]"
  have agree: "indexed_nearest_kernel (si_points index) (si_original_indices index) (si_nodes index) [Vec3 0 0 1] (Num 2 * Num 2) [0] =
      Some ?r" "list_all2 (\<lambda>q. best_match sample_reference q (Num 2 * Num 2) {0..<int (length sample_reference)}) [Vec3 0 0 1] ?r"
    using indexed_equals_tiled [OF keep_order_permutes i sample_queries, of "replicate kBlockSize Vec3f_zero" "[0]"] by simp_all
  have "length ?r = 1" using list_all2_lengthD [OF agree(2)] by simp
  then obtain r where r: "?r = [r]" by (auto simp: length_Suc_conv)
  then have "best_match sample_reference (Vec3 0 0 1) (Num 2 * Num 2) {0..<2} r"
    using agree by (simp add: sample_reference_def)
  then have "r = 1" by (rule best_match_unique [OF _ sample_best]) simp
  then show ?thesis using i agree r by simp
qed

theorem cuda_matches_cpu_witness:
  "\<exists>index. build_spatial_index keep_order sample_reference = Inr index \<and>
     indexed_nearest_kernel (si_points index) (si_original_indices index) (si_nodes index) [Vec3 0 0 1] (Num 2 * Num 2) [0] =
       Some [query_point (sample_library [(0, 0)]) sample_reference (Num 2) (Vec3 0 0 1)]"
proof -
  obtain index where i: "build_spatial_index keep_order sample_reference = Inr index" using sample_index_built by blast
  have "search_in_range (lib_radius (sample_library [(0, 0)]))" by (auto simp: search_in_range_def sample_library_def)
  moreover have "tree_finds (sample_library [(0, 0)]) sample_reference (Num 2) q" for q
    using zero_le_imp_eq_int
    by (force simp: tree_finds_def sample_library_def sample_reference_def best_match_def Let_def image_iff)
  ultimately show ?thesis
    using cuda_matches_cpu [OF keep_order_permutes i sample_queries, of "[0]" "sample_library [(0, 0)]"] i by simp
qed

end
