(* ===== verification/CudaKnn.thy ===== *)
theory CudaKnn
  imports CudaSearch
begin

text \<open>
  \<open>backends/cuda/cuda_correspondence.cu\<close>, the exact self-neighbour kernel behind the GICP covariances:
  a depth-first traversal of the spatial index with an explicit stack of 64 node positions, and the
  insertion of every candidate into the sorted array of the nearest \<open>k\<close>. A push beyond the stack would
  be undefined: the traversal then returns \<open>None\<close>, as it does when it never returns.
\<close>

subsection \<open>The kernel\<close>

record KnnState =
  kn_ids :: "int list"
  kn_ds :: "f64 list"
  kn_found :: nat

definition pending_capacity :: nat where "pending_capacity = 64"

definition squared_distance :: "Vec3f \<Rightarrow> Vec3f \<Rightarrow> f64" where
  "squared_distance a b =
     (let x = widen (vx a) - widen (vx b); y = widen (vy a) - widen (vy b); z = widen (vz a) - widen (vz b) in
      x * x + y * y + z * z)"

text \<open>The inner while loop from \<open>position\<close> down, and the final stores.\<close>

fun place :: "f64 \<Rightarrow> int \<Rightarrow> nat \<Rightarrow> int list \<times> f64 list \<Rightarrow> int list \<times> f64 list" where
  "place d own 0 (ids, ds) = (ids[0 := own], ds[0 := d])"
| "place d own (Suc p) (ids, ds) =
     (if d < ds ! p \<or> (feq d (ds ! p) \<and> own < ids ! p)
      then place d own p (ids[Suc p := ids ! p], ds[Suc p := ds ! p])
      else (ids[Suc p := own], ds[Suc p := d]))"

text \<open>One candidate of a leaf.\<close>

definition knn_candidate :: "Vec3f list \<Rightarrow> int list \<Rightarrow> Vec3f \<Rightarrow> nat \<Rightarrow> nat \<Rightarrow> KnnState \<Rightarrow> KnnState" where
  "knn_candidate packed order q k n st =
     (let d = squared_distance q (packed ! n); own = order ! n; ids = kn_ids st; ds = kn_ds st; found = kn_found st in
      if found = k \<and> (ds ! (k - 1) < d \<or> (feq d (ds ! (k - 1)) \<and> ids ! (k - 1) \<le> own)) then st
      else let position = (if found = k then k - 1 else found); (ids, ds) = place d own position (ids, ds)
           in \<lparr>kn_ids = ids, kn_ds = ds, kn_found = (if found < k then Suc found else found)\<rparr>)"

definition knn_skips :: "Vec3f \<Rightarrow> nat \<Rightarrow> SpatialNode \<Rightarrow> KnnState \<Rightarrow> bool" where
  "knn_skips q k node st =
     (let lower = box_distance q node in
      kn_found st = k \<and> (kn_ds st ! (k - 1) < lower \<or>
        (feq lower (kn_ds st ! (k - 1)) \<and> kn_ids st ! (k - 1) \<le> sn_minimum_index node)))"

text \<open>The stack has its top first.\<close>

partial_function (option) knn_loop ::
  "Vec3f list \<Rightarrow> int list \<Rightarrow> SpatialNode list \<Rightarrow> Vec3f \<Rightarrow> nat \<Rightarrow> nat list \<Rightarrow> KnnState \<Rightarrow> KnnState option" where
  "knn_loop packed order nodes q k pending st =
     (case pending of
        [] \<Rightarrow> Some st
      | cursor # pending \<Rightarrow>
          if length nodes \<le> cursor then knn_loop packed order nodes q k pending st
          else let node = nodes ! cursor in
            if knn_skips q k node st then knn_loop packed order nodes q k pending st
            else if sn_count node = 0 then
              let first = cursor + 1; second = sn_escape (nodes ! first);
                  first_nearer = (box_distance q (nodes ! first) \<le> box_distance q (nodes ! second));
                  pending = (if first_nearer then [first, second] else [second, first]) @ pending
              in if pending_capacity < length pending then None else knn_loop packed order nodes q k pending st
            else knn_loop packed order nodes q k pending
              (fold (knn_candidate packed order q k) [sn_begin node..<sn_begin node + sn_count node] st))"

text \<open>One thread: row \<open>i\<close> of the neighbour and distance arrays of the batch; then a launch over the batch.\<close>

definition exact_knn ::
  "Vec3f list \<Rightarrow> int list \<Rightarrow> SpatialNode list \<Rightarrow> Vec3f list \<Rightarrow> nat \<Rightarrow> nat \<Rightarrow> nat \<Rightarrow> nat \<Rightarrow>
   int list \<times> f64 list \<Rightarrow> (int list \<times> f64 list) option" where
  "exact_knn packed order nodes original offset threads k i arrays =
     (if threads \<le> i then Some arrays
      else let (neighbors, distances) = arrays; lo = i * k; hi = i * k + k; q = original ! (offset + i)
        in map_option (\<lambda>st. (replace_range lo hi (kn_ids st) neighbors, replace_range lo hi (kn_ds st) distances))
          (knn_loop packed order nodes q k [0] \<lparr>kn_ids = range_of lo hi neighbors, kn_ds = range_of lo hi distances, kn_found = 0\<rparr>))"

definition exact_knn_launch ::
  "Vec3f list \<Rightarrow> int list \<Rightarrow> SpatialNode list \<Rightarrow> Vec3f list \<Rightarrow> nat \<Rightarrow> nat \<Rightarrow> nat \<Rightarrow> int list \<times> f64 list \<Rightarrow> (int list \<times> f64 list) option" where
  "exact_knn_launch packed order nodes original offset threads k arrays =
     foldO (exact_knn packed order nodes original offset threads k) [0..<launch_blocks threads * kBlockSize] arrays"

subsection \<open>The order of the neighbours\<close>

definition nearer :: "Vec3f list \<Rightarrow> Vec3f \<Rightarrow> int \<Rightarrow> int \<Rightarrow> bool" where
  "nearer reference q i j \<longleftrightarrow>
     (let d = (\<lambda>i. candidate_distance q (reference ! nat i)) in d i < d j \<or> (feq (d i) (d j) \<and> i < j))"

lemma squared_distance_eq: "squared_distance = candidate_distance"
  by (rule ext)+ (simp add: squared_distance_def candidate_distance_def)

lemma nearer_irrefl: "\<not> nearer reference q i i"
  by (simp add: nearer_def fp_less_irrefl)

lemma nearer_trans: "nearer reference q i j \<Longrightarrow> nearer reference q j l \<Longrightarrow> nearer reference q i l"
  unfolding nearer_def Let_def feq_iff
  by (meson fp_le_less_trans fp_le_trans fp_less_imp_le fp_less_le_trans order.strict_trans)

text \<open>The indices whose distance to \<open>q\<close> is a number.\<close>

definition measured :: "Vec3f list \<Rightarrow> Vec3f \<Rightarrow> int set \<Rightarrow> bool" where
  "measured reference q S \<longleftrightarrow> (\<forall>i \<in> S. \<not> is_nan (candidate_distance q (reference ! nat i)))"

lemma nearer_total:
  assumes "measured reference q S" "i \<in> S" "j \<in> S" "i \<noteq> j"
  shows "nearer reference q i j \<or> nearer reference q j i"
proof -
  have "\<not> is_nan (candidate_distance q (reference ! nat i))" "\<not> is_nan (candidate_distance q (reference ! nat j))"
    using assms by (simp_all add: measured_def)
  then show ?thesis using assms(4) fp_not_less by (fastforce simp: nearer_def Let_def feq_iff)
qed

text \<open>\<open>L\<close> is the sorted list of the nearest \<open>k\<close> of \<open>S\<close>: of all when there are fewer.\<close>

definition nearest_of :: "Vec3f list \<Rightarrow> Vec3f \<Rightarrow> nat \<Rightarrow> int set \<Rightarrow> int list \<Rightarrow> bool" where
  "nearest_of reference q k S L \<longleftrightarrow> sorted_wrt (nearer reference q) L \<and> set L \<subseteq> S \<and> length L = min k (card S) \<and>
     (\<forall>i \<in> set L. \<forall>j \<in> S - set L. nearer reference q i j)"

lemma sorted_nearer_distinct: "sorted_wrt (nearer reference q) L \<Longrightarrow> distinct L"
  by (induction L) (use nearer_irrefl in auto)

lemma sorted_nearer_unique:
  "sorted_wrt (nearer reference q) L \<Longrightarrow> sorted_wrt (nearer reference q) L' \<Longrightarrow> set L = set L' \<Longrightarrow> L = L'"
proof (induction L arbitrary: L')
  case (Cons a as)
  then obtain b bs where L': "L' = b # bs" by (cases L') auto
  have "a = b"
  proof (rule ccontr)
    assume "a \<noteq> b"
    then have "a \<in> set bs" "b \<in> set as" using Cons.prems(3) L' by auto
    then have "nearer reference q b a" "nearer reference q a b" using Cons.prems L' by auto
    then show False using nearer_trans nearer_irrefl by blast
  qed
  moreover have "a \<notin> set as" "b \<notin> set bs" using Cons.prems L' nearer_irrefl by auto
  ultimately have "set as = set bs" using Cons.prems(3) L' by auto
  then show ?case using Cons \<open>a = b\<close> L' by auto
qed simp

lemma nearest_of_unique:
  assumes "nearest_of reference q k S L" "nearest_of reference q k S L'"
  shows "L = L'"
proof -
  note L = assms(1) [unfolded nearest_of_def] and L' = assms(2) [unfolded nearest_of_def]
  have d: "distinct L" "distinct L'" using L L' sorted_nearer_distinct by blast+
  have "set L = set L'"
  proof (rule ccontr)
    assume ne: "set L \<noteq> set L'"
    have "card (set L) = card (set L')" using L L' d by (simp add: distinct_card)
    then have "\<not> set L \<subseteq> set L'" "\<not> set L' \<subseteq> set L" using ne card_subset_eq by (metis List.finite_set)+
    then obtain i j where "i \<in> set L" "i \<notin> set L'" "j \<in> set L'" "j \<notin> set L" by blast
    then have "nearer reference q i j" "nearer reference q j i" using L L' by blast+
    then show False using nearer_trans nearer_irrefl by blast
  qed
  then show ?thesis using L L' sorted_nearer_unique by blast
qed

subsection \<open>Inserting a candidate\<close>

definition consistent :: "Vec3f list \<Rightarrow> Vec3f \<Rightarrow> nat \<Rightarrow> int list \<Rightarrow> f64 list \<Rightarrow> bool" where
  "consistent reference q n ids ds \<longleftrightarrow> length ids = length ds \<and>
     (\<forall>p < n. ds ! p = candidate_distance q (reference ! nat (ids ! p)))"

lemma sorted_nearer_snoc:
  "sorted_wrt (nearer reference q) (xs @ [x]) \<longleftrightarrow> sorted_wrt (nearer reference q) xs \<and> (\<forall>y \<in> set xs. nearer reference q y x)"
  by (simp add: sorted_wrt_append)

lemma place_spec:
  assumes "place d own p (ids, ds) = (ids', ds')" "d = candidate_distance q (reference ! nat own)"
    and "p < length ids" "consistent reference q p ids ds" "sorted_wrt (nearer reference q) (take p ids)"
    and "measured reference q (insert own (set (take p ids)))" "own \<notin> set (take p ids)"
  shows "length ids' = length ids \<and> consistent reference q (Suc p) ids' ds' \<and> drop (Suc p) ids' = drop (Suc p) ids \<and>
    drop (Suc p) ds' = drop (Suc p) ds \<and> sorted_wrt (nearer reference q) (take (Suc p) ids') \<and>
    set (take (Suc p) ids') = insert own (set (take p ids))"
  using assms(1,3-7)
proof (induction p arbitrary: ids ds)
  case 0
  then show ?case using assms(2) by (cases ids; cases ds) (auto simp: consistent_def)
next
  case (Suc p)
  let ?z = "ids ! p"
  have taken: "take (Suc p) ids = take p ids @ [?z]" using Suc.prems(2) by (simp add: take_Suc_conv_app_nth)
  have z: "ds ! p = candidate_distance q (reference ! nat ?z)" using Suc.prems(3) by (simp add: consistent_def)
  have before_z: "\<forall>y \<in> set (take p ids). nearer reference q y ?z" "sorted_wrt (nearer reference q) (take p ids)"
    using Suc.prems(4) unfolding taken sorted_nearer_snoc by blast+
  have test: "(d < ds ! p \<or> (feq d (ds ! p) \<and> own < ?z)) \<longleftrightarrow> nearer reference q own ?z"
    by (simp add: nearer_def z assms(2))
  show ?case
  proof (cases "nearer reference q own ?z")
    case True
    let ?ids = "ids[Suc p := ?z]" and ?ds = "ds[Suc p := ds ! p]"
    have step: "place d own p (?ids, ?ds) = (ids', ds')" using Suc.prems(1) True test by simp
    have same: "take p ?ids = take p ids" by simp
    have "length ids' = length ?ids \<and> consistent reference q (Suc p) ids' ds' \<and> drop (Suc p) ids' = drop (Suc p) ?ids \<and>
      drop (Suc p) ds' = drop (Suc p) ?ds \<and> sorted_wrt (nearer reference q) (take (Suc p) ids') \<and>
      set (take (Suc p) ids') = insert own (set (take p ?ids))"
    proof (rule Suc.IH [OF step])
      show "p < length ?ids" using Suc.prems(2) by simp
      show "consistent reference q p ?ids ?ds" using Suc.prems(3) by (simp add: consistent_def)
      show "sorted_wrt (nearer reference q) (take p ?ids)" using before_z(2) same by simp
      show "measured reference q (insert own (set (take p ?ids)))" "own \<notin> set (take p ?ids)"
        using Suc.prems(5,6) unfolding taken same by (auto simp: measured_def)
    qed
    then have r: "length ids' = length ids" "consistent reference q (Suc p) ids' ds'" "drop (Suc p) ids' = drop (Suc p) ?ids"
      "drop (Suc p) ds' = drop (Suc p) ?ds" "sorted_wrt (nearer reference q) (take (Suc p) ids')"
      "set (take (Suc p) ids') = insert own (set (take p ids))" using same by simp_all
    have lens: "length ids' = length ds'" "length ids = length ds" using r(2) Suc.prems(3) by (simp_all add: consistent_def)
    have at: "ids' ! Suc p = ?z" "ds' ! Suc p = ds ! p"
      using arg_cong [OF r(3), of hd] arg_cong [OF r(4), of hd] Suc.prems(2) r(1) lens by (simp_all add: hd_drop_conv_nth)
    have "drop (Suc (Suc p)) ids' = drop (Suc (Suc p)) ids" "drop (Suc (Suc p)) ds' = drop (Suc (Suc p)) ds"
      using arg_cong [OF r(3), of "drop (Suc 0)"] arg_cong [OF r(4), of "drop (Suc 0)"] by (simp_all only: drop_drop drop_update_cancel plus_nat.add_Suc plus_nat.add_0 lessI)
    moreover have "take (Suc (Suc p)) ids' = take (Suc p) ids' @ [?z]"
      using Suc.prems(2) r(1) at(1) by (simp add: take_Suc_conv_app_nth)
    moreover have "consistent reference q (Suc (Suc p)) ids' ds'"
      using r(2) at z by (auto simp: consistent_def less_Suc_eq)
    ultimately show ?thesis
      using r before_z True unfolding taken by (simp add: sorted_nearer_snoc insert_commute)
  next
    case False
    then have ids': "ids' = ids[Suc p := own]" "ds' = ds[Suc p := d]" using Suc.prems(1) test by simp_all
    have "own \<noteq> ?z" using Suc.prems(6) unfolding taken by simp
    then have zo: "nearer reference q ?z own"
      using nearer_total [OF Suc.prems(5), of own ?z] False unfolding taken by auto
    have "take (Suc (Suc p)) ids' = take (Suc p) ids @ [own]"
      using Suc.prems(2) by (simp add: ids' take_Suc_conv_app_nth)
    moreover have "consistent reference q (Suc (Suc p)) ids' ds'"
      using Suc.prems(2,3) assms(2) by (auto simp: ids' consistent_def nth_list_update)
    ultimately show ?thesis
      using Suc.prems(2,4) before_z zo nearer_trans unfolding taken
      by (auto simp: ids' sorted_nearer_snoc sorted_wrt_append)
  qed
qed

subsection \<open>The nearest so far\<close>

lemma nearest_of_worse:
  assumes "nearest_of reference q k S L" "length L = k" "L \<noteq> []" "finite T" "finite S" "T \<inter> S = {}"
    and "\<forall>j \<in> T. nearer reference q (last L) j"
  shows "nearest_of reference q k (S \<union> T) L"
proof -
  note L = assms(1) [unfolded nearest_of_def]
  have "nearer reference q i (last L) \<or> i = last L" if "i \<in> set L" for i
  proof -
    have "L = butlast L @ [last L]" using assms(3) by simp
    then show ?thesis using L that sorted_nearer_snoc [of reference q "butlast L" "last L"]
      by (metis UnE empty_iff insert_iff list.set(1,2) set_append)
  qed
  then have "nearer reference q i j" if "i \<in> set L" "j \<in> T" for i j
    using that assms(7) nearer_trans by blast
  moreover have "k \<le> card S" using L assms(2) by (metis min.cobounded2)
  then have "k \<le> card (S \<union> T)" using card_mono [of "S \<union> T" S] assms(4,5) by simp
  ultimately show ?thesis using L assms(2) by (auto simp: nearest_of_def)
qed

lemma nearest_of_better:
  assumes "nearest_of reference q k S (M @ [z])" "length (M @ [z]) = k" "finite S" "c \<notin> S" "nearer reference q c z"
    and "sorted_wrt (nearer reference q) M'" "set M' = insert c (set M)"
  shows "nearest_of reference q k (insert c S) M'"
proof -
  note L = assms(1) [unfolded nearest_of_def sorted_nearer_snoc]
  have "c \<notin> set M" "distinct M" using L assms(4) sorted_nearer_distinct by auto
  then have "length M' = k"
    using assms(2,7) sorted_nearer_distinct [OF assms(6)] by (metis card_insert_disjoint distinct_card length_append_singleton List.finite_set)
  moreover have "nearer reference q i j" if "i \<in> set M'" "j \<in> insert c S - set M'" for i j
  proof -
    have j: "j = z \<or> j \<in> S - set (M @ [z])" using that(2) assms(7) by auto
    have "nearer reference q i z" using that(1) assms(5,7) L by auto
    moreover have "nearer reference q z j" if "j \<noteq> z" using j that L by auto
    ultimately show ?thesis using nearer_trans by blast
  qed
  moreover have "min k (card (insert c S)) = k" using L assms(2,3) by (simp add: card_insert_if)
  ultimately show ?thesis using assms(6,7) L by (auto simp: nearest_of_def)
qed

lemma nearest_of_room:
  assumes "nearest_of reference q k S L" "length L < k" "finite S" "c \<notin> S"
    and "sorted_wrt (nearer reference q) M" "set M = insert c (set L)"
  shows "nearest_of reference q k (insert c S) M"
proof -
  note L = assms(1) [unfolded nearest_of_def]
  have d: "distinct L" "distinct M" using L assms(5) sorted_nearer_distinct by blast+
  have "length L = card S" using L assms(2) by simp
  then have all: "set L = S" using L d assms(3) by (metis card_subset_eq distinct_card)
  then have "length M = card (insert c S)" using d assms(6) by (metis distinct_card)
  moreover have "card (insert c S) \<le> k" using \<open>length L = card S\<close> assms(2,3,4) by simp
  ultimately show ?thesis using assms(5,6) all by (auto simp: nearest_of_def)
qed

definition kept :: "Vec3f list \<Rightarrow> Vec3f \<Rightarrow> nat \<Rightarrow> int set \<Rightarrow> KnnState \<Rightarrow> bool" where
  "kept reference q k S st \<longleftrightarrow> length (kn_ids st) = k \<and> consistent reference q (kn_found st) (kn_ids st) (kn_ds st) \<and>
     kn_found st = min k (card S) \<and> nearest_of reference q k S (take (kn_found st) (kn_ids st))"

text \<open>The last of the nearest when the array is full.\<close>

lemma kept_last:
  assumes "kept reference q k S st" "kn_found st = k" "0 < k"
  shows "take k (kn_ids st) = kn_ids st" "last (kn_ids st) = kn_ids st ! (k - 1)" "kn_ids st \<noteq> []"
    "kn_ds st ! (k - 1) = candidate_distance q (reference ! nat (kn_ids st ! (k - 1)))"
    "kn_ids st ! (k - 1) \<in> S" "nearest_of reference q k S (kn_ids st)"
proof -
  have len: "length (kn_ids st) = k" using assms(1) by (simp add: kept_def)
  then show "take k (kn_ids st) = kn_ids st" "kn_ids st \<noteq> []" using assms(3) by auto
  then show "last (kn_ids st) = kn_ids st ! (k - 1)" using len by (simp add: last_conv_nth)
  show "kn_ds st ! (k - 1) = candidate_distance q (reference ! nat (kn_ids st ! (k - 1)))"
    using assms by (simp add: kept_def consistent_def)
  show n: "nearest_of reference q k S (kn_ids st)" using assms len by (simp add: kept_def)
  then show "kn_ids st ! (k - 1) \<in> S" using len assms(3) by (auto simp: nearest_of_def)
qed

lemma knn_candidate_kept:
  assumes "kept reference q k S st" "0 < k" "finite S" "packed ! n = reference ! nat (order ! n)" "order ! n \<notin> S"
    and "measured reference q (insert (order ! n) S)"
  shows "kept reference q k (insert (order ! n) S) (knn_candidate packed order q k n st)"
proof -
  let ?c = "order ! n" and ?ids = "kn_ids st" and ?ds = "kn_ds st" and ?f = "kn_found st"
  let ?d = "candidate_distance q (reference ! nat ?c)"
  have d: "squared_distance q (packed ! n) = ?d" by (simp add: squared_distance_eq assms(4))
  note K = assms(1) [unfolded kept_def]
  have sub: "set (take ?f ?ids) \<subseteq> S" "sorted_wrt (nearer reference q) (take ?f ?ids)"
    using K unfolding nearest_of_def by blast+
  have card: "card (insert ?c S) = Suc (card S)" using assms(3,5) by simp
  show ?thesis
  proof (cases "?f = k")
    case full: True
    note last = kept_last [OF assms(1) full assms(2)]
    have test: "(?ds ! (k - 1) < ?d \<or> (feq ?d (?ds ! (k - 1)) \<and> ?ids ! (k - 1) \<le> ?c)) \<longleftrightarrow> nearer reference q (?ids ! (k - 1)) ?c"
      using last(4,5) assms(5) by (auto simp: nearer_def Let_def feq_sym order.order_iff_strict)
    show ?thesis
    proof (cases "nearer reference q (?ids ! (k - 1)) ?c")
      case True
      then have "knn_candidate packed order q k n st = st"
        using full test d by (simp add: knn_candidate_def Let_def)
      moreover have "nearest_of reference q k (S \<union> {?c}) ?ids"
        using True last K assms(3,5) by (intro nearest_of_worse) simp_all
      moreover have "k \<le> card S" using K full by (metis min.cobounded2)
      ultimately show ?thesis using K full card last(1) by (simp add: kept_def)
    next
      case False
      have nz: "nearer reference q ?c (?ids ! (k - 1))"
        using nearer_total [OF assms(6), of ?c "?ids ! (k - 1)"] False last(5) assms(5) by (metis insertI1 insertI2)
      obtain ids' ds' where p: "place ?d ?c (k - 1) (?ids, ?ds) = (ids', ds')" by fastforce
      have split: "?ids = take (k - 1) ?ids @ [?ids ! (k - 1)]"
        using K assms(2) by (metis Suc_diff_1 diff_less last(1) take_Suc_conv_app_nth zero_less_one)
      have k: "Suc (k - 1) = k" "k - 1 < length ?ids" "length ?ids = k" using K assms(2) by simp_all
      have pre: "set (take (k - 1) ?ids) \<subseteq> S" "sorted_wrt (nearer reference q) (take (k - 1) ?ids)"
        using sub(1) set_take_subset [of "k - 1" ?ids] last(1) full sorted_wrt_take [OF sub(2), of "k - 1"] by auto
      have pre2: "consistent reference q (k - 1) ?ids ?ds" using K full by (simp add: consistent_def)
      have pre3: "measured reference q (insert ?c (set (take (k - 1) ?ids)))" "?c \<notin> set (take (k - 1) ?ids)"
        using assms(5,6) pre(1) by (auto simp: measured_def)
      note spec = place_spec [OF p refl k(2) pre2 pre(2) pre3, unfolded k(1,3)]
      then have "take k ids' = ids'" by simp
      with spec have P: "length ids' = k" "consistent reference q k ids' ds'" "sorted_wrt (nearer reference q) ids'"
        "set ids' = insert ?c (set (take (k - 1) ?ids))" by metis+
      have "nearest_of reference q k (insert ?c S) ids'"
        using last(6) split k(3) assms(3,5) nz P(3,4) by (intro nearest_of_better [of _ _ _ S "take (k - 1) ?ids" "?ids ! (k - 1)"]) simp_all
      moreover have "knn_candidate packed order q k n st = \<lparr>kn_ids = ids', kn_ds = ds', kn_found = k\<rparr>"
        using full test False d p by (auto simp: knn_candidate_def Let_def)
      moreover have "k \<le> card S" using K full by (metis min.cobounded2)
      ultimately show ?thesis using P K full card by (simp add: kept_def)
    qed
  next
    case False
    then have f: "?f < k" "?f < length ?ids" "?f = card S" using K by auto
    obtain ids' ds' where p: "place ?d ?c ?f (?ids, ?ds) = (ids', ds')" by fastforce
    have m: "measured reference q (insert ?c (set (take ?f ?ids)))" "?c \<notin> set (take ?f ?ids)"
      using assms(5,6) sub(1) by (auto simp: measured_def)
    have c: "consistent reference q ?f ?ids ?ds" "length ?ids = k" "nearest_of reference q k S (take ?f ?ids)" using K by blast+
    have P: "length ids' = k" "consistent reference q (Suc ?f) ids' ds'" "sorted_wrt (nearer reference q) (take (Suc ?f) ids')"
      "set (take (Suc ?f) ids') = insert ?c (set (take ?f ?ids))"
      using place_spec [OF p refl f(2) c(1) sub(2) m] c(2) by blast+
    have "nearest_of reference q k (insert ?c S) (take (Suc ?f) ids')"
      using c f assms(3,5) P(3,4) by (intro nearest_of_room [of _ _ _ S "take ?f ?ids"]) simp_all
    moreover have "knn_candidate packed order q k n st = \<lparr>kn_ids = ids', kn_ds = ds', kn_found = Suc ?f\<rparr>"
      using False f d p by (simp add: knn_candidate_def Let_def)
    ultimately show ?thesis using P f card by (simp add: kept_def)
  qed
qed

subsection \<open>The traversal\<close>

lemma knn_skipped:
  assumes "knn_skips q k node st" "covers reference node seg" "kept reference q k S st" "0 < k" "is_finite3 q"
    and "\<forall>i \<in> set seg. is_finite3 (reference ! nat i)" "finite S" "set seg \<inter> S = {}"
  shows "kept reference q k (S \<union> set seg) st"
proof -
  have full: "kn_found st = k" using assms(1) by (auto simp: knn_skips_def Let_def)
  note last = kept_last [OF assms(3) full assms(4)]
  have "nearer reference q (last (kn_ids st)) j" if j: "j \<in> set seg" for j
  proof -
    have le: "box_distance q node \<le> candidate_distance q (reference ! nat j)" and index: "sn_minimum_index node \<le> j"
      using assms(2,5,6) j by (auto simp: covers_def intro!: box_distance_le)
    have "j \<noteq> kn_ids st ! (k - 1)" using last(5) assms(8) j by blast
    moreover have "\<not> is_nan (candidate_distance q (reference ! nat j))" "\<not> is_nan (kn_ds st ! (k - 1))"
      using assms(1) le by (auto simp: knn_skips_def Let_def feq_iff dest: fp_le_not_nan fp_less_not_nan)
    moreover have "kn_ds st ! (k - 1) \<le> candidate_distance q (reference ! nat j)"
      using assms(1) le by (auto simp: knn_skips_def Let_def feq_iff intro: fp_le_trans fp_less_imp_le)
    moreover have "kn_ds st ! (k - 1) < candidate_distance q (reference ! nat j) \<or> kn_ids st ! (k - 1) \<le> j"
      using assms(1) le index by (auto simp: knn_skips_def Let_def intro: fp_less_le_trans)
    ultimately show ?thesis
      unfolding nearer_def Let_def last(2) last(4) [symmetric] feq_iff using fp_not_less by (metis order.not_eq_order_implies_strict)
  qed
  then have "nearest_of reference q k (S \<union> set seg) (kn_ids st)"
    using last(3,6) assms(3,7,8) by (intro nearest_of_worse) (auto simp: kept_def)
  moreover have "k \<le> card S" using assms(3) full by (metis kept_def min.cobounded2)
  then have "k \<le> card (S \<union> set seg)" using card_mono [of "S \<union> set seg" S] assms(7) by simp
  ultimately show ?thesis using assms(3) full last(1) by (simp add: kept_def)
qed


lemma knn_leaf:
  assumes "packed = map (\<lambda>i. reference ! nat i) original" "original = before_segment @ seg @ after_segment"
    and "kept reference q k S st" "0 < k" "finite S" "distinct seg" "set seg \<inter> S = {}" "measured reference q (S \<union> set seg)"
  shows "kept reference q k (S \<union> set seg)
    (fold (knn_candidate packed original q k) [length before_segment..<length before_segment + length seg] st)"
  using assms(2,3,5-8)
proof (induction seg arbitrary: before_segment S st)
  case (Cons i seg)
  let ?n = "length before_segment"
  have at: "original ! ?n = i" "?n < length original" using Cons.prems(1) by auto
  have "measured reference q (insert i S)" using Cons.prems(6) by (auto simp: measured_def)
  then have step: "kept reference q k (insert i S) (knn_candidate packed original q k ?n st)"
    using knn_candidate_kept [OF Cons.prems(2) assms(4) Cons.prems(3), of packed ?n original] at Cons.prems(5) assms(1) by simp
  have range: "[?n..<?n + length (i # seg)] = ?n # [length (before_segment @ [i])..<length (before_segment @ [i]) + length seg]"
    by (simp add: upt_conv_Cons del: upt_Suc)
  have "kept reference q k (insert i S \<union> set seg) (fold (knn_candidate packed original q k)
      [length (before_segment @ [i])..<length (before_segment @ [i]) + length seg] (knn_candidate packed original q k ?n st))"
    by (rule Cons.IH [OF _ step]) (use Cons.prems in auto)
  then show ?case unfolding range by simp
qed simp

lemma bvh_escape: "bvh reference lo k segment nodes \<Longrightarrow> sn_escape (hd nodes) = k + length nodes"
  by (induction rule: bvh.induct) simp_all


lemma measured_original:
  assumes "is_finite3 q" "list_all is_finite3 reference" "\<forall>i \<in> set original. 0 \<le> i \<and> nat i < length reference" "S \<subseteq> set original"
  shows "measured reference q S"
proof -
  have "S \<subseteq> all_indices reference" using assms(3,4) by (force simp: all_indices_def)
  then show ?thesis using candidate_numbers [OF assms(2,1)] unfolding measured_def by blast
qed

text \<open>
  Processing the subtree on the top of the stack: \<open>h\<close> bounds the depth, and the stack never needs more
  than one place per level beyond what it holds.
\<close>

lemma knn_subtree:
  assumes "bvh reference lo n segment nodes" "is_finite3 q" "list_all is_finite3 reference" "0 < k"
    and "packed = map (\<lambda>i. reference ! nat i) original" "\<forall>i \<in> set original. 0 \<le> i \<and> nat i < length reference" "distinct original"
    and "original = before_segment @ segment @ after_segment" "length before_segment = lo"
    and "all_nodes = before_nodes @ nodes @ after_nodes" "length before_nodes = n"
    and "kept reference q k S st" "finite S" "set segment \<inter> S = {}" "S \<subseteq> set original"
    and "length segment \<le> leaf_capacity * 2 ^ h" "length rest + 1 + h \<le> pending_capacity"
  shows "\<exists>st'. knn_loop packed original all_nodes q k (n # rest) st = knn_loop packed original all_nodes q k rest st' \<and>
    kept reference q k (S \<union> set segment) st'"
  using assms(1,8-17)
proof (induction arbitrary: S st h rest before_segment after_segment before_nodes after_nodes rule: bvh.induct)
  case (bvh_leaf segment node lo n)
  have at: "\<not> length all_nodes \<le> n" "all_nodes ! n = node" using bvh_leaf.prems(3,4) by auto
  have finite: "\<forall>i \<in> set segment. is_finite3 (reference ! nat i)"
    using assms(3,6) bvh_leaf.prems(1) by (auto simp: list_all_length)
  have numbers: "measured reference q (S \<union> set segment)"
    by (rule measured_original [OF assms(2,3,6)]) (use bvh_leaf.prems(1,8) in auto)
  show ?case
  proof (cases "knn_skips q k node st")
    case True
    then show ?thesis
      using at knn_skipped [OF True bvh_leaf.hyps(4) bvh_leaf.prems(5) assms(4,2) finite bvh_leaf.prems(6,7)]
      by (subst knn_loop.simps) (auto simp: Let_def)
  next
    case False
    let ?st = "fold (knn_candidate packed original q k) [length before_segment..<length before_segment + length segment] st"
    have "distinct segment" using assms(7) bvh_leaf.prems(1) by simp
    from knn_leaf [OF assms(5) bvh_leaf.prems(1,5) assms(4) bvh_leaf.prems(6) this bvh_leaf.prems(7) numbers]
    have "kept reference q k (S \<union> set segment) ?st" .
    moreover have "knn_loop packed original all_nodes q k (n # rest) st = knn_loop packed original all_nodes q k rest ?st"
      using at False bvh_leaf.hyps bvh_leaf.prems(2) by (subst knn_loop.simps) (simp add: Let_def)
    ultimately show ?thesis by blast
  qed
next
  case (bvh_inner lo n left left_nodes right right_nodes node)
  let ?first = "Suc n" and ?second = "Suc n + length left_nodes"
  have at: "\<not> length all_nodes \<le> n" "all_nodes ! n = node" using bvh_inner.prems(3,4) by auto
  have finite: "\<forall>i \<in> set (left @ right). is_finite3 (reference ! nat i)"
    using assms(3,6) bvh_inner.prems(1) by (auto simp: list_all_length)
  show ?case
  proof (cases "knn_skips q k node st")
    case True
    then show ?thesis
      using at knn_skipped [OF True bvh_inner.hyps(3) bvh_inner.prems(5) assms(4,2) finite bvh_inner.prems(6,7)]
      by (subst knn_loop.simps) (auto simp: Let_def)
  next
    case False
    have "all_nodes ! ?first = hd left_nodes"
      using bvh_inner.prems(3,4) bvh_nonempty [OF bvh_inner.hyps(1)] by (auto simp: nth_append hd_conv_nth)
    then have second: "sn_escape (all_nodes ! Suc n) = ?second" using bvh_escape [OF bvh_inner.hyps(1)] by simp
    obtain h' where h: "h = Suc h'" "length left \<le> leaf_capacity * 2 ^ h'" "length right \<le> leaf_capacity * 2 ^ h'"
      using bvh_inner.prems(9) bvh_inner.hyps(4-6) by (cases h) auto
    have apart: "set left \<inter> set right = {}" "set left \<subseteq> set original" "set right \<subseteq> set original"
      using assms(7) bvh_inner.prems(1) by auto
    have left: "\<exists>st'. knn_loop packed original all_nodes q k (?first # rest') st = knn_loop packed original all_nodes q k rest' st' \<and>
        kept reference q k (S \<union> set left) st'"
      if "kept reference q k S st" "finite S" "set left \<inter> S = {}" "S \<subseteq> set original" "length rest' + 1 + h' \<le> pending_capacity"
      for rest' st S
      using that h(2) bvh_inner.prems
      by (intro bvh_inner.IH(1) [of before_segment "right @ after_segment" "before_nodes @ [node]"]) simp_all
    have right: "\<exists>st'. knn_loop packed original all_nodes q k (?second # rest') st = knn_loop packed original all_nodes q k rest' st' \<and>
        kept reference q k (S \<union> set right) st'"
      if "kept reference q k S st" "finite S" "set right \<inter> S = {}" "S \<subseteq> set original" "length rest' + 1 + h' \<le> pending_capacity"
      for rest' st S
      using that h(3) bvh_inner.prems
      by (intro bvh_inner.IH(2) [of "before_segment @ left" after_segment "before_nodes @ node # left_nodes"]) simp_all
    have room: "length (x # rest) + 1 + h' \<le> pending_capacity" "length rest + 1 + h' \<le> pending_capacity" "\<not> pending_capacity < Suc (Suc (length rest))"
      for x using bvh_inner.prems(10) h(1) by simp_all
    have S: "set left \<inter> S = {}" "set right \<inter> S = {}" using bvh_inner.prems(7) by auto
    show ?thesis
    proof (cases "box_distance q (all_nodes ! ?first) \<le> box_distance q (all_nodes ! ?second)")
      case near: True
      obtain st1 where 1: "knn_loop packed original all_nodes q k (?first # ?second # rest) st = knn_loop packed original all_nodes q k (?second # rest) st1"
        "kept reference q k (S \<union> set left) st1"
        using left [OF bvh_inner.prems(5,6) S(1) bvh_inner.prems(8) room(1)] by blast
      obtain st2 where 2: "knn_loop packed original all_nodes q k (?second # rest) st1 = knn_loop packed original all_nodes q k rest st2"
        "kept reference q k (S \<union> set left \<union> set right) st2"
        using right [OF 1(2) _ _ _ room(2)] S apart bvh_inner.prems(6,8) by blast
      then show ?thesis
        using at False 1 near second room(3) bvh_inner.hyps(7) by (subst knn_loop.simps) (auto simp: Let_def Un_assoc)
    next
      case far: False
      obtain st1 where 1: "knn_loop packed original all_nodes q k (?second # ?first # rest) st = knn_loop packed original all_nodes q k (?first # rest) st1"
        "kept reference q k (S \<union> set right) st1"
        using right [OF bvh_inner.prems(5,6) S(2) bvh_inner.prems(8) room(1)] by blast
      obtain st2 where 2: "knn_loop packed original all_nodes q k (?first # rest) st1 = knn_loop packed original all_nodes q k rest st2"
        "kept reference q k (S \<union> set right \<union> set left) st2"
        using left [OF 1(2) _ _ _ room(2)] S apart bvh_inner.prems(6,8) by blast
      then show ?thesis
        using at False 1 far second room(3) bvh_inner.hyps(7) by (subst knn_loop.simps) (auto simp: Let_def Un_ac)
    qed
  qed
qed


lemma knn_thread:
  assumes "index_of reference index" "is_finite3 q" "int (length reference) \<le> int32_max" "0 < k" "length ids = k" "length ds = k"
  shows "\<exists>st. knn_loop (si_points index) (si_original_indices index) (si_nodes index) q k [0] \<lparr>kn_ids = ids, kn_ds = ds, kn_found = 0\<rparr> =
      Some st \<and> length (kn_ids st) = k \<and> length (kn_ds st) = k \<and>
    nearest_of reference q k (all_indices reference) (take (kn_found st) (kn_ids st)) \<and> kn_found st = min k (length reference)"
proof -
  let ?o = "si_original_indices index"
  have i: "list_all is_finite3 reference" "si_points index = map (\<lambda>i. reference ! nat i) ?o" "bvh reference 0 0 ?o (si_nodes index)"
    "mset ?o = mset (map int [0..<length reference])"
    using assms(1) by (simp_all add: index_of_def)
  have range: "\<forall>i \<in> set ?o. 0 \<le> i \<and> nat i < length reference"
    by (auto simp: index_of_set [OF assms(1)] all_indices_def)
  have "distinct ?o" using mset_eq_imp_distinct_iff [OF i(4)] by (simp add: distinct_map)
  moreover have "length ?o \<le> leaf_capacity * 2 ^ 28"
    using mset_eq_length [OF i(4)] assms(3) by (simp add: leaf_capacity_def int32_max_def)
  moreover have "kept reference q k {} \<lparr>kn_ids = ids, kn_ds = ds, kn_found = 0\<rparr>"
    using assms(5,6) by (simp add: kept_def consistent_def nearest_of_def)
  ultimately obtain st where "knn_loop (si_points index) ?o (si_nodes index) q k [0] \<lparr>kn_ids = ids, kn_ds = ds, kn_found = 0\<rparr> =
      knn_loop (si_points index) ?o (si_nodes index) q k [] st" "kept reference q k (all_indices reference) st"
    using knn_subtree [OF i(3) assms(2) i(1) assms(4) i(2) range, of "[]" "[]" "si_nodes index" "[]" "[]" "{}" _ 28 "[]"]
    by (auto simp: index_of_set [OF assms(1)] pending_capacity_def)
  then show ?thesis
    by (subst (asm) (2) knn_loop.simps) (auto simp: kept_def consistent_def all_indices_def)
qed


subsection \<open>A launch\<close>

text \<open>Row \<open>i\<close> of a matrix with \<open>k\<close> columns stored by rows.\<close>

definition row_of :: "nat \<Rightarrow> nat \<Rightarrow> 'a list \<Rightarrow> 'a list" where
  "row_of k i xs = range_of (i * k) (i * k + k) xs"

lemma row_end: "i < n \<Longrightarrow> i * k + k \<le> n * k" for i n k :: nat
  using mult_le_mono1 [of "Suc i" n k] by simp

lemma length_row_of: "i * k + k \<le> length xs \<Longrightarrow> length (row_of k i xs) = k"
  by (simp add: row_of_def)

lemma row_of_replaced:
  assumes "i * k + k \<le> length xs" "length seg = k"
  shows "row_of k j (replace_range (i * k) (i * k + k) seg xs) = (if j = i then seg else row_of k j xs)"
proof (cases "j < i")
  case True
  then have "j * k + k \<le> i * k" by (rule row_end)
  then show ?thesis using True assms by (auto simp: row_of_def range_of_def replace_range_def drop_take)
next
  case False
  then consider "j = i" | "i * k + k \<le> j * k" "i * k \<le> j * k" "j \<noteq> i" using row_end [of i j k] by fastforce
  then show ?thesis using assms by cases (simp_all add: row_of_def range_of_def replace_range_def)
qed

lemma knn_threads:
  assumes "index_of reference index" "int (length reference) \<le> int32_max" "0 < k" "k \<le> length reference"
    and "threads * k \<le> length (fst arrays)" "threads * k \<le> length (snd arrays)" "offset + threads \<le> length reference"
  shows "\<exists>arrays'. foldO (exact_knn (si_points index) (si_original_indices index) (si_nodes index) reference offset threads k) [0..<n] arrays =
      Some arrays' \<and> length (fst arrays') = length (fst arrays) \<and> length (snd arrays') = length (snd arrays) \<and>
    (\<forall>i < min n threads. nearest_of reference (reference ! (offset + i)) k (all_indices reference) (row_of k i (fst arrays')))"
proof (induction n)
  case (Suc n)
  then obtain nb ds where IH: "foldO (exact_knn (si_points index) (si_original_indices index) (si_nodes index) reference offset threads k) [0..<n] arrays =
      Some (nb, ds)" "length nb = length (fst arrays)" "length ds = length (snd arrays)"
    "\<forall>i < min n threads. nearest_of reference (reference ! (offset + i)) k (all_indices reference) (row_of k i nb)" by auto
  show ?case
  proof (cases "n < threads")
    case False
    then have "exact_knn (si_points index) (si_original_indices index) (si_nodes index) reference offset threads k n (nb, ds) = Some (nb, ds)"
      by (simp add: exact_knn_def)
    moreover have "min (Suc n) threads = min n threads" using False by simp
    ultimately show ?thesis using IH by (simp add: foldO_append)
  next
    case True
    have room: "n * k + k \<le> length nb" "n * k + k \<le> length ds" using row_end [OF True, of k] assms(5,6) IH(2,3) by simp_all
    have "is_finite3 (reference ! (offset + n))"
      using True assms(1,7) by (simp add: index_of_def list_all_length)
    from knn_thread [OF assms(1) this assms(2,3) length_row_of [OF room(1)] length_row_of [OF room(2)]] obtain st where
      st: "knn_loop (si_points index) (si_original_indices index) (si_nodes index) (reference ! (offset + n)) k [0]
          \<lparr>kn_ids = row_of k n nb, kn_ds = row_of k n ds, kn_found = 0\<rparr> = Some st"
        "length (kn_ids st) = k" "length (kn_ds st) = k"
        "nearest_of reference (reference ! (offset + n)) k (all_indices reference) (take (kn_found st) (kn_ids st))"
        "kn_found st = k"
      using assms(4) by auto
    then have near: "nearest_of reference (reference ! (offset + n)) k (all_indices reference) (kn_ids st)" by simp
    let ?nb = "replace_range (n * k) (n * k + k) (kn_ids st) nb" and ?ds = "replace_range (n * k) (n * k + k) (kn_ds st) ds"
    have "exact_knn (si_points index) (si_original_indices index) (si_nodes index) reference offset threads k n (nb, ds) = Some (?nb, ?ds)"
      using True st(1) by (simp add: exact_knn_def Let_def row_of_def)
    moreover have "length ?nb = length nb" "length ?ds = length ds" using room st(2,3) by simp_all
    moreover have "nearest_of reference (reference ! (offset + i)) k (all_indices reference) (row_of k i ?nb)" if "i < Suc n" for i
      using that IH(4) True near row_of_replaced [OF room(1) st(2), of i] by (auto simp: less_Suc_eq)
    ultimately show ?thesis using IH by (auto simp: foldO_append)
  qed
qed simp

lemma knn_launch:
  assumes "index_of reference index" "int (length reference) \<le> int32_max" "0 < k" "k \<le> length reference"
    and "threads * k \<le> length (fst arrays)" "threads * k \<le> length (snd arrays)" "offset + threads \<le> length reference"
  shows "\<exists>arrays'. exact_knn_launch (si_points index) (si_original_indices index) (si_nodes index) reference offset threads k arrays =
      Some arrays' \<and> length (fst arrays') = length (fst arrays) \<and> length (snd arrays') = length (snd arrays) \<and>
    (\<forall>i < threads. nearest_of reference (reference ! (offset + i)) k (all_indices reference) (row_of k i (fst arrays')))"
proof -
  have "threads \<le> launch_blocks threads * kBlockSize"
    using launch_covers [of "threads - 1" threads] by (cases threads) auto
  then show ?thesis
    using knn_threads [OF assms, of "launch_blocks threads * kBlockSize"] by (simp add: exact_knn_launch_def min_absorb2)
qed

text \<open>
  C26. The neighbour kernel stays within its arrays: on the index of any reference the host accepts
  (up to 2^31 - 1 points), every thread of a launch ends without pushing more than 64 positions on
  its stack of 64, and the rows it writes lie inside the two arrays, whose lengths do not change.
\<close>
theorem knn_stack_suffices:
  assumes "permutes_range nth_elem" "build_spatial_index nth_elem reference = Inr index"
    and "0 < k" "k \<le> length reference" "offset + threads \<le> length reference"
    and "threads * k \<le> length neighbors" "length distances = length neighbors"
  shows "\<exists>neighbors' distances'.
    exact_knn_launch (si_points index) (si_original_indices index) (si_nodes index) reference offset threads k (neighbors, distances) =
      Some (neighbors', distances') \<and>
    length neighbors' = length neighbors \<and> length distances' = length neighbors \<and>
    (\<forall>i < threads. \<forall>id \<in> set (row_of k i neighbors'). 0 \<le> id \<and> nat id < length reference)"
proof -
  note index = built_index_of [OF assms(1,2)]
  have size: "int (length reference) \<le> int32_max"
    using assms(2) by (simp add: build_spatial_index_def require_Inr_iff)
  have rows: "0 \<le> id \<and> nat id < length reference"
    if "nearest_of reference q k (all_indices reference) row" "id \<in> set row" for q row id
    using that by (force simp: nearest_of_def all_indices_def)
  from knn_launch [OF index size assms(3,4), of threads "(neighbors, distances)" offset] assms(5-7) obtain arrays where
    "exact_knn_launch (si_points index) (si_original_indices index) (si_nodes index) reference offset threads k (neighbors, distances) = Some arrays"
    "length (fst arrays) = length neighbors" "length (snd arrays) = length distances"
    "\<forall>i < threads. nearest_of reference (reference ! (offset + i)) k (all_indices reference) (row_of k i (fst arrays))"
    by auto
  then show ?thesis using rows assms(7) by (intro exI [of _ "fst arrays"] exI [of _ "snd arrays"]) auto
qed

theorem knn_stack_suffices_witness:
  "\<exists>index neighbors distances. build_spatial_index keep_order sample_reference = Inr index \<and>
     exact_knn_launch (si_points index) (si_original_indices index) (si_nodes index) sample_reference 0 2 1 ([7, 7], [0, 0]) =
       Some (neighbors, distances) \<and> length neighbors = 2 \<and> (\<forall>i < 2. \<forall>id \<in> set (row_of 1 i neighbors). 0 \<le> id \<and> nat id < 2)"
proof -
  obtain index where index: "build_spatial_index keep_order sample_reference = Inr index" using sample_index_built by blast
  have "length sample_reference = 2" by (simp add: sample_reference_def)
  then show ?thesis
    using knn_stack_suffices [OF keep_order_permutes index, of 1 0 2 "[7, 7]" "[0, 0]"] index by fastforce
qed

end
