(* ===== verification/CudaEquations.thy ===== *)
theory CudaEquations
  imports CudaKnn
begin

text \<open>
  \<open>backends/cuda/cuda_correspondence.cu\<close>, the resident arithmetic: the transform of the scan, the
  contribution of every point to the normal equations with its reduction over the block (a binary
  tree in shared memory) and over the blocks, the original order of the reference, and the GICP
  covariances. Threads of one step write different slots and read none that another writes between the
  same barriers, so a step is a map over the threads. Reading through a null pointer is \<open>None\<close>.
\<close>

subsection \<open>Transform and order\<close>

definition transform_resident :: "Vec3d list \<Rightarrow> Mat4 \<Rightarrow> nat \<Rightarrow> nat \<Rightarrow> Vec3d list \<times> Vec3f list \<Rightarrow> Vec3d list \<times> Vec3f list" where
  "transform_resident scan pose threads i arrays =
     (if threads \<le> i then arrays
      else let (transformed, queries) = arrays; d = apply_direction pose (scan ! i);
               p = Vec3 (vx d + pose!3) (vy d + pose!7) (vz d + pose!11)
           in (transformed[i := p], queries[i := narrow3 p]))"

definition transform_launch :: "Vec3d list \<Rightarrow> Mat4 \<Rightarrow> nat \<Rightarrow> Vec3d list \<times> Vec3f list \<Rightarrow> Vec3d list \<times> Vec3f list" where
  "transform_launch scan pose threads arrays =
     fold (transform_resident scan pose threads) [0..<launch_blocks threads * kBlockSize] arrays"

definition restore_order :: "Vec3f list \<Rightarrow> int list \<Rightarrow> nat \<Rightarrow> nat \<Rightarrow> Vec3f list \<Rightarrow> Vec3f list" where
  "restore_order packed order threads i original = (if i < threads then original[nat (order ! i) := packed ! i] else original)"

definition restore_launch :: "Vec3f list \<Rightarrow> int list \<Rightarrow> nat \<Rightarrow> Vec3f list \<Rightarrow> Vec3f list" where
  "restore_launch packed order threads original =
     fold (restore_order packed order threads) [0..<launch_blocks threads * kBlockSize] original"

subsection \<open>One lane of the equations\<close>

text \<open>A covariance is a list of 9 numbers, an equation a list of 45.\<close>

text \<open>\<open>reference covariance + R * scan covariance * R\<^sup>T\<close>, summed from left to right.\<close>

definition rotated_covariance :: "Mat4 \<Rightarrow> f64 list \<Rightarrow> f64 list" where
  "rotated_covariance pose source =
     map (\<lambda>(row, col). fold (\<lambda>j acc. acc + pose ! (row * 4 + j) * source ! (j * 3 + col)) [0..<3] 0)
       (List.product [0..<3] [0..<3])"

definition combined_covariance :: "Mat4 \<Rightarrow> f64 list \<Rightarrow> f64 list \<Rightarrow> f64 list" where
  "combined_covariance pose reference_covariance source =
     (let rotated = rotated_covariance pose source in
      map (\<lambda>(row, col). fold (\<lambda>j acc. acc + rotated ! (row * 3 + j) * pose ! (col * 4 + j)) [0..<3]
            (reference_covariance ! (row * 3 + col)))
        (List.product [0..<3] [0..<3]))"

definition cofactor_inverse :: "f64 list \<Rightarrow> f64 list" where
  "cofactor_inverse m =
     (let a = m!0; b = m!1; c = m!2; d = m!3; e = m!4; f = m!5; g = m!6; h = m!7; j = m!8;
          determinant = a * (e * j - f * h) - b * (d * j - f * g) + c * (d * h - e * g) in
      map (\<lambda>cofactor. cofactor / determinant)
        [e * j - f * h, c * h - b * j, b * f - c * e,
         f * g - d * j, a * j - c * g, c * d - a * f,
         d * h - e * g, b * g - a * h, a * e - b * d])"

text \<open>The first 42 entries: the row-major matrix, then the right-hand side.\<close>

definition plane_entries :: "f64 \<Rightarrow> f64 \<Rightarrow> Vec3d \<Rightarrow> Vec3d \<Rightarrow> f64 list" where
  "plane_entries weight residual p n =
     (let jac = [vy p * vz n - vz p * vy n, vz p * vx n - vx p * vz n, vx p * vy n - vy p * vx n, vx n, vy n, vz n] in
      concat (map (\<lambda>row. map (\<lambda>col. (weight * jac ! row) * jac ! col) [0..<6]) [0..<6]) @
      map (\<lambda>row. (weight * (- residual)) * jac ! row) [0..<6])"

definition point_entries :: "f64 \<Rightarrow> f64 list option \<Rightarrow> Vec3d \<Rightarrow> Vec3d \<Rightarrow> f64 list" where
  "point_entries weight information p e =
     (let jac = [0, vz p, - vy p, 1, 0, 0, - vz p, 0, vx p, 0, 1, 0, vy p, - vx p, 0, 0, 0, 1];
          weighted = (\<lambda>row col. case information of
             Some m \<Rightarrow> ((weight * jac ! row) * m ! col + (weight * jac ! (6 + row)) * m ! (3 + col)) +
               (weight * jac ! (12 + row)) * m ! (6 + col)
           | None \<Rightarrow> weight * jac ! (6 * col + row)) in
      concat (map (\<lambda>row. map (\<lambda>col. (weighted row 0 * jac ! col + weighted row 1 * jac ! (6 + col)) +
        weighted row 2 * jac ! (12 + col)) [0..<6]) [0..<6]) @
      map (\<lambda>row. - ((weighted row 0 * vx e + weighted row 1 * vy e) + weighted row 2 * vz e)) [0..<6])"

text \<open>The arguments of the launch that are the same for every lane; a null pointer is \<open>None\<close>.\<close>

record Objective =
  ob_reference :: "Vec3f list"
  ob_ref_normals :: "Vec3d list option"
  ob_transformed :: "Vec3d list"
  ob_queries :: "Vec3f list"
  ob_scan_normals :: "Vec3d list option"
  ob_indices :: "int list"
  ob_count :: nat
  ob_pose :: Mat4
  ob_huber :: f64
  ob_plane :: bool
  ob_final_metrics :: bool
  ob_reference_covariances :: "f64 list list option"
  ob_scan_covariances :: "f64 list list option"

definition lane_information :: "Objective \<Rightarrow> nat \<Rightarrow> nat \<Rightarrow> f64 list option option" where
  "lane_information ob i target =
     (case ob_reference_covariances ob of None \<Rightarrow> Some None
      | Some reference_covariances \<Rightarrow>
          map_option (\<lambda>scan_covariances. Some (cofactor_inverse
            (combined_covariance (ob_pose ob) (reference_covariances ! target) (scan_covariances ! i)))) (ob_scan_covariances ob))"

definition matched_lane :: "Objective \<Rightarrow> nat \<Rightarrow> nat \<Rightarrow> f64 list option" where
  "matched_lane ob i target =
     (let n = (case ob_ref_normals ob of Some ns \<Rightarrow> ns ! target | None \<Rightarrow> Vec3d_zero);
          p = ob_transformed ob ! i; e = subtract3 p (widen3 (ob_reference ob ! target));
          residual = (if ob_plane ob then dot_d e n else fp_sqrt (dot_d e e));
          weight = (if \<bar>residual\<bar> \<le> ob_huber ob then lit 1 else ob_huber ob / \<bar>residual\<bar>) in
      if ob_final_metrics ob then Some (replicate 42 0 @ [residual * residual, 1, 0])
      else map_option (\<lambda>entries. entries @ [\<bar>residual\<bar>, 1, 0])
        (if ob_plane ob then Some (plane_entries weight residual p n)
         else map_option (\<lambda>information. point_entries weight information p e) (lane_information ob i target)))"

definition faces :: "Objective \<Rightarrow> nat \<Rightarrow> nat \<Rightarrow> bool" where
  "faces ob i target = (case (ob_scan_normals ob, ob_ref_normals ob) of
     (Some sns, Some ns) \<Rightarrow> 0 \<le> dot_d (apply_direction (ob_pose ob) (sns ! i)) (ns ! target) | _ \<Rightarrow> True)"

definition resident_lane :: "Objective \<Rightarrow> nat \<Rightarrow> f64 list option" where
  "resident_lane ob i =
     (if i < ob_count ob then
        if \<not> is_finite3 (ob_queries ob ! i) then Some (replicate 44 0 @ [1])
        else if 0 \<le> ob_indices ob ! i \<and> faces ob i (nat (ob_indices ob ! i)) then matched_lane ob i (nat (ob_indices ob ! i))
        else Some (replicate 45 0)
      else Some (replicate 45 0))"

subsection \<open>The reductions\<close>

definition reduce_step :: "nat \<Rightarrow> f64 list list \<Rightarrow> f64 list list" where
  "reduce_step stride rows =
     map (\<lambda>lane. if lane < stride then map2 (+) (rows ! lane) (rows ! (lane + stride)) else rows ! lane) [0..<kBlockSize]"

fun tree_reduce :: "nat \<Rightarrow> f64 list list \<Rightarrow> f64 list list" where
  "tree_reduce stride rows = (if stride = 0 then rows else tree_reduce (stride div 2) (reduce_step stride rows))"

declare tree_reduce.simps [simp del]

definition equation_block :: "Objective \<Rightarrow> nat \<Rightarrow> f64 list option" where
  "equation_block ob block =
     map_option (\<lambda>rows. tree_reduce (kBlockSize div 2) rows ! 0)
       (those (map (\<lambda>lane. resident_lane ob (block * kBlockSize + lane)) [0..<kBlockSize]))"

definition resident_equations :: "Objective \<Rightarrow> f64 list list option" where
  "resident_equations ob = those (map (equation_block ob) [0..<launch_blocks (ob_count ob)])"

definition merge_equations :: "f64 list list \<Rightarrow> f64 list" where
  "merge_equations block_rows = map (\<lambda>entry. fold (\<lambda>row acc. acc + row ! entry) block_rows 0) [0..<45]"


subsection \<open>The counts are exact\<close>

definition matched :: "Objective \<Rightarrow> nat \<Rightarrow> bool" where
  "matched ob i \<longleftrightarrow> i < ob_count ob \<and> is_finite3 (ob_queries ob ! i) \<and> 0 \<le> ob_indices ob ! i \<and>
     faces ob i (nat (ob_indices ob ! i))"

definition out_of_range :: "Objective \<Rightarrow> nat \<Rightarrow> bool" where
  "out_of_range ob i \<longleftrightarrow> i < ob_count ob \<and> \<not> is_finite3 (ob_queries ob ! i)"

lemma entries_length [simp]:
  "length (plane_entries weight residual p n) = 42" "length (point_entries weight information p e) = 42"
  by (simp_all add: plane_entries_def point_entries_def length_concat comp_def sum_list_triv Let_def)

lemma of_count_one: "of_count (Suc 0) = 1"
  by (simp add: of_count_def one_fp_def)

lemma matched_lane_row:
  "matched_lane ob i target = Some row \<Longrightarrow> \<exists>entries r. row = entries @ [r, 1, 0] \<and> length entries = 42"
  by (auto simp: matched_lane_def Let_def split: if_splits)

lemma matched_lane_counts:
  assumes "matched_lane ob i target = Some row"
  shows "length row = 45 \<and> row ! 43 = 1 \<and> row ! 44 = 0"
  using matched_lane_row [OF assms] by (auto simp: nth_append)

lemma lane_counts:
  assumes "resident_lane ob i = Some row"
  shows "length row = 45 \<and> row ! 43 = of_count (of_bool (matched ob i)) \<and> row ! 44 = of_count (of_bool (out_of_range ob i))"
  using assms matched_lane_counts [of ob i "nat (ob_indices ob ! i)" row]
  by (auto simp: resident_lane_def matched_def out_of_range_def of_count_zero of_count_one nth_append split: if_splits)

lemma of_count_add: "m + n \<le> 2 ^ 53 \<Longrightarrow> of_count m + of_count n = of_count (m + n)"
proof -
  assume "m + n \<le> 2 ^ 53"
  then have "of_count m + of_count n = rnd (of_nat m + of_nat n)" by (simp add: of_count_exact plus_fp_def)
  then show ?thesis by (simp add: of_count_def)
qed

lemma sum_lessThan_add: "(\<Sum>i<m + n. f i) = (\<Sum>i<m. f i) + (\<Sum>i<n. f (i + m))" for f :: "nat \<Rightarrow> nat"
  by (induction n) (simp_all add: add.commute)

lemma reduce_step_row:
  assumes "lane < stride" "stride \<le> kBlockSize div 2" "\<forall>lane < kBlockSize. length (rows ! lane) = 45" "j < 45"
  shows "reduce_step stride rows ! lane ! j = rows ! lane ! j + rows ! (lane + stride) ! j"
  using assms by (simp add: reduce_step_def kBlockSize_def)

lemma reduce_step_lengths:
  assumes "stride \<le> kBlockSize div 2" "\<forall>lane < kBlockSize. length (rows ! lane) = 45"
  shows "\<forall>lane < kBlockSize. length (reduce_step stride rows ! lane) = 45"
  using assms by (simp add: reduce_step_def kBlockSize_def)

text \<open>The tree adds a column of counts without rounding.\<close>

lemma tree_counts:
  assumes "k \<le> 6" "\<forall>lane < kBlockSize. length (rows ! lane) = 45" "j < 45"
    and "\<forall>lane < 2 ^ Suc k. rows ! lane ! j = of_count (c lane)" "(\<Sum>lane<2 ^ Suc k. c lane) \<le> 2 ^ 53"
  shows "tree_reduce (2 ^ k) rows ! 0 ! j = of_count (\<Sum>lane<2 ^ Suc k. c lane)"
  using assms(1,2,4,5)
proof (induction k arbitrary: rows c)
  case 0
  have "tree_reduce (2 ^ 0) rows = reduce_step 1 rows" by (subst tree_reduce.simps) (simp add: tree_reduce.simps [of 0])
  moreover have "reduce_step 1 rows ! 0 ! j = rows ! 0 ! j + rows ! (0 + 1) ! j"
    using 0 assms(3) by (intro reduce_step_row) (simp_all add: kBlockSize_def)
  ultimately show ?case using 0 by (simp add: of_count_add lessThan_Suc numeral_2_eq_2 add.commute)
next
  case (Suc k)
  let ?s = "2 ^ Suc k :: nat" and ?c = "\<lambda>lane. c lane + c (lane + 2 ^ Suc k)"
  have s: "?s \<le> kBlockSize div 2" using Suc.prems(1) power_increasing [of "Suc k" 6 "2 :: nat"] by (simp add: kBlockSize_def)
  have total: "(\<Sum>lane<2 ^ Suc (Suc k). c lane) = (\<Sum>lane<?s. ?c lane)"
    using sum_lessThan_add [of c ?s ?s] by (simp add: sum.distrib mult_2 [symmetric])
  have part: "?c lane \<le> 2 ^ 53" if "lane < ?s" for lane
    using that Suc.prems(4) member_le_sum [of lane "{..<?s}" ?c] unfolding total by simp
  have row: "\<forall>lane < ?s. reduce_step ?s rows ! lane ! j = of_count (?c lane)"
  proof (intro allI impI)
    fix lane assume lane: "lane < ?s"
    then have "rows ! lane ! j = of_count (c lane)" "rows ! (lane + ?s) ! j = of_count (c (lane + ?s))"
      using Suc.prems(3) by simp_all
    then show "reduce_step ?s rows ! lane ! j = of_count (?c lane)"
      using reduce_step_row [OF lane s Suc.prems(2) assms(3)] of_count_add [OF part [OF lane]] by simp
  qed
  have "tree_reduce ?s rows = tree_reduce (2 ^ k) (reduce_step ?s rows)"
    by (subst tree_reduce.simps) simp
  then show ?case
    using Suc.IH [OF _ reduce_step_lengths [OF s Suc.prems(2)] row] Suc.prems(1,4) unfolding total by simp
qed

lemma those_map: "those (map f xs) = Some ys \<Longrightarrow> length ys = length xs \<and> (\<forall>i < length xs. f (xs ! i) = Some (ys ! i))"
proof (induction xs arbitrary: ys)
  case (Cons x xs)
  then obtain y zs where "f x = Some y" "those (map f xs) = Some zs" "ys = y # zs" by (auto split: option.splits)
  then show ?case using Cons.IH by (auto simp: nth_Cons split: nat.splits)
qed simp

text \<open>How many of the lanes of a block satisfy \<open>P\<close>.\<close>

definition block_count :: "(nat \<Rightarrow> bool) \<Rightarrow> nat \<Rightarrow> nat" where
  "block_count P block = (\<Sum>lane<kBlockSize. of_bool (P (block * kBlockSize + lane)))"

lemma block_counts:
  assumes "equation_block ob block = Some row"
  shows "row ! 43 = of_count (block_count (matched ob) block) \<and> row ! 44 = of_count (block_count (out_of_range ob) block)"
proof -
  from assms obtain rows where rows: "those (map (\<lambda>lane. resident_lane ob (block * kBlockSize + lane)) [0..<kBlockSize]) = Some rows"
    "row = tree_reduce (2 ^ 6) rows ! 0"
    by (auto simp: equation_block_def kBlockSize_def)
  have lane: "resident_lane ob (block * kBlockSize + lane) = Some (rows ! lane)" if "lane < kBlockSize" for lane
    using those_map [OF rows(1)] that by simp
  note counts = lane_counts [OF lane]
  have small: "(\<Sum>lane<2 ^ Suc 6. of_bool (P (block * kBlockSize + lane))) \<le> (2 :: nat) ^ 53" for P
    using sum_bounded_above [of "{..<2 ^ Suc 6}" "\<lambda>lane. of_bool (P (block * kBlockSize + lane))" "1 :: nat"]
    by (rule order_trans) simp_all
  show ?thesis
    unfolding rows(2) block_count_def
    using tree_counts [of 6 rows 43 "\<lambda>lane. of_bool (matched ob (block * kBlockSize + lane))", OF _ _ _ _ small]
      tree_counts [of 6 rows 44 "\<lambda>lane. of_bool (out_of_range ob (block * kBlockSize + lane))", OF _ _ _ _ small] counts
    by (simp add: kBlockSize_def)
qed


lemma block_count_sum: "(\<Sum>block<n. block_count P block) = card {i. i < n * kBlockSize \<and> P i}"
proof -
  have "block_count P block = (\<Sum>i \<in> {block * kBlockSize..<block * kBlockSize + kBlockSize}. of_bool (P i))" for block
    unfolding block_count_def
    by (rule sum.reindex_bij_witness [of _ "\<lambda>i. i - block * kBlockSize" "\<lambda>lane. block * kBlockSize + lane"]) auto
  then have "(\<Sum>block<n. block_count P block) = (\<Sum>block<n. \<Sum>i \<in> {block * kBlockSize..<block * kBlockSize + kBlockSize}. of_bool (P i))"
    by simp
  also have "\<dots> = (\<Sum>i<n * kBlockSize. of_bool (P i))" by (rule sum.nat_group)
  also have "\<dots> = card ({..<n * kBlockSize} \<inter> {i. P i})" by (simp add: sum.If_cases of_bool_def)
  also have "{..<n * kBlockSize} \<inter> {i. P i} = {i. i < n * kBlockSize \<and> P i}" by auto
  finally show ?thesis .
qed

lemma fold_counts:
  assumes "\<forall>b < n. rows ! b ! j = of_count (c b)" "length rows = n" "(\<Sum>b<n. c b) \<le> 2 ^ 53"
  shows "fold (\<lambda>row acc. acc + row ! j) rows 0 = of_count (\<Sum>b<n. c b)"
proof -
  have "m \<le> n \<Longrightarrow> fold (\<lambda>row acc. acc + row ! j) (take m rows) 0 = of_count (\<Sum>b<m. c b)" for m
  proof (induction m)
    case (Suc m)
    have "(\<Sum>b<Suc m. c b) \<le> (\<Sum>b<n. c b)" using Suc.prems by (intro sum_mono2) auto
    then have "of_count (\<Sum>b<m. c b) + of_count (c m) = of_count (\<Sum>b<Suc m. c b)"
      using assms(3) of_count_add [of "\<Sum>b<m. c b" "c m"] by simp
    then show ?case using Suc assms(1,2) by (simp add: take_Suc_conv_app_nth)
  qed (simp add: of_count_zero)
  from this [of n] show ?thesis using assms(2) by simp
qed

lemma merged_counts:
  assumes "resident_equations ob = Some block_rows" "ob_count ob \<le> 2 ^ 31"
  shows "merge_equations block_rows ! 43 = of_count (card {i. matched ob i}) \<and>
    merge_equations block_rows ! 44 = of_count (card {i. out_of_range ob i})"
proof -
  let ?n = "launch_blocks (ob_count ob)"
  note rows = those_map [OF assms(1) [unfolded resident_equations_def]]
  have block: "equation_block ob b = Some (block_rows ! b)" if "b < ?n" for b using rows that by simp
  note counts = block_counts [OF block]
  have all: "{i. i < ?n * kBlockSize \<and> P i} = {i. P i}" if "\<And>i. P i \<Longrightarrow> i < ob_count ob" for P
    using launch_covers that by blast
  have m: "(\<Sum>b<?n. block_count (matched ob) b) = card {i. matched ob i}"
    and o: "(\<Sum>b<?n. block_count (out_of_range ob) b) = card {i. out_of_range ob i}"
    unfolding block_count_sum by (subst all; simp add: matched_def out_of_range_def)+
  have "card {i. matched ob i} \<le> ob_count ob" "card {i. out_of_range ob i} \<le> ob_count ob"
    using card_mono [of "{..<ob_count ob}" "{i. matched ob i}"] card_mono [of "{..<ob_count ob}" "{i. out_of_range ob i}"]
    by (auto simp: matched_def out_of_range_def)
  then have "(\<Sum>b<?n. block_count (matched ob) b) \<le> 2 ^ 53" "(\<Sum>b<?n. block_count (out_of_range ob) b) \<le> 2 ^ 53"
    using assms(2) unfolding m o by simp_all
  then show ?thesis
    using fold_counts [of ?n block_rows 43 "block_count (matched ob)"] fold_counts [of ?n block_rows 44 "block_count (out_of_range ob)"]
      counts rows m o by (simp add: merge_equations_def)
qed


subsection \<open>The lanes do what the CPU does\<close>

text \<open>The device arrays of \<open>ob\<close> hold the problem that the CPU solver works on at pose \<open>current\<close>.\<close>

definition same_problem :: "Objective \<Rightarrow> Prepared \<Rightarrow> ValidatedCloud \<Rightarrow> Mat4 \<Rightarrow> int list \<Rightarrow> bool" where
  "same_problem ob pr scan current neighbors \<longleftrightarrow>
     cl_points (pr_reference_cloud pr) = map widen3 (ob_reference ob) \<and>
     ob_ref_normals ob = (if cl_normals (pr_reference_cloud pr) = [] then None else Some (cl_normals (pr_reference_cloud pr))) \<and>
     (ob_scan_normals ob = None \<longleftrightarrow> cl_normals scan = []) \<and>
     (\<forall>ns. ob_scan_normals ob = Some ns \<longrightarrow> (\<forall>i < ob_count ob. ns ! i = cl_normals scan ! i)) \<and>
     (\<forall>i < ob_count ob. ob_transformed ob ! i = transform_point current (cl_points scan ! i) \<and>
       ob_queries ob ! i = narrow3 (transform_point current (cl_points scan ! i)) \<and> ob_indices ob ! i = neighbors ! i) \<and>
     ob_count ob = length (cl_points scan) \<and> ob_pose ob = current \<and>
     ob_huber ob = rp_huber_delta_mm (pr_parameters pr) \<and> ob_plane ob = (rp_method (pr_parameters pr) = point_to_plane) \<and>
     (ob_plane ob \<longrightarrow> cl_normals (pr_reference_cloud pr) \<noteq> [])"

lemma objective_scalar_choice: "objective_choice pr input = objective_scalar input"
  by (simp add: objective_choice_def objective_kernel_def objective_avx2_def avx2_lanes.objective_eq)

lemma fp_times_commute: "x * y = y * (x :: 'f::len fp)"
  unfolding times_fp_def by (cases x; cases y) (auto simp: mult.commute intro!: arg_cong2 [where f = round_fp])

lemma dot_d_commute: "dot_d a b = dot_d b a"
  by (simp add: dot_d_def fp_times_commute)

lemma plane_entries_eq:
  assumes "oi_plane input"
  shows "plane_entries (huber_weight (oi_huber_delta input) \<bar>dot_d (subtract3 (oi_point input) (oi_reference input)) (oi_normal input)\<bar>)
      (dot_d (subtract3 (oi_point input) (oi_reference input)) (oi_normal input)) (oi_point input) (oi_normal input) =
    oc_matrix (objective_scalar input) @ oc_gradient (objective_scalar input)"
  using assms by (simp add: plane_entries_def objective_scalar_def objective_def ScalarOperations_def scalar_products_def
      scalar_outer_row_def dot_d_def plane_jacobian_def Let_def)

lemma point_entries_eq:
  assumes "\<not> oi_plane input" "\<not> oi_generalized input"
    and "e = subtract3 (oi_point input) (oi_reference input)"
  shows "point_entries (huber_weight (oi_huber_delta input) \<bar>fp_sqrt (dot_d e e)\<bar>) None (oi_point input) e =
    oc_matrix (objective_scalar input) @ oc_gradient (objective_scalar input)"
  using assms by (simp add: point_entries_def objective_scalar_def objective_def ScalarOperations_def scalar_products_def
      scalar_matrix_row_def dot_d_def point_jacobian_def weighted_column_def Let_def upt_rec)


text \<open>What the CPU adds to its sums for scan point \<open>i\<close>: nothing, or the contribution of its pair.\<close>

definition cpu_row :: "solver_library \<Rightarrow> Prepared \<Rightarrow> ValidatedCloud \<Rightarrow> Mat4 \<Rightarrow> int list \<Rightarrow> bool \<Rightarrow> nat \<Rightarrow> f64 list" where
  "cpu_row lib pr scan current neighbors final i =
     (let j = nat (neighbors ! i); point = transform_point current (cl_points scan ! i);
          c = objective_choice pr (objective_input lib pr [] current point i j);
          d = subtract3 point (cl_points (pr_reference_cloud pr) ! j);
          residual = (if rp_method (pr_parameters pr) = point_to_plane then dot_d (cl_normals (pr_reference_cloud pr) ! j) d else norm_d d) in
      if neighbors ! i < 0 \<or> \<not> accepted (pr_reference_cloud pr) scan i j current then replicate 45 0
      else if final then replicate 42 0 @ [residual * residual, 1, 0]
      else oc_matrix c @ oc_gradient c @ [oc_absolute_residual c, 1, 0])"

lemma faces_accepted:
  assumes "same_problem ob pr scan current neighbors" "i < ob_count ob"
  shows "faces ob i j = accepted (pr_reference_cloud pr) scan i j current"
  using assms by (auto simp: same_problem_def faces_def accepted_def split: option.splits)

lemma matched_lane_cpu:
  assumes "same_problem ob pr scan current neighbors" "i < ob_count ob" "rp_method (pr_parameters pr) \<noteq> gicp"
    and "ob_reference_covariances ob = None" "0 \<le> neighbors ! i" "nat (neighbors ! i) < length (ob_reference ob)"
    and "accepted (pr_reference_cloud pr) scan i (nat (neighbors ! i)) current"
  shows "matched_lane ob i (nat (neighbors ! i)) = Some (cpu_row lib pr scan current neighbors (ob_final_metrics ob) i)"
proof -
  let ?j = "nat (neighbors ! i)" and ?point = "transform_point current (cl_points scan ! i)"
  let ?input = "objective_input lib pr [] current ?point i ?j"
  let ?e = "subtract3 ?point (widen3 (ob_reference ob ! ?j))"
  let ?r = "if ob_plane ob then dot_d ?e (cl_normals (pr_reference_cloud pr) ! ?j) else fp_sqrt (dot_d ?e ?e)"
  have points: "ob_transformed ob ! i = ?point" "cl_points (pr_reference_cloud pr) ! ?j = widen3 (ob_reference ob ! ?j)"
    using assms(1,2,6) by (simp_all add: same_problem_def)
  have normals: "(case ob_ref_normals ob of Some ns \<Rightarrow> ns ! ?j | None \<Rightarrow> Vec3d_zero) =
      cl_normals (pr_reference_cloud pr) ! ?j" if "ob_plane ob"
    using assms(1) that by (auto simp: same_problem_def)
  have settings: "ob_huber ob = rp_huber_delta_mm (pr_parameters pr)" "ob_plane ob = (rp_method (pr_parameters pr) = point_to_plane)"
    using assms(1) by (simp_all add: same_problem_def)
  have input: "oi_point ?input = ?point" "oi_reference ?input = widen3 (ob_reference ob ! ?j)" "oi_plane ?input = ob_plane ob"
    "oi_huber_delta ?input = ob_huber ob" "\<not> oi_generalized ?input" "ob_plane ob \<Longrightarrow> oi_normal ?input = cl_normals (pr_reference_cloud pr) ! ?j"
    using assms(3) settings points by (simp_all add: objective_input_def Let_def)
  have residual: "oc_absolute_residual (objective_scalar ?input) =
\<bar>?r\<bar>"
    using input by (simp add: objective_scalar_def objective_def ScalarOperations_def scalar_products_def dot_d_def Let_def)
  have row: "cpu_row lib pr scan current neighbors (ob_final_metrics ob) i =
      (if ob_final_metrics ob then replicate 42 0 @ [?r * ?r, 1, 0]
       else oc_matrix (objective_scalar ?input) @ oc_gradient (objective_scalar ?input) @ [\<bar>?r\<bar>, 1, 0])"
    unfolding cpu_row_def objective_scalar_choice norm_d_def Let_def points residual
    using assms(5,7) by (simp add: settings(2) dot_d_commute [of "cl_normals (pr_reference_cloud pr) ! ?j" ?e])
  note lane = matched_lane_def [of ob i ?j, folded huber_weight_def, unfolded Let_def points]
  show ?thesis
  proof (cases "ob_plane ob")
    case True
    then have "plane_entries (huber_weight (ob_huber ob) \<bar>?r\<bar>) ?r ?point (cl_normals (pr_reference_cloud pr) ! ?j) =
        oc_matrix (objective_scalar ?input) @ oc_gradient (objective_scalar ?input)"
      using plane_entries_eq [of ?input] input by simp
    then show ?thesis unfolding row lane using True normals by simp
  next
    case False
    then have "point_entries (huber_weight (ob_huber ob) \<bar>?r\<bar>) None ?point ?e =
        oc_matrix (objective_scalar ?input) @ oc_gradient (objective_scalar ?input)"
      using point_entries_eq [of ?input ?e] input by simp
    then show ?thesis unfolding row lane lane_information_def using False assms(4) by simp
  qed
qed

lemma resident_lane_cpu:
  assumes "same_problem ob pr scan current neighbors" "i < ob_count ob" "rp_method (pr_parameters pr) \<noteq> gicp"
    and "ob_reference_covariances ob = None" "nat (neighbors ! i) < length (ob_reference ob)" "is_finite3 (ob_queries ob ! i)"
  shows "resident_lane ob i = Some (cpu_row lib pr scan current neighbors (ob_final_metrics ob) i)"
proof -
  have "ob_indices ob ! i = neighbors ! i" using assms(1,2) by (simp add: same_problem_def)
  then show ?thesis
    using matched_lane_cpu [OF assms(1-4) _ assms(5)] faces_accepted [OF assms(1,2)] assms(2,6)
    by (auto simp: resident_lane_def cpu_row_def not_less)
qed


subsection \<open>Transform and order, launched\<close>

lemma transform_threads:
  assumes "threads \<le> length (fst arrays)" "threads \<le> length (snd arrays)"
  shows "(case fold (transform_resident scan pose threads) [0..<n] arrays of (transformed, queries) \<Rightarrow>
    length transformed = length (fst arrays) \<and> length queries = length (snd arrays) \<and>
    (\<forall>i < min n threads. transformed ! i = transform_point pose (scan ! i) \<and> queries ! i = narrow3 (transform_point pose (scan ! i))))"
proof (induction n)
  case (Suc n)
  then show ?case
    using assms by (auto simp: transform_resident_def transform_point_def apply_direction_def Let_def nth_list_update less_Suc_eq
        split: prod.splits)
qed (cases arrays; simp)

lemma transform_launched:
  assumes "threads \<le> length (fst arrays)" "threads \<le> length (snd arrays)" "transform_launch scan pose threads arrays = (transformed, queries)"
  shows "length transformed = length (fst arrays)" "length queries = length (snd arrays)"
    "\<forall>i < threads. transformed ! i = transform_point pose (scan ! i) \<and> queries ! i = narrow3 (transform_point pose (scan ! i))"
  using transform_threads [OF assms(1,2), where scan = scan and pose = pose and n = "launch_blocks threads * kBlockSize"] assms(3) launch_covers [of _ threads]
  by (auto simp: transform_launch_def)

lemma restore_threads:
  assumes "distinct order" "\<forall>p \<in> set order. 0 \<le> p \<and> nat p < length original" "threads = length order"
  shows "length (fold (restore_order packed order threads) [0..<n] original) = length original \<and>
    (\<forall>i < min n threads. fold (restore_order packed order threads) [0..<n] original ! nat (order ! i) = packed ! i)"
proof (induction n)
  case (Suc n)
  let ?f = "fold (restore_order packed order threads) [0..<n] original"
  show ?case
  proof (cases "n < threads")
    case True
    have "nat (order ! n) \<noteq> nat (order ! i)" if "i < n" for i
      using assms True that by (metis eq_nat_nat_iff less_trans nat_neq_iff nth_eq_iff_index_eq nth_mem)
    moreover have "nat (order ! n) < length ?f" using Suc assms(2,3) True by simp
    moreover have "fold (restore_order packed order threads) [0..<Suc n] original = ?f[nat (order ! n) := packed ! n]"
      using True by (simp add: restore_order_def)
    ultimately show ?thesis using Suc True by (auto simp: less_Suc_eq)
  next
    case False
    then have "fold (restore_order packed order threads) [0..<Suc n] original = ?f" by (simp add: restore_order_def)
    then show ?thesis using Suc False by auto
  qed
qed simp

lemma restored_order:
  assumes "index_of reference index" "length original = length reference"
  shows "restore_launch (si_points index) (si_original_indices index) (length reference) original = reference"
proof -
  let ?o = "si_original_indices index"
  let ?r = "restore_launch (si_points index) ?o (length reference) original"
  have i: "si_points index = map (\<lambda>i. reference ! nat i) ?o" "mset ?o = mset (map int [0..<length reference])"
    using assms(1) by (simp_all add: index_of_def)
  have order: "set ?o = all_indices reference" "distinct ?o" "length ?o = length reference"
    using index_of_set [OF assms(1)] mset_eq_imp_distinct_iff [OF i(2)] mset_eq_length [OF i(2)] by (simp_all add: distinct_map)
  have "\<forall>p \<in> set ?o. 0 \<le> p \<and> nat p < length original" using order(1) assms(2) by (auto simp: all_indices_def)
  note threads = restore_threads [OF order(2) this order(3) [symmetric], of "si_points index" "launch_blocks (length reference) * kBlockSize"]
  have "?r ! p = reference ! p" if p: "p < length reference" for p
  proof -
    have "int p \<in> set ?o" using order(1) p by (simp add: all_indices_def)
    then obtain i where "i < length ?o" "?o ! i = int p" by (auto simp: in_set_conv_nth)
    then show ?thesis
      using threads launch_covers [of i "length reference"] order(3) i(1) by (auto simp: restore_launch_def)
  qed
  then show ?thesis using threads assms(2) by (intro nth_equalityI) (simp_all add: restore_launch_def)
qed

end
