(* ===== verification/CudaCovariance.thy ===== *)
theory CudaCovariance
  imports CudaEquations
begin

text \<open>
  \<open>backends/cuda/cuda_correspondence.cu\<close>, the covariance of one neighbourhood: the neighbours in index
  order, their mean and scatter matrix, the eigenvectors by at most 48 Jacobi rotations, and the
  regularized covariance. A 3x3 matrix is the list of its 9 entries by rows.
\<close>

subsection \<open>Index order\<close>

text \<open>The inner while loop and the store behind it.\<close>

fun settle :: "int \<Rightarrow> nat \<Rightarrow> int list \<Rightarrow> int list" where
  "settle v 0 ids = ids[0 := v]"
| "settle v (Suc hole) ids = (if v < ids ! hole then settle v hole (ids[Suc hole := ids ! hole]) else ids[Suc hole := v])"

definition sort_ids :: "nat \<Rightarrow> int list \<Rightarrow> int list" where
  "sort_ids k ids = fold (\<lambda>j ids. settle (ids ! j) j ids) [1..<k] ids"

subsection \<open>The scatter matrix\<close>

definition neighborhood_mean :: "Vec3f list \<Rightarrow> nat \<Rightarrow> int list \<Rightarrow> Vec3d" where
  "neighborhood_mean original k ids =
     (let total = fold (\<lambda>j mean. sum_d mean (widen3 (original ! nat (ids ! j)))) [0..<k] Vec3d_zero in
      Vec3 (vx total / of_count k) (vy total / of_count k) (vz total / of_count k))"

definition neighborhood_matrix :: "Vec3f list \<Rightarrow> nat \<Rightarrow> int list \<Rightarrow> f64 list" where
  "neighborhood_matrix original k ids =
     (let mean = neighborhood_mean original k ids in
      fold (\<lambda>j matrix. let p = widen3 (original ! nat (ids ! j)); delta = subtract3 p mean in
          map (\<lambda>(r, c). matrix ! (r * 3 + c) + coordinate delta r * coordinate delta c) (List.product [0..<3] [0..<3]))
        [0..<k] (replicate 9 0))"

subsection \<open>The eigenvectors\<close>

definition copysign_one :: "f64 \<Rightarrow> f64" where
  "copysign_one x = (if sign_bit x then - 1 else 1)"

definition pivot :: "f64 list \<Rightarrow> nat \<times> nat" where
  "pivot m =
     (let (p, q) = (0, 1);
          (p, q) = (if \<bar>m ! (p * 3 + q)\<bar> < \<bar>m!2\<bar> then (0, 2) else (p, q));
          (p, q) = (if \<bar>m ! (p * 3 + q)\<bar> < \<bar>m!5\<bar> then (1, 2) else (p, q))
      in (p, q))"

definition rotate_row :: "nat \<Rightarrow> nat \<Rightarrow> f64 \<Rightarrow> f64 \<Rightarrow> nat \<Rightarrow> f64 list \<times> f64 list \<Rightarrow> f64 list \<times> f64 list" where
  "rotate_row p q c sn r state =
     (let (matrix, vectors) = state;
          matrix = (if r \<noteq> p \<and> r \<noteq> q
            then let rp = matrix ! (r * 3 + p); rq = matrix ! (r * 3 + q); x = c * rp - sn * rq; y = sn * rp + c * rq
                 in matrix[p * 3 + r := x, r * 3 + p := x, q * 3 + r := y, r * 3 + q := y]
            else matrix);
          vp = vectors ! (r * 3 + p); vq = vectors ! (r * 3 + q)
      in (matrix, vectors[r * 3 + p := c * vp - sn * vq, r * 3 + q := sn * vp + c * vq]))"

text \<open>One iteration; \<open>None\<close> where the code breaks.\<close>

definition jacobi_step :: "f64 list \<times> f64 list \<Rightarrow> (f64 list \<times> f64 list) option" where
  "jacobi_step state =
     (let (matrix, vectors) = state; (p, q) = pivot matrix; off = matrix ! (p * 3 + q) in
      if \<bar>off\<bar> \<le> lit (1 / 10 ^ 15) * (\<bar>matrix!0\<bar> + \<bar>matrix!4\<bar> + \<bar>matrix!8\<bar>) then None
      else if feq off 0 then None
      else let tau = (matrix ! (q * 3 + q) - matrix ! (p * 3 + p)) / (lit 2 * off);
               t = copysign_one tau / (\<bar>tau\<bar> + fp_sqrt (1 + tau * tau));
               c = 1 / fp_sqrt (1 + t * t); sn = t * c;
               pp = matrix ! (p * 3 + p); qq = matrix ! (q * 3 + q);
               matrix = matrix[p * 3 + p := pp - t * off, q * 3 + q := qq + t * off, q * 3 + p := 0, p * 3 + q := 0]
           in Some (fold (rotate_row p q c sn) [0..<3] (matrix, vectors)))"

fun jacobi :: "nat \<Rightarrow> f64 list \<times> f64 list \<Rightarrow> f64 list \<times> f64 list" where
  "jacobi 0 state = state"
| "jacobi (Suc n) state = (case jacobi_step state of None \<Rightarrow> state | Some state \<Rightarrow> jacobi n state)"

text \<open>The axes by increasing diagonal entry: the for loops of the insertion.\<close>

fun sink_axis :: "f64 list \<Rightarrow> nat \<Rightarrow> nat list \<Rightarrow> nat list" where
  "sink_axis m 0 order = order"
| "sink_axis m (Suc x) order =
     (if m ! (order ! Suc x * 3 + order ! Suc x) < m ! (order ! x * 3 + order ! x)
      then sink_axis m x (order[Suc x := order ! x, x := order ! Suc x]) else order)"

definition axis_order :: "f64 list \<Rightarrow> nat list" where
  "axis_order m = fold (sink_axis m) [1..<3] [0, 1, 2]"

subsection \<open>The kernel\<close>

text \<open>The covariance of a neighbourhood in index order; \<open>None\<close> for a collinear or coincident one.\<close>

definition neighborhood_covariance :: "Vec3f list \<Rightarrow> nat \<Rightarrow> f64 \<Rightarrow> int list \<Rightarrow> f64 list option" where
  "neighborhood_covariance original k epsilon ids =
     (let (matrix, vectors) = jacobi 48 (neighborhood_matrix original k ids, [1, 0, 0, 0, 1, 0, 0, 0, 1]);
          order = axis_order matrix in
      if \<not> isfinite (matrix!0) \<or> \<not> isfinite (matrix!4) \<or> \<not> isfinite (matrix!8) \<or>
         matrix ! (order ! 1 * 3 + order ! 1) \<le> lit (1 / 10 ^ 12) then None
      else Some (map (\<lambda>(r, c). (if r = c then 1 else 0) +
        (epsilon - 1) * vectors ! (r * 3 + order ! 0) * vectors ! (c * 3 + order ! 0)) (List.product [0..<3] [0..<3])))"

text \<open>One thread: row \<open>i\<close> of the neighbours is sorted in place; the flag \<open>invalid\<close> is set or the output written.\<close>

definition covariance_kernel ::
  "Vec3f list \<Rightarrow> nat \<Rightarrow> nat \<Rightarrow> nat \<Rightarrow> f64 \<Rightarrow> nat \<Rightarrow> int list \<times> f64 list list \<times> int \<Rightarrow> int list \<times> f64 list list \<times> int" where
  "covariance_kernel original offset threads k epsilon i arrays =
     (if threads \<le> i then arrays
      else let (neighbors, out, invalid) = arrays; ids = sort_ids k (row_of k i neighbors);
               neighbors = replace_range (i * k) (i * k + k) ids neighbors in
        case neighborhood_covariance original k epsilon ids of
          None \<Rightarrow> (neighbors, out, 1)
        | Some result \<Rightarrow> (neighbors, out[offset + i := result], invalid))"

definition covariance_launch ::
  "Vec3f list \<Rightarrow> nat \<Rightarrow> nat \<Rightarrow> nat \<Rightarrow> f64 \<Rightarrow> int list \<times> f64 list list \<times> int \<Rightarrow> int list \<times> f64 list list \<times> int" where
  "covariance_launch original offset threads k epsilon arrays =
     fold (covariance_kernel original offset threads k epsilon) [0..<launch_blocks threads * kBlockSize] arrays"

subsection \<open>The order of the neighbours does not matter\<close>

lemma settle_length [simp]: "length (settle v hole ids) = length ids"
  by (induction v hole ids rule: settle.induct) simp_all

lemma same_sorted: "sorted xs \<Longrightarrow> sorted ys \<Longrightarrow> mset xs = mset ys \<Longrightarrow> xs = ys" for xs ys :: "'a::linorder list"
  by (metis properties_for_sort)

lemma insort_snoc:
  "sorted (xs @ [z]) \<Longrightarrow> insort x (xs @ [z]) = (if x < z then insort x xs @ [z] else xs @ [z, x])" for x z :: "'a::linorder"
  by (rule same_sorted) (auto simp: sorted_append sorted_insort set_insort_key dest: order.trans intro: order.trans)

lemma settle_spec:
  assumes "hole < length ids" "sorted (take hole ids)"
  shows "take (Suc hole) (settle v hole ids) = insort v (take hole ids) \<and>
    drop (Suc hole) (settle v hole ids) = drop (Suc hole) ids"
  using assms
proof (induction v hole ids rule: settle.induct)
  case (1 v ids)
  then show ?case by (cases ids) simp_all
next
  case (2 v hole ids)
  let ?z = "ids ! hole"
  have taken: "take (Suc hole) ids = take hole ids @ [?z]" using 2(2) by (simp add: take_Suc_conv_app_nth)
  note insort = insort_snoc [OF 2(3) [unfolded taken], of v, folded taken]
  show ?case
  proof (cases "v < ?z")
    case True
    let ?ids = "ids[Suc hole := ?z]"
    have IH: "take (Suc hole) (settle v hole ?ids) = insort v (take hole ids)"
      "drop (Suc hole) (settle v hole ?ids) = drop (Suc hole) ?ids"
      using 2(1) [OF True] 2(2,3) unfolding taken by (simp_all add: sorted_append)
    have len: "Suc hole < length (settle v hole ?ids)" using 2(2) by simp
    have "settle v hole ?ids ! Suc hole = ?z"
      using arg_cong [OF IH(2), of hd] 2(2) len by (simp add: hd_drop_conv_nth)
    then have "take (Suc (Suc hole)) (settle v hole ?ids) = insort v (take hole ids) @ [?z]"
      using IH(1) len by (simp add: take_Suc_conv_app_nth)
    moreover have "drop (Suc (Suc hole)) (settle v hole ?ids) = drop (Suc (Suc hole)) ids"
      using arg_cong [OF IH(2), of "drop (Suc 0)"] by (simp only: drop_drop drop_update_cancel plus_nat.add_Suc plus_nat.add_0 lessI)
    ultimately show ?thesis using True insort by simp
  next
    case False
    then show ?thesis using 2(2) insort taken by (simp add: take_Suc_conv_app_nth)
  qed
qed

lemma sort_ids_eq:
  assumes "length ids = k"
  shows "sort_ids k ids = sort ids"
proof -
  have steps: "Suc m \<le> k \<Longrightarrow> take (Suc m) (fold (\<lambda>j ids. settle (ids ! j) j ids) [1..<Suc m] ids) = sort (take (Suc m) ids) \<and>
      drop (Suc m) (fold (\<lambda>j ids. settle (ids ! j) j ids) [1..<Suc m] ids) = drop (Suc m) ids \<and>
      length (fold (\<lambda>j ids. settle (ids ! j) j ids) [1..<Suc m] ids) = k" for m
  proof (induction m)
    case 0
    then show ?case using assms by (cases ids) simp_all
  next
    case (Suc m)
    let ?f = "fold (\<lambda>j ids. settle (ids ! j) j ids) [1..<Suc m] ids"
    have IH: "take (Suc m) ?f = sort (take (Suc m) ids)" "drop (Suc m) ?f = drop (Suc m) ids" "length ?f = k" using Suc by simp_all
    have nth: "?f ! Suc m = ids ! Suc m"
      using arg_cong [OF IH(2), of hd] Suc.prems IH(3) assms by (simp add: hd_drop_conv_nth)
    have "take (Suc (Suc m)) ids = take (Suc m) ids @ [ids ! Suc m]" using Suc.prems assms by (simp add: take_Suc_conv_app_nth)
    then have sorted: "insort (ids ! Suc m) (sort (take (Suc m) ids)) = sort (take (Suc (Suc m)) ids)"
      by (intro same_sorted) (simp_all add: sorted_insort)
    have "fold (\<lambda>j ids. settle (ids ! j) j ids) [1..<Suc (Suc m)] ids = settle (?f ! Suc m) (Suc m) ?f" by simp
    moreover have "drop (Suc (Suc m)) ?f = drop (Suc (Suc m)) ids"
      using arg_cong [OF IH(2), of "drop (Suc 0)"] by (simp only: drop_drop plus_nat.add_Suc plus_nat.add_0)
    moreover have "sorted (take (Suc m) ?f)" "Suc m < length ?f" using IH Suc.prems by simp_all
    note settle_spec [OF this(2,1), of "?f ! Suc m"]
    ultimately show ?case unfolding nth IH(1) sorted using IH(3) by simp
  qed
  show ?thesis
  proof (cases k)
    case (Suc m)
    note last = steps [of m, folded Suc, OF order_refl]
    then have "length (sort_ids k ids) = k" "take k (sort_ids k ids) = sort (take k ids)" by (simp_all add: sort_ids_def)
    then show ?thesis using assms by simp
  qed (use assms in \<open>simp add: sort_ids_def\<close>)
qed


subsection \<open>The scatter matrix is that of the CPU\<close>

lemma fold_indices: "length xs = k \<Longrightarrow> fold (\<lambda>j. f (xs ! j)) [0..<k] acc = fold f xs acc"
proof (induction xs arbitrary: k rule: rev_induct)
  case (snoc x xs)
  have "fold (\<lambda>j. f ((xs @ [x]) ! j)) [0..<length xs] acc = fold (\<lambda>j. f (xs ! j)) [0..<length xs] acc"
    by (rule fold_cong) (simp_all add: nth_append)
  with snoc show ?case by (auto simp: nth_append)
qed simp

lemma scatter_step:
  assumes "length acc = 9"
  shows "map (\<lambda>(r, c). acc ! (r * 3 + c) + coordinate d r * coordinate d c) (List.product [0..<3] [0..<3]) =
    map2 (+) acc [vx d * vx d, vx d * vy d, vx d * vz d, vy d * vx d, vy d * vy d, vy d * vz d, vz d * vx d, vz d * vy d, vz d * vz d]"
proof -
  obtain a b c d' e f g h i where "acc = [a, b, c, d', e, f, g, h, i]"
    using assms by (auto simp: eval_nat_numeral length_Suc_conv)
  then show ?thesis by (simp add: upt_rec coordinate_def)
qed

lemma neighborhood_matrix_eq:
  assumes "length ids = k"
  shows "neighborhood_matrix original k ids = scatter_matrix (map (\<lambda>i. widen3 (original ! nat i)) ids)"
proof -
  have mean: "neighborhood_mean original k ids = (let ps = map (\<lambda>i. widen3 (original ! nat i)) ids; n = of_count (length ps);
      total = fold (\<lambda>p acc. sum_d acc p) ps Vec3d_zero in Vec3 (vx total / n) (vy total / n) (vz total / n))"
    using fold_indices [OF assms, of "\<lambda>i mean. sum_d mean (widen3 (original ! nat i))"] assms
    by (simp add: neighborhood_mean_def fold_map comp_def Let_def)
  let ?g = "\<lambda>mean p acc. let d = subtract3 p mean in
      map2 (+) acc [vx d * vx d, vx d * vy d, vx d * vz d, vy d * vx d, vy d * vy d, vy d * vz d, vz d * vx d, vz d * vy d, vz d * vz d]"
  have step: "fold (\<lambda>i acc. map (\<lambda>(r, c). acc ! (r * 3 + c) + coordinate (subtract3 (widen3 (original ! nat i)) mean) r *
          coordinate (subtract3 (widen3 (original ! nat i)) mean) c) (List.product [0..<3] [0..<3])) ids acc =
      fold (?g mean) (map (\<lambda>i. widen3 (original ! nat i)) ids) acc" if "length acc = 9" for mean acc ids
    using that
  proof (induction ids arbitrary: acc)
    case (Cons i ids)
    then show ?case using scatter_step [OF Cons.prems, of "subtract3 (widen3 (original ! nat i)) mean"] by (simp add: Let_def)
  qed simp
  let ?m = "neighborhood_mean original k ids"
  have "neighborhood_matrix original k ids = fold (\<lambda>i acc. map (\<lambda>(r, c). acc ! (r * 3 + c) +
      coordinate (subtract3 (widen3 (original ! nat i)) ?m) r * coordinate (subtract3 (widen3 (original ! nat i)) ?m) c)
      (List.product [0..<3] [0..<3])) ids (replicate 9 0)"
    unfolding neighborhood_matrix_def Let_def
    by (rule fold_indices [OF assms, where f = "\<lambda>i acc. map (\<lambda>(r, c). acc ! (r * 3 + c) +
      coordinate (subtract3 (widen3 (original ! nat i)) ?m) r * coordinate (subtract3 (widen3 (original ! nat i)) ?m) c)
      (List.product [0..<3] [0..<3])"])
  also have "\<dots> = fold (?g ?m) (map (\<lambda>i. widen3 (original ! nat i)) ids) (replicate 9 0)"
    by (rule step) simp
  also have "\<dots> = scatter_matrix (map (\<lambda>i. widen3 (original ! nat i)) ids)"
    unfolding scatter_matrix_def mean Let_def by (rule refl)
  finally show ?thesis .
qed

subsection \<open>A launch\<close>

lemma covariance_threads:
  assumes "threads * k \<le> length neighbors" "offset + threads \<le> length out"
  shows "\<exists>neighbors' out' invalid'. fold (covariance_kernel original offset threads k epsilon) [0..<n] (neighbors, out, invalid) =
      (neighbors', out', invalid') \<and> length neighbors' = length neighbors \<and> length out' = length out \<and>
    (\<forall>i. n \<le> i \<and> i < threads \<longrightarrow> row_of k i neighbors' = row_of k i neighbors) \<and>
    (\<forall>j < length out. \<not> (offset \<le> j \<and> j < offset + min n threads) \<longrightarrow> out' ! j = out ! j) \<and>
    (\<forall>i < min n threads. \<forall>c. neighborhood_covariance original k epsilon (sort (row_of k i neighbors)) = Some c \<longrightarrow>
       out' ! (offset + i) = c) \<and>
    invalid' = (if \<exists>i < min n threads. neighborhood_covariance original k epsilon (sort (row_of k i neighbors)) = None then 1 else invalid)"
proof (induction n)
  case (Suc n)
  let ?cov = "\<lambda>i. neighborhood_covariance original k epsilon (sort (row_of k i neighbors))"
  obtain nb ou inv where IH: "fold (covariance_kernel original offset threads k epsilon) [0..<n] (neighbors, out, invalid) = (nb, ou, inv)"
    "length nb = length neighbors" "length ou = length out" "\<forall>i. n \<le> i \<and> i < threads \<longrightarrow> row_of k i nb = row_of k i neighbors"
    "\<forall>j < length out. \<not> (offset \<le> j \<and> j < offset + min n threads) \<longrightarrow> ou ! j = out ! j"
    "\<forall>i < min n threads. \<forall>c. ?cov i = Some c \<longrightarrow> ou ! (offset + i) = c"
    "inv = (if \<exists>i < min n threads. ?cov i = None then 1 else invalid)" using Suc.IH by blast
  show ?case
  proof (cases "n < threads")
    case False
    then have "covariance_kernel original offset threads k epsilon n (nb, ou, inv) = (nb, ou, inv)" "min (Suc n) threads = min n threads"
      by (simp_all add: covariance_kernel_def)
    then show ?thesis using IH False by simp
  next
    case True
    have room: "n * k + k \<le> length nb" using row_end [OF True, of k] assms(1) IH(2) by simp
    have ids: "sort_ids k (row_of k n nb) = sort (row_of k n neighbors)"
      using sort_ids_eq [OF length_row_of [OF room]] IH(4) True by simp
    let ?nb = "replace_range (n * k) (n * k + k) (sort (row_of k n neighbors)) nb"
    have seg: "length (sort (row_of k n neighbors)) = k" using length_row_of [of n k neighbors] room IH(2) by simp
    have rows: "length ?nb = length neighbors" "\<forall>i. Suc n \<le> i \<and> i < threads \<longrightarrow> row_of k i ?nb = row_of k i neighbors"
      using row_of_replaced [OF room seg] IH(2,4) room seg by auto
    have min: "min (Suc n) threads = Suc n" "min n threads = n" using True by simp_all
    show ?thesis
    proof (cases "?cov n")
      case None
      then have "covariance_kernel original offset threads k epsilon n (nb, ou, inv) = (?nb, ou, 1)"
        using True ids by (simp add: covariance_kernel_def Let_def)
      then show ?thesis using IH rows None unfolding min by (auto simp: less_Suc_eq)
    next
      case (Some c)
      then have "covariance_kernel original offset threads k epsilon n (nb, ou, inv) = (?nb, ou[offset + n := c], inv)"
        using True ids by (simp add: covariance_kernel_def Let_def)
      moreover have "ou[offset + n := c] ! (offset + i) = c'" if "i < Suc n" "?cov i = Some c'" for i c'
        using that IH(3,6) True Some assms(2) unfolding min by (auto simp: less_Suc_eq nth_list_update)
      moreover have "inv = (if \<exists>i < Suc n. ?cov i = None then 1 else invalid)"
        using IH(7) Some unfolding min by (auto simp: less_Suc_eq)
      moreover have "\<forall>j < length out. \<not> (offset \<le> j \<and> j < offset + Suc n) \<longrightarrow> ou[offset + n := c] ! j = out ! j"
        using IH(5) unfolding min by (auto simp: nth_list_update)
      ultimately show ?thesis using IH(1,3) rows unfolding min by simp
    qed
  qed
qed simp

end
