(* ===== verification/CudaHost.thy ===== *)
theory CudaHost
  imports CudaCovariance
begin

text \<open>
  \<open>backends/cuda/cuda_correspondence.cu\<close>, the class \<open>CorrespondenceSearch\<close>: the device arrays of one
  registration and the operations on them. The CUDA runtime is a parameter: the n-th call whose status
  the code reads succeeds or fails with an error text. A failing call throws; what the code does while
  unwinding (draining the stream, freeing memory) ignores every status and is not counted. An array
  returned by \<open>cudaMalloc\<close> holds values the parameter gives; a null pointer is \<open>None\<close>. A copy to
  the device that fails, at its start or at the synchronization after it, leaves the part of the array it
  addresses with any values the parameter gives. The equation buffers are not part of the state: every
  evaluation writes them before it reads them.
\<close>

subsection \<open>The runtime and the state\<close>

record gpu =
  gpu_call :: "nat \<Rightarrow> string option"
  gpu_device :: "nat \<Rightarrow> int"
  gpu_point :: "nat \<Rightarrow> nat \<Rightarrow> Vec3f"
  gpu_vector :: "nat \<Rightarrow> nat \<Rightarrow> Vec3d"
  gpu_index :: "nat \<Rightarrow> nat \<Rightarrow> int"
  gpu_number :: "nat \<Rightarrow> nat \<Rightarrow> f64"
  gpu_matrix :: "nat \<Rightarrow> nat \<Rightarrow> f64 list"
  gpu_shared :: "Vec3f list"

record TransferStatistics =
  ts_host_to_device_bytes :: nat
  ts_device_to_host_bytes :: nat
  ts_equation_evaluations :: nat

datatype SearchStrategy = strategy_indexed | strategy_tiled

text \<open>\<open>'s\<close> is the type of the nested search of the scan: a search that has none of its own.\<close>

record 's Impl =
  im_transfers :: TransferStatistics
  im_reference :: "Vec3f list"
  im_queries :: "Vec3f list"
  im_original_reference :: "Vec3f list option"
  im_reference_normals :: "Vec3d list option"
  im_scan :: "Vec3d list option"
  im_scan_normals :: "Vec3d list option"
  im_transformed :: "Vec3d list option"
  im_scan_count :: nat
  im_has_scan_normals :: bool
  im_resident :: bool
  im_covariances :: "f64 list list option"
  im_knn_indices :: "int list option"
  im_knn_distances :: "f64 list option"
  im_invalid_covariance :: "int option"
  im_knn_capacity :: nat
  im_covariance_neighbors :: nat
  im_covariance_epsilon :: f64
  im_scan_search :: "'s option"
  im_nodes :: "SpatialNode list"
  im_original_indices :: "int list"
  im_strategy :: SearchStrategy
  im_indices :: "int list"
  im_capacity :: nat
  im_device :: int

type_synonym ScanSearch = "unit Impl"
type_synonym CorrespondenceSearch = "ScanSearch Impl"

text \<open>
  An operation: from a state and the number of calls made so far to the outcome, the state and the
  number of calls; \<open>None\<close> for undefined behaviour or a kernel that never ends.
\<close>

type_synonym ('s, 'a) cuda = "'s Impl \<Rightarrow> nat \<Rightarrow> ((exn + 'a) \<times> 's Impl \<times> nat) option"

definition cuda_return :: "'a \<Rightarrow> ('s, 'a) cuda" where
  "cuda_return a = (\<lambda>st n. Some (Inr a, st, n))"

definition cuda_throw :: "exn \<Rightarrow> ('s, 'a) cuda" where
  "cuda_throw e = (\<lambda>st n. Some (Inl e, st, n))"

definition cuda_bind :: "('s, 'a) cuda \<Rightarrow> ('a \<Rightarrow> ('s, 'b) cuda) \<Rightarrow> ('s, 'b) cuda" where
  "cuda_bind m f = (\<lambda>st n. case m st n of
     None \<Rightarrow> None | Some (Inl e, st', n') \<Rightarrow> Some (Inl e, st', n') | Some (Inr a, st', n') \<Rightarrow> f a st' n')"

definition cuda_get :: "('s, 's Impl) cuda" where
  "cuda_get = (\<lambda>st n. Some (Inr st, st, n))"

definition cuda_update :: "('s Impl \<Rightarrow> 's Impl) \<Rightarrow> ('s, unit) cuda" where
  "cuda_update f = (\<lambda>st n. Some (Inr (), f st, n))"

definition cuda_require :: "bool \<Rightarrow> exn \<Rightarrow> ('s, unit) cuda" where
  "cuda_require b e = (if b then cuda_return () else cuda_throw e)"

definition cuda_defined :: "'a option \<Rightarrow> ('s, 'a) cuda" where
  "cuda_defined x = (\<lambda>st n. map_option (\<lambda>a. (Inr a, st, n)) x)"

text \<open>\<open>checked\<close> on the next call; its number identifies what the call returns besides the status.\<close>

definition checked :: "gpu \<Rightarrow> string \<Rightarrow> ('s, nat) cuda" where
  "checked gpu operation = (\<lambda>st n. Some (case gpu_call gpu n of
     None \<Rightarrow> Inr n | Some status \<Rightarrow> Inl (exn_other (operation @ '': '' @ status)), st, Suc n))"

text \<open>\<open>checked\<close> on a call that writes device memory: when it fails, \<open>lost\<close> says what is left there.\<close>

definition transferred :: "gpu \<Rightarrow> string \<Rightarrow> (nat \<Rightarrow> 's Impl \<Rightarrow> 's Impl) \<Rightarrow> ('s, nat) cuda" where
  "transferred gpu operation lost = (\<lambda>st n. case gpu_call gpu n of
     None \<Rightarrow> Some (Inr n, st, Suc n)
   | Some status \<Rightarrow> Some (Inl (exn_other (operation @ '': '' @ status)), lost n st, Suc n))"

definition fresh :: "(nat \<Rightarrow> nat \<Rightarrow> 'a) \<Rightarrow> nat \<Rightarrow> nat \<Rightarrow> 'a list" where
  "fresh contents call len = map (contents call) [0..<len]"

definition store :: "'a list \<Rightarrow> 'a list \<Rightarrow> 'a list" where
  "store xs buffer = xs @ drop (length xs) buffer"

definition host_to_device :: "nat \<Rightarrow> ('s, unit) cuda" where
  "host_to_device bytes = cuda_update (\<lambda>st. st\<lparr>im_transfers := im_transfers st
     \<lparr>ts_host_to_device_bytes := ts_host_to_device_bytes (im_transfers st) + bytes\<rparr>\<rparr>)"

definition device_to_host :: "nat \<Rightarrow> ('s, unit) cuda" where
  "device_to_host bytes = cuda_update (\<lambda>st. st\<lparr>im_transfers := im_transfers st
     \<lparr>ts_device_to_host_bytes := ts_device_to_host_bytes (im_transfers st) + bytes\<rparr>\<rparr>)"

definition same_device :: "gpu \<Rightarrow> ('s, unit) cuda" where
  "same_device gpu = cuda_bind (checked gpu ''cudaGetDevice'') (\<lambda>call. cuda_bind cuda_get (\<lambda>st.
     cuda_require (gpu_device gpu call = im_device st) (exn_other ''CUDA device changed during registration'')))"

definition sizeof_point :: nat where "sizeof_point = 12"
definition sizeof_vector :: nat where "sizeof_vector = 24"
definition sizeof_index :: nat where "sizeof_index = 4"
definition sizeof_node :: nat where "sizeof_node = 40"
definition sizeof_covariance :: nat where "sizeof_covariance = 72"
definition sizeof_equation :: nat where "sizeof_equation = 360"

subsection \<open>Construction\<close>

definition no_transfers :: TransferStatistics where
  "no_transfers = \<lparr>ts_host_to_device_bytes = 0, ts_device_to_host_bytes = 0, ts_equation_evaluations = 0\<rparr>"

definition empty_impl :: "SearchStrategy \<Rightarrow> nat \<Rightarrow> 's Impl" where
  "empty_impl strategy query_capacity = \<lparr>im_transfers = no_transfers, im_reference = [], im_queries = [],
     im_original_reference = None, im_reference_normals = None, im_scan = None, im_scan_normals = None,
     im_transformed = None, im_scan_count = 0, im_has_scan_normals = False, im_resident = False,
     im_covariances = None, im_knn_indices = None, im_knn_distances = None, im_invalid_covariance = None,
     im_knn_capacity = 0, im_covariance_neighbors = 0, im_covariance_epsilon = 0, im_scan_search = None,
     im_nodes = [], im_original_indices = [], im_strategy = strategy, im_indices = [],
     im_capacity = query_capacity, im_device = 0\<rparr>"

definition upload_reference :: "gpu \<Rightarrow> SpatialIndex \<Rightarrow> nat \<Rightarrow> SearchStrategy \<Rightarrow> Vec3f list \<Rightarrow> ('s, unit) cuda" where
  "upload_reference gpu index query_capacity strategy packed =
     cuda_bind (checked gpu ''cudaGetDevice'') (\<lambda>call.
     cuda_bind (cuda_update (\<lambda>st. st\<lparr>im_device := gpu_device gpu call\<rparr>)) (\<lambda>_.
     cuda_bind (checked gpu ''cudaStreamCreate'') (\<lambda>_.
     cuda_bind (checked gpu ''reference allocation'') (\<lambda>_.
     cuda_bind (checked gpu ''query allocation'') (\<lambda>call.
     cuda_bind (cuda_update (\<lambda>st. st\<lparr>im_queries := fresh (gpu_point gpu) call query_capacity\<rparr>)) (\<lambda>_.
     cuda_bind (checked gpu ''index allocation'') (\<lambda>call.
     cuda_bind (cuda_update (\<lambda>st. st\<lparr>im_indices := fresh (gpu_index gpu) call query_capacity\<rparr>)) (\<lambda>_.
     cuda_bind (checked gpu ''reference upload'') (\<lambda>_.
     cuda_bind (cuda_update (\<lambda>st. st\<lparr>im_reference := packed\<rparr>)) (\<lambda>_.
     cuda_bind (host_to_device (length packed * sizeof_point)) (\<lambda>_.
     cuda_bind (if strategy = strategy_indexed
       then cuda_bind (checked gpu ''node allocation'') (\<lambda>_.
            cuda_bind (checked gpu ''original index allocation'') (\<lambda>_.
            cuda_bind (checked gpu ''node upload'') (\<lambda>_.
            cuda_bind (cuda_update (\<lambda>st. st\<lparr>im_nodes := si_nodes index\<rparr>)) (\<lambda>_.
            cuda_bind (host_to_device (length (si_nodes index) * sizeof_node)) (\<lambda>_.
            cuda_bind (checked gpu ''original index upload'') (\<lambda>_.
            cuda_bind (cuda_update (\<lambda>st. st\<lparr>im_original_indices := si_original_indices index\<rparr>)) (\<lambda>_.
            host_to_device (length (si_original_indices index) * sizeof_index))))))))
       else cuda_return ()) (\<lambda>_.
     cuda_bind (checked gpu ''reference synchronization'') (\<lambda>_. cuda_return ())))))))))))))"

definition CorrespondenceSearch_create ::
  "gpu \<Rightarrow> nth_element \<Rightarrow> Vec3f list \<Rightarrow> nat \<Rightarrow> SearchStrategy \<Rightarrow> nat \<Rightarrow> ((exn + 's Impl) \<times> nat) option" where
  "CorrespondenceSearch_create gpu nth_elem reference query_capacity strategy n =
     (if reference = [] \<or> query_capacity = 0 \<or> int32_max < int (length reference) \<or> int32_max < int query_capacity
      then Some (Inl (exn_other ''CUDA correspondence size is unsupported''), n)
      else if \<not> list_all is_finite3 reference
      then Some (Inl (exn_invalid_argument ''CUDA reference coordinates must be finite''), n)
      else case (if strategy = strategy_indexed then build_spatial_index nth_elem reference
                 else Inr \<lparr>si_points = [], si_original_indices = [], si_nodes = []\<rparr>) of
        Inl e \<Rightarrow> Some (Inl e, n)
      | Inr index \<Rightarrow>
          let packed = (if strategy = strategy_indexed then si_points index else reference) in
          map_option (\<lambda>(outcome, st, n). (case outcome of Inl e \<Rightarrow> Inl e | Inr _ \<Rightarrow> Inr st, n))
            (upload_reference gpu index query_capacity strategy packed (empty_impl strategy query_capacity) n))"


subsection \<open>Correspondences\<close>

text \<open>The launch of the search kernel of the strategy on the first \<open>threads\<close> queries.\<close>

definition search_launch :: "gpu \<Rightarrow> nat \<Rightarrow> f64 \<Rightarrow> 's Impl \<Rightarrow> 's Impl option" where
  "search_launch gpu threads bound st =
     (let queries = take threads (im_queries st) in
      map_option (\<lambda>indices. st\<lparr>im_indices := indices\<rparr>)
        (if im_strategy st = strategy_indexed
         then indexed_nearest_kernel (im_reference st) (im_original_indices st) (im_nodes st) queries bound (im_indices st)
         else Some (nearest_kernel (im_reference st) queries bound (gpu_shared gpu) (im_indices st))))"

definition cuda_launch :: "('s Impl \<Rightarrow> 's Impl option) \<Rightarrow> ('s, unit) cuda" where
  "cuda_launch f = (\<lambda>st n. map_option (\<lambda>st. (Inr (), st, n)) (f st))"

text \<open>The content that \<open>result\<close> is given; \<open>query\<close> passes an empty vector and returns it.\<close>

definition query_into :: "gpu \<Rightarrow> Vec3f list \<Rightarrow> f64 \<Rightarrow> ('s, int list) cuda" where
  "query_into gpu points max_distance_mm = cuda_bind cuda_get (\<lambda>st.
     cuda_bind (cuda_require (length points \<le> im_capacity st) (exn_other ''CUDA query capacity exceeded'')) (\<lambda>_.
     cuda_bind (cuda_require (\<not> (\<not> isfinite max_distance_mm \<or> max_distance_mm < 0))
       (exn_invalid_argument ''CUDA query radius must be finite and nonnegative'')) (\<lambda>_.
     cuda_bind (cuda_require (list_all is_finite3 points)
       (exn_invalid_argument ''CUDA query coordinates must be finite'')) (\<lambda>_.
     cuda_bind (same_device gpu) (\<lambda>_.
     if points = [] then cuda_return []
     else cuda_bind (transferred gpu ''query upload'' (\<lambda>call st.
            st\<lparr>im_queries := store (fresh (gpu_point gpu) call (length points)) (im_queries st)\<rparr>)) (\<lambda>_.
          cuda_bind (cuda_update (\<lambda>st. st\<lparr>im_queries := store points (im_queries st)\<rparr>)) (\<lambda>_.
          cuda_bind (host_to_device (length points * sizeof_point)) (\<lambda>_.
          cuda_bind (checked gpu ''nearest kernel launch'') (\<lambda>_.
          cuda_bind (cuda_launch (search_launch gpu (length points) (max_distance_mm * max_distance_mm))) (\<lambda>_.
          cuda_bind (checked gpu ''index download'') (\<lambda>_.
          cuda_bind (device_to_host (length points * sizeof_index)) (\<lambda>_.
          cuda_bind (checked gpu ''nearest kernel completion'') (\<lambda>_.
          cuda_bind cuda_get (\<lambda>st. cuda_return (take (length points) (im_indices st))))))))))))))))"

subsection \<open>Resident workspace\<close>

definition restore_on_device :: "'s Impl \<Rightarrow> 's Impl option" where
  "restore_on_device st = map_option (\<lambda>original. st\<lparr>im_original_reference :=
     Some (restore_launch (im_reference st) (im_original_indices st) (length (im_reference st)) original)\<rparr>) (im_original_reference st)"

definition prepare_resident :: "gpu \<Rightarrow> Vec3d list \<Rightarrow> ('s, unit) cuda" where
  "prepare_resident gpu normals = cuda_bind cuda_get (\<lambda>st. let len = length (im_reference st) in
     cuda_bind (cuda_require (\<not> (im_resident st \<or> im_scan st \<noteq> None \<or> im_reference_normals st \<noteq> None \<or> im_original_reference st \<noteq> None))
       (exn_invalid_argument ''resident workspace already prepared'')) (\<lambda>_.
     cuda_bind (cuda_require (\<not> (normals \<noteq> [] \<and> length normals \<noteq> len))
       (exn_invalid_argument ''reference normal size mismatch'')) (\<lambda>_.
     cuda_bind (checked gpu ''original reference allocation'') (\<lambda>call.
     cuda_bind (cuda_update (\<lambda>st. st\<lparr>im_original_reference := Some (fresh (gpu_point gpu) call len)\<rparr>)) (\<lambda>_.
     cuda_bind (if im_strategy st = strategy_indexed
       then cuda_bind (checked gpu ''original order launch'') (\<lambda>_. cuda_launch restore_on_device)
       else cuda_bind (checked gpu ''original reference copy'') (\<lambda>_.
            cuda_update (\<lambda>st. st\<lparr>im_original_reference := Some (im_reference st)\<rparr>))) (\<lambda>_.
     cuda_bind (if normals \<noteq> []
       then cuda_bind (checked gpu ''reference normals allocation'') (\<lambda>call.
            cuda_bind (cuda_update (\<lambda>st. st\<lparr>im_reference_normals := Some (fresh (gpu_vector gpu) call len)\<rparr>)) (\<lambda>_.
            cuda_bind (transferred gpu ''reference normals upload'' (\<lambda>call st.
              st\<lparr>im_reference_normals := Some (fresh (gpu_vector gpu) call len)\<rparr>)) (\<lambda>_.
            cuda_bind (cuda_update (\<lambda>st. st\<lparr>im_reference_normals := Some normals\<rparr>)) (\<lambda>_.
            host_to_device (length normals * sizeof_vector)))))
       else cuda_return ()) (\<lambda>_.
     cuda_bind (checked gpu ''scan allocation'') (\<lambda>call.
     cuda_bind (cuda_update (\<lambda>st. st\<lparr>im_scan := Some (fresh (gpu_vector gpu) call (im_capacity st))\<rparr>)) (\<lambda>_.
     cuda_bind (checked gpu ''scan normal allocation'') (\<lambda>call.
     cuda_bind (cuda_update (\<lambda>st. st\<lparr>im_scan_normals := Some (fresh (gpu_vector gpu) call (im_capacity st))\<rparr>)) (\<lambda>_.
     cuda_bind (checked gpu ''transform allocation'') (\<lambda>call.
     cuda_bind (cuda_update (\<lambda>st. st\<lparr>im_transformed := Some (fresh (gpu_vector gpu) call (im_capacity st))\<rparr>)) (\<lambda>_.
     cuda_bind (checked gpu ''equation blocks allocation'') (\<lambda>_.
     cuda_bind (checked gpu ''equation allocation'') (\<lambda>_.
     cuda_bind (checked gpu ''resident preparation'') (\<lambda>_.
     cuda_update (\<lambda>st. st\<lparr>im_resident := True\<rparr>)))))))))))))))))"

subsection \<open>Neighbours of the reference\<close>

definition knn_batch :: nat where "knn_batch = 16384"

definition prepare_knn :: "gpu \<Rightarrow> nat \<Rightarrow> ('s, unit) cuda" where
  "prepare_knn gpu k = cuda_bind cuda_get (\<lambda>st. let len = length (im_reference st) in
     cuda_bind (cuda_require (\<not> (\<not> im_resident st \<or> im_strategy st \<noteq> strategy_indexed \<or> k = 0 \<or> 1024 < k \<or> len < k))
       (exn_invalid_argument ''invalid KNN neighborhood'')) (\<lambda>_.
     if k \<le> im_knn_capacity st then cuda_return ()
     else cuda_bind (checked gpu ''KNN resize'') (\<lambda>_.
          cuda_bind (cuda_update (\<lambda>st. st\<lparr>im_knn_indices := None\<rparr>)) (\<lambda>_.
          cuda_bind (checked gpu ''KNN resize'') (\<lambda>_.
          cuda_bind (cuda_update (\<lambda>st. st\<lparr>im_knn_distances := None, im_knn_capacity := 0\<rparr>)) (\<lambda>_.
          cuda_bind (checked gpu ''KNN indices allocation'') (\<lambda>call.
          cuda_bind (cuda_update (\<lambda>st. st\<lparr>im_knn_indices := Some (fresh (gpu_index gpu) call (min len knn_batch * k))\<rparr>)) (\<lambda>_.
          cuda_bind (checked gpu ''KNN distance allocation'') (\<lambda>call.
          cuda_update (\<lambda>st. st\<lparr>im_knn_distances := Some (fresh (gpu_number gpu) call (min len knn_batch * k)),
            im_knn_capacity := k\<rparr>))))))))))"

definition knn_on_device :: "nat \<Rightarrow> nat \<Rightarrow> nat \<Rightarrow> 's Impl \<Rightarrow> 's Impl option" where
  "knn_on_device offset threads k st =
     Option.bind (im_original_reference st) (\<lambda>original. Option.bind (im_knn_indices st) (\<lambda>neighbors. Option.bind (im_knn_distances st) (\<lambda>distances.
     map_option (\<lambda>(neighbors, distances). st\<lparr>im_knn_indices := Some neighbors, im_knn_distances := Some distances\<rparr>)
       (exact_knn_launch (im_reference st) (im_original_indices st) (im_nodes st) original offset threads k (neighbors, distances)))))"

text \<open>The for loop of \<open>knn\<close> from \<open>offset\<close> on; \<open>len\<close> is the number of reference points.\<close>

function knn_loop_host :: "gpu \<Rightarrow> nat \<Rightarrow> nat \<Rightarrow> nat \<Rightarrow> int list \<Rightarrow> ('s, int list) cuda" where
  "knn_loop_host gpu len k offset result =
     (if offset < len
      then let threads = min knn_batch (len - offset) in
        cuda_bind (checked gpu ''exact KNN launch'') (\<lambda>_.
        cuda_bind (cuda_launch (knn_on_device offset threads k)) (\<lambda>_.
        cuda_bind (checked gpu ''KNN oracle download'') (\<lambda>_.
        cuda_bind cuda_get (\<lambda>st.
        cuda_bind (cuda_defined (im_knn_indices st)) (\<lambda>indices.
        cuda_bind (device_to_host (threads * k * sizeof_index)) (\<lambda>_.
        cuda_bind (checked gpu ''KNN completion'') (\<lambda>_.
        knn_loop_host gpu len k (offset + knn_batch)
          (replace_range (offset * k) (offset * k + threads * k) (take (threads * k) indices) result))))))))
      else cuda_return result)"
  by pat_completeness auto
termination
  by (relation "measure (\<lambda>(gpu, len, k, offset, result). len - offset)") (auto simp: knn_batch_def)

declare knn_loop_host.simps [simp del]

definition knn :: "gpu \<Rightarrow> nat \<Rightarrow> ('s, int list) cuda" where
  "knn gpu k = cuda_bind (prepare_knn gpu k) (\<lambda>_. cuda_bind cuda_get (\<lambda>st.
     knn_loop_host gpu (length (im_reference st)) k 0 (replicate (length (im_reference st) * k) 0)))"


subsection \<open>Covariances\<close>

definition covariance_on_device :: "nat \<Rightarrow> nat \<Rightarrow> nat \<Rightarrow> f64 \<Rightarrow> 's Impl \<Rightarrow> 's Impl option" where
  "covariance_on_device offset threads k epsilon st =
     Option.bind (im_original_reference st) (\<lambda>original. Option.bind (im_knn_indices st) (\<lambda>neighbors.
     Option.bind (im_covariances st) (\<lambda>covariances. Option.bind (im_invalid_covariance st) (\<lambda>invalid.
     let (neighbors, covariances, invalid) = covariance_launch original offset threads k epsilon (neighbors, covariances, invalid) in
     Some (st\<lparr>im_knn_indices := Some neighbors, im_covariances := Some covariances, im_invalid_covariance := Some invalid\<rparr>)))))"

text \<open>The for loop of \<open>prepare_gicp\<close> from \<open>offset\<close> on.\<close>

function covariance_loop :: "gpu \<Rightarrow> nat \<Rightarrow> nat \<Rightarrow> f64 \<Rightarrow> nat \<Rightarrow> ('s, unit) cuda" where
  "covariance_loop gpu len k epsilon offset =
     (if offset < len
      then let threads = min knn_batch (len - offset) in
        cuda_bind (checked gpu ''covariance KNN launch'') (\<lambda>_.
        cuda_bind (cuda_launch (knn_on_device offset threads k)) (\<lambda>_.
        cuda_bind (checked gpu ''covariance launch'') (\<lambda>_.
        cuda_bind (cuda_launch (covariance_on_device offset threads k epsilon)) (\<lambda>_.
        covariance_loop gpu len k epsilon (offset + knn_batch)))))
      else cuda_return ())"
  by pat_completeness auto
termination
  by (relation "measure (\<lambda>(gpu, len, k, epsilon, offset). len - offset)") (auto simp: knn_batch_def)

declare covariance_loop.simps [simp del]

text \<open>The validity flag comes back; then the settings are recorded.\<close>

definition finish_gicp :: "gpu \<Rightarrow> nat \<Rightarrow> f64 \<Rightarrow> ('s, unit) cuda" where
  "finish_gicp gpu k epsilon =
     cuda_bind (checked gpu ''covariance validity download'') (\<lambda>_.
     cuda_bind cuda_get (\<lambda>st.
     cuda_bind (cuda_defined (im_invalid_covariance st)) (\<lambda>invalid.
     cuda_bind (device_to_host sizeof_index) (\<lambda>_.
     cuda_bind (checked gpu ''covariance completion'') (\<lambda>_.
     cuda_bind (cuda_require (invalid = 0)
       (exn_invalid_argument ''GICP covariance neighborhood is collinear or coincident'')) (\<lambda>_.
     cuda_update (\<lambda>st. st\<lparr>im_covariance_neighbors := k, im_covariance_epsilon := epsilon\<rparr>)))))))"

text \<open>The output array and the flag, allocated once, and the reset of the flag.\<close>

definition gicp_buffers :: "gpu \<Rightarrow> ('s, unit) cuda" where
  "gicp_buffers gpu = cuda_bind cuda_get (\<lambda>st.
     cuda_bind (if im_covariances st = None
       then cuda_bind (checked gpu ''covariance allocation'') (\<lambda>call.
            cuda_update (\<lambda>st. st\<lparr>im_covariances := Some (fresh (gpu_matrix gpu) call (length (im_reference st)))\<rparr>))
       else cuda_return ()) (\<lambda>_.
     cuda_bind (if im_invalid_covariance st = None
       then cuda_bind (checked gpu ''covariance flag allocation'') (\<lambda>call.
            cuda_update (\<lambda>st. st\<lparr>im_invalid_covariance := Some (gpu_index gpu call 0)\<rparr>))
       else cuda_return ()) (\<lambda>_.
     cuda_bind (transferred gpu ''covariance flag reset'' (\<lambda>call st.
       st\<lparr>im_invalid_covariance := Some (gpu_index gpu call 0)\<rparr>)) (\<lambda>_.
     cuda_update (\<lambda>st. st\<lparr>im_invalid_covariance := Some 0\<rparr>)))))"

definition prepare_gicp :: "gpu \<Rightarrow> nat \<Rightarrow> f64 \<Rightarrow> ('s, unit) cuda" where
  "prepare_gicp gpu k epsilon = cuda_bind cuda_get (\<lambda>st.
     cuda_bind (cuda_require (\<not> (k < 3 \<or> \<not> isfinite epsilon \<or> epsilon \<le> 0 \<or> 1 < epsilon \<or> im_covariance_neighbors st \<noteq> 0))
       (exn_invalid_argument ''invalid covariance settings'')) (\<lambda>_.
     cuda_bind (prepare_knn gpu k) (\<lambda>_.
     cuda_bind (gicp_buffers gpu) (\<lambda>_.
     cuda_bind (covariance_loop gpu (length (im_reference st)) k epsilon 0) (\<lambda>_.
     finish_gicp gpu k epsilon)))))"

definition download_covariances :: "gpu \<Rightarrow> ('s, f64 list list) cuda" where
  "download_covariances gpu = cuda_bind cuda_get (\<lambda>st.
     cuda_bind (cuda_require (im_covariance_neighbors st \<noteq> 0) (exn_invalid_argument ''covariances not prepared'')) (\<lambda>_.
     cuda_bind (checked gpu ''covariance oracle download'') (\<lambda>_.
     cuda_bind (cuda_defined (im_covariances st)) (\<lambda>covariances.
     cuda_bind (device_to_host (length (im_reference st) * sizeof_covariance)) (\<lambda>_. cuda_return covariances)))))"

subsection \<open>The scan\<close>

text \<open>A search of its own for the scan, with the covariances of its points.\<close>

definition build_scan_search :: "gpu \<Rightarrow> nth_element \<Rightarrow> nat \<Rightarrow> f64 \<Rightarrow> Vec3f list \<Rightarrow> (ScanSearch, ScanSearch) cuda" where
  "build_scan_search gpu nth_elem k epsilon packed = (\<lambda>st n.
     case CorrespondenceSearch_create gpu nth_elem packed 1 strategy_indexed n of
       None \<Rightarrow> None
     | Some (Inl e, n) \<Rightarrow> Some (Inl e, st, n)
     | Some (Inr inner, n) \<Rightarrow>
         map_option (\<lambda>(outcome, inner, n). (case outcome of Inl e \<Rightarrow> Inl e | Inr _ \<Rightarrow> Inr inner, st, n))
           (cuda_bind (prepare_resident gpu []) (\<lambda>_. prepare_gicp gpu k epsilon) inner n))"

text \<open>The scan, or its normals, after a copy of \<open>number\<close> elements that failed at call \<open>call\<close>.\<close>

definition lost_scan :: "gpu \<Rightarrow> nat \<Rightarrow> nat \<Rightarrow> 's Impl \<Rightarrow> 's Impl" where
  "lost_scan gpu number call st = st\<lparr>im_scan := map_option (store (fresh (gpu_vector gpu) call number)) (im_scan st)\<rparr>"

definition lost_scan_normals :: "gpu \<Rightarrow> nat \<Rightarrow> nat \<Rightarrow> 's Impl \<Rightarrow> 's Impl" where
  "lost_scan_normals gpu number call st =
     st\<lparr>im_scan_normals := map_option (store (fresh (gpu_vector gpu) call number)) (im_scan_normals st)\<rparr>"

text \<open>The body of the \<open>try\<close> of \<open>upload_scan\<close>: the copies, the search of the scan, the scan becomes current.\<close>

definition fill_scan :: "gpu \<Rightarrow> nth_element \<Rightarrow> Vec3d list \<Rightarrow> Vec3d list \<Rightarrow> (ScanSearch, unit) cuda" where
  "fill_scan gpu nth_elem points normals = cuda_bind cuda_get (\<lambda>st.
     cuda_bind (transferred gpu ''resident scan upload'' (lost_scan gpu (length points))) (\<lambda>_.
     cuda_bind (cuda_update (\<lambda>st. st\<lparr>im_scan := map_option (store points) (im_scan st)\<rparr>)) (\<lambda>_.
     cuda_bind (host_to_device (length points * sizeof_vector)) (\<lambda>_.
     cuda_bind (if normals \<noteq> []
       then cuda_bind (transferred gpu ''scan normals upload'' (lost_scan_normals gpu (length normals))) (\<lambda>_.
            cuda_bind (cuda_update (\<lambda>st. st\<lparr>im_scan_normals := map_option (store normals) (im_scan_normals st)\<rparr>)) (\<lambda>_.
            host_to_device (length normals * sizeof_vector)))
       else cuda_return ()) (\<lambda>_.
     cuda_bind (transferred gpu ''scan upload completion''
       (\<lambda>call st. lost_scan gpu (length points) call (lost_scan_normals gpu (length normals) call st))) (\<lambda>_.
     cuda_bind (if im_covariance_neighbors st \<noteq> 0
       then cuda_bind (cuda_require (\<not> length points < im_covariance_neighbors st)
              (exn_invalid_argument ''GICP scan has insufficient support'')) (\<lambda>_.
            cuda_bind (build_scan_search gpu nth_elem (im_covariance_neighbors st) (im_covariance_epsilon st) (map narrow3 points)) (\<lambda>inner.
            cuda_bind (host_to_device (ts_host_to_device_bytes (im_transfers inner))) (\<lambda>_.
            cuda_bind (device_to_host (ts_device_to_host_bytes (im_transfers inner))) (\<lambda>_.
            cuda_update (\<lambda>st. st\<lparr>im_scan_search := Some inner\<rparr>)))))
       else cuda_return ()) (\<lambda>_.
     cuda_update (\<lambda>st. st\<lparr>im_has_scan_normals := (normals \<noteq> []), im_scan_count := length points\<rparr>))))))))"

definition upload_scan :: "gpu \<Rightarrow> nth_element \<Rightarrow> Vec3d list \<Rightarrow> Vec3d list \<Rightarrow> (ScanSearch, unit) cuda" where
  "upload_scan gpu nth_elem points normals = cuda_bind cuda_get (\<lambda>st.
     cuda_bind (cuda_require (\<not> (\<not> im_resident st \<or> points = [] \<or> im_capacity st < length points \<or>
         (normals \<noteq> [] \<and> length normals \<noteq> length points))) (exn_invalid_argument ''invalid resident scan'')) (\<lambda>_.
     cuda_bind (cuda_require (list_all is_finite3 points) (exn_invalid_argument ''nonfinite resident scan'')) (\<lambda>_.
     cuda_bind (same_device gpu) (\<lambda>_.
     cuda_bind (cuda_update (\<lambda>st. st\<lparr>im_scan_count := 0\<rparr>)) (\<lambda>_.
     fill_scan gpu nth_elem points normals)))))"

subsection \<open>Evaluation\<close>

definition transform_on_device :: "Mat4 \<Rightarrow> CorrespondenceSearch \<Rightarrow> CorrespondenceSearch option" where
  "transform_on_device pose st = Option.bind (im_scan st) (\<lambda>scan. Option.bind (im_transformed st) (\<lambda>transformed.
     let (transformed, queries) = transform_launch scan pose (im_scan_count st) (transformed, im_queries st) in
     Some (st\<lparr>im_transformed := Some transformed, im_queries := queries\<rparr>)))"

text \<open>The arguments of the objective launch.\<close>

definition objective_arguments :: "Mat4 \<Rightarrow> f64 \<Rightarrow> bool \<Rightarrow> bool \<Rightarrow> CorrespondenceSearch \<Rightarrow> Objective option" where
  "objective_arguments pose huber plane final st =
     Option.bind (im_original_reference st) (\<lambda>original. Option.bind (im_transformed st) (\<lambda>transformed.
     Some \<lparr>ob_reference = original, ob_ref_normals = im_reference_normals st, ob_transformed = transformed,
       ob_queries = im_queries st, ob_scan_normals = (if im_has_scan_normals st then im_scan_normals st else None),
       ob_indices = im_indices st, ob_count = im_scan_count st, ob_pose = pose, ob_huber = huber, ob_plane = plane,
       ob_final_metrics = final,
       ob_reference_covariances = (if im_covariance_neighbors st \<noteq> 0 then im_covariances st else None),
       ob_scan_covariances = (case im_scan_search st of None \<Rightarrow> None | Some inner \<Rightarrow> im_covariances inner)\<rparr>))"

definition evaluate :: "gpu \<Rightarrow> Mat4 \<Rightarrow> f64 \<Rightarrow> f64 \<Rightarrow> bool \<Rightarrow> bool \<Rightarrow> (ScanSearch, f64 list) cuda" where
  "evaluate gpu matrix radius huber plane final = cuda_bind cuda_get (\<lambda>st.
     cuda_bind (cuda_require (\<not> (\<not> im_resident st \<or> im_scan_count st = 0 \<or> (plane \<and> im_reference_normals st = None) \<or>
         \<not> isfinite radius \<or> radius \<le> 0 \<or> \<not> isfinite huber \<or> huber \<le> 0))
       (exn_invalid_argument ''invalid resident evaluation'')) (\<lambda>_.
     cuda_bind (cuda_require (list_all isfinite matrix) (exn_invalid_argument ''nonfinite pose'')) (\<lambda>_.
     cuda_bind (same_device gpu) (\<lambda>_.
     cuda_bind (checked gpu ''resident transform launch'') (\<lambda>_.
     cuda_bind (cuda_launch (transform_on_device matrix)) (\<lambda>_.
     cuda_bind (checked gpu ''resident nearest launch'') (\<lambda>_.
     cuda_bind (cuda_launch (search_launch gpu (im_scan_count st) (radius * radius))) (\<lambda>_.
     cuda_bind (checked gpu ''resident objective launch'') (\<lambda>_.
     cuda_bind cuda_get (\<lambda>st.
     cuda_bind (cuda_defined (Option.bind (objective_arguments matrix huber plane final st) resident_equations)) (\<lambda>equations.
     cuda_bind (checked gpu ''resident merge launch'') (\<lambda>_.
     let result = merge_equations equations in
     cuda_bind (checked gpu ''compact equation download'') (\<lambda>_.
     cuda_bind (device_to_host sizeof_equation) (\<lambda>_.
     cuda_bind (cuda_update (\<lambda>st. st\<lparr>im_transfers := im_transfers st
       \<lparr>ts_equation_evaluations := ts_equation_evaluations (im_transfers st) + 1\<rparr>\<rparr>)) (\<lambda>_.
     cuda_bind (checked gpu ''resident objective completion'') (\<lambda>_.
     cuda_bind (cuda_require (feq (result ! 44) 0)
       (exn_invalid_argument ''transformed coordinate exceeds search precision range'')) (\<lambda>_.
     cuda_return result)))))))))))))))))"

definition device_storage_bytes :: "('s \<Rightarrow> nat) \<Rightarrow> 's Impl \<Rightarrow> nat" where
  "device_storage_bytes inner_bytes st = (let len = length (im_reference st) in
     (case im_scan_search st of None \<Rightarrow> 0 | Some inner \<Rightarrow> inner_bytes inner) +
     (if im_covariances st \<noteq> None then len * sizeof_covariance else 0) +
     (if im_invalid_covariance st \<noteq> None then sizeof_index else 0) +
     min len knn_batch * im_knn_capacity st * (sizeof_index + 8) +
     len * ((if im_resident st then 2 else 1) * sizeof_point + (if im_reference_normals st \<noteq> None then sizeof_vector else 0)) +
     (if im_resident st then im_capacity st * 3 * sizeof_vector +
        ((im_capacity st + kBlockSize - 1) div kBlockSize + 1) * sizeof_equation else 0) +
     im_capacity st * (sizeof_point + sizeof_index) + length (im_nodes st) * sizeof_node +
     (if im_strategy st = strategy_indexed then len * sizeof_index else 0))"


subsection \<open>Weakest preconditions\<close>

text \<open>\<open>m\<close> is defined from \<open>st\<close> and \<open>n\<close>, ends in \<open>Q\<close> when it returns and in \<open>E\<close> when it throws.\<close>

definition wp :: "('s, 'a) cuda \<Rightarrow> ('a \<Rightarrow> 's Impl \<Rightarrow> nat \<Rightarrow> bool) \<Rightarrow> (exn \<Rightarrow> 's Impl \<Rightarrow> bool) \<Rightarrow> 's Impl \<Rightarrow> nat \<Rightarrow> bool" where
  "wp m Q E st n = (case m st n of None \<Rightarrow> False | Some (Inl e, st', n') \<Rightarrow> E e st' | Some (Inr a, st', n') \<Rightarrow> Q a st' n')"

lemma wp_bind: "wp (cuda_bind m f) Q E = wp m (\<lambda>a. wp (f a) Q E) E"
  by (intro ext) (simp add: wp_def cuda_bind_def split: option.splits sum.splits)

lemma wp_return: "wp (cuda_return a) Q E st n = Q a st n"
  by (simp add: wp_def cuda_return_def)

lemma wp_throw: "wp (cuda_throw e) Q E st n = E e st"
  by (simp add: wp_def cuda_throw_def)

lemma wp_get: "wp cuda_get Q E st n = Q st st n"
  by (simp add: wp_def cuda_get_def)

lemma wp_update: "wp (cuda_update f) Q E st n = Q () (f st) n"
  by (simp add: wp_def cuda_update_def)

lemma wp_require: "wp (cuda_require b e) Q E st n = (if b then Q () st n else E e st)"
  by (simp add: cuda_require_def wp_return wp_throw)

lemma wp_defined: "wp (cuda_defined x) Q E st n = (case x of None \<Rightarrow> False | Some a \<Rightarrow> Q a st n)"
  by (simp add: wp_def cuda_defined_def split: option.split)

lemma wp_launch: "wp (cuda_launch f) Q E st n = (case f st of None \<Rightarrow> False | Some st' \<Rightarrow> Q () st' n)"
  by (simp add: wp_def cuda_launch_def split: option.split)

lemma wp_if: "wp (if b then m else m') Q E st n = (if b then wp m Q E st n else wp m' Q E st n)"
  by simp

lemmas wp_simps = wp_bind wp_return wp_throw wp_get wp_update wp_require wp_defined wp_launch host_to_device_def device_to_host_def

text \<open>A call fails or not: both outcomes are possible.\<close>

lemma wp_checked: "Q n st (Suc n) \<Longrightarrow> (\<And>e. E e st) \<Longrightarrow> wp (checked gpu operation) Q E st n"
  by (simp add: wp_def checked_def split: option.split)

lemma wp_transferred: "Q n st (Suc n) \<Longrightarrow> (\<And>e. E e (lost n st)) \<Longrightarrow> wp (transferred gpu operation lost) Q E st n"
  by (simp add: wp_def transferred_def split: option.split)

text \<open>No call fails.\<close>

definition calls_succeed :: "gpu \<Rightarrow> bool" where
  "calls_succeed gpu \<longleftrightarrow> (\<forall>n. gpu_call gpu n = None)"

lemma wp_checked_succeed: "Q n st (Suc n) \<Longrightarrow> (\<And>e. \<not> calls_succeed gpu \<Longrightarrow> E e st) \<Longrightarrow> wp (checked gpu operation) Q E st n"
  by (cases "gpu_call gpu n") (auto simp: wp_def checked_def calls_succeed_def)

lemma wp_transferred_succeed:
  "Q n st (Suc n) \<Longrightarrow> (\<And>e. \<not> calls_succeed gpu \<Longrightarrow> E e (lost n st)) \<Longrightarrow> wp (transferred gpu operation lost) Q E st n"
  by (cases "gpu_call gpu n") (auto simp: wp_def transferred_def calls_succeed_def)

lemma wp_same_device: "(\<And>n. Q () st n) \<Longrightarrow> (\<And>e. E e st) \<Longrightarrow> wp (same_device gpu) Q E st n"
  unfolding same_device_def wp_bind by (rule wp_checked) (simp_all add: wp_simps)

lemma wp_mono:
  assumes "wp m Q E st n" "\<And>a st' n'. Q a st' n' \<Longrightarrow> Q' a st' n'" "\<And>e st'. E e st' \<Longrightarrow> E' e st'"
  shows "wp m Q' E' st n"
  using assms by (fastforce simp: wp_def split: option.splits sum.splits)

lemma wp_returned: "wp m Q E st n \<Longrightarrow> m st n = Some (Inr a, st', n') \<Longrightarrow> Q a st' n'"
  by (simp add: wp_def)

lemma wp_thrown: "wp m Q E st n \<Longrightarrow> m st n = Some (Inl e, st', n') \<Longrightarrow> E e st'"
  by (simp add: wp_def)

lemma wp_outcome:
  assumes "wp m (\<lambda>_ st _. P st) (\<lambda>_. P) st n" "m st n = Some (outcome, st', n')"
  shows "P st'"
  using assms by (cases outcome) (simp_all add: wp_def)

subsection \<open>The invariant of a search\<close>

definition search_data :: "Vec3f list \<Rightarrow> 's Impl \<Rightarrow> bool" where
  "search_data reference st \<longleftrightarrow> list_all is_finite3 reference \<and> int (length reference) \<le> int32_max \<and>
     (if im_strategy st = strategy_indexed
      then index_of reference \<lparr>si_points = im_reference st, si_original_indices = im_original_indices st, si_nodes = im_nodes st\<rparr>
      else im_reference st = reference)"

definition covariances_ready :: "Vec3f list \<Rightarrow> nat \<Rightarrow> f64 \<Rightarrow> f64 list list \<Rightarrow> bool" where
  "covariances_ready reference k epsilon cs \<longleftrightarrow> length cs = length reference \<and>
     (\<forall>i < length reference. \<exists>ids. nearest_of reference (reference ! i) k (all_indices reference) ids \<and>
        neighborhood_covariance reference k epsilon (sort ids) = Some (cs ! i))"

definition device_ok :: "Vec3f list \<Rightarrow> 's Impl \<Rightarrow> bool" where
  "device_ok reference st \<longleftrightarrow> search_data reference st \<and>
     length (im_queries st) = im_capacity st \<and> length (im_indices st) = im_capacity st \<and> int (im_capacity st) \<le> int32_max \<and>
     (im_resident st \<longrightarrow> im_original_reference st = Some reference \<and>
       (\<exists>s ns ts. im_scan st = Some s \<and> im_scan_normals st = Some ns \<and> im_transformed st = Some ts \<and>
         length s = im_capacity st \<and> length ns = im_capacity st \<and> length ts = im_capacity st) \<and>
       (\<forall>ns. im_reference_normals st = Some ns \<longrightarrow> length ns = length reference)) \<and>
     im_scan_count st \<le> im_capacity st \<and>
     (\<forall>ids. im_knn_capacity st \<noteq> 0 \<and> im_knn_indices st = Some ids \<longrightarrow> (\<exists>ds. im_knn_distances st = Some ds \<and>
        length ids = min (length reference) knn_batch * im_knn_capacity st \<and> length ds = length ids)) \<and>
     (\<forall>cs. im_covariances st = Some cs \<longrightarrow> length cs = length reference) \<and>
     (im_covariance_neighbors st \<noteq> 0 \<longrightarrow> (\<exists>cs. im_covariances st = Some cs \<and>
        covariances_ready reference (im_covariance_neighbors st) (im_covariance_epsilon st) cs))"

lemma search_data_length: "search_data reference st \<Longrightarrow> length (im_reference st) = length reference"
  using mset_eq_length [of "im_original_indices st" "map int [0..<length reference]"]
  by (auto simp: search_data_def index_of_def split: if_splits)

lemma search_data_fields [simp]:
  "search_data reference (im_queries_update f st) = search_data reference st"
  "search_data reference (im_original_reference_update g st) = search_data reference st"
  "search_data reference (im_reference_normals_update h st) = search_data reference st"
  "search_data reference (im_scan_update h' st) = search_data reference st"
  "search_data reference (im_scan_normals_update h' st) = search_data reference st"
  "search_data reference (im_transformed_update h' st) = search_data reference st"
  "search_data reference (im_scan_count_update c st) = search_data reference st"
  "search_data reference (im_has_scan_normals_update b st) = search_data reference st"
  "search_data reference (im_resident_update b st) = search_data reference st"
  "search_data reference (im_covariances_update cs st) = search_data reference st"
  "search_data reference (im_knn_indices_update ki st) = search_data reference st"
  "search_data reference (im_knn_distances_update kd st) = search_data reference st"
  "search_data reference (im_invalid_covariance_update iv st) = search_data reference st"
  "search_data reference (im_knn_capacity_update c st) = search_data reference st"
  "search_data reference (im_covariance_neighbors_update c st) = search_data reference st"
  "search_data reference (im_covariance_epsilon_update e st) = search_data reference st"
  "search_data reference (im_scan_search_update ss st) = search_data reference st"
  "search_data reference (im_indices_update ii st) = search_data reference st"
  "search_data reference (im_transfers_update tr st) = search_data reference st"
  by (simp_all add: search_data_def)

lemma device_ok_transfers [simp]: "device_ok reference (im_transfers_update f st) = device_ok reference st"
  by (simp add: device_ok_def)


definition gpu_ok :: "gpu \<Rightarrow> bool" where
  "gpu_ok gpu \<longleftrightarrow> length (gpu_shared gpu) = kBlockSize"

lemma length_fresh [simp]: "length (fresh contents call n) = n"
  by (simp add: fresh_def)

lemma length_store [simp]: "length xs \<le> length buffer \<Longrightarrow> length (store xs buffer) = length buffer"
  by (simp add: store_def)

text \<open>\<open>checked\<close> keeps whatever holds of the state.\<close>

lemma upload_reference_wp:
  "wp (upload_reference gpu index capacity strategy packed)
    (\<lambda>_ st' _. (if strategy = strategy_indexed then im_nodes st' = si_nodes index \<and> im_original_indices st' = si_original_indices index else True) \<and>
       im_reference st' = packed \<and> length (im_queries st') = capacity \<and> length (im_indices st') = capacity \<and>
       \<not> im_resident st' \<and> im_scan_count st' = 0 \<and> im_knn_capacity st' = 0 \<and> im_covariance_neighbors st' = 0 \<and>
       im_covariances st' = None \<and> im_strategy st' = strategy \<and> im_capacity st' = capacity)
    (\<lambda>_ _. True) (empty_impl strategy capacity) n"
  unfolding upload_reference_def empty_impl_def
  by (cases strategy; (rule wp_checked | simp add: wp_simps)+)

lemma create_ok:
  assumes "permutes_range nth_elem"
  shows "\<exists>(outcome :: exn + 's Impl) n'. CorrespondenceSearch_create gpu nth_elem reference capacity strategy n = Some (outcome, n') \<and>
    (\<forall>st. outcome = Inr st \<longrightarrow> device_ok reference st \<and> im_strategy st = strategy \<and> im_capacity st = capacity \<and> \<not> im_resident st \<and>
      im_knn_capacity st = 0 \<and> im_scan_count st = 0 \<and> im_covariance_neighbors st = 0)"
proof (cases "reference = [] \<or> capacity = 0 \<or> int32_max < int (length reference) \<or> int32_max < int capacity \<or> \<not> list_all is_finite3 reference")
  case True
  then show ?thesis by (auto simp: CorrespondenceSearch_create_def)
next
  case False
  let ?build = "if strategy = strategy_indexed then build_spatial_index nth_elem reference
    else Inr \<lparr>si_points = [], si_original_indices = [], si_nodes = []\<rparr>"
  show ?thesis
  proof (cases ?build)
    case (Inl e)
    then show ?thesis using False by (simp add: CorrespondenceSearch_create_def)
  next
    case (Inr index)
    let ?packed = "if strategy = strategy_indexed then si_points index else reference"
    have data: "index_of reference index" if "strategy = strategy_indexed"
      using built_index_of [OF assms, of reference index] Inr that by simp
    obtain outcome n' and st :: "'s Impl" where
      up: "upload_reference gpu index capacity strategy ?packed (empty_impl strategy capacity) n = Some (outcome, st, n')"
      using upload_reference_wp [of gpu index capacity strategy ?packed n] by (auto simp: wp_def split: option.splits)
    have "device_ok reference st \<and> im_strategy st = strategy \<and> im_capacity st = capacity \<and> \<not> im_resident st \<and>
        im_knn_capacity st = 0 \<and> im_scan_count st = 0 \<and> im_covariance_neighbors st = 0" if "outcome = Inr u" for u
      using wp_returned [OF upload_reference_wp up [unfolded that]] False data
      by (auto simp: device_ok_def search_data_def index_of_def split: if_splits)
    moreover have "CorrespondenceSearch_create gpu nth_elem reference capacity strategy n =
        Some (case outcome of Inl e \<Rightarrow> Inl e | Inr _ \<Rightarrow> Inr st, n')"
      using False Inr up by (simp add: CorrespondenceSearch_create_def Let_def)
    ultimately show ?thesis by (cases outcome) auto
  qed
qed


text \<open>The traversal ends for every query, finite or not.\<close>

lemma traverse_ends:
  assumes "bvh reference lo k segment nodes" "all_nodes = before_nodes @ nodes @ after_nodes" "length before_nodes = k"
  shows "\<exists>state'. traverse packed original all_nodes q k state = traverse packed original all_nodes q (k + length nodes) state'"
  using assms
proof (induction arbitrary: state before_nodes after_nodes rule: bvh.induct)
  case (bvh_leaf segment node lo k)
  then have "k < length all_nodes" "all_nodes ! k = node" by auto
  then show ?case using bvh_leaf.hyps by (subst traverse.simps) (auto simp: Let_def simp del: split_paired_Ex)
next
  case (bvh_inner lo k left left_nodes right right_nodes node)
  have at: "k < length all_nodes" "all_nodes ! k = node" using bvh_inner.prems by auto
  obtain s1 where "traverse packed original all_nodes q (Suc k) state = traverse packed original all_nodes q (Suc k + length left_nodes) s1"
    using bvh_inner.IH(1) [of "before_nodes @ [node]" "right_nodes @ after_nodes" state] bvh_inner.prems by auto
  moreover obtain s2 where "traverse packed original all_nodes q (Suc k + length left_nodes) s1 =
      traverse packed original all_nodes q (Suc k + length left_nodes + length right_nodes) s2"
    using bvh_inner.IH(2) [of "before_nodes @ node # left_nodes" after_nodes s1] bvh_inner.prems by auto
  ultimately show ?case
    using at bvh_inner.hyps by (subst traverse.simps) (auto simp: Let_def add.assoc simp del: split_paired_Ex)
qed

text \<open>What one launch of the search leaves in the first \<open>threads\<close> indices.\<close>

lemma search_launch_ok:
  assumes "device_ok reference st" "gpu_ok gpu" "threads \<le> im_capacity st" "\<not> is_nan bound"
  shows "\<exists>indices. search_launch gpu threads bound st = Some (st\<lparr>im_indices := indices\<rparr>) \<and> length indices = im_capacity st \<and>
    list_all2 (\<lambda>q r. is_finite3 q \<longrightarrow> best_match reference q bound (all_indices reference) r) (take threads (im_queries st)) (take threads indices)"
proof -
  let ?q = "take threads (im_queries st)"
  have ok: "search_data reference st" "length (im_queries st) = im_capacity st" "length (im_indices st) = im_capacity st"
    using assms(1) by (simp_all add: device_ok_def)
  then have len: "length ?q = threads" "length ?q \<le> length (im_indices st)" using assms(3) by simp_all
  have fin: "list_all is_finite3 reference" using ok(1) by (simp add: search_data_def)
  obtain r where launch: "search_launch gpu threads bound st = Some (st\<lparr>im_indices := map r ?q @ drop threads (im_indices st)\<rparr>)"
    and best: "\<And>q. is_finite3 q \<Longrightarrow> best_match reference q bound (all_indices reference) (r q)"
  proof (cases "im_strategy st = strategy_indexed")
    case True
    let ?index = "\<lparr>si_points = im_reference st, si_original_indices = im_original_indices st, si_nodes = im_nodes st\<rparr>"
    let ?t = "\<lambda>q. traverse (im_reference st) (im_original_indices st) (im_nodes st) q 0 (bound, - 1)"
    have index: "index_of reference ?index" using ok(1) True by (simp add: search_data_def)
    then have "\<exists>state. ?t q = Some state" for q
      using traverse_ends [of reference 0 0 "im_original_indices st" "im_nodes st" "im_nodes st" "[]" "[]" "im_reference st" "im_original_indices st" q "(bound, - 1)"]
        traverse_past_end [of "im_nodes st" "length (im_nodes st)"] by (auto simp: index_of_def)
    then have "\<exists>best. ?t q = Some (best, snd (the (?t q)))" for q by (metis option.sel prod.collapse)
    then have "search_launch gpu threads bound st = Some (st\<lparr>im_indices := map (\<lambda>q. snd (the (?t q))) ?q @ drop threads (im_indices st)\<rparr>)"
      using indexed_kernel_eq [of ?q "im_reference st" "im_original_indices st" "im_nodes st" bound "\<lambda>q. snd (the (?t q))" "im_indices st"]
        len True by (simp add: search_launch_def Let_def)
    moreover have "best_match reference q bound (all_indices reference) (snd (the (?t q)))" if "is_finite3 q" for q
      using indexed_search_best [OF index that assms(4)] by auto
    ultimately show ?thesis by (rule that)
  next
    case False
    then have "search_launch gpu threads bound st = Some (st\<lparr>im_indices :=
        map (\<lambda>q. snd (thread_state reference bound (length reference) (Some q))) ?q @ drop threads (im_indices st)\<rparr>)"
      using nearest_kernel_eq [OF assms(2) [unfolded gpu_ok_def] len(2), of reference bound] ok(1) len(1)
      by (simp add: search_launch_def search_data_def Let_def)
    then show ?thesis by (rule that) (rule tiled_search_best [OF fin _ assms(4)])
  qed
  have "list_all2 (\<lambda>q r. is_finite3 q \<longrightarrow> best_match reference q bound (all_indices reference) r) ?q
      (take threads (map r ?q @ drop threads (im_indices st)))"
    using best len(1) by (simp add: list_all2_map2 list_all2_same)
  moreover have "length (map r ?q @ drop threads (im_indices st)) = im_capacity st" using len ok(3) assms(3) by simp
  ultimately show ?thesis using launch by blast
qed

lemma square_number: "isfinite r \<Longrightarrow> \<not> is_nan (r * r)" for r :: f64
  by (cases r) (simp_all add: times_fp_def)

lemma query_into_wp:
  assumes "device_ok reference st" "gpu_ok gpu"
  shows "wp (query_into gpu points radius)
    (\<lambda>result st' _. device_ok reference st' \<and> list_all2 (\<lambda>q r. best_match reference q (radius * radius) (all_indices reference) r) points result)
    (\<lambda>_. device_ok reference) st n"
proof (cases "length points \<le> im_capacity st \<and> \<not> (\<not> isfinite radius \<or> radius < 0) \<and> list_all is_finite3 points")
  case False
  then show ?thesis using assms(1) by (auto simp: query_into_def wp_simps)
next
  case True
  let ?st = "st\<lparr>im_queries := store points (im_queries st), im_transfers := im_transfers st
     \<lparr>ts_host_to_device_bytes := ts_host_to_device_bytes (im_transfers st) + length points * sizeof_point\<rparr>\<rparr>"
  have ok: "device_ok reference ?st" using assms(1) True by (simp add: device_ok_def)
  have lost: "device_ok reference (st\<lparr>im_queries := store (fresh c call (length points)) (im_queries st)\<rparr>)" for c call
    using assms(1) True by (simp add: device_ok_def)
  have queries: "take (length points) (im_queries ?st) = points" by (simp add: store_def)
  obtain indices where launch: "search_launch gpu (length points) (radius * radius) ?st = Some (?st\<lparr>im_indices := indices\<rparr>)"
    "length indices = im_capacity st"
    "list_all2 (\<lambda>q r. best_match reference q (radius * radius) (all_indices reference) r) points (take (length points) indices)"
  proof -
    note witness = that
    from search_launch_ok [OF ok assms(2), of "length points" "radius * radius"] obtain indices where
      launch: "search_launch gpu (length points) (radius * radius) ?st = Some (?st\<lparr>im_indices := indices\<rparr>)" "length indices = im_capacity st"
        "list_all2 (\<lambda>q r. is_finite3 q \<longrightarrow> best_match reference q (radius * radius) (all_indices reference) r) points (take (length points) indices)"
      using True queries square_number by auto
    moreover from launch(3) have "list_all2 (\<lambda>q r. best_match reference q (radius * radius) (all_indices reference) r) points (take (length points) indices)"
      using True by (auto simp: list_all2_conv_all_nth list_all_length)
    ultimately show ?thesis using witness by blast
  qed
  have after: "device_ok reference (?st\<lparr>im_indices := indices\<rparr>)"
    "device_ok reference (st\<lparr>im_queries := store points (im_queries st), im_indices := indices\<rparr>)"
    using ok launch(2) by (simp_all add: device_ok_def)
  show ?thesis
    unfolding query_into_def wp_simps wp_if
    using True assms(1) ok after launch
    by (simp add: wp_simps) (rule impI wp_same_device wp_checked wp_transferred | simp add: wp_simps lost)+
qed


lemma prepare_resident_wp:
  assumes "device_ok reference st"
  shows "wp (prepare_resident gpu normals) (\<lambda>_ st' _. device_ok reference st' \<and> im_resident st' \<and> im_strategy st' = im_strategy st \<and>
      im_scan_count st' = im_scan_count st \<and> im_knn_capacity st' = im_knn_capacity st \<and>
      im_covariance_neighbors st' = im_covariance_neighbors st \<and>
      im_reference_normals st' = (if normals = [] then None else Some normals)) (\<lambda>_. device_ok reference) st n"
proof (cases "im_resident st \<or> im_scan st \<noteq> None \<or> im_reference_normals st \<noteq> None \<or> im_original_reference st \<noteq> None \<or>
    (normals \<noteq> [] \<and> length normals \<noteq> length (im_reference st))")
  case True
  then show ?thesis using assms by (auto simp: prepare_resident_def wp_simps Let_def)
next
  case False
  have len: "length (im_reference st) = length reference" and data: "search_data reference st"
    using assms search_data_length by (auto simp: device_ok_def)
  have restored: "restore_launch (im_reference st) (im_original_indices st) (length reference) (fresh c call (length reference)) = reference"
    if "im_strategy st = strategy_indexed" for c call
    using restored_order [of reference "\<lparr>si_points = im_reference st, si_original_indices = im_original_indices st, si_nodes = im_nodes st\<rparr>"]
      data that by (simp add: search_data_def)
  have copied: "im_reference st = reference" if "im_strategy st \<noteq> strategy_indexed" using data that by (simp add: search_data_def)
  show ?thesis
    unfolding prepare_resident_def wp_simps Let_def
    using False assms len restored copied
    by (simp add: wp_simps) (rule impI conjI wp_checked wp_transferred | simp add: wp_simps restore_on_device_def device_ok_def)+
qed


subsection \<open>Neighbours\<close>

definition knn_ready :: "Vec3f list \<Rightarrow> nat \<Rightarrow> 's Impl \<Rightarrow> bool" where
  "knn_ready reference k st \<longleftrightarrow> device_ok reference st \<and> im_resident st \<and> im_strategy st = strategy_indexed \<and>
     0 < k \<and> k \<le> length reference \<and> k \<le> im_knn_capacity st \<and> im_knn_indices st \<noteq> None"

text \<open>What \<open>prepare_knn\<close> demands.\<close>

definition knn_allowed :: "Vec3f list \<Rightarrow> nat \<Rightarrow> 's Impl \<Rightarrow> bool" where
  "knn_allowed reference k st \<longleftrightarrow> im_resident st \<and> im_strategy st = strategy_indexed \<and> 0 < k \<and> k \<le> 1024 \<and> k \<le> length reference"

text \<open>
  The neighbour buffers are present. A failing release inside \<open>prepare_knn\<close> breaks this: the first
  pointer is then null while the capacity still is the old one.
\<close>

definition buffers_ok :: "'s Impl \<Rightarrow> bool" where
  "buffers_ok st \<longleftrightarrow> im_knn_capacity st = 0 \<or> im_knn_indices st \<noteq> None"

lemma prepare_knn_wp:
  assumes "device_ok reference st" "buffers_ok st"
  shows "wp (prepare_knn gpu k) (\<lambda>_ st' _. knn_ready reference k st' \<and> im_covariance_neighbors st' = im_covariance_neighbors st \<and>
      im_covariances st' = im_covariances st \<and> im_invalid_covariance st' = im_invalid_covariance st)
    (\<lambda>_ st'. device_ok reference st' \<and> \<not> (calls_succeed gpu \<and> knn_allowed reference k st)) st n"
proof -
  have len: "length (im_reference st) = length reference"
    using assms search_data_length by (auto simp: device_ok_def)
  show ?thesis
    unfolding prepare_knn_def wp_simps wp_if Let_def
    using assms len
    by (simp add: wp_simps) (rule impI conjI wp_checked_succeed | simp add: wp_simps knn_allowed_def knn_ready_def buffers_ok_def device_ok_def | linarith)+
qed

lemma knn_on_device_ok:
  assumes "knn_ready reference k st" "offset + threads \<le> length reference" "threads \<le> knn_batch"
  shows "\<exists>ids ds. knn_on_device offset threads k st = Some (st\<lparr>im_knn_indices := Some ids, im_knn_distances := Some ds\<rparr>) \<and>
    length ids = min (length reference) knn_batch * im_knn_capacity st \<and> length ds = length ids \<and> threads * k \<le> length ids \<and>
    (\<forall>i < threads. nearest_of reference (reference ! (offset + i)) k (all_indices reference) (row_of k i ids))"
proof -
  let ?index = "\<lparr>si_points = im_reference st, si_original_indices = im_original_indices st, si_nodes = im_nodes st\<rparr>"
  have st: "im_original_reference st = Some reference" "index_of reference ?index" "int (length reference) \<le> int32_max"
    "0 < k" "k \<le> length reference" "im_knn_capacity st \<noteq> 0" "k \<le> im_knn_capacity st"
    using assms(1) by (auto simp: knn_ready_def device_ok_def search_data_def)
  then obtain ids ds where b: "im_knn_indices st = Some ids" "im_knn_distances st = Some ds"
    "length ids = min (length reference) knn_batch * im_knn_capacity st" "length ds = length ids"
    using assms(1) by (auto simp: knn_ready_def device_ok_def)
  have room: "threads * k \<le> length ids" using assms(2,3) st(7) unfolding b(3) by (intro mult_le_mono) auto
  obtain arrays where launch: "exact_knn_launch (im_reference st) (im_original_indices st) (im_nodes st) reference offset threads k (ids, ds) = Some arrays"
    "length (fst arrays) = length ids" "length (snd arrays) = length ds"
    "\<forall>i < threads. nearest_of reference (reference ! (offset + i)) k (all_indices reference) (row_of k i (fst arrays))"
    using knn_launch [OF st(2-5), of threads "(ids, ds)" offset] room assms(2) b(4) by auto
  have "knn_on_device offset threads k st = Some (st\<lparr>im_knn_indices := Some (fst arrays), im_knn_distances := Some (snd arrays)\<rparr>)"
    using st(1) b launch(1) by (simp add: knn_on_device_def split_beta)
  moreover have "length (fst arrays) = min (length reference) knn_batch * im_knn_capacity st" using launch(2) b(3) by (rule trans)
  ultimately show ?thesis using launch(2-4) b(4) room by metis
qed

lemma knn_ready_buffers:
  assumes "knn_ready reference k st" "length ids = min (length reference) knn_batch * im_knn_capacity st" "length ds = length ids"
  shows "knn_ready reference k (st\<lparr>im_knn_indices := Some ids, im_knn_distances := Some ds\<rparr>)"
  using assms by (simp add: knn_ready_def device_ok_def)

lemma knn_ready_transfers [simp]: "knn_ready reference k (im_transfers_update f st) = knn_ready reference k st"
  by (simp add: knn_ready_def)

lemma buffers_ok_transfers [simp]: "buffers_ok (im_transfers_update f st) = buffers_ok st"
  by (simp add: buffers_ok_def)

lemma knn_ready_ok: "knn_ready reference k st \<Longrightarrow> device_ok reference st"
  by (simp add: knn_ready_def)

text \<open>Writing a batch of rows.\<close>

lemma row_of_block:
  assumes "offset * k + threads * k \<le> length xs" "length seg = threads * k"
  shows "row_of k j (replace_range (offset * k) (offset * k + threads * k) seg xs) =
    (if offset \<le> j \<and> j < offset + threads then row_of k (j - offset) seg else row_of k j xs)"
proof -
  consider "j < offset" | "offset + threads \<le> j" | i where "j = offset + i" "i < threads"
    by (metis add_diff_inverse_nat less_diff_conv2 linorder_not_less nat_add_left_cancel_less)
  then show ?thesis
  proof cases
    case 1
    then have "j * k + k \<le> offset * k" by (rule row_end)
    then show ?thesis using 1 assms by (auto simp: row_of_def range_of_def replace_range_def drop_take)
  next
    case 2
    then have "(offset + threads) * k \<le> j * k" by (intro mult_le_mono1)
    then have "offset * k + threads * k \<le> j * k" "offset * k \<le> j * k"
      by (simp_all only: add_mult_distrib)
    then show ?thesis using 2 assms by (simp add: row_of_def range_of_def replace_range_def)
  next
    case 3
    have "i * k + k \<le> threads * k" using 3(2) by (rule row_end)
    then show ?thesis using 3 assms by (simp add: row_of_def range_of_def replace_range_def add_mult_distrib)
  qed
qed

lemma row_of_take: "i < threads \<Longrightarrow> row_of k i (take (threads * k) xs) = row_of k i xs"
  using row_end [of i threads k] by (simp add: row_of_def range_of_def drop_take)


lemma knn_loop_wp:
  assumes "knn_ready reference k st" "length result = length reference * k"
    and "\<forall>i < min offset (length reference). nearest_of reference (reference ! i) k (all_indices reference) (row_of k i result)"
  shows "wp (knn_loop_host gpu (length reference) k offset result)
    (\<lambda>result st' _. knn_ready reference k st' \<and> length result = length reference * k \<and>
      (\<forall>i < length reference. nearest_of reference (reference ! i) k (all_indices reference) (row_of k i result)))
    (\<lambda>_ st'. device_ok reference st' \<and> \<not> calls_succeed gpu) st n"
  using assms
proof (induction "length reference - offset" arbitrary: offset result st n rule: less_induct)
  case less
  show ?case
  proof (cases "offset < length reference")
    case False
    then have "min offset (length reference) = length reference" by simp
    with less.prems False show ?thesis by (subst knn_loop_host.simps) (simp add: wp_simps)
  next
    case True
    let ?threads = "min knn_batch (length reference - offset)"
    have batch: "offset + ?threads \<le> length reference" "?threads \<le> knn_batch" "min (offset + knn_batch) (length reference) = offset + ?threads"
      using True by (auto simp: min_def)
    from knn_on_device_ok [OF less.prems(1) batch(1,2)] obtain ids ds where
      dev: "knn_on_device offset ?threads k st = Some (st\<lparr>im_knn_indices := Some ids, im_knn_distances := Some ds\<rparr>)"
        "length ids = min (length reference) knn_batch * im_knn_capacity st" "length ds = length ids" "?threads * k \<le> length ids"
        "\<forall>i < ?threads. nearest_of reference (reference ! (offset + i)) k (all_indices reference) (row_of k i ids)"
      by blast
    let ?st = "st\<lparr>im_knn_indices := Some ids, im_knn_distances := Some ds\<rparr>"
      and ?result = "replace_range (offset * k) (offset * k + ?threads * k) (take (?threads * k) ids) result"
    have ready: "knn_ready reference k ?st" by (rule knn_ready_buffers [OF less.prems(1) dev(2,3)])
    have fits: "offset * k + ?threads * k \<le> length result"
      using mult_le_mono1 [OF batch(1), of k] less.prems(2) by (simp only: add_mult_distrib)
    have seg: "length (take (?threads * k) ids) = ?threads * k" using dev(4) by simp
    have "nearest_of reference (reference ! i) k (all_indices reference) (row_of k i ?result)" if "i < offset + ?threads" for i
    proof (cases "offset \<le> i")
      case le: True
      then obtain j where j: "i = offset + j" "j < ?threads" using \<open>i < offset + ?threads\<close> by (metis le_iff_add nat_add_left_cancel_less)
      then have "row_of k i ?result = row_of k j ids"
        using row_of_block [OF fits seg, of i] row_of_take [OF j(2), of k ids] by simp
      then show ?thesis using dev(5) j by simp
    next
      case False
      then show ?thesis using row_of_block [OF fits seg, of i] less.prems(3) True by simp
    qed
    then have rows: "\<forall>i < min (offset + knn_batch) (length reference).
        nearest_of reference (reference ! i) k (all_indices reference) (row_of k i ?result)" unfolding batch(3) by blast
    have len: "length ?result = length reference * k" using fits seg less.prems(2) by simp
    have smaller: "length reference - (offset + knn_batch) < length reference - offset" using True by (simp add: knn_batch_def)
    have fail: "device_ok reference st" "buffers_ok st" "device_ok reference ?st" "buffers_ok ?st"
      using knn_ready_ok [OF less.prems(1)] knn_ready_ok [OF ready] less.prems(1) by (auto simp: buffers_ok_def knn_ready_def)
    have "wp (knn_loop_host gpu (length reference) k (offset + knn_batch) ?result)
      (\<lambda>result st' _. knn_ready reference k st' \<and> length result = length reference * k \<and>
        (\<forall>i < length reference. nearest_of reference (reference ! i) k (all_indices reference) (row_of k i result)))
      (\<lambda>_ st'. device_ok reference st' \<and> \<not> calls_succeed gpu) (im_transfers_update f ?st) n'" for f n'
      by (rule less.hyps [OF smaller _ len rows]) (simp add: ready)
    then show ?thesis
      using True dev(1) fail
      by (subst knn_loop_host.simps) (simp add: wp_simps Let_def, (rule wp_checked_succeed | simp add: wp_simps)+)
  qed
qed

lemma knn_wp:
  assumes "device_ok reference st" "buffers_ok st"
  shows "wp (knn gpu k)
    (\<lambda>result st' _. knn_ready reference k st' \<and> length result = length reference * k \<and>
      (\<forall>i < length reference. nearest_of reference (reference ! i) k (all_indices reference) (row_of k i result)))
    (\<lambda>_ st'. device_ok reference st' \<and> \<not> (calls_succeed gpu \<and> knn_allowed reference k st)) st n"
  unfolding knn_def wp_simps
proof (rule wp_mono [OF prepare_knn_wp [OF assms]])
  fix st' n' assume "knn_ready reference k st' \<and> im_covariance_neighbors st' = im_covariance_neighbors st \<and>
    im_covariances st' = im_covariances st \<and> im_invalid_covariance st' = im_invalid_covariance st"
  then have ready: "knn_ready reference k st'" by simp
  then have len: "length (im_reference st') = length reference"
    using search_data_length by (auto simp: knn_ready_def device_ok_def)
  show "wp (knn_loop_host gpu (length (im_reference st')) k 0 (replicate (length (im_reference st') * k) 0))
      (\<lambda>result st' _. knn_ready reference k st' \<and> length result = length reference * k \<and>
        (\<forall>i < length reference. nearest_of reference (reference ! i) k (all_indices reference) (row_of k i result)))
      (\<lambda>_ st'. device_ok reference st' \<and> \<not> (calls_succeed gpu \<and> knn_allowed reference k st)) st' n'"
    unfolding len by (rule wp_mono, rule knn_loop_wp [OF ready]) auto
qed


subsection \<open>Covariances\<close>

text \<open>The covariance of the neighbourhood of point \<open>i\<close> is not defined: its points are collinear or coincide.\<close>

definition degenerate :: "Vec3f list \<Rightarrow> nat \<Rightarrow> f64 \<Rightarrow> nat \<Rightarrow> bool" where
  "degenerate reference k epsilon i \<longleftrightarrow> (\<exists>ids. nearest_of reference (reference ! i) k (all_indices reference) ids \<and>
     neighborhood_covariance reference k epsilon (sort ids) = None)"

text \<open>The state between two batches: the covariances before \<open>offset\<close> are done unless the flag is set.\<close>

definition covariances_so_far :: "Vec3f list \<Rightarrow> nat \<Rightarrow> f64 \<Rightarrow> nat \<Rightarrow> 's Impl \<Rightarrow> bool" where
  "covariances_so_far reference k epsilon offset st \<longleftrightarrow> knn_ready reference k st \<and> im_covariance_neighbors st = 0 \<and>
     (\<exists>cs invalid. im_covariances st = Some cs \<and> im_invalid_covariance st = Some invalid \<and> length cs = length reference \<and>
       (invalid = 0 \<longrightarrow> (\<forall>i < min offset (length reference). \<exists>ids.
          nearest_of reference (reference ! i) k (all_indices reference) ids \<and>
          neighborhood_covariance reference k epsilon (sort ids) = Some (cs ! i))) \<and>
       (invalid \<noteq> 0 \<longrightarrow> (\<exists>i < length reference. degenerate reference k epsilon i)))"

lemma covariance_batch_ok:
  assumes "covariances_so_far reference k epsilon offset st" "offset < length reference" "threads = min knn_batch (length reference - offset)"
    and "length ids = min (length reference) knn_batch * im_knn_capacity st" "length ds = length ids" "threads * k \<le> length ids"
    and "\<forall>i < threads. nearest_of reference (reference ! (offset + i)) k (all_indices reference) (row_of k i ids)"
  shows "\<exists>st'. covariance_on_device offset threads k epsilon (st\<lparr>im_knn_indices := Some ids, im_knn_distances := Some ds\<rparr>) = Some st' \<and>
    covariances_so_far reference k epsilon (offset + knn_batch) st'"
proof -
  obtain cs invalid where st: "knn_ready reference k st" "im_covariance_neighbors st = 0" "im_covariances st = Some cs"
    "im_invalid_covariance st = Some invalid" "length cs = length reference"
    "invalid = 0 \<Longrightarrow> \<forall>i < min offset (length reference). \<exists>ids. nearest_of reference (reference ! i) k (all_indices reference) ids \<and>
       neighborhood_covariance reference k epsilon (sort ids) = Some (cs ! i)"
    "invalid \<noteq> 0 \<Longrightarrow> \<exists>i < length reference. degenerate reference k epsilon i"
    using assms(1) by (auto simp: covariances_so_far_def)
  have batch: "offset + threads \<le> length reference" "min (offset + knn_batch) (length reference) = offset + threads"
    using assms(2,3) by (auto simp: min_def)
  let ?cov = "\<lambda>i. neighborhood_covariance reference k epsilon (sort (row_of k i ids))"
  have "threads \<le> launch_blocks threads * kBlockSize"
    using launch_covers [of "threads - 1" threads] by (cases threads) auto
  then have all: "min (launch_blocks threads * kBlockSize) threads = threads" by simp
  obtain ids' cs' invalid' where launch: "covariance_launch reference offset threads k epsilon (ids, cs, invalid) = (ids', cs', invalid')"
    "length ids' = length ids" "length cs' = length cs"
    "\<forall>j < length cs. \<not> (offset \<le> j \<and> j < offset + threads) \<longrightarrow> cs' ! j = cs ! j"
    "\<forall>i < threads. \<forall>c. ?cov i = Some c \<longrightarrow> cs' ! (offset + i) = c"
    "invalid' = (if \<exists>i < threads. ?cov i = None then 1 else invalid)"
    using covariance_threads [of threads k ids offset cs reference epsilon "launch_blocks threads * kBlockSize" invalid] assms(6) batch(1) st(5)
    unfolding covariance_launch_def all by auto
  let ?st = "st\<lparr>im_knn_indices := Some ids', im_knn_distances := Some ds, im_covariances := Some cs', im_invalid_covariance := Some invalid'\<rparr>"
  have "im_original_reference st = Some reference" using st(1) by (simp add: knn_ready_def device_ok_def)
  then have dev: "covariance_on_device offset threads k epsilon (st\<lparr>im_knn_indices := Some ids, im_knn_distances := Some ds\<rparr>) = Some ?st"
    using st(3,4) launch(1) by (simp add: covariance_on_device_def)
  have "knn_ready reference k (st\<lparr>im_knn_indices := Some ids', im_knn_distances := Some ds\<rparr>)"
    using assms(4,5) launch(2) by (intro knn_ready_buffers [OF st(1)]) simp_all
  then have ready: "knn_ready reference k ?st" using st(2,5) launch(3) by (simp add: knn_ready_def device_ok_def)
  have "\<exists>ids. nearest_of reference (reference ! i) k (all_indices reference) ids \<and>
      neighborhood_covariance reference k epsilon (sort ids) = Some (cs' ! i)" if inv: "invalid' = 0" and i: "i < offset + threads" for i
  proof (cases "offset \<le> i")
    case True
    then obtain j where j: "i = offset + j" "j < threads" using i by (metis le_iff_add nat_add_left_cancel_less)
    then obtain c where "?cov j = Some c" using launch(6) inv by (auto split: if_splits)
    then show ?thesis using launch(5) assms(7) j by blast
  next
    case False
    have "invalid = 0" using launch(6) inv by (auto split: if_splits)
    then show ?thesis using st(6) launch(4) False batch i st(5) assms(2) by auto
  qed
  moreover have "\<exists>i < length reference. degenerate reference k epsilon i" if "invalid' \<noteq> 0"
  proof (cases "\<exists>i < threads. ?cov i = None")
    case True
    then obtain i where "i < threads" "?cov i = None" by blast
    then have "degenerate reference k epsilon (offset + i)" using assms(7) by (auto simp: degenerate_def)
    then show ?thesis using \<open>i < threads\<close> batch(1) by (intro exI [of _ "offset + i"]) simp
  next
    case False
    then show ?thesis using launch(6) that st(7) by (auto split: if_splits)
  qed
  ultimately have "covariances_so_far reference k epsilon (offset + knn_batch) ?st"
    using ready st(2,5) launch(3) batch(2) by (simp add: covariances_so_far_def)
  with dev show ?thesis by blast
qed

lemma covariance_loop_wp:
  assumes "covariances_so_far reference k epsilon offset st"
  shows "wp (covariance_loop gpu (length reference) k epsilon offset)
    (\<lambda>_ st' _. covariances_so_far reference k epsilon (length reference) st') (\<lambda>_ st'. device_ok reference st' \<and> \<not> calls_succeed gpu) st n"
  using assms
proof (induction "length reference - offset" arbitrary: offset st n rule: less_induct)
  case less
  show ?case
  proof (cases "offset < length reference")
    case False
    then have "min offset (length reference) = min (length reference) (length reference)" by simp
    with less.prems False show ?thesis by (subst covariance_loop.simps) (simp add: wp_simps covariances_so_far_def)
  next
    case True
    let ?threads = "min knn_batch (length reference - offset)"
    have ready: "knn_ready reference k st" using less.prems by (simp add: covariances_so_far_def)
    have batch: "offset + ?threads \<le> length reference" "?threads \<le> knn_batch" using True by auto
    from knn_on_device_ok [OF ready batch] obtain ids ds where
      dev: "knn_on_device offset ?threads k st = Some (st\<lparr>im_knn_indices := Some ids, im_knn_distances := Some ds\<rparr>)"
        "length ids = min (length reference) knn_batch * im_knn_capacity st" "length ds = length ids" "?threads * k \<le> length ids"
        "\<forall>i < ?threads. nearest_of reference (reference ! (offset + i)) k (all_indices reference) (row_of k i ids)"
      by blast
    obtain st' where st': "covariance_on_device offset ?threads k epsilon (st\<lparr>im_knn_indices := Some ids, im_knn_distances := Some ds\<rparr>) = Some st'"
      "covariances_so_far reference k epsilon (offset + knn_batch) st'"
      using covariance_batch_ok [OF less.prems True refl dev(2-5)] by blast
    have ok: "device_ok reference st" "device_ok reference (st\<lparr>im_knn_indices := Some ids, im_knn_distances := Some ds\<rparr>)" "device_ok reference st'"
      using knn_ready_ok [OF ready] knn_ready_ok [OF knn_ready_buffers [OF ready dev(2,3)]] st'(2)
      by (auto simp: covariances_so_far_def knn_ready_ok)
    have smaller: "length reference - (offset + knn_batch) < length reference - offset" using True by (simp add: knn_batch_def)
    note rest = less.hyps [OF smaller st'(2)]
    show ?thesis
      using True dev(1) st'(1) ok rest
      by (subst covariance_loop.simps) (simp add: wp_simps Let_def, (rule wp_checked_succeed | simp add: wp_simps)+)
  qed
qed


lemma covariances_so_far_ok: "covariances_so_far reference k epsilon offset st \<Longrightarrow> device_ok reference st"
  by (auto simp: covariances_so_far_def knn_ready_ok)

lemma covariances_so_far_transfers [simp]:
  "covariances_so_far reference k epsilon offset (im_transfers_update f st) = covariances_so_far reference k epsilon offset st"
  by (simp add: covariances_so_far_def)

lemma covariances_finished:
  assumes "covariances_so_far reference k epsilon (length reference) st" "im_invalid_covariance st = Some 0"
  shows "device_ok reference (st\<lparr>im_covariance_neighbors := k, im_covariance_epsilon := epsilon\<rparr>)"
proof -
  obtain cs where "im_covariances st = Some cs" "covariances_ready reference k epsilon cs" "device_ok reference st"
    using assms covariances_so_far_ok [OF assms(1)] by (auto simp: covariances_so_far_def covariances_ready_def)
  then show ?thesis by (simp add: device_ok_def)
qed

lemma finish_gicp_wp:
  assumes "covariances_so_far reference k epsilon (length reference) st"
  shows "wp (finish_gicp gpu k epsilon) (\<lambda>_ st' _. device_ok reference st' \<and> im_covariance_neighbors st' = k \<and>
      im_covariance_epsilon st' = epsilon \<and> im_covariances st' \<noteq> None)
    (\<lambda>_ st'. device_ok reference st' \<and> \<not> (calls_succeed gpu \<and> (\<forall>i < length reference. \<not> degenerate reference k epsilon i))) st n"
proof -
  obtain cs invalid where "im_covariances st = Some cs" "im_invalid_covariance st = Some invalid"
    "invalid \<noteq> 0 \<Longrightarrow> \<exists>i < length reference. degenerate reference k epsilon i"
    using assms by (auto simp: covariances_so_far_def)
  moreover note ok = covariances_so_far_ok [OF assms] covariances_finished [OF assms]
  have "device_ok reference (st\<lparr>im_transfers := t, im_covariance_neighbors := k, im_covariance_epsilon := epsilon\<rparr>)"
    if "im_invalid_covariance st = Some 0" for t
    using ok(2) [OF that] by (simp add: device_ok_def)
  ultimately show ?thesis
    unfolding finish_gicp_def using ok(1)
    by (simp add: wp_simps) (rule wp_checked_succeed | simp add: wp_simps)+
qed

lemma gicp_buffers_wp:
  assumes "knn_ready reference k st" "im_covariance_neighbors st = 0"
  shows "wp (gicp_buffers gpu) (\<lambda>_. \<lambda>st' _. covariances_so_far reference k epsilon 0 st') (\<lambda>_ st'. device_ok reference st' \<and> \<not> calls_succeed gpu) st n"
proof -
  have "length (im_reference st) = length reference"
    using assms(1) search_data_length by (auto simp: knn_ready_def device_ok_def)
  then show ?thesis
    unfolding gicp_buffers_def wp_simps wp_if using assms
    by (cases "im_covariances st"; cases "im_invalid_covariance st")
      ((simp add: wp_simps, (rule wp_checked_succeed wp_transferred_succeed | simp add: wp_simps covariances_so_far_def knn_ready_def device_ok_def)+))+
qed

text \<open>What \<open>prepare_gicp\<close> demands besides.\<close>

definition gicp_allowed :: "Vec3f list \<Rightarrow> nat \<Rightarrow> f64 \<Rightarrow> 's Impl \<Rightarrow> bool" where
  "gicp_allowed reference k epsilon st \<longleftrightarrow> 3 \<le> k \<and> isfinite epsilon \<and> 0 < epsilon \<and> epsilon \<le> 1 \<and> im_covariance_neighbors st = 0 \<and>
     (\<forall>i < length reference. \<not> degenerate reference k epsilon i)"

lemma prepare_gicp_wp:
  assumes "device_ok reference st" "buffers_ok st"
  shows "wp (prepare_gicp gpu k epsilon) (\<lambda>_ st' _. device_ok reference st' \<and> im_covariance_neighbors st' = k \<and>
      im_covariance_epsilon st' = epsilon \<and> im_covariances st' \<noteq> None)
    (\<lambda>_ st'. device_ok reference st' \<and> \<not> (calls_succeed gpu \<and> knn_allowed reference k st \<and> gicp_allowed reference k epsilon st)) st n"
proof (cases "k < 3 \<or> \<not> isfinite epsilon \<or> epsilon \<le> 0 \<or> 1 < epsilon \<or> im_covariance_neighbors st \<noteq> 0")
  case True
  then have "\<not> gicp_allowed reference k epsilon st" using fp_less_not_ge by (fastforce simp: gicp_allowed_def)
  then show ?thesis using True assms(1) by (auto simp: prepare_gicp_def wp_simps)
next
  case False
  have len: "length (im_reference st) = length reference"
    using assms(1) search_data_length by (auto simp: device_ok_def)
  let ?Q = "\<lambda>_ st' _. device_ok reference st' \<and> im_covariance_neighbors st' = k \<and> im_covariance_epsilon st' = epsilon \<and>
      im_covariances st' \<noteq> None" and ?E = "\<lambda>_ st'. device_ok reference st' \<and> \<not> (calls_succeed gpu \<and> knn_allowed reference k st \<and> gicp_allowed reference k epsilon st)"
  have loop: "wp (covariance_loop gpu (length reference) k epsilon 0) (\<lambda>_. wp (finish_gicp gpu k epsilon) ?Q ?E) ?E st' n'"
    if "covariances_so_far reference k epsilon 0 st'" for st' :: "'a Impl" and n'
    by (rule wp_mono [OF covariance_loop_wp [OF that] wp_mono [OF finish_gicp_wp]]) (auto simp: gicp_allowed_def)
  have buffers: "wp (gicp_buffers gpu) (\<lambda>_. wp (covariance_loop gpu (length reference) k epsilon 0)
      (\<lambda>_. wp (finish_gicp gpu k epsilon) ?Q ?E) ?E) ?E st' n'"
    if "knn_ready reference k st'" "im_covariance_neighbors st' = 0" for st' :: "'a Impl" and n'
    by (rule wp_mono [OF gicp_buffers_wp [OF that] loop]) simp_all
  have "wp (prepare_knn gpu k) (\<lambda>_. wp (gicp_buffers gpu) (\<lambda>_. wp (covariance_loop gpu (length reference) k epsilon 0)
      (\<lambda>_. wp (finish_gicp gpu k epsilon) ?Q ?E) ?E) ?E) ?E st n"
    by (rule wp_mono [OF prepare_knn_wp [OF assms] buffers]) (use False in auto)
  then show ?thesis using False by (simp add: prepare_gicp_def wp_simps len)
qed

end
