(* ===== verification/CudaSolver.thy ===== *)
theory CudaSolver
  imports CudaHost
begin

text \<open>
  The resident search as the registration solver uses it (\<open>Prepared\<close> in \<open>pcl_registration_backend.cpp\<close>,
  built with CUDA): constructed over the reference, prepared once, then any number of scan uploads and
  evaluations, each of which may fail. The invariants of that use, and what an evaluation returns in terms
  of the CPU solver.
\<close>

subsection \<open>What an operation leaves alone\<close>

text \<open>\<open>f\<close> reads the same before and after \<open>m\<close>, whether it returns or throws.\<close>

definition keeps :: "('s Impl \<Rightarrow> 'b) \<Rightarrow> ('s, 'a) cuda \<Rightarrow> bool" where
  "keeps f m \<longleftrightarrow> (\<forall>st n outcome st' n'. m st n = Some (outcome, st', n') \<longrightarrow> f st' = f st)"

lemma keeps_bind: "keeps f m \<Longrightarrow> (\<And>a. keeps f (g a)) \<Longrightarrow> keeps f (cuda_bind m g)"
  unfolding keeps_def cuda_bind_def by (fastforce split: option.splits sum.splits)

lemma keeps_simple [simp]:
  "keeps f (cuda_return a)" "keeps f (cuda_throw e)" "keeps f cuda_get" "keeps f (cuda_require b e)" "keeps f (cuda_defined x)"
  "keeps f (checked gpu operation)"
  by (auto simp: keeps_def cuda_return_def cuda_throw_def cuda_get_def cuda_require_def cuda_defined_def checked_def)

lemma keeps_transferred: "(\<And>n st. f (lost n st) = f st) \<Longrightarrow> keeps f (transferred gpu operation lost)"
  by (auto simp: keeps_def transferred_def split: option.splits)

lemma keeps_update: "(\<And>st. f (u st) = f st) \<Longrightarrow> keeps f (cuda_update u)"
  by (simp add: keeps_def cuda_update_def)

lemma keeps_launch: "(\<And>st st'. l st = Some st' \<Longrightarrow> f st' = f st) \<Longrightarrow> keeps f (cuda_launch l)"
  by (auto simp: keeps_def cuda_launch_def)

lemma keeps_if: "keeps f m \<Longrightarrow> keeps f m' \<Longrightarrow> keeps f (if b then m else m')"
  by simp

lemma wp_keeps:
  assumes "wp m Q E st n" "keeps f m"
  shows "wp m (\<lambda>a st' n'. Q a st' n' \<and> f st' = f st) (\<lambda>e st'. E e st' \<and> f st' = f st) st n"
  using assms by (fastforce simp: wp_def keeps_def split: option.splits sum.splits)

text \<open>Preparing neighbours and covariances does not touch the resident workspace.\<close>

definition workspace :: "'s Impl \<Rightarrow> bool \<times> Vec3d list option" where
  "workspace st = (im_resident st, im_reference_normals st)"

lemma prepare_knn_keeps: "keeps workspace (prepare_knn gpu k)"
  unfolding prepare_knn_def Let_def
  by (intro keeps_bind keeps_if keeps_update keeps_simple) (simp_all add: workspace_def)

lemma knn_launch_keeps: "knn_on_device offset threads k st = Some st' \<Longrightarrow> workspace st' = workspace st"
  by (auto simp: knn_on_device_def workspace_def split: Option.bind_splits)

lemma covariance_launch_keeps: "covariance_on_device offset threads k epsilon st = Some st' \<Longrightarrow> workspace st' = workspace st"
  by (auto simp: covariance_on_device_def workspace_def split: Option.bind_splits prod.splits)

lemma covariance_loop_keeps: "keeps workspace (covariance_loop gpu len k epsilon offset)"
proof (induction gpu len k epsilon offset rule: covariance_loop.induct)
  case (1 gpu len k epsilon offset)
  then show ?case
    by (subst covariance_loop.simps)
      (auto simp: Let_def intro!: keeps_bind keeps_launch elim: knn_launch_keeps covariance_launch_keeps)
qed

lemma prepare_gicp_keeps: "keeps workspace (prepare_gicp gpu k epsilon)"
  unfolding prepare_gicp_def gicp_buffers_def finish_gicp_def device_to_host_def
  by (intro keeps_bind keeps_if keeps_update keeps_transferred keeps_simple prepare_knn_keeps covariance_loop_keeps) (simp_all add: workspace_def)

lemma create_returned:
  assumes "permutes_range nth_elem" "CorrespondenceSearch_create gpu nth_elem reference capacity strategy n = Some (Inr (st :: 's Impl), n')"
  shows "device_ok reference st \<and> im_strategy st = strategy \<and> im_capacity st = capacity \<and> \<not> im_resident st \<and>
    im_knn_capacity st = 0 \<and> im_scan_count st = 0 \<and> im_covariance_neighbors st = 0"
  using create_ok [OF assms(1), where 's = 's, of gpu reference capacity strategy n] assms(2) by auto

subsection \<open>A device that works\<close>

text \<open>No call fails and the current device stays \<open>device\<close>.\<close>

definition reliable :: "gpu \<Rightarrow> int \<Rightarrow> bool" where
  "reliable gpu device \<longleftrightarrow> (\<forall>n. gpu_call gpu n = None \<and> gpu_device gpu n = device)"

lemma wp_checked_reliable:
  assumes "Q n st (Suc n)" "\<And>e. \<not> reliable gpu device \<Longrightarrow> E e st"
  shows "wp (checked gpu operation) Q E st n"
proof (cases "gpu_call gpu n")
  case (Some e)
  then have "\<not> reliable gpu device" by (auto simp: reliable_def)
  then show ?thesis using assms(2) Some by (simp add: wp_def checked_def)
qed (use assms(1) in \<open>simp add: wp_def checked_def\<close>)

lemma wp_transferred_reliable:
  assumes "Q n st (Suc n)" "\<And>e. \<not> reliable gpu device \<Longrightarrow> E e (lost n st)"
  shows "wp (transferred gpu operation lost) Q E st n"
proof (cases "gpu_call gpu n")
  case (Some e)
  then have "\<not> reliable gpu device" by (auto simp: reliable_def)
  then show ?thesis using assms(2) Some by (simp add: wp_def transferred_def)
qed (use assms(1) in \<open>simp add: wp_def transferred_def\<close>)

lemma wp_same_device_reliable:
  assumes "Q () st (Suc n)" "\<And>e. \<not> reliable gpu (im_device st) \<Longrightarrow> E e st"
  shows "wp (same_device gpu) Q E st n"
  unfolding same_device_def wp_bind
  by (rule wp_checked_reliable [where device = "im_device st"]) (use assms in \<open>auto simp: wp_simps reliable_def\<close>)

subsection \<open>The scan on the device\<close>

definition scan_ready :: "Vec3d list \<Rightarrow> Vec3d list \<Rightarrow> CorrespondenceSearch \<Rightarrow> bool" where
  "scan_ready points normals st \<longleftrightarrow> im_resident st \<and> im_scan_count st = length points \<and>
     (\<exists>s. im_scan st = Some s \<and> take (length points) s = points) \<and>
     (im_has_scan_normals st \<longleftrightarrow> normals \<noteq> []) \<and>
     (normals \<noteq> [] \<longrightarrow> length normals = length points \<and> (\<exists>ns. im_scan_normals st = Some ns \<and> take (length points) ns = normals)) \<and>
     (im_covariance_neighbors st \<noteq> 0 \<longrightarrow> (\<exists>inner cs. im_scan_search st = Some inner \<and> im_covariances inner = Some cs \<and>
        covariances_ready (map narrow3 points) (im_covariance_neighbors st) (im_covariance_epsilon st) cs))"

lemma scan_ready_transfers [simp]: "scan_ready points normals (im_transfers_update f st) = scan_ready points normals st"
  by (simp add: scan_ready_def)

lemma build_scan_search_wp:
  assumes "permutes_range nth_elem" "k \<noteq> 0"
  shows "wp (build_scan_search gpu nth_elem k epsilon packed)
    (\<lambda>inner st' _. st' = st \<and> (\<exists>cs. im_covariances inner = Some cs \<and> covariances_ready packed k epsilon cs)) (\<lambda>_ st'. st' = st) st n"
proof -
  from create_ok [OF assms(1)] obtain outcome n1 where
    create: "CorrespondenceSearch_create gpu nth_elem packed 1 strategy_indexed n = Some (outcome :: exn + ScanSearch, n1)"
      "\<And>inner. outcome = Inr inner \<Longrightarrow> device_ok packed inner \<and> im_knn_capacity inner = 0"
    by fastforce
  show ?thesis
  proof (cases outcome)
    case (Inl e)
    then show ?thesis using create(1) by (simp add: wp_def build_scan_search_def)
  next
    case (Inr inner)
    have "wp (cuda_bind (prepare_resident gpu []) (\<lambda>_. prepare_gicp gpu k epsilon))
        (\<lambda>_ st' _. device_ok packed st' \<and> im_covariance_neighbors st' = k \<and> im_covariance_epsilon st' = epsilon) (\<lambda>_ _. True) inner n1"
      unfolding wp_bind
    proof (rule wp_mono [OF prepare_resident_wp])
      fix st' n' assume "device_ok packed st' \<and> im_resident st' \<and> im_strategy st' = im_strategy inner \<and>
        im_scan_count st' = im_scan_count inner \<and> im_knn_capacity st' = im_knn_capacity inner \<and>
        im_covariance_neighbors st' = im_covariance_neighbors inner \<and>
        im_reference_normals st' = (if [] = [] then None else Some [])"
      then have ok: "device_ok packed st'" "buffers_ok st'" using create(2) Inr by (simp_all add: buffers_ok_def)
      show "wp (prepare_gicp gpu k epsilon) (\<lambda>_ st' _. device_ok packed st' \<and> im_covariance_neighbors st' = k \<and>
        im_covariance_epsilon st' = epsilon) (\<lambda>_ _. True) st' n'"
        by (rule wp_mono [OF prepare_gicp_wp [OF ok]]) simp_all
    qed (use create(2) Inr in simp_all)
    note wp = this
    obtain outcome' inner' n2 where run: "cuda_bind (prepare_resident gpu []) (\<lambda>_. prepare_gicp gpu k epsilon) inner n1 = Some (outcome', inner', n2)"
      using wp by (auto simp: wp_def split: option.splits)
    then have built: "build_scan_search gpu nth_elem k epsilon packed st n =
        Some (case outcome' of Inl e \<Rightarrow> Inl e | Inr _ \<Rightarrow> Inr inner', st, n2)"
      using create(1) Inr by (simp add: build_scan_search_def)
    show ?thesis
    proof (cases outcome')
      case (Inr u)
      from wp_returned [OF wp run [unfolded Inr]] have "device_ok packed inner'" "im_covariance_neighbors inner' = k"
        "im_covariance_epsilon inner' = epsilon" by simp_all
      then have "\<exists>cs. im_covariances inner' = Some cs \<and> covariances_ready packed k epsilon cs"
        using assms(2) by (auto simp: device_ok_def)
      then show ?thesis using built Inr by (simp add: wp_def)
    qed (use built in \<open>simp add: wp_def\<close>)
  qed
qed

subsection \<open>Upload\<close>

text \<open>What \<open>upload_scan\<close> demands of its arguments.\<close>

definition uploadable :: "Vec3d list \<Rightarrow> Vec3d list \<Rightarrow> 's Impl \<Rightarrow> bool" where
  "uploadable points normals st \<longleftrightarrow> im_resident st \<and> points \<noteq> [] \<and> length points \<le> im_capacity st \<and>
     (normals \<noteq> [] \<longrightarrow> length normals = length points) \<and> list_all is_finite3 points"

lemma fill_scan_wp:
  assumes "device_ok reference st" "permutes_range nth_elem" "uploadable points normals st" "im_scan_count st = 0"
  shows "wp (fill_scan gpu nth_elem points normals)
    (\<lambda>_ st' _. device_ok reference st' \<and> scan_ready points normals st' \<and> points \<noteq> [] \<and> im_reference_normals st' = im_reference_normals st \<and>
       im_covariance_neighbors st' = im_covariance_neighbors st)
    (\<lambda>_ st'. device_ok reference st' \<and> im_scan_count st' = 0 \<and> im_resident st' = im_resident st \<and>
       im_reference_normals st' = im_reference_normals st \<and> im_covariance_neighbors st' = im_covariance_neighbors st \<and>
       \<not> (reliable gpu (im_device st) \<and> im_covariance_neighbors st = 0)) st n"
proof -
  obtain s ns where st: "im_scan st = Some s" "im_scan_normals st = Some ns" "length s = im_capacity st" "length ns = im_capacity st"
    using assms(1,3) by (auto simp: device_ok_def uploadable_def)
  have stored: "take (length points) (store points s) = points" "normals \<noteq> [] \<Longrightarrow> take (length points) (store normals ns) = normals"
    "length (store points s) = im_capacity st" "normals \<noteq> [] \<Longrightarrow> length (store normals ns) = im_capacity st"
    using assms(3) st by (auto simp: store_def uploadable_def)
  have fits: "length points \<le> im_capacity st" "length normals \<le> im_capacity st" "im_resident st" "points \<noteq> []"
    "normals \<noteq> [] \<Longrightarrow> length normals = length points"
    using assms(3) by (auto simp: uploadable_def)
  show ?thesis
    unfolding fill_scan_def wp_simps wp_if
    using assms(1,4) st stored fits
    by (simp add: wp_simps)
      (rule impI conjI wp_transferred_reliable [where device = "im_device st"] wp_mono [OF build_scan_search_wp [OF assms(2)]] |
        simp add: wp_simps device_ok_def scan_ready_def lost_scan_def lost_scan_normals_def)+
qed

text \<open>
  The device check of \<open>upload_scan\<close> at call \<open>n\<close>: only after it does an upload touch the scan.
\<close>

definition device_unchanged :: "gpu \<Rightarrow> nat \<Rightarrow> 's Impl \<Rightarrow> bool" where
  "device_unchanged gpu n st \<longleftrightarrow> gpu_call gpu n = None \<and> gpu_device gpu n = im_device st"

lemma upload_scan_refused:
  assumes "\<not> (uploadable points normals st \<and> device_unchanged gpu n st)"
  shows "\<exists>e n'. upload_scan gpu nth_elem points normals st n = Some (Inl e, st, n')"
  using assms by (auto simp: upload_scan_def uploadable_def device_unchanged_def same_device_def checked_def cuda_bind_def cuda_get_def
      cuda_require_def cuda_return_def cuda_throw_def split: option.splits)

lemma upload_scan_accepted:
  assumes "uploadable points normals st" "device_unchanged gpu n st"
  shows "upload_scan gpu nth_elem points normals st n = fill_scan gpu nth_elem points normals (st\<lparr>im_scan_count := 0\<rparr>) (Suc n)"
  using assms by (auto simp: upload_scan_def uploadable_def device_unchanged_def same_device_def checked_def cuda_bind_def cuda_get_def
      cuda_require_def cuda_return_def cuda_throw_def cuda_update_def)

lemma upload_scan_wp:
  assumes "device_ok reference st" "permutes_range nth_elem"
  shows "wp (upload_scan gpu nth_elem points normals)
    (\<lambda>_ st' _. device_ok reference st' \<and> scan_ready points normals st' \<and> points \<noteq> [] \<and> im_reference_normals st' = im_reference_normals st \<and>
       im_covariance_neighbors st' = im_covariance_neighbors st)
    (\<lambda>_ st'. device_ok reference st' \<and>
       (if uploadable points normals st \<and> device_unchanged gpu n st then im_scan_count st' = 0 else st' = st) \<and>
       im_resident st' = im_resident st \<and>
       im_reference_normals st' = im_reference_normals st \<and> im_covariance_neighbors st' = im_covariance_neighbors st \<and>
       \<not> (reliable gpu (im_device st) \<and> im_covariance_neighbors st = 0 \<and> uploadable points normals st)) st n"
    (is "wp _ ?Q ?E st n")
proof (cases "uploadable points normals st \<and> device_unchanged gpu n st")
  case False
  then have "\<not> (reliable gpu (im_device st) \<and> uploadable points normals st)"
    by (auto simp: reliable_def device_unchanged_def)
  then show ?thesis using upload_scan_refused [OF False, of nth_elem] False assms(1) by (auto simp: wp_def)
next
  case True
  let ?st = "st\<lparr>im_scan_count := 0\<rparr>"
  have "device_ok reference ?st" "uploadable points normals ?st"
    using assms(1) True by (simp_all add: device_ok_def uploadable_def)
  then have "wp (fill_scan gpu nth_elem points normals) ?Q ?E ?st (Suc n)"
    by (intro wp_mono [OF fill_scan_wp [OF _ assms(2), of reference ?st]]) (use True in auto)
  then show ?thesis using upload_scan_accepted [OF conjunct1 [OF True] conjunct2 [OF True]] by (simp add: wp_def)
qed


subsection \<open>Evaluation\<close>

lemma those_defined: "(\<And>x. x \<in> set xs \<Longrightarrow> f x \<noteq> None) \<Longrightarrow> those (map f xs) \<noteq> None"
proof (induction xs)
  case (Cons x xs)
  then show ?case by (cases "f x") fastforce+
qed simp

lemma resident_equations_defined:
  assumes "ob_reference_covariances ob \<noteq> None \<Longrightarrow> ob_scan_covariances ob \<noteq> None"
  shows "\<exists>equations. resident_equations ob = Some equations"
proof -
  have "lane_information ob i target \<noteq> None" for i target
    using assms by (auto simp: lane_information_def split: option.split)
  then have "matched_lane ob i target \<noteq> None" for i target
    by (auto simp: matched_lane_def Let_def)
  then have "resident_lane ob i \<noteq> None" for i
    by (auto simp: resident_lane_def)
  then have "equation_block ob b \<noteq> None" for b
    using those_defined [of "[0..<kBlockSize]" "\<lambda>lane. resident_lane ob (b * kBlockSize + lane)"] by (auto simp: equation_block_def)
  then have "resident_equations ob \<noteq> None"
    unfolding resident_equations_def by (rule those_defined)
  then show ?thesis by blast
qed

text \<open>The problem that the objective kernel is given, whatever the buffers hold behind the scan.\<close>

definition resident_problem ::
  "Vec3f list \<Rightarrow> Vec3d list option \<Rightarrow> Vec3d list \<Rightarrow> Vec3d list \<Rightarrow> Mat4 \<Rightarrow> f64 \<Rightarrow> f64 \<Rightarrow> bool \<Rightarrow> bool \<Rightarrow> Objective \<Rightarrow> bool" where
  "resident_problem reference ref_normals points normals pose radius huber plane final ob \<longleftrightarrow>
     ob_reference ob = reference \<and> ob_ref_normals ob = ref_normals \<and> ob_count ob = length points \<and>
     length points \<le> 2 ^ 31 \<and> ob_pose ob = pose \<and>
     ob_huber ob = huber \<and> ob_plane ob = plane \<and> ob_final_metrics ob = final \<and>
     (ob_scan_normals ob = None \<longleftrightarrow> normals = []) \<and> (\<forall>ns. ob_scan_normals ob = Some ns \<longrightarrow> take (length points) ns = normals) \<and>
     (\<forall>i < length points. ob_transformed ob ! i = transform_point pose (points ! i) \<and>
       ob_queries ob ! i = narrow3 (transform_point pose (points ! i)) \<and>
       (is_finite3 (ob_queries ob ! i) \<longrightarrow> best_match reference (ob_queries ob ! i) (radius * radius) (all_indices reference) (ob_indices ob ! i)))"

definition evaluated ::
  "Vec3f list \<Rightarrow> Vec3d list \<Rightarrow> Vec3d list \<Rightarrow> Mat4 \<Rightarrow> f64 \<Rightarrow> f64 \<Rightarrow> bool \<Rightarrow> bool \<Rightarrow> CorrespondenceSearch \<Rightarrow> f64 list \<Rightarrow> bool" where
  "evaluated reference points normals pose radius huber plane final st result \<longleftrightarrow>
     (\<exists>ob equations. resident_problem reference (im_reference_normals st) points normals pose radius huber plane final ob \<and>
        (im_covariance_neighbors st = 0 \<longrightarrow> ob_reference_covariances ob = None) \<and>
        (plane \<longrightarrow> im_reference_normals st \<noteq> None) \<and> isfinite radius \<and>
        resident_equations ob = Some equations \<and> result = merge_equations equations \<and> feq (result ! 44) 0)"

lemma nth_of_take: "take n xs = ys \<Longrightarrow> i < n \<Longrightarrow> xs ! i = ys ! i"
  by (metis nth_take)

text \<open>What \<open>evaluate\<close> demands: the guards, and every moved point within the range of a float.\<close>

definition evaluable :: "Vec3d list \<Rightarrow> Mat4 \<Rightarrow> f64 \<Rightarrow> f64 \<Rightarrow> bool \<Rightarrow> 's Impl \<Rightarrow> bool" where
  "evaluable points pose radius huber plane st \<longleftrightarrow> points \<noteq> [] \<and> (plane \<longrightarrow> im_reference_normals st \<noteq> None) \<and>
     isfinite radius \<and> 0 < radius \<and> isfinite huber \<and> 0 < huber \<and> list_all isfinite pose \<and>
     list_all (\<lambda>p. is_finite3 (narrow3 (transform_point pose p))) points"

lemma evaluate_wp:
  assumes "device_ok reference st" "gpu_ok gpu" "scan_ready points normals st"
  shows "wp (evaluate gpu pose radius huber plane final)
    (\<lambda>result st' _. device_ok reference st' \<and> scan_ready points normals st' \<and> im_reference_normals st' = im_reference_normals st \<and>
       im_covariance_neighbors st' = im_covariance_neighbors st \<and>
       evaluated reference points normals pose radius huber plane final st result)
    (\<lambda>_ st'. device_ok reference st' \<and> scan_ready points normals st' \<and> im_reference_normals st' = im_reference_normals st \<and>
       im_covariance_neighbors st' = im_covariance_neighbors st \<and>
       \<not> (reliable gpu (im_device st) \<and> evaluable points pose radius huber plane st)) st n"
proof (cases "\<not> im_resident st \<or> im_scan_count st = 0 \<or> (plane \<and> im_reference_normals st = None) \<or>
    \<not> isfinite radius \<or> radius \<le> 0 \<or> \<not> isfinite huber \<or> huber \<le> 0 \<or> \<not> list_all isfinite pose")
  case True
  then have "\<not> evaluable points pose radius huber plane st"
    using assms(3) fp_less_not_ge by (fastforce simp: evaluable_def scan_ready_def)
  then show ?thesis using True assms(1,3) by (auto simp: evaluate_def wp_simps)
next
  case False
  let ?n = "length points"
  obtain s ns ts where st: "im_original_reference st = Some reference" "im_scan st = Some s" "im_scan_normals st = Some ns"
    "im_transformed st = Some ts" "length s = im_capacity st" "length ns = im_capacity st" "length ts = im_capacity st"
    using assms(1) False by (auto simp: device_ok_def)
  have scan: "im_scan_count st = ?n" "take ?n s = points" "im_has_scan_normals st \<longleftrightarrow> normals \<noteq> []" "normals \<noteq> [] \<Longrightarrow> take ?n ns = normals"
    using assms(3) st by (auto simp: scan_ready_def)
  have cap: "?n \<le> im_capacity st" "length (im_queries st) = im_capacity st" "int (im_capacity st) \<le> int32_max"
    using assms(1) scan(1) by (auto simp: device_ok_def)
  obtain transformed queries where launch: "transform_launch s pose ?n (ts, im_queries st) = (transformed, queries)" by fastforce
  note t = transform_launched [OF _ _ launch, simplified, OF cap(1) [folded st(7)] cap(1) [folded cap(2)]]
  let ?st1 = "st\<lparr>im_transformed := Some transformed, im_queries := queries\<rparr>"
  have dev1: "transform_on_device pose st = Some ?st1"
    using st(2,4) scan(1) launch by (simp add: transform_on_device_def)
  have ok1: "device_ok reference ?st1" using assms(1) st cap(2) t(1,2) by (simp add: device_ok_def)
  have cap1: "?n \<le> im_capacity ?st1" using cap(1) by simp
  from search_launch_ok [OF ok1 assms(2) cap1 square_number] False obtain indices where
    search: "search_launch gpu ?n (radius * radius) ?st1 = Some (?st1\<lparr>im_indices := indices\<rparr>)" "length indices = im_capacity st"
      "list_all2 (\<lambda>q r. is_finite3 q \<longrightarrow> best_match reference q (radius * radius) (all_indices reference) r) (take ?n queries) (take ?n indices)"
    by auto
  let ?st2 = "?st1\<lparr>im_indices := indices\<rparr>"
  have ok2: "device_ok reference ?st2" "scan_ready points normals ?st1" "scan_ready points normals ?st2"
    using ok1 search(2) assms(3) by (simp_all add: device_ok_def scan_ready_def)
  obtain ob where ob: "objective_arguments pose huber plane final ?st2 = Some ob"
    "ob = \<lparr>ob_reference = reference, ob_ref_normals = im_reference_normals st, ob_transformed = transformed, ob_queries = queries,
       ob_scan_normals = (if im_has_scan_normals st then Some ns else None), ob_indices = indices, ob_count = ?n, ob_pose = pose,
       ob_huber = huber, ob_plane = plane, ob_final_metrics = final,
       ob_reference_covariances = (if im_covariance_neighbors st \<noteq> 0 then im_covariances st else None),
       ob_scan_covariances = (case im_scan_search st of None \<Rightarrow> None | Some inner \<Rightarrow> im_covariances inner)\<rparr>"
    using st scan(1) by (simp add: objective_arguments_def)
  obtain equations where equations: "resident_equations ob = Some equations"
    using resident_equations_defined [of ob] assms(3) by (auto simp: ob(2) scan_ready_def)
  have "s ! i = points ! i" if "i < ?n" for i using nth_of_take [OF scan(2) that] .
  moreover have "is_finite3 (queries ! i) \<longrightarrow> best_match reference (queries ! i) (radius * radius) (all_indices reference) (indices ! i)"
    if "i < ?n" for i using search(3) that cap(1) t(2) cap(2) by (auto simp: list_all2_conv_all_nth)
  ultimately have problem: "resident_problem reference (im_reference_normals st) points normals pose radius huber plane final ob"
    using t(3) scan(3,4) cap by (auto simp: resident_problem_def ob(2) int32_max_def)
  with equations have eval: "evaluated reference points normals pose radius huber plane final st (merge_equations equations)"
    if "feq (merge_equations equations ! 44) 0"
    using that equations False by (auto simp: evaluated_def ob(2) intro!: exI [of _ ob])
  have in_range: "feq (merge_equations equations ! 44) 0" if "evaluable points pose radius huber plane st"
  proof -
    have "\<not> out_of_range ob i" for i
      using that problem unfolding evaluable_def out_of_range_def resident_problem_def by (auto simp: list_all_length)
    then show ?thesis using merged_counts [OF equations] problem by (simp add: resident_problem_def of_count_zero feq_def fp_le_def zero_fp_def)
  qed
  then have in_range': "\<not> evaluable points pose radius huber plane st" if "\<not> feq (merge_equations equations ! 44) 0"
    using that by blast
  show ?thesis
    unfolding evaluate_def wp_simps
    using False assms(1,3) dev1 search(1) ok1 ok2 ob(1) equations eval in_range' scan(1)
    by (simp add: wp_simps)
      (rule impI conjI wp_same_device_reliable wp_checked_reliable [where device = "im_device st"] | simp add: wp_simps Let_def)+
qed

subsection \<open>A working device\<close>

definition working_gpu :: gpu where
  "working_gpu = \<lparr>gpu_call = (\<lambda>_. None), gpu_device = (\<lambda>_. 0), gpu_point = (\<lambda>_ _. Vec3 0 0 0), gpu_vector = (\<lambda>_ _. Vec3 0 0 0),
     gpu_index = (\<lambda>_ _. 0), gpu_number = (\<lambda>_ _. 0), gpu_matrix = (\<lambda>_ _. []), gpu_shared = replicate kBlockSize (Vec3 0 0 0)\<rparr>"

lemma working_gpu_ok: "gpu_ok working_gpu" "reliable working_gpu 0"
  by (simp_all add: gpu_ok_def reliable_def working_gpu_def)

text \<open>The calls from \<open>n\<close> on work before number \<open>m\<close>.\<close>

definition calls_work :: "gpu \<Rightarrow> nat \<Rightarrow> nat \<Rightarrow> bool" where
  "calls_work gpu n m \<longleftrightarrow> (\<forall>i. n \<le> i \<and> i < m \<longrightarrow> gpu_call gpu i = None)"

lemma working_checked: "calls_work gpu n m \<Longrightarrow> n \<le> i \<and> i < m \<Longrightarrow> wp (checked gpu operation) Q E st i = Q i st (Suc i)"
  by (simp add: wp_def checked_def calls_work_def)

lemma wp_no_throw: "wp m Q (\<lambda>_ _. False) st n \<Longrightarrow> \<exists>a st' n'. m st n = Some (Inr a, st', n') \<and> Q a st' n'"
  by (simp add: wp_def split: option.splits prod.splits sum.splits)

lemma working_create:
  assumes "reference \<noteq> []" "0 < capacity" "int (length reference) \<le> int32_max" "int capacity \<le> int32_max" "list_all is_finite3 reference"
    and "build_spatial_index nth_elem reference = Inr index" "calls_work gpu n (n + 11)"
  shows "\<exists>st. CorrespondenceSearch_create gpu nth_elem reference capacity strategy_indexed n = Some (Inr (st :: 's Impl), n + 11) \<and>
    im_scan st = None \<and> im_original_reference st = None \<and> im_reference_normals st = None \<and> \<not> im_resident st \<and>
    im_capacity st = capacity \<and> im_device st = gpu_device gpu n \<and> im_scan_count st = 0"
proof -
  have "wp (upload_reference gpu index capacity strategy_indexed (si_points index))
      (\<lambda>_ (st :: 's Impl) n'. n' = n + 11 \<and> im_scan st = None \<and> im_original_reference st = None \<and> im_reference_normals st = None \<and>
         \<not> im_resident st \<and> im_capacity st = capacity \<and> im_device st = gpu_device gpu n \<and> im_scan_count st = 0)
      (\<lambda>_ _. False) (empty_impl strategy_indexed capacity) n"
    by (simp add: upload_reference_def wp_simps working_checked [OF assms(7)] empty_impl_def)
  from wp_no_throw [OF this] obtain st :: "'s Impl" where
    "upload_reference gpu index capacity strategy_indexed (si_points index) (empty_impl strategy_indexed capacity) n = Some (Inr (), st, n + 11)"
    "im_scan st = None" "im_original_reference st = None" "im_reference_normals st = None" "\<not> im_resident st" "im_capacity st = capacity"
    "im_device st = gpu_device gpu n" "im_scan_count st = 0"
    by auto
  then show ?thesis using assms by (auto simp: CorrespondenceSearch_create_def)
qed

lemma working_prepare:
  assumes "im_scan st = None" "im_original_reference st = None" "im_reference_normals st = None" "\<not> im_resident st"
    and "im_strategy st = strategy_indexed" "calls_work gpu n (n + 8)"
  shows "\<exists>st'. prepare_resident gpu [] st n = Some (Inr (), st', n + 8) \<and> im_capacity st' = im_capacity st \<and>
    im_device st' = im_device st \<and> im_scan_count st' = im_scan_count st"
proof -
  have "wp (prepare_resident gpu []) (\<lambda>_ st' n'. n' = n + 8 \<and> im_capacity st' = im_capacity st \<and> im_device st' = im_device st \<and>
      im_scan_count st' = im_scan_count st) (\<lambda>_ _. False) st n"
    using assms by (simp add: prepare_resident_def wp_simps working_checked [OF assms(6)] Let_def restore_on_device_def)
  from wp_no_throw [OF this] show ?thesis by auto
qed

lemma working_search:
  assumes "permutes_range nth_elem" "reference \<noteq> []" "0 < capacity" "int (length reference) \<le> int32_max" "int capacity \<le> int32_max"
    and "list_all is_finite3 reference" "calls_work gpu n (n + 19)"
  shows "\<exists>st st1. CorrespondenceSearch_create gpu nth_elem reference capacity strategy_indexed n = Some (Inr (st :: 's Impl), n + 11) \<and>
     prepare_resident gpu [] st (n + 11) = Some (Inr (), st1, n + 19) \<and> im_capacity st1 = capacity \<and>
     im_device st1 = gpu_device gpu n \<and> im_scan_count st1 = 0"
proof -
  have calls: "calls_work gpu n (n + 11)" "calls_work gpu (n + 11) (n + 11 + 8)" using assms(7) by (simp_all add: calls_work_def)
  obtain index where index: "build_spatial_index nth_elem reference = Inr index"
    using assms(2,4,6) by (auto simp: build_spatial_index_def Let_def)
  obtain st :: "'s Impl" where create: "CorrespondenceSearch_create gpu nth_elem reference capacity strategy_indexed n = Some (Inr st, n + 11)"
    and st: "im_scan st = None" "im_original_reference st = None" "im_reference_normals st = None" "\<not> im_resident st"
      "im_capacity st = capacity" "im_device st = gpu_device gpu n" "im_scan_count st = 0"
    using working_create [OF assms(2-6) index calls(1), where 's = 's] by auto
  have "im_strategy st = strategy_indexed" using create_returned [OF assms(1) create] by simp
  from working_prepare [OF st(1-4) this calls(2)] show ?thesis using create st(5-7) by auto
qed

lemma working_gpu_calls: "calls_work working_gpu n m"
  by (simp add: calls_work_def working_gpu_def)

subsection \<open>Neighbours and covariances\<close>

lemma wp_both: "wp m Q E st n \<Longrightarrow> wp m Q' E' st n \<Longrightarrow> wp m (\<lambda>a st' n'. Q a st' n' \<and> Q' a st' n') (\<lambda>e st'. E e st' \<and> E' e st') st n"
  by (auto simp: wp_def split: option.splits sum.splits)

text \<open>The state of a search that has been constructed and prepared over \<open>reference\<close>.\<close>

lemma prepared_resident:
  assumes "permutes_range nth_elem"
    and "CorrespondenceSearch_create gpu nth_elem reference capacity strategy n = Some (Inr (st :: 's Impl), n1)"
    and "prepare_resident gpu normals st n1 = Some (Inr (), st1, n2)"
  shows "device_ok reference st1" "buffers_ok st1" "im_resident st1" "im_strategy st1 = strategy" "im_covariance_neighbors st1 = 0"
proof -
  note st = create_returned [OF assms(1,2)]
  then have ok: "device_ok reference st" by simp
  show "device_ok reference st1" "buffers_ok st1" "im_resident st1" "im_strategy st1 = strategy" "im_covariance_neighbors st1 = 0"
    using wp_returned [OF prepare_resident_wp [OF ok] assms(3)] st by (simp_all add: buffers_ok_def)
qed

lemma wp_ends: "wp m Q E st n \<Longrightarrow> \<exists>outcome st' n'. m st n = Some (outcome, st', n') \<and>
    (case outcome of Inl e \<Rightarrow> E e st' | Inr a \<Rightarrow> Q a st' n')"
  by (auto simp: wp_def split: option.splits)

lemma knn_refused:
  assumes "device_ok reference st" "\<not> knn_allowed reference k st"
  shows "\<exists>e. knn gpu k st n = Some (Inl e, st, n)"
proof -
  have "length (im_reference st) = length reference" using assms(1) search_data_length by (auto simp: device_ok_def)
  then show ?thesis
    using assms(2) by (auto simp: knn_def prepare_knn_def knn_allowed_def Let_def cuda_bind_def cuda_get_def cuda_require_def cuda_throw_def)
qed

text \<open>
  C5. The k-nearest-neighbour query of the device always ends without undefined behaviour. When no
  CUDA call fails it succeeds exactly for 1 to 1024 neighbours, at most as many as there are points,
  on an indexed search, and it never succeeds for others; and a result has, for every reference point, the row of its \<open>k\<close> nearest
  reference points in ascending order of distance, ties by index: that row and no other.
\<close>
theorem knn_exact:
  assumes "permutes_range nth_elem"
    and "CorrespondenceSearch_create gpu nth_elem reference capacity strategy n = Some (Inr (st :: 's Impl), n1)"
    and "prepare_resident gpu normals st n1 = Some (Inr (), st1, n2)"
  shows "\<exists>outcome st2 n3. knn gpu k st1 n2 = Some (outcome, st2, n3) \<and>
    (strategy = strategy_indexed \<and> 0 < k \<and> k \<le> 1024 \<and> k \<le> length reference \<and> (\<forall>i. gpu_call gpu i = None) \<longrightarrow>
       (\<exists>rows. outcome = Inr rows)) \<and>
    (\<forall>rows. outcome = Inr rows \<longrightarrow> strategy = strategy_indexed \<and> 0 < k \<and> k \<le> 1024 \<and> k \<le> length reference \<and>
       length rows = length reference * k \<and>
       (\<forall>i < length reference. \<forall>ids. row_of k i rows = ids \<longleftrightarrow> nearest_of reference (reference ! i) k (all_indices reference) ids))"
proof -
  note st1 = prepared_resident [OF assms]
  have unique: "row_of k i rows = ids \<longleftrightarrow> nearest_of reference (reference ! i) k (all_indices reference) ids"
    if "nearest_of reference (reference ! i) k (all_indices reference) (row_of k i rows)" for rows i ids
    using that nearest_of_unique by blast
  have allowed: "knn_allowed reference k st1" if "strategy = strategy_indexed" "0 < k" "k \<le> 1024" "k \<le> length reference"
    using st1(3,4) that by (simp add: knn_allowed_def)
  obtain outcome st2 n3 where run: "knn gpu k st1 n2 = Some (outcome, st2, n3)"
    using wp_ends [OF knn_wp [OF st1(1,2), of gpu k n2]] by auto
  note wp = knn_wp [OF st1(1,2), of gpu k n2]
  show ?thesis
  proof (cases outcome)
    case (Inl e)
    then have "\<not> (calls_succeed gpu \<and> knn_allowed reference k st1)" using wp_thrown [OF wp run [unfolded Inl]] by simp
    then show ?thesis using run Inl allowed by (auto simp: calls_succeed_def)
  next
    case (Inr rows)
    then have "knn_allowed reference k st1" using knn_refused [OF st1(1), of k gpu n2] run by fastforce
    then have "strategy = strategy_indexed \<and> k \<le> 1024" using st1(4) by (simp add: knn_allowed_def)
    then show ?thesis using run Inr wp_returned [OF wp run [unfolded Inr]] unique by (auto simp: knn_ready_def)
  qed
qed

lemma small_search:
  assumes "reference \<noteq> []" "length reference \<le> 8" "list_all is_finite3 reference"
  shows "\<exists>st n1 st1 n2. CorrespondenceSearch_create working_gpu keep_order reference 1 strategy_indexed 0 = Some (Inr (st :: 's Impl), n1) \<and>
     prepare_resident working_gpu [] st n1 = Some (Inr (), st1, n2)"
  using working_search [OF keep_order_permutes assms(1) _ _ _ assms(3) working_gpu_calls, where 's = 's, of 1 0] assms(2)
  by (fastforce simp: int32_max_def)

theorem knn_exact_witness:
  "\<exists>st :: ScanSearch. \<exists>n rows st' n'. knn working_gpu 1 st n = Some (Inr rows, st', n') \<and> length rows = 2 \<and>
     nearest_of sample_reference (sample_reference ! 0) 1 (all_indices sample_reference) (row_of 1 0 rows)"
proof -
  obtain st :: ScanSearch and n1 st1 n2 where
    p: "CorrespondenceSearch_create working_gpu keep_order sample_reference 1 strategy_indexed 0 = Some (Inr st, n1)"
      "prepare_resident working_gpu [] st n1 = Some (Inr (), st1, n2)"
    using small_search [of sample_reference, where 's = unit] by (auto simp: sample_reference_def is_finite3_def)
  have "length sample_reference = 2" "\<forall>i. gpu_call working_gpu i = None" by (simp_all add: sample_reference_def working_gpu_def)
  with knn_exact [OF keep_order_permutes p, of 1]
  obtain rows st2 n3 where "knn working_gpu 1 st1 n2 = Some (Inr rows, st2, n3)" "length rows = 2"
    "\<forall>i < 2. \<forall>ids. row_of 1 i rows = ids \<longleftrightarrow> nearest_of sample_reference (sample_reference ! i) 1 (all_indices sample_reference) ids"
    by auto
  then show ?thesis by (metis pos2)
qed

text \<open>
  C15. Preparing the GICP covariances always ends without undefined behaviour. A prepared search
  holds, for every reference point, the regularized covariance of exactly its \<open>k\<close> nearest reference
  points, summed in the order of their indices, and gives it out on request. When no CUDA call
  fails, preparation fails only for settings out of range or for a neighbourhood of collinear or
  coincident points.
\<close>
theorem gicp_covariances_exact:
  assumes "permutes_range nth_elem"
    and "CorrespondenceSearch_create gpu nth_elem reference capacity strategy_indexed n = Some (Inr (st :: 's Impl), n1)"
    and "prepare_resident gpu normals st n1 = Some (Inr (), st1, n2)"
  shows "\<exists>outcome st2 n3. prepare_gicp gpu k epsilon st1 n2 = Some (outcome, st2, n3) \<and>
    (outcome = Inr () \<longrightarrow> (\<exists>covariances. im_covariances st2 = Some covariances \<and> length covariances = length reference \<and>
       (gpu_call gpu n3 = None \<longrightarrow> (\<exists>st3. download_covariances gpu st2 n3 = Some (Inr covariances, st3, Suc n3))) \<and>
       (\<forall>i < length reference. \<exists>ids. nearest_of reference (reference ! i) k (all_indices reference) ids \<and>
          neighborhood_covariance reference k epsilon (sort ids) = Some (covariances ! i)))) \<and>
    (3 \<le> k \<and> k \<le> 1024 \<and> k \<le> length reference \<and> isfinite epsilon \<and> 0 < epsilon \<and> epsilon \<le> 1 \<and> (\<forall>i. gpu_call gpu i = None) \<and>
       outcome \<noteq> Inr () \<longrightarrow> (\<exists>i < length reference. \<exists>ids. nearest_of reference (reference ! i) k (all_indices reference) ids \<and>
          neighborhood_covariance reference k epsilon (sort ids) = None))"
proof -
  note st1 = prepared_resident [OF assms]
  note wp = prepare_gicp_wp [OF st1(1,2), of gpu k epsilon n2]
  obtain outcome st2 n3 where run: "prepare_gicp gpu k epsilon st1 n2 = Some (outcome, st2, n3)"
    using wp_ends [OF wp] by auto
  show ?thesis
  proof (cases outcome)
    case (Inl e)
    then have "\<not> (calls_succeed gpu \<and> knn_allowed reference k st1 \<and> gicp_allowed reference k epsilon st1)"
      using wp_thrown [OF wp run [unfolded Inl]] by simp
    then show ?thesis using run Inl st1(3-5)
      by (auto simp: calls_succeed_def knn_allowed_def gicp_allowed_def degenerate_def)
  next
    case (Inr u)
    then have st2: "device_ok reference st2" "im_covariance_neighbors st2 = k" "im_covariance_epsilon st2 = epsilon"
      using wp_returned [OF wp run [unfolded Inr]] by simp_all
    have "k \<noteq> 0"
    proof
      assume "k = 0"
      then show False using run Inr by (auto simp: prepare_gicp_def cuda_bind_def cuda_get_def cuda_require_def cuda_throw_def)
    qed
    then obtain cs where cs: "im_covariances st2 = Some cs" "covariances_ready reference k epsilon cs"
      using st2 by (auto simp: device_ok_def)
    have "\<exists>st3. download_covariances gpu st2 n3 = Some (Inr cs, st3, Suc n3)" if "gpu_call gpu n3 = None"
      using that cs(1) st2(2) \<open>k \<noteq> 0\<close>
      by (simp add: download_covariances_def cuda_bind_def cuda_get_def cuda_require_def cuda_return_def checked_def
          cuda_defined_def device_to_host_def cuda_update_def)
    then show ?thesis using run Inr cs by (auto simp: covariances_ready_def)
  qed
qed

text \<open>Four points around the origin: a neighbourhood without rotations.\<close>

definition diamond :: "Vec3f list" where
  "diamond = [Vec3 1 0 0, Vec3 (-1) 0 0, Vec3 0 1 0, Vec3 0 (-1) 0]"

lemma diamond_mean: "neighborhood_mean diamond 4 [0, 1, 2, 3] = Vec3 0 0 0"
  by (simp add: neighborhood_mean_def diamond_def sum_d_def widen3_def upt_rec Vec3d_zero_def fp_eval)

lemma diamond_matrix: "neighborhood_matrix diamond 4 [0, 1, 2, 3] = [Num 2, 0, 0, 0, Num 2, 0, 0, 0, 0]"
  unfolding neighborhood_matrix_def diamond_mean 
  by (simp add:  diamond_def  widen3_def upt_rec List.product.simps subtract3_def coordinate_def Let_def fp_eval)

lemma diamond_jacobi: "jacobi 48 ([Num 2, 0, 0, 0, Num 2, 0, 0, 0, 0], v) = ([Num 2, 0, 0, 0, Num 2, 0, 0, 0, 0], v)"
proof -
 have "jacobi_step ([Num 2, 0, 0, 0, Num 2, 0, 0, 0, 0], v) = None"
  proof -
    have "pivot [Num 2, 0, 0, 0, Num 2, 0, 0, 0, 0] = (0, 1)" by (simp add: pivot_def Let_def fp_eval)
    moreover have "feq (0 :: f64) 0" by (simp add: feq_def fp_le_def zero_fp_def)
    ultimately show ?thesis by (simp add: jacobi_step_def Let_def)
  qed
 then show ?thesis by (simp add: eval_nat_numeral)
qed

lemma diamond_axes: "axis_order [Num 2, 0, 0, 0, Num 2, 0, 0, 0, 0] = [2, 0, 1]"
  by (simp add: axis_order_def upt_rec eval_nat_numeral fp_eval)

lemma diamond_covariance: "neighborhood_covariance diamond 4 (Num (1/2)) [0,1,2,3] = Some [1, 0, 0, 0, 1, 0, 0, 0, Num (1/2)]"
proof -
  have "lit (1 / 10 ^ 12) \<le> rnd 1" unfolding lit_def by (rule rnd_mono) simp
  then have "lit (1 / 10 ^ 12) < Num 2" by (rule fp_le_less_trans) (simp add: fp_eval)
  then have "\<not> Num 2 \<le> lit (1 / 10 ^ 12)" by (rule fp_less_not_ge)
  then show ?thesis
    unfolding neighborhood_covariance_def diamond_matrix diamond_jacobi
    by (simp add: diamond_axes Let_def) (simp add: upt_rec fp_eval)
qed

lemma diamond_neighbors:
  assumes "nearest_of diamond q 4 (all_indices diamond) ids"
  shows "sort ids = [0, 1, 2, 3]"
proof -
  have indices: "all_indices diamond = set [0, 1, 2, 3]" by (auto simp: all_indices_def diamond_def)
  have "set ids \<subseteq> set [0, 1, 2, 3]" "length ids = 4" "distinct ids"
    using assms sorted_nearer_distinct unfolding nearest_of_def indices by auto
  then have "set ids = set [0, 1, 2, 3]"
    by (intro card_subset_eq) (simp_all add: distinct_card)
  then have "mset ids = mset [0, 1, 2, 3]"
    using \<open>distinct ids\<close> by (subst set_eq_iff_mset_eq_distinct [symmetric]) simp_all
  then show ?thesis by (intro properties_for_sort) simp_all
qed

theorem gicp_covariances_exact_witness:
  "\<exists>st :: ScanSearch. \<exists>n st' n' covariances. prepare_gicp working_gpu 4 (Num (1 / 2)) st n = Some (Inr (), st', n') \<and>
     im_covariances st' = Some covariances \<and> covariances ! 0 = [1, 0, 0, 0, 1, 0, 0, 0, Num (1 / 2)]"
proof -
  have small: "diamond \<noteq> []" "length diamond \<le> 8" "list_all is_finite3 diamond"
    by (simp_all add: diamond_def is_finite3_def fp_eval)
  obtain st :: ScanSearch and n1 st1 n2 where
    p: "CorrespondenceSearch_create working_gpu keep_order diamond 1 strategy_indexed 0 = Some (Inr st, n1)"
      "prepare_resident working_gpu [] st n1 = Some (Inr (), st1, n2)"
    using small_search [of diamond, where 's = unit] small by blast
  have calls: "\<forall>i. gpu_call working_gpu i = None" by (simp add: working_gpu_def)
  have settings: "length diamond = 4" "isfinite (Num (1 / 2) :: f64)" "0 < (Num (1 / 2) :: f64)" "(Num (1 / 2) :: f64) \<le> 1"
    by (simp_all add: diamond_def fp_eval)
  obtain outcome st2 n3 where run: "prepare_gicp working_gpu 4 (Num (1 / 2)) st1 n2 = Some (outcome, st2, n3)"
    and ok: "outcome = Inr () \<Longrightarrow> \<exists>cs. im_covariances st2 = Some cs \<and> (\<forall>i < length diamond. \<exists>ids.
        nearest_of diamond (diamond ! i) 4 (all_indices diamond) ids \<and> neighborhood_covariance diamond 4 (Num (1 / 2)) (sort ids) = Some (cs ! i))"
    and failed: "outcome \<noteq> Inr () \<Longrightarrow> \<exists>i < length diamond. \<exists>ids. nearest_of diamond (diamond ! i) 4 (all_indices diamond) ids \<and>
        neighborhood_covariance diamond 4 (Num (1 / 2)) (sort ids) = None"
    using gicp_covariances_exact [OF keep_order_permutes p, of 4 "Num (1 / 2)"] calls settings by (auto; blast)
  have "outcome = Inr ()" using failed diamond_neighbors diamond_covariance by fastforce
  moreover from ok [OF this] obtain cs ids where "im_covariances st2 = Some cs"
    "nearest_of diamond (diamond ! 0) 4 (all_indices diamond) ids" "neighborhood_covariance diamond 4 (Num (1 / 2)) (sort ids) = Some (cs ! 0)"
    using settings(1) by force
  ultimately show ?thesis using run diamond_neighbors diamond_covariance by fastforce
qed

subsection \<open>A failed resize\<close>

text \<open>
  When \<open>prepare_knn\<close> has to grow its buffers and the release of the second one fails, the first
  pointer is null but the capacity still is the old one: a later query for at most that many
  neighbours skips the allocation and its kernel writes through the null pointer.
\<close>

lemma failed_resize_undefined:
  assumes "knn_allowed reference k st" "length (im_reference st) = length reference" "im_knn_capacity st < k"
    and "gpu_call gpu n = None" "gpu_call gpu (Suc n) = Some status"
    and "0 < j" "j \<le> im_knn_capacity st" "gpu_call gpu m = None"
  shows "\<exists>st'. prepare_knn gpu k st n = Some (Inl (exn_other (''KNN resize'' @ '': '' @ status)), st', Suc (Suc n)) \<and>
    im_knn_capacity st' = im_knn_capacity st \<and> knn gpu j st' m = None"
proof -
  let ?st = "st\<lparr>im_knn_indices := None\<rparr>"
  have "prepare_knn gpu k st n = Some (Inl (exn_other (''KNN resize'' @ '': '' @ status)), ?st, Suc (Suc n))"
    using assms(1-5) by (simp add: prepare_knn_def knn_allowed_def cuda_bind_def cuda_get_def cuda_require_def cuda_return_def
        checked_def cuda_update_def Let_def)
  moreover have "reference \<noteq> []" using assms(1,3) by (auto simp: knn_allowed_def)
  with assms have "knn gpu j ?st m = None"
    by (simp add: knn_def prepare_knn_def knn_allowed_def cuda_bind_def cuda_get_def cuda_require_def cuda_return_def Let_def)
      (subst knn_loop_host.simps, simp add: cuda_bind_def checked_def cuda_launch_def knn_on_device_def Let_def split: Option.bind_splits)
  ultimately show ?thesis by (intro exI [of _ ?st]) simp
qed

end
