(* ===== verification/CudaRegistration.thy ===== *)
theory CudaRegistration
  imports CudaSolver Engine
begin

text \<open>
  The registration of a build with CUDA: the branches under \<open>POINTCLOUDAD_WITH_CUDA\<close> of
  \<open>pcl_registration_backend.cpp\<close> and \<open>registration_engine.cpp\<close>. The solver keeps its search on the
  device; an alignment uploads the scan once and asks the device for one equation per iteration.
  The state of the search and the number of CUDA calls made so far are passed along.
\<close>

subsection \<open>Preparation\<close>

text \<open>The members before the search; the covariances of the CPU solver stay empty.\<close>

definition host_members ::
  "cpu_registers option \<Rightarrow> Surface \<Rightarrow> RegistrationParameters \<Rightarrow> nat \<Rightarrow> exn + Prepared" where
  "host_members cpu reference p max_scan_points =
     rbind (select_cpu_kernel (rp_cpu_kernel p) (avx2_available cpu)) (\<lambda>k.
     rbind (CpuExecutor_create (rp_thread_count p) (max max_scan_points (unat (sv_size reference)))) (\<lambda>_.
     let cloud = extract_valid reference in
     rbind (checked_reference p cloud) (\<lambda>_.
     Inr \<lparr>pr_can_build_avx2 = (cpu \<noteq> None), pr_kernel = k, pr_parameters = p, pr_reference_cloud = cloud,
          pr_reference_covariances = []\<rparr>)))"

definition prepare_search ::
  "gpu \<Rightarrow> nth_element \<Rightarrow> RegistrationParameters \<Rightarrow> ValidatedCloud \<Rightarrow> nat \<Rightarrow> nat \<Rightarrow> ((exn + CorrespondenceSearch) \<times> nat) option" where
  "prepare_search gpu nth_elem p cloud max_scan_points n =
     (case CorrespondenceSearch_create gpu nth_elem (map narrow3 (cl_points cloud)) max_scan_points strategy_indexed n of
        None \<Rightarrow> None
      | Some (Inl e, n) \<Rightarrow> Some (Inl e, n)
      | Some (Inr st, n) \<Rightarrow>
          map_option (\<lambda>(outcome, st, n). (case outcome of Inl e \<Rightarrow> Inl e | Inr _ \<Rightarrow> Inr st, n))
            (cuda_bind (prepare_resident gpu (cl_normals cloud)) (\<lambda>_.
             if rp_method p = gicp then prepare_gicp gpu (unat (rp_covariance_neighbors p)) (rp_covariance_epsilon p)
             else cuda_return ()) st n))"

text \<open>A prepared registration of this build: the CPU solver as it is, or the GPU solver and its search.\<close>

datatype PreparedRegistration = on_cpu Prepared | on_gpu Prepared CorrespondenceSearch

definition prepare_registration_cuda ::
  "solver_library \<Rightarrow> cpu_registers option \<Rightarrow> gpu \<Rightarrow> nth_element \<Rightarrow> Surface \<Rightarrow> RegistrationParameters \<Rightarrow> nat \<Rightarrow> ComputeBackend \<Rightarrow>
     nat \<Rightarrow> ((exn + PreparedRegistration) \<times> nat) option" where
  "prepare_registration_cuda lib cpu gpu nth_elem reference p max_scan_points backend n =
     (if backend \<noteq> backend_cpu \<and> backend \<noteq> backend_gpu
      then Some (Inl (exn_invalid_argument ''unsupported registration backend''), n)
      else if backend = backend_cpu
      then Some (map_sum id on_cpu (Prepared_create lib cpu reference p max_scan_points backend), n)
      else case host_members cpu reference p max_scan_points of
        Inl e \<Rightarrow> Some (Inl e, n)
      | Inr pr \<Rightarrow> map_option (\<lambda>(outcome, n). (map_sum id (on_gpu pr) outcome, n))
          (prepare_search gpu nth_elem p (pr_reference_cloud pr) max_scan_points n))"

subsection \<open>Alignment\<close>

text \<open>\<open>static_cast<std::uint64_t>\<close> of a double; a value out of range has no defined result.\<close>

definition to_u64 :: "f64 \<Rightarrow> nat option" where
  "to_u64 x = (case x of Num r \<Rightarrow> if - 1 < r \<and> r < 2 ^ 64 then Some (nat \<lfloor>r\<rfloor>) else None | NegZero \<Rightarrow> Some 0 | _ \<Rightarrow> None)"

definition evaluate_resident :: "gpu \<Rightarrow> Prepared \<Rightarrow> Mat4 \<Rightarrow> bool \<Rightarrow> (ScanSearch, Accumulation) cuda" where
  "evaluate_resident gpu pr pose final = (let p = pr_parameters pr in
     cuda_bind (evaluate gpu pose (rp_max_correspondence_distance_mm p) (rp_huber_delta_mm p)
       (rp_method p = point_to_plane) final) (\<lambda>equation.
     cuda_bind (cuda_defined (to_u64 (equation ! 43))) (\<lambda>pairs.
     cuda_return \<lparr>ac_matrix = take 36 equation, ac_gradient = take 6 (drop 36 equation),
       ac_residual = equation ! 42, ac_count = pairs\<rparr>)))"

fun icp_loop_resident :: "gpu \<Rightarrow> solver_library \<Rightarrow> Prepared \<Rightarrow> nat \<Rightarrow> nat \<Rightarrow> IcpState \<Rightarrow> (ScanSearch, IcpState) cuda" where
  "icp_loop_resident gpu lib pr 0 iteration st = cuda_return st"
| "icp_loop_resident gpu lib pr (Suc remaining) iteration st =
     cuda_bind (evaluate_resident gpu pr (is_current st) False) (\<lambda>acc.
     let (stop, st) = icp_decide lib (pr_parameters pr) acc iteration st in
     if stop then cuda_return st else icp_loop_resident gpu lib pr remaining (Suc iteration) st)"

definition align_resident ::
  "gpu \<Rightarrow> nth_element \<Rightarrow> solver_library \<Rightarrow> Prepared \<Rightarrow> Surface \<Rightarrow> RigidTransform \<Rightarrow>
     (ScanSearch, RegistrationMetrics Result) cuda" where
  "align_resident gpu nth_elem lib pr scan initial =
     (let p = pr_parameters pr; cloud = extract_valid scan in
      cuda_bind (cuda_require (cl_points cloud \<noteq> []) (exn_invalid_argument ''registration requires valid scan points'')) (\<lambda>_.
      cuda_bind (upload_scan gpu nth_elem (cl_points cloud) (cl_normals cloud)) (\<lambda>_.
      cuda_bind (icp_loop_resident gpu lib pr (unat (rp_max_iterations p)) 0 (icp_start initial)) (\<lambda>st.
      case RigidTransform_create (orthonormalize (is_current st)) (rt_source_frame initial)
             (rt_target_frame initial) (lit (1 / 10 ^ 6)) of
        Inl e \<Rightarrow> cuda_return (Inl e)
      | Inr validated \<Rightarrow>
          cuda_bind (evaluate_resident gpu pr (rt_matrix validated) True) (\<lambda>acc.
          cuda_return (metrics_result lib cloud initial validated st acc))))))"

definition PreparedRegistration_align ::
  "solver_library \<Rightarrow> gpu \<Rightarrow> nth_element \<Rightarrow> PreparedRegistration \<Rightarrow> Surface \<Rightarrow> RigidTransform \<Rightarrow> nat \<Rightarrow>
     (RegistrationMetrics Result \<times> PreparedRegistration \<times> nat) option" where
  "PreparedRegistration_align lib gpu nth_elem prepared scan initial n = (case prepared of
       on_cpu pr \<Rightarrow> Some (Prepared_align lib pr scan initial, prepared, n)
     | on_gpu pr st \<Rightarrow> map_option (\<lambda>(outcome, st, n). (caught outcome, on_gpu pr st, n))
         (align_resident gpu nth_elem lib pr scan initial st n))"


subsection \<open>The search between two alignments\<close>

definition solver_ok :: "Prepared \<Rightarrow> CorrespondenceSearch \<Rightarrow> bool" where
  "solver_ok pr st \<longleftrightarrow> (let cloud = pr_reference_cloud pr; p = pr_parameters pr in
     device_ok (map narrow3 (cl_points cloud)) st \<and>
     workspace st = (True, if cl_normals cloud = [] then None else Some (cl_normals cloud)) \<and>
     im_covariance_neighbors st = (if rp_method p = gicp then unat (rp_covariance_neighbors p) else 0))"

lemma solver_ok_device: "solver_ok pr st \<Longrightarrow> device_ok (map narrow3 (cl_points (pr_reference_cloud pr))) st"
  by (simp add: solver_ok_def Let_def)

lemma prepare_search_ok:
  assumes "permutes_range nth_elem" "prepare_search gpu nth_elem (pr_parameters pr) (pr_reference_cloud pr) capacity n = Some (Inr st, n')"
  shows "solver_ok pr st"
proof -
  let ?p = "pr_parameters pr" and ?cloud = "pr_reference_cloud pr"
  let ?reference = "map narrow3 (cl_points ?cloud)"
  let ?prepare = "cuda_bind (prepare_resident gpu (cl_normals ?cloud)) (\<lambda>_. if rp_method ?p = gicp
    then prepare_gicp gpu (unat (rp_covariance_neighbors ?p)) (rp_covariance_epsilon ?p) else cuda_return ())"
  obtain st0 n0 u where create: "CorrespondenceSearch_create gpu nth_elem ?reference capacity strategy_indexed n = Some (Inr st0, n0)"
    and run: "?prepare st0 n0 = Some (Inr u, st, n')"
    using assms(2) by (auto simp: prepare_search_def split: option.splits prod.splits sum.splits) (metis sum.exhaust old.unit.exhaust)
  have st0: "device_ok ?reference st0" "im_knn_capacity st0 = 0" "im_covariance_neighbors st0 = 0"
    using create_returned [OF assms(1) create] by simp_all
  have "wp ?prepare (\<lambda>_ st' _. solver_ok pr st') (\<lambda>_ _. True) st0 n0"
    unfolding wp_bind
  proof (rule wp_mono [OF prepare_resident_wp [OF st0(1)]])
    fix st' :: CorrespondenceSearch and n'
    assume "device_ok ?reference st' \<and> im_resident st' \<and> im_strategy st' = im_strategy st0 \<and>
      im_scan_count st' = im_scan_count st0 \<and> im_knn_capacity st' = im_knn_capacity st0 \<and>
      im_covariance_neighbors st' = im_covariance_neighbors st0 \<and>
      im_reference_normals st' = (if cl_normals ?cloud = [] then None else Some (cl_normals ?cloud))"
    then have ok: "device_ok ?reference st'" "buffers_ok st'" "im_covariance_neighbors st' = 0"
      "workspace st' = (True, if cl_normals ?cloud = [] then None else Some (cl_normals ?cloud))"
      using st0 by (simp_all add: buffers_ok_def workspace_def)
    show "wp (if rp_method ?p = gicp then prepare_gicp gpu (unat (rp_covariance_neighbors ?p)) (rp_covariance_epsilon ?p)
        else cuda_return ()) (\<lambda>_ st' _. solver_ok pr st') (\<lambda>_ _. True) st' n'"
    proof (cases "rp_method ?p = gicp")
      case True
      have "wp (prepare_gicp gpu (unat (rp_covariance_neighbors ?p)) (rp_covariance_epsilon ?p))
          (\<lambda>_ st' _. solver_ok pr st') (\<lambda>_ _. True) st' n'"
        by (rule wp_mono [OF wp_keeps [OF prepare_gicp_wp [OF ok(1,2)] prepare_gicp_keeps]]) (simp_all add: solver_ok_def ok True)
      then show ?thesis using True by simp
    next
      case False
      then show ?thesis using ok by (simp add: wp_simps solver_ok_def)
    qed
  qed simp_all
  from wp_returned [OF this run] show ?thesis .
qed

subsection \<open>Evaluation\<close>

lemma to_u64_of_count: "c \<le> 2 ^ 53 \<Longrightarrow> to_u64 (of_count c) = Some c"
proof -
  assume c: "c \<le> 2 ^ 53"
  then have "(of_nat c :: rat) \<le> of_nat (2 ^ 53)" by (rule of_nat_mono)
  then show ?thesis using c by (simp add: of_count_exact to_u64_def)
qed

lemma matched_bound: "card {i. matched ob i} \<le> ob_count ob"
  using card_mono [of "{..<ob_count ob}" "{i. matched ob i}"] by (auto simp: matched_def)

text \<open>What one evaluation at \<open>pose\<close> returns to the solver.\<close>

definition resident_sum :: "Prepared \<Rightarrow> Vec3d list \<Rightarrow> Vec3d list \<Rightarrow> Mat4 \<Rightarrow> bool \<Rightarrow> CorrespondenceSearch \<Rightarrow> Accumulation \<Rightarrow> bool" where
  "resident_sum pr points normals pose final st acc \<longleftrightarrow> (let p = pr_parameters pr in
     \<exists>equation. evaluated (map narrow3 (cl_points (pr_reference_cloud pr))) points normals pose
         (rp_max_correspondence_distance_mm p) (rp_huber_delta_mm p) (rp_method p = point_to_plane) final st equation \<and>
       to_u64 (equation ! 43) = Some (ac_count acc) \<and> ac_count acc \<le> length points \<and>
       acc = \<lparr>ac_matrix = take 36 equation, ac_gradient = take 6 (drop 36 equation),
         ac_residual = equation ! 42, ac_count = ac_count acc\<rparr>)"

lemma evaluated_pairs:
  assumes "evaluated reference points normals pose radius huber plane final st equation"
  obtains c where "equation ! 43 = of_count c" "to_u64 (equation ! 43) = Some c" "c \<le> length points"
proof -
  obtain ob equations where ob: "resident_problem reference (im_reference_normals st) points normals pose radius huber plane final ob"
    "resident_equations ob = Some equations" "equation = merge_equations equations"
    using assms by (auto simp: evaluated_def)
  have n: "ob_count ob = length points" "ob_count ob \<le> 2 ^ 31" using ob(1) by (auto simp: resident_problem_def)
  have "equation ! 43 = of_count (card {i. matched ob i})"
    using merged_counts [OF ob(2) n(2)] ob(3) by simp
  moreover have "to_u64 (of_count (card {i. matched ob i})) = Some (card {i. matched ob i})"
    using matched_bound [of ob] n(2) by (intro to_u64_of_count) simp
  ultimately show ?thesis using that matched_bound [of ob] n(1) by simp
qed

lemma evaluate_resident_wp:
  assumes "solver_ok pr st" "gpu_ok gpu" "scan_ready points normals st"
  shows "wp (evaluate_resident gpu pr pose final)
    (\<lambda>acc st' _. solver_ok pr st' \<and> scan_ready points normals st' \<and> resident_sum pr points normals pose final st acc)
    (\<lambda>_ st'. solver_ok pr st') st n"
proof -
  let ?p = "pr_parameters pr" and ?reference = "map narrow3 (cl_points (pr_reference_cloud pr))"
  have kept: "solver_ok pr st'" if "device_ok ?reference st' \<and> scan_ready points normals st' \<and>
      im_reference_normals st' = im_reference_normals st \<and> im_covariance_neighbors st' = im_covariance_neighbors st" for st'
    using assms(1) that by (simp add: solver_ok_def workspace_def scan_ready_def Let_def)
  have sum: "wp (cuda_bind (cuda_defined (to_u64 (equation ! 43))) (\<lambda>pairs. cuda_return \<lparr>ac_matrix = take 36 equation,
        ac_gradient = take 6 (drop 36 equation), ac_residual = equation ! 42, ac_count = pairs\<rparr>))
      (\<lambda>acc st' _. solver_ok pr st' \<and> scan_ready points normals st' \<and> resident_sum pr points normals pose final st acc)
      (\<lambda>_ st'. solver_ok pr st') st' n'"
    if "solver_ok pr st'" "scan_ready points normals st'" "evaluated ?reference points normals pose (rp_max_correspondence_distance_mm ?p)
        (rp_huber_delta_mm ?p) (rp_method ?p = point_to_plane) final st equation" for st' n' equation
  proof -
    note result = that
    obtain c where "to_u64 (equation ! 43) = Some c" "c \<le> length points" using evaluated_pairs [OF result(3)] .
    moreover from this have "resident_sum pr points normals pose final st \<lparr>ac_matrix = take 36 equation,
        ac_gradient = take 6 (drop 36 equation), ac_residual = equation ! 42, ac_count = c\<rparr>"
      using result(3) unfolding resident_sum_def Let_def by (intro exI [of _ equation]) simp
    ultimately show ?thesis using result(1,2) by (simp add: wp_simps)
  qed
  show ?thesis
    unfolding evaluate_resident_def Let_def wp_bind [of "evaluate gpu pose _ _ _ _"]
    by (rule wp_mono [OF evaluate_wp [OF solver_ok_device [OF assms(1)] assms(2,3)] sum]) (use kept in blast)+
qed

subsection \<open>The loop\<close>

lemma icp_loop_resident_wp:
  assumes "solver_ok pr st" "gpu_ok gpu" "scan_ready points normals st" "\<not> is_converged s" "\<not> is_degenerate s"
  shows "wp (icp_loop_resident gpu lib pr remaining iteration s)
    (\<lambda>s' st' _. solver_ok pr st' \<and> scan_ready points normals st' \<and> is_completed s' \<le> is_completed s + remaining \<and>
       (\<not> is_converged s' \<and> \<not> is_degenerate s' \<longrightarrow> is_completed s' = is_completed s + remaining))
    (\<lambda>_ st'. solver_ok pr st') st n"
  using assms(1,3-5)
proof (induction remaining arbitrary: iteration s st n)
  case (Suc remaining)
  note step = wp_mono [OF evaluate_resident_wp [OF Suc.prems(1) assms(2) Suc.prems(2)]]
  show ?case
    unfolding icp_loop_resident.simps wp_bind
  proof (rule step)
    fix acc and st' :: CorrespondenceSearch and n'
    assume ok: "solver_ok pr st' \<and> scan_ready points normals st' \<and> resident_sum pr points normals (is_current s) False st acc"
    obtain stop s1 where d: "icp_decide lib (pr_parameters pr) acc iteration s = (stop, s1)" by fastforce
    note out = icp_decide_outcome [OF d Suc.prems(3,4)]
    show "wp (let (stop, st) = icp_decide lib (pr_parameters pr) acc iteration s in
        if stop then cuda_return st else icp_loop_resident gpu lib pr remaining (Suc iteration) st)
      (\<lambda>s' st' _. solver_ok pr st' \<and> scan_ready points normals st' \<and> is_completed s' \<le> is_completed s + Suc remaining \<and>
         (\<not> is_converged s' \<and> \<not> is_degenerate s' \<longrightarrow> is_completed s' = is_completed s + Suc remaining))
      (\<lambda>_ st'. solver_ok pr st') st' n'"
    proof (cases stop)
      case True
      then show ?thesis using ok out by (auto simp: d wp_simps)
    next
      case False
      have "wp (icp_loop_resident gpu lib pr remaining (Suc iteration) s1)
          (\<lambda>s' st' _. solver_ok pr st' \<and> scan_ready points normals st' \<and> is_completed s' \<le> is_completed s1 + remaining \<and>
             (\<not> is_converged s' \<and> \<not> is_degenerate s' \<longrightarrow> is_completed s' = is_completed s1 + remaining))
          (\<lambda>_ st'. solver_ok pr st') st' n'"
        using ok out False by (intro Suc.IH) auto
      from wp_mono [OF this] show ?thesis using out False by (auto simp: d)
    qed
  qed blast
qed (simp add: wp_simps)

subsection \<open>Alignment\<close>

lemma upload_scan_solver:
  assumes "solver_ok pr st" "permutes_range nth_elem"
  shows "wp (upload_scan gpu nth_elem points normals)
    (\<lambda>_ st' _. solver_ok pr st' \<and> scan_ready points normals st') (\<lambda>_ st'. solver_ok pr st') st n"
proof (rule wp_mono [OF upload_scan_wp [OF solver_ok_device [OF assms(1)] assms(2)]])
  have "im_resident st" using assms(1) by (simp add: solver_ok_def workspace_def Let_def)
  then show "solver_ok pr st' \<and> scan_ready points normals st'"
    if "device_ok (map narrow3 (cl_points (pr_reference_cloud pr))) st' \<and> scan_ready points normals st' \<and> points \<noteq> [] \<and>
      im_reference_normals st' = im_reference_normals st \<and> im_covariance_neighbors st' = im_covariance_neighbors st" for st'
    using assms(1) that by (auto simp: solver_ok_def workspace_def scan_ready_def Let_def)
  show "solver_ok pr st'"
    if "device_ok (map narrow3 (cl_points (pr_reference_cloud pr))) st' \<and>
      (if uploadable points normals st \<and> device_unchanged gpu n st then im_scan_count st' = 0 else st' = st) \<and>
      im_resident st' = im_resident st \<and> im_reference_normals st' = im_reference_normals st \<and>
      im_covariance_neighbors st' = im_covariance_neighbors st \<and>
      \<not> (reliable gpu (im_device st) \<and> im_covariance_neighbors st = 0 \<and> uploadable points normals st)" for st'
    using assms(1) that by (auto simp: solver_ok_def workspace_def Let_def)
qed

lemma align_resident_wp:
  assumes "solver_ok pr st" "gpu_ok gpu" "permutes_range nth_elem"
  shows "wp (align_resident gpu nth_elem lib pr scan initial)
    (\<lambda>result st' _. solver_ok pr st' \<and> (\<forall>m. result = Inr m \<and> length (valid_indices scan) < 2 ^ 64 \<longrightarrow>
       conforming (pr_parameters pr) scan initial m))
    (\<lambda>_ st'. solver_ok pr st') st n" (is "wp _ ?Q ?E st n")
proof -
  let ?cloud = "extract_valid scan" and ?p = "pr_parameters pr"
  let ?limit = "unat (rp_max_iterations ?p)"
  let ?finish = "\<lambda>s. case RigidTransform_create (orthonormalize (is_current s)) (rt_source_frame initial)
      (rt_target_frame initial) (lit (1 / 10 ^ 6)) of Inl e \<Rightarrow> cuda_return (Inl e)
    | Inr validated \<Rightarrow> cuda_bind (evaluate_resident gpu pr (rt_matrix validated) True) (\<lambda>acc.
        cuda_return (metrics_result lib ?cloud initial validated s acc))"
  have finish: "wp (?finish s) ?Q ?E st' n'"
    if s: "solver_ok pr st' \<and> scan_ready (cl_points ?cloud) (cl_normals ?cloud) st' \<and> is_completed s \<le> is_completed (icp_start initial) + ?limit \<and>
      (\<not> is_converged s \<and> \<not> is_degenerate s \<longrightarrow> is_completed s = is_completed (icp_start initial) + ?limit)" for s st' n'
  proof (cases "RigidTransform_create (orthonormalize (is_current s)) (rt_source_frame initial) (rt_target_frame initial) (lit (1 / 10 ^ 6))")
    case (Inl e)
    then show ?thesis using s by (simp add: wp_simps)
  next
    case (Inr T)
    have measured: "wp (cuda_return (metrics_result lib ?cloud initial T s acc)) ?Q ?E st'' n''"
      if "solver_ok pr st'' \<and> scan_ready (cl_points ?cloud) (cl_normals ?cloud) st'' \<and>
        resident_sum pr (cl_points ?cloud) (cl_normals ?cloud) (rt_matrix T) True st' acc" for st'' n'' acc
      using that s conforming_metrics [OF _ Inr, where p = ?p and lib = lib and acc = acc]
      by (auto simp: wp_simps resident_sum_def Let_def icp_start_def extract_valid_sizes(1))
    show ?thesis
      unfolding Inr sum.case wp_bind
      by (rule wp_mono [OF evaluate_resident_wp [OF _ assms(2)] measured]) (use s in auto)
  qed
  have start: "\<not> is_converged (icp_start initial)" "\<not> is_degenerate (icp_start initial)" by (simp_all add: icp_start_def)
  have loop: "wp (icp_loop_resident gpu lib pr ?limit 0 (icp_start initial)) (\<lambda>s. wp (?finish s) ?Q ?E) ?E st' n'"
    if "solver_ok pr st' \<and> scan_ready (cl_points ?cloud) (cl_normals ?cloud) st'" for st' n'
    by (rule wp_mono [OF icp_loop_resident_wp [OF _ assms(2) _ start] finish]) (use that in auto)
  have "wp (upload_scan gpu nth_elem (cl_points ?cloud) (cl_normals ?cloud))
      (\<lambda>_. wp (icp_loop_resident gpu lib pr ?limit 0 (icp_start initial)) (\<lambda>s. wp (?finish s) ?Q ?E) ?E) ?E st n"
    by (rule wp_mono [OF upload_scan_solver [OF assms(1,3)] loop])
  then show ?thesis using assms(1) by (simp add: align_resident_def wp_simps Let_def)
qed

lemma prepare_search_returns:
  assumes "permutes_range nth_elem"
  shows "prepare_search gpu nth_elem p cloud capacity n \<noteq> None"
proof -
  let ?reference = "map narrow3 (cl_points cloud)"
  obtain outcome n0 where create: "CorrespondenceSearch_create gpu nth_elem ?reference capacity strategy_indexed n = Some (outcome :: exn + CorrespondenceSearch, n0)"
    using create_ok [OF assms, where 's = ScanSearch, of gpu ?reference capacity strategy_indexed n] by blast
  show ?thesis
  proof (cases outcome)
    case (Inl e)
    then show ?thesis using create by (simp add: prepare_search_def)
  next
    case (Inr st)
    note st = create_returned [OF assms create [unfolded Inr]]
    then have ok: "device_ok ?reference st" by simp
    have "wp (cuda_bind (prepare_resident gpu (cl_normals cloud)) (\<lambda>_. if rp_method p = gicp
      then prepare_gicp gpu (unat (rp_covariance_neighbors p)) (rp_covariance_epsilon p) else cuda_return ())) (\<lambda>_ _ _. True) (\<lambda>_ _. True) st n0"
      unfolding wp_bind
    proof (rule wp_mono [OF prepare_resident_wp [OF ok]], goal_cases)
      case (1 u st' n')
      then have "buffers_ok st'" using st by (simp add: buffers_ok_def)
      then have "wp (prepare_gicp gpu (unat (rp_covariance_neighbors p)) (rp_covariance_epsilon p)) (\<lambda>_ _ _. True) (\<lambda>_ _. True) st' n'"
        using 1 by (intro wp_mono [OF prepare_gicp_wp [where reference = ?reference]]) simp_all
      then show ?case by (simp add: wp_simps)
    qed simp
    from wp_ends [OF this] show ?thesis using create Inr by (auto simp: prepare_search_def)
  qed
qed

text \<open>Every search the GPU solver can hold: prepared, then after any alignments, failed ones included.\<close>

inductive gpu_solver ::
  "solver_library \<Rightarrow> cpu_registers option \<Rightarrow> gpu \<Rightarrow> nth_element \<Rightarrow> Prepared \<Rightarrow> CorrespondenceSearch \<Rightarrow> bool"
  for lib cpu gpu nth_elem where
  prepared: "prepare_registration_cuda lib cpu gpu nth_elem reference p capacity backend n = Some (Inr (on_gpu pr st), n') \<Longrightarrow>
    gpu_solver lib cpu gpu nth_elem pr st"
| aligned: "gpu_solver lib cpu gpu nth_elem pr st \<Longrightarrow>
    PreparedRegistration_align lib gpu nth_elem (on_gpu pr st) scan initial n = Some (result, on_gpu pr st', n') \<Longrightarrow>
    gpu_solver lib cpu gpu nth_elem pr st'"

lemma host_members_fields:
  "host_members cpu reference p capacity = Inr pr \<Longrightarrow> pr_parameters pr = p \<and> pr_reference_cloud pr = extract_valid reference"
  by (auto simp: host_members_def rbind_Inr_iff Let_def)

lemma prepared_solver_ok:
  assumes "prepare_registration_cuda lib cpu gpu nth_elem reference p capacity backend n = Some (Inr (on_gpu pr st), n')"
    and "permutes_range nth_elem"
  shows "solver_ok pr st \<and> pr_parameters pr = p \<and> pr_reference_cloud pr = extract_valid reference"
proof -
  have host: "host_members cpu reference p capacity = Inr pr"
    and search: "prepare_search gpu nth_elem p (pr_reference_cloud pr) capacity n = Some (Inr st, n')"
    using assms(1) by (auto simp: prepare_registration_cuda_def map_sum_def split: if_splits sum.splits option.splits prod.splits)
      (metis sum.exhaust)+
  note fields = host_members_fields [OF host]
  then show ?thesis using prepare_search_ok [OF assms(2), of gpu pr] search by simp
qed

lemma gpu_solver_ok:
  assumes "gpu_solver lib cpu gpu nth_elem pr st" "gpu_ok gpu" "permutes_range nth_elem"
  shows "solver_ok pr st"
  using assms(1)
proof (induction rule: gpu_solver.induct)
  case (prepared reference p capacity backend n pr st n')
  from prepared_solver_ok [OF prepared assms(3)] show ?case by blast
next
  case (aligned pr st scan initial n result st' n')
  then obtain outcome where "align_resident gpu nth_elem lib pr scan initial st n = Some (outcome, st', n')"
    by (auto simp: PreparedRegistration_align_def)
  then show ?case
    using align_resident_wp [OF aligned.IH assms(2,3), of lib scan initial n]
    by (auto simp: wp_def split: sum.splits)
qed

lemma gpu_aligned:
  assumes "gpu_solver lib cpu gpu nth_elem pr st" "gpu_ok gpu" "permutes_range nth_elem"
  shows "\<exists>result st' n'. PreparedRegistration_align lib gpu nth_elem (on_gpu pr st) scan initial n = Some (result, on_gpu pr st', n') \<and>
    gpu_solver lib cpu gpu nth_elem pr st' \<and>
    (\<forall>m. result = Inr m \<and> length (valid_indices scan) < 2 ^ 64 \<longrightarrow> conforming (pr_parameters pr) scan initial m)"
proof -
  note wp = align_resident_wp [OF gpu_solver_ok [OF assms] assms(2,3), of lib scan initial n]
  then obtain outcome st' n' where run: "align_resident gpu nth_elem lib pr scan initial st n = Some (outcome, st', n')"
    by (auto simp: wp_def split: option.splits)
  then have align: "PreparedRegistration_align lib gpu nth_elem (on_gpu pr st) scan initial n = Some (caught outcome, on_gpu pr st', n')"
    by (simp add: PreparedRegistration_align_def)
  moreover have "\<forall>m. caught outcome = Inr m \<and> length (valid_indices scan) < 2 ^ 64 \<longrightarrow> conforming (pr_parameters pr) scan initial m"
    using wp run by (auto simp: wp_def caught_def split: sum.splits exn.splits)
  ultimately show ?thesis using aligned [OF assms(1) align] by blast
qed

text \<open>
  C6. The GPU solver never gets stuck: after its preparation, whatever alignments it was asked for
  before and however the CUDA calls of those failed, an alignment returns, without undefined
  behaviour, a kernel that never ends or a read outside a device array; the solver can be used again,
  and a result it gives satisfies the contract of the metrics.
\<close>
theorem gpu_alignment_returns:
  assumes "gpu_solver lib cpu gpu nth_elem pr st" "gpu_ok gpu" "permutes_range nth_elem"
  shows "\<exists>result st' n'. PreparedRegistration_align lib gpu nth_elem (on_gpu pr st) scan initial n = Some (result, on_gpu pr st', n') \<and>
    gpu_solver lib cpu gpu nth_elem pr st' \<and>
    (\<forall>m. result = Inr m \<and> length (valid_indices scan) < 2 ^ 64 \<longrightarrow> conforming (pr_parameters pr) scan initial m)"
  by (rule gpu_aligned [OF assms])

subsection \<open>A registration on a working device\<close>

lemma sample_gpu_prepared:
  assumes "calls_work gpu n (n + 19)"
  shows "\<exists>st. prepare_registration_cuda lib None gpu keep_order sample_cloud sample_parameters 1 backend_gpu n =
     Some (Inr (on_gpu sample_prepared st), n + 19) \<and> im_capacity st = 1 \<and> im_device st = gpu_device gpu n \<and> im_scan_count st = 0"
proof -
  have host: "host_members None sample_cloud sample_parameters 1 = Inr sample_prepared"
    by (simp add: host_members_def checked_reference_def sample_cloud_points sample_parameters_def sample_prepared_def
        default_parameters_def CpuExecutor_create_def)
  let ?reference = "[Vec3 0 0 0] :: Vec3f list"
  have cloud: "map narrow3 (cl_points (pr_reference_cloud sample_prepared)) = ?reference" "cl_normals (pr_reference_cloud sample_prepared) = []"
    "rp_method sample_parameters = point_to_point"
    by (simp_all add: sample_prepared_def sample_parameters_def narrow3_def fp_eval)
  have sizes: "?reference \<noteq> []" "0 < (1 :: nat)" "int (length ?reference) \<le> int32_max" "int 1 \<le> int32_max" "list_all is_finite3 ?reference"
    by (simp_all add: int32_max_def is_finite3_def)
  obtain st st1 :: CorrespondenceSearch where "CorrespondenceSearch_create gpu keep_order ?reference 1 strategy_indexed n = Some (Inr st, n + 11)"
    "prepare_resident gpu [] st (n + 11) = Some (Inr (), st1, n + 19)"
    and st1: "im_capacity st1 = 1" "im_device st1 = gpu_device gpu n" "im_scan_count st1 = 0"
    using working_search [OF keep_order_permutes sizes assms, where 's = ScanSearch] by auto
  then have "prepare_search gpu keep_order sample_parameters (pr_reference_cloud sample_prepared) 1 n = Some (Inr st1, n + 19)"
    using cloud by (simp add: prepare_search_def cuda_bind_def cuda_return_def)
  then show ?thesis using st1 host by (simp add: prepare_registration_cuda_def)
qed

theorem gpu_alignment_returns_witness:
  "\<exists>pr st n result st' n'. prepare_registration_cuda (sample_library []) None working_gpu keep_order sample_cloud sample_parameters 1
       backend_gpu 0 = Some (Inr (on_gpu pr st), n) \<and>
     PreparedRegistration_align (sample_library []) working_gpu keep_order (on_gpu pr st) sample_cloud sample_pose n =
       Some (result, on_gpu pr st', n')"
proof -
  obtain st n where p: "prepare_registration_cuda (sample_library []) None working_gpu keep_order sample_cloud sample_parameters 1
      backend_gpu 0 = Some (Inr (on_gpu sample_prepared st), n)"
    using sample_gpu_prepared [OF working_gpu_calls] by blast
  from gpu_alignment_returns [OF prepared [OF p] working_gpu_ok(1) keep_order_permutes] show ?thesis using p by blast
qed

subsection \<open>An evaluation and the CPU's\<close>

text \<open>
  The order in which the device adds the rows of the scan points: a binary tree over the 128 lanes of
  a block, lanes past the scan adding zeros, then block after block.
\<close>

definition device_sum :: "(nat \<Rightarrow> f64 list) \<Rightarrow> nat \<Rightarrow> f64 list" where
  "device_sum row n = merge_equations (map (\<lambda>block. tree_reduce (kBlockSize div 2)
     (map (\<lambda>lane. let i = block * kBlockSize + lane in if i < n then row i else replicate 45 0) [0..<kBlockSize]) ! 0)
     [0..<launch_blocks n])"

lemma resident_equations_rows:
  assumes "resident_equations ob = Some equations" "\<And>i. i < ob_count ob \<Longrightarrow> resident_lane ob i = Some (row i)"
  shows "merge_equations equations = device_sum row (ob_count ob)"
proof -
  let ?rows = "\<lambda>block. map (\<lambda>lane. let i = block * kBlockSize + lane in if i < ob_count ob then row i else replicate 45 0) [0..<kBlockSize]"
  note blocks = those_map [OF assms(1) [unfolded resident_equations_def]]
  have "equations ! block = tree_reduce (kBlockSize div 2) (?rows block) ! 0" if b: "block < launch_blocks (ob_count ob)" for block
  proof -
    obtain rows where rows: "those (map (\<lambda>lane. resident_lane ob (block * kBlockSize + lane)) [0..<kBlockSize]) = Some rows"
      "equations ! block = tree_reduce (kBlockSize div 2) rows ! 0"
      using blocks b by (auto simp: equation_block_def)
    have "Some (rows ! lane) = Some (?rows block ! lane)" if lane: "lane < kBlockSize" for lane
    proof -
      have "Some (rows ! lane) = resident_lane ob (block * kBlockSize + lane)" using those_map [OF rows(1)] lane by simp
      also have "\<dots> = Some (?rows block ! lane)"
        using assms(2) lane by (cases "block * kBlockSize + lane < ob_count ob") (simp_all add: Let_def resident_lane_def)
      finally show ?thesis .
    qed
    then have "rows = ?rows block" using those_map [OF rows(1)] by (intro nth_equalityI) simp_all
    with rows(2) show ?thesis by simp
  qed
  then have "equations = map (\<lambda>block. tree_reduce (kBlockSize div 2) (?rows block) ! 0) [0..<launch_blocks (ob_count ob)]"
    using blocks by (intro nth_equalityI) simp_all
  then show ?thesis by (simp add: device_sum_def)
qed

text \<open>The CPU counts the pairs that the rows count.\<close>

lemma sum_list_concat_map: "sum_list (map (\<lambda>b. sum_list (map g (f b))) bs) = sum_list (map g (concat (map f bs)))"
  for g :: "'a \<Rightarrow> nat"
  by (induction bs) simp_all

lemma reduce_blocks_pairs:
  assumes "\<And>i acc. ac_count (f i acc) = ac_count acc + of_bool (P i)"
  shows "ac_count (reduce_blocks f n) = card {i. i < n \<and> P i}"
proof -
  have block: "ac_count (fold f js acc) = ac_count acc + sum_list (map (\<lambda>i. of_bool (P i)) js)" for js acc
    by (induction js arbitrary: acc) (simp_all add: assms)
  have sum: "ac_count (fold add_accumulation as acc) = ac_count acc + sum_list (map ac_count as)" for as acc
    by (induction as arbitrary: acc) (simp_all add: add_accumulation_def)
  have "ac_count (reduce_blocks f n) = sum_list (map (\<lambda>b. sum_list (map (\<lambda>i. of_bool (P i)) (block_range n b))) [0..<blocks n])"
    unfolding reduce_blocks_def sum by (simp add: zero_accumulation_def block comp_def)
  also have "\<dots> = sum_list (map (\<lambda>i. of_bool (P i)) (concat (map (block_range n) [0..<blocks n])))"
    by (rule sum_list_concat_map)
  also have "\<dots> = (\<Sum>i<n. of_bool (P i))" by (simp add: block_ranges_cover sum_list_distinct_conv_sum_set lessThan_atLeast0)
  also have "\<dots> = card {i. i < n \<and> P i}"
    by (simp add: sum.If_cases of_bool_def Int_def)
  finally show ?thesis .
qed

text \<open>Scan point \<open>i\<close> takes part in the sums.\<close>

definition pair_counts :: "Prepared \<Rightarrow> ValidatedCloud \<Rightarrow> Mat4 \<Rightarrow> int list \<Rightarrow> nat \<Rightarrow> bool" where
  "pair_counts pr scan pose neighbors i \<longleftrightarrow>
     0 \<le> neighbors ! i \<and> accepted (pr_reference_cloud pr) scan i (nat (neighbors ! i)) pose"

lemma iteration_pairs:
  assumes "Search_query lib (map narrow3 (cl_points (pr_reference_cloud pr))) (map (transform_point pose) (cl_points scan))
      (rp_max_correspondence_distance_mm (pr_parameters pr)) = Inr neighbors"
  shows "\<exists>acc. evaluate_iteration lib pr scan covariances pose = Inr acc \<and>
    ac_count acc = card {i. i < length (cl_points scan) \<and> pair_counts pr scan pose neighbors i}"
proof -
  have "ac_count (accumulate_pair lib pr scan covariances pose transformed neighbors i acc) =
      ac_count acc + of_bool (pair_counts pr scan pose neighbors i)" for transformed i acc
    by (simp add: accumulate_pair_def pair_counts_def Let_def)
  from reduce_blocks_pairs [of "accumulate_pair lib pr scan covariances pose (map (transform_point pose) (cl_points scan)) neighbors", OF this]
  show ?thesis using assms by (simp add: evaluate_iteration_def transform_points_eq)
qed

lemma gpu_solver_reference: "gpu_solver lib cpu gpu nth_elem pr st \<Longrightarrow> cl_points (pr_reference_cloud pr) \<noteq> []"
proof (induction rule: gpu_solver.induct)
  case (prepared reference p capacity backend n pr st n')
  then have "host_members cpu reference p capacity = Inr pr"
    by (auto simp: prepare_registration_cuda_def map_sum_def split: if_splits sum.splits option.splits prod.splits) (metis sum.exhaust)
  then show ?case
    by (auto simp: host_members_def checked_reference_def rbind_Inr_iff require_Inr_iff Let_def split: if_splits)
qed

lemma card_below: "n \<le> 2 ^ 31 \<Longrightarrow> card {i. i < n \<and> P i} \<le> 2 ^ 53" for n :: nat
proof -
  assume n: "n \<le> 2 ^ 31"
  have "card {i. i < n \<and> P i} \<le> card {..<n}" by (rule card_mono) auto
  with n show ?thesis by simp
qed

lemma all_queries_finite:
  assumes "resident_equations ob = Some equations" "ob_count ob \<le> 2 ^ 31" "feq (merge_equations equations ! 44) 0" "i < ob_count ob"
  shows "is_finite3 (ob_queries ob ! i)"
proof -
  have finite: "finite {i. out_of_range ob i}" by (rule finite_subset [of _ "{..<ob_count ob}"]) (auto simp: out_of_range_def)
  have "card {i. out_of_range ob i} \<le> 2 ^ 53" using card_below [OF assms(2)] by (simp add: out_of_range_def)
  then have "merge_equations equations ! 44 = Num (of_nat (card {i. out_of_range ob i}))"
    using merged_counts [OF assms(1,2)] of_count_exact by simp
  then have "card {i. out_of_range ob i} = 0" using assms(3) by (simp add: feq_def fp_le_def zero_fp_def)
  then show ?thesis using finite assms(4) by (auto simp: out_of_range_def)
qed

text \<open>One evaluation, after the upload of \<open>scan\<close>, as the CPU solver sees it.\<close>

definition cpu_evaluation :: "solver_library \<Rightarrow> Prepared \<Rightarrow> ValidatedCloud \<Rightarrow> Mat4 \<Rightarrow> bool \<Rightarrow> Accumulation \<Rightarrow> bool" where
  "cpu_evaluation lib pr scan pose final acc \<longleftrightarrow> (\<exists>neighbors.
     Search_query lib (map narrow3 (cl_points (pr_reference_cloud pr))) (map (transform_point pose) (cl_points scan))
       (rp_max_correspondence_distance_mm (pr_parameters pr)) = Inr neighbors \<and>
     ac_matrix acc @ ac_gradient acc @ [ac_residual acc] =
       take 43 (device_sum (cpu_row lib pr scan pose neighbors final) (length (cl_points scan))) \<and>
     ac_count acc = card {i. i < length (cl_points scan) \<and> pair_counts pr scan pose neighbors i})"

lemma resident_sum_cpu:
  assumes "solver_ok pr st" "resident_sum pr (cl_points scan) (cl_normals scan) pose final st acc"
    and "rp_method (pr_parameters pr) \<noteq> gicp" "cl_points (pr_reference_cloud pr) = map widen3 reference"
    and "list_all in_format3 reference" "reference \<noteq> []" "search_in_range (lib_radius lib)"
    and "\<forall>p \<in> set (cl_points scan). tree_finds lib reference (rp_max_correspondence_distance_mm (pr_parameters pr))
      (narrow3 (transform_point pose p))"
  shows "cpu_evaluation lib pr scan pose final acc"
proof -
  let ?p = "pr_parameters pr" and ?n = "length (cl_points scan)" and ?cloud = "pr_reference_cloud pr"
  let ?bound = "rp_max_correspondence_distance_mm ?p"
  let ?query = "\<lambda>p. narrow3 (transform_point pose p)"
  have ref: "map narrow3 (cl_points ?cloud) = reference"
    using assms(4,5) by (simp add: narrow3_widen3 list_all_iff map_idI)
  have st: "device_ok reference st" "im_covariance_neighbors st = 0"
    "im_reference_normals st = (if cl_normals ?cloud = [] then None else Some (cl_normals ?cloud))"
    using assms(1,3) by (simp_all add: solver_ok_def workspace_def ref Let_def)
  have fin: "list_all is_finite3 reference" using st(1) by (simp add: device_ok_def search_data_def)
  obtain equation ob equations where
    ob: "resident_problem reference (im_reference_normals st) (cl_points scan) (cl_normals scan) pose ?bound (rp_huber_delta_mm ?p)
        (rp_method ?p = point_to_plane) final ob" "ob_reference_covariances ob = None"
      "rp_method ?p = point_to_plane \<Longrightarrow> cl_normals ?cloud \<noteq> []" "isfinite ?bound" "resident_equations ob = Some equations"
      "equation = merge_equations equations" "feq (equation ! 44) 0"
    and acc: "to_u64 (equation ! 43) = Some (ac_count acc)"
      "acc = \<lparr>ac_matrix = take 36 equation, ac_gradient = take 6 (drop 36 equation), ac_residual = equation ! 42, ac_count = ac_count acc\<rparr>"
    using assms(2) st(2,3) unfolding resident_sum_def Let_def ref evaluated_def by (auto split: if_splits)
  have count: "ob_count ob = ?n" "?n \<le> 2 ^ 31" using ob(1) by (simp_all add: resident_problem_def)
  have lane: "ob_transformed ob ! i = transform_point pose (cl_points scan ! i)" "ob_queries ob ! i = ?query (cl_points scan ! i)"
    "is_finite3 (ob_queries ob ! i)" "best_match reference (ob_queries ob ! i) (?bound * ?bound) (all_indices reference) (ob_indices ob ! i)"
    if i: "i < ?n" for i
  proof -
    show "is_finite3 (ob_queries ob ! i)" using all_queries_finite [OF ob(5), of i] ob(6,7) count i by simp
    then show "ob_transformed ob ! i = transform_point pose (cl_points scan ! i)" "ob_queries ob ! i = ?query (cl_points scan ! i)"
      "best_match reference (ob_queries ob ! i) (?bound * ?bound) (all_indices reference) (ob_indices ob ! i)"
      using ob(1) i unfolding resident_problem_def by blast+
  qed
  let ?neighbors = "map (\<lambda>p. query_point lib reference ?bound (?query p)) (cl_points scan)"
  have search: "Search_query lib reference (map (transform_point pose) (cl_points scan)) ?bound = Inr ?neighbors"
    using lane(2,3) by (auto simp: Search_query_def list_all_length comp_def)
  have index: "ob_indices ob ! i = ?neighbors ! i" if i: "i < ?n" for i
  proof -
    have "best_match reference (?query (cl_points scan ! i)) (?bound * ?bound) (all_indices reference) (?neighbors ! i)"
      using query_point_best [OF fin _ square_number [OF ob(4)] assms(7)] lane(2,3) [OF i] assms(8) i by simp
    then show ?thesis
      using best_match_unique [OF lane(4) [OF i]] lane(2) [OF i] by (auto simp: all_indices_def)
  qed
  have same: "same_problem ob pr scan pose ?neighbors"
    unfolding same_problem_def
    using ob(1,3) assms(4) st(3) lane index count by (auto simp: resident_problem_def intro: nth_of_take)
  have row: "resident_lane ob i = Some (cpu_row lib pr scan pose ?neighbors final i)" if "i < ob_count ob" for i
  proof -
    have "nat (?neighbors ! i) < length (ob_reference ob)"
      using query_point_range [OF assms(7), of reference ?bound "?query (cl_points scan ! i)"] that count ob(1) assms(6)
      by (auto simp: resident_problem_def)
    moreover have "ob_final_metrics ob = final" using ob(1) by (simp add: resident_problem_def)
    ultimately show ?thesis using resident_lane_cpu [OF same that assms(3) ob(2)] lane(3) that count by simp
  qed
  have equation: "equation = device_sum (cpu_row lib pr scan pose ?neighbors final) ?n"
    using resident_equations_rows [OF ob(5) row] ob(6) count(1) by simp
  have "matched ob i \<longleftrightarrow> i < ?n \<and> pair_counts pr scan pose ?neighbors i" for i
    using faces_accepted [OF same] lane(3) index count by (auto simp: matched_def pair_counts_def)
  then have "equation ! 43 = of_count (card {i. i < ?n \<and> pair_counts pr scan pose ?neighbors i})"
    using merged_counts [OF ob(5)] ob(6) count by simp
  moreover have "card {i. i < ?n \<and> pair_counts pr scan pose ?neighbors i} \<le> 2 ^ 53"
    by (rule card_below [OF count(2)])
  ultimately have pairs: "ac_count acc = card {i. i < ?n \<and> pair_counts pr scan pose ?neighbors i}"
    using acc(1) to_u64_of_count by simp
  have "length equation = 45" by (simp add: ob(6) merge_equations_def)
  then have "ac_matrix acc @ ac_gradient acc @ [ac_residual acc] = take 43 equation"
    by (subst (1 2 3) acc(2)) (simp add: take_add [of 36 6, simplified, symmetric] take_Suc_conv_app_nth [of 42, simplified])
  then show ?thesis unfolding cpu_evaluation_def ref using search equation pairs by (intro exI [of _ ?neighbors]) simp
qed

text \<open>
  C4. An evaluation on the GPU works on exactly the CPU solver's correspondences. For a
  point-to-point or point-to-plane solver, in any state it can be in, an upload of the scan and an
  evaluation that return give: the sums of the very contributions that the CPU solver adds up at this
  pose (the same normal equations, gradients and residuals, bit for bit, of the same accepted pairs,
  only added in the tree order of the device), and exactly the number of pairs of the CPU solver. The
  k-d tree is assumed to report the best match of every moved point.
\<close>
theorem gpu_evaluation_matches_cpu:
  assumes "gpu_solver lib cpu gpu nth_elem pr st" "gpu_ok gpu" "permutes_range nth_elem"
    and "upload_scan gpu nth_elem (cl_points scan) (cl_normals scan) st n = Some (Inr (), st1, n1)"
    and "evaluate_resident gpu pr pose final st1 n1 = Some (Inr acc, st2, n2)"
    and "rp_method (pr_parameters pr) \<noteq> gicp" "cl_points (pr_reference_cloud pr) = map widen3 reference"
    and "list_all in_format3 reference" "search_in_range (lib_radius lib)"
    and "\<forall>p \<in> set (cl_points scan). tree_finds lib reference (rp_max_correspondence_distance_mm (pr_parameters pr))
      (narrow3 (transform_point pose p))"
  shows "\<exists>neighbors cpu_acc.
    Search_query lib reference (map (transform_point pose) (cl_points scan))
      (rp_max_correspondence_distance_mm (pr_parameters pr)) = Inr neighbors \<and>
    ac_matrix acc @ ac_gradient acc @ [ac_residual acc] =
      take 43 (device_sum (cpu_row lib pr scan pose neighbors final) (length (cl_points scan))) \<and>
    evaluate_iteration lib pr scan [] pose = Inr cpu_acc \<and> ac_count acc = ac_count cpu_acc"
proof -
  note ok = gpu_solver_ok [OF assms(1-3)]
  have scanned: "solver_ok pr st1" "scan_ready (cl_points scan) (cl_normals scan) st1"
    using wp_returned [OF upload_scan_solver [OF ok assms(3)] assms(4)] by simp_all
  then have "resident_sum pr (cl_points scan) (cl_normals scan) pose final st1 acc"
    using wp_returned [OF evaluate_resident_wp [OF scanned(1) assms(2) scanned(2)] assms(5)] by blast
  moreover have "reference \<noteq> []" using gpu_solver_reference [OF assms(1)] assms(7) by auto
  ultimately have "cpu_evaluation lib pr scan pose final acc"
    using resident_sum_cpu [OF scanned(1) _ assms(6-8)] assms(9,10) by blast
  moreover have "map narrow3 (cl_points (pr_reference_cloud pr)) = reference"
    using assms(7,8) by (simp add: narrow3_widen3 list_all_iff map_idI)
  ultimately show ?thesis
    using iteration_pairs [of lib pr pose scan] unfolding cpu_evaluation_def by fastforce
qed

lemma build_scan_search_keeps: "keeps f (build_scan_search gpu nth_elem k epsilon packed)"
  by (auto simp: keeps_def build_scan_search_def split: option.splits prod.splits sum.splits) (metis sum.exhaust old.unit.exhaust)

lemma upload_scan_keeps: "keeps im_device (upload_scan gpu nth_elem points normals)"
  unfolding upload_scan_def fill_scan_def same_device_def host_to_device_def device_to_host_def
  by (intro keeps_bind keeps_if keeps_update keeps_transferred keeps_simple build_scan_search_keeps)
    (simp_all add: lost_scan_def lost_scan_normals_def)

lemma solver_workspace: "solver_ok pr st \<Longrightarrow> im_resident st \<and> (rp_method (pr_parameters pr) \<noteq> gicp \<longrightarrow> im_covariance_neighbors st = 0)"
  by (simp add: solver_ok_def workspace_def Let_def)

text \<open>
  C25. A scan that was not uploaded completely is never evaluated. Take an upload that throws, whatever
  the failed copies left in the device memory. When the arguments are acceptable and the device is still
  the one of the registration, the upload has begun: the scan count is then zero and every evaluation
  is refused with an error, whatever the CUDA calls return. Otherwise the upload was refused before it
  touched anything: the state is the old one, so a scan that was complete before still is.
\<close>
theorem failed_upload_blocks_evaluation:
  assumes "gpu_solver lib cpu gpu nth_elem pr st" "gpu_ok gpu" "permutes_range nth_elem"
    and "upload_scan gpu nth_elem points normals st n = Some (Inl e, st1, n1)"
  shows "if uploadable points normals st \<and> device_unchanged gpu n st
    then im_scan_count st1 = 0 \<and> (\<forall>pose radius huber plane final m. evaluate gpu pose radius huber plane final st1 m =
      Some (Inl (exn_invalid_argument ''invalid resident evaluation''), st1, m))
    else st1 = st"
proof -
  note ok = solver_ok_device [OF gpu_solver_ok [OF assms(1-3)]]
  from wp_thrown [OF upload_scan_wp [OF ok assms(3)] assms(4)]
  have "if uploadable points normals st \<and> device_unchanged gpu n st then im_scan_count st1 = 0 else st1 = st" by simp
  then show ?thesis
    by (auto simp: evaluate_def cuda_bind_def cuda_get_def cuda_require_def cuda_throw_def)
qed

text \<open>On a device that works, acceptable arguments are served.\<close>

lemma reliable_upload:
  assumes "solver_ok pr st" "permutes_range nth_elem" "reliable gpu (im_device st)" "rp_method (pr_parameters pr) \<noteq> gicp"
    and "uploadable points normals st"
  shows "\<exists>st' n'. upload_scan gpu nth_elem points normals st n = Some (Inr (), st', n') \<and> im_device st' = im_device st"
proof -
  have "wp (upload_scan gpu nth_elem points normals) (\<lambda>_ st' _. im_device st' = im_device st) (\<lambda>_ _. False) st n"
    by (rule wp_mono [OF wp_keeps [OF upload_scan_wp [OF solver_ok_device [OF assms(1)] assms(2)] upload_scan_keeps]])
      (use assms(3-5) solver_workspace [OF assms(1)] in auto)
  from wp_no_throw [OF this] show ?thesis by auto
qed

lemma reliable_evaluation:
  assumes "solver_ok pr st" "gpu_ok gpu" "scan_ready points normals st" "reliable gpu (im_device st)"
    and "evaluable points pose (rp_max_correspondence_distance_mm (pr_parameters pr)) (rp_huber_delta_mm (pr_parameters pr))
      (rp_method (pr_parameters pr) = point_to_plane) st"
  shows "\<exists>acc st' n'. evaluate_resident gpu pr pose final st n = Some (Inr acc, st', n')"
proof -
  let ?p = "pr_parameters pr"
  let ?e = "evaluate gpu pose (rp_max_correspondence_distance_mm ?p) (rp_huber_delta_mm ?p) (rp_method ?p = point_to_plane) final"
  have "wp ?e (\<lambda>equation _ _. to_u64 (equation ! 43) \<noteq> None) (\<lambda>_ _. False) st n"
  proof (rule wp_mono [OF evaluate_wp [OF solver_ok_device [OF assms(1)] assms(2,3)]], goal_cases)
    case (1 equation st' n')
    then show ?case using evaluated_pairs by (metis option.distinct(1))
  qed (use assms(4,5) in blast)
  then have "wp (evaluate_resident gpu pr pose final) (\<lambda>_ _ _. True) (\<lambda>_ _. False) st n"
    unfolding evaluate_resident_def Let_def wp_bind [of ?e] by (rule wp_mono) (auto simp: wp_simps)
  from wp_no_throw [OF this] show ?thesis by auto
qed

lemma sample_moved: "transform_point identity_matrix (Vec3 0 0 0) = Vec3 0 0 0"
  by (simp add: transform_point_def identity_matrix_def fp_eval)

lemma sample_tree: "search_in_range (lib_radius (sample_library [(0, 0)]))" "tree_finds (sample_library [(0, 0)]) [Vec3 0 0 0] bound q"
proof -
  show "search_in_range (lib_radius (sample_library [(0, 0)]))" by (auto simp: search_in_range_def sample_library_def)
  have "r = - 1 \<or> r = 0" if "best_match [Vec3 0 0 0] q (bound * bound) {0..<1} r" for r
    using that by (auto simp: best_match_def Let_def split: if_splits)
  then show "tree_finds (sample_library [(0, 0)]) [Vec3 0 0 0] bound q"
    by (force simp: tree_finds_def sample_library_def)
qed

lemma sample_uploadable:
  assumes "solver_ok sample_prepared st" "im_capacity st = 1"
  shows "uploadable [Vec3 0 0 0] [] st"
  using assms solver_workspace [OF assms(1)] by (simp add: uploadable_def is_finite3_def fp_eval)

lemma sample_evaluable: "evaluable [Vec3 0 0 0] identity_matrix 1 1 False st"
proof -
  have "is_finite3 (narrow3 (Vec3 0 0 0))" by (simp add: is_finite3_def fp_eval)
  then have "list_all (\<lambda>p. is_finite3 (narrow3 (transform_point identity_matrix p))) [Vec3 0 0 0]"
    by (simp add: sample_moved)
  moreover have "list_all isfinite identity_matrix" by (simp add: identity_matrix_def)
  ultimately show ?thesis by (simp add: evaluable_def fp_eval)
qed

theorem gpu_evaluation_matches_cpu_witness:
  "\<exists>st n st1 n1 st2 n2 acc cpu_acc. upload_scan working_gpu keep_order [Vec3 0 0 0] [] st n = Some (Inr (), st1, n1) \<and>
     evaluate_resident working_gpu sample_prepared identity_matrix False st1 n1 = Some (Inr acc, st2, n2) \<and>
     evaluate_iteration (sample_library [(0, 0)]) sample_prepared \<lparr>cl_points = [Vec3 0 0 0], cl_normals = []\<rparr> [] identity_matrix = Inr cpu_acc \<and>
     ac_count acc = ac_count cpu_acc"
proof -
  let ?lib = "sample_library [(0, 0)]" and ?scan = "\<lparr>cl_points = [Vec3 0 0 0], cl_normals = []\<rparr> :: ValidatedCloud"
  obtain st n where p: "prepare_registration_cuda ?lib None working_gpu keep_order sample_cloud sample_parameters 1
      backend_gpu 0 = Some (Inr (on_gpu sample_prepared st), n)" "im_capacity st = 1" "im_device st = 0"
    using sample_gpu_prepared [OF working_gpu_calls, of ?lib 0] by (auto simp: working_gpu_def)
  note solver = prepared [OF p(1)]
  note ok = gpu_solver_ok [OF solver working_gpu_ok(1) keep_order_permutes]
  have settings: "rp_method (pr_parameters sample_prepared) = point_to_point" "rp_max_correspondence_distance_mm (pr_parameters sample_prepared) = 1"
    "rp_huber_delta_mm (pr_parameters sample_prepared) = 1" "cl_points (pr_reference_cloud sample_prepared) = map widen3 [Vec3 0 0 0]"
    "list_all in_format3 [Vec3 0 0 0 :: Vec3f]"
    by (simp_all add: sample_prepared_def sample_parameters_def widen3_def in_format3_def zero_fp_def representable_zero)
  obtain st1 n1 where up: "upload_scan working_gpu keep_order [Vec3 0 0 0] [] st n = Some (Inr (), st1, n1)" "im_device st1 = 0"
    using reliable_upload [OF ok keep_order_permutes _ _ sample_uploadable [OF ok p(2)], of working_gpu n] working_gpu_ok(2) p(3) settings(1) by auto
  have scanned: "solver_ok sample_prepared st1" "scan_ready [Vec3 0 0 0] [] st1"
    using wp_returned [OF upload_scan_solver [OF ok keep_order_permutes] up(1)] by simp_all
  obtain acc st2 n2 where run: "evaluate_resident working_gpu sample_prepared identity_matrix False st1 n1 = Some (Inr acc, st2, n2)"
    using reliable_evaluation [OF scanned(1) working_gpu_ok(1) scanned(2), of identity_matrix False n1] working_gpu_ok(2) up(2)
      settings sample_evaluable by auto
  have tree: "\<forall>p \<in> set (cl_points ?scan). tree_finds ?lib [Vec3 0 0 0] (rp_max_correspondence_distance_mm (pr_parameters sample_prepared))
      (narrow3 (transform_point identity_matrix p))"
    using sample_tree(2) by simp
  have "rp_method (pr_parameters sample_prepared) \<noteq> gicp" using settings(1) by simp
  from gpu_evaluation_matches_cpu [OF solver working_gpu_ok(1) keep_order_permutes _ _ this settings(4,5) sample_tree(1) tree, where n = n and ?st1.0 = st1 and ?n1.0 = n1 and acc = acc and final = False]
  obtain cpu_acc where "evaluate_iteration ?lib sample_prepared ?scan [] identity_matrix = Inr cpu_acc" "ac_count acc = ac_count cpu_acc"
    using up(1) run by auto
  then show ?thesis using up(1) run by blast
qed

text \<open>
  A device whose calls 23 and 25 fail, and whose lost copies leave other values behind. On it the
  preparation takes the calls up to 18; the first alignment uploads its scan and fails in its first
  evaluation, so the scan stays; the next upload fails in its copy.
\<close>

definition failing_gpu :: gpu where
  "failing_gpu = working_gpu\<lparr>gpu_call := (\<lambda>n. if n = 23 \<or> n = 25 then Some ''device lost'' else None),
     gpu_vector := (\<lambda>_ _. Vec3 1 1 1)\<rparr>"

lemmas run_cuda = cuda_bind_def cuda_get_def cuda_require_def cuda_return_def cuda_update_def cuda_throw_def cuda_defined_def
  checked_def transferred_def same_device_def host_to_device_def

lemma failing_calls: "gpu_call failing_gpu n = (if n = 23 \<or> n = 25 then Some ''device lost'' else None)" "gpu_device failing_gpu n = 0"
  "fresh (gpu_vector failing_gpu) call (Suc 0) = [Vec3 1 1 1]"
  by (simp_all add: failing_gpu_def working_gpu_def fresh_def)

lemma failing_sessions:
  "\<exists>st. gpu_solver (sample_library []) None failing_gpu keep_order sample_prepared st \<and> im_capacity st = 1 \<and> im_device st = 0 \<and>
     im_scan st = Some [Vec3 0 0 0] \<and> im_scan_count st = 1"
proof -
  have gpu: "gpu_ok failing_gpu" "calls_work failing_gpu 0 (0 + 19)"
    by (simp_all add: gpu_ok_def calls_work_def failing_calls) (simp add: failing_gpu_def working_gpu_def)
  obtain st where p: "prepare_registration_cuda (sample_library []) None failing_gpu keep_order sample_cloud sample_parameters 1
      backend_gpu 0 = Some (Inr (on_gpu sample_prepared st), 0 + 19)" "im_capacity st = 1" "im_device st = gpu_device failing_gpu 0"
    using sample_gpu_prepared [OF gpu(2), of "sample_library []"] by blast
  note solver = prepared [OF p(1)]
  note ok = gpu_solver_ok [OF solver gpu(1) keep_order_permutes]
  have fits: "uploadable [Vec3 0 0 0] [] st" by (rule sample_uploadable [OF ok p(2)])
  have "device_unchanged failing_gpu 19 st" using p(3) by (simp add: device_unchanged_def failing_calls)
  note begun = upload_scan_accepted [OF fits this]
  obtain s where s: "im_scan st = Some s" "length s = 1"
    using solver_ok_device [OF ok] fits p(2) by (auto simp: device_ok_def uploadable_def)
  let ?st = "st\<lparr>im_scan := Some [Vec3 0 0 0], im_has_scan_normals := False, im_scan_count := 1,
    im_transfers := im_transfers st\<lparr>ts_host_to_device_bytes := ts_host_to_device_bytes (im_transfers st) + sizeof_vector\<rparr>\<rparr>"
  have no_covariances: "im_covariance_neighbors st = 0"
    using solver_workspace [OF ok] by (simp add: sample_prepared_def sample_parameters_def)
  have up: "upload_scan failing_gpu keep_order [Vec3 0 0 0] [] st 19 = Some (Inr (), ?st, 22)"
    using s no_covariances by (simp add: begun fill_scan_def run_cuda failing_calls store_def)
  have eval: "\<exists>e. evaluate_resident failing_gpu sample_prepared identity_matrix False ?st 22 = Some (Inl e, ?st, 24)"
    using fits p(3) by (simp add: evaluate_resident_def evaluate_def run_cuda failing_calls uploadable_def Let_def
      identity_matrix_def sample_prepared_def sample_parameters_def fp_eval)
  have "unat (rp_max_iterations (pr_parameters sample_prepared)) = Suc 0"
    by (simp add: sample_prepared_def sample_parameters_def)
  then have "\<exists>e. align_resident failing_gpu keep_order (sample_library []) sample_prepared sample_cloud sample_pose st 19 = Some (Inl e, ?st, 24)"
    using up eval by (auto simp: align_resident_def Let_def cuda_bind_def cuda_require_def cuda_return_def sample_cloud_points
      icp_start_def sample_pose_def)
  then obtain e where "PreparedRegistration_align (sample_library []) failing_gpu keep_order (on_gpu sample_prepared st) sample_cloud sample_pose 19 =
      Some (caught (Inl e), on_gpu sample_prepared ?st, 24)"
    by (auto simp: PreparedRegistration_align_def)
  from aligned [OF solver this] show ?thesis
    using p(2,3) by (intro exI [of _ ?st]) (simp add: failing_calls)
qed

theorem failed_upload_blocks_evaluation_witness:
  "\<exists>st st1 n1 e. im_scan st = Some [Vec3 0 0 0] \<and> im_scan_count st = 1 \<and>
     upload_scan failing_gpu keep_order [Vec3 0 0 0] [] st 24 = Some (Inl e, st1, n1) \<and> im_scan st1 = Some [Vec3 1 1 1] \<and>
     evaluate failing_gpu identity_matrix 1 1 False False st1 n1 =
       Some (Inl (exn_invalid_argument ''invalid resident evaluation''), st1, n1)"
proof -
  have gpu: "gpu_ok failing_gpu" by (simp add: failing_gpu_def working_gpu_def gpu_ok_def)
  obtain st where st: "gpu_solver (sample_library []) None failing_gpu keep_order sample_prepared st" "im_capacity st = 1" "im_device st = 0"
    "im_scan st = Some [Vec3 0 0 0]" "im_scan_count st = 1"
    using failing_sessions by blast
  have begun: "uploadable [Vec3 0 0 0] [] st" "device_unchanged failing_gpu 24 st"
    using sample_uploadable [OF gpu_solver_ok [OF st(1) gpu keep_order_permutes] st(2)] st(3)
    by (simp_all add: device_unchanged_def failing_calls)
  obtain e st1 n1 where up: "upload_scan failing_gpu keep_order [Vec3 0 0 0] [] st 24 = Some (Inl e, st1, n1)" "im_scan st1 = Some [Vec3 1 1 1]"
    using st(4) by (simp add: upload_scan_accepted [OF begun] fill_scan_def run_cuda failing_calls lost_scan_def store_def)
  from failed_upload_blocks_evaluation [OF st(1) gpu keep_order_permutes up(1)] show ?thesis
    using begun st(4,5) up by (intro exI [of _ st] exI [of _ st1] exI [of _ n1] exI [of _ e]) simp
qed

end
