(* ===== verification/CudaEngine.thy ===== *)
theory CudaEngine
  imports CudaRegistration
begin

text \<open>
  \<open>registration/registration_engine.cpp\<close> in a build with CUDA: the availability of a device, and the
  context whose solver runs on the CPU or on the GPU. \<open>devices\<close> is what \<open>cudaGetDeviceCount\<close> reports,
  \<open>None\<close> when it fails.
\<close>

definition available :: "int option \<Rightarrow> bool" where
  "available devices = (case devices of Some found \<Rightarrow> 0 < found | None \<Rightarrow> False)"

definition registration_backend_available_cuda :: "int option \<Rightarrow> ComputeBackend \<Rightarrow> bool" where
  "registration_backend_available_cuda devices backend \<longleftrightarrow>
     backend = backend_cpu \<or> backend = backend_automatic \<or> backend = backend_gpu \<and> available devices"

record RegistrationContext_cuda =
  cc_reference :: Surface
  cc_parameters :: RegistrationParameters
  cc_capacity :: nat
  cc_actual_backend :: ComputeBackend
  cc_prepared :: PreparedRegistration

definition RegistrationContext_create_cuda ::
  "solver_library \<Rightarrow> cpu_registers option \<Rightarrow> gpu \<Rightarrow> nth_element \<Rightarrow> int option \<Rightarrow> Surface \<Rightarrow> RegistrationParameters \<Rightarrow> nat \<Rightarrow>
     ComputeBackend \<Rightarrow> nat \<Rightarrow> (RegistrationContext_cuda Result \<times> nat) option" where
  "RegistrationContext_create_cuda lib cpu gpu nth_elem devices reference parameters max_scan_points backend n =
     (case rbind (validate_registration_parameters parameters) (\<lambda>_.
           require (\<not> (sv_unit reference \<noteq> millimeter \<or> max_scan_points = 0 \<or> 2 ^ 31 - 1 < max_scan_points))
             (context_error ''reference must use millimetres; scan capacity must be in [1, INT32_MAX]'' invalid_input) (
           require (registration_backend_available_cuda devices backend)
             (context_error ''requested registration backend is unavailable'' invalid_argument) (
           Surface_create (sv_points reference) (sv_normals reference) (sv_valid reference) (sv_grid reference)
             (sv_unit reference) (sv_frame reference)))) of
        Inl e \<Rightarrow> Some (Inl e, n)
      | Inr snapshot \<Rightarrow>
          let selected = select_backend backend (unat (sv_size reference)) max_scan_points
                (backend = backend_automatic \<and> gpu_size_eligible (unat (sv_size reference)) max_scan_points \<and>
                 registration_backend_available_cuda devices backend_gpu) in
          map_option (\<lambda>(outcome, n). (rbind (caught_context outcome) (\<lambda>prepared.
              Inr \<lparr>cc_reference = snapshot, cc_parameters = parameters, cc_capacity = max_scan_points,
                cc_actual_backend = selected, cc_prepared = prepared\<rparr>), n))
            (prepare_registration_cuda lib cpu gpu nth_elem snapshot parameters max_scan_points selected n))"

definition RegistrationContext_align_cuda ::
  "solver_library \<Rightarrow> gpu \<Rightarrow> nth_element \<Rightarrow> RegistrationContext_cuda \<Rightarrow> Surface \<Rightarrow> RigidTransform \<Rightarrow> nat \<Rightarrow>
     (RegistrationMetrics Result \<times> RegistrationContext_cuda \<times> nat) option" where
  "RegistrationContext_align_cuda lib gpu nth_elem ctx scan initial_transform n =
     (case require (\<not> cc_capacity ctx < unat (sv_size scan))
             (context_error ''scan exceeds context logical-point capacity'' invalid_input) (
           rbind (RegistrationInput_create (cc_reference ctx) scan initial_transform (cc_parameters ctx)) (\<lambda>_.
           Surface_create (sv_points scan) (sv_normals scan) (sv_valid scan) (sv_grid scan) (sv_unit scan) (sv_frame scan))) of
        Inl e \<Rightarrow> Some (Inl e, ctx, n)
      | Inr _ \<Rightarrow> map_option (\<lambda>(result, prepared, n). (result, ctx\<lparr>cc_prepared := prepared\<rparr>, n))
          (PreparedRegistration_align lib gpu nth_elem (cc_prepared ctx) scan initial_transform n))"

definition register_surfaces_cuda ::
  "solver_library \<Rightarrow> cpu_registers option \<Rightarrow> gpu \<Rightarrow> nth_element \<Rightarrow> int option \<Rightarrow> Surface \<Rightarrow> Surface \<Rightarrow> RigidTransform \<Rightarrow>
     RegistrationParameters \<Rightarrow> ComputeBackend \<Rightarrow> nat \<Rightarrow> (RegistrationMetrics Result \<times> nat) option" where
  "register_surfaces_cuda lib cpu gpu nth_elem devices reference scan initial_transform parameters backend n =
     (case RegistrationInput_create reference scan initial_transform parameters of
        Inl e \<Rightarrow> Some (Inl e, n)
      | Inr _ \<Rightarrow>
          (case RegistrationContext_create_cuda lib cpu gpu nth_elem devices reference parameters (unat (sv_size scan)) backend n of
             None \<Rightarrow> None
           | Some (Inl e, n) \<Rightarrow> Some (Inl e, n)
           | Some (Inr ctx, n) \<Rightarrow>
               map_option (\<lambda>(result, ctx, n). (result, n))
                 (RegistrationContext_align_cuda lib gpu nth_elem ctx scan initial_transform n)))"

subsection \<open>A registration always ends\<close>

lemma valid_points_bound: "surface_ok s \<Longrightarrow> length (valid_indices s) < 2 ^ 64"
proof -
  assume s: "surface_ok s"
  have "length (valid_indices s) \<le> length (logical_indices s)" by (simp add: valid_indices_def)
  also have "\<dots> = unat (sv_size s)" using s by (simp add: surface_ok_def)
  also have "\<dots> < 2 ^ 64" using unsigned_less [of "sv_size s", where 'a = nat] by simp
  finally show ?thesis .
qed

text \<open>What a solver of this build holds, on either processor.\<close>

definition solver_state :: "solver_library \<Rightarrow> cpu_registers option \<Rightarrow> gpu \<Rightarrow> nth_element \<Rightarrow> RegistrationParameters \<Rightarrow> PreparedRegistration \<Rightarrow> bool" where
  "solver_state lib cpu gpu nth_elem p prepared \<longleftrightarrow> (case prepared of
     on_cpu pr \<Rightarrow> pr_parameters pr = p | on_gpu pr st \<Rightarrow> pr_parameters pr = p \<and> gpu_solver lib cpu gpu nth_elem pr st)"

lemma prepared_returns:
  assumes "permutes_range nth_elem"
  shows "\<exists>outcome n'. prepare_registration_cuda lib cpu gpu nth_elem reference p capacity backend n = Some (outcome, n') \<and>
    (\<forall>prepared. outcome = Inr prepared \<longrightarrow> solver_state lib cpu gpu nth_elem p prepared)"
proof -
  consider "backend = backend_cpu" | "backend = backend_gpu" | "backend \<noteq> backend_cpu" "backend \<noteq> backend_gpu" by blast
  then show ?thesis
  proof cases
    case 1
    have "pr_parameters pr = p" if "Prepared_create lib cpu reference p capacity backend = Inr pr" for pr
      using that by (auto simp: Prepared_create_def rbind_Inr_iff Let_def)
    then show ?thesis using 1
      by (cases "Prepared_create lib cpu reference p capacity backend") (auto simp: prepare_registration_cuda_def solver_state_def)
  next
    case 2
    show ?thesis
    proof (cases "host_members cpu reference p capacity")
      case (Inr pr)
      obtain outcome n' where search: "prepare_search gpu nth_elem p (pr_reference_cloud pr) capacity n = Some (outcome, n')"
        using prepare_search_returns [OF assms] by fastforce
      then have run: "prepare_registration_cuda lib cpu gpu nth_elem reference p capacity backend n = Some (map_sum id (on_gpu pr) outcome, n')"
        using 2 Inr by (simp add: prepare_registration_cuda_def)
      have "solver_state lib cpu gpu nth_elem p (on_gpu pr st)" if "outcome = Inr st" for st
        using prepared [of lib cpu gpu nth_elem reference p capacity backend n pr st n'] run that host_members_fields [OF Inr]
        by (simp add: solver_state_def)
      then show ?thesis using run by (cases outcome) auto
    qed (use 2 in \<open>simp add: prepare_registration_cuda_def\<close>)
  qed (simp add: prepare_registration_cuda_def)
qed

lemma aligned_returns:
  assumes "solver_state lib cpu gpu nth_elem p prepared" "gpu_ok gpu" "permutes_range nth_elem" "surface_ok scan"
  shows "\<exists>result prepared' n'. PreparedRegistration_align lib gpu nth_elem prepared scan initial n = Some (result, prepared', n') \<and>
    solver_state lib cpu gpu nth_elem p prepared' \<and> (\<forall>m. result = Inr m \<longrightarrow> conforming p scan initial m)"
proof (cases prepared)
  case (on_cpu pr)
  then show ?thesis
    using assms(1) aligned_conforming [OF _ valid_points_bound [OF assms(4)], of lib pr initial]
    by (auto simp: PreparedRegistration_align_def solver_state_def)
next
  case (on_gpu pr st)
  then show ?thesis
    using assms(1) gpu_aligned [OF _ assms(2,3), of lib cpu pr st scan initial n] valid_points_bound [OF assms(4)]
    by (auto simp: solver_state_def)
qed

lemma context_returns:
  assumes "permutes_range nth_elem"
  shows "\<exists>outcome n'. RegistrationContext_create_cuda lib cpu gpu nth_elem devices reference p capacity backend n = Some (outcome, n') \<and>
    (\<forall>ctx. outcome = Inr ctx \<longrightarrow> solver_state lib cpu gpu nth_elem p (cc_prepared ctx)) \<and>
    (\<not> available devices \<longrightarrow> n' = n \<and> (backend = backend_gpu \<longrightarrow> \<not> is_ok outcome) \<and>
      (\<forall>ctx. outcome = Inr ctx \<longrightarrow> (\<exists>pr. cc_prepared ctx = on_cpu pr)))"
proof -
  let ?checks = "rbind (validate_registration_parameters p) (\<lambda>_.
    require (\<not> (sv_unit reference \<noteq> millimeter \<or> capacity = 0 \<or> 2 ^ 31 - 1 < capacity))
      (context_error ''reference must use millimetres; scan capacity must be in [1, INT32_MAX]'' invalid_input) (
    require (registration_backend_available_cuda devices backend)
      (context_error ''requested registration backend is unavailable'' invalid_argument) (
    Surface_create (sv_points reference) (sv_normals reference) (sv_valid reference) (sv_grid reference)
      (sv_unit reference) (sv_frame reference))))"
  let ?selected = "select_backend backend (unat (sv_size reference)) capacity
    (backend = backend_automatic \<and> gpu_size_eligible (unat (sv_size reference)) capacity \<and> registration_backend_available_cuda devices backend_gpu)"
  note unfolded = RegistrationContext_create_cuda_def [of lib cpu gpu nth_elem devices reference p capacity backend n]
  show ?thesis
  proof (cases ?checks)
    case (Inl e)
    then show ?thesis unfolding unfolded by simp
  next
    case (Inr snapshot)
    then have backend: "registration_backend_available_cuda devices backend" by (auto simp: rbind_Inr_iff require_Inr_iff)
    obtain outcome n' where run: "prepare_registration_cuda lib cpu gpu nth_elem snapshot p capacity ?selected n = Some (outcome, n')"
      and state: "\<forall>prepared. outcome = Inr prepared \<longrightarrow> solver_state lib cpu gpu nth_elem p prepared"
      using prepared_returns [OF assms] by blast
    have "?selected = backend_cpu \<and> backend \<noteq> backend_gpu" if "\<not> available devices"
      using backend that by (auto simp: registration_backend_available_cuda_def select_backend_def)
    then have "n' = n \<and> (\<forall>prepared. outcome = Inr prepared \<longrightarrow> (\<exists>pr. prepared = on_cpu pr)) \<and> backend \<noteq> backend_gpu" if "\<not> available devices"
      using run that by (cases "Prepared_create lib cpu snapshot p capacity backend_cpu") (auto simp: prepare_registration_cuda_def)
    then show ?thesis unfolding unfolded Inr using run state by (auto simp: rbind_Inr_iff Let_def)
  qed
qed

lemma context_aligns:
  assumes "solver_state lib cpu gpu nth_elem p (cc_prepared ctx)" "gpu_ok gpu" "permutes_range nth_elem" "surface_ok scan"
  shows "\<exists>result ctx' n'. RegistrationContext_align_cuda lib gpu nth_elem ctx scan initial n = Some (result, ctx', n') \<and>
    (\<forall>m. result = Inr m \<longrightarrow> conforming p scan initial m) \<and> (\<forall>pr. cc_prepared ctx = on_cpu pr \<longrightarrow> n' = n)"
proof -
  obtain result prepared' n' where run: "PreparedRegistration_align lib gpu nth_elem (cc_prepared ctx) scan initial n = Some (result, prepared', n')"
    and result: "\<forall>m. result = Inr m \<longrightarrow> conforming p scan initial m"
    using aligned_returns [OF assms] by blast
  have "n' = n" if "cc_prepared ctx = on_cpu pr" for pr using run that by (simp add: PreparedRegistration_align_def)
  then show ?thesis using run result by (auto simp: RegistrationContext_align_cuda_def split: sum.split)
qed

text \<open>
  C24. In a build with CUDA a registration always returns, whatever the CUDA calls return: with an
  error, or with metrics that satisfy their contract. It asks for a GPU only where one is present, and
  a call that names a GPU on a machine without one is refused.
\<close>
theorem cuda_registration_returns:
  assumes "gpu_ok gpu" "permutes_range nth_elem" "surface_ok scan"
  shows "\<exists>result n'. register_surfaces_cuda lib cpu gpu nth_elem devices reference scan initial p backend n = Some (result, n') \<and>
    (\<forall>m. result = Inr m \<longrightarrow> conforming p scan initial m) \<and>
    (\<not> available devices \<longrightarrow> n' = n \<and> (backend = backend_gpu \<longrightarrow> \<not> is_ok result))"
proof (cases "RegistrationInput_create reference scan initial p")
  case (Inl e)
  then show ?thesis by (simp add: register_surfaces_cuda_def)
next
  case input: (Inr input)
  obtain outcome n1 where create: "RegistrationContext_create_cuda lib cpu gpu nth_elem devices reference p (unat (sv_size scan)) backend n = Some (outcome, n1)"
    and ctx: "\<And>ctx. outcome = Inr ctx \<Longrightarrow> solver_state lib cpu gpu nth_elem p (cc_prepared ctx)"
    and cpu: "\<not> available devices \<Longrightarrow> n1 = n \<and> (backend = backend_gpu \<longrightarrow> \<not> is_ok outcome) \<and>
      (\<forall>ctx. outcome = Inr ctx \<longrightarrow> (\<exists>pr. cc_prepared ctx = on_cpu pr))"
    using context_returns [OF assms(2), of lib cpu gpu devices reference p "unat (sv_size scan)" backend n] by blast
  show ?thesis
  proof (cases outcome)
    case (Inl e)
    then show ?thesis using input create cpu by (auto simp: register_surfaces_cuda_def)
  next
    case (Inr ctx')
    obtain result ctx2 n2 where align: "RegistrationContext_align_cuda lib gpu nth_elem ctx' scan initial n1 = Some (result, ctx2, n2)"
      and result: "\<forall>m. result = Inr m \<longrightarrow> conforming p scan initial m" "\<And>pr. cc_prepared ctx' = on_cpu pr \<Longrightarrow> n2 = n1"
      using context_aligns [OF ctx [OF Inr] assms, of initial n1] by blast
    then show ?thesis using input create Inr cpu by (auto simp: register_surfaces_cuda_def is_ok_def)
  qed
qed

theorem cuda_registration_returns_witness:
  "(\<exists>result n'. register_surfaces_cuda (sample_library []) None working_gpu keep_order (Some 1) Engine.sample_reference sample_cloud
      sample_pose sample_parameters backend_gpu 0 = Some (result, n')) \<and>
   (\<exists>result. register_surfaces_cuda (sample_library []) None working_gpu keep_order None Engine.sample_reference sample_cloud
      sample_pose sample_parameters backend_gpu 0 = Some (result, 0) \<and> \<not> is_ok result)"
proof -
  note returns = cuda_registration_returns [OF working_gpu_ok(1) keep_order_permutes sample_reference_ok(2)]
  have "\<not> available None" by (simp add: available_def)
  then have "\<exists>result. register_surfaces_cuda (sample_library []) None working_gpu keep_order None Engine.sample_reference sample_cloud
      sample_pose sample_parameters backend_gpu 0 = Some (result, 0) \<and> \<not> is_ok result"
    using returns [of "sample_library []" None None Engine.sample_reference sample_pose sample_parameters backend_gpu 0] by auto
  then show ?thesis
    using returns [of "sample_library []" None "Some 1" Engine.sample_reference sample_pose sample_parameters backend_gpu 0] by auto
qed

subsection \<open>Without a GPU\<close>

lemma selected_cpu:
  assumes "backend = backend_cpu \<or> backend = backend_automatic \<and> \<not> (available devices \<and> gpu_size_eligible n capacity)"
  shows "select_backend backend n capacity (backend = backend_automatic \<and> gpu_size_eligible n capacity \<and>
      registration_backend_available_cuda devices backend_gpu) = backend_cpu"
    and "registration_backend_available_cuda devices backend" "registration_backend_available backend"
    and "select_backend backend n capacity (backend = backend_automatic \<and> gpu_size_eligible n capacity \<and>
      registration_backend_available backend_gpu) = backend_cpu"
  using assms by (auto simp: select_backend_def registration_backend_available_cuda_def registration_backend_available_def)

text \<open>The context of this build for a context of the default build.\<close>

definition as_cuda :: "RegistrationContext_Impl \<Rightarrow> RegistrationContext_cuda" where
  "as_cuda impl = \<lparr>cc_reference = cx_reference impl, cc_parameters = cx_parameters impl, cc_capacity = cx_capacity impl,
     cc_actual_backend = cx_actual_backend impl, cc_prepared = on_cpu (cx_prepared impl)\<rparr>"

lemma context_create_cpu:
  assumes "backend = backend_cpu \<or> backend = backend_automatic \<and> \<not> (available devices \<and> gpu_size_eligible (unat (sv_size reference)) capacity)"
  shows "RegistrationContext_create_cuda lib cpu gpu nth_elem devices reference p capacity backend n =
    Some (case RegistrationContext_create lib cpu reference p capacity backend of Inl e \<Rightarrow> Inl e | Inr ctx \<Rightarrow> Inr (as_cuda (the ctx)), n)"
proof -
  note selected = selected_cpu [OF assms]
  show ?thesis
    unfolding RegistrationContext_create_cuda_def RegistrationContext_create_def selected
    by (cases "validate_registration_parameters p";
        cases "Surface_create (sv_points reference) (sv_normals reference) (sv_valid reference) (sv_grid reference) (sv_unit reference) (sv_frame reference)")
      (auto simp: require_def selected Let_def prepare_registration_cuda_def prepare_registration_def as_cuda_def
        RegistrationContext_Impl_create_def caught_context_def rbind_def map_sum_def split: sum.split exn.split)
qed

lemma context_align_cpu:
  "RegistrationContext_align_cuda lib gpu nth_elem (as_cuda impl) scan initial n =
     Some (RegistrationContext_align lib (Some impl) scan initial, as_cuda impl, n)"
  by (auto simp: RegistrationContext_align_cuda_def RegistrationContext_align_def as_cuda_def PreparedRegistration_align_def
      require_def rbind_def split: sum.split)

lemma created_context: "RegistrationContext_create lib cpu reference p capacity backend = Inr ctx \<Longrightarrow> \<exists>impl. ctx = Some impl"
  by (auto simp: RegistrationContext_create_def require_Inr_iff rbind_Inr_iff Let_def)

text \<open>
  C23. A build with CUDA is a build without it, wherever it does not use the GPU: a registration on the
  CPU, or one that leaves the choice open on a machine without a device or for clouds below the
  threshold, returns exactly the result or error of the default build and makes no CUDA call of the
  solver.
\<close>
theorem cuda_build_same_on_cpu:
  assumes "backend = backend_cpu \<or>
    backend = backend_automatic \<and> \<not> (available devices \<and> gpu_size_eligible (unat (sv_size reference)) (unat (sv_size scan)))"
  shows "register_surfaces_cuda lib cpu gpu nth_elem devices reference scan initial p backend n =
    Some (register_surfaces lib cpu reference scan initial p backend, n)"
proof (cases "RegistrationInput_create reference scan initial p")
  case (Inr input)
  show ?thesis
  proof (cases "RegistrationContext_create lib cpu reference p (unat (sv_size scan)) backend")
    case (Inl e)
    then show ?thesis using Inr context_create_cpu [OF assms] by (simp add: register_surfaces_cuda_def register_surfaces_def)
  next
    case ctx: (Inr ctx)
    then obtain impl where "ctx = Some impl" using created_context by blast
    then show ?thesis using Inr ctx context_create_cpu [OF assms] context_align_cpu
      by (simp add: register_surfaces_cuda_def register_surfaces_def)
  qed
qed (simp add: register_surfaces_cuda_def register_surfaces_def)

theorem cuda_build_same_on_cpu_witness:
  "register_surfaces_cuda (sample_library []) None working_gpu keep_order (Some 1) Engine.sample_reference sample_cloud sample_pose
     sample_parameters backend_cpu 0 = Some (Inr sample_metrics_degenerate, 0)"
  using cuda_build_same_on_cpu [of backend_cpu "Some 1" Engine.sample_reference sample_cloud "sample_library []" None working_gpu
    keep_order sample_pose sample_parameters 0] sample_registered by simp

end
