(* ===== verification/Spec2Isabelle.thy ===== *)
theory Spec2Isabelle
  imports Pipeline Voxel Cli CudaEngine
begin

text \<open>
  PointCloudAD compares a scanned point cloud with a reference cloud and reports dents, bumps and
  missing material. This development models the C++ library and its command line, in the default build
  on the CPU and in the build with CUDA, and proves the properties that make an inspection verdict
  trustworthy.

  \<^bold>\<open>Parts of the program and their theories.\<close> One theory follows one group of source files under
  \<open>src/src\<close> and keeps the order of their operations; a theory imports the components it calls.

  \<^item> \<open>Prelude\<close>: the result type of a fallible operation (\<open>Error + 'a\<close>), the early-exit loops \<open>foldM\<close>
    and \<open>foldO\<close>, array writes, machine widths, and the lemmas about them that every component uses.
  \<^item> \<open>IEEE754\<close>: binary32 and binary64 as a datatype of exact rationals with infinities, NaN and the
    negative zero, with round-to-nearest-even arithmetic, comparisons, conversions and square root.
    Its lemmas give monotonicity of rounding, exactness on representable values and the facts about
    counts and ratios used for statistics. \<open>FloatBits\<close>: the bytes of a \<open>float\<close> in memory.
  \<^item> \<open>Core\<close>, \<open>Utf8\<close>, \<open>Geometry\<close>, \<open>Surface\<close>, \<open>Config\<close>, \<open>Normalization\<close>: the public headers under
    \<open>src/include/pointcloud_ad\<close>: errors and results, the frame-name byte loop, rigid transforms,
    surfaces and grids with 64-bit extents kept as words, configurations, and unit and frame
    normalization.
  \<^item> \<open>Preprocess\<close>: \<open>preprocess/validity.cpp\<close>, \<open>preprocess/normal_boundary.cpp\<close> and
    \<open>backends/pcl/pcl_preprocess_backend.cpp\<close>. \<open>Voxel\<close>: \<open>preprocess/voxel_sampling.cpp\<close>.
  \<^item> \<open>CpuExecutor\<close>: \<open>registration/cpu_executor.hpp\<close> as a step relation between a caller and its
    workers, which sleep on two condition variables: a notification wakes the threads that sleep at
    that moment, and any sleeper may also wake spuriously; the destructor included. Invariants over
    reachable states by rule induction, and a measure that bounds every run.
  \<^item> \<open>Registration\<close>, \<open>Kernels\<close>, \<open>Icp\<close>, \<open>Engine\<close>: registration inputs, metrics and the gate, kernel
    and backend selection, the scalar and AVX2 kernels, the iterative solver of
    \<open>backends/pcl/pcl_registration_backend.cpp\<close>, and the reusable registration context of
    \<open>registration/registration_engine.cpp\<close>.
  \<^item> \<open>Comparison\<close>: nearest neighbours, deviation and coverage fields, and statistics.
  \<^item> \<open>UnionFind\<close>, \<open>Detection\<close>, \<open>Region\<close>: Euclidean clustering, defect clusters, and the measured
    regions with their severity.
  \<^item> \<open>Pipeline\<close>: \<open>pipeline/inspection_pipeline.cpp\<close>, all stages of one run, the one-shot pipeline and
    the reusable inspection context.
  \<^item> \<open>PclConversion\<close>, \<open>CloudFile\<close>: \<open>backends/pcl/pcl_backend.cpp\<close>, \<open>pcl_io_backend.cpp\<close> and the
    adapters under \<open>io\<close>: surfaces as clouds of the library, and as PCD and PLY files.
  \<^item> \<open>Serialization\<close>, \<open>Output\<close>, \<open>Cli\<close>: the JSON documents, the digest and the attribute files of
    \<open>serialization\<close>, and \<open>cli/main.cpp\<close> over a world of files and two output streams.
  \<^item> \<open>SpatialIndex\<close>: \<open>backends/cuda/spatial_index.hpp\<close>. \<open>CudaSearch\<close>, \<open>CudaKnn\<close>, \<open>CudaEquations\<close>,
    \<open>CudaCovariance\<close>: the kernels of \<open>backends/cuda/cuda_correspondence.cu\<close> (searches, self-neighbours,
    resident normal equations with their reduction, covariances). \<open>CudaHost\<close>: the class
    \<open>CorrespondenceSearch\<close> of that file, the operations that allocate, copy and launch.
  \<^item> \<open>CudaSolver\<close>, \<open>CudaRegistration\<close>, \<open>CudaEngine\<close>: what the solver relies on in that class, the branches
    of the solver and of the registration engine that are compiled with CUDA.

  \<^bold>\<open>Correspondence.\<close> Records have the fields of the C++ structs with a prefix of the struct's
  initials; enumerations are datatypes, with an extra constructor for an unnamed value where the code
  handles one. Owned surfaces and views are one record. Sizes and indices into containers are naturals
  bounded by the container's length; the 64-bit arithmetic of a grid and the 32-bit counters of
  options and reports are words. A container that the code writes by index is a list updated by
  index, and the invariants show that every index is in range. \<open>std::map\<close> is a sorted association
  list, \<open>std::sort\<close> on numbers is insertion sort.

  A host operation of the CUDA backend is a function of the object's state and of the number of
  status-checked calls made so far. Its outcome is \<open>None\<close> where the C++ behaviour is undefined (a null
  device pointer, a read of an unwritten cell, a conversion out of range), else a value or an exception
  with the new state. A kernel is one function of the thread's index; threads that share memory are
  modelled block by block, in the phases that the barriers separate.

  \<^bold>\<open>Parameters.\<close> Code outside the repository is an argument:
  the k-d tree searches and the plane fit of PCL, the solver and eigenvalue routines of Eigen,
  trigonometric functions, the CPU's feature registers, the iteration order of an unordered map,
  clocks and version strings (records \<open>solver_library\<close> and \<open>environment\<close>); the JSON library
  (\<open>json_library\<close>); the file system and the cloud files of PCL (\<open>file_system\<close>, \<open>cloud_library\<close>,
  \<open>conversion_library\<close>); \<open>std::nth_element\<close>; the number of CUDA devices; and the GPU (record \<open>gpu\<close>:
  the outcome of the n-th status-checked call, the device in use, the contents of fresh memory and
  of memory after a copy that failed). A file system answers every write with what was stored and
  whether the stream reports success; nothing is assumed of these answers.
  Hypotheses about them are documented behaviour only: a search returns positions of the cloud it
  searches (\<open>search_in_range\<close>), the traversal of a hash map visits every key once
  (\<open>visits_each_key\<close>), \<open>nth_element\<close> permutes its range and partitions it at the position asked for,
  a JSON text that was printed is parsed to the value it was printed from. Nothing is assumed of the GPU
  in the theorems that an operation returns: every call may fail.

  \<^bold>\<open>What the lemmas show.\<close> Each theory first proves what an operation returns on each branch
  (lemmas ending in \<open>Inr\<close> or \<open>Inr_iff\<close>), then the invariant of its data and that operations preserve it
  (\<open>surface_ok\<close>, \<open>exec_inv\<close>, the forest invariant of \<open>UnionFind\<close>, the hierarchy \<open>bvh\<close>, \<open>reliable\<close> and
  \<open>gpu_solver\<close> for the device), and then its properties, numbered C1, C2 and so on. Properties of a
  component stand in its theory. The host operations are verified with a weakest-precondition
  calculus (\<open>wp\<close> in \<open>CudaHost\<close>): its postconditions cover the return and every exception. Locales
  state the interfaces (the traversal of a surface, the disjoint-set forest, the lanes of a kernel,
  the job of a block, the neighbour lookup) and are interpreted on the model.

  \<^bold>\<open>Loops and termination.\<close> Loops over containers are structural recursion. The solver's loop runs
  at most \<open>max_iterations\<close> rounds and recurses on that count. Host loops over batches, tiles of a
  search, padding and the construction of the index are \<open>function\<close>s with a measure. Three loops may
  diverge or leave their arrays on arbitrary data and are \<open>partial_function (option)\<close>: \<open>find\<close> of the
  disjoint-set forest and the two traversals of the hierarchy. Every caller carries the option;
  \<open>inspection_returns\<close> shows that a run of the pipeline on well-formed surfaces always returns, and
  the theorems about the device that the traversals do. Their stack has 64 entries as in the code:
  the hierarchy halves its ranges, so a depth of 32 is enough for every number of points that fits an
  \<open>int\<close> (\<open>knn_stack_suffices\<close>).

  \<^bold>\<open>Not modelled.\<close> Allocation failures on the host and other exceptions of the standard library, of
  which only those the code itself throws are branches of the model; a thread that cannot be created in the constructor of the executor, and the memory
  model: the critical sections of the executor are single steps, interleaved in any order; the destructor of the CUDA object and the
  lifetime of memory that an unfinished asynchronous copy still uses; the timing of warps between two
  barriers; the contraction to fused multiply-add, which the host build does not enable and the CUDA
  target switches off (\<open>--fmad=false\<close>). The build options, version headers and the static assertions carry no
  behaviour. The inspection pipeline is composed with the registration of the default build.
\<close>

end
